(* ===== verification/Py_Base.thy ===== *)
theory Py_Base
  imports Main "HOL-Library.AList" "HOL-Library.Char_ord" "HOL-Library.List_Lexorder"
begin

text \<open>
  The prelude of the development: the fragment of Python the modelled services compute with.

  \<^item> \<open>pyval\<close> is the type of the dynamically typed values the services pass around in
    payloads (\<open>Any\<close>, \<open>Dict[str, Any]\<close>): \<open>None\<close>, booleans, integers, strings, lists and
    dictionaries. Floats inside payloads are outside the model. A dictionary is an
    association list in insertion order, and \<open>dset\<close> updates in place or appends, as
    Python does.
  \<^item> Strings are \<open>char list\<close>, one \<open>char\<close> per code point below 256.
  \<^item> Exceptions are the values of \<open>py_error\<close>; a fallible function returns \<open>py_error + 'a\<close>.
\<close>

subsection \<open>Collections of facts shared by the component theories\<close>

named_theorems py_str "facts about the string functions"
named_theorems py_dict "facts about dictionaries"
named_theorems py_eval "definitions unfolded to evaluate a closed term"

subsection \<open>Values\<close>

datatype pyval =
    PNone
  | PBool bool
  | PInt int
  | PStr string
  | PList "pyval list"
  | PDict "(string \<times> pyval) list"

type_synonym pydict = "(string \<times> pyval) list"

datatype py_error =
    ValueError string
  | TypeError string
  | RuntimeError string
  | PersistenceError string
  | VersionConflictError string
  | ClaimConflictError string
  | KernelDecisionError string
  | KernelApprovalRequired string
  | KeyError string
  | DriverError string
  | GateError string
  | AttributeError string

type_synonym 'a res = "py_error + 'a"

subsection \<open>Strings\<close>

text \<open>\<open>str.isspace\<close> for the code points below 256.\<close>

definition py_space :: "char \<Rightarrow> bool" where
  "py_space c = (c \<in> set [CHR '' '', CHR 0x09, CHR 0x0A, CHR 0x0B, CHR 0x0C, CHR 0x0D,
     CHR 0x1C, CHR 0x1D, CHR 0x1E, CHR 0x1F, CHR 0x85, CHR 0xA0])"

definition strip :: "string \<Rightarrow> string" where
  "strip s = rev (dropWhile py_space (rev (dropWhile py_space s)))"

text \<open>
  \<open>str.lower\<close> below code point 256: 65 to 90 and 192 to 222 but 215 move up by 32, which
  sets bit 5. The condition reads the bits: codes 64 to 95 without 64 and 91 to 95, or
  192 to 223 without 215 and 223.
\<close>

fun py_lower_char :: "char \<Rightarrow> char" where
  "py_lower_char (Char b0 b1 b2 b3 b4 b5 b6 b7) =
     (if b6 \<and> \<not> b5 \<and>
         (if b7 then \<not> (b0 \<and> b1 \<and> b2 \<and> b4)
          else (b0 \<or> b1 \<or> b2 \<or> b3 \<or> b4) \<and> \<not> (b4 \<and> b3 \<and> (b2 \<or> (b1 \<and> b0))))
      then Char b0 b1 b2 b3 b4 True b6 b7 else Char b0 b1 b2 b3 b4 b5 b6 b7)"

definition lower :: "string \<Rightarrow> string" where
  "lower s = map py_lower_char s"

definition py_startswith :: "string \<Rightarrow> string \<Rightarrow> bool" where
  "py_startswith s p = (take (length p) s = p)"

text \<open>\<open>p in s\<close> on texts.\<close>

fun contains :: "string \<Rightarrow> string \<Rightarrow> bool" where
  "contains p [] = (p = [])"
| "contains p (c # s) = (py_startswith (c # s) p \<or> contains p s)"

definition nl :: string where
  "nl = [CHR 0x0A]"

fun nat_digits :: "nat \<Rightarrow> string" where
  "nat_digits n = (if n < 10 then [''0123456789'' ! n]
     else nat_digits (n div 10) @ [''0123456789'' ! (n mod 10)])"

declare nat_digits.simps [simp del]

definition py_int_str :: "int \<Rightarrow> string" where
  "py_int_str i = (if i < 0 then ''-'' @ nat_digits (nat (- i)) else nat_digits (nat i))"

fun join :: "string \<Rightarrow> string list \<Rightarrow> string" where
  "join sep [] = []"
| "join sep [x] = x"
| "join sep (x # xs) = x @ sep @ join sep xs"

definition hex_digit :: "nat \<Rightarrow> char" where
  "hex_digit n = ''0123456789abcdef'' ! n"

text \<open>\<open>repr\<close> of a string: single quotes unless it holds one and no double quote.\<close>

definition repr_char :: "char \<Rightarrow> char \<Rightarrow> string" where
  "repr_char q c = (let n = of_char c :: nat in
     if c = q \<or> n = 92 then [CHR 0x5C, c]
     else if n = 10 then [CHR 0x5C, CHR ''n'']
     else if n = 13 then [CHR 0x5C, CHR ''r'']
     else if n = 9 then [CHR 0x5C, CHR ''t'']
     else if n < 32 \<or> (127 \<le> n \<and> n \<le> 160) \<or> n = 173
       then [CHR 0x5C, CHR ''x'', hex_digit (n div 16), hex_digit (n mod 16)]
     else [c])"

definition repr_str :: "string \<Rightarrow> string" where
  "repr_str s = (let q = (if CHR 0x27 \<in> set s \<and> CHR 0x22 \<notin> set s then CHR 0x22 else CHR 0x27)
     in [q] @ concat (map (repr_char q) s) @ [q])"

fun py_repr :: "pyval \<Rightarrow> string"
and repr_list :: "pyval list \<Rightarrow> string list"
and repr_items :: "(string \<times> pyval) list \<Rightarrow> string list" where
  "py_repr PNone = ''None''"
| "py_repr (PBool b) = (if b then ''True'' else ''False'')"
| "py_repr (PInt i) = py_int_str i"
| "py_repr (PStr s) = repr_str s"
| "py_repr (PList xs) = ''['' @ join '', '' (repr_list xs) @ '']''"
| "py_repr (PDict d) = ''{'' @ join '', '' (repr_items d) @ ''}''"
| "repr_list [] = []"
| "repr_list (x # xs) = py_repr x # repr_list xs"
| "repr_items [] = []"
| "repr_items ((k, v) # d) = (repr_str k @ '': '' @ py_repr v) # repr_items d"

text \<open>\<open>str(value)\<close>.\<close>

fun py_str_of :: "pyval \<Rightarrow> string" where
  "py_str_of (PStr s) = s"
| "py_str_of v = py_repr v"

text \<open>\<open>str(exc)\<close>: the message an exception was raised with; a \<open>KeyError\<close> shows its key.\<close>

fun exc_text :: "py_error \<Rightarrow> string" where
  "exc_text (ValueError m) = m"
| "exc_text (TypeError m) = m"
| "exc_text (RuntimeError m) = m"
| "exc_text (PersistenceError m) = m"
| "exc_text (VersionConflictError m) = m"
| "exc_text (ClaimConflictError m) = m"
| "exc_text (KernelDecisionError m) = m"
| "exc_text (KernelApprovalRequired m) = m"
| "exc_text (KeyError m) = repr_str m"
| "exc_text (DriverError m) = m"
| "exc_text (GateError m) = m"
| "exc_text (AttributeError m) = m"

text \<open>
  \<open>str(datetime)\<close> and \<open>datetime.isoformat()\<close> of a UTC moment, given in microseconds since the
  epoch: the date by the proleptic Gregorian calendar, then the time, with the microseconds
  when they are not zero.
\<close>

definition civil :: "int \<Rightarrow> int \<times> int \<times> int" where
  "civil days =
     (let z = days + 719468;
          era = z div 146097;
          doe = z mod 146097;
          yoe = (doe - doe div 1460 + doe div 36524 - doe div 146096) div 365;
          doy = doe - (365 * yoe + yoe div 4 - yoe div 100);
          mp = (5 * doy + 2) div 153;
          d = doy - (153 * mp + 2) div 5 + 1;
          m = (if mp < 10 then mp + 3 else mp - 9)
      in (yoe + era * 400 + (if m \<le> 2 then 1 else 0), m, d))"

definition pad :: "nat \<Rightarrow> int \<Rightarrow> string" where
  "pad w i = (let s = nat_digits (nat i) in replicate (w - length s) (CHR ''0'') @ s)"

definition datetime_text :: "string \<Rightarrow> int \<Rightarrow> string" where
  "datetime_text sep t =
     (let (y, m, d) = civil (t div 86400000000); us = t mod 86400000000; s = us div 1000000
      in pad 4 y @ ''-'' @ pad 2 m @ ''-'' @ pad 2 d @ sep
         @ pad 2 (s div 3600) @ '':'' @ pad 2 (s div 60 mod 60) @ '':'' @ pad 2 (s mod 60)
         @ (if us mod 1000000 = 0 then [] else ''.'' @ pad 6 (us mod 1000000)) @ ''+00:00'')"

definition datetime_str :: "int \<Rightarrow> string" where
  "datetime_str t = datetime_text '' '' t"

definition isoformat :: "int \<Rightarrow> string" where
  "isoformat t = datetime_text ''T'' t"

text \<open>\<open>isoformat().replace("+00:00", "Z")\<close>.\<close>

definition zulu :: "int \<Rightarrow> string" where
  "zulu t = (let s = isoformat t in take (length s - 6) s @ ''Z'')"

text \<open>\<open>value.replace("Z", "+00:00")\<close>.\<close>

definition replace_Z :: "string \<Rightarrow> string" where
  "replace_Z s = concat (map (\<lambda>c. if c = CHR ''Z'' then ''+00:00'' else [c]) s)"

subsection \<open>JSON text\<close>

definition json_char :: "char \<Rightarrow> string" where
  "json_char c = (let n = of_char c :: nat in
     if n = 34 \<or> n = 92 then [CHR 0x5C, c]
     else if n = 10 then [CHR 0x5C, CHR ''n'']
     else if n = 13 then [CHR 0x5C, CHR ''r'']
     else if n = 9 then [CHR 0x5C, CHR ''t'']
     else if n = 8 then [CHR 0x5C, CHR ''b'']
     else if n = 12 then [CHR 0x5C, CHR ''f'']
     else if n < 32 then [CHR 0x5C, CHR ''u'', CHR ''0'', CHR ''0'', hex_digit (n div 16), hex_digit (n mod 16)]
     else [c])"

definition json_str :: "string \<Rightarrow> string" where
  "json_str s = [CHR 0x22] @ concat (map json_char s) @ [CHR 0x22]"

text \<open>\<open>json.dumps(v, ensure_ascii=False, separators=(",", ":"))\<close>.\<close>

fun json_dumps :: "pyval \<Rightarrow> string"
and json_list :: "pyval list \<Rightarrow> string list"
and json_items :: "(string \<times> pyval) list \<Rightarrow> string list" where
  "json_dumps PNone = ''null''"
| "json_dumps (PBool b) = (if b then ''true'' else ''false'')"
| "json_dumps (PInt i) = py_int_str i"
| "json_dumps (PStr s) = json_str s"
| "json_dumps (PList xs) = ''['' @ join '','' (json_list xs) @ '']''"
| "json_dumps (PDict d) = ''{'' @ join '','' (json_items d) @ ''}''"
| "json_list [] = []"
| "json_list (x # xs) = json_dumps x # json_list xs"
| "json_items [] = []"
| "json_items ((k, v) # d) = (json_str k @ '':'' @ json_dumps v) # json_items d"

text \<open>\<open>len(text.encode("utf-8"))\<close> for code points below 256.\<close>

definition utf8_len :: "string \<Rightarrow> int" where
  "utf8_len s = sum_list (map (\<lambda>c. if (of_char c :: nat) < 128 then 1 else 2) s)"

subsection \<open>Truth, \<open>or\<close>, conversions\<close>

fun truthy :: "pyval \<Rightarrow> bool" where
  "truthy PNone = False"
| "truthy (PBool b) = b"
| "truthy (PInt i) = (i \<noteq> 0)"
| "truthy (PStr s) = (s \<noteq> [])"
| "truthy (PList xs) = (xs \<noteq> [])"
| "truthy (PDict d) = (d \<noteq> [])"

definition por :: "pyval \<Rightarrow> pyval \<Rightarrow> pyval" where
  "por a b = (if truthy a then a else b)"

text \<open>\<open>str(value or "").strip()\<close>, on a dynamic value and on \<open>Optional[str]\<close>.\<close>

definition tok :: "pyval \<Rightarrow> string" where
  "tok v = strip (py_str_of (por v (PStr [])))"

fun opt_tok :: "string option \<Rightarrow> string" where
  "opt_tok None = []"
| "opt_tok (Some s) = strip s"

text \<open>\<open>s or default\<close> and \<open>s or None\<close> for strings.\<close>

definition sor :: "string \<Rightarrow> string \<Rightarrow> string" where
  "sor s d = (if s = [] then d else s)"

definition snone :: "string \<Rightarrow> string option" where
  "snone s = (if s = [] then None else Some s)"

text \<open>\<open>str(value or default).strip() or default\<close>.\<close>

definition text_or :: "pyval \<Rightarrow> string \<Rightarrow> string" where
  "text_or v d = sor (strip (py_str_of (por v (PStr d)))) d"

fun opt_val :: "string option \<Rightarrow> pyval" where
  "opt_val None = PNone"
| "opt_val (Some s) = PStr s"

fun opt_int_val :: "int option \<Rightarrow> pyval" where
  "opt_int_val None = PNone"
| "opt_int_val (Some i) = PInt i"

text \<open>\<open>int(value)\<close>: digits with single underscores between them, an optional sign, blanks around.\<close>

definition is_digit :: "char \<Rightarrow> bool" where
  "is_digit c = (c \<in> set ''0123456789'')"

fun parse_digits :: "int \<Rightarrow> string \<Rightarrow> int option" where
  "parse_digits acc [] = Some acc"
| "parse_digits acc (c # cs) =
     (if is_digit c then parse_digits (10 * acc + (int (of_char c) - 48)) cs
      else if c = CHR ''_'' then
        (case cs of [] \<Rightarrow> None
         | e # es \<Rightarrow> if is_digit e then parse_digits (10 * acc + (int (of_char e) - 48)) es else None)
      else None)"

definition parse_unsigned :: "string \<Rightarrow> int option" where
  "parse_unsigned s = (case s of [] \<Rightarrow> None
     | c # cs \<Rightarrow> if is_digit c then parse_digits 0 s else None)"

definition parse_int :: "string \<Rightarrow> int option" where
  "parse_int s = (case strip s of [] \<Rightarrow> None
     | c # cs \<Rightarrow> if c = CHR ''-'' then map_option uminus (parse_unsigned cs)
                 else if c = CHR ''+'' then parse_unsigned cs
                 else parse_unsigned (c # cs))"

fun py_int :: "pyval \<Rightarrow> int res" where
  "py_int (PBool b) = Inr (if b then 1 else 0)"
| "py_int (PInt i) = Inr i"
| "py_int (PStr s) = (case parse_int s of Some i \<Rightarrow> Inr i
     | None \<Rightarrow> Inl (ValueError (''invalid literal for int() with base 10: '' @ repr_str s)))"
| "py_int v = Inl (TypeError ''int() argument must be a string or a number'')"

text \<open>\<open>int(value or default)\<close> on \<open>Optional[int]\<close>: 0 falls back to the default too.\<close>

fun int_or :: "int option \<Rightarrow> int \<Rightarrow> int" where
  "int_or None d = d"
| "int_or (Some i) d = (if i = 0 then d else i)"

text \<open>Iterating over a value: a list, the keys of a dictionary, the characters of a string.\<close>

fun py_iter :: "pyval \<Rightarrow> pyval list res" where
  "py_iter (PList xs) = Inr xs"
| "py_iter (PDict d) = Inr (map (\<lambda>(k, _). PStr k) d)"
| "py_iter (PStr s) = Inr (map (\<lambda>c. PStr [c]) s)"
| "py_iter (PInt i) = Inl (TypeError ''int object is not iterable'')"
| "py_iter (PBool b) = Inl (TypeError ''bool object is not iterable'')"
| "py_iter PNone = Inl (TypeError ''NoneType object is not iterable'')"

subsection \<open>Dictionaries\<close>

text \<open>\<open>d.get(key)\<close>, \<open>d[key] = v\<close>, \<open>d.pop(key, None)\<close>, \<open>{**a, **b}\<close>.\<close>

definition dget :: "pydict \<Rightarrow> string \<Rightarrow> pyval" where
  "dget d k = (case map_of d k of None \<Rightarrow> PNone | Some v \<Rightarrow> v)"

definition dset :: "string \<Rightarrow> pyval \<Rightarrow> pydict \<Rightarrow> pydict" where
  "dset k v d = AList.update k v d"

definition dpop :: "string \<Rightarrow> pydict \<Rightarrow> pydict" where
  "dpop k d = AList.delete k d"

definition dsetdefault :: "string \<Rightarrow> pyval \<Rightarrow> pydict \<Rightarrow> pydict" where
  "dsetdefault k v d = (case map_of d k of None \<Rightarrow> dset k v d | Some _ \<Rightarrow> d)"

fun dmerge :: "pydict \<Rightarrow> pydict \<Rightarrow> pydict" where
  "dmerge a [] = a"
| "dmerge a ((k, v) # b) = dmerge (dset k v a) b"

fun dict_of :: "pyval \<Rightarrow> pydict" where
  "dict_of (PDict d) = d"
| "dict_of v = []"

fun is_dict :: "pyval \<Rightarrow> bool" where
  "is_dict (PDict d) = True"
| "is_dict v = False"

fun is_list :: "pyval \<Rightarrow> bool" where
  "is_list (PList xs) = True"
| "is_list v = False"

text \<open>
  Python's \<open>==\<close>: dictionaries compare by content, whatever their insertion order, and a
  boolean equals the integer it is.
\<close>

fun py_eq :: "pyval \<Rightarrow> pyval \<Rightarrow> bool"
and eq_list :: "pyval list \<Rightarrow> pyval list \<Rightarrow> bool"
and eq_items :: "(string \<times> pyval) list \<Rightarrow> (string \<times> pyval) list \<Rightarrow> bool" where
  "py_eq PNone w = (w = PNone)"
| "py_eq (PBool b) w = (case w of PBool c \<Rightarrow> b = c | PInt j \<Rightarrow> j = (if b then 1 else 0) | _ \<Rightarrow> False)"
| "py_eq (PInt i) w = (case w of PInt j \<Rightarrow> i = j | PBool b \<Rightarrow> i = (if b then 1 else 0) | _ \<Rightarrow> False)"
| "py_eq (PStr s) w = (w = PStr s)"
| "py_eq (PList xs) w = (case w of PList ys \<Rightarrow> eq_list xs ys | _ \<Rightarrow> False)"
| "py_eq (PDict d) w = (case w of PDict e \<Rightarrow> length d = length e \<and> eq_items d e | _ \<Rightarrow> False)"
| "eq_list [] ys = (ys = [])"
| "eq_list (x # xs) ys = (case ys of [] \<Rightarrow> False | y # ys' \<Rightarrow> py_eq x y \<and> eq_list xs ys')"
| "eq_items [] e = True"
| "eq_items ((k, v) # d) e = (case map_of e k of None \<Rightarrow> False | Some w \<Rightarrow> py_eq v w \<and> eq_items d e)"

subsection \<open>Facts\<close>

lemma strip_Nil [simp, py_str]: "strip [] = []"
  by (simp add: strip_def)

lemma dropWhile_rev_idem:
  "dropWhile P (rev (dropWhile P (rev (dropWhile P s)))) = rev (dropWhile P (rev (dropWhile P s)))"
proof (cases "dropWhile P s")
  case Nil
  show ?thesis by (simp only: Nil rev.simps dropWhile.simps)
next
  case (Cons c cs)
  then have "\<not> P c" by (metis dropWhile_eq_Cons_conv)
  moreover have "dropWhile P (rev (c # cs)) = dropWhile P (rev cs) @ [c] \<or> dropWhile P (rev (c # cs)) = [c]"
    using \<open>\<not> P c\<close> by (cases "\<forall>x\<in>set cs. P x") (auto simp: dropWhile_append)
  ultimately show ?thesis using Cons by auto
qed

lemma strip_strip [simp, py_str]: "strip (strip s) = strip s"
  unfolding strip_def using dropWhile_rev_idem [of py_space s]
  by (metis (no_types, lifting) dropWhile_idem rev_rev_ident)

lemma lower_Nil [simp, py_str]: "lower [] = []"
  by (simp add: lower_def)

lemma py_space_lower [simp, py_str]: "py_space (py_lower_char c) = py_space c"
  by (cases c) (auto simp: py_space_def)

lemma py_lower_char_idem [simp, py_str]: "py_lower_char (py_lower_char c) = py_lower_char c"
  by (cases c) auto

lemma lower_lower [simp, py_str]: "lower (lower s) = lower s"
  by (simp add: lower_def)

lemma lower_eq_Nil [simp, py_str]: "lower s = [] \<longleftrightarrow> s = []"
  by (simp add: lower_def)

lemma dropWhile_lower: "dropWhile py_space (map py_lower_char s) = map py_lower_char (dropWhile py_space s)"
  by (induction s) auto

lemma strip_lower [simp, py_str]: "strip (lower s) = lower (strip s)"
  by (simp add: strip_def lower_def dropWhile_lower rev_map)

lemma sor_Nil [simp, py_str]: "sor [] d = d"
  by (simp add: sor_def)

lemma sor_sor [simp, py_str]: "sor (sor s d) d = sor s d"
  by (simp add: sor_def)

lemma por_str_kept [simp, py_str]: "s \<noteq> [] \<Longrightarrow> por (PStr s) v = PStr s"
  by (simp add: por_def)

lemma sor_nonempty [py_str]: "d \<noteq> [] \<Longrightarrow> sor s d \<noteq> []"
  by (simp add: sor_def)

lemma snone_eq_None [simp, py_str]: "snone s = None \<longleftrightarrow> s = []"
  by (simp add: snone_def)

lemma snone_eq_Some [simp, py_str]: "snone s = Some t \<longleftrightarrow> s = t \<and> s \<noteq> []"
  by (auto simp: snone_def)

lemma text_or_facts [simp]:
  "strip d = d \<Longrightarrow> strip (text_or v d) = text_or v d" "d \<noteq> [] \<Longrightarrow> text_or v d \<noteq> []"
  by (simp_all add: text_or_def sor_def)

lemma sor_same [simp]: "d \<noteq> [] \<Longrightarrow> sor (text_or v d) d' = text_or v d"
  by (simp add: sor_def)

lemma tok_simps [simp, py_str]:
  "tok PNone = []" "tok (PStr s) = strip s" "tok (PDict []) = []" "tok (PList []) = []"
  by (auto simp: tok_def por_def)

lemma strip_tok [simp, py_str]: "strip (tok v) = tok v"
  by (simp add: tok_def)

lemma strip_opt_tok [simp, py_str]: "strip (opt_tok v) = opt_tok v"
  by (cases v) auto

lemma dget_Nil [simp, py_dict]: "dget [] k = PNone"
  by (simp add: dget_def)

lemma dget_dset [simp, py_dict]: "dget (dset k v d) k' = (if k = k' then v else dget d k')"
  by (simp add: dget_def dset_def update_conv')

lemma dset_new: "k \<notin> fst ` set d \<Longrightarrow> dset k v d = d @ [(k, v)]"
  by (induction d) (auto simp: dset_def)

lemma dget_dpop [simp, py_dict]: "dget (dpop k d) k' = (if k = k' then PNone else dget d k')"
  by (simp add: dget_def dpop_def delete_conv')

lemma dget_Cons [simp, py_dict]: "dget ((k, v) # d) k' = (if k = k' then v else dget d k')"
  by (simp add: dget_def)

lemma map_of_dset [py_dict]: "map_of (dset k v d) = (map_of d)(k \<mapsto> v)"
  by (simp add: dset_def update_conv')

lemma map_of_dpop [py_dict]: "map_of (dpop k d) = (map_of d)(k := None)"
  by (simp add: dpop_def delete_conv')

lemma dset_idem [simp, py_dict]: "dset k v (dset k w d) = dset k v d"
  by (induction d) (auto simp: dset_def)

subsection \<open>Walking the branches of an operation\<close>

text \<open>
  An operation returns a result and the new state. \<open>outcome s W\<close> holds the pairs whose state
  is the old one \<open>s\<close> or whose result \<open>v\<close> is a success with \<open>W v\<close> of the new state, so an
  operation whose value lies in it changes nothing when it fails. The rules of \<open>branch\<close> take
  such a membership through the cases of the operation's body.
\<close>

named_theorems branch "membership of a case expression, branch by branch"

definition outcome :: "'s \<Rightarrow> ('r \<Rightarrow> 's \<Rightarrow> bool) \<Rightarrow> (('e + 'r) \<times> 's) set" where
  "outcome s W = {(r, s'). s' = s \<or> (\<exists>v. r = Inr v \<and> W v s')}"

lemma branch_let [branch]: "(\<And>x. x = v \<Longrightarrow> f x \<in> A) \<Longrightarrow> (let x = v in f x) \<in> A"
  by simp

lemma branch_if [branch]: "(c \<Longrightarrow> a \<in> A) \<Longrightarrow> (\<not> c \<Longrightarrow> b \<in> A) \<Longrightarrow> (if c then a else b) \<in> A"
  by simp

lemma branch_sum [branch]:
  "(\<And>e. x = Inl e \<Longrightarrow> f e \<in> A) \<Longrightarrow> (\<And>a. x = Inr a \<Longrightarrow> g a \<in> A) \<Longrightarrow> case_sum f g x \<in> A"
  by (cases x) auto

lemma branch_option [branch]:
  "(x = None \<Longrightarrow> a \<in> A) \<Longrightarrow> (\<And>v. x = Some v \<Longrightarrow> f v \<in> A) \<Longrightarrow> case_option a f x \<in> A"
  by (cases x) auto

lemma branch_bool [branch]: "(x \<Longrightarrow> a \<in> A) \<Longrightarrow> (\<not> x \<Longrightarrow> b \<in> A) \<Longrightarrow> case_bool a b x \<in> A"
  by (cases x) auto

lemma branch_prod [branch]: "(\<And>a b. x = (a, b) \<Longrightarrow> f a b \<in> A) \<Longrightarrow> case_prod f x \<in> A"
  by (cases x) auto

lemma branch_list [branch]:
  "(x = [] \<Longrightarrow> a \<in> A) \<Longrightarrow> (\<And>y ys. x = y # ys \<Longrightarrow> f y ys \<in> A) \<Longrightarrow> case_list a f x \<in> A"
  by (cases x) auto

lemma branch_unchanged [branch]: "(r, s) \<in> outcome s W"
  by (simp add: outcome_def)

lemma branch_changed: "W v s' \<Longrightarrow> (Inr v, s') \<in> outcome s W"
  by (simp add: outcome_def)

lemma fst_pair: "c \<in> {c. fst c = r} \<Longrightarrow> c = (r, snd c)"
  by (cases c) simp

lemma fst_pair_ex: "c \<in> {c. \<exists>v. fst c = Inr v} \<Longrightarrow> \<exists>v. c = (Inr v, snd c)"
  by (cases c) simp

lemma outcome_state: "c \<in> outcome s W \<Longrightarrow> snd c = s \<or> (\<exists>v. fst c = Inr v \<and> W v (snd c))"
  by (auto simp: outcome_def)

lemma outcome_error: "c \<in> outcome s W \<Longrightarrow> fst c = Inl e \<Longrightarrow> snd c = s"
  by (auto simp: outcome_def)

lemma outcome_mono: "c \<in> outcome s W \<Longrightarrow> (\<And>v s'. W v s' \<Longrightarrow> W' v s') \<Longrightarrow> c \<in> outcome s W'"
  by (auto simp: outcome_def)

end
