(* ===== verification/Tables.thy ===== *)
theory Tables
  imports Main
begin

text \<open>
  Database tables as lists of rows with a key column, and the statements the repository
  issues on them: lookup by key, insert-or-replace, \<open>DELETE\<close>, \<open>UPDATE ... WHERE\<close>,
  \<open>ORDER BY ... LIMIT\<close>. Rows keep their insertion order; rows that tie in an \<open>ORDER BY\<close>
  keep it too.
\<close>

named_theorems table "facts about tables"

definition row_of :: "('r \<Rightarrow> 'k) \<Rightarrow> 'k \<Rightarrow> 'r list \<Rightarrow> 'r option" where
  "row_of key k rows = find (\<lambda>r. key r = k) rows"

fun put_row :: "('r \<Rightarrow> 'k) \<Rightarrow> 'r \<Rightarrow> 'r list \<Rightarrow> 'r list" where
  "put_row key r [] = [r]"
| "put_row key r (x # xs) = (if key x = key r then r # xs else x # put_row key r xs)"

definition del_rows :: "('r \<Rightarrow> bool) \<Rightarrow> 'r list \<Rightarrow> 'r list" where
  "del_rows P rows = filter (\<lambda>r. \<not> P r) rows"

definition upd_rows :: "('r \<Rightarrow> bool) \<Rightarrow> ('r \<Rightarrow> 'r) \<Rightarrow> 'r list \<Rightarrow> 'r list" where
  "upd_rows P f rows = map (\<lambda>r. if P r then f r else r) rows"

definition keys_distinct :: "('r \<Rightarrow> 'k) \<Rightarrow> 'r list \<Rightarrow> bool" where
  "keys_distinct key rows = distinct (map key rows)"

definition limit_rows :: "int \<Rightarrow> 'r list \<Rightarrow> 'r list" where
  "limit_rows n rows = take (nat n) rows"

text \<open>\<open>ORDER BY k DESC\<close>; rows with equal keys keep their order.\<close>

definition order_desc :: "('r \<Rightarrow> int) \<Rightarrow> 'r list \<Rightarrow> 'r list" where
  "order_desc k rows = sort_key (\<lambda>r. - k r) rows"

text \<open>SQL comparison of nullable columns: \<open>NULL = x\<close> is not true.\<close>

definition sql_eq :: "'a option \<Rightarrow> 'a option \<Rightarrow> bool" where
  "sql_eq a b = (a \<noteq> None \<and> a = b)"

text \<open>\<open>COALESCE(a, b)\<close>, and \<open>COALESCE(NULLIF(a, ''), b)\<close> on text.\<close>

fun coalesce :: "'a option \<Rightarrow> 'a option \<Rightarrow> 'a option" where
  "coalesce (Some a) b = Some a"
| "coalesce None b = b"

definition coalesce_text :: "string option \<Rightarrow> string option \<Rightarrow> string option" where
  "coalesce_text a b = (if a = None \<or> a = Some [] then b else a)"

subsection \<open>Facts\<close>

lemma row_of_Nil [simp, table]: "row_of key k [] = None"
  by (simp add: row_of_def)

lemma row_of_Cons [simp, table]:
  "row_of key k (r # rows) = (if key r = k then Some r else row_of key k rows)"
  by (simp add: row_of_def)

lemma row_of_put [simp, table]:
  "row_of key k (put_row key r rows) = (if k = key r then Some r else row_of key k rows)"
  by (induction rows) auto

lemma row_of_key [table]: "row_of key k rows = Some r \<Longrightarrow> key r = k \<and> r \<in> set rows"
  by (induction rows) (auto split: if_splits)

lemma row_of_None [table]: "row_of key k rows = None \<longleftrightarrow> k \<notin> key ` set rows"
  by (induction rows) auto

lemma row_of_append [table]:
  "row_of key k (xs @ ys) = (case row_of key k xs of None \<Rightarrow> row_of key k ys | Some r \<Rightarrow> Some r)"
  by (induction xs) auto

lemma row_of_del_key [simp, table]:
  "row_of key k (del_rows (\<lambda>r. key r = k') rows) = (if k = k' then None else row_of key k rows)"
  by (induction rows) (auto simp: del_rows_def)

lemma row_of_del_keyed [table]:
  assumes "keys_distinct key rows" and "\<And>r. P r \<Longrightarrow> key r = k'"
  shows "row_of key k (del_rows P rows) =
    (case row_of key k rows of None \<Rightarrow> None | Some r \<Rightarrow> if P r then None else Some r)"
  using assms(1)
proof (induction rows)
  case Nil
  then show ?case by (simp add: del_rows_def)
next
  case (Cons r rows)
  have "row_of key k rows = None" if "key r = k"
    using Cons.prems that by (auto simp: keys_distinct_def row_of_None)
  then show ?case using Cons by (auto simp: del_rows_def keys_distinct_def split: option.splits)
qed

lemma row_of_upd [table]:
  assumes "\<And>r. key (f r) = key r" and "\<And>r. key r = k \<Longrightarrow> P r \<longleftrightarrow> Q r"
  shows "row_of key k (upd_rows P f rows) =
    map_option (\<lambda>r. if Q r then f r else r) (row_of key k rows)"
  using assms by (induction rows) (auto simp: upd_rows_def)

lemma row_of_upd_miss [table]:
  assumes "row_of key k rows = Some r" and "\<not> P r" and "\<And>r. key (f r) = key r"
  shows "row_of key k (upd_rows P f rows) = Some r"
  using assms by (induction rows) (auto simp: upd_rows_def split: if_splits)

lemma row_of_upd_hit [table]:
  assumes "row_of key k rows = Some r" and "P r" and "\<And>r. key (f r) = key r"
  shows "row_of key k (upd_rows P f rows) = Some (f r)"
  using assms by (induction rows) (auto simp: upd_rows_def split: if_splits)

lemma row_of_upd_None [table]:
  assumes "\<And>r. key (f r) = key r"
  shows "row_of key k (upd_rows P f rows) = None \<longleftrightarrow> row_of key k rows = None"
  using assms by (induction rows) (auto simp: upd_rows_def)

lemma upd_rows_none [table]: "\<forall>r \<in> set rows. \<not> P r \<Longrightarrow> upd_rows P f rows = rows"
  by (auto simp: upd_rows_def intro: map_idI)

lemma del_rows_none [table]: "\<forall>r \<in> set rows. \<not> P r \<Longrightarrow> del_rows P rows = rows"
  by (auto simp: del_rows_def)

lemma row_of_del_miss [table]:
  "row_of key k rows = Some r \<Longrightarrow> \<not> P r \<Longrightarrow> row_of key k (del_rows P rows) = Some r"
  by (induction rows) (auto simp: del_rows_def split: if_splits)

lemma row_of_mem [table]:
  "keys_distinct key rows \<Longrightarrow> r \<in> set rows \<Longrightarrow> row_of key (key r) rows = Some r"
  by (induction rows) (auto simp: keys_distinct_def)

lemma ex_row_iff [table]:
  assumes "keys_distinct key rows"
  shows "(\<exists>r \<in> set rows. key r = k \<and> P r) \<longleftrightarrow> (\<exists>r. row_of key k rows = Some r \<and> P r)"
  using row_of_mem [OF assms] row_of_key [of key k rows] by metis

lemma map_key_put:
  "map key (put_row key r rows) = (if key r \<in> key ` set rows then map key rows else map key rows @ [key r])"
  by (induction rows) auto

lemma keys_distinct_put [simp, table]: "keys_distinct key (put_row key r rows) = keys_distinct key rows"
  by (auto simp: keys_distinct_def map_key_put)

lemma set_put_row: "set (put_row key r rows) \<subseteq> insert r (set rows)"
  by (induction rows) auto

lemma keys_put_row: "key ` set (put_row key r rows) = insert (key r) (key ` set rows)"
  by (induction rows) auto

lemma keys_distinct_del [table]: "keys_distinct key rows \<Longrightarrow> keys_distinct key (del_rows P rows)"
  by (simp add: keys_distinct_def del_rows_def distinct_map_filter)

lemma keys_distinct_upd [table]:
  assumes "\<And>r. key (f r) = key r"
  shows "keys_distinct key (upd_rows P f rows) = keys_distinct key rows"
proof -
  have "map key (upd_rows P f rows) = map key rows"
    using assms by (simp add: upd_rows_def)
  then show ?thesis by (simp add: keys_distinct_def)
qed

lemma keys_distinct_Nil [simp, table]: "keys_distinct key []"
  by (simp add: keys_distinct_def)

lemma take_sorted_le:
  "sorted (map f xs) \<Longrightarrow> x \<in> set (take n xs) \<Longrightarrow> y \<in> set xs \<Longrightarrow> y \<notin> set (take n xs) \<Longrightarrow> f x \<le> f y"
proof -
  assume a: "sorted (map f xs)" "x \<in> set (take n xs)" "y \<in> set xs" "y \<notin> set (take n xs)"
  have "sorted (map f (take n xs) @ map f (drop n xs))" using a(1) by (simp flip: map_append)
  moreover have "y \<in> set (drop n xs)" using a(3,4) by (metis Un_iff append_take_drop_id set_append)
  ultimately show ?thesis using a(2) by (auto simp: sorted_append)
qed

lemma coalesce_None [simp, table]: "coalesce a None = a"
  by (cases a) auto

end
