(* ===== verification/Kernel_Gate.thy ===== *)
theory Kernel_Gate
  imports Py_Base Tables
begin

text \<open>
  The decision gate in front of every durable write. \<open>rust_runtime_kernel_client.py\<close> sends a
  request to the runtime kernel (another process) and raises unless the answer allows the
  operation; \<open>run_state_repository.py\<close> builds the request of each operation and checks that
  the answer's \<open>next_action\<close> is the one it is about to perform. The client call
  \<open>run_runtime_kernel\<close>, which runs the kernel process, is the parameter \<open>kern\<close> of the
  environment: a function from command and request to the decoded response. Its fail-closed
  responses (missing binary, timeout, bad JSON) are such responses too.
\<close>

subsection \<open>The environment of the repository\<close>

text \<open>
  \<open>now\<close> is \<open>NOW()\<close> in microseconds; \<open>pool_error\<close> is the message of
  \<open>require_durable_pool\<close> when no pool can be had; \<open>durable\<close> is
  \<open>durable_runtime_required()\<close>; \<open>fault k\<close> is the driver's error at the \<open>k\<close>-th database call
  in the code of an operation (call 0 creates the tables), and \<open>dup_error\<close> its message when a
  unique index refuses a row; \<open>dispatch\<close> is the error with which the synchronous facade fails to
  hand an operation to its event loop, if it does.
\<close>

record repo_env =
  kern :: "string \<Rightarrow> pydict \<Rightarrow> pydict"
  digest :: "pydict \<Rightarrow> string"
  now :: int
  pool_error :: "(string \<Rightarrow> string) option"
  durable :: bool
  fault :: "nat \<Rightarrow> string option"
  dup_error :: string
  dispatch :: "py_error option"

text \<open>The first error among the given database calls.\<close>

fun first_fault :: "repo_env \<Rightarrow> nat list \<Rightarrow> string option" where
  "first_fault E [] = None"
| "first_fault E (k # ks) = coalesce (fault E k) (first_fault E ks)"

definition sec :: "int \<Rightarrow> int" where
  "sec n = n * 1000000"

definition require_pool :: "repo_env \<Rightarrow> string \<Rightarrow> unit res" where
  "require_pool E operation = (case pool_error E of
     None \<Rightarrow> Inr ()
   | Some msg \<Rightarrow> Inl (PersistenceError (msg operation)))"

text \<open>\<open>_read_pool\<close>: \<open>Inr False\<close> is the value \<open>None\<close>.\<close>

definition read_pool :: "repo_env \<Rightarrow> string \<Rightarrow> bool res" where
  "read_pool E operation =
     (if durable E then (case require_pool E operation of Inl e \<Rightarrow> Inl e | Inr _ \<Rightarrow> Inr True)
      else Inr (pool_error E = None))"

definition safe_int :: "pyval \<Rightarrow> int \<Rightarrow> int" where
  "safe_int v dflt = (case py_int v of Inr i \<Rightarrow> i | Inl _ \<Rightarrow> dflt)"

subsection \<open>The client: normalising and enforcing a decision\<close>

definition decision_id :: "(pydict \<Rightarrow> string) \<Rightarrow> string \<Rightarrow> pydict \<Rightarrow> string" where
  "decision_id dig command payload = ''rkd_'' @ dig
     [(''command'', PStr (strip command)),
      (''operation'', PStr (strip (py_str_of (por (dget payload ''operation'') (por (PStr command) (PStr ''unknown'')))))),
      (''decision'', PStr (tok (dget payload ''decision''))),
      (''reason'', PStr (tok (dget payload ''reason''))),
      (''next_action'', PStr (tok (dget payload ''next_action''))),
      (''approval_required'', PBool (truthy (dget payload ''approval_required'')))]"

definition normalize_kernel_decision :: "(pydict \<Rightarrow> string) \<Rightarrow> string \<Rightarrow> pydict \<Rightarrow> pydict" where
  "normalize_kernel_decision dig command response =
     (let payload = response;
          decision = sor (strip (py_str_of (por (dget payload ''decision'')
                       (PStr (if dget payload ''ok'' = PBool True then ''allow'' else ''block''))))) ''block'';
          operation = sor (strip (py_str_of (por (dget payload ''operation'') (PStr command)))) ''unknown'';
          ok = (truthy (dget payload ''ok'') \<and> decision \<noteq> ''block'');
          approval = (truthy (dget payload ''approval_required'') \<or> decision = ''require_approval'');
          visibility = sor (strip (py_str_of (por (dget payload ''audit_visibility'')
                         (PStr (if decision \<in> {''block'', ''require_approval''} \<or> approval then ''security'' else ''standard''))))) ''standard'';
          normalized = dmerge payload
            [(''command'', PStr (sor (strip (py_str_of (por (dget payload ''command'') (por (PStr command) (PStr operation))))) ''unknown'')),
             (''ok'', PBool ok),
             (''decision'', PStr decision),
             (''reason'', PStr (strip (py_str_of (por (dget payload ''reason'')
                (PStr (if ok then ''rust_kernel_allowed'' else ''rust_kernel_blocked'')))))),
             (''operation'', PStr operation),
             (''next_action'', PStr (tok (dget payload ''next_action''))),
             (''audit_visibility'', PStr visibility),
             (''approval_required'', PBool approval),
             (''cacheable'', PBool (truthy (dget payload ''cacheable'')))]
      in dset ''decision_id'' (PStr (strip (py_str_of (por (dget payload ''decision_id'')
           (PStr (decision_id dig command normalized)))))) normalized)"

definition decision_reason :: "pydict \<Rightarrow> string" where
  "decision_reason d = strip (py_str_of (por (dget d ''reason'') (PStr ''rust_kernel_decision_blocked'')))"

definition enforce_kernel_decision ::
    "(pydict \<Rightarrow> string) \<Rightarrow> string \<Rightarrow> pydict \<Rightarrow> bool \<Rightarrow> pydict res" where
  "enforce_kernel_decision dig command response allow_approval_required =
     (let d = normalize_kernel_decision dig command response in
      if dget d ''decision'' = PStr ''block'' \<or> dget d ''ok'' = PBool False
        then Inl (KernelDecisionError (decision_reason d))
      else if dget d ''approval_required'' = PBool True \<and> \<not> allow_approval_required
        then Inl (KernelApprovalRequired (decision_reason d))
      else Inr d)"

definition run_runtime_kernel_enforced :: "repo_env \<Rightarrow> string \<Rightarrow> pydict \<Rightarrow> pydict res" where
  "run_runtime_kernel_enforced E command request =
     enforce_kernel_decision (digest E) command (kern E command request) False"

subsection \<open>Expected next actions\<close>

fun runtime_state_store_next_actions :: "string \<Rightarrow> string list option" where
  "runtime_state_store_next_actions operation = map_of
     [(''upsert_live_run'', [''write_live_run_state'']),
      (''delete_live_run'', [''delete_live_run_state'']),
      (''archive_run'', [''write_run_archive'']),
      (''create_or_update_approval_request'', [''write_run_approval_request'']),
      (''resolve_approval_if_pending'', [''resolve_run_approval'']),
      (''record_approval_resolution'', [''record_run_approval_resolution'']),
      (''upsert_runtime_registration'', [''write_runtime_registration'']),
      (''upsert_fleet_queue_partition'', [''write_fleet_queue_partition''])] operation"

fun run_record_next_actions :: "string \<Rightarrow> string list option" where
  "run_record_next_actions operation = map_of
     [(''register_live_run'', [''create_live_run_initial'']),
      (''persist_snapshot'', [''update_live_run_if_version_matches'']),
      (''record_transition'', [''noop'', ''record_transition'']),
      (''archive_payload'', [''archive_run'']),
      (''emit_transition_outbox'', [''emit_run_transition_event'', ''noop'']),
      (''emit_artifact_outbox'', [''emit_artifact_created_events'', ''noop'']),
      (''activate_live_run'', [''enqueue_local_companion_run'', ''hydrate_local_memory_context'', ''start_background_run''])]
     operation"

fun outbox_delivery_next_actions :: "string \<Rightarrow> string list option" where
  "outbox_delivery_next_actions operation = map_of
     [(''persist_event'', [''persist_outbox_event'']),
      (''list_undelivered'', [''list_undelivered_outbox_events'']),
      (''claim_due'', [''claim_due_outbox_events'']),
      (''patch_payload'', [''patch_outbox_event_payload'']),
      (''mark_delivered'', [''mark_outbox_event_delivered'']),
      (''record_failure'', [''record_outbox_delivery_failure'']),
      (''list_poisoned'', [''list_poisoned_outbox_events'']),
      (''delivery_status'', [''get_outbox_delivery_status''])] operation"

fun queue_claim_transition_next_actions :: "string \<Rightarrow> string list option" where
  "queue_claim_transition_next_actions operation = map_of
     [(''claim'', [''claim_queue_item'']),
      (''release'', [''release_queue_item'']),
      (''dead_letter'', [''dead_letter_queue_item''])] operation"

lemmas next_action_tables = runtime_state_store_next_actions.simps run_record_next_actions.simps
  outbox_delivery_next_actions.simps queue_claim_transition_next_actions.simps

declare next_action_tables [simp del]

text \<open>
  The check every \<open>_enforce_*_decision\<close> ends with: the operation is a known one and the
  decision names one of its next actions (the lists are in sorted order, as the message
  prints them).
\<close>

definition check_next_action ::
    "string \<Rightarrow> string \<Rightarrow> (string \<Rightarrow> string list option) \<Rightarrow> string \<Rightarrow> pydict \<Rightarrow> pydict res" where
  "check_next_action family command actions operation decision =
     (let next_action = tok (dget decision ''next_action'') in
      case actions operation of
        None \<Rightarrow> Inl (RuntimeError (''unexpected '' @ family @ '' operation: '' @ operation))
      | Some expected \<Rightarrow>
          if next_action \<notin> set expected
          then Inl (RuntimeError (''unexpected next_action for '' @ command @ '': '' @ sor next_action ''<missing>''
                 @ '' (expected '' @ join '', '' expected @ '')''))
          else Inr decision)"

subsection \<open>The requests\<close>

text \<open>Keyword arguments of \<open>_enforce_runtime_state_store_decision\<close>, with their defaults.\<close>

record store_request =
  sr_operation :: string
  sr_run_id :: "string option"
  sr_runtime_id :: "string option"
  sr_workspace_id :: "string option"
  sr_tenant_id :: "string option"
  sr_status :: "string option"
  sr_previous_status :: "string option"
  sr_trace_id :: "string option"
  sr_payload :: "pydict option"
  sr_expected_version :: "int option"
  sr_current_version :: "int option"
  sr_state_class :: "string option"
  sr_force :: bool

definition store_defaults :: "string \<Rightarrow> store_request" where
  "store_defaults operation = \<lparr>sr_operation = operation, sr_run_id = None, sr_runtime_id = None,
     sr_workspace_id = None, sr_tenant_id = None, sr_status = None, sr_previous_status = None,
     sr_trace_id = None, sr_payload = None, sr_expected_version = None, sr_current_version = None,
     sr_state_class = None, sr_force = False\<rparr>"

definition store_state_class :: "store_request \<Rightarrow> string" where
  "store_state_class r = (case sr_state_class r of Some c \<Rightarrow> c | None \<Rightarrow>
     (if sr_operation r \<in> {''create_or_update_approval_request'', ''resolve_approval_if_pending'', ''record_approval_resolution''}
        then ''run_approvals''
      else if sr_operation r = ''archive_run'' then ''run_archive''
      else if sr_operation r = ''upsert_runtime_registration'' then ''runtime_registrations''
      else ''live_runs''))"

definition enforce_runtime_state_store_decision :: "repo_env \<Rightarrow> store_request \<Rightarrow> pydict res" where
  "enforce_runtime_state_store_decision E r =
     (let payload_text = json_dumps (PDict (case sr_payload r of None \<Rightarrow> [] | Some p \<Rightarrow> p));
          request =
           [(''operation'', PStr (sr_operation r)),
            (''state_class'', PStr (store_state_class r)),
            (''storage_engine'', PStr ''durable_postgres''),
            (''workspace_id'', PStr (sor (opt_tok (sr_workspace_id r)) ''default'')),
            (''tenant_id'', PStr (sor (opt_tok (sr_tenant_id r)) ''default'')),
            (''run_id'', PStr (opt_tok (sr_run_id r))),
            (''runtime_id'', PStr (opt_tok (sr_runtime_id r))),
            (''status'', PStr (sor (opt_tok (sr_status r)) ''unknown'')),
            (''previous_status'', PStr (sor (opt_tok (sr_previous_status r)) ''unknown'')),
            (''trace_id'', PStr (opt_tok (sr_trace_id r))),
            (''payload'', PBool (sr_payload r \<noteq> None)),
            (''payload_bytes'', PInt (utf8_len payload_text)),
            (''expected_version'', opt_int_val (sr_expected_version r)),
            (''current_version'', opt_int_val (sr_current_version r)),
            (''durable_runtime_required'', PBool True),
            (''durable_pool_available'', PBool True),
            (''workspace_access'', PBool True),
            (''owner_access'', PBool True),
            (''force'', PBool (sr_force r))]
      in case run_runtime_kernel_enforced E ''runtime-state-store-decision'' request of
           Inl e \<Rightarrow> Inl e
         | Inr decision \<Rightarrow>
             check_next_action ''runtime_state_store'' ''runtime-state-store-decision''
               runtime_state_store_next_actions (sr_operation r) decision)"

text \<open>\<open>_enforce_run_record_decision\<close>: a kernel refusal becomes a persistence error.\<close>

record record_request =
  rr_operation :: string
  rr_run_id :: string
  rr_workspace_id :: string
  rr_tenant_id :: string
  rr_status :: "string option"
  rr_final_state :: "string option"
  rr_from_state :: "string option"
  rr_to_state :: "string option"
  rr_version :: "int option"

definition record_defaults :: "string \<Rightarrow> string \<Rightarrow> string \<Rightarrow> string \<Rightarrow> record_request" where
  "record_defaults operation run_id workspace_id tenant_id = \<lparr>rr_operation = operation, rr_run_id = run_id,
     rr_workspace_id = workspace_id, rr_tenant_id = tenant_id, rr_status = None, rr_final_state = None,
     rr_from_state = None, rr_to_state = None, rr_version = None\<rparr>"

fun opt_entry :: "string \<Rightarrow> string option \<Rightarrow> pydict" where
  "opt_entry k None = []"
| "opt_entry k (Some s) = [(k, PStr (strip s))]"

definition enforce_run_record_decision :: "repo_env \<Rightarrow> record_request \<Rightarrow> pydict res" where
  "enforce_run_record_decision E r =
     (let request =
           [(''operation'', PStr (rr_operation r)),
            (''run_id'', PStr (strip (rr_run_id r))),
            (''workspace_id'', PStr (sor (strip (rr_workspace_id r)) ''default'')),
            (''tenant_id'', PStr (sor (strip (rr_tenant_id r)) ''default''))]
           @ opt_entry ''status'' (rr_status r)
           @ opt_entry ''final_state'' (rr_final_state r)
           @ opt_entry ''from_state'' (rr_from_state r)
           @ opt_entry ''to_state'' (rr_to_state r)
           @ (case rr_version r of None \<Rightarrow> [] | Some v \<Rightarrow> [(''version'', PInt v)])
      in case run_runtime_kernel_enforced E ''run-record-decision'' request of
           Inl e \<Rightarrow> Inl (PersistenceError (''Rust run-record kernel blocked '' @ rr_operation r @ '': ''
                      @ strip (sor (exc_text e) ''run_record_denied'')))
         | Inr decision \<Rightarrow>
             check_next_action ''run_record'' ''run-record-decision''
               run_record_next_actions (rr_operation r) decision)"

fun apply_record_patch :: "pydict \<Rightarrow> pyval \<Rightarrow> pydict" where
  "apply_record_patch payload (PDict patch) = dmerge payload patch"
| "apply_record_patch payload v = payload"

definition apply_run_record_patch :: "pydict \<Rightarrow> pydict \<Rightarrow> pydict" where
  "apply_run_record_patch payload decision = apply_record_patch payload (dget decision ''record_patch'')"

text \<open>Keyword arguments of \<open>_enforce_outbox_delivery_decision\<close>, with their defaults.\<close>

record outbox_request =
  or_operation :: string
  or_event_id :: "string option"
  or_event_type :: "string option"
  or_tenant_id :: "string option"
  or_workspace_id :: "string option"
  or_run_id :: "string option"
  or_machine_id :: "string option"
  or_claim_token :: "string option"
  or_claimed_by :: "string option"
  or_limit :: "int option"
  or_claim_ttl_seconds :: "int option"
  or_retry_count :: "int option"
  or_retry_delay_seconds :: "int option"
  or_poison :: bool
  or_error_text :: "string option"
  or_payload_patch_present :: bool

definition outbox_defaults :: "string \<Rightarrow> outbox_request" where
  "outbox_defaults operation = \<lparr>or_operation = operation, or_event_id = None, or_event_type = None,
     or_tenant_id = None, or_workspace_id = None, or_run_id = None, or_machine_id = None,
     or_claim_token = None, or_claimed_by = None, or_limit = None, or_claim_ttl_seconds = None,
     or_retry_count = None, or_retry_delay_seconds = None, or_poison = False, or_error_text = None,
     or_payload_patch_present = False\<rparr>"

definition outbox_kernel_request :: "outbox_request \<Rightarrow> pydict" where
  "outbox_kernel_request r =
     [(''operation'', PStr (or_operation r)),
      (''event_id'', PStr (opt_tok (or_event_id r))),
      (''event_type'', PStr (opt_tok (or_event_type r))),
      (''tenant_id'', PStr (opt_tok (or_tenant_id r))),
      (''workspace_id'', PStr (opt_tok (or_workspace_id r))),
      (''run_id'', PStr (opt_tok (or_run_id r))),
      (''machine_id'', PStr (opt_tok (or_machine_id r))),
      (''claim_token'', PStr (opt_tok (or_claim_token r))),
      (''claimed_by'', PStr (opt_tok (or_claimed_by r))),
      (''limit'', PInt (int_or (or_limit r) 200)),
      (''claim_ttl_seconds'', PInt (int_or (or_claim_ttl_seconds r) 30)),
      (''retry_count'', PInt (int_or (or_retry_count r) 0)),
      (''max_retries'', PInt 5),
      (''retry_delay_seconds'', opt_int_val (or_retry_delay_seconds r)),
      (''poison'', PBool (or_poison r)),
      (''error_text'', PStr (opt_tok (or_error_text r))),
      (''payload_patch_present'', PBool (or_payload_patch_present r)),
      (''repository_read_only'', PBool False)]"

definition enforce_outbox_delivery_decision :: "repo_env \<Rightarrow> outbox_request \<Rightarrow> pydict res" where
  "enforce_outbox_delivery_decision E r =
     (case run_runtime_kernel_enforced E ''outbox-delivery-decision'' (outbox_kernel_request r) of
        Inl e \<Rightarrow> Inl e
      | Inr decision \<Rightarrow>
          check_next_action ''outbox_delivery'' ''outbox-delivery-decision''
            outbox_delivery_next_actions (or_operation r) decision)"

text \<open>Keyword arguments of \<open>_enforce_queue_claim_transition_decision\<close>.\<close>

record claim_request =
  cr_operation :: string
  cr_run_id :: string
  cr_worker_id :: "string option"
  cr_lease_id :: "string option"
  cr_status :: string
  cr_stale :: bool
  cr_reason :: "string option"
  cr_attempts :: "int option"

definition claim_defaults :: "string \<Rightarrow> string \<Rightarrow> claim_request" where
  "claim_defaults operation run_id = \<lparr>cr_operation = operation, cr_run_id = run_id, cr_worker_id = None,
     cr_lease_id = None, cr_status = ''claimed'', cr_stale = False, cr_reason = None, cr_attempts = None\<rparr>"

definition enforce_queue_claim_transition_decision :: "repo_env \<Rightarrow> claim_request \<Rightarrow> pydict res" where
  "enforce_queue_claim_transition_decision E r =
     (let worker = (case cr_worker_id r of None \<Rightarrow> [] | Some w \<Rightarrow> w);
          lease = (case cr_lease_id r of None \<Rightarrow> [] | Some l \<Rightarrow> l);
          status = sor (strip (sor (cr_status r) ''claimed'')) ''claimed'';
          request =
           [(''operation'', PStr (cr_operation r)),
            (''run_id'', PStr (strip (cr_run_id r))),
            (''item_id'', PStr (strip (cr_run_id r))),
            (''requester_id'', PStr (strip worker)),
            (''worker_id'', PStr (strip worker)),
            (''lease_holder_id'', PStr (strip (sor worker lease))),
            (''current_status'', PStr status),
            (''status'', PStr status),
            (''lease_stale'', PBool (cr_stale r)),
            (''reason'', PStr (opt_tok (cr_reason r)))]
           @ (case cr_attempts r of None \<Rightarrow> [] | Some n \<Rightarrow> [(''attempts'', PInt (max 0 n))])
      in case run_runtime_kernel_enforced E ''queue-transition-decision'' request of
           Inl e \<Rightarrow> Inl e
         | Inr decision \<Rightarrow>
             check_next_action ''queue_claim_transition'' ''queue-transition-decision''
               queue_claim_transition_next_actions (cr_operation r) decision)"

subsection \<open>What the gate guarantees\<close>

lemma normalize_fields:
  "dget (normalize_kernel_decision dig c r) ''next_action'' = PStr (tok (dget r ''next_action''))"
  by (simp add: normalize_kernel_decision_def Let_def)

lemma normalize_ok:
  "dget (normalize_kernel_decision dig c r) ''ok'' =
     PBool (truthy (dget r ''ok'') \<and> dget (normalize_kernel_decision dig c r) ''decision'' \<noteq> PStr ''block'')"
  by (simp add: normalize_kernel_decision_def Let_def)

lemma normalize_approval:
  "dget (normalize_kernel_decision dig c r) ''approval_required'' =
     PBool (truthy (dget r ''approval_required'') \<or>
            dget (normalize_kernel_decision dig c r) ''decision'' = PStr ''require_approval'')"
  by (simp add: normalize_kernel_decision_def Let_def)

text \<open>
  What an enforced decision is: a response that said \<open>ok\<close>, did not ask for approval, and
  whose \<open>next_action\<close> is an expected one.
\<close>

definition kernel_permits :: "repo_env \<Rightarrow> string \<Rightarrow> pydict \<Rightarrow> string list \<Rightarrow> bool" where
  "kernel_permits E command request expected =
     (let r = kern E command request in
      truthy (dget r ''ok'') \<and> \<not> truthy (dget r ''approval_required'') \<and>
      tok (dget r ''next_action'') \<in> set expected)"

lemma enforced_permits:
  assumes "run_runtime_kernel_enforced E command request = Inr d"
  shows "truthy (dget (kern E command request) ''ok'')"
    and "\<not> truthy (dget (kern E command request) ''approval_required'')"
    and "tok (dget d ''next_action'') = tok (dget (kern E command request) ''next_action'')"
  using assms
  by (auto simp: run_runtime_kernel_enforced_def enforce_kernel_decision_def Let_def
      normalize_ok normalize_approval normalize_fields split: if_splits)

lemma enforced_exact:
  "run_runtime_kernel_enforced E command request = Inr d \<Longrightarrow>
   \<exists>request. kernel_permits E command request [tok (dget d ''next_action'')]"
  using enforced_permits [of E command request d] by (auto simp: kernel_permits_def intro!: exI [of _ request])

lemma check_next_action_Inr:
  "check_next_action family command actions operation d = Inr d' \<longleftrightarrow>
   d' = d \<and> (\<exists>expected. actions operation = Some expected \<and> tok (dget d ''next_action'') \<in> set expected)"
  by (auto simp: check_next_action_def Let_def split: option.splits if_splits)

lemma gate_permits:
  assumes "run_runtime_kernel_enforced E command request = Inr d"
    and "check_next_action family command' actions operation d = Inr d'"
  shows "\<exists>expected. actions operation = Some expected \<and> kernel_permits E command request expected"
  using assms enforced_permits [OF assms(1)]
  by (auto simp: check_next_action_Inr kernel_permits_def)

text \<open>The kernel of this environment allowed an operation whose next action is \<open>action\<close>.\<close>

definition allowed :: "repo_env \<Rightarrow> string \<Rightarrow> bool" where
  "allowed E action = (\<exists>command request. kernel_permits E command request [action])"

lemma store_defaults_operation [simp]: "sr_operation (store_defaults operation) = operation"
  by (simp add: store_defaults_def)

lemma record_defaults_operation [simp]: "rr_operation (record_defaults operation run w t) = operation"
  by (simp add: record_defaults_def)

lemma outbox_defaults_operation [simp]: "or_operation (outbox_defaults operation) = operation"
  by (simp add: outbox_defaults_def)

lemma claim_defaults_operation [simp]: "cr_operation (claim_defaults operation run) = operation"
  by (simp add: claim_defaults_def)

subsection \<open>A kernel that allows every known operation\<close>

definition allow_kernel :: "string \<Rightarrow> pydict \<Rightarrow> pydict" where
  "allow_kernel command request =
     (let operation = py_str_of (dget request ''operation'');
          actions = (if command = ''runtime-state-store-decision'' then runtime_state_store_next_actions operation
            else if command = ''run-record-decision'' then run_record_next_actions operation
            else if command = ''outbox-delivery-decision'' then outbox_delivery_next_actions operation
            else queue_claim_transition_next_actions operation)
      in [(''ok'', PBool True), (''decision'', PStr ''allow''),
          (''next_action'', PStr (case actions of Some (a # as) \<Rightarrow> last (a # as) | _ \<Rightarrow> []))])"

definition allow_env :: "int \<Rightarrow> repo_env" where
  "allow_env t = \<lparr>kern = allow_kernel, digest = (\<lambda>_. ''0''), now = t, pool_error = None, durable = True, fault = (\<lambda>_. None), dup_error = ''duplicate key'', dispatch = None\<rparr>"

lemma allow_env_simps [simp]:
  "now (allow_env t) = t" "pool_error (allow_env t) = None" "fault (allow_env t) k = None" "durable (allow_env t)"
  "kern (allow_env t) = allow_kernel" "dispatch (allow_env t) = None"
  by (simp_all add: allow_env_def)

lemma allow_kernel_enforced:
  "\<exists>d. run_runtime_kernel_enforced (allow_env t) command request = Inr d \<and>
       dget d ''next_action'' = PStr (tok (dget (allow_kernel command request) ''next_action''))"
proof -
  let ?r = "allow_kernel command request"
  have r: "dget ?r ''ok'' = PBool True" "dget ?r ''decision'' = PStr ''allow''"
      "dget ?r ''approval_required'' = PNone"
    by (simp_all add: allow_kernel_def Let_def)
  have "dget (normalize_kernel_decision dig command ?r) ''decision'' = PStr ''allow''" for dig
    by (simp add: normalize_kernel_decision_def Let_def r por_def sor_def strip_def py_space_def)
  then show ?thesis
    by (simp add: run_runtime_kernel_enforced_def enforce_kernel_decision_def Let_def
        normalize_ok normalize_approval normalize_fields r)
qed

text \<open>The gates of the four families, and a working database.\<close>

definition store_gate :: "repo_env \<Rightarrow> store_request \<Rightarrow> bool" where
  "store_gate E r = (\<exists>d. enforce_runtime_state_store_decision E r = Inr d)"

definition db_ok :: "repo_env \<Rightarrow> bool" where
  "db_ok E = (pool_error E = None \<and> fault E = (\<lambda>_. None))"

lemma db_ok_simps [simp]:
  "db_ok E \<Longrightarrow> require_pool E operation = Inr ()" "db_ok E \<Longrightarrow> fault E k = None"
  "db_ok E \<Longrightarrow> read_pool E operation = Inr True" "db_ok E \<Longrightarrow> pool_error E = None"
  by (simp_all add: db_ok_def require_pool_def read_pool_def)

lemma db_ok_first_fault [simp]: "db_ok E \<Longrightarrow> first_fault E ks = None"
  by (induction ks) simp_all

lemma db_ok_allow [simp]: "db_ok (allow_env t)"
  by (simp add: db_ok_def fun_eq_iff)

lemma store_gate_permits:
  assumes "enforce_runtime_state_store_decision E r = Inr d"
  shows "\<exists>request expected. runtime_state_store_next_actions (sr_operation r) = Some expected \<and>
    kernel_permits E ''runtime-state-store-decision'' request expected"
  using assms by (auto simp: enforce_runtime_state_store_decision_def Let_def split: sum.splits dest!: gate_permits)

lemma record_gate_permits:
  assumes "enforce_run_record_decision E r = Inr d"
  shows "\<exists>request. kernel_permits E ''run-record-decision'' request [tok (dget d ''next_action'')] \<and>
    (\<exists>expected. run_record_next_actions (rr_operation r) = Some expected \<and> tok (dget d ''next_action'') \<in> set expected)"
  using assms
  by (auto simp: enforce_run_record_decision_def Let_def check_next_action_Inr split: sum.splits dest!: enforced_exact)

lemma outbox_gate_permits:
  assumes "enforce_outbox_delivery_decision E r = Inr d"
  shows "\<exists>request expected. outbox_delivery_next_actions (or_operation r) = Some expected \<and>
    kernel_permits E ''outbox-delivery-decision'' request expected"
  using assms by (auto simp: enforce_outbox_delivery_decision_def Let_def split: sum.splits dest!: gate_permits)

lemma queue_gate_permits:
  assumes "enforce_queue_claim_transition_decision E r = Inr d"
  shows "\<exists>request expected. queue_claim_transition_next_actions (cr_operation r) = Some expected \<and>
    kernel_permits E ''queue-transition-decision'' request expected"
  using assms by (auto simp: enforce_queue_claim_transition_decision_def Let_def split: sum.splits dest!: gate_permits)

lemma store_allowed:
  "enforce_runtime_state_store_decision E r = Inr d \<Longrightarrow>
   runtime_state_store_next_actions (sr_operation r) = Some [a] \<Longrightarrow> allowed E a"
  using store_gate_permits [of E r d] by (auto simp: allowed_def)

lemma record_allowed:
  "enforce_run_record_decision E r = Inr d \<Longrightarrow> allowed E (tok (dget d ''next_action''))"
  using record_gate_permits [of E r d] by (auto simp: allowed_def)

lemma record_action:
  "enforce_run_record_decision E r = Inr d \<Longrightarrow>
   \<exists>as. run_record_next_actions (rr_operation r) = Some as \<and> tok (dget d ''next_action'') \<in> set as"
  using record_gate_permits [of E r d] by auto

lemma outbox_allowed:
  "enforce_outbox_delivery_decision E r = Inr d \<Longrightarrow>
   outbox_delivery_next_actions (or_operation r) = Some [a] \<Longrightarrow> allowed E a"
  using outbox_gate_permits [of E r d] by (auto simp: allowed_def)

lemma queue_allowed:
  "enforce_queue_claim_transition_decision E r = Inr d \<Longrightarrow>
   queue_claim_transition_next_actions (cr_operation r) = Some [a] \<Longrightarrow> allowed E a"
  using queue_gate_permits [of E r d] by (auto simp: allowed_def)

text \<open>The allowing kernel opens each of them.\<close>

lemma allow_store:
  assumes "sr_operation r \<in> {''upsert_live_run'', ''delete_live_run'', ''archive_run'',
    ''create_or_update_approval_request'', ''resolve_approval_if_pending'', ''record_approval_resolution'',
    ''upsert_runtime_registration'', ''upsert_fleet_queue_partition''}"
  shows "store_gate (allow_env t) r"
proof -
  have "\<exists>d. (case run_runtime_kernel_enforced (allow_env t) ''runtime-state-store-decision'' req of Inl e \<Rightarrow> Inl e
      | Inr decision \<Rightarrow> check_next_action ''runtime_state_store'' ''runtime-state-store-decision''
          runtime_state_store_next_actions (sr_operation r) decision) = Inr d"
    if "dget req ''operation'' = PStr (sr_operation r)" for req
    using allow_kernel_enforced [of t "''runtime-state-store-decision''" req] assms that
    by (auto simp: next_action_tables check_next_action_def allow_kernel_def Let_def strip_def py_space_def)
  then show ?thesis by (simp add: store_gate_def enforce_runtime_state_store_decision_def Let_def)
qed

lemma allow_record:
  assumes "rr_operation r \<in> {''record_transition'', ''archive_payload''}"
  shows "\<exists>d. enforce_run_record_decision (allow_env t) r = Inr d \<and>
    tok (dget d ''next_action'') = last (the (run_record_next_actions (rr_operation r)))"
proof -
  have "\<exists>d. (case run_runtime_kernel_enforced (allow_env t) ''run-record-decision'' req of Inl e \<Rightarrow> Inl (err e)
      | Inr decision \<Rightarrow> check_next_action ''run_record'' ''run-record-decision''
          run_record_next_actions (rr_operation r) decision) = Inr d \<and>
      tok (dget d ''next_action'') = last (the (run_record_next_actions (rr_operation r)))"
    if "dget req ''operation'' = PStr (rr_operation r)" for req err
    using allow_kernel_enforced [of t "''run-record-decision''" req] assms that
    by (auto simp: next_action_tables check_next_action_def allow_kernel_def Let_def strip_def py_space_def)
  then show ?thesis by (simp add: enforce_run_record_decision_def Let_def)
qed

lemma allow_outbox:
  assumes "or_operation r \<in> {''persist_event'', ''list_undelivered'', ''claim_due'', ''patch_payload'',
    ''mark_delivered'', ''record_failure'', ''list_poisoned'', ''delivery_status''}"
  shows "\<exists>d. enforce_outbox_delivery_decision (allow_env t) r = Inr d"
  using allow_kernel_enforced [of t "''outbox-delivery-decision''" "outbox_kernel_request r"] assms
  by (auto simp: next_action_tables enforce_outbox_delivery_decision_def outbox_kernel_request_def
      check_next_action_def allow_kernel_def Let_def strip_def py_space_def)

lemma allow_outbox_open:
  assumes "or_operation r = operation" and "outbox_delivery_next_actions operation \<noteq> None"
  shows "enforce_outbox_delivery_decision (allow_env t) r \<noteq> Inl e"
proof -
  have "operation \<in> {''persist_event'', ''list_undelivered'', ''claim_due'', ''patch_payload'',
    ''mark_delivered'', ''record_failure'', ''list_poisoned'', ''delivery_status''}"
    using assms(2) by (simp add: next_action_tables split: if_splits)
  then show ?thesis using allow_outbox [of r t] assms(1) by (metis sum.distinct(1))
qed

lemma outbox_known [simp]:
  "outbox_delivery_next_actions ''claim_due'' \<noteq> None" "outbox_delivery_next_actions ''record_failure'' \<noteq> None"
  "outbox_delivery_next_actions ''mark_delivered'' \<noteq> None" "outbox_delivery_next_actions ''persist_event'' \<noteq> None"
  "outbox_delivery_next_actions ''patch_payload'' \<noteq> None"
  by (simp_all add: next_action_tables)

lemma allow_queue_claim:
  assumes "cr_operation r \<in> {''claim'', ''release'', ''dead_letter''}"
  shows "\<exists>d. enforce_queue_claim_transition_decision (allow_env t) r = Inr d"
proof -
  have "\<exists>d. (case run_runtime_kernel_enforced (allow_env t) ''queue-transition-decision'' req of Inl e \<Rightarrow> Inl e
      | Inr decision \<Rightarrow> check_next_action ''queue_claim_transition'' ''queue-transition-decision''
          queue_claim_transition_next_actions (cr_operation r) decision) = Inr d"
    if "dget req ''operation'' = PStr (cr_operation r)" for req
    using allow_kernel_enforced [of t "''queue-transition-decision''" req] assms that
    by (auto simp: next_action_tables check_next_action_def allow_kernel_def Let_def strip_def py_space_def)
  then show ?thesis by (simp add: enforce_queue_claim_transition_decision_def Let_def)
qed

text \<open>A kernel that allows whatever it is asked and names the operation as the next action.\<close>

definition echo_kernel :: "string \<Rightarrow> pydict \<Rightarrow> pydict" where
  "echo_kernel command request =
     [(''ok'', PBool True), (''decision'', PStr ''allow''), (''next_action'', dget request ''operation'')]"

lemma echo_enforced:
  assumes "kern E = echo_kernel"
  shows "\<exists>d. run_runtime_kernel_enforced E command request = Inr d"
  using assms by (simp add: echo_kernel_def run_runtime_kernel_enforced_def enforce_kernel_decision_def
      normalize_kernel_decision_def tok_def por_def sor_def strip_def py_space_def Let_def)

end
