(* ===== verification/Lease_Contract.thy ===== *)
theory Lease_Contract
  imports Main
begin

text \<open>
  The contract the leases of this system share: the queue claims, the outbox claims and the
  channel execution leases. A store names at most one holder per key and the moment its
  lease expires; an operation carries the moment it runs at and, when it presents one, the
  lease it acts under. The one law is fencing: before the expiry, an operation that does not
  act under the lease leaves holder and expiry alone. Exclusion over whole histories follows.
\<close>

locale lease_store =
  fixes holder :: "'s \<Rightarrow> 'k \<Rightarrow> 'h option"
    and expiry :: "'s \<Rightarrow> 'k \<Rightarrow> int"
    and step :: "'op \<Rightarrow> 's \<Rightarrow> 's"
    and time :: "'op \<Rightarrow> int"
    and actor :: "'op \<Rightarrow> 'h option"
  assumes fenced: "holder s k = Some h \<Longrightarrow> time op < expiry s k \<Longrightarrow> actor op \<noteq> Some h \<Longrightarrow>
    holder (step op s) k = Some h \<and> expiry (step op s) k = expiry s k"
begin

lemma held_until_expiry:
  assumes "holder s k = Some h"
    and "\<And>op. op \<in> set ops \<Longrightarrow> actor op \<noteq> Some h \<and> time op < expiry s k"
  shows "holder (fold step ops s) k = Some h \<and> expiry (fold step ops s) k = expiry s k"
  using assms
proof (induction ops arbitrary: s)
  case Nil
  then show ?case by simp
next
  case (Cons op ops)
  have "holder (step op s) k = Some h \<and> expiry (step op s) k = expiry s k"
    using Cons.prems by (intro fenced) auto
  then show ?case using Cons.IH [of "step op s"] Cons.prems(2) by auto
qed

lemma takeover_needs_expiry:
  assumes "holder s k = Some h" and "holder (fold step ops s) k \<noteq> Some h"
  shows "\<exists>op \<in> set ops. actor op = Some h \<or> expiry s k \<le> time op"
proof (rule ccontr)
  assume "\<not> ?thesis"
  then have "\<And>op. op \<in> set ops \<Longrightarrow> actor op \<noteq> Some h \<and> time op < expiry s k"
    by (auto simp: not_le)
  from held_until_expiry [OF assms(1) this] assms(2) show False by auto
qed

end

end
