(* ===== verification/Queue_Claims.thy ===== *)
theory Queue_Claims
  imports Kernel_Gate Tables Lease_Contract
begin

text \<open>
  The durable claims of the local queue (\<open>run_state_repository.py\<close>: \<open>claim_run\<close>,
  \<open>release_claim\<close>, \<open>touch_claim_heartbeat\<close>, \<open>list_expired_local_claims\<close>) and its dead
  letters (\<open>append_local_queue_dead_letter\<close>). A claim is a lease: it is live while its last
  heartbeat is younger than its time to live, and a live claim can only be taken again by
  its own worker with its own lease id.
\<close>

subsection \<open>Tables\<close>

record claim_row =
  c_run_id :: string
  c_worker_id :: string
  c_lease_id :: "string option"
  c_claimed_at :: int
  c_ttl :: int
  c_trace_id :: "string option"
  c_last_heartbeat_at :: "int option"
  c_last_progress_at :: "int option"
  c_last_worker_note :: "string option"
  c_updated_at :: int

record dead_letter_row =
  dl_run_id :: string
  dl_tenant_id :: string
  dl_workspace_id :: string
  dl_specialist_key :: "string option"
  dl_reason :: string
  dl_trace_id :: "string option"
  dl_failure_count :: int
  dl_payload :: pydict
  dl_first_recorded_at :: int
  dl_last_recorded_at :: int

record local_queue =
  claims :: "claim_row list"
  dead_letters :: "dead_letter_row list"

definition claim_of :: "string \<Rightarrow> local_queue \<Rightarrow> claim_row option" where
  "claim_of run q = row_of c_run_id run (claims q)"

text \<open>
  \<open>COALESCE(last_heartbeat_at, claimed_at) + GREATEST(COALESCE(ttl, 0), 1) seconds\<close>, the
  moment a claim expires, in the \<open>WHERE\<close> of \<open>claim_run\<close> and \<open>list_expired_local_claims\<close>.
\<close>

definition claim_beat :: "claim_row \<Rightarrow> int" where
  "claim_beat r = (case c_last_heartbeat_at r of Some t \<Rightarrow> t | None \<Rightarrow> c_claimed_at r)"

definition claim_expiry :: "claim_row \<Rightarrow> int" where
  "claim_expiry r = claim_beat r + sec (max (c_ttl r) 1)"

definition claim_expired :: "int \<Rightarrow> claim_row \<Rightarrow> bool" where
  "claim_expired t r = (claim_expiry r \<le> t)"

text \<open>\<open>(\<open>$2\<close> IS NULL AND lease_id IS NULL) OR lease_id = \<open>$2\<close>\<close>.\<close>

definition lease_matches :: "string option \<Rightarrow> claim_row \<Rightarrow> bool" where
  "lease_matches lease r = ((lease = None \<and> c_lease_id r = None) \<or> sql_eq (c_lease_id r) lease)"

subsection \<open>Claiming\<close>

text \<open>The \<open>INSERT ... ON CONFLICT DO UPDATE ... WHERE\<close>; \<open>None\<close> when no row is returned.\<close>

definition claim_upsert ::
    "int \<Rightarrow> string \<Rightarrow> string \<Rightarrow> string option \<Rightarrow> int \<Rightarrow> string option \<Rightarrow> local_queue \<Rightarrow> local_queue option" where
  "claim_upsert t run worker lease ttl trace q =
     (case claim_of run q of
        None \<Rightarrow> Some (q\<lparr>claims := put_row c_run_id
          \<lparr>c_run_id = run, c_worker_id = worker, c_lease_id = lease, c_claimed_at = t, c_ttl = ttl,
           c_trace_id = trace, c_last_heartbeat_at = Some t, c_last_progress_at = Some t,
           c_last_worker_note = None, c_updated_at = t\<rparr> (claims q)\<rparr>)
      | Some r \<Rightarrow>
          if (c_worker_id r = worker \<and> lease_matches lease r) \<or> claim_expired t r
          then Some (q\<lparr>claims := put_row c_run_id
            \<lparr>c_run_id = run, c_worker_id = worker, c_lease_id = coalesce lease (c_lease_id r),
             c_claimed_at = t, c_ttl = ttl, c_trace_id = coalesce_text trace (c_trace_id r),
             c_last_heartbeat_at = Some t, c_last_progress_at = Some t,
             c_last_worker_note = None, c_updated_at = t\<rparr> (claims q)\<rparr>)
          else None)"

definition claim_run ::
    "repo_env \<Rightarrow> string \<Rightarrow> string \<Rightarrow> int \<Rightarrow> string \<Rightarrow> string option \<Rightarrow> local_queue \<Rightarrow> unit res \<times> local_queue" where
  "claim_run E run_id worker_id ttl trace_id lease_id q =
     (let token = strip run_id; worker = strip worker_id; lease = snone (opt_tok lease_id) in
      if token = [] \<or> worker = [] then (Inr (), q)
      else case enforce_queue_claim_transition_decision E
             ((claim_defaults ''claim'' token)\<lparr>cr_worker_id := Some worker, cr_lease_id := lease, cr_status := ''queued''\<rparr>) of
        Inl e \<Rightarrow> (Inl e, q)
      | Inr _ \<Rightarrow>
        (case require_pool E ''claim_run'' of
           Inl e \<Rightarrow> (Inl e, q)
         | Inr _ \<Rightarrow>
           (case coalesce (fault E 0) (fault E 1) of
              Some m \<Rightarrow> (Inl (PersistenceError (''Postgres claim_run failed for '' @ token @ '': '' @ m)), q)
            | None \<Rightarrow>
              (case claim_upsert (now E) token worker lease (max 1 ttl) (snone (strip trace_id)) q of
                 None \<Rightarrow> (Inl (ClaimConflictError (''Run '' @ token @
                   '' is already claimed by another live worker; refusing to overwrite the active claim'')), q)
               | Some q' \<Rightarrow> (Inr (), q')))))"

subsection \<open>Releasing and keeping alive\<close>

definition release_claim ::
    "repo_env \<Rightarrow> string \<Rightarrow> string option \<Rightarrow> local_queue \<Rightarrow> bool res \<times> local_queue" where
  "release_claim E run_id lease_id q =
     (let token = strip run_id; lease = snone (opt_tok lease_id) in
      if token = [] then (Inr False, q)
      else case enforce_queue_claim_transition_decision E
             ((claim_defaults ''release'' token)\<lparr>cr_lease_id := lease, cr_stale := (lease = None)\<rparr>) of
        Inl e \<Rightarrow> (Inl e, q)
      | Inr _ \<Rightarrow>
        (case require_pool E ''release_claim'' of
           Inl e \<Rightarrow> (Inl e, q)
         | Inr _ \<Rightarrow>
           (case coalesce (fault E 0) (fault E 1) of
              Some m \<Rightarrow> (Inl (PersistenceError (''Postgres release_claim failed for '' @ token @ '': '' @ m)), q)
            | None \<Rightarrow>
              (let hit = (\<lambda>r. c_run_id r = token \<and> lease_matches lease r)
               in (Inr (\<exists>r \<in> set (claims q). hit r), q\<lparr>claims := del_rows hit (claims q)\<rparr>)))))"

definition touch_claim_heartbeat ::
    "repo_env \<Rightarrow> string \<Rightarrow> string \<Rightarrow> string option \<Rightarrow> string option \<Rightarrow> bool \<Rightarrow> local_queue \<Rightarrow> bool res \<times> local_queue" where
  "touch_claim_heartbeat E run_id worker_id lease_id note progress q =
     (let token = strip run_id; worker = strip worker_id; lease = snone (opt_tok lease_id) in
      if token = [] \<or> worker = [] then (Inr False, q)
      else case enforce_queue_claim_transition_decision E
             ((claim_defaults ''claim'' token)\<lparr>cr_worker_id := Some worker, cr_lease_id := lease, cr_status := ''claimed''\<rparr>) of
        Inl e \<Rightarrow> (Inl e, q)
      | Inr _ \<Rightarrow>
        (case require_pool E ''touch_claim_heartbeat'' of
           Inl e \<Rightarrow> (Inl e, q)
         | Inr _ \<Rightarrow>
           (case coalesce (fault E 0) (fault E 1) of
              Some m \<Rightarrow> (Inl (PersistenceError (''Postgres touch_claim_heartbeat failed for '' @ token @ '': '' @ m)), q)
            | None \<Rightarrow>
              (let hit = (\<lambda>r. c_run_id r = token \<and> c_worker_id r = worker \<and> lease_matches lease r);
                   beat = (\<lambda>r. r\<lparr>c_last_heartbeat_at := Some (now E),
                     c_last_progress_at := (if progress then Some (now E) else c_last_progress_at r),
                     c_last_worker_note := (case snone (opt_tok note) of
                        Some n \<Rightarrow> Some (take 280 n) | None \<Rightarrow> c_last_worker_note r),
                     c_updated_at := now E\<rparr>)
               in (Inr (\<exists>r \<in> set (claims q). hit r), q\<lparr>claims := upd_rows hit beat (claims q)\<rparr>)))))"

text \<open>\<open>list_expired_local_claims\<close>: the expired claims, oldest heartbeat first, with the live run's payload.\<close>

definition list_expired_local_claims ::
    "repo_env \<Rightarrow> (string \<Rightarrow> pydict option) \<Rightarrow> local_queue \<Rightarrow> (claim_row \<times> pydict option) list res" where
  "list_expired_local_claims E run_payload q =
     (case read_pool E ''list_expired_local_claims'' of
        Inl e \<Rightarrow> Inl e
      | Inr False \<Rightarrow> Inr []
      | Inr True \<Rightarrow>
        (if coalesce (fault E 0) (fault E 1) \<noteq> None then Inr []
         else Inr (map (\<lambda>r. (r, run_payload (c_run_id r)))
               (sort_key claim_beat (filter (claim_expired (now E)) (claims q))))))"

subsection \<open>Dead letters\<close>

definition append_local_queue_dead_letter ::
    "repo_env \<Rightarrow> string \<Rightarrow> string \<Rightarrow> string \<Rightarrow> string option \<Rightarrow> string \<Rightarrow> string \<Rightarrow> int \<Rightarrow> pydict
     \<Rightarrow> local_queue \<Rightarrow> unit res \<times> local_queue" where
  "append_local_queue_dead_letter E run_id tenant_id workspace_id specialist_key reason trace_id failure_count payload q =
     (let token = strip run_id; normalized_reason = sor (strip reason) ''worker_failure'' in
      if token = [] then (Inr (), q)
      else case enforce_queue_claim_transition_decision E
             ((claim_defaults ''dead_letter'' token)\<lparr>cr_status := ''failed'', cr_reason := Some normalized_reason,
                cr_attempts := Some (max 0 failure_count)\<rparr>) of
        Inl e \<Rightarrow> (Inl e, q)
      | Inr _ \<Rightarrow>
        (case require_pool E ''append_local_queue_dead_letter'' of
           Inl e \<Rightarrow> (Inl e, q)
         | Inr _ \<Rightarrow>
           (case coalesce (fault E 0) (fault E 1) of
              Some m \<Rightarrow> (Inl (PersistenceError (''Postgres append_local_queue_dead_letter failed for '' @ token @ '': '' @ m)), q)
            | None \<Rightarrow>
              (let fresh = \<lparr>dl_run_id = token, dl_tenant_id = sor (strip tenant_id) ''default'',
                     dl_workspace_id = sor (strip workspace_id) ''default'',
                     dl_specialist_key = snone (opt_tok specialist_key), dl_reason = normalized_reason,
                     dl_trace_id = snone (strip trace_id), dl_failure_count = max 0 failure_count,
                     dl_payload = payload, dl_first_recorded_at = now E, dl_last_recorded_at = now E\<rparr>;
                   row = (case row_of dl_run_id token (dead_letters q) of
                     None \<Rightarrow> fresh
                   | Some old \<Rightarrow> fresh\<lparr>dl_trace_id := coalesce_text (dl_trace_id fresh) (dl_trace_id old),
                       dl_failure_count := max (dl_failure_count old) (dl_failure_count fresh),
                       dl_first_recorded_at := dl_first_recorded_at old\<rparr>)
               in (Inr (), q\<lparr>dead_letters := put_row dl_run_id row (dead_letters q)\<rparr>)))))"

subsection \<open>Claims are leases\<close>

lemmas gate_splits = option.splits sum.splits if_splits prod.splits bool.splits

lemma claim_of_put [simp]:
  "claim_of k (q\<lparr>claims := put_row c_run_id r (claims q)\<rparr>) = (if k = c_run_id r then Some r else claim_of k q)"
  by (simp add: claim_of_def)

lemma claim_of_key: "claim_of k q = Some r \<Longrightarrow> c_run_id r = k"
  by (auto simp: claim_of_def dest: row_of_key)

lemma claim_upsert_refused:
  assumes "claim_of run q = Some r" and "t < claim_expiry r"
    and "\<not> (c_worker_id r = worker \<and> lease_matches lease r)"
  shows "claim_upsert t run worker lease ttl trace q = None"
  using assms by (auto simp: claim_upsert_def claim_expired_def)

lemma claim_upsert_other:
  "claim_upsert t run worker lease ttl trace q = Some q' \<Longrightarrow> k \<noteq> run \<Longrightarrow> claim_of k q' = claim_of k q"
  by (auto simp: claim_upsert_def split: gate_splits)

text \<open>Every operation leaves the queue unchanged unless it reports success.\<close>

lemma claim_run_state:
  "snd (claim_run E run_id worker_id ttl trace_id lease_id q) = q \<or>
   claim_upsert (now E) (strip run_id) (strip worker_id) (snone (opt_tok lease_id)) (max 1 ttl)
     (snone (strip trace_id)) q = Some (snd (claim_run E run_id worker_id ttl trace_id lease_id q))"
  by (simp add: claim_run_def Let_def split: gate_splits)

lemma release_claim_state:
  "snd (release_claim E run_id lease_id q) = q \<or>
   snd (release_claim E run_id lease_id q) = q\<lparr>claims := del_rows
     (\<lambda>r. c_run_id r = strip run_id \<and> lease_matches (snone (opt_tok lease_id)) r) (claims q)\<rparr>"
  by (simp add: release_claim_def Let_def split: gate_splits)

lemma touch_claim_heartbeat_other_lease:
  assumes "claim_of k q = Some r" and "\<not> lease_matches (snone (opt_tok lease_id)) r"
  shows "claim_of k (snd (touch_claim_heartbeat E run_id worker_id lease_id note progress q)) = Some r"
  using assms unfolding claim_of_def
  by (auto simp: touch_claim_heartbeat_def Let_def intro!: row_of_upd_miss split: gate_splits)

lemma release_claim_other_lease:
  assumes "claim_of k q = Some r" and "\<not> lease_matches (snone (opt_tok lease_id)) r"
  shows "claim_of k (snd (release_claim E run_id lease_id q)) = Some r"
  using release_claim_state [of E run_id lease_id q] assms
  by (auto simp: claim_of_def intro!: row_of_del_miss)

lemma claim_run_other_lease:
  assumes "claim_of k q = Some r" and "now E < claim_expiry r" and "\<not> lease_matches (snone (opt_tok lease_id)) r"
  shows "claim_of k (snd (claim_run E run_id worker_id ttl trace_id lease_id q)) = Some r"
proof (cases "k = strip run_id")
  case True
  then show ?thesis
    using claim_run_state [of E run_id worker_id ttl trace_id lease_id q] assms
      claim_upsert_refused [OF assms(1,2)] by auto
next
  case False
  then show ?thesis
    using claim_run_state [of E run_id worker_id ttl trace_id lease_id q] assms(1)
      claim_upsert_other by metis
qed

text \<open>The operations on the queue as the steps of a history; every step brings its own environment.\<close>

datatype claim_op =
    OpClaim repo_env string string int string "string option"
  | OpRelease repo_env string "string option"
  | OpTouch repo_env string string "string option" "string option" bool
  | OpDeadLetter repo_env string string string "string option" string string int pydict

fun claim_step :: "claim_op \<Rightarrow> local_queue \<Rightarrow> local_queue" where
  "claim_step (OpClaim E run w ttl tr l) q = snd (claim_run E run w ttl tr l q)"
| "claim_step (OpRelease E run l) q = snd (release_claim E run l q)"
| "claim_step (OpTouch E run w l n p) q = snd (touch_claim_heartbeat E run w l n p q)"
| "claim_step (OpDeadLetter E run ten ws sp rs tr n p) q =
     snd (append_local_queue_dead_letter E run ten ws sp rs tr n p q)"

fun claim_op_time :: "claim_op \<Rightarrow> int" where
  "claim_op_time (OpClaim E run w ttl tr l) = now E"
| "claim_op_time (OpRelease E run l) = now E"
| "claim_op_time (OpTouch E run w l n p) = now E"
| "claim_op_time (OpDeadLetter E run ten ws sp rs tr n p) = now E"

fun claim_op_lease :: "claim_op \<Rightarrow> string option" where
  "claim_op_lease (OpClaim E run w ttl tr l) = snone (opt_tok l)"
| "claim_op_lease (OpRelease E run l) = snone (opt_tok l)"
| "claim_op_lease (OpTouch E run w l n p) = snone (opt_tok l)"
| "claim_op_lease (OpDeadLetter E run ten ws sp rs tr n p) = None"

definition claim_holder :: "local_queue \<Rightarrow> string \<Rightarrow> string option" where
  "claim_holder q run = (case claim_of run q of None \<Rightarrow> None | Some r \<Rightarrow> c_lease_id r)"

definition claim_deadline :: "local_queue \<Rightarrow> string \<Rightarrow> int" where
  "claim_deadline q run = (case claim_of run q of None \<Rightarrow> 0 | Some r \<Rightarrow> claim_expiry r)"

lemma dead_letter_claims [simp]:
  "claims (snd (append_local_queue_dead_letter E run ten ws sp rs tr n p q)) = claims q"
  by (simp add: append_local_queue_dead_letter_def Let_def split: gate_splits)

lemma claim_step_other_lease:
  assumes "claim_of k q = Some r" and "claim_op_time op < claim_expiry r"
    and "\<not> lease_matches (claim_op_lease op) r"
  shows "claim_of k (claim_step op q) = Some r"
proof (cases op)
  case (OpDeadLetter E run ten ws sp rs tr n p)
  then show ?thesis using assms(1) by (simp add: claim_of_def)
qed (use assms in \<open>auto intro: claim_run_other_lease release_claim_other_lease touch_claim_heartbeat_other_lease\<close>)

interpretation queue_lease: lease_store claim_holder claim_deadline claim_step claim_op_time claim_op_lease
proof unfold_locales
  fix q k h op
  assume h: "claim_holder q k = Some h" and t: "claim_op_time op < claim_deadline q k"
    and a: "claim_op_lease op \<noteq> Some h"
  from h obtain r where r: "claim_of k q = Some r" "c_lease_id r = Some h"
    by (auto simp: claim_holder_def split: option.splits)
  have "claim_of k (claim_step op q) = Some r"
    using r t a by (intro claim_step_other_lease) (auto simp: claim_deadline_def lease_matches_def sql_eq_def)
  with r show "claim_holder (claim_step op q) k = Some h \<and> claim_deadline (claim_step op q) k = claim_deadline q k"
    by (simp add: claim_holder_def claim_deadline_def)
qed

subsection \<open>Properties\<close>

text \<open>The gate lets a claim, a heartbeat or a release of this run through.\<close>

definition claim_gate :: "repo_env \<Rightarrow> string \<Rightarrow> string \<Rightarrow> string option \<Rightarrow> string \<Rightarrow> bool" where
  "claim_gate E run worker lease status = (\<exists>d. enforce_queue_claim_transition_decision E
     ((claim_defaults ''claim'' run)\<lparr>cr_worker_id := Some worker, cr_lease_id := lease, cr_status := status\<rparr>) = Inr d)"

definition release_gate :: "repo_env \<Rightarrow> string \<Rightarrow> string option \<Rightarrow> bool" where
  "release_gate E run lease = (\<exists>d. enforce_queue_claim_transition_decision E
     ((claim_defaults ''release'' run)\<lparr>cr_lease_id := lease, cr_stale := (lease = None)\<rparr>) = Inr d)"

lemma claim_gate_allow [simp]: "claim_gate (allow_env t) run worker lease status"
  unfolding claim_gate_def by (rule allow_queue_claim) (simp add: claim_defaults_def)

lemma release_gate_allow [simp]: "release_gate (allow_env t) run lease"
  unfolding release_gate_def by (rule allow_queue_claim) (simp add: claim_defaults_def)

lemma claim_run_open:
  assumes "claim_gate E (strip run) (strip worker) (snone (opt_tok lease)) ''queued''" and "db_ok E"
    and "strip run \<noteq> []" and "strip worker \<noteq> []"
  shows "claim_run E run worker ttl trace lease q =
    (case claim_upsert (now E) (strip run) (strip worker) (snone (opt_tok lease)) (max 1 ttl) (snone (strip trace)) q of
       None \<Rightarrow> (Inl (ClaimConflictError (''Run '' @ strip run @
         '' is already claimed by another live worker; refusing to overwrite the active claim'')), q)
     | Some q' \<Rightarrow> (Inr (), q'))"
  using assms by (auto simp: claim_run_def claim_gate_def Let_def)

text \<open>
  C2. A claim held under a lease id stays with that lease until it expires: no history of
  claims, releases, heartbeats and dead letters, by any workers, with any kernel answers and
  database faults, takes it away unless an operation presents the same lease id or runs at or
  after the expiry.
\<close>

theorem claim_exclusive:
  assumes "claim_holder q run = Some lease"
    and "\<And>op. op \<in> set ops \<Longrightarrow> claim_op_lease op \<noteq> Some lease \<and> claim_op_time op < claim_deadline q run"
  shows "claim_holder (fold claim_step ops q) run = Some lease \<and>
         claim_deadline (fold claim_step ops q) run = claim_deadline q run"
  by (rule queue_lease.held_until_expiry [OF assms])

definition demo_queue :: local_queue where
  "demo_queue = snd (claim_run (allow_env 0) ''r1'' ''w1'' 30 ''t'' (Some ''L1'') \<lparr>claims = [], dead_letters = []\<rparr>)"

lemma demo_queue_eq:
  "demo_queue = \<lparr>claims = [\<lparr>c_run_id = ''r1'', c_worker_id = ''w1'', c_lease_id = Some ''L1'', c_claimed_at = 0,
     c_ttl = 30, c_trace_id = Some ''t'', c_last_heartbeat_at = Some 0, c_last_progress_at = Some 0,
     c_last_worker_note = None, c_updated_at = 0\<rparr>], dead_letters = []\<rparr>"
  by (simp add: demo_queue_def claim_run_open claim_upsert_def claim_of_def strip_def py_space_def snone_def)

lemma demo_queue_keys [simp]: "keys_distinct c_run_id (claims demo_queue)"
  by (simp add: demo_queue_eq keys_distinct_def)

theorem claim_exclusive_witness:
  "claim_holder (fold claim_step [OpClaim (allow_env 5) ''r1'' ''w2'' 30 ''t'' (Some ''L2''),
     OpRelease (allow_env 9) ''r1'' None] demo_queue) ''r1'' = Some ''L1''"
proof -
  let ?ops = "[OpClaim (allow_env 5) ''r1'' ''w2'' 30 ''t'' (Some ''L2''), OpRelease (allow_env 9) ''r1'' None]"
  have "claim_holder demo_queue ''r1'' = Some ''L1''"
    by (simp add: demo_queue_eq claim_holder_def claim_of_def)
  moreover have "claim_op_lease op \<noteq> Some ''L1'' \<and> claim_op_time op < claim_deadline demo_queue ''r1''"
    if "op \<in> set ?ops" for op
    using that by (auto simp: demo_queue_eq claim_deadline_def claim_of_def claim_expiry_def claim_beat_def
        sec_def strip_def py_space_def snone_def)
  ultimately show ?thesis using claim_exclusive [of demo_queue "''r1''" "''L1''" ?ops] by blast
qed

text \<open>
  What claiming does on every branch behind an open gate: a free run, an expired claim and
  one's own claim are taken with a fresh heartbeat and the worker's name, and any other claim is
  refused with a conflict that leaves the queue as it was.
\<close>

theorem claim_run_outcome:
  assumes "claim_gate E (strip run) (strip worker) (snone (opt_tok lease)) ''queued''" and "db_ok E"
    and "strip run \<noteq> []" and "strip worker \<noteq> []"
  shows "let (res, q') = claim_run E run worker ttl trace lease q in
    (if case claim_of (strip run) q of None \<Rightarrow> True
          | Some r \<Rightarrow> (c_worker_id r = strip worker \<and> lease_matches (snone (opt_tok lease)) r) \<or> claim_expiry r \<le> now E
     then res = Inr () \<and> (\<exists>r. claim_of (strip run) q' = Some r \<and> c_worker_id r = strip worker \<and>
            claim_expiry r = now E + sec (max 1 ttl) \<and> c_last_worker_note r = None)
     else (\<exists>m. res = Inl (ClaimConflictError m)) \<and> q' = q)"
  unfolding claim_run_open [OF assms]
  by (auto simp: claim_upsert_def claim_expired_def claim_expiry_def claim_beat_def max.commute split: option.splits)

theorem claim_run_outcome_witness:
  "\<exists>m. claim_run (allow_env 5) ''r1'' ''w2'' 30 ''t'' (Some ''L2'') demo_queue = (Inl (ClaimConflictError m), demo_queue)"
proof -
  have *: "strip ''r1'' = ''r1''" "strip ''w2'' = ''w2''" "strip ''L2'' = ''L2''"
    by (simp_all add: strip_def py_space_def)
  show ?thesis
    using claim_run_outcome [of "allow_env 5" "''r1''" "''w2''" "Some ''L2''" 30 "''t''" demo_queue]
    by (auto simp: * demo_queue_eq claim_of_def claim_expiry_def claim_beat_def sec_def snone_def lease_matches_def
        split: prod.splits)
qed

definition owns_claim :: "string \<Rightarrow> (claim_row \<Rightarrow> bool) \<Rightarrow> local_queue \<Rightarrow> bool" where
  "owns_claim run P q = (case claim_of run q of None \<Rightarrow> False | Some r \<Rightarrow> P r)"

lemma owns_claim_iff:
  "keys_distinct c_run_id (claims q) \<Longrightarrow> (\<exists>r \<in> set (claims q). c_run_id r = run \<and> P r) = owns_claim run P q"
  by (simp add: ex_row_iff owns_claim_def claim_of_def split: option.splits)

text \<open>
  A heartbeat succeeds exactly when the run is claimed by this worker under this lease; then
  the claim keeps its holder and its deadline moves to one time to live from now, and otherwise
  nothing changes.
\<close>

theorem heartbeat_extends:
  assumes "claim_gate E (strip run) (strip worker) (snone (opt_tok lease)) ''claimed''" and "db_ok E"
    and "strip run \<noteq> []" and "strip worker \<noteq> []" and "keys_distinct c_run_id (claims q)"
  shows "let own = owns_claim (strip run) (\<lambda>r. c_worker_id r = strip worker \<and> lease_matches (snone (opt_tok lease)) r) q
    in \<exists>q'. touch_claim_heartbeat E run worker lease note progress q = (Inr own, q') \<and>
      (if own then claim_holder q' (strip run) = claim_holder q (strip run) \<and>
                   (\<exists>r. claim_of (strip run) q = Some r \<and> claim_deadline q' (strip run) = now E + sec (max (c_ttl r) 1))
       else q' = q)"
proof -
  let ?own = "\<lambda>r. c_worker_id r = strip worker \<and> lease_matches (snone (opt_tok lease)) r"
  let ?hit = "\<lambda>r. c_run_id r = strip run \<and> ?own r"
  let ?f = "\<lambda>r. r\<lparr>c_last_heartbeat_at := Some (now E),
     c_last_progress_at := (if progress then Some (now E) else c_last_progress_at r),
     c_last_worker_note := (case snone (opt_tok note) of Some n \<Rightarrow> Some (take 280 n) | None \<Rightarrow> c_last_worker_note r),
     c_updated_at := now E\<rparr>"
  let ?q' = "q\<lparr>claims := upd_rows ?hit ?f (claims q)\<rparr>"
  have eq: "touch_claim_heartbeat E run worker lease note progress q = (Inr (owns_claim (strip run) ?own q), ?q')"
    using assms by (auto simp: touch_claim_heartbeat_def claim_gate_def Let_def simp flip: owns_claim_iff)
  have hit: "claim_of (strip run) ?q' = Some (?f r)" if "claim_of (strip run) q = Some r" "?own r" for r
  proof -
    have "row_of c_run_id (strip run) (upd_rows ?hit ?f (claims q)) = Some (?f r)"
      using that claim_of_key [OF that(1)] by (intro row_of_upd_hit) (auto simp: claim_of_def)
    then show ?thesis by (simp add: claim_of_def)
  qed
  have miss: "?q' = q" if "\<not> owns_claim (strip run) ?own q"
    using that by (subst upd_rows_none) (auto simp flip: owns_claim_iff [OF assms(5)])
  show ?thesis
  proof (cases "owns_claim (strip run) ?own q")
    case True
    then obtain r where r: "claim_of (strip run) q = Some r" "?own r"
      by (auto simp: owns_claim_def split: option.splits)
    have "claim_holder ?q' (strip run) = claim_holder q (strip run) \<and>
        claim_deadline ?q' (strip run) = now E + sec (max (c_ttl r) 1)"
      by (simp add: hit [OF r] r claim_holder_def claim_deadline_def claim_expiry_def claim_beat_def)
    with True r(1) show ?thesis unfolding Let_def eq by auto
  next
    case False
    then show ?thesis unfolding Let_def eq using miss [OF False] by simp
  qed
qed

theorem heartbeat_extends_witness:
  "\<exists>q'. touch_claim_heartbeat (allow_env 7000000) ''r1'' ''w1'' (Some ''L1'') None True demo_queue = (Inr True, q') \<and>
     claim_holder q' ''r1'' = Some ''L1'' \<and> claim_deadline q' ''r1'' = 37000000"
proof -
  have *: "strip ''r1'' = ''r1''" "strip ''w1'' = ''w1''" "strip ''L1'' = ''L1''"
    by (simp_all add: strip_def py_space_def)
  have own: "owns_claim ''r1'' (\<lambda>r. c_worker_id r = ''w1'' \<and> lease_matches (snone ''L1'') r) demo_queue"
    by (simp add: owns_claim_def demo_queue_eq claim_of_def lease_matches_def sql_eq_def snone_def *)
  have holds: "claim_holder demo_queue ''r1'' = Some ''L1''"
      "(\<exists>r. claim_of ''r1'' demo_queue = Some r \<and> d = 7000000 + sec (max (c_ttl r) 1)) \<longleftrightarrow> d = 37000000" for d
    by (simp_all add: claim_holder_def claim_of_def demo_queue_eq sec_def)
  show ?thesis
    using heartbeat_extends [of "allow_env 7000000" "''r1''" "''w1''" "Some ''L1''" demo_queue None True] own
    by (simp add: * Let_def holds)
qed

text \<open>
  Releasing succeeds exactly when the run is claimed under the lease presented, and then
  nobody holds the run; otherwise nothing changes, and the claims of other runs never do.
\<close>

theorem release_ownership:
  assumes "release_gate E (strip run) (snone (opt_tok lease))" and "db_ok E" and "strip run \<noteq> []"
    and "keys_distinct c_run_id (claims q)"
  shows "let own = owns_claim (strip run) (lease_matches (snone (opt_tok lease))) q
    in \<exists>q'. release_claim E run lease q = (Inr own, q') \<and>
      (if own then claim_of (strip run) q' = None \<and> (\<forall>k. k = strip run \<or> claim_of k q' = claim_of k q)
       else q' = q)"
proof -
  let ?hit = "\<lambda>r. c_run_id r = strip run \<and> lease_matches (snone (opt_tok lease)) r"
  let ?q' = "q\<lparr>claims := del_rows ?hit (claims q)\<rparr>"
  have eq: "release_claim E run lease q = (Inr (owns_claim (strip run) (lease_matches (snone (opt_tok lease))) q), ?q')"
    using assms by (auto simp: release_claim_def release_gate_def Let_def simp flip: owns_claim_iff)
  have del: "claim_of k ?q' = (case claim_of k q of None \<Rightarrow> None | Some r \<Rightarrow> if ?hit r then None else Some r)" for k
    using row_of_del_keyed [where P = ?hit and k' = "strip run" and k = k, OF assms(4)]
    by (simp add: claim_of_def)
  have miss: "?q' = q" if "\<not> owns_claim (strip run) (lease_matches (snone (opt_tok lease))) q"
    using that by (subst del_rows_none) (auto simp flip: owns_claim_iff [OF assms(4)])
  show ?thesis
    unfolding Let_def eq using miss
    by (auto simp: del owns_claim_def split: option.splits dest: claim_of_key)
qed

theorem release_ownership_witness:
  "\<exists>q'. release_claim (allow_env 1) ''r1'' (Some ''L1'') demo_queue = (Inr True, q') \<and> claim_of ''r1'' q' = None"
proof -
  have *: "strip ''r1'' = ''r1''" "strip ''L1'' = ''L1''" by (simp_all add: strip_def py_space_def)
  have own: "owns_claim ''r1'' (lease_matches (snone ''L1'')) demo_queue"
    by (simp add: owns_claim_def demo_queue_eq claim_of_def lease_matches_def sql_eq_def snone_def *)
  show ?thesis
    using release_ownership [of "allow_env 1" "''r1''" "Some ''L1''" demo_queue] own
    by (auto simp add: * Let_def)
qed

text \<open>
  When a worker without a lease id takes over an expired claim that carried one, the claim
  keeps the old lease id: the new worker can neither keep its claim alive nor release it, while
  the old lease id still releases it.
\<close>

theorem takeover_without_lease_keeps_old_lease:
  assumes "claim_gate E (strip run) (strip worker) None ''queued''" and "db_ok E"
    and "strip run \<noteq> []" and "strip worker \<noteq> []"
    and "claim_of (strip run) q = Some r" and "c_lease_id r = Some old" and "claim_expiry r \<le> now E"
  shows "\<exists>q' r'. claim_run E run worker ttl trace None q = (Inr (), q') \<and>
    claim_of (strip run) q' = Some r' \<and> c_worker_id r' = strip worker \<and> c_lease_id r' = Some old \<and>
    \<not> lease_matches None r' \<and> lease_matches (Some old) r'"
proof -
  have none: "snone (opt_tok None) = None" by simp
  show ?thesis
    using assms claim_run_open [of E run worker None ttl trace q, unfolded none]
    by (simp add: claim_upsert_def claim_expired_def lease_matches_def sql_eq_def)
qed

theorem takeover_without_lease_witness:
  "\<exists>q'. claim_run (allow_env 40000000) ''r1'' ''w2'' 30 ''t'' None demo_queue = (Inr (), q') \<and>
     claim_holder q' ''r1'' = Some ''L1''"
proof -
  have *: "strip ''r1'' = ''r1''" "strip ''w2'' = ''w2''" by (simp_all add: strip_def py_space_def)
  show ?thesis
    using takeover_without_lease_keeps_old_lease [of "allow_env 40000000" "''r1''" "''w2''" demo_queue _ "''L1''" 30 "''t''"]
    by (auto simp: * demo_queue_eq claim_of_def claim_holder_def claim_expiry_def claim_beat_def sec_def split: option.splits)
qed

end
