(* ===== verification/Store_Contracts.thy ===== *)
theory Store_Contracts
  imports Main
begin

text \<open>
  Two contracts of stores under a history of operations. A \<open>write_once\<close> store never changes
  or loses a value it has settled: the approval decisions, the transition log, the moment a
  run was registered. A \<open>monotone_store\<close> has a rank per key that only a reset lowers: the
  versions of the live runs.
\<close>

locale write_once =
  fixes settled :: "'s \<Rightarrow> 'k \<Rightarrow> 'v option"
    and step :: "'op \<Rightarrow> 's \<Rightarrow> 's"
  assumes keeps: "settled s k = Some v \<Longrightarrow> settled (step op s) k = Some v"
begin

lemma settled_forever: "settled s k = Some v \<Longrightarrow> settled (fold step ops s) k = Some v"
  by (induction ops arbitrary: s) (auto intro: keeps)

lemma settled_unique:
  "settled (fold step before s) k = Some v \<Longrightarrow> settled (fold step (before @ after) s) k = Some w \<Longrightarrow> v = w"
  using settled_forever [of "fold step before s" k v "after"] by simp

end

locale monotone_store =
  fixes rank :: "'s \<Rightarrow> 'k \<Rightarrow> int option"
    and step :: "'op \<Rightarrow> 's \<Rightarrow> 's"
    and resets :: "'op \<Rightarrow> 'k \<Rightarrow> bool"
  assumes grows: "rank s k = Some v \<Longrightarrow> \<not> resets op k \<Longrightarrow> \<exists>w. rank (step op s) k = Some w \<and> v \<le> w"
begin

lemma never_lower:
  assumes "rank s k = Some v" and "\<And>op. op \<in> set ops \<Longrightarrow> \<not> resets op k"
  shows "\<exists>w. rank (fold step ops s) k = Some w \<and> v \<le> w"
  using assms
proof (induction ops arbitrary: s v)
  case Nil
  then show ?case by simp
next
  case (Cons op ops)
  from grows [OF Cons.prems(1)] Cons.prems(2)
  obtain u where "rank (step op s) k = Some u" "v \<le> u" by auto
  with Cons.IH [of "step op s" u] Cons.prems(2) show ?case by fastforce
qed

end

end
