(* ===== verification/Live_Runs.thy ===== *)
theory Live_Runs
  imports Kernel_Gate Tables Store_Contracts
begin

text \<open>
  The durable run records of \<open>run_state_repository.py\<close>: the live runs with their optimistic
  versions (\<open>upsert_live_run\<close>, \<open>create_live_run_initial\<close>, \<open>update_live_run_if_version_matches\<close>,
  \<open>get_live_run\<close>, \<open>delete_live_run\<close>, the listings), the log of state transitions
  (\<open>record_transition\<close>) and the archive (\<open>archive_run\<close>, \<open>get_archived_run\<close>,
  \<open>list_run_archive\<close>). A JSONB column holds the dictionary that was written to it.
\<close>

subsection \<open>Tables\<close>

record live_row =
  l_run_id :: string
  l_workspace_id :: string
  l_tenant_id :: string
  l_state :: string
  l_payload :: pydict
  l_trace_id :: "string option"
  l_version :: int
  l_registered_at :: int
  l_created_at :: int
  l_updated_at :: int

record transition_row =
  t_run_id :: string
  t_from :: string
  t_to :: string
  t_actor :: string
  t_trace_id :: "string option"
  t_timestamp :: int

record archive_row =
  a_run_id :: string
  a_workspace_id :: string
  a_tenant_id :: string
  a_final_state :: string
  a_payload :: pydict
  a_trace_id :: "string option"
  a_completed_at :: int

record run_store =
  live_runs :: "live_row list"
  transitions :: "transition_row list"
  archive :: "archive_row list"

definition live_of :: "string \<Rightarrow> run_store \<Rightarrow> live_row option" where
  "live_of run s = row_of l_run_id run (live_runs s)"

definition archived_of :: "string \<Rightarrow> run_store \<Rightarrow> archive_row option" where
  "archived_of run s = row_of a_run_id run (archive s)"

subsection \<open>Payloads\<close>

definition payload_workspace_id :: "pydict \<Rightarrow> string" where
  "payload_workspace_id payload =
     (let context = dict_of (dget payload ''context'')
      in sor (strip (py_str_of (por (dget payload ''workspace_id'')
               (por (dget context ''workspace_id'') (PStr ''default''))))) ''default'')"

definition payload_tenant_id :: "pydict \<Rightarrow> string" where
  "payload_tenant_id payload =
     (let context = dict_of (dget payload ''context''); metadata = dict_of (dget context ''metadata'')
      in sor (strip (py_str_of (por (dget payload ''tenant_id'') (por (dget context ''tenant_id'')
               (por (dget metadata ''tenant_id'') (PStr ''default'')))))) ''default'')"

definition normalize_live_run_payload ::
    "string \<Rightarrow> string \<Rightarrow> string \<Rightarrow> string \<Rightarrow> pydict \<Rightarrow> string \<Rightarrow> int option \<Rightarrow> string option \<Rightarrow> pydict" where
  "normalize_live_run_payload run_id workspace_id tenant_id state payload trace_id version registered_at =
     (let normalized_state = sor (strip state) ''queued'';
          item = dset ''state'' (PStr normalized_state) (dset ''status'' (PStr normalized_state)
                  (dset ''tenant_id'' (PStr (sor (strip tenant_id) ''default''))
                  (dset ''workspace_id'' (PStr (sor (strip workspace_id) ''default''))
                  (dset ''run_id'' (PStr (strip run_id)) payload))));
          item = (if strip trace_id = [] then item else dset ''trace_id'' (PStr (strip trace_id)) item);
          item = (case version of None \<Rightarrow> item | Some v \<Rightarrow> dset ''_durable_version'' (PInt v) item)
      in case registered_at of None \<Rightarrow> item
         | Some r \<Rightarrow> if r = [] then item else dset ''_durable_registered_at'' (PStr (strip r)) item)"

definition compare_payload :: "pydict \<Rightarrow> pydict" where
  "compare_payload payload = dpop ''_durable_registered_at'' (dpop ''_durable_version'' payload)"

definition live_run_payload_from_row :: "live_row \<Rightarrow> pydict" where
  "live_run_payload_from_row row =
     (let payload = l_payload row;
          state = sor (strip (py_str_of (por (PStr (l_state row)) (por (dget payload ''status'')
                    (por (dget payload ''state'') (PStr ''queued'')))))) ''queued'';
          workspace_id = sor (strip (py_str_of (por (PStr (l_workspace_id row)) (por (dget payload ''workspace_id'')
                    (PStr (payload_workspace_id payload)))))) ''default'';
          tenant_id = sor (strip (py_str_of (por (PStr (l_tenant_id row)) (por (dget payload ''tenant_id'')
                    (PStr (payload_tenant_id payload)))))) ''default'';
          trace_id = strip (py_str_of (por (opt_val (l_trace_id row)) (por (dget payload ''trace_id'') (PStr []))));
          registered_at = snone (strip (datetime_str (l_registered_at row)))
      in normalize_live_run_payload
           (strip (py_str_of (por (PStr (l_run_id row)) (por (dget payload ''run_id'') (PStr [])))))
           workspace_id tenant_id state payload trace_id (Some (l_version row)) registered_at)"

subsection \<open>Reading\<close>

text \<open>Reading a live run: a database error is logged and reads as no run.\<close>

definition get_live_run :: "repo_env \<Rightarrow> string \<Rightarrow> run_store \<Rightarrow> pydict option res" where
  "get_live_run E run_id s =
     (let token = strip run_id in
      if token = [] then Inr None
      else case read_pool E ''get_live_run'' of
        Inl e \<Rightarrow> Inl e
      | Inr False \<Rightarrow> Inr None
      | Inr True \<Rightarrow>
        (if coalesce (fault E 0) (fault E 1) \<noteq> None then Inr None
         else Inr (map_option live_run_payload_from_row (live_of token s))))"

definition get_archived_run :: "repo_env \<Rightarrow> string \<Rightarrow> run_store \<Rightarrow> pydict option res" where
  "get_archived_run E run_id s =
     (let token = strip run_id in
      if token = [] then Inr None
      else case read_pool E ''get_archived_run'' of
        Inl e \<Rightarrow> Inl e
      | Inr False \<Rightarrow> Inr None
      | Inr True \<Rightarrow> (if fault E 0 \<noteq> None then Inr None else Inr (map_option a_payload (archived_of token s))))"

text \<open>\<open>ORDER BY updated_at DESC, created_at DESC\<close>.\<close>

definition newest_first :: "live_row list \<Rightarrow> live_row list" where
  "newest_first rows = order_desc l_updated_at (order_desc l_created_at rows)"

definition read_live :: "repo_env \<Rightarrow> string \<Rightarrow> 'a \<Rightarrow> 'a \<Rightarrow> 'a res" where
  "read_live E operation dflt v =
     (case read_pool E operation of
        Inl e \<Rightarrow> Inl e
      | Inr False \<Rightarrow> Inr dflt
      | Inr True \<Rightarrow> if coalesce (fault E 0) (fault E 1) \<noteq> None then Inr dflt else Inr v)"

definition list_live_runs :: "repo_env \<Rightarrow> run_store \<Rightarrow> pydict list res" where
  "list_live_runs E s = read_live E ''list_live_runs'' []
     (map live_run_payload_from_row (newest_first (live_runs s)))"

definition norm_states :: "string option list \<Rightarrow> string list" where
  "norm_states states = map (\<lambda>x. lower (opt_tok x)) (filter (\<lambda>x. opt_tok x \<noteq> []) states)"

definition live_filter :: "string \<Rightarrow> string list \<Rightarrow> live_row \<Rightarrow> bool" where
  "live_filter workspace states r \<longleftrightarrow>
     (workspace = [] \<or> l_workspace_id r = workspace) \<and> (states = [] \<or> lower (l_state r) \<in> set states)"

definition list_live_runs_page ::
    "repo_env \<Rightarrow> int option \<Rightarrow> int option \<Rightarrow> string option \<Rightarrow> string option list option \<Rightarrow> run_store \<Rightarrow> pydict list res" where
  "list_live_runs_page E limit offset workspace_id states s =
     (let normalized_states = norm_states (case states of None \<Rightarrow> [] | Some xs \<Rightarrow> xs);
          rows = newest_first (filter (live_filter (opt_tok workspace_id) normalized_states) (live_runs s))
      in read_live E ''list_live_runs_page'' []
           (map live_run_payload_from_row
             (limit_rows (max 1 (min (int_or limit 0) 500)) (drop (nat (max 0 (int_or offset 0))) rows))))"

definition count_live_runs ::
    "repo_env \<Rightarrow> string option \<Rightarrow> string option list option \<Rightarrow> run_store \<Rightarrow> int res" where
  "count_live_runs E workspace_id states s =
     read_live E ''count_live_runs'' 0 (int (length (filter (live_filter (opt_tok workspace_id)
       (norm_states (case states of None \<Rightarrow> [] | Some xs \<Rightarrow> xs))) (live_runs s))))"

text \<open>\<open>payload #>> path\<close>: the text of the value at a path of object keys.\<close>

fun json_at :: "pyval \<Rightarrow> string list \<Rightarrow> pyval" where
  "json_at v [] = v"
| "json_at v (k # ks) = (case v of PDict d \<Rightarrow> json_at (dget d k) ks | _ \<Rightarrow> PNone)"

fun json_text :: "pyval \<Rightarrow> string option" where
  "json_text PNone = None"
| "json_text (PStr t) = Some t"
| "json_text v = Some (json_dumps v)"

definition text_at :: "pydict \<Rightarrow> string list \<Rightarrow> string option" where
  "text_at payload path = json_text (json_at (PDict payload) path)"

fun or_empty :: "string option \<Rightarrow> string" where
  "or_empty None = []"
| "or_empty (Some t) = t"

definition hosted_run :: "string \<Rightarrow> string list \<Rightarrow> live_row \<Rightarrow> bool" where
  "hosted_run workspace terminal r \<longleftrightarrow>
     l_workspace_id r = workspace \<and> lower (l_state r) \<notin> set terminal \<and>
     lower (or_empty (text_at (l_payload r) [''context'', ''metadata'', ''runtime_attachment_kind''])) \<noteq> ''self_hosted_business_node'' \<and>
     (lower (or_empty (text_at (l_payload r) [''context'', ''metadata'', ''execution_target_selected''])) = ''cloud'' \<or>
      lower (or_empty (coalesce (text_at (l_payload r) [''context'', ''metadata'', ''runtime_mode''])
                                (text_at (l_payload r) [''runtime_mode'']))) = ''hosted_secure'')"

definition count_hosted_live_runs ::
    "repo_env \<Rightarrow> string \<Rightarrow> string option list option \<Rightarrow> run_store \<Rightarrow> int res" where
  "count_hosted_live_runs E workspace_id terminal_states s =
     (let workspace = strip workspace_id;
          terminal = norm_states (case terminal_states of
             None \<Rightarrow> map Some [''completed'', ''failed'', ''cancelled'', ''canceled'', ''timeout'', ''aborted'']
           | Some [] \<Rightarrow> map Some [''completed'', ''failed'', ''cancelled'', ''canceled'', ''timeout'', ''aborted'']
           | Some xs \<Rightarrow> xs)
      in if workspace = [] then Inr 0
         else read_live E ''count_hosted_live_runs'' 0 (int (length (filter (hosted_run workspace terminal) (live_runs s)))))"

definition list_live_runs_by_state :: "repo_env \<Rightarrow> string option list \<Rightarrow> run_store \<Rightarrow> pydict list res" where
  "list_live_runs_by_state E states s =
     (let normalized_states = norm_states states in
      if normalized_states = [] then list_live_runs E s
      else read_live E ''list_live_runs_by_state'' []
        (map live_run_payload_from_row
          (newest_first (filter (\<lambda>r. lower (l_state r) \<in> set normalized_states) (live_runs s)))))"

definition list_run_archive :: "repo_env \<Rightarrow> int option \<Rightarrow> run_store \<Rightarrow> pydict list res" where
  "list_run_archive E limit s =
     (case read_pool E ''list_run_archive'' of
        Inl e \<Rightarrow> Inl e
      | Inr False \<Rightarrow> Inr []
      | Inr True \<Rightarrow> (if fault E 0 \<noteq> None then Inr []
          else Inr (map a_payload (limit_rows (max 1 (int_or limit 0)) (order_desc a_completed_at (archive s))))))"

definition waits_for :: "string \<Rightarrow> live_row \<Rightarrow> bool" where
  "waits_for approval r = (json_at (PDict (l_payload r)) [''pending_confirmation'', ''approval_id''] = PStr approval \<or>
     json_at (PDict (l_payload r)) [''pending_approval'', ''approval_id''] = PStr approval)"

definition find_live_run_by_approval_id :: "repo_env \<Rightarrow> string \<Rightarrow> run_store \<Rightarrow> pydict option res" where
  "find_live_run_by_approval_id E approval_id s =
     (let token = strip approval_id in
      if token = [] then Inr None
      else read_live E ''find_live_run_by_approval_id'' None
        (case order_desc l_updated_at (filter (waits_for token) (live_runs s)) of
           [] \<Rightarrow> None | r # _ \<Rightarrow> Some (live_run_payload_from_row r)))"

subsection \<open>Writing\<close>

text \<open>
  The environment of a nested operation: its database calls come after the \<open>n\<close> calls the
  caller has made.
\<close>

definition after_calls :: "nat \<Rightarrow> repo_env \<Rightarrow> repo_env" where
  "after_calls n E = E\<lparr>fault := (\<lambda>k. fault E (k + n))\<rparr>"

definition update_live_run_if_version_matches ::
    "repo_env \<Rightarrow> string \<Rightarrow> string \<Rightarrow> string \<Rightarrow> string \<Rightarrow> pydict \<Rightarrow> string \<Rightarrow> int
     \<Rightarrow> run_store \<Rightarrow> int option res \<times> run_store" where
  "update_live_run_if_version_matches E run_id workspace_id tenant_id state payload trace_id expected_version s =
     (let token = strip run_id;
          workspace = sor (strip workspace_id) ''default'';
          tenant = sor (strip tenant_id) ''default'';
          st = sor (strip state) ''queued'';
          trace = strip trace_id;
          current = max 0 expected_version;
          next = current + 1 in
      if token = [] then (Inr None, s)
      else case enforce_runtime_state_store_decision E
             ((store_defaults ''upsert_live_run'')\<lparr>sr_run_id := Some token, sr_workspace_id := Some workspace,
                sr_tenant_id := Some tenant, sr_status := Some st, sr_trace_id := Some trace,
                sr_payload := Some payload, sr_expected_version := Some current, sr_current_version := Some current\<rparr>) of
        Inl e \<Rightarrow> (Inl e, s)
      | Inr _ \<Rightarrow>
        (let desired = normalize_live_run_payload token workspace tenant st payload trace (Some next) None;
             failed = (\<lambda>m. Inl (PersistenceError (''Postgres update_live_run_if_version_matches failed for '' @ token @ '': '' @ m))) in
         case require_pool E ''update_live_run_if_version_matches'' of
           Inl e \<Rightarrow> (Inl e, s)
         | Inr _ \<Rightarrow>
           (case coalesce (fault E 0) (fault E 1) of
              Some m \<Rightarrow> (failed m, s)
            | None \<Rightarrow>
              (case live_of token s of
                 Some r \<Rightarrow>
                   if l_version r = current
                   then (Inr (Some next),
                         s\<lparr>live_runs := put_row l_run_id (r\<lparr>l_workspace_id := workspace, l_tenant_id := tenant,
                            l_state := st, l_payload := desired,
                            l_trace_id := coalesce_text (snone trace) (l_trace_id r),
                            l_version := next, l_updated_at := now E\<rparr>) (live_runs s)\<rparr>)
                   else (case fault E 2 of
                      Some m \<Rightarrow> (failed m, s)
                    | None \<Rightarrow>
                      (let existing = live_run_payload_from_row r in
                       (Inr (if tok (dget existing ''status'') = st \<and>
                                py_eq (PDict (compare_payload existing)) (PDict (compare_payload desired)) \<and>
                                next \<le> l_version r
                             then Some (l_version r) else None), s)))
               | None \<Rightarrow> (case fault E 2 of Some m \<Rightarrow> (failed m, s) | None \<Rightarrow> (Inr None, s))))))"

text \<open>\<open>int(raw) if raw is not None else None\<close>, where a failing \<open>int\<close> gives \<open>None\<close>.\<close>

definition durable_version :: "pydict \<Rightarrow> int option" where
  "durable_version payload = (case py_int (dget payload ''_durable_version'') of Inr v \<Rightarrow> Some v | Inl _ \<Rightarrow> None)"

definition upsert_live_run ::
    "repo_env \<Rightarrow> string \<Rightarrow> string \<Rightarrow> string \<Rightarrow> string \<Rightarrow> pydict \<Rightarrow> string \<Rightarrow> run_store \<Rightarrow> unit res \<times> run_store" where
  "upsert_live_run E run_id workspace_id tenant_id state payload trace_id s =
     (let token = strip run_id;
          workspace = sor (strip workspace_id) ''default'';
          tenant = sor (strip tenant_id) ''default'';
          st = sor (strip state) ''queued'';
          trace = snone (strip trace_id);
          expected = durable_version payload;
          failed = (\<lambda>m. Inl (PersistenceError (''Postgres upsert_live_run failed for '' @ token @ '': '' @ m))) in
      if token = [] then (Inr (), s)
      else case require_pool E ''upsert_live_run'' of
        Inl e \<Rightarrow> (Inl e, s)
      | Inr _ \<Rightarrow>
        (case enforce_runtime_state_store_decision E
             ((store_defaults ''upsert_live_run'')\<lparr>sr_run_id := Some token, sr_workspace_id := Some workspace,
                sr_tenant_id := Some tenant, sr_status := Some st, sr_trace_id := trace,
                sr_payload := Some payload, sr_expected_version := expected\<rparr>) of
           Inl e \<Rightarrow> (Inl e, s)
         | Inr _ \<Rightarrow>
           (case fault E 0 of
              Some m \<Rightarrow> (failed m, s)
            | None \<Rightarrow>
              (case expected of
                 Some v \<Rightarrow>
                   (case update_live_run_if_version_matches (after_calls 1 E) token workspace tenant st payload (or_empty trace) v s of
                      (Inl e, s') \<Rightarrow> (failed (exc_text e), s')
                    | (Inr None, s') \<Rightarrow> (failed (exc_text (VersionConflictError (
                        ''Postgres upsert_live_run version conflict for '' @ token @ '' at expected version '' @ py_int_str v))), s')
                    | (Inr (Some _), s') \<Rightarrow> (Inr (), s'))
               | None \<Rightarrow>
                 (case fault E 1 of
                    Some m \<Rightarrow> (failed m, s)
                  | None \<Rightarrow>
                    (let body = normalize_live_run_payload token workspace tenant st payload (or_empty trace) None None;
                         row = (case live_of token s of
                           None \<Rightarrow> \<lparr>l_run_id = token, l_workspace_id = workspace, l_tenant_id = tenant, l_state = st,
                             l_payload = body, l_trace_id = trace, l_version = 0, l_registered_at = now E,
                             l_created_at = now E, l_updated_at = now E\<rparr>
                         | Some r \<Rightarrow> r\<lparr>l_workspace_id := workspace, l_tenant_id := tenant, l_state := st,
                             l_payload := body, l_trace_id := coalesce_text trace (l_trace_id r),
                             l_version := l_version r + 1, l_updated_at := now E\<rparr>)
                     in (Inr (), s\<lparr>live_runs := put_row l_run_id row (live_runs s)\<rparr>)))))))"

text \<open>The result is the dictionary's \<open>version\<close> and \<open>registered_at\<close>.\<close>

definition create_live_run_initial ::
    "repo_env \<Rightarrow> string \<Rightarrow> string \<Rightarrow> string \<Rightarrow> string \<Rightarrow> pydict \<Rightarrow> string
     \<Rightarrow> run_store \<Rightarrow> (int \<times> string option) res \<times> run_store" where
  "create_live_run_initial E run_id workspace_id tenant_id state payload trace_id s =
     (let token = strip run_id;
          workspace = sor (strip workspace_id) ''default'';
          tenant = sor (strip tenant_id) ''default'';
          st = sor (strip state) ''queued'';
          trace = strip trace_id in
      if token = [] then (Inl (PersistenceError ''Postgres create_live_run_initial requires a run_id''), s)
      else case enforce_runtime_state_store_decision E
             ((store_defaults ''upsert_live_run'')\<lparr>sr_run_id := Some token, sr_workspace_id := Some workspace,
                sr_tenant_id := Some tenant, sr_status := Some st, sr_trace_id := Some trace,
                sr_payload := Some payload, sr_current_version := Some 0\<rparr>) of
        Inl e \<Rightarrow> (Inl e, s)
      | Inr _ \<Rightarrow>
        (case require_pool E ''create_live_run_initial'' of
           Inl e \<Rightarrow> (Inl e, s)
         | Inr _ \<Rightarrow>
           (case coalesce (fault E 0) (fault E 1) of
              Some m \<Rightarrow> (Inl (PersistenceError (''Postgres create_live_run_initial failed for '' @ token @ '': '' @ m)), s)
            | None \<Rightarrow>
              (case live_of token s of
                 Some r \<Rightarrow> (Inl (PersistenceError (''Postgres create_live_run_initial refused duplicate run_id '' @ token)), s)
               | None \<Rightarrow>
                 (let row = \<lparr>l_run_id = token, l_workspace_id = workspace, l_tenant_id = tenant, l_state = st,
                        l_payload = normalize_live_run_payload token workspace tenant st payload trace (Some 0) None,
                        l_trace_id = snone trace, l_version = 0, l_registered_at = now E,
                        l_created_at = now E, l_updated_at = now E\<rparr>
                  in (Inr (0, snone (strip (datetime_str (now E)))),
                      s\<lparr>live_runs := put_row l_run_id row (live_runs s)\<rparr>))))))"

text \<open>Deleting reads the run first, and does nothing when the read finds none.\<close>

definition delete_live_run :: "repo_env \<Rightarrow> string \<Rightarrow> run_store \<Rightarrow> unit res \<times> run_store" where
  "delete_live_run E run_id s =
     (let token = strip run_id in
      if token = [] then (Inr (), s)
      else case get_live_run E token s of
        Inl e \<Rightarrow> (Inl e, s)
      | Inr None \<Rightarrow> (Inr (), s)
      | Inr (Some live_run) \<Rightarrow>
        (case enforce_runtime_state_store_decision E
             ((store_defaults ''delete_live_run'')\<lparr>sr_run_id := Some token,
                sr_workspace_id := Some (payload_workspace_id live_run), sr_tenant_id := Some (payload_tenant_id live_run),
                sr_status := Some (sor (strip (py_str_of (por (dget live_run ''status'')
                   (por (dget live_run ''state'') (PStr ''archived''))))) ''archived''),
                sr_trace_id := Some (tok (dget live_run ''trace_id'')), sr_state_class := Some ''live_runs''\<rparr>) of
           Inl e \<Rightarrow> (Inl e, s)
         | Inr _ \<Rightarrow>
           (case require_pool E ''delete_live_run'' of
              Inl e \<Rightarrow> (Inl e, s)
            | Inr _ \<Rightarrow>
              (case coalesce (fault E 2) (fault E 3) of
                 Some m \<Rightarrow> (Inl (PersistenceError (''Postgres delete_live_run failed for '' @ token @ '': '' @ m)), s)
               | None \<Rightarrow> (Inr (), s\<lparr>live_runs := del_rows (\<lambda>r. l_run_id r = token) (live_runs s)\<rparr>)))))"

text \<open>What identifies a recorded transition in the \<open>NOT EXISTS\<close>.\<close>

definition transition_key :: "transition_row \<Rightarrow> string \<times> string \<times> string \<times> string \<times> string" where
  "transition_key r = (t_run_id r, t_from r, t_to r, t_actor r, or_empty (t_trace_id r))"

definition event_version :: "pydict \<Rightarrow> int" where
  "event_version payload = safe_int (por (dget payload ''_event_seq'') (dget payload ''version'')) 0"

definition record_transition ::
    "repo_env \<Rightarrow> string \<Rightarrow> string \<Rightarrow> string \<Rightarrow> string \<Rightarrow> string \<Rightarrow> run_store \<Rightarrow> unit res \<times> run_store" where
  "record_transition E run_id from_state to_state actor trace_id s =
     (let token = strip run_id in
      if token = [] then (Inr (), s)
      else case get_live_run E token s of
        Inl e \<Rightarrow> (Inl e, s)
      | Inr live_run \<Rightarrow>
        (let live_payload = (case live_run of None \<Rightarrow> [] | Some d \<Rightarrow> d);
             from_st = sor (strip from_state) ''unknown''; to_st = sor (strip to_state) ''unknown'' in
         case enforce_run_record_decision E
             ((record_defaults ''record_transition'' token (payload_workspace_id live_payload) (payload_tenant_id live_payload))
                \<lparr>rr_from_state := Some from_st, rr_to_state := Some to_st, rr_version := Some (event_version live_payload)\<rparr>) of
           Inl e \<Rightarrow> (Inl e, s)
         | Inr decision \<Rightarrow>
           (if tok (dget decision ''next_action'') = ''noop'' then (Inr (), s)
            else case require_pool E ''record_transition'' of
              Inl e \<Rightarrow> (Inl e, s)
            | Inr _ \<Rightarrow>
              (case coalesce (fault E 2) (fault E 3) of
                 Some m \<Rightarrow> (Inl (PersistenceError (''Postgres record_transition failed for '' @ token @ '': '' @ m)), s)
               | None \<Rightarrow>
                 (let row = \<lparr>t_run_id = token, t_from = from_st, t_to = to_st, t_actor = sor (strip actor) ''runtime'',
                        t_trace_id = snone (strip trace_id), t_timestamp = now E\<rparr>
                  in (Inr (), if transition_key row \<in> transition_key ` set (transitions s) then s
                              else s\<lparr>transitions := transitions s @ [row]\<rparr>))))))"

definition archive_run ::
    "repo_env \<Rightarrow> string \<Rightarrow> string \<Rightarrow> pydict \<Rightarrow> string \<Rightarrow> run_store \<Rightarrow> unit res \<times> run_store" where
  "archive_run E run_id final_state payload trace_id s =
     (let token = strip run_id; final = sor (strip final_state) ''completed'' in
      if token = [] then (Inr (), s)
      else case enforce_run_record_decision E
             ((record_defaults ''archive_payload'' token (payload_workspace_id payload) (payload_tenant_id payload))
                \<lparr>rr_status := Some final, rr_final_state := Some final, rr_version := Some (event_version payload)\<rparr>) of
        Inl e \<Rightarrow> (Inl e, s)
      | Inr decision \<Rightarrow>
        (let body = apply_run_record_patch payload decision;
             st = sor (strip (py_str_of (por (dget body ''status'') (por (dget body ''state'') (PStr final))))) final in
         case enforce_runtime_state_store_decision E
             ((store_defaults ''archive_run'')\<lparr>sr_run_id := Some token, sr_workspace_id := Some (payload_workspace_id body),
                sr_tenant_id := Some (payload_tenant_id body), sr_status := Some st, sr_trace_id := Some trace_id,
                sr_payload := Some body\<rparr>) of
           Inl e \<Rightarrow> (Inl e, s)
         | Inr _ \<Rightarrow>
           (case require_pool E ''archive_run'' of
              Inl e \<Rightarrow> (Inl e, s)
            | Inr _ \<Rightarrow>
              (case coalesce (fault E 0) (fault E 1) of
                 Some m \<Rightarrow> (Inl (PersistenceError (''Postgres archive_run failed for '' @ token @ '': '' @ m)), s)
               | None \<Rightarrow>
                 (let old = archived_of token s;
                      row = \<lparr>a_run_id = token, a_workspace_id = payload_workspace_id body, a_tenant_id = payload_tenant_id body,
                        a_final_state = st, a_payload = body,
                        a_trace_id = coalesce_text (snone (strip trace_id)) (case old of None \<Rightarrow> None | Some r \<Rightarrow> a_trace_id r),
                        a_completed_at = now E\<rparr>
                  in (Inr (), s\<lparr>archive := put_row a_run_id row (archive s)\<rparr>))))))"

subsection \<open>What the writes do to the tables\<close>

lemmas step_splits = option.splits sum.splits if_splits prod.splits

lemma live_of_put [simp]:
  "live_of k (s\<lparr>live_runs := put_row l_run_id r (live_runs s)\<rparr>) = (if k = l_run_id r then Some r else live_of k s)"
  by (simp add: live_of_def)

lemma live_of_key: "live_of k s = Some r \<Longrightarrow> l_run_id r = k"
  by (auto simp: live_of_def dest: row_of_key)

lemma live_of_frame [simp]:
  "live_of k (s\<lparr>transitions := ts\<rparr>) = live_of k s" "live_of k (s\<lparr>archive := as\<rparr>) = live_of k s"
  by (simp_all add: live_of_def)

text \<open>A write of a live run either leaves the store alone or replaces one row by its successor.\<close>

definition live_write :: "string \<Rightarrow> run_store \<Rightarrow> run_store \<Rightarrow> bool" where
  "live_write run s s' \<longleftrightarrow> s' = s \<or>
     (\<exists>r'. l_run_id r' = run \<and> s' = s\<lparr>live_runs := put_row l_run_id r' (live_runs s)\<rparr> \<and>
        (case live_of run s of None \<Rightarrow> l_version r' = 0
         | Some r \<Rightarrow> l_version r' = l_version r + 1 \<and> l_registered_at r' = l_registered_at r))"

lemma live_write_refl [simp]: "live_write run s s"
  by (simp add: live_write_def)

definition run_version :: "run_store \<Rightarrow> string \<Rightarrow> int option" where
  "run_version s run = map_option l_version (live_of run s)"

lemma live_write_fresh:
  "live_of run s = None \<Longrightarrow> l_run_id r' = run \<Longrightarrow> l_version r' = 0 \<Longrightarrow>
   live_write run s (s\<lparr>live_runs := put_row l_run_id r' (live_runs s)\<rparr>)"
  by (auto simp: live_write_def)

lemma live_write_next:
  "live_of run s = Some r \<Longrightarrow> l_run_id r' = run \<Longrightarrow> l_version r' = l_version r + 1 \<Longrightarrow>
   l_registered_at r' = l_registered_at r \<Longrightarrow>
   live_write run s (s\<lparr>live_runs := put_row l_run_id r' (live_runs s)\<rparr>)"
  by (auto simp: live_write_def)

lemma live_write_case:
  "l_run_id fresh = run \<Longrightarrow> l_version fresh = 0 \<Longrightarrow>
   (\<And>r. live_of run s = Some r \<Longrightarrow> l_run_id (upd r) = run \<and> l_version (upd r) = l_version r + 1 \<and>
      l_registered_at (upd r) = l_registered_at r) \<Longrightarrow>
   live_write run s (s\<lparr>live_runs := put_row l_run_id (case live_of run s of None \<Rightarrow> fresh | Some r \<Rightarrow> upd r) (live_runs s)\<rparr>)"
  by (cases "live_of run s") (auto intro: live_write_fresh live_write_next)

lemma allowed_after_calls [simp]: "allowed (after_calls n E) a = allowed E a"
  by (simp add: allowed_def kernel_permits_def after_calls_def)

text \<open>
  The outcome of each operation: unchanged, or a success that the kernel allowed and that
  writes only its own table.
\<close>

lemma update_outcome:
  "update_live_run_if_version_matches E run w t st p tr e s \<in>
     outcome s (\<lambda>v s'. allowed E ''write_live_run_state'' \<and> live_write (strip run) s s' \<and>
       v = Some (max 0 e + 1) \<and> run_version s (strip run) = Some (max 0 e))"
  unfolding update_live_run_if_version_matches_def Let_def
  by (intro branch branch_changed conjI refl; (rule live_write_next, assumption)?)
    (auto simp: run_version_def live_of_key next_action_tables dest: store_allowed)

lemma update_error: "update_live_run_if_version_matches E run w t st p tr e s = (Inl x, s') \<Longrightarrow> s' = s"
  using update_outcome [of E run w t st p tr e s] by (auto simp: outcome_def)

lemma update_none: "update_live_run_if_version_matches E run w t st p tr e s = (Inr None, s') \<Longrightarrow> s' = s"
  using update_outcome [of E run w t st p tr e s] by (auto simp: outcome_def)

lemma update_some:
  "update_live_run_if_version_matches E run w t st p tr e s = (Inr (Some n), s') \<Longrightarrow> live_write (strip run) s s'"
  using update_outcome [of E run w t st p tr e s] by (auto simp: outcome_def)

lemma create_outcome:
  "create_live_run_initial E run w t st p tr s \<in>
     outcome s (\<lambda>v s'. allowed E ''write_live_run_state'' \<and> live_write (strip run) s s')"
  unfolding create_live_run_initial_def
  by (intro branch branch_changed conjI)
    (auto simp: next_action_tables dest: store_allowed intro: live_write_fresh)

lemma upsert_outcome:
  "upsert_live_run E run w t st p tr s \<in>
     outcome s (\<lambda>v s'. allowed E ''write_live_run_state'' \<and> live_write (strip run) s s')"
  unfolding upsert_live_run_def
  by (intro branch branch_changed conjI)
    (auto simp: next_action_tables outcome_def dest: live_of_key store_allowed update_error update_none update_some
      intro!: live_write_case)

lemma delete_outcome:
  "delete_live_run E run s \<in> outcome s (\<lambda>v s'. allowed E ''delete_live_run_state'' \<and>
     s' = s\<lparr>live_runs := del_rows (\<lambda>r. l_run_id r = strip run) (live_runs s)\<rparr>)"
  unfolding delete_live_run_def
  by (intro branch branch_changed conjI) (auto simp: next_action_tables dest: store_allowed)

lemma transition_outcome:
  "record_transition E run f t a tr s \<in> outcome s (\<lambda>v s'. allowed E ''record_transition'' \<and>
     (\<exists>row. transition_key row \<notin> transition_key ` set (transitions s) \<and> s' = s\<lparr>transitions := transitions s @ [row]\<rparr>))"
proof -
  have act: "allowed E ''record_transition''"
    if "enforce_run_record_decision E r = Inr d" "tok (dget d ''next_action'') \<noteq> ''noop''"
      "rr_operation r = ''record_transition''" for r d
    using record_allowed [OF that(1)] record_action [OF that(1)] that(2,3) by (auto simp: next_action_tables)
  show ?thesis
    unfolding record_transition_def
    by (intro branch) (auto simp: outcome_def intro!: act)
qed

lemma archive_outcome:
  "archive_run E run f p tr s \<in> outcome s (\<lambda>v s'. allowed E ''archive_run'' \<and> allowed E ''write_run_archive'' \<and>
     (\<exists>row. s' = s\<lparr>archive := put_row a_run_id row (archive s)\<rparr> \<and> a_run_id row = strip run))"
proof -
  have act: "allowed E ''archive_run''"
    if "enforce_run_record_decision E r = Inr d" "rr_operation r = ''archive_payload''" for r d
    using record_allowed [OF that(1)] record_action [OF that(1)] that(2) by (auto simp: next_action_tables)
  show ?thesis
    unfolding archive_run_def
    by (intro branch branch_changed conjI exI refl) (auto simp: next_action_tables dest: store_allowed intro: act)
qed

subsection \<open>Histories\<close>

datatype run_op =
    OpUpsertRun repo_env string string string string pydict string
  | OpCreateRun repo_env string string string string pydict string
  | OpUpdateRun repo_env string string string string pydict string int
  | OpDeleteRun repo_env string
  | OpTransition repo_env string string string string string
  | OpArchive repo_env string string pydict string

fun run_step :: "run_op \<Rightarrow> run_store \<Rightarrow> run_store" where
  "run_step (OpUpsertRun E run w t st p tr) s = snd (upsert_live_run E run w t st p tr s)"
| "run_step (OpCreateRun E run w t st p tr) s = snd (create_live_run_initial E run w t st p tr s)"
| "run_step (OpUpdateRun E run w t st p tr v) s = snd (update_live_run_if_version_matches E run w t st p tr v s)"
| "run_step (OpDeleteRun E run) s = snd (delete_live_run E run s)"
| "run_step (OpTransition E run f t a tr) s = snd (record_transition E run f t a tr s)"
| "run_step (OpArchive E run f p tr) s = snd (archive_run E run f p tr s)"

text \<open>The environment an operation ran in, and the kernel action it needs.\<close>

fun run_op_action :: "run_op \<Rightarrow> repo_env \<times> string" where
  "run_op_action (OpUpsertRun E run w t st p tr) = (E, ''write_live_run_state'')"
| "run_op_action (OpCreateRun E run w t st p tr) = (E, ''write_live_run_state'')"
| "run_op_action (OpUpdateRun E run w t st p tr v) = (E, ''write_live_run_state'')"
| "run_op_action (OpDeleteRun E run) = (E, ''delete_live_run_state'')"
| "run_op_action (OpTransition E run f t a tr) = (E, ''record_transition'')"
| "run_op_action (OpArchive E run f p tr) = (E, ''write_run_archive'')"

fun deletes_run :: "run_op \<Rightarrow> string \<Rightarrow> bool" where
  "deletes_run (OpDeleteRun E run) k = (strip run = k)"
| "deletes_run op k = False"

lemmas run_outcomes = upsert_outcome create_outcome update_outcome delete_outcome transition_outcome archive_outcome

lemmas run_states = run_outcomes [THEN outcome_state]

lemma live_write_version:
  "live_write run s s' \<Longrightarrow> run_version s k = Some v \<Longrightarrow> \<exists>w. run_version s' k = Some w \<and> v \<le> w"
  by (auto simp: live_write_def run_version_def split: option.splits)

lemma live_write_transitions: "live_write run s s' \<Longrightarrow> transitions s' = transitions s"
  by (auto simp: live_write_def)

text \<open>What one step does: a live write, a deletion, one more transition or an archived row.\<close>

lemma run_step_cases:
  "run_step op s = s \<or> (allowed (fst (run_op_action op)) (snd (run_op_action op)) \<and>
    ((\<exists>run. live_write run s (run_step op s)) \<or>
     (\<exists>run. deletes_run op run \<and> run_step op s = s\<lparr>live_runs := del_rows (\<lambda>r. l_run_id r = run) (live_runs s)\<rparr>) \<or>
     (\<exists>row. transition_key row \<notin> transition_key ` set (transitions s) \<and>
        run_step op s = s\<lparr>transitions := transitions s @ [row]\<rparr>) \<or>
     (\<exists>row. run_step op s = s\<lparr>archive := put_row a_run_id row (archive s)\<rparr>)))"
proof (cases op)
  case (OpUpsertRun E run w t st p tr)
  then show ?thesis using run_states(1) [of E run w t st p tr s] by auto
next
  case (OpCreateRun E run w t st p tr)
  then show ?thesis using run_states(2) [of E run w t st p tr s] by auto
next
  case (OpUpdateRun E run w t st p tr v)
  then show ?thesis using run_states(3) [of E run w t st p tr v s] by auto
next
  case (OpDeleteRun E run)
  then show ?thesis using run_states(4) [of E run s] by auto
next
  case (OpTransition E run f t a tr)
  then show ?thesis using run_states(5) [of E run f t a tr s] by auto
next
  case (OpArchive E run f p tr)
  then show ?thesis using run_states(6) [of E run f p tr s] by auto
qed

lemma run_version_step:
  assumes "run_version s k = Some v" and "\<not> deletes_run op k"
  shows "\<exists>w. run_version (run_step op s) k = Some w \<and> v \<le> w"
  using run_step_cases [of op s] assms
  by (elim disjE conjE exE) (auto dest: live_write_version, auto simp: run_version_def live_of_def)

interpretation live_versions: monotone_store run_version run_step deletes_run
  by unfold_locales (rule run_version_step)

definition transition_of :: "run_store \<Rightarrow> string \<times> string \<times> string \<times> string \<times> string \<Rightarrow> transition_row option" where
  "transition_of s k = row_of transition_key k (transitions s)"

lemma run_step_transitions:
  "transitions (run_step op s) = transitions s \<or>
   (\<exists>row. transition_key row \<notin> transition_key ` set (transitions s) \<and> transitions (run_step op s) = transitions s @ [row])"
  using run_step_cases [of op s]
  by (elim disjE conjE exE) (auto dest: live_write_transitions)

interpretation transition_log: write_once transition_of run_step
proof unfold_locales
  fix s k row op
  assume "transition_of s k = Some row"
  then show "transition_of (run_step op s) k = Some row"
    using run_step_transitions [of op s] by (auto simp: transition_of_def row_of_append)
qed

subsection \<open>Properties\<close>

lemma normalize_live_fields [simp]:
  "dget (normalize_live_run_payload run w t st p tr v reg) ''run_id'' = PStr (strip run)"
  "dget (normalize_live_run_payload run w t st p tr v reg) ''status'' = PStr (sor (strip st) ''queued'')"
  "dget (normalize_live_run_payload run w t st p tr v reg) ''workspace_id'' = PStr (sor (strip w) ''default'')"
  "dget (normalize_live_run_payload run w t st p tr v reg) ''tenant_id'' = PStr (sor (strip t) ''default'')"
  "dget (normalize_live_run_payload run w t st p tr (Some n) reg) ''_durable_version'' = PInt n"
  by (auto simp: normalize_live_run_payload_def Let_def split: option.splits)

lemma sor_default: "strip d = d \<Longrightarrow> sor (strip (sor (strip x) d)) d = sor (strip x) d"
  by (simp add: sor_def)

lemma update_version:
  assumes "update_live_run_if_version_matches E run w t st p tr e s = (Inr (Some n), s')"
  shows "\<exists>v. run_version s' (strip run) = Some v \<and> max 0 e < v"
proof -
  have "update_live_run_if_version_matches E run w t st p tr e s \<in>
      {(r, s'). \<forall>n. r = Inr (Some n) \<longrightarrow> (\<exists>v. run_version s' (strip run) = Some v \<and> max 0 e < v)}"
    unfolding update_live_run_if_version_matches_def Let_def
    by (intro branch) (auto simp: run_version_def live_of_key)
  with assms show ?thesis by auto
qed

lemma update_stale:
  "run_version s (strip run) = Some v \<Longrightarrow> max 0 e \<noteq> v \<Longrightarrow>
   snd (update_live_run_if_version_matches E run w t st p tr e s) = s"
  using update_outcome [of E run w t st p tr e s] by (auto simp: outcome_def)

text \<open>
  C1. No lost update: once an optimistic update of a run from version \<open>v\<close> has been reported as
  done, no history of writes, transitions and archivings, short of deleting the run, lets an
  update from version \<open>v\<close> or an older one change anything.
\<close>

theorem no_lost_update:
  assumes "update_live_run_if_version_matches E run w t st p tr v s = (Inr (Some n), s1)"
    and "\<And>op. op \<in> set ops \<Longrightarrow> \<not> deletes_run op (strip run)" and "u \<le> v"
  shows "snd (update_live_run_if_version_matches E' run w' t' st' p' tr' u (fold run_step ops s1)) = fold run_step ops s1"
proof -
  from update_version [OF assms(1)] obtain x where x: "run_version s1 (strip run) = Some x" "max 0 v < x" by blast
  from live_versions.never_lower [OF x(1) assms(2)]
  obtain y where "run_version (fold run_step ops s1) (strip run) = Some y" "x \<le> y" by auto
  with x assms(3) show ?thesis by (intro update_stale) auto
qed

definition empty_store :: run_store where
  "empty_store = \<lparr>live_runs = [], transitions = [], archive = []\<rparr>"

definition demo_store :: run_store where
  "demo_store = snd (create_live_run_initial (allow_env 0) ''r1'' ''w'' ''t'' ''queued'' [] [] empty_store)"

lemma strip_names [simp]:
  "strip ''r1'' = ''r1''" "strip ''w'' = ''w''" "strip ''t'' = ''t''" "strip ''queued'' = ''queued''"
  "strip ''running'' = ''running''" "strip ''default'' = ''default''"
  by (simp_all add: strip_def py_space_def)

lemma create_open:
  assumes "store_gate E ((store_defaults ''upsert_live_run'')\<lparr>sr_run_id := Some (strip run),
      sr_workspace_id := Some (sor (strip w) ''default''), sr_tenant_id := Some (sor (strip t) ''default''),
      sr_status := Some (sor (strip st) ''queued''), sr_trace_id := Some (strip tr), sr_payload := Some p, sr_current_version := Some 0\<rparr>)"
    and "db_ok E" and "strip run \<noteq> []"
  shows "case live_of (strip run) s of
      Some r \<Rightarrow> create_live_run_initial E run w t st p tr s =
        (Inl (PersistenceError (''Postgres create_live_run_initial refused duplicate run_id '' @ strip run)), s)
    | None \<Rightarrow> create_live_run_initial E run w t st p tr s = (Inr (0, snone (strip (datetime_str (now E)))),
        s\<lparr>live_runs := put_row l_run_id \<lparr>l_run_id = strip run, l_workspace_id = sor (strip w) ''default'',
          l_tenant_id = sor (strip t) ''default'', l_state = sor (strip st) ''queued'',
          l_payload = normalize_live_run_payload (strip run) (sor (strip w) ''default'') (sor (strip t) ''default'')
            (sor (strip st) ''queued'') p (strip tr) (Some 0) None,
          l_trace_id = snone (strip tr), l_version = 0, l_registered_at = now E,
          l_created_at = now E, l_updated_at = now E\<rparr> (live_runs s)\<rparr>)"
  using assms by (auto simp: create_live_run_initial_def store_gate_def Let_def split: option.splits)

lemma demo_store_version: "\<exists>r. live_of ''r1'' demo_store = Some r \<and> l_version r = 0"
proof -
  have "live_of ''r1'' empty_store = None" by (simp add: live_of_def empty_store_def)
  with create_open [where E = "allow_env 0" and run = "''r1''" and w = "''w''" and t = "''t''" and st = "''queued''"
      and tr = "[]" and p = "[]" and s = empty_store]
  show ?thesis by (simp add: allow_store demo_store_def)
qed

lemma update_open:
  assumes "store_gate E ((store_defaults ''upsert_live_run'')\<lparr>sr_run_id := Some (strip run),
      sr_workspace_id := Some (sor (strip w) ''default''), sr_tenant_id := Some (sor (strip t) ''default''),
      sr_status := Some (sor (strip st) ''queued''), sr_trace_id := Some (strip tr), sr_payload := Some p,
      sr_expected_version := Some (max 0 e), sr_current_version := Some (max 0 e)\<rparr>)"
    and "db_ok E" and "strip run \<noteq> []" and "run_version s (strip run) = Some (max 0 e)"
  shows "fst (update_live_run_if_version_matches E run w t st p tr e s) = Inr (Some (max 0 e + 1))"
  using assms by (auto simp: update_live_run_if_version_matches_def store_gate_def run_version_def Let_def)

theorem no_lost_update_witness:
  "\<exists>s1. update_live_run_if_version_matches (allow_env 1) ''r1'' ''w'' ''t'' ''running'' [] [] 0 demo_store = (Inr (Some 1), s1) \<and>
     snd (update_live_run_if_version_matches (allow_env 9) ''r1'' ''w'' ''t'' ''queued'' [] [] 0
       (fold run_step [OpTransition (allow_env 2) ''r1'' ''queued'' ''running'' [] []] s1)) =
     fold run_step [OpTransition (allow_env 2) ''r1'' ''queued'' ''running'' [] []] s1"
proof -
  let ?u = "update_live_run_if_version_matches (allow_env 1) ''r1'' ''w'' ''t'' ''running'' [] [] 0 demo_store"
  have "fst ?u = Inr (Some 1)"
    using update_open [where E = "allow_env 1" and run = "''r1''" and w = "''w''" and t = "''t''" and st = "''running''"
        and tr = "[]" and p = "[]" and e = 0 and s = demo_store] demo_store_version
    by (auto simp: allow_store run_version_def)
  then have u: "?u = (Inr (Some 1), snd ?u)" by (metis prod.collapse)
  show ?thesis
    by (intro exI conjI, rule u, rule no_lost_update [OF u]) auto
qed

text \<open>
  What a reported update means: the run was at the expected version and is now one version
  on, with the state and the payload that were given; or nothing changed, and the run already
  was past the expected version with the very payload and state that were to be written.
\<close>

theorem reported_update:
  assumes "update_live_run_if_version_matches E run w t st p tr e s = (Inr (Some n), s')"
  shows "\<exists>r r'. live_of (strip run) s = Some r \<and> live_of (strip run) s' = Some r' \<and> n = l_version r' \<and>
    (let desired = normalize_live_run_payload (strip run) (sor (strip w) ''default'') (sor (strip t) ''default'')
       (sor (strip st) ''queued'') p (strip tr) (Some (max 0 e + 1)) None in
     (l_version r = max 0 e \<and> n = max 0 e + 1 \<and> l_payload r' = desired \<and> l_state r' = sor (strip st) ''queued'') \<or>
     (s' = s \<and> max 0 e < n \<and> py_eq (PDict (compare_payload (live_run_payload_from_row r))) (PDict (compare_payload desired))))"
    (is "?P n s'")
proof -
  have "update_live_run_if_version_matches E run w t st p tr e s \<in> {(r, s'). \<forall>n. r = Inr (Some n) \<longrightarrow> ?P n s'}"
    unfolding update_live_run_if_version_matches_def Let_def
    by (intro branch) (auto simp: live_of_key)
  with assms show ?thesis by auto
qed

theorem reported_update_witness:
  "\<exists>s' r'. update_live_run_if_version_matches (allow_env 1) ''r1'' ''w'' ''t'' ''running'' [] [] 0 demo_store = (Inr (Some 1), s') \<and>
     live_of ''r1'' s' = Some r' \<and> l_version r' = 1"
proof -
  let ?u = "update_live_run_if_version_matches (allow_env 1) ''r1'' ''w'' ''t'' ''running'' [] [] 0 demo_store"
  have "fst ?u = Inr (Some 1)"
    using update_open [where E = "allow_env 1" and run = "''r1''" and w = "''w''" and t = "''t''" and st = "''running''"
        and tr = "[]" and p = "[]" and e = 0 and s = demo_store] demo_store_version
    by (auto simp: allow_store run_version_def)
  then have u: "?u = (Inr (Some 1), snd ?u)" by (metis prod.collapse)
  from reported_update [OF u] show ?thesis using u by auto
qed

text \<open>
  Registering a run: it succeeds only for a run id that is not live, at version 0, and reading
  the run back gives its id, workspace, tenant and state with that version; a duplicate is
  refused and changes nothing.
\<close>

theorem create_then_get:
  assumes "create_live_run_initial E run w t st p tr s = (res, s')"
  shows "(live_of (strip run) s \<noteq> None \<longrightarrow> s' = s \<and> (\<exists>e. res = Inl e)) \<and>
    (\<forall>version reg E'. res = Inr (version, reg) \<longrightarrow> db_ok E' \<longrightarrow>
       version = 0 \<and> (\<exists>item. get_live_run E' run s' = Inr (Some item) \<and>
         dget item ''run_id'' = PStr (strip run) \<and>
         dget item ''workspace_id'' = PStr (sor (strip w) ''default'') \<and>
         dget item ''tenant_id'' = PStr (sor (strip t) ''default'') \<and>
         dget item ''status'' = PStr (sor (strip st) ''queued'') \<and>
         dget item ''_durable_version'' = PInt 0))" (is "?P res s'")
proof -
  have fixed: "strip (sor (strip x) d) = sor (strip x) d" if "strip d = d" for x d :: string
    using that by (simp add: sor_def)
  have kept: "sor (strip (py_str_of (por (PStr (sor (strip x) d)) v))) d = sor (strip x) d"
    if "strip d = d" "d \<noteq> []" for x d :: string and v
    using that fixed [OF that(1), of x] by (simp add: por_def sor_def)
  have "create_live_run_initial E run w t st p tr s \<in> {(r, s'). ?P r s'}"
    unfolding create_live_run_initial_def Let_def
    by (intro branch)
      (auto simp: get_live_run_def live_run_payload_from_row_def Let_def kept fixed)
  with assms show ?thesis by auto
qed

theorem create_then_get_witness:
  "\<exists>s'. create_live_run_initial (allow_env 0) ''r1'' ''w'' ''t'' ''queued'' [] [] empty_store =
      (Inr (0, snone (strip (datetime_str 0))), s') \<and>
    (\<exists>item. get_live_run (allow_env 5) ''r1'' s' = Inr (Some item) \<and> dget item ''status'' = PStr ''queued'')"
proof -
  let ?c = "create_live_run_initial (allow_env 0) ''r1'' ''w'' ''t'' ''queued'' [] [] empty_store"
  have "live_of ''r1'' empty_store = None" by (simp add: live_of_def empty_store_def)
  with create_open [where E = "allow_env 0" and run = "''r1''" and w = "''w''" and t = "''t''" and st = "''queued''"
      and tr = "[]" and p = "[]" and s = empty_store]
  have c: "?c = (Inr (0, snone (strip (datetime_str 0))), snd ?c)" by (simp add: allow_store)
  from create_then_get [OF c] db_ok_allow [of 5]
  have "\<exists>item. get_live_run (allow_env 5) ''r1'' (snd ?c) = Inr (Some item) \<and> dget item ''status'' = PStr ''queued''"
    unfolding strip_names by (elim conjE allE [of _ "allow_env 5"] allE) (auto simp: sor_def)
  with c show ?thesis by metis
qed

lemma store_gate_error:
  "enforce_runtime_state_store_decision E r \<noteq> Inl (VersionConflictError m)"
  by (auto simp: enforce_runtime_state_store_decision_def run_runtime_kernel_enforced_def enforce_kernel_decision_def
      check_next_action_def Let_def split: step_splits)

text \<open>
  \<open>upsert_live_run\<close> never fails with the version-conflict error it raises: the handler
  around it turns the conflict into a plain persistence error, so a caller that asks for
  \<open>RunStateVersionConflictError\<close> is never told.
\<close>

theorem upsert_never_reports_conflict:
  "fst (upsert_live_run E run w t st p tr s) \<noteq> Inl (VersionConflictError m)"
proof -
  have "upsert_live_run E run w t st p tr s \<in> {c. fst c \<noteq> Inl (VersionConflictError m)}"
    unfolding upsert_live_run_def Let_def
    by (intro branch) (use store_gate_error in \<open>auto simp: require_pool_def split: option.splits\<close>)
  then show ?thesis by simp
qed

text \<open>
  The transition log is append-only and holds each transition of a run by an actor under a
  trace at most once, whatever is retried: every history extends it without repeating a key.
\<close>

theorem transition_log_once:
  assumes "keys_distinct transition_key (transitions s)"
  shows "keys_distinct transition_key (transitions (fold run_step ops s)) \<and>
    (\<exists>new. transitions (fold run_step ops s) = transitions s @ new)"
  using assms
proof (induction ops arbitrary: s)
  case Nil
  then show ?case by simp
next
  case (Cons op ops)
  have d: "keys_distinct transition_key (transitions (run_step op s))" and
    a: "\<exists>new. transitions (run_step op s) = transitions s @ new"
    using run_step_transitions [of op s] Cons.prems by (auto simp: keys_distinct_def)
  from Cons.IH [OF d] a show ?case by auto
qed

theorem transition_log_once_witness:
  "let op = OpTransition (allow_env 2) ''r1'' ''queued'' ''running'' [] [] in
   keys_distinct transition_key (transitions (fold run_step [op, op] empty_store))"
  using transition_log_once [of empty_store "let op = OpTransition (allow_env 2) ''r1'' ''queued'' ''running'' [] [] in [op, op]"]
  by (simp add: empty_store_def Let_def)

text \<open>
  What was archived is what the archive returns: the payload with the kernel's record patch
  merged in, in the state the patched payload names.
\<close>

theorem archive_then_get:
  assumes "archive_run E run f p tr s = (Inr (), s')" and "strip run \<noteq> []" and "db_ok E'"
  shows "\<exists>decision row. get_archived_run E' run s' = Inr (Some (apply_run_record_patch p decision)) \<and>
    tok (dget decision ''next_action'') = ''archive_run'' \<and>
    archived_of (strip run) s' = Some row \<and> a_completed_at row = now E"
proof -
  have act: "tok (dget d ''next_action'') = ''archive_run''"
    if "enforce_run_record_decision E r = Inr d" "rr_operation r = ''archive_payload''" for r d
    using record_action [OF that(1)] that(2) by (auto simp: next_action_tables)
  have "archive_run E run f p tr s \<in> {(r, s'). r = Inr () \<longrightarrow>
      (\<exists>decision row. archived_of (strip run) s' = Some row \<and> a_payload row = apply_run_record_patch p decision \<and>
         tok (dget decision ''next_action'') = ''archive_run'' \<and> a_completed_at row = now E)}"
    unfolding archive_run_def Let_def using assms(2)
    by (intro branch) (auto simp: archived_of_def intro!: act)
  with assms show ?thesis by (auto simp: get_archived_run_def)
qed

lemma archive_allowed: "fst (archive_run (allow_env t) run f p tr s) = Inr ()"
proof -
  have gate: "enforce_runtime_state_store_decision (allow_env t) r \<noteq> Inl e" if "sr_operation r = ''archive_run''" for r e
    using allow_store [of r t] that by (auto simp: store_gate_def)
  have rec: "enforce_run_record_decision (allow_env t) r \<noteq> Inl e" if "rr_operation r = ''archive_payload''" for r e
    using allow_record [of r t] that by auto
  have "archive_run (allow_env t) run f p tr s \<in> {c. fst c = Inr ()}"
    unfolding archive_run_def Let_def by (intro branch) (use gate rec in auto)
  then show ?thesis by simp
qed

theorem archive_then_get_witness:
  "\<exists>s'. archive_run (allow_env 3) ''r1'' [] [] [] empty_store = (Inr (), s') \<and>
    (\<exists>d. get_archived_run (allow_env 4) ''r1'' s' = Inr (Some d))"
proof -
  let ?a = "archive_run (allow_env 3) ''r1'' [] [] [] empty_store"
  have a: "?a = (Inr (), snd ?a)"
    using archive_allowed [of 3] by (metis prod.collapse)
  from archive_then_get [OF a, of "allow_env 4"] show ?thesis using a by auto
qed

end
