(* ===== verification/Approvals.thy ===== *)
theory Approvals
  imports Live_Runs
begin

text \<open>
  The durable approvals of \<open>run_state_repository.py\<close>: a run that needs a human decision
  registers a request (\<open>create_or_update_approval_request\<close>), which is decided by
  \<open>resolve_approval_if_pending\<close> or \<open>record_approval_resolution\<close> and listed while pending. A
  decision is final. The text of a timestamp is read by \<open>datetime.fromisoformat\<close> and encoded
  by the database driver; that reading is the parameter \<open>ts\<close>.
\<close>

subsection \<open>Table\<close>

record approval_row =
  ap_run_id :: string
  ap_step_id :: string
  ap_approval_id :: "string option"
  ap_status :: string
  ap_requested_at :: int
  ap_resolved_at :: "int option"
  ap_resolution :: "string option"
  ap_actor :: "string option"
  ap_trace_id :: "string option"
  ap_request_payload :: pydict
  ap_decision_payload :: pydict
  ap_metadata :: pydict
  ap_expires_at :: "int option"
  ap_updated_at :: int
  ap_version :: int

type_synonym approvals = "approval_row list"

text \<open>The unique index \<open>(run_id, step_id)\<close> and \<open>COALESCE(approval_id, step_id)\<close>.\<close>

definition ap_key :: "approval_row \<Rightarrow> string \<times> string" where
  "ap_key r = (ap_run_id r, ap_step_id r)"

definition ap_token :: "approval_row \<Rightarrow> string" where
  "ap_token r = (case ap_approval_id r of Some a \<Rightarrow> a | None \<Rightarrow> ap_step_id r)"

text \<open>
  What \<open>_ensure_run_approval_table\<close> does to existing rows: it fills in a missing approval id
  and normalises the status.
\<close>

definition final_resolutions :: "string list" where
  "final_resolutions = [''expired'', ''cancelled'', ''canceled'', ''dismissed'']"

definition ensured_row :: "approval_row \<Rightarrow> approval_row" where
  "ensured_row r = r\<lparr>
     ap_approval_id := (if or_empty (ap_approval_id r) = [] then Some (ap_step_id r) else ap_approval_id r),
     ap_status := (if ap_status r \<noteq> [] then lower (ap_status r)
       else if or_empty (ap_resolution r) \<in> set final_resolutions then lower (or_empty (ap_resolution r))
       else if ap_resolved_at r \<noteq> None \<or> or_empty (ap_resolution r) \<noteq> [] then ''resolved''
       else ''requested'')\<rparr>"

definition ensure_run_approval_table :: "approvals \<Rightarrow> approvals" where
  "ensure_run_approval_table rows = map ensured_row rows"

subsection \<open>Tokens and records\<close>

definition approval_status_token :: "string \<Rightarrow> string" where
  "approval_status_token v = sor (lower (strip v)) ''requested''"

definition approval_resolution_token :: "string \<Rightarrow> string" where
  "approval_resolution_token v = sor (lower (strip v)) ''approved''"

definition approval_final_status :: "string \<Rightarrow> string" where
  "approval_final_status resolution =
     (let token = approval_resolution_token resolution
      in if token \<in> set final_resolutions then token else ''resolved'')"

definition coerce_timestamptz :: "(string \<Rightarrow> int option) \<Rightarrow> pyval \<Rightarrow> int option" where
  "coerce_timestamptz ts v = (let token = tok v in if token = [] then None else ts (replace_Z token))"

definition approval_request_timestamp :: "(string \<Rightarrow> int option) \<Rightarrow> pydict \<Rightarrow> int option" where
  "approval_request_timestamp ts payload =
     coerce_timestamptz ts (PStr (tok (por (dget payload ''requested_at'') (dget payload ''created_at''))))"

definition text_items :: "pyval \<Rightarrow> pyval res" where
  "text_items v = (case py_iter (por v (PList [])) of Inl e \<Rightarrow> Inl e
     | Inr xs \<Rightarrow> Inr (PList (map (\<lambda>x. PStr (tok x)) (filter (\<lambda>x. tok x \<noteq> []) xs))))"

definition list_or :: "pyval \<Rightarrow> pyval \<Rightarrow> pyval" where
  "list_or v w = (if is_list v then v else w)"

definition text_or_none :: "string \<Rightarrow> pyval" where
  "text_or_none s = opt_val (snone s)"

definition time_text :: "int option \<Rightarrow> pyval" where
  "time_text t = (case t of None \<Rightarrow> PNone | Some x \<Rightarrow> text_or_none (strip (datetime_str x)))"

definition approval_record_from_row :: "approval_row \<Rightarrow> pydict res" where
  "approval_record_from_row row =
     (let request = ap_request_payload row; metadata = ap_metadata row;
          either = (\<lambda>k. por (dget request k) (dget metadata k));
          approval_id = tok (por (opt_val (ap_approval_id row)) (por (PStr (ap_step_id row)) (dget request ''approval_id'')))
      in case text_items (list_or (dget request ''actions'') (dget metadata ''approval_actions'')) of Inl e \<Rightarrow> Inl e
       | Inr actions \<Rightarrow>
      (case text_items (list_or (dget request ''labels'') (dget metadata ''approval_labels'')) of Inl e \<Rightarrow> Inl e
       | Inr labels \<Rightarrow>
      (case text_items (list_or (dget request ''capabilities'') (dget metadata ''approval_capabilities'')) of Inl e \<Rightarrow> Inl e
       | Inr capabilities \<Rightarrow> Inr
        [(''run_id'', PStr (strip (ap_run_id row))),
         (''step_id'', PStr (sor (strip (sor (ap_step_id row) approval_id)) approval_id)),
         (''approval_id'', PStr approval_id),
         (''status'', PStr (approval_status_token (ap_status row))),
         (''requested_at'', time_text (Some (ap_requested_at row))),
         (''resolved_at'', time_text (ap_resolved_at row)),
         (''resolution'', text_or_none (lower (opt_tok (ap_resolution row)))),
         (''actor'', text_or_none (opt_tok (ap_actor row))),
         (''trace_id'', text_or_none (opt_tok (ap_trace_id row))),
         (''request_payload'', PDict request),
         (''decision_payload'', PDict (ap_decision_payload row)),
         (''metadata'', PDict metadata),
         (''expires_at'', time_text (ap_expires_at row)),
         (''updated_at'', time_text (Some (ap_updated_at row))),
         (''version'', PInt (ap_version row)),
         (''workspace_id'', PStr (sor (strip (py_str_of (por (either ''workspace_id'') (PStr ''default'')))) ''default'')),
         (''tenant_id'', PStr (sor (strip (py_str_of (por (either ''tenant_id'') (PStr ''default'')))) ''default'')),
         (''owner_user_id'', text_or_none (tok (either ''owner_user_id''))),
         (''owner_email'', text_or_none (lower (tok (either ''owner_email'')))),
         (''prompt'', PStr (strip (py_str_of (por (dget request ''prompt'')
            (por (dget request ''reason'') (PStr ''Approval required.'')))))),
         (''actions'', actions), (''labels'', labels), (''capabilities'', capabilities),
         (''target'', text_or_none (tok (por (dget request ''target'')
            (por (dget metadata ''approval_target'') (dget metadata ''target''))))),
         (''correlation_id'', text_or_none (tok (dget request ''correlation_id''))),
         (''scope'', PStr (sor (lower (strip (py_str_of (por (dget request ''scope'') (PStr ''once''))))) ''once'')),
         (''reusable'', PBool (truthy (dget request ''reusable''))),
         (''consequence'', text_or_none (tok (dget request ''consequence''))),
         (''agent_role'', text_or_none (tok (either ''agent_role''))),
         (''email_preview'', if is_dict (dget request ''email_preview'') then dget request ''email_preview''
            else if is_dict (dget metadata ''email_preview'') then dget metadata ''email_preview'' else PNone)])))"

subsection \<open>Operations\<close>

definition req_field :: "pydict \<Rightarrow> pydict \<Rightarrow> string \<Rightarrow> string" where
  "req_field request metadata k = sor (tok (por (dget request k) (dget metadata k))) ''default''"

definition create_or_update_approval_request ::
    "(string \<Rightarrow> int option) \<Rightarrow> repo_env \<Rightarrow> string \<Rightarrow> string \<Rightarrow> pydict \<Rightarrow> string \<Rightarrow> string \<Rightarrow> pydict option \<Rightarrow> string option
     \<Rightarrow> approvals \<Rightarrow> pydict res \<times> approvals" where
  "create_or_update_approval_request ts E run_id approval_id request_payload actor trace_id metadata expires_at s =
     (let run = strip run_id; approval = strip approval_id;
          request = dset ''approval_id'' (PStr approval) request_payload;
          given = (case metadata of None \<Rightarrow> [] | Some m \<Rightarrow> m);
          meta = (if given = [] \<and> is_dict (dget request ''metadata'') then dict_of (dget request ''metadata'') else given);
          requested_at = approval_request_timestamp ts request;
          expires = coerce_timestamptz ts (por (opt_val expires_at) (dget request ''expires_at'')) in
      if run = [] \<or> approval = []
        then (Inl (PersistenceError ''Postgres create_or_update_approval_request requires run_id and approval_id''), s)
      else case enforce_runtime_state_store_decision E
          ((store_defaults ''create_or_update_approval_request'')\<lparr>sr_run_id := Some run,
             sr_workspace_id := Some (req_field request meta ''workspace_id''),
             sr_tenant_id := Some (req_field request meta ''tenant_id''),
             sr_status := Some ''requested'', sr_trace_id := Some (strip trace_id), sr_payload := Some request\<rparr>) of
        Inl e \<Rightarrow> (Inl e, s)
      | Inr _ \<Rightarrow>
       (case require_pool E ''create_or_update_approval_request'' of
          Inl e \<Rightarrow> (Inl e, s)
        | Inr _ \<Rightarrow>
         (let failed = (\<lambda>m. Inl (PersistenceError (''Postgres create_or_update_approval_request failed for '' @ run @ ''/'' @ approval @ '': '' @ m))) in
          case fault E 0 of
            Some m \<Rightarrow> (failed m, s)
          | None \<Rightarrow>
           (let rows = ensure_run_approval_table s in
            case fault E 1 of
              Some m \<Rightarrow> (failed m, rows)
            | None \<Rightarrow>
             (case row_of ap_key (run, approval) rows of
                Some r \<Rightarrow>
                  (let r' = r\<lparr>ap_approval_id := Some approval,
                         ap_request_payload := (if ap_status r = ''requested'' then request else ap_request_payload r),
                         ap_metadata := (if ap_status r = ''requested'' then meta else ap_metadata r),
                         ap_expires_at := coalesce expires (ap_expires_at r),
                         ap_updated_at := now E\<rparr>
                   in if \<exists>x \<in> set rows. ap_key x \<noteq> (run, approval) \<and> ap_approval_id x = Some approval
                      then (failed (dup_error E), rows)
                      else (approval_record_from_row r', put_row ap_key r' rows))
              | None \<Rightarrow>
                  (if \<exists>x \<in> set rows. ap_approval_id x = Some approval
                   then (failed (dup_error E), rows)
                   else
                    (let r' = \<lparr>ap_run_id = run, ap_step_id = approval, ap_approval_id = Some approval,
                         ap_status = ''requested'',
                         ap_requested_at = (case requested_at of None \<Rightarrow> now E | Some t \<Rightarrow> t),
                         ap_resolved_at = None, ap_resolution = None, ap_actor = Some (sor (strip actor) ''system''),
                         ap_trace_id = snone (strip trace_id), ap_request_payload = request, ap_decision_payload = [],
                         ap_metadata = meta, ap_expires_at = expires, ap_updated_at = now E, ap_version = 0\<rparr>
                     in (approval_record_from_row r', put_row ap_key r' rows))))))))"

text \<open>The rows of \<open>run_id = $1 AND COALESCE(approval_id, step_id) = $2\<close>.\<close>

definition is_approval :: "string \<Rightarrow> string \<Rightarrow> approval_row \<Rightarrow> bool" where
  "is_approval run approval r = (ap_run_id r = run \<and> ap_token r = approval)"

definition with_note :: "string option \<Rightarrow> pydict \<Rightarrow> pydict" where
  "with_note note d = (case note of None \<Rightarrow> d | Some n \<Rightarrow> dset ''note'' (PStr n) d)"

definition resolve_approval_if_pending ::
    "repo_env \<Rightarrow> string \<Rightarrow> string \<Rightarrow> string \<Rightarrow> string \<Rightarrow> string \<Rightarrow> string option \<Rightarrow> pydict option
     \<Rightarrow> approvals \<Rightarrow> pydict option res \<times> approvals" where
  "resolve_approval_if_pending E run_id approval_id resolution actor trace_id note decision_payload s =
     (let run = strip run_id; approval = strip approval_id;
          token = approval_resolution_token resolution;
          final = approval_final_status token;
          decision = dsetdefault ''decision'' (PStr token) (dsetdefault ''resolution'' (PStr token)
            (with_note note (case decision_payload of None \<Rightarrow> [] | Some d \<Rightarrow> d)));
          failed = (\<lambda>m. Inl (PersistenceError (''Postgres resolve_approval_if_pending failed for '' @ run @ ''/'' @ approval @ '': '' @ m))) in
      if run = [] \<or> approval = [] then (Inr None, s)
      else case enforce_runtime_state_store_decision E
          ((store_defaults ''resolve_approval_if_pending'')\<lparr>sr_run_id := Some run,
             sr_workspace_id := Some (sor (tok (dget decision ''workspace_id'')) ''default''),
             sr_tenant_id := Some (sor (tok (dget decision ''tenant_id'')) ''default''),
             sr_status := Some final, sr_previous_status := Some ''requested'',
             sr_trace_id := Some (strip trace_id), sr_payload := Some decision\<rparr>) of
        Inl e \<Rightarrow> (Inl e, s)
      | Inr _ \<Rightarrow>
       (case require_pool E ''resolve_approval_if_pending'' of
          Inl e \<Rightarrow> (Inl e, s)
        | Inr _ \<Rightarrow>
         (case fault E 0 of
            Some m \<Rightarrow> (failed m, s)
          | None \<Rightarrow>
           (let rows = ensure_run_approval_table s;
                hit = (\<lambda>r. is_approval run approval r \<and> ap_status r = ''requested'');
                upd = (\<lambda>r. r\<lparr>ap_status := final, ap_resolved_at := Some (now E), ap_resolution := Some token,
                  ap_actor := Some (sor (strip actor) ''system''),
                  ap_trace_id := coalesce_text (snone (strip trace_id)) (ap_trace_id r),
                  ap_decision_payload := dmerge (ap_decision_payload r) decision,
                  ap_updated_at := now E, ap_version := ap_version r + 1\<rparr>) in
            case fault E 1 of
              Some m \<Rightarrow> (failed m, rows)
            | None \<Rightarrow>
             (case find hit rows of
                Some r \<Rightarrow>
                  (case approval_record_from_row (upd r) of
                     Inl e \<Rightarrow> (failed (exc_text e), upd_rows hit upd rows)
                   | Inr record_item \<Rightarrow> (Inr (Some record_item), upd_rows hit upd rows))
              | None \<Rightarrow>
                  (case fault E 2 of
                     Some m \<Rightarrow> (failed m, rows)
                   | None \<Rightarrow>
                     (case find (is_approval run approval) rows of
                        None \<Rightarrow> (Inr None, rows)
                      | Some r \<Rightarrow>
                          (case approval_record_from_row r of Inl e \<Rightarrow> (Inl e, rows) | Inr _ \<Rightarrow> (Inr None, rows)))))))))"

definition closed_statuses :: "string list" where
  "closed_statuses = [''resolved'', ''approved'', ''rejected'', ''expired'', ''cancelled'', ''canceled'', ''dismissed'']"

definition record_approval_resolution ::
    "repo_env \<Rightarrow> string \<Rightarrow> string \<Rightarrow> string \<Rightarrow> string \<Rightarrow> string \<Rightarrow> string option
     \<Rightarrow> approvals \<Rightarrow> pydict option res \<times> approvals" where
  "record_approval_resolution E run_id approval_id resolution actor trace_id note s =
     (let run = strip run_id; approval = strip approval_id;
          token = approval_resolution_token resolution;
          final = approval_final_status token;
          decision = with_note note [(''resolution'', PStr token), (''decision'', PStr token)];
          failed = (\<lambda>m. Inl (PersistenceError (''Postgres record_approval_resolution failed for '' @ run @ ''/'' @ approval @ '': '' @ m)));
          decode = (\<lambda>r. case approval_record_from_row r of Inl e \<Rightarrow> Inl e | Inr d \<Rightarrow> Inr (Some d)) in
      if run = [] \<or> approval = [] then (Inr None, s)
      else case enforce_runtime_state_store_decision E
          ((store_defaults ''record_approval_resolution'')\<lparr>sr_run_id := Some run,
             sr_workspace_id := Some ''default'', sr_tenant_id := Some ''default'',
             sr_status := Some final, sr_trace_id := Some (strip trace_id), sr_payload := Some decision\<rparr>) of
        Inl e \<Rightarrow> (Inl e, s)
      | Inr _ \<Rightarrow>
       (case require_pool E ''record_approval_resolution'' of
          Inl e \<Rightarrow> (Inl e, s)
        | Inr _ \<Rightarrow>
         (case fault E 0 of
            Some m \<Rightarrow> (failed m, s)
          | None \<Rightarrow>
           (let rows = ensure_run_approval_table s;
                hit = (\<lambda>r. is_approval run approval r \<and> (ap_status r \<notin> set closed_statuses \<or>
                  (ap_status r = final \<and> or_empty (ap_resolution r) = token)));
                upd = (\<lambda>r. r\<lparr>ap_status := final, ap_resolved_at := coalesce (ap_resolved_at r) (Some (now E)),
                  ap_resolution := Some token, ap_actor := Some (sor (strip actor) ''system''),
                  ap_trace_id := coalesce_text (snone (strip trace_id)) (ap_trace_id r),
                  ap_decision_payload := dmerge (ap_decision_payload r) decision, ap_updated_at := now E,
                  ap_version := (if ap_status r \<in> {''requested'', ''decision_submitted''} then ap_version r + 1 else ap_version r)\<rparr>) in
            case fault E 1 of
              Some m \<Rightarrow> (failed m, rows)
            | None \<Rightarrow>
             (case find hit rows of
                Some r \<Rightarrow> (decode (upd r), upd_rows hit upd rows)
              | None \<Rightarrow>
                (case fault E 2 of
                   Some m \<Rightarrow> (failed m, rows)
                 | None \<Rightarrow>
                   (case find (is_approval run approval) rows of
                      Some r \<Rightarrow>
                        (case approval_record_from_row r of
                           Inl e \<Rightarrow> (failed (exc_text e), rows)
                         | Inr existing \<Rightarrow>
                           if lower (tok (dget existing ''status'')) = final \<and> lower (tok (dget existing ''resolution'')) = token
                           then (Inr (Some existing), rows)
                           else (failed (exc_text (VersionConflictError (
                             ''Postgres record_approval_resolution refused conflicting final state for '' @ run @ ''/'' @ approval))), rows))
                    | None \<Rightarrow>
                      (case fault E 3 of
                         Some m \<Rightarrow> (failed m, rows)
                       | None \<Rightarrow>
                         (case row_of ap_key (run, approval) rows of
                            Some r \<Rightarrow>
                              (let r' = r\<lparr>ap_updated_at := now E\<rparr> in (decode r', put_row ap_key r' rows))
                          | None \<Rightarrow>
                              (if \<exists>x \<in> set rows. ap_approval_id x = Some approval then (failed (dup_error E), rows)
                               else
                                (let r' = \<lparr>ap_run_id = run, ap_step_id = approval, ap_approval_id = Some approval,
                                   ap_status = final, ap_requested_at = now E, ap_resolved_at = Some (now E),
                                   ap_resolution = Some token, ap_actor = Some (sor (strip actor) ''system''),
                                   ap_trace_id = snone (strip trace_id), ap_request_payload = [],
                                   ap_decision_payload = decision, ap_metadata = [], ap_expires_at = None,
                                   ap_updated_at = now E, ap_version = 0\<rparr>
                                 in (decode r', put_row ap_key r' rows))))))))))))"

subsection \<open>Reading\<close>

fun decode_rows :: "approval_row list \<Rightarrow> pydict list res" where
  "decode_rows [] = Inr []"
| "decode_rows (r # rs) = (case approval_record_from_row r of Inl e \<Rightarrow> Inl e
     | Inr d \<Rightarrow> (case decode_rows rs of Inl e \<Rightarrow> Inl e | Inr ds \<Rightarrow> Inr (d # ds)))"

text \<open>
  A read behind \<open>_read_pool\<close>: it ensures the table, and a database error reads as the default.
\<close>

definition read_approvals ::
    "repo_env \<Rightarrow> string \<Rightarrow> 'a \<Rightarrow> (approvals \<Rightarrow> 'a res) \<Rightarrow> approvals \<Rightarrow> 'a res \<times> approvals" where
  "read_approvals E operation dflt query s =
     (case read_pool E operation of
        Inl e \<Rightarrow> (Inl e, s)
      | Inr False \<Rightarrow> (Inr dflt, s)
      | Inr True \<Rightarrow>
        (if fault E 0 \<noteq> None then (Inr dflt, s)
         else let rows = ensure_run_approval_table s in
           if fault E 1 \<noteq> None then (Inr dflt, rows) else (query rows, rows)))"

text \<open>\<open>ORDER BY requested_at DESC, id DESC\<close>: the rows are in the order of their ids.\<close>

definition pending_first :: "approvals \<Rightarrow> approvals" where
  "pending_first rows = order_desc ap_requested_at (rev (filter (\<lambda>r. ap_status r = ''requested'') rows))"

definition list_pending_approvals :: "repo_env \<Rightarrow> int option \<Rightarrow> approvals \<Rightarrow> pydict list res \<times> approvals" where
  "list_pending_approvals E limit =
     read_approvals E ''list_pending_approvals'' []
       (\<lambda>rows. decode_rows (limit_rows (max 1 (min (int_or limit 0) 300)) (pending_first rows)))"

definition approval_workspace :: "approval_row \<Rightarrow> string" where
  "approval_workspace r = or_empty (coalesce (coalesce (text_at (ap_request_payload r) [''workspace_id''])
     (text_at (ap_metadata r) [''workspace_id''])) (Some ''default''))"

definition list_pending_approvals_page ::
    "repo_env \<Rightarrow> int option \<Rightarrow> int option \<Rightarrow> string option \<Rightarrow> approvals \<Rightarrow> pydict list res \<times> approvals" where
  "list_pending_approvals_page E limit offset workspace_id =
     (let workspace = opt_tok workspace_id in
      read_approvals E ''list_pending_approvals_page'' []
       (\<lambda>rows. decode_rows (limit_rows (max 1 (min (int_or limit 0) 500)) (drop (nat (max 0 (int_or offset 0)))
          (filter (\<lambda>r. workspace = [] \<or> approval_workspace r = workspace) (pending_first rows))))))"

definition get_approval_record :: "repo_env \<Rightarrow> string \<Rightarrow> approvals \<Rightarrow> pydict option res \<times> approvals" where
  "get_approval_record E approval_id s =
     (let token = strip approval_id in
      if token = [] then (Inr None, s)
      else read_approvals E ''get_approval_record'' None
        (\<lambda>rows. case find (\<lambda>r. ap_token r = token) rows of
           None \<Rightarrow> Inr None
         | Some r \<Rightarrow> (case approval_record_from_row r of Inl e \<Rightarrow> Inl e | Inr d \<Rightarrow> Inr (Some d))) s)"

text \<open>The run an approval belongs to: live, archived or missing.\<close>

definition find_run_snapshot_for_approval_id ::
    "repo_env \<Rightarrow> string \<Rightarrow> run_store \<Rightarrow> approvals \<Rightarrow> (string \<times> pydict) option res \<times> approvals" where
  "find_run_snapshot_for_approval_id E approval_id runs s =
     (case get_approval_record E approval_id s of
        (Inl e, s') \<Rightarrow> (Inl e, s')
      | (Inr None, s') \<Rightarrow> (Inr None, s')
      | (Inr (Some item), s') \<Rightarrow>
        (let run_id = tok (dget item ''run_id'') in
         if run_id = [] then (Inr None, s')
         else (case get_live_run (after_calls 2 E) run_id runs of
            Inl e \<Rightarrow> (Inl e, s')
          | Inr (Some live) \<Rightarrow> (Inr (Some (''live'', live)), s')
          | Inr None \<Rightarrow>
            (case get_archived_run (after_calls 4 E) run_id runs of
               Inl e \<Rightarrow> (Inl e, s')
             | Inr (Some archived) \<Rightarrow> (Inr (Some (''archive'', archived)), s')
             | Inr None \<Rightarrow> (Inr (Some (''missing'', [(''run_id'', PStr run_id),
                 (''workspace_id'', dget item ''workspace_id''), (''tenant_id'', dget item ''tenant_id'')])), s')))))"

subsection \<open>Decisions are final\<close>

definition decided :: "approvals \<Rightarrow> string \<times> string \<Rightarrow> (string \<times> string option) option" where
  "decided s k = (case row_of ap_key k s of None \<Rightarrow> None
     | Some r \<Rightarrow> if ap_status r \<in> set closed_statuses then Some (ap_status r, ap_resolution r) else None)"

datatype approval_op =
    OpRequest "string \<Rightarrow> int option" repo_env string string pydict string string "pydict option" "string option"
  | OpResolve repo_env string string string string string "string option" "pydict option"
  | OpRecord repo_env string string string string string "string option"
  | OpListPending repo_env "int option"
  | OpListPage repo_env "int option" "int option" "string option"
  | OpGetApproval repo_env string

fun approval_step :: "approval_op \<Rightarrow> approvals \<Rightarrow> approvals" where
  "approval_step (OpRequest ts E run ap p actor tr meta ex) s =
     snd (create_or_update_approval_request ts E run ap p actor tr meta ex s)"
| "approval_step (OpResolve E run ap res actor tr note d) s = snd (resolve_approval_if_pending E run ap res actor tr note d s)"
| "approval_step (OpRecord E run ap res actor tr note) s = snd (record_approval_resolution E run ap res actor tr note s)"
| "approval_step (OpListPending E limit) s = snd (list_pending_approvals E limit s)"
| "approval_step (OpListPage E limit offset w) s = snd (list_pending_approvals_page E limit offset w s)"
| "approval_step (OpGetApproval E ap) s = snd (get_approval_record E ap s)"

lemma ap_key_ensured [simp]: "ap_key (ensured_row r) = ap_key r"
  by (simp add: ap_key_def ensured_row_def)

lemma closed_lower: "st \<in> set closed_statuses \<Longrightarrow> lower st = st \<and> st \<noteq> [] \<and> st \<noteq> ''requested''"
  by (auto simp: closed_statuses_def lower_def)

lemma closed_simps [simp]:
  "[] \<notin> set closed_statuses" "''requested'' \<notin> set closed_statuses" "''resolved'' \<in> set closed_statuses"
  by (simp_all add: closed_statuses_def)

lemma row_of_ensured: "row_of ap_key k (ensure_run_approval_table s) = map_option ensured_row (row_of ap_key k s)"
  by (induction s) (auto simp: ensure_run_approval_table_def)

lemma decided_ensured: "decided s k = Some d \<Longrightarrow> decided (ensure_run_approval_table s) k = Some d"
  by (auto simp: decided_def row_of_ensured ensured_row_def closed_lower split: option.splits if_splits)

text \<open>The states an operation may leave behind all keep the decisions of the rows it started from.\<close>

definition keeps :: "approvals \<Rightarrow> approvals \<Rightarrow> bool" where
  "keeps s s' \<longleftrightarrow> (\<forall>k d. decided s k = Some d \<longrightarrow> decided s' k = Some d)"

lemma keeps_refl [simp]: "keeps s s"
  by (simp add: keeps_def)

lemma keeps_ensured [simp]: "keeps s (ensure_run_approval_table s)"
  by (simp add: keeps_def decided_ensured)

lemma keeps_trans: "keeps s t \<Longrightarrow> keeps t u \<Longrightarrow> keeps s u"
  by (simp add: keeps_def)

lemma keeps_upd:
  assumes "\<And>r. ap_key (f r) = ap_key r"
    and "\<And>r. P r \<Longrightarrow> ap_status r \<in> set closed_statuses \<Longrightarrow> ap_status (f r) = ap_status r \<and> ap_resolution (f r) = ap_resolution r"
  shows "keeps s (upd_rows P f s)"
  unfolding keeps_def decided_def
proof (intro allI impI)
  fix k d
  assume "(case row_of ap_key k s of None \<Rightarrow> None
     | Some r \<Rightarrow> if ap_status r \<in> set closed_statuses then Some (ap_status r, ap_resolution r) else None) = Some d"
  then obtain r where r: "row_of ap_key k s = Some r" "ap_status r \<in> set closed_statuses" "d = (ap_status r, ap_resolution r)"
    by (auto split: option.splits if_splits)
  show "(case row_of ap_key k (upd_rows P f s) of None \<Rightarrow> None
     | Some r \<Rightarrow> if ap_status r \<in> set closed_statuses then Some (ap_status r, ap_resolution r) else None) = Some d"
    using row_of_upd_hit [of ap_key k s r P f] row_of_upd_miss [of ap_key k s r P f] r assms by (cases "P r") auto
qed

lemma keeps_put_old:
  assumes "row_of ap_key k (ensure_run_approval_table s) = Some r"
    and "ap_key r' = ap_key r" "ap_status r' = ap_status r" "ap_resolution r' = ap_resolution r"
  shows "keeps s (put_row ap_key r' (ensure_run_approval_table s))"
proof -
  have "ap_key r' = k" using row_of_key [OF assms(1)] assms(2) by simp
  then have "keeps (ensure_run_approval_table s) (put_row ap_key r' (ensure_run_approval_table s))"
    using assms by (auto simp: keeps_def decided_def)
  then show ?thesis by (rule keeps_trans [OF keeps_ensured])
qed

lemma keeps_put_new:
  assumes "row_of ap_key k (ensure_run_approval_table s) = None" and "ap_key r' = k"
  shows "keeps s (put_row ap_key r' (ensure_run_approval_table s))"
  by (rule keeps_trans [OF keeps_ensured]) (use assms in \<open>auto simp: keeps_def decided_def\<close>)

lemma read_keeps: "keeps s (snd (read_approvals E operation dflt query s))"
proof -
  have "read_approvals E operation dflt query s \<in> {c. keeps s (snd c)}"
    unfolding read_approvals_def by (intro branch) auto
  then show ?thesis by simp
qed

lemma create_keeps: "keeps s (snd (create_or_update_approval_request ts E run ap p actor tr meta ex s))"
proof -
  have "create_or_update_approval_request ts E run ap p actor tr meta ex s \<in> {c. keeps s (snd c)}"
    unfolding create_or_update_approval_request_def
    by (intro branch)
      (auto simp: ap_key_def intro: keeps_put_old keeps_put_new)
  then show ?thesis by simp
qed

lemma resolve_keeps: "keeps s (snd (resolve_approval_if_pending E run ap res actor tr note d s))"
proof -
  have "resolve_approval_if_pending E run ap res actor tr note d s \<in> {c. keeps s (snd c)}"
    unfolding resolve_approval_if_pending_def
    by (intro branch)
      (auto simp: ap_key_def closed_lower intro!: keeps_trans [OF keeps_ensured keeps_upd])
  then show ?thesis by simp
qed

lemma resolution_token_nonempty [simp]: "approval_resolution_token v \<noteq> []"
  by (simp add: approval_resolution_token_def sor_nonempty)

lemma record_keeps: "keeps s (snd (record_approval_resolution E run ap res actor tr note s))"
proof -
  have "record_approval_resolution E run ap res actor tr note s \<in> {c. keeps s (snd c)}"
    unfolding record_approval_resolution_def
    by (intro branch)
      (auto simp: ap_key_def elim: or_empty.elims intro!: keeps_trans [OF keeps_ensured keeps_upd]
        intro: keeps_put_old keeps_put_new)
  then show ?thesis by simp
qed

interpretation decisions: write_once decided approval_step
proof unfold_locales
  fix s k d op
  assume "decided s k = Some d"
  moreover have "keeps s (approval_step op s)"
    by (cases op) (auto simp: create_keeps resolve_keeps record_keeps read_keeps
        list_pending_approvals_def list_pending_approvals_page_def get_approval_record_def Let_def)
  ultimately show "decided (approval_step op s) k = Some d" unfolding keeps_def by blast
qed

subsection \<open>Well-formed tables\<close>

text \<open>Rows the module wrote: the approval id is the step id, and the unique indexes hold.\<close>

definition approvals_wf :: "approvals \<Rightarrow> bool" where
  "approvals_wf s \<longleftrightarrow> keys_distinct ap_step_id s \<and>
     (\<forall>r \<in> set s. ap_approval_id r = Some (ap_step_id r) \<and> ap_step_id r \<noteq> [] \<and> ap_status r \<noteq> [])"

lemma ensured_fields [simp]:
  "ap_step_id (ensured_row r) = ap_step_id r" "ap_run_id (ensured_row r) = ap_run_id r"
  "ap_status (ensured_row r) = [] \<longleftrightarrow> ap_status r = [] \<and> lower (or_empty (ap_resolution r)) = [] \<and> False"
  by (auto simp: ensured_row_def final_resolutions_def lower_def)

lemma wf_ensured: "approvals_wf s \<Longrightarrow> approvals_wf (ensure_run_approval_table s)"
  by (auto simp: approvals_wf_def ensure_run_approval_table_def keys_distinct_def comp_def ensured_row_def)

lemma wf_token: "approvals_wf s \<Longrightarrow> r \<in> set s \<Longrightarrow> is_approval run ap r \<longleftrightarrow> ap_key r = (run, ap)"
  by (simp add: approvals_wf_def is_approval_def ap_token_def ap_key_def)

lemma wf_keys: "approvals_wf s \<Longrightarrow> keys_distinct ap_key s"
proof -
  assume "approvals_wf s"
  then have "distinct (map snd (map ap_key s))" by (simp add: approvals_wf_def keys_distinct_def comp_def ap_key_def)
  then show ?thesis unfolding keys_distinct_def distinct_map [of snd] by blast
qed

lemma wf_upd:
  "approvals_wf s \<Longrightarrow> (\<And>r. ap_step_id (f r) = ap_step_id r \<and> ap_approval_id (f r) = ap_approval_id r) \<Longrightarrow>
   (\<And>r. P r \<Longrightarrow> ap_status (f r) \<noteq> []) \<Longrightarrow> approvals_wf (upd_rows P f s)"
  by (auto simp: approvals_wf_def keys_distinct_upd) (auto simp: upd_rows_def)

lemma put_row_new: "row_of key (key r) s = None \<Longrightarrow> put_row key r s = s @ [r]"
  by (induction s) (auto split: if_splits)

lemma wf_put_new:
  "approvals_wf s \<Longrightarrow> row_of ap_key (ap_key r) s = None \<Longrightarrow> (\<forall>x \<in> set s. ap_approval_id x \<noteq> ap_approval_id r) \<Longrightarrow>
   ap_approval_id r = Some (ap_step_id r) \<Longrightarrow> ap_step_id r \<noteq> [] \<Longrightarrow> ap_status r \<noteq> [] \<Longrightarrow>
   approvals_wf (put_row ap_key r s)"
  by (force simp: put_row_new approvals_wf_def keys_distinct_def)

lemma put_row_old:
  "row_of key k s = Some r \<Longrightarrow> key r' = k \<Longrightarrow> keys_distinct key s \<Longrightarrow> put_row key r' s = upd_rows (\<lambda>x. key x = k) (\<lambda>_. r') s"
proof (induction s)
  case Nil
  then show ?case by simp
next
  case (Cons x s)
  show ?case
  proof (cases "key x = k")
    case True
    with Cons.prems have "\<forall>y \<in> set s. key y \<noteq> k" by (simp add: keys_distinct_def) (metis imageI)
    then have "upd_rows (\<lambda>x. key x = k) (\<lambda>_. r') s = s" by (rule upd_rows_none)
    with True Cons.prems show ?thesis by (simp add: upd_rows_def)
  next
    case False
    with Cons show ?thesis by (auto simp: upd_rows_def keys_distinct_def)
  qed
qed

lemma wf_put_old:
  assumes "approvals_wf s" and "row_of ap_key k s = Some r"
    and "ap_key r' = ap_key r" "ap_approval_id r' = Some (ap_step_id r')" "ap_status r' = ap_status r"
  shows "approvals_wf (put_row ap_key r' s)"
proof -
  from row_of_key [OF assms(2)] have k: "ap_key r = k" "r \<in> set s" by auto
  have step: "ap_step_id x = ap_step_id r'" if "ap_key x = k" for x
    using that k(1) assms(3) by (auto simp: ap_key_def)
  have "map ap_step_id (upd_rows (\<lambda>x. ap_key x = k) (\<lambda>_. r') s) = map ap_step_id s"
    by (simp add: upd_rows_def step)
  then have d: "keys_distinct ap_step_id (upd_rows (\<lambda>x. ap_key x = k) (\<lambda>_. r') s)"
    using assms(1) by (simp add: approvals_wf_def keys_distinct_def)
  have "put_row ap_key r' s = upd_rows (\<lambda>x. ap_key x = k) (\<lambda>_. r') s"
    by (rule put_row_old [OF assms(2) _ wf_keys [OF assms(1)]]) (simp add: assms(3) k(1))
  moreover have "ap_approval_id x = Some (ap_step_id x) \<and> ap_step_id x \<noteq> [] \<and> ap_status x \<noteq> []"
    if "x \<in> set (upd_rows (\<lambda>x. ap_key x = k) (\<lambda>_. r') s)" for x
    using that assms(1,4,5) k step [OF k(1)] by (auto simp: upd_rows_def approvals_wf_def)
  ultimately show ?thesis using d by (simp add: approvals_wf_def)
qed

lemma wf_put_old_ensured:
  assumes "row_of ap_key k (ensure_run_approval_table s) = Some r" and "approvals_wf s"
    and "ap_key r' = ap_key r" and "ap_status r' = ap_status r"
    and "ap_approval_id r' = Some (snd k) \<or> ap_approval_id r' = ap_approval_id r"
  shows "approvals_wf (put_row ap_key r' (ensure_run_approval_table s))"
  using row_of_key [OF assms(1)] wf_ensured [OF assms(2)] assms
  by (intro wf_put_old [OF wf_ensured [OF assms(2)] assms(1)]) (auto simp: approvals_wf_def ap_key_def)

lemma approval_step_wf: "approvals_wf s \<Longrightarrow> approvals_wf (approval_step op s)"
proof (cases op)
  case (OpRequest ts E run ap p actor tr meta ex)
  assume wf: "approvals_wf s"
  have "create_or_update_approval_request ts E run ap p actor tr meta ex s \<in> {c. approvals_wf (snd c)}"
    unfolding create_or_update_approval_request_def using wf
    by (intro branch) (auto simp: wf_ensured ap_key_def intro: wf_put_new wf_put_old_ensured)
  with OpRequest show ?thesis by simp
next
  case (OpResolve E run ap res actor tr nt d)
  assume wf: "approvals_wf s"
  have "resolve_approval_if_pending E run ap res actor tr nt d s \<in> {c. approvals_wf (snd c)}"
    unfolding resolve_approval_if_pending_def using wf
    by (intro branch) (auto simp: wf_ensured approval_final_status_def Let_def intro!: wf_upd)
  with OpResolve show ?thesis by simp
next
  case (OpRecord E run ap res actor tr nt)
  assume wf: "approvals_wf s"
  have "record_approval_resolution E run ap res actor tr nt s \<in> {c. approvals_wf (snd c)}"
    unfolding record_approval_resolution_def using wf
    by (intro branch) (auto simp: wf_ensured approval_final_status_def Let_def ap_key_def intro!: wf_upd intro: wf_put_new wf_put_old_ensured)
  with OpRecord show ?thesis by simp
qed (auto simp: list_pending_approvals_def list_pending_approvals_page_def get_approval_record_def read_approvals_def
    wf_ensured Let_def split: step_splits bool.splits)

subsection \<open>Properties\<close>

text \<open>
  C3. A decided approval stays decided as it is: whatever requests, resolutions, recordings and
  reads follow, by anyone, its status and its resolution never change and it never returns to
  the pending ones.
\<close>

theorem approval_decision_final:
  assumes "decided s (run, step) = Some (status, resolution)"
  shows "decided (fold approval_step ops s) (run, step) = Some (status, resolution)"
  using assms by (rule decisions.settled_forever)

definition demo_approval :: approval_row where
  "demo_approval = \<lparr>ap_run_id = ''r1'', ap_step_id = ''a1'', ap_approval_id = Some ''a1'', ap_status = ''requested'',
     ap_requested_at = 0, ap_resolved_at = None, ap_resolution = None, ap_actor = Some ''u'', ap_trace_id = None,
     ap_request_payload = [], ap_decision_payload = [], ap_metadata = [], ap_expires_at = None, ap_updated_at = 0,
     ap_version = 0\<rparr>"

theorem approval_decision_final_witness:
  "decided (fold approval_step [OpResolve (allow_env 1) ''r1'' ''a1'' ''rejected'' ''u'' [] None None,
       OpRequest (\<lambda>_. None) (allow_env 2) ''r1'' ''a1'' [] ''u'' [] None None]
     [demo_approval\<lparr>ap_status := ''resolved'', ap_resolution := Some ''approved''\<rparr>]) (''r1'', ''a1'') =
   Some (''resolved'', Some ''approved'')"
  by (rule approval_decision_final) (simp add: decided_def demo_approval_def ap_key_def)

lemma approvals_wf_fold: "approvals_wf s \<Longrightarrow> approvals_wf (fold approval_step ops s)"
  by (induction ops arbitrary: s) (auto intro: approval_step_wf)

text \<open>
  The tables the module writes stay well formed under every operation: each row's approval
  id is its step id, no two rows share one, and no status is empty.
\<close>

theorem approvals_wf_invariant:
  "approvals_wf (fold approval_step ops [])"
  by (rule approvals_wf_fold) (simp add: approvals_wf_def)

lemma find_row:
  "approvals_wf s \<Longrightarrow> find (is_approval run ap) s = row_of ap_key (run, ap) s"
  unfolding row_of_def by (rule find_cong) (auto simp: wf_token)

lemma find_hit:
  assumes "approvals_wf s" and "find (\<lambda>r. is_approval run ap r \<and> P r) s = Some r"
  shows "row_of ap_key (run, ap) s = Some r \<and> P r"
proof -
  from assms(2) have r: "r \<in> set s" "is_approval run ap r" "P r" by (auto simp: find_Some_iff)
  with row_of_mem [OF wf_keys [OF assms(1)] r(1)] wf_token [OF assms(1) r(1)] show ?thesis by simp
qed

lemma final_status_closed [simp]: "approval_final_status v \<in> set closed_statuses"
  by (auto simp: approval_final_status_def final_resolutions_def closed_statuses_def Let_def)

lemma decided_upd:
  assumes "approvals_wf t" and "row_of ap_key (run, ap) t = Some v" and "P v"
    and "\<And>r. ap_key (upd r) = ap_key r" and "ap_status (upd v) = st" "ap_resolution (upd v) = rs" "st \<in> set closed_statuses"
  shows "decided (upd_rows (\<lambda>r. is_approval run ap r \<and> P r) upd t) (run, ap) = Some (st, rs)"
proof -
  have "is_approval run ap v"
    using row_of_key [OF assms(2)] wf_token [OF assms(1)] by auto
  with row_of_upd_hit [where f = upd and P = "\<lambda>r. is_approval run ap r \<and> P r", OF assms(2)] assms
  show ?thesis by (simp add: decided_def)
qed

lemma pending_undecided:
  "row_of ap_key k (ensure_run_approval_table s) = Some r \<Longrightarrow> ap_status r = ''requested'' \<Longrightarrow> decided s k = None"
  using decided_ensured [of s k] by (cases "decided s k") (auto simp: decided_def [of "ensure_run_approval_table s"])

lemma approved_token: "lower (strip ''approved'') = ''approved''" "strip ''approved'' \<noteq> []"
  by (simp_all add: lower_def strip_def py_space_def)

lemma resolution_token_idem [simp]: "approval_resolution_token (approval_resolution_token v) = approval_resolution_token v"
  by (simp add: approval_resolution_token_def sor_def approved_token)

lemma final_status_token [simp]: "approval_final_status (approval_resolution_token v) = approval_final_status v"
  by (simp add: approval_final_status_def)

text \<open>A resolution that returns a record found the approval pending and decided it.\<close>

lemma resolve_success:
  assumes "approvals_wf s"
    and "resolve_approval_if_pending E run ap res actor tr nt d s = (Inr (Some item), s')"
  shows "decided s (strip run, strip ap) = None \<and>
    decided s' (strip run, strip ap) = Some (approval_final_status res, Some (approval_resolution_token res))"
proof -
  let ?P = "\<lambda>c. \<forall>item s'. c = (Inr (Some item), s') \<longrightarrow> decided s (strip run, strip ap) = None \<and>
    decided s' (strip run, strip ap) = Some (approval_final_status res, Some (approval_resolution_token res))"
  note wf = wf_ensured [OF assms(1)]
  have "resolve_approval_if_pending E run ap res actor tr nt d s \<in> {c. ?P c}"
    unfolding resolve_approval_if_pending_def
    by (intro branch) (auto dest!: find_hit [OF wf] intro: pending_undecided intro!: decided_upd [OF wf] simp: ap_key_def)
  with assms(2) show ?thesis by auto
qed

text \<open>
  One resolution wins: once resolving a pending approval has returned its record, the
  approval is decided by that resolution for good, and no later attempt to resolve it, with
  whatever resolution and after whatever history, returns a record.
\<close>

theorem one_resolution_wins:
  assumes "approvals_wf s"
    and "resolve_approval_if_pending E run ap res actor tr nt d s = (Inr (Some item), s1)"
  shows "decided (fold approval_step ops s1) (strip run, strip ap) =
      Some (approval_final_status res, Some (approval_resolution_token res)) \<and>
    fst (resolve_approval_if_pending E' run ap res' actor' tr' nt' d' (fold approval_step ops s1)) \<noteq> Inr (Some item')"
proof -
  have s1: "s1 = approval_step (OpResolve E run ap res actor tr nt d) s" using assms(2) by simp
  have wf: "approvals_wf (fold approval_step ops s1)"
    unfolding s1 by (intro approvals_wf_fold approval_step_wf assms(1))
  have dec: "decided (fold approval_step ops s1) (strip run, strip ap) =
      Some (approval_final_status res, Some (approval_resolution_token res))"
    using resolve_success [OF assms] by (intro decisions.settled_forever) simp
  with resolve_success [OF wf] show ?thesis by (metis option.distinct(1) prod.collapse)
qed

lemma decodes_empty:
  assumes "ap_request_payload r = []" and "ap_metadata r = []"
  shows "\<exists>item. approval_record_from_row r = Inr item" and "approval_record_from_row r \<noteq> Inl e"
  using assms by (simp_all add: approval_record_from_row_def text_items_def list_or_def por_def Let_def)

lemma demo_resolved:
  "\<exists>item s1. resolve_approval_if_pending (allow_env 1) ''r1'' ''a1'' ''approved'' ''u'' [] None None [demo_approval] = (Inr (Some item), s1)"
proof -
  have st: "strip ''r1'' = ''r1''" "strip ''a1'' = ''a1''" by (simp_all add: strip_def py_space_def)
  have gate: "enforce_runtime_state_store_decision (allow_env 1) r \<noteq> Inl e" if "sr_operation r = ''resolve_approval_if_pending''" for r e
    using allow_store [of r 1] that by (auto simp: store_gate_def)
  have row: "ensure_run_approval_table [demo_approval] = [demo_approval]"
    by (simp add: ensure_run_approval_table_def ensured_row_def demo_approval_def lower_def)
  have hit: "is_approval ''r1'' ''a1'' demo_approval" "ap_status demo_approval = ''requested''"
      "ap_request_payload demo_approval = []" "ap_metadata demo_approval = []"
    by (simp_all add: is_approval_def ap_token_def demo_approval_def)
  have "resolve_approval_if_pending (allow_env 1) ''r1'' ''a1'' ''approved'' ''u'' [] None None [demo_approval] \<in>
      {c. \<exists>item s1. c = (Inr (Some item), s1)}"
    unfolding resolve_approval_if_pending_def st
    by (intro branch) (use gate in \<open>auto simp: row hit decodes_empty(1) decodes_empty(2)\<close>)
  then show ?thesis by simp
qed

theorem one_resolution_wins_witness:
  "\<exists>s1. snd (resolve_approval_if_pending (allow_env 1) ''r1'' ''a1'' ''approved'' ''u'' [] None None [demo_approval]) = s1 \<and>
     fst (resolve_approval_if_pending (allow_env 9) ''r1'' ''a1'' ''rejected'' ''v'' [] None None
       (fold approval_step [OpGetApproval (allow_env 2) ''a1''] s1)) \<noteq> Inr (Some [])"
proof -
  from demo_resolved obtain item s1 where
    r: "resolve_approval_if_pending (allow_env 1) ''r1'' ''a1'' ''approved'' ''u'' [] None None [demo_approval] = (Inr (Some item), s1)"
    by blast
  have "approvals_wf [demo_approval]" by (simp add: approvals_wf_def keys_distinct_def demo_approval_def)
  from one_resolution_wins [OF this r, THEN conjunct2] show ?thesis unfolding r by (intro exI conjI refl) simp
qed

lemma closed_stripped: "st \<in> set closed_statuses \<Longrightarrow> strip st = st"
  by (auto simp: closed_statuses_def strip_def py_space_def)

lemma record_fields:
  assumes "approval_record_from_row r = Inr item"
  shows "dget item ''status'' = PStr (approval_status_token (ap_status r)) \<and>
    dget item ''resolution'' = text_or_none (lower (opt_tok (ap_resolution r)))"
  using assms by (auto simp: approval_record_from_row_def Let_def split: sum.splits)

lemma find_miss:
  assumes "approvals_wf t" and "find (\<lambda>r. is_approval run ap r \<and> P r) t = None" and "row_of ap_key (run, ap) t = Some r"
  shows "\<not> P r"
  using row_of_key [OF assms(3)] wf_token [OF assms(1), of r run ap] assms(2) by (auto simp: find_None_iff)

lemma token_text: "text_or_none (lower (strip (approval_resolution_token v))) = PStr (approval_resolution_token v)"
  by (simp add: approval_resolution_token_def text_or_none_def sor_def snone_def approved_token)

lemma final_text: "approval_status_token (approval_final_status v) = approval_final_status v"
  using closed_stripped [OF final_status_closed] closed_lower [OF final_status_closed]
  by (simp add: approval_status_token_def sor_def)

definition is_decided :: "approvals \<Rightarrow> string \<times> string \<Rightarrow> bool" where
  "is_decided s k \<longleftrightarrow> decided s k \<noteq> None"

lemma requested_token: "lower (strip ''requested'') = ''requested''"
  by (simp add: lower_def strip_def py_space_def)

definition told :: "string \<Rightarrow> string \<times> string \<Rightarrow> pydict option res \<times> approvals \<Rightarrow> bool" where
  "told res k c = (\<forall>item s'. c = (Inr (Some item), s') \<longrightarrow>
     dget item ''status'' = PStr (approval_final_status res) \<and>
     dget item ''resolution'' = PStr (approval_resolution_token res) \<and> is_decided s' k)"

lemma told_trivial [simp]: "told res k (Inl e, s')" "told res k (Inr None, s')"
  by (simp_all add: told_def)

lemma told_decode:
  "ap_status r = approval_final_status res \<Longrightarrow> ap_resolution r = Some (approval_resolution_token res) \<Longrightarrow> is_decided s' k \<Longrightarrow>
   told res k (case approval_record_from_row r of Inl e \<Rightarrow> Inl e | Inr d \<Rightarrow> Inr (Some d), s')"
  by (auto simp: told_def token_text final_text dest!: record_fields split: sum.splits)

lemma told_existing:
  assumes "approval_record_from_row r = Inr item" and "is_decided s' k"
    and "lower (tok (dget item ''status'')) = approval_final_status res"
    and "lower (tok (dget item ''resolution'')) = approval_resolution_token res"
  shows "told res k (Inr (Some item), s')"
proof -
  have "lower (strip (approval_status_token v)) = approval_status_token v" for v
    using requested_token by (auto simp: approval_status_token_def sor_def)
  then show ?thesis
    using assms record_fields [OF assms(1)] not_sym [OF resolution_token_nonempty [of res]]
    by (cases "ap_resolution r"; cases "strip (the (ap_resolution r)) = []") (auto simp: told_def text_or_none_def snone_def)
qed

text \<open>
  A recorded resolution is told as it was asked: when \<open>record_approval_resolution\<close> returns
  a record, the record carries the resolution that was passed and its final status, and the
  approval is decided. A decision already made otherwise is reported as an error.
\<close>

theorem recorded_resolution_told:
  assumes "approvals_wf s"
    and "record_approval_resolution E run ap res actor tr nt s = (Inr (Some item), s')"
  shows "dget item ''status'' = PStr (approval_final_status res) \<and>
    dget item ''resolution'' = PStr (approval_resolution_token res) \<and>
    decided s' (strip run, strip ap) \<noteq> None"
proof -
  note wf = wf_ensured [OF assms(1)]
  have new: "is_decided (put_row ap_key r t) k" if "ap_key r = k" "ap_status r \<in> set closed_statuses" for r t k
    using that by (auto simp: is_decided_def decided_def)
  have old: "is_decided t k" if "row_of ap_key k t = Some r" "ap_status r \<in> set closed_statuses" for r t k
    using that by (simp add: is_decided_def decided_def)
  have upd: "is_decided (upd_rows (\<lambda>r. is_approval run ap r \<and> P r) upd (ensure_run_approval_table s)) (run, ap)"
    if "row_of ap_key (run, ap) (ensure_run_approval_table s) = Some v" "P v"
      "\<And>r. ap_key (upd r) = ap_key r" "ap_status (upd v) \<in> set closed_statuses" for run ap v P upd
    using decided_upd [where upd = upd and P = P, OF wf that(1-3) refl refl that(4)] by (simp add: is_decided_def)
  have "record_approval_resolution E run ap res actor tr nt s \<in> {c. told res (strip run, strip ap) c}"
    unfolding record_approval_resolution_def
    by (intro branch)
      (auto simp: find_row [OF wf] ap_key_def dest!: find_hit [OF wf] find_miss [OF wf]
        intro!: told_decode told_existing new upd intro: old)
  with assms(2) show ?thesis by (simp add: told_def is_decided_def)
qed

theorem recorded_resolution_told_witness:
  "\<exists>item s1. record_approval_resolution (allow_env 1) ''r1'' ''a1'' ''Rejected'' ''u'' [] None [] = (Inr (Some item), s1) \<and>
     dget item ''status'' = PStr ''resolved'' \<and> dget item ''resolution'' = PStr ''rejected''"
proof -
  have st: "strip ''r1'' = ''r1''" "strip ''a1'' = ''a1''" by (simp_all add: strip_def py_space_def)
  have gate: "enforce_runtime_state_store_decision (allow_env 1) r \<noteq> Inl e" if "sr_operation r = ''record_approval_resolution''" for r e
    using allow_store [of r 1] that by (auto simp: store_gate_def)
  have "record_approval_resolution (allow_env 1) ''r1'' ''a1'' ''Rejected'' ''u'' [] None [] \<in> {c. \<exists>item s1. c = (Inr (Some item), s1)}"
    unfolding record_approval_resolution_def st
    by (intro branch) (use gate in \<open>auto simp: ensure_run_approval_table_def decodes_empty split: sum.splits\<close>)
  then obtain item s1 where r: "record_approval_resolution (allow_env 1) ''r1'' ''a1'' ''Rejected'' ''u'' [] None [] = (Inr (Some item), s1)"
    by blast
  have tk: "approval_resolution_token ''Rejected'' = ''rejected''" "approval_final_status ''Rejected'' = ''resolved''"
    by (simp_all add: approval_final_status_def approval_resolution_token_def final_resolutions_def
        sor_def lower_def strip_def py_space_def)
  have "approvals_wf []" by (simp add: approvals_wf_def)
  from recorded_resolution_told [OF this r] r show ?thesis by (auto simp: tk)
qed

end
