(* ===== verification/Outbox.thy ===== *)
theory Outbox
  imports Live_Runs Lease_Contract
begin

text \<open>
  The durable outbox of \<open>run_state_repository.py\<close>: events are persisted, claimed in batches
  under a claim token, then marked delivered or given a failure with a retry time or a poison
  mark (\<open>persist_outbox_event\<close>, \<open>claim_due_outbox_events\<close>, \<open>mark_outbox_event_delivered\<close>,
  \<open>record_outbox_delivery_failure\<close>, \<open>patch_outbox_event_payload\<close> and the listings). A claim is a
  lease on its event.
\<close>

subsection \<open>Table\<close>

record outbox_row =
  ob_event_id :: string
  ob_event_type :: string
  ob_tenant_id :: string
  ob_workspace_id :: string
  ob_run_id :: "string option"
  ob_machine_id :: "string option"
  ob_trace_id :: "string option"
  ob_idempotency_key :: "string option"
  ob_payload :: pydict
  ob_created_at :: int
  ob_delivered_at :: "int option"
  ob_last_replayed_at :: "int option"
  ob_retry_count :: int
  ob_last_delivery_error :: "string option"
  ob_last_attempted_at :: "int option"
  ob_next_attempt_at :: "int option"
  ob_poisoned_at :: "int option"
  ob_claim_token :: "string option"
  ob_claimed_by :: "string option"
  ob_claimed_at :: "int option"
  ob_claim_expires_at :: "int option"

type_synonym outbox = "outbox_row list"

definition event_of :: "string \<Rightarrow> outbox \<Rightarrow> outbox_row option" where
  "event_of k s = row_of ob_event_id k s"

text \<open>\<open>str(value or "").strip() or None\<close> of a text and of a timestamp column.\<close>

definition opt_text :: "string option \<Rightarrow> pyval" where
  "opt_text v = opt_val (snone (opt_tok v))"

definition opt_time :: "int option \<Rightarrow> pyval" where
  "opt_time t = (case t of None \<Rightarrow> PNone | Some x \<Rightarrow> opt_val (snone (strip (datetime_str x))))"

definition outbox_record_from_row :: "outbox_row \<Rightarrow> pydict" where
  "outbox_record_from_row row =
     [(''event_id'', PStr (strip (ob_event_id row))),
      (''event_type'', PStr (strip (ob_event_type row))),
      (''tenant_id'', PStr (sor (strip (ob_tenant_id row)) ''default'')),
      (''workspace_id'', PStr (sor (strip (ob_workspace_id row)) ''default'')),
      (''run_id'', opt_text (ob_run_id row)),
      (''machine_id'', opt_text (ob_machine_id row)),
      (''trace_id'', PStr (opt_tok (ob_trace_id row))),
      (''idempotency_key'', PStr (opt_tok (ob_idempotency_key row))),
      (''payload'', PDict (ob_payload row)),
      (''created_at'', opt_time (Some (ob_created_at row))),
      (''delivered_at'', opt_time (ob_delivered_at row)),
      (''last_replayed_at'', opt_time (ob_last_replayed_at row)),
      (''retry_count'', PInt (ob_retry_count row)),
      (''last_delivery_error'', opt_text (ob_last_delivery_error row)),
      (''last_attempted_at'', opt_time (ob_last_attempted_at row)),
      (''next_attempt_at'', opt_time (ob_next_attempt_at row)),
      (''poisoned_at'', opt_time (ob_poisoned_at row)),
      (''claim_token'', opt_text (ob_claim_token row)),
      (''claimed_by'', opt_text (ob_claimed_by row)),
      (''claimed_at'', opt_time (ob_claimed_at row)),
      (''claim_expires_at'', opt_time (ob_claim_expires_at row))]"

subsection \<open>Persisting\<close>

definition persist_outbox_event ::
    "repo_env \<Rightarrow> string \<Rightarrow> string \<Rightarrow> string \<Rightarrow> string \<Rightarrow> string option \<Rightarrow> string option \<Rightarrow> string \<Rightarrow> string \<Rightarrow> pydict
     \<Rightarrow> outbox \<Rightarrow> unit res \<times> outbox" where
  "persist_outbox_event E event_id event_type tenant_id workspace_id run_id machine_id trace_id idempotency_key payload s =
     (let token = strip event_id in
      if token = [] then (Inr (), s)
      else case enforce_outbox_delivery_decision E
          ((outbox_defaults ''persist_event'')\<lparr>or_event_id := Some token, or_event_type := Some event_type,
             or_tenant_id := Some tenant_id, or_workspace_id := Some workspace_id, or_run_id := run_id,
             or_machine_id := machine_id\<rparr>) of
        Inl e \<Rightarrow> (Inl e, s)
      | Inr _ \<Rightarrow>
       (case require_pool E ''persist_outbox_event'' of
          Inl e \<Rightarrow> (Inl e, s)
        | Inr _ \<Rightarrow>
         (case coalesce (fault E 0) (fault E 1) of
            Some m \<Rightarrow> (Inl (PersistenceError (''Postgres persist_outbox_event failed for '' @ token @ '': '' @ m)), s)
          | None \<Rightarrow>
           (let fresh = \<lparr>ob_event_id = token, ob_event_type = sor (strip event_type) ''runtime_event'',
                  ob_tenant_id = sor (strip tenant_id) ''default'', ob_workspace_id = sor (strip workspace_id) ''default'',
                  ob_run_id = snone (opt_tok run_id), ob_machine_id = snone (opt_tok machine_id),
                  ob_trace_id = snone (strip trace_id), ob_idempotency_key = snone (strip idempotency_key),
                  ob_payload = payload, ob_created_at = now E, ob_delivered_at = None, ob_last_replayed_at = None,
                  ob_retry_count = 0, ob_last_delivery_error = None, ob_last_attempted_at = None,
                  ob_next_attempt_at = None, ob_poisoned_at = None, ob_claim_token = None, ob_claimed_by = None,
                  ob_claimed_at = None, ob_claim_expires_at = None\<rparr>;
                row = (case event_of token s of None \<Rightarrow> fresh
                  | Some r \<Rightarrow> r\<lparr>ob_event_type := ob_event_type fresh, ob_tenant_id := ob_tenant_id fresh,
                      ob_workspace_id := ob_workspace_id fresh, ob_run_id := ob_run_id fresh,
                      ob_machine_id := ob_machine_id fresh,
                      ob_trace_id := coalesce_text (ob_trace_id fresh) (ob_trace_id r),
                      ob_idempotency_key := coalesce_text (ob_idempotency_key fresh) (ob_idempotency_key r),
                      ob_payload := payload\<rparr>)
            in (Inr (), put_row ob_event_id row s)))))"

subsection \<open>Claiming what is due\<close>

definition attempt_time :: "outbox_row \<Rightarrow> int" where
  "attempt_time r = (case ob_next_attempt_at r of Some t \<Rightarrow> t | None \<Rightarrow> ob_created_at r)"

text \<open>The optional filters \<open>$k IS NULL OR column = $k\<close>.\<close>

definition scope_matches :: "string option \<Rightarrow> string option \<Rightarrow> string option \<Rightarrow> string option \<Rightarrow> outbox_row \<Rightarrow> bool" where
  "scope_matches tenant workspace run event_type r \<longleftrightarrow>
     (tenant = None \<or> tenant = Some (ob_tenant_id r)) \<and> (workspace = None \<or> workspace = Some (ob_workspace_id r)) \<and>
     (run = None \<or> sql_eq (ob_run_id r) run) \<and> (event_type = None \<or> event_type = Some (ob_event_type r))"

definition undelivered :: "int \<Rightarrow> int \<Rightarrow> outbox_row \<Rightarrow> bool" where
  "undelivered t older r \<longleftrightarrow> ob_delivered_at r = None \<and> ob_poisoned_at r = None \<and> attempt_time r \<le> t - sec older"

definition claim_free :: "int \<Rightarrow> outbox_row \<Rightarrow> bool" where
  "claim_free t r \<longleftrightarrow> (case ob_claim_expires_at r of None \<Rightarrow> True | Some x \<Rightarrow> x \<le> t)"

text \<open>\<open>ORDER BY COALESCE(next_attempt_at, created_at), created_at\<close>.\<close>

definition oldest_first :: "outbox \<Rightarrow> outbox" where
  "oldest_first rows = sort_key attempt_time (sort_key ob_created_at rows)"

definition filter_arg :: "string option \<Rightarrow> string option" where
  "filter_arg v = snone (opt_tok v)"

definition list_undelivered_outbox_events ::
    "repo_env \<Rightarrow> int \<Rightarrow> int \<Rightarrow> string option \<Rightarrow> string option \<Rightarrow> string option \<Rightarrow> string option
     \<Rightarrow> outbox \<Rightarrow> pydict list res" where
  "list_undelivered_outbox_events E older_than limit tenant workspace run event_type s =
     read_live E ''list_undelivered_outbox_events'' []
       (map outbox_record_from_row (limit_rows (max 1 limit) (oldest_first (filter (\<lambda>r.
          undelivered (now E) (max 0 older_than) r \<and>
          scope_matches (filter_arg tenant) (filter_arg workspace) (filter_arg run) (filter_arg event_type) r) s))))"

text \<open>
  The claim token is the event id, a colon and 24 digits of an MD5 of the clock and a random
  number; those digits are the argument \<open>nonce\<close>. The returned rows come in the order of the
  \<open>due\<close> selection (SQL leaves the order of \<open>RETURNING\<close> open).
\<close>

definition due_rows ::
    "int \<Rightarrow> int \<Rightarrow> int \<Rightarrow> string option \<Rightarrow> string option \<Rightarrow> string option \<Rightarrow> string option \<Rightarrow> outbox \<Rightarrow> outbox" where
  "due_rows t older_than limit tenant workspace run event_type s =
     limit_rows (max 1 limit) (oldest_first (filter (\<lambda>r.
       undelivered t (max 0 older_than) r \<and> claim_free t r \<and>
       scope_matches (filter_arg tenant) (filter_arg workspace) (filter_arg run) (filter_arg event_type) r) s))"

definition claimed_row :: "int \<Rightarrow> (string \<Rightarrow> string) \<Rightarrow> string \<Rightarrow> int \<Rightarrow> outbox_row \<Rightarrow> outbox_row" where
  "claimed_row t nonce claimed_by ttl r = r\<lparr>ob_claim_token := Some (ob_event_id r @ '':'' @ nonce (ob_event_id r)),
     ob_claimed_by := Some claimed_by, ob_claimed_at := Some t, ob_claim_expires_at := Some (t + sec (max 1 ttl))\<rparr>"

definition claim_due_outbox_events ::
    "(string \<Rightarrow> string) \<Rightarrow> repo_env \<Rightarrow> int \<Rightarrow> int \<Rightarrow> string \<Rightarrow> int \<Rightarrow> string option \<Rightarrow> string option \<Rightarrow> string option \<Rightarrow> string option
     \<Rightarrow> outbox \<Rightarrow> pydict list res \<times> outbox" where
  "claim_due_outbox_events nonce E older_than limit claimed_by ttl tenant workspace run event_type s =
     (let who = sor (strip claimed_by) ''outbox-delivery'' in
      case enforce_outbox_delivery_decision E
          ((outbox_defaults ''claim_due'')\<lparr>or_tenant_id := tenant, or_workspace_id := workspace, or_run_id := run,
             or_event_type := event_type, or_claimed_by := Some who, or_limit := Some limit,
             or_claim_ttl_seconds := Some ttl\<rparr>) of
        Inl e \<Rightarrow> (Inl e, s)
      | Inr _ \<Rightarrow>
       (case read_pool E ''claim_due_outbox_events'' of
          Inl e \<Rightarrow> (Inl e, s)
        | Inr False \<Rightarrow> (Inr [], s)
        | Inr True \<Rightarrow>
         (if coalesce (fault E 0) (fault E 1) \<noteq> None then (Inr [], s)
          else let due = due_rows (now E) older_than limit tenant workspace run event_type s;
                   hit = (\<lambda>r. ob_event_id r \<in> ob_event_id ` set due);
                   claim = claimed_row (now E) nonce who ttl
               in (Inr (map (\<lambda>r. outbox_record_from_row (claim r)) due), upd_rows hit claim s))))"

subsection \<open>Settling a claim\<close>

definition patch_outbox_event_payload :: "repo_env \<Rightarrow> string \<Rightarrow> pydict \<Rightarrow> outbox \<Rightarrow> unit res \<times> outbox" where
  "patch_outbox_event_payload E event_id patch s =
     (let token = strip event_id in
      if token = [] \<or> patch = [] then (Inr (), s)
      else case enforce_outbox_delivery_decision E
          ((outbox_defaults ''patch_payload'')\<lparr>or_event_id := Some token, or_payload_patch_present := True\<rparr>) of
        Inl e \<Rightarrow> (Inl e, s)
      | Inr _ \<Rightarrow>
       (case require_pool E ''patch_outbox_event_payload'' of
          Inl e \<Rightarrow> (Inl e, s)
        | Inr _ \<Rightarrow>
         (case coalesce (fault E 0) (fault E 1) of
            Some m \<Rightarrow> (Inl (PersistenceError (''Postgres patch_outbox_event_payload failed for '' @ token @ '': '' @ m)), s)
          | None \<Rightarrow> (Inr (), upd_rows (\<lambda>r. ob_event_id r = token)
              (\<lambda>r. r\<lparr>ob_payload := dmerge (ob_payload r) patch, ob_last_replayed_at := Some (now E)\<rparr>) s))))"

definition unclaimed :: "outbox_row \<Rightarrow> outbox_row" where
  "unclaimed r = r\<lparr>ob_claim_token := None, ob_claimed_by := None, ob_claimed_at := None, ob_claim_expires_at := None\<rparr>"

definition holds_claim :: "string \<Rightarrow> string \<Rightarrow> outbox_row \<Rightarrow> bool" where
  "holds_claim event claim r \<longleftrightarrow> ob_event_id r = event \<and> ob_claim_token r = Some claim \<and> ob_delivered_at r = None"

definition mark_outbox_event_delivered :: "repo_env \<Rightarrow> string \<Rightarrow> string \<Rightarrow> outbox \<Rightarrow> bool res \<times> outbox" where
  "mark_outbox_event_delivered E event_id claim_token s =
     (let token = strip event_id; claim = strip claim_token in
      if token = [] \<or> claim = [] then (Inr False, s)
      else case enforce_outbox_delivery_decision E
          ((outbox_defaults ''mark_delivered'')\<lparr>or_event_id := Some token, or_claim_token := Some claim\<rparr>) of
        Inl e \<Rightarrow> (Inl e, s)
      | Inr _ \<Rightarrow>
       (case require_pool E ''mark_outbox_event_delivered'' of
          Inl e \<Rightarrow> (Inl e, s)
        | Inr _ \<Rightarrow>
         (case coalesce (fault E 0) (fault E 1) of
            Some m \<Rightarrow> (Inl (PersistenceError (''Postgres mark_outbox_event_delivered failed for '' @ token @ '': '' @ m)), s)
          | None \<Rightarrow>
           (let hit = holds_claim token claim;
                done = (\<lambda>r. (unclaimed r)\<lparr>ob_delivered_at := Some (now E), ob_last_replayed_at := Some (now E),
                  ob_last_attempted_at := Some (now E), ob_last_delivery_error := None,
                  ob_next_attempt_at := None, ob_poisoned_at := None\<rparr>)
            in (Inr (\<exists>r \<in> set s. hit r), upd_rows hit done s)))))"

text \<open>
  The \<open>UPDATE\<close> runs under the claim; the result comes from a second query that looks for the
  event alone, or from the row count in the status text ending in 1.
\<close>

definition failed_row :: "int \<Rightarrow> string \<Rightarrow> int option \<Rightarrow> bool \<Rightarrow> bool \<Rightarrow> outbox_row \<Rightarrow> outbox_row" where
  "failed_row t error_text retry_delay poison increment r =
     (unclaimed r)\<lparr>ob_retry_count := ob_retry_count r + (if increment then 1 else 0),
       ob_last_delivery_error := Some (take 2000 (sor (strip error_text) ''outbox_delivery_failed'')),
       ob_last_attempted_at := Some t, ob_last_replayed_at := Some t,
       ob_next_attempt_at := (if poison then None else case retry_delay of None \<Rightarrow> None
         | Some d \<Rightarrow> Some (t + sec (max 0 d))),
       ob_poisoned_at := (if poison then Some t else None)\<rparr>"

definition record_outbox_delivery_failure ::
    "repo_env \<Rightarrow> string \<Rightarrow> string \<Rightarrow> string \<Rightarrow> int option \<Rightarrow> bool \<Rightarrow> bool \<Rightarrow> outbox \<Rightarrow> bool res \<times> outbox" where
  "record_outbox_delivery_failure E event_id claim_token error_text retry_delay poison increment s =
     (let token = strip event_id; claim = strip claim_token;
          failed = (\<lambda>m. Inl (PersistenceError (''Postgres record_outbox_delivery_failure failed for '' @ token @ '': '' @ m))) in
      if token = [] \<or> claim = [] then (Inr False, s)
      else case enforce_outbox_delivery_decision E
          ((outbox_defaults ''record_failure'')\<lparr>or_event_id := Some token, or_claim_token := Some claim,
             or_error_text := Some error_text, or_retry_delay_seconds := retry_delay, or_poison := poison\<rparr>) of
        Inl e \<Rightarrow> (Inl e, s)
      | Inr _ \<Rightarrow>
       (case require_pool E ''record_outbox_delivery_failure'' of
          Inl e \<Rightarrow> (Inl e, s)
        | Inr _ \<Rightarrow>
         (case coalesce (fault E 0) (fault E 1) of
            Some m \<Rightarrow> (failed m, s)
          | None \<Rightarrow>
           (let hit = holds_claim token claim;
                s' = upd_rows hit (failed_row (now E) error_text retry_delay poison increment) s in
            case fault E 2 of
              Some m \<Rightarrow> (failed m, s')
            | None \<Rightarrow> (Inr (event_of token s' \<noteq> None \<or> length (filter hit s) mod 10 = 1), s')))))"

definition list_poisoned_outbox_events :: "repo_env \<Rightarrow> int \<Rightarrow> outbox \<Rightarrow> pydict list res" where
  "list_poisoned_outbox_events E limit s =
     read_live E ''list_poisoned_outbox_events'' []
       (map outbox_record_from_row (limit_rows (max 1 limit)
         (order_desc (\<lambda>r. case ob_poisoned_at r of Some t \<Rightarrow> t | None \<Rightarrow> 0) (order_desc ob_created_at
           (filter (\<lambda>r. ob_delivered_at r = None \<and> ob_poisoned_at r \<noteq> None) s)))))"

subsection \<open>Status\<close>

record outbox_status =
  undelivered_count :: int
  poisoned_count :: int
  claimed_count :: int
  repeated_failure_count :: int
  stuck_count :: int
  total_retry_count :: int
  max_retry_count :: int
  last_error :: "(string \<times> string \<times> pyval \<times> int) option"

definition count_rows :: "(outbox_row \<Rightarrow> bool) \<Rightarrow> outbox \<Rightarrow> int" where
  "count_rows P s = int (length (filter P s))"

definition get_outbox_delivery_status :: "repo_env \<Rightarrow> outbox \<Rightarrow> outbox_status res" where
  "get_outbox_delivery_status E s =
     (let none = \<lparr>undelivered_count = 0, poisoned_count = 0, claimed_count = 0, repeated_failure_count = 0,
            stuck_count = 0, total_retry_count = 0, max_retry_count = 0, last_error = None\<rparr>;
          waiting = (\<lambda>r. ob_delivered_at r = None \<and> ob_poisoned_at r = None);
          failing = filter (\<lambda>r. or_empty (ob_last_delivery_error r) \<noteq> []) s;
          first_error = (case sort_key (\<lambda>r. ob_last_attempted_at r = None)
              (order_desc (\<lambda>r. case ob_last_attempted_at r of None \<Rightarrow> 0 | Some t \<Rightarrow> t) (order_desc ob_created_at failing)) of
            [] \<Rightarrow> None
          | r # _ \<Rightarrow> Some (strip (ob_event_id r), opt_tok (ob_last_delivery_error r), opt_time (ob_last_attempted_at r), ob_retry_count r))
      in case read_pool E ''get_outbox_delivery_status'' of
           Inl e \<Rightarrow> Inl e
         | Inr False \<Rightarrow> Inr none
         | Inr True \<Rightarrow>
           (if coalesce (fault E 0) (coalesce (fault E 1) (fault E 2)) \<noteq> None then Inr none
            else Inr \<lparr>undelivered_count = count_rows waiting s,
              poisoned_count = count_rows (\<lambda>r. ob_delivered_at r = None \<and> ob_poisoned_at r \<noteq> None) s,
              claimed_count = count_rows (\<lambda>r. waiting r \<and>
                (case ob_claim_expires_at r of None \<Rightarrow> False | Some x \<Rightarrow> now E < x)) s,
              repeated_failure_count = count_rows (\<lambda>r. ob_delivered_at r = None \<and> 3 \<le> ob_retry_count r) s,
              stuck_count = count_rows (\<lambda>r. waiting r \<and>
                (case coalesce (ob_next_attempt_at r) (ob_last_attempted_at r) of None \<Rightarrow> ob_created_at r | Some t \<Rightarrow> t) \<le> now E - sec 60) s,
              total_retry_count = sum_list (map ob_retry_count s),
              max_retry_count = (if s = [] then 0 else Max (set (map ob_retry_count s))),
              last_error = first_error\<rparr>))"

subsection \<open>What the operations do to an event\<close>

lemma event_of_key: "event_of k s = Some r \<Longrightarrow> ob_event_id r = k"
  by (auto simp: event_of_def dest: row_of_key)

lemma unclaimed_simps [simp]:
  "ob_event_id (unclaimed r) = ob_event_id r" "ob_delivered_at (unclaimed r) = ob_delivered_at r"
  "ob_claim_token (unclaimed r) = None" "ob_created_at (unclaimed r) = ob_created_at r"
  "ob_poisoned_at (unclaimed r) = ob_poisoned_at r" "ob_retry_count (unclaimed r) = ob_retry_count r"
  by (simp_all add: unclaimed_def)

lemma key_simps [simp]:
  "ob_event_id (claimed_row t nonce who ttl r) = ob_event_id r"
  "ob_event_id (failed_row t err d p i r) = ob_event_id r"
  "ob_delivered_at (claimed_row t nonce who ttl r) = ob_delivered_at r"
  "ob_delivered_at (failed_row t err d p i r) = ob_delivered_at r"
  by (simp_all add: claimed_row_def failed_row_def)

lemma event_of_upd:
  assumes "\<And>r. ob_event_id (f r) = ob_event_id r" and "\<And>r. ob_event_id r = k \<Longrightarrow> P r \<longleftrightarrow> Q r"
  shows "event_of k (upd_rows P f s) = map_option (\<lambda>r. if Q r then f r else r) (event_of k s)"
  unfolding event_of_def using assms by (rule row_of_upd)

datatype outbox_op =
    OpPersist repo_env string string string string "string option" "string option" string string pydict
  | OpClaimDue "string \<Rightarrow> string" repo_env int int string int "string option" "string option" "string option" "string option"
  | OpPatch repo_env string pydict
  | OpDelivered repo_env string string
  | OpFailure repo_env string string string "int option" bool bool

fun outbox_step :: "outbox_op \<Rightarrow> outbox \<Rightarrow> outbox" where
  "outbox_step (OpPersist E ev ty ten w run m tr ik p) s = snd (persist_outbox_event E ev ty ten w run m tr ik p s)"
| "outbox_step (OpClaimDue nonce E old lim who ttl ten w run ty) s =
     snd (claim_due_outbox_events nonce E old lim who ttl ten w run ty s)"
| "outbox_step (OpPatch E ev p) s = snd (patch_outbox_event_payload E ev p s)"
| "outbox_step (OpDelivered E ev cl) s = snd (mark_outbox_event_delivered E ev cl s)"
| "outbox_step (OpFailure E ev cl err d p i) s = snd (record_outbox_delivery_failure E ev cl err d p i s)"

fun outbox_op_time :: "outbox_op \<Rightarrow> int" where
  "outbox_op_time (OpPersist E ev ty ten w run m tr ik p) = now E"
| "outbox_op_time (OpClaimDue nonce E old lim who ttl ten w run ty) = now E"
| "outbox_op_time (OpPatch E ev p) = now E"
| "outbox_op_time (OpDelivered E ev cl) = now E"
| "outbox_op_time (OpFailure E ev cl err d p i) = now E"

text \<open>The claim token an operation acts under.\<close>

fun outbox_op_claim :: "outbox_op \<Rightarrow> string option" where
  "outbox_op_claim (OpDelivered E ev cl) = Some (strip cl)"
| "outbox_op_claim (OpFailure E ev cl err d p i) = Some (strip cl)"
| "outbox_op_claim op = None"

text \<open>
  How an event's row comes out of a step: kept but for its description, claimed while due and
  free, or settled by an operation that holds its claim.
\<close>

definition same_lease :: "outbox_row \<Rightarrow> outbox_row \<Rightarrow> bool" where
  "same_lease r r' \<longleftrightarrow> ob_claim_token r' = ob_claim_token r \<and> ob_claim_expires_at r' = ob_claim_expires_at r \<and>
     ob_delivered_at r' = ob_delivered_at r"

definition row_fate :: "outbox_op \<Rightarrow> outbox_row \<Rightarrow> outbox_row \<Rightarrow> bool" where
  "row_fate op r r' \<longleftrightarrow> ob_event_id r' = ob_event_id r \<and>
     (same_lease r r' \<or> (claim_free (outbox_op_time op) r \<and> ob_delivered_at r = None \<and> ob_delivered_at r' = None) \<or>
      (ob_claim_token r = outbox_op_claim op \<and> ob_claim_token r \<noteq> None \<and> ob_delivered_at r = None))"

lemma row_fate_refl [simp]: "row_fate op r r"
  by (simp add: row_fate_def same_lease_def)

lemma due_rows_mem:
  "r \<in> set (due_rows t older limit ten w run ty s) \<Longrightarrow> r \<in> set s \<and> undelivered t (max 0 older) r \<and> claim_free t r"
  by (auto simp: due_rows_def limit_rows_def oldest_first_def dest: in_set_takeD)

lemma due_hit:
  assumes "keys_distinct ob_event_id s" and "event_of k s = Some r"
    and "ob_event_id r \<in> ob_event_id ` set (due_rows t older limit ten w run ty s)"
  shows "r \<in> set (due_rows t older limit ten w run ty s)"
proof -
  from assms(3) obtain x where x: "x \<in> set (due_rows t older limit ten w run ty s)" "ob_event_id x = ob_event_id r" by auto
  have "row_of ob_event_id (ob_event_id x) s = Some x"
    using row_of_mem [OF assms(1)] due_rows_mem [OF x(1)] by blast
  with x(2) assms(2) event_of_key [OF assms(2)] have "x = r" by (simp add: event_of_def)
  with x(1) show ?thesis by simp
qed

definition fates :: "outbox_op \<Rightarrow> outbox \<Rightarrow> outbox \<Rightarrow> bool" where
  "fates op s s' \<longleftrightarrow> keys_distinct ob_event_id s' \<and>
     (\<forall>k r. event_of k s = Some r \<longrightarrow> (\<exists>r'. event_of k s' = Some r' \<and> row_fate op r r'))"

lemma fates_refl: "keys_distinct ob_event_id s \<Longrightarrow> fates op s s"
  by (simp add: fates_def)

lemma fates_upd:
  assumes "keys_distinct ob_event_id s" and "\<And>r. ob_event_id (f r) = ob_event_id r"
    and "\<And>k r. event_of k s = Some r \<Longrightarrow> P r \<Longrightarrow> row_fate op r (f r)"
  shows "fates op s (upd_rows P f s)"
  using assms event_of_upd [of f _ P P s, OF assms(2) refl]
  by (auto simp: fates_def keys_distinct_upd)

lemma fates_put:
  assumes "keys_distinct ob_event_id s" and "ob_event_id fresh = k"
    and "\<And>r. event_of k s = Some r \<Longrightarrow> row_fate op r (upd r)"
  shows "fates op s (put_row ob_event_id (case event_of k s of None \<Rightarrow> fresh | Some r \<Rightarrow> upd r) s)"
proof (cases "event_of k s")
  case None
  then show ?thesis using assms(1,2) by (auto simp: fates_def event_of_def)
next
  case (Some r)
  have "ob_event_id (upd r) = k" using assms(3) [OF Some] event_of_key [OF Some] by (simp add: row_fate_def)
  with Some assms(1,3) show ?thesis by (auto simp: fates_def event_of_def)
qed

lemma fates_claim:
  assumes "keys_distinct ob_event_id s" and "outbox_op_time op = t"
  shows "fates op s (upd_rows (\<lambda>r. ob_event_id r \<in> ob_event_id ` set (due_rows t older limit ten w run ty s))
    (claimed_row t nonce who ttl) s)"
proof (rule fates_upd [OF assms(1)])
  fix k r
  assume "event_of k s = Some r" "ob_event_id r \<in> ob_event_id ` set (due_rows t older limit ten w run ty s)"
  from due_rows_mem [OF due_hit [OF assms(1) this]] assms(2) show "row_fate op r (claimed_row t nonce who ttl r)"
    by (simp add: row_fate_def undelivered_def)
qed simp

lemma outbox_step_fates:
  assumes "keys_distinct ob_event_id s"
  shows "fates op s (outbox_step op s)"
proof (cases op)
  case (OpPersist E ev ty ten w run m tr ik p)
  have "persist_outbox_event E ev ty ten w run m tr ik p s \<in> {c. fates op s (snd c)}"
    unfolding persist_outbox_event_def using assms
    by (intro branch) (auto intro!: fates_refl fates_put simp: row_fate_def same_lease_def)
  with OpPersist show ?thesis by simp
next
  case (OpClaimDue nonce E old lim who ttl ten w run ty)
  have "claim_due_outbox_events nonce E old lim who ttl ten w run ty s \<in> {c. fates op s (snd c)}"
    unfolding claim_due_outbox_events_def using assms OpClaimDue
    by (intro branch) (auto intro!: fates_refl fates_claim)
  with OpClaimDue show ?thesis by simp
next
  case (OpPatch E ev p)
  have "patch_outbox_event_payload E ev p s \<in> {c. fates op s (snd c)}"
    unfolding patch_outbox_event_payload_def using assms
    by (intro branch) (auto intro!: fates_refl fates_upd simp: row_fate_def same_lease_def)
  with OpPatch show ?thesis by simp
next
  case (OpDelivered E ev cl)
  have "mark_outbox_event_delivered E ev cl s \<in> {c. fates op s (snd c)}"
    unfolding mark_outbox_event_delivered_def using assms OpDelivered
    by (intro branch) (auto intro!: fates_refl fates_upd simp: row_fate_def holds_claim_def)
  with OpDelivered show ?thesis by simp
next
  case (OpFailure E ev cl err d p i)
  have "record_outbox_delivery_failure E ev cl err d p i s \<in> {c. fates op s (snd c)}"
    unfolding record_outbox_delivery_failure_def using assms OpFailure
    by (intro branch) (auto intro!: fates_refl fates_upd simp: row_fate_def holds_claim_def)
  with OpFailure show ?thesis by simp
qed

text \<open>The two contracts: an event's claim is a lease, and a delivery is settled for good.\<close>

definition event_holder :: "outbox \<Rightarrow> string \<Rightarrow> string option" where
  "event_holder s k = (if keys_distinct ob_event_id s then
     (case event_of k s of None \<Rightarrow> None | Some r \<Rightarrow> if ob_claim_expires_at r = None then None else ob_claim_token r) else None)"

definition event_deadline :: "outbox \<Rightarrow> string \<Rightarrow> int" where
  "event_deadline s k = (case event_of k s of None \<Rightarrow> 0 | Some r \<Rightarrow> (case ob_claim_expires_at r of None \<Rightarrow> 0 | Some t \<Rightarrow> t))"

definition delivered :: "outbox \<Rightarrow> string \<Rightarrow> int option" where
  "delivered s k = (if keys_distinct ob_event_id s then (case event_of k s of None \<Rightarrow> None | Some r \<Rightarrow> ob_delivered_at r) else None)"

interpretation outbox_lease: lease_store event_holder event_deadline outbox_step outbox_op_time outbox_op_claim
proof unfold_locales
  fix s k h op
  assume a: "event_holder s k = Some h" "outbox_op_time op < event_deadline s k" "outbox_op_claim op \<noteq> Some h"
  then obtain r where r: "keys_distinct ob_event_id s" "event_of k s = Some r" "ob_claim_token r = Some h" "ob_claim_expires_at r \<noteq> None"
    by (auto simp: event_holder_def split: if_splits option.splits)
  from outbox_step_fates [OF r(1), of op] r(2)
  obtain r' where r': "keys_distinct ob_event_id (outbox_step op s)" "event_of k (outbox_step op s) = Some r'" "row_fate op r r'"
    by (auto simp: fates_def)
  have "same_lease r r'"
    using r' a r by (auto simp: row_fate_def event_deadline_def claim_free_def split: option.splits)
  with r r' show "event_holder (outbox_step op s) k = Some h \<and> event_deadline (outbox_step op s) k = event_deadline s k"
    by (simp add: event_holder_def event_deadline_def same_lease_def)
qed

interpretation deliveries: write_once delivered outbox_step
proof unfold_locales
  fix s k t op
  assume "delivered s k = Some t"
  then obtain r where r: "keys_distinct ob_event_id s" "event_of k s = Some r" "ob_delivered_at r = Some t"
    by (auto simp: delivered_def split: if_splits option.splits)
  from outbox_step_fates [OF r(1), of op] r(2)
  obtain r' where r': "keys_distinct ob_event_id (outbox_step op s)" "event_of k (outbox_step op s) = Some r'" "row_fate op r r'"
    by (auto simp: fates_def)
  with r show "delivered (outbox_step op s) k = Some t"
    by (auto simp: delivered_def row_fate_def same_lease_def)
qed

lemma claim_due_batch_length:
  assumes "claim_due_outbox_events nonce E older limit who ttl ten w run ty s = (Inr items, s')"
  shows "int (length items) \<le> max 1 limit"
proof -
  have "int (length (due_rows t older limit ten w run ty s)) \<le> max 1 limit" for t
    by (simp add: due_rows_def limit_rows_def min_def) linarith
  then have "claim_due_outbox_events nonce E older limit who ttl ten w run ty s
      \<in> {c. \<forall>items. fst c = Inr items \<longrightarrow> int (length items) \<le> max 1 limit}"
    unfolding claim_due_outbox_events_def Let_def by (intro branch) auto
  with assms show ?thesis by auto
qed

lemma failure_written:
  assumes "record_outbox_delivery_failure E ev claim err delay poison increment s = (Inr b, s')"
    and "keys_distinct ob_event_id s" and "event_holder s (strip ev) = Some (strip claim)"
    and "event_of (strip ev) s = Some r" and "ob_delivered_at r = None" and "strip ev \<noteq> []" and "strip claim \<noteq> []"
  shows "event_of (strip ev) s' = Some (failed_row (now E) err delay poison increment r)" and "keys_distinct ob_event_id s'"
proof -
  let ?f = "failed_row (now E) err delay poison increment"
  have hold: "holds_claim (strip ev) (strip claim) r"
    using assms(3,4,5) event_of_key [OF assms(4)] by (auto simp: event_holder_def holds_claim_def split: if_splits)
  have "record_outbox_delivery_failure E ev claim err delay poison increment s \<in>
      {(x, y). (\<exists>b. x = Inr b) \<longrightarrow> y = upd_rows (holds_claim (strip ev) (strip claim)) ?f s}"
    unfolding record_outbox_delivery_failure_def by (intro branch) (use assms(6,7) in auto)
  with assms(1) have s': "s' = upd_rows (holds_claim (strip ev) (strip claim)) ?f s" by auto
  show "event_of (strip ev) s' = Some (?f r)"
    using row_of_upd_hit [where key = ob_event_id and f = ?f and P = "holds_claim (strip ev) (strip claim)",
        OF assms(4) [unfolded event_of_def] hold] by (simp add: s' event_of_def)
  show "keys_distinct ob_event_id s'" using assms(2) by (simp add: s' keys_distinct_upd)
qed

subsection \<open>Properties\<close>

text \<open>
  C40. A claimed event stays with its claim token until the claim expires: no history of
  persists, claims, patches, deliveries and failures takes it away unless an operation presents
  the same token or runs at or after the expiry.
\<close>

theorem outbox_claim_exclusive:
  assumes "event_holder s event = Some token"
    and "\<And>op. op \<in> set ops \<Longrightarrow> outbox_op_claim op \<noteq> Some token \<and> outbox_op_time op < event_deadline s event"
  shows "event_holder (fold outbox_step ops s) event = Some token \<and>
    event_deadline (fold outbox_step ops s) event = event_deadline s event"
  by (rule outbox_lease.held_until_expiry [OF assms])

definition demo_event :: outbox_row where
  "demo_event = \<lparr>ob_event_id = ''e1'', ob_event_type = ''x'', ob_tenant_id = ''t'', ob_workspace_id = ''w'',
     ob_run_id = None, ob_machine_id = None, ob_trace_id = None, ob_idempotency_key = None, ob_payload = [],
     ob_created_at = 0, ob_delivered_at = None, ob_last_replayed_at = None, ob_retry_count = 0,
     ob_last_delivery_error = None, ob_last_attempted_at = None, ob_next_attempt_at = None, ob_poisoned_at = None,
     ob_claim_token = Some ''e1:0'', ob_claimed_by = Some ''d'', ob_claimed_at = Some 0, ob_claim_expires_at = Some 30000000\<rparr>"

lemma demo_event_simps [simp]:
  "ob_event_id demo_event = ''e1''" "ob_claim_token demo_event = Some ''e1:0''" "ob_delivered_at demo_event = None"
  "ob_claim_expires_at demo_event = Some 30000000" "ob_created_at demo_event = 0" "ob_retry_count demo_event = 0"
  "ob_next_attempt_at demo_event = None" "ob_poisoned_at demo_event = None"
  by (simp_all add: demo_event_def)

lemma demo_event_of [simp]: "event_of ''e1'' [demo_event] = Some demo_event" "keys_distinct ob_event_id [demo_event]"
  by (simp_all add: event_of_def keys_distinct_def)

theorem outbox_claim_exclusive_witness:
  "event_holder (fold outbox_step [OpClaimDue (\<lambda>_. ''9'') (allow_env 5) 0 10 ''o'' 30 None None None None,
     OpDelivered (allow_env 6) ''e1'' ''stale''] [demo_event]) ''e1'' = Some ''e1:0''"
proof -
  have "event_holder [demo_event] ''e1'' = Some ''e1:0''" by (simp add: event_holder_def)
  moreover have "outbox_op_claim op \<noteq> Some ''e1:0'' \<and> outbox_op_time op < event_deadline [demo_event] ''e1''"
    if "op \<in> set [OpClaimDue (\<lambda>_. ''9'') (allow_env 5) 0 10 ''o'' 30 None None None None, OpDelivered (allow_env 6) ''e1'' ''stale'']" for op
    using that by (auto simp: event_deadline_def strip_def py_space_def)
  ultimately show ?thesis by (rule outbox_claim_exclusive [THEN conjunct1])
qed

text \<open>
  A delivered event is delivered once: its delivery moment never changes, it is never due
  for a claim again, and no later report of delivery succeeds.
\<close>

theorem delivered_once:
  assumes "delivered s event = Some t"
  shows "delivered (fold outbox_step ops s) event = Some t \<and>
    event \<notin> ob_event_id ` set (due_rows now' older limit ten w run ty (fold outbox_step ops s)) \<and>
    (event = strip ev \<longrightarrow> fst (mark_outbox_event_delivered E ev claim (fold outbox_step ops s)) \<noteq> Inr True)"
proof -
  let ?s = "fold outbox_step ops s"
  from deliveries.settled_forever [OF assms] have d: "delivered ?s event = Some t" .
  then have k: "keys_distinct ob_event_id ?s" by (auto simp: delivered_def split: if_splits)
  have row: "ob_delivered_at r = Some t" if "r \<in> set ?s" "ob_event_id r = event" for r
    using row_of_mem [OF k that(1)] that(2) d by (simp add: delivered_def event_of_def k)
  have "event \<notin> ob_event_id ` set (due_rows now' older limit ten w run ty ?s)"
    using row by (auto dest!: due_rows_mem simp: undelivered_def)
  moreover have "mark_outbox_event_delivered E ev claim ?s \<in> {c. event = strip ev \<longrightarrow> fst c \<noteq> Inr True}"
    unfolding mark_outbox_event_delivered_def
    by (intro branch) (use row in \<open>auto simp: holds_claim_def\<close>)
  ultimately show ?thesis using d by simp
qed

theorem delivered_once_witness:
  "delivered (fold outbox_step [OpFailure (allow_env 9) ''e1'' ''e1:0'' ''boom'' None True True]
     [demo_event\<lparr>ob_delivered_at := Some 7\<rparr>]) ''e1'' = Some 7"
  by (rule delivered_once [THEN conjunct1]) (simp add: delivered_def event_of_def keys_distinct_def)

lemma claim_written:
  assumes "keys_distinct ob_event_id s"
  shows "event_of k (upd_rows (\<lambda>r. ob_event_id r \<in> ob_event_id ` set (due_rows t older limit ten w run ty s)) (claimed_row t nonce who ttl) s)
      = event_of k s \<or>
    (\<exists>r \<in> set (due_rows t older limit ten w run ty s). event_of k s = Some r \<and>
       event_of k (upd_rows (\<lambda>r. ob_event_id r \<in> ob_event_id ` set (due_rows t older limit ten w run ty s)) (claimed_row t nonce who ttl) s)
         = Some (claimed_row t nonce who ttl r))"
proof (cases "event_of k s")
  case None
  then show ?thesis by (simp add: event_of_upd [where Q = "\<lambda>r. k \<in> ob_event_id ` set (due_rows t older limit ten w run ty s)"])
next
  case (Some r)
  show ?thesis
  proof (cases "ob_event_id r \<in> ob_event_id ` set (due_rows t older limit ten w run ty s)")
    case True
    with due_hit [OF assms Some True] Some show ?thesis
      using row_of_upd_hit [where key = ob_event_id and f = "claimed_row t nonce who ttl"] by (auto simp: event_of_def)
  next
    case False
    with Some show ?thesis
      using row_of_upd_miss [where key = ob_event_id and f = "claimed_row t nonce who ttl" and k = k and r = r and rows = s
          and P = "\<lambda>r. ob_event_id r \<in> ob_event_id ` set (due_rows t older limit ten w run ty s)"]
      by (simp add: event_of_def)
  qed
qed

text \<open>
  A batch of claims is sound: at most \<open>limit\<close> events are returned, and an event whose row
  changed was undelivered, not poisoned, due and without a live claim; it now carries its fresh
  token for the time to live, and its record is in the batch. Events not due are untouched.
\<close>

theorem claim_due_sound:
  assumes "claim_due_outbox_events nonce E older limit who ttl ten w run ty s = (Inr items, s')"
    and "keys_distinct ob_event_id s"
  shows "int (length items) \<le> max 1 limit \<and>
    (\<forall>k. event_of k s' = event_of k s \<or>
      (\<exists>r r'. event_of k s = Some r \<and> event_of k s' = Some r' \<and>
         undelivered (now E) (max 0 older) r \<and> claim_free (now E) r \<and>
         ob_claim_token r' = Some (k @ '':'' @ nonce k) \<and> ob_claim_expires_at r' = Some (now E + sec (max 1 ttl)) \<and>
         outbox_record_from_row r' \<in> set items))" (is "?P items s'")
proof -
  have eff: "event_of k s' = event_of k s \<or> (\<exists>r r'. event_of k s = Some r \<and> event_of k s' = Some r' \<and>
         undelivered t (max 0 older) r \<and> claim_free t r \<and>
         ob_claim_token r' = Some (k @ '':'' @ nonce k) \<and> ob_claim_expires_at r' = Some (t + sec (max 1 ttl)) \<and>
         outbox_record_from_row r' \<in> set (map (\<lambda>r. outbox_record_from_row (claimed_row t nonce who' ttl r)) (due_rows t older limit ten w run ty s)))"
    if "s' = upd_rows (\<lambda>r. ob_event_id r \<in> ob_event_id ` set (due_rows t older limit ten w run ty s)) (claimed_row t nonce who' ttl) s"
    for k t who' s'
    using claim_written [OF assms(2), of k t older limit ten w run ty nonce who' ttl] event_of_key [of k s]
    unfolding that by (elim disjE bexE) (auto simp: claimed_row_def intro: due_rows_mem [THEN conjunct2, THEN conjunct1] due_rows_mem [THEN conjunct2, THEN conjunct2])
  let ?who = "sor (strip who) ''outbox-delivery''" and ?due = "due_rows (now E) older limit ten w run ty s"
  have "claim_due_outbox_events nonce E older limit who ttl ten w run ty s \<in> {(r, s'). \<forall>items. r = Inr items \<longrightarrow>
      (items = [] \<and> s' = s) \<or> (items = map (\<lambda>r. outbox_record_from_row (claimed_row (now E) nonce ?who ttl r)) ?due \<and>
        s' = upd_rows (\<lambda>r. ob_event_id r \<in> ob_event_id ` set ?due) (claimed_row (now E) nonce ?who ttl) s)}"
    unfolding claim_due_outbox_events_def Let_def by (intro branch) auto
  with assms(1) consider "items = []" "s' = s"
    | "items = map (\<lambda>r. outbox_record_from_row (claimed_row (now E) nonce ?who ttl r)) ?due"
      "s' = upd_rows (\<lambda>r. ob_event_id r \<in> ob_event_id ` set ?due) (claimed_row (now E) nonce ?who ttl) s"
    by auto
  then show ?thesis
  proof cases
    case 1
    then show ?thesis by simp
  next
    case 2
    then show ?thesis using eff [OF 2(2)] claim_due_batch_length [OF assms(1)] by simp
  qed
qed

theorem claim_due_sound_witness:
  "\<exists>items s'. claim_due_outbox_events (\<lambda>_. ''9'') (allow_env 40000000) 0 10 ''d'' 30 None None None None [demo_event] = (Inr items, s') \<and>
     int (length items) \<le> 10"
proof -
  let ?c = "claim_due_outbox_events (\<lambda>_. ''9'') (allow_env 40000000) 0 10 ''d'' 30 None None None None [demo_event]"
  have gate: "enforce_outbox_delivery_decision (allow_env 40000000) r \<noteq> Inl e" if "or_operation r = ''claim_due''" for r e
    using that by (rule allow_outbox_open) simp
  have "?c \<in> {c. \<exists>items. fst c = Inr items}"
    unfolding claim_due_outbox_events_def by (intro branch) (use gate in auto)
  from fst_pair_ex [OF this] obtain items where c: "?c = (Inr items, snd ?c)" ..
  from claim_due_sound [OF c demo_event_of(2), THEN conjunct1] have "int (length items) \<le> 10" by simp
  with c show ?thesis by blast
qed

text \<open>
  A failure that is retried later puts the event out of reach until then: with the claim
  held and a delay \<open>d\<close>, the event is released, its retry count goes up by one when it is to be
  counted, and no claim finds it due before \<open>d\<close> seconds have passed; a poisoned event is found
  due at no time at all.
\<close>

theorem failure_defers:
  assumes "record_outbox_delivery_failure E ev claim err delay poison increment s = (Inr b, s')"
    and "keys_distinct ob_event_id s" and "event_holder s (strip ev) = Some (strip claim)"
    and "event_of (strip ev) s = Some r" and "ob_delivered_at r = None" and "strip ev \<noteq> []" and "strip claim \<noteq> []"
  shows "\<exists>r'. event_of (strip ev) s' = Some r' \<and> event_holder s' (strip ev) = None \<and>
    ob_retry_count r' = ob_retry_count r + (if increment then 1 else 0) \<and>
    (poison \<longrightarrow> (\<forall>t older limit ten w run ty. strip ev \<notin> ob_event_id ` set (due_rows t older limit ten w run ty s'))) \<and>
    (\<not> poison \<longrightarrow> (\<forall>d t older limit ten w run ty. delay = Some d \<longrightarrow> t < now E + sec (max 0 d) \<longrightarrow>
       strip ev \<notin> ob_event_id ` set (due_rows t older limit ten w run ty s')))"
proof -
  let ?f = "failed_row (now E) err delay poison increment"
  note row = failure_written(1) [OF assms] and keys = failure_written(2) [OF assms]
  have due: "undelivered t (max 0 older) (?f r)" if h: "strip ev \<in> ob_event_id ` set (due_rows t older limit ten w run ty s')"
    for t older limit ten w run ty
    using due_rows_mem [OF due_hit [OF keys row]] h event_of_key [OF row] by simp
  have "t \<ge> now E + sec (max 0 d)" if "undelivered t (max 0 older) (?f r)" "\<not> poison" "delay = Some d" for t d older
    using that by (auto simp: undelivered_def attempt_time_def failed_row_def sec_def)
  with due have "strip ev \<notin> ob_event_id ` set (due_rows t older limit ten w run ty s')"
    if "\<not> poison" "delay = Some d" "t < now E + sec (max 0 d)" for d t older limit ten w run ty
    using that not_le by blast
  moreover have "strip ev \<notin> ob_event_id ` set (due_rows t older limit ten w run ty s')" if poison for t older limit ten w run ty
    using due [of t older limit ten w run ty] that by (auto simp: undelivered_def failed_row_def)
  moreover have "event_holder s' (strip ev) = None" using row keys by (simp add: event_holder_def failed_row_def)
  moreover have "ob_retry_count (?f r) = ob_retry_count r + (if increment then 1 else 0)" by (simp add: failed_row_def)
  ultimately show ?thesis using row by blast
qed

theorem failure_defers_witness:
  "\<exists>s'. record_outbox_delivery_failure (allow_env 9) ''e1'' ''e1:0'' ''boom'' (Some 5) False True [demo_event] = (Inr True, s') \<and>
     event_holder s' ''e1'' = None"
proof -
  let ?c = "record_outbox_delivery_failure (allow_env 9) ''e1'' ''e1:0'' ''boom'' (Some 5) False True [demo_event]"
  have st: "strip ''e1'' = ''e1''" "strip ''e1:0'' = ''e1:0''" by (simp_all add: strip_def py_space_def)
  have gate: "enforce_outbox_delivery_decision (allow_env 9) r \<noteq> Inl e" if "or_operation r = ''record_failure''" for r e
    using that by (rule allow_outbox_open) simp
  have "?c \<in> {c. fst c = Inr True}"
    unfolding record_outbox_delivery_failure_def
    by (intro branch) (use gate in \<open>auto simp: st event_of_def upd_rows_def holds_claim_def\<close>)
  then have c: "?c = (Inr True, snd ?c)" by (rule fst_pair)
  have "event_holder [demo_event] ''e1'' = Some ''e1:0''" by (simp add: event_holder_def)
  then have "event_holder (snd ?c) (strip ''e1'') = None"
    using failure_defers [OF c demo_event_of(2), of demo_event] unfolding st by (elim meta_impE exE) simp_all
  with c st(1) show ?thesis by auto
qed

text \<open>
  The result of \<open>record_outbox_delivery_failure\<close> says nothing about the claim: for an event
  that exists, a report under a token that does not hold it changes nothing and still returns
  \<open>True\<close>.
\<close>

theorem failure_report_ignores_claim:
  assumes "\<exists>d. enforce_outbox_delivery_decision E ((outbox_defaults ''record_failure'')\<lparr>or_event_id := Some (strip ev),
      or_claim_token := Some (strip claim), or_error_text := Some err, or_retry_delay_seconds := delay, or_poison := poison\<rparr>) = Inr d"
    and "db_ok E" and "strip ev \<noteq> []" and "strip claim \<noteq> []"
    and "event_of (strip ev) s \<noteq> None" and "\<forall>r \<in> set s. ob_event_id r = strip ev \<longrightarrow> ob_claim_token r \<noteq> Some (strip claim)"
  shows "record_outbox_delivery_failure E ev claim err delay poison increment s = (Inr True, s)"
proof -
  have "upd_rows (holds_claim (strip ev) (strip claim)) f s = s" for f
    using assms(6) by (intro upd_rows_none) (auto simp: holds_claim_def)
  with assms show ?thesis by (auto simp: record_outbox_delivery_failure_def Let_def)
qed

theorem failure_report_ignores_claim_witness:
  "record_outbox_delivery_failure (allow_env 9) ''e1'' ''stale'' ''boom'' None False True [demo_event] = (Inr True, [demo_event])"
proof -
  have st: "strip ''e1'' = ''e1''" "strip ''stale'' = ''stale''" by (simp_all add: strip_def py_space_def)
  show ?thesis
    by (rule failure_report_ignores_claim) (auto simp: st intro!: allow_outbox)
qed

end
