(* ===== verification/Fleet.thy ===== *)
theory Fleet
  imports Queue_Claims Store_Contracts
begin

text \<open>
  The registry of workers and the snapshots of the queue partitions (\<open>run_state_repository.py\<close>:
  \<open>upsert_fleet_worker\<close>, \<open>get_fleet_worker\<close>, \<open>list_fleet_workers\<close>, \<open>upsert_fleet_queue_partition\<close>,
  \<open>list_fleet_queue_partitions\<close>) and the report on the dead letters
  (\<open>get_local_queue_dead_letter_status\<close>). A registration replaces what is known of the worker but
  the moment it first registered; a heartbeat stays until the next one is seen.
\<close>

subsection \<open>Tables\<close>

record worker_row =
  fw_worker_id :: string
  fw_tenant_id :: string
  fw_workspace_id :: string
  fw_machine_id :: string
  fw_runtime_type :: string
  fw_status :: string
  fw_control_state :: string
  fw_current_run_id :: "string option"
  fw_instance_id :: "string option"
  fw_shard_key :: string
  fw_prewarm_state :: "string option"
  fw_warm_pool :: "string option"
  fw_lease_seconds :: int
  fw_payload :: pydict
  fw_registered_at :: int
  fw_last_registered_at :: int
  fw_last_heartbeat_at :: "int option"
  fw_updated_at :: int

record partition_row =
  fp_partition_id :: string
  fp_tenant_id :: string
  fp_workspace_id :: string
  fp_specialist_key :: string
  fp_pending_count :: int
  fp_claimed_count :: int
  fp_online_workers :: int
  fp_busy_workers :: int
  fp_idle_workers :: int
  fp_prewarmed_workers :: int
  fp_state :: string
  fp_retry_after_seconds :: int
  fp_payload :: pydict
  fp_updated_at :: int

record fleet =
  workers :: "worker_row list"
  partitions :: "partition_row list"

definition worker_of :: "string \<Rightarrow> fleet \<Rightarrow> worker_row option" where
  "worker_of w s = row_of fw_worker_id w (workers s)"

subsection \<open>Registering a worker\<close>

definition first_target :: "pydict \<Rightarrow> string" where
  "first_target payload = (case dget payload ''execution_targets'' of
     PList (x # xs) \<Rightarrow> sor (lower (strip (py_str_of x))) ''local''
   | _ \<Rightarrow> ''local'')"

definition fleet_shard :: "pydict \<Rightarrow> string" where
  "fleet_shard payload = sor (tok (dget payload ''queue_shard''))
     (py_str_of (dget payload ''tenant_id'') @ '':'' @ py_str_of (dget payload ''workspace_id'') @ '':''
      @ text_or (dget payload ''runtime_type'') ''local'' @ '':'' @ first_target payload)"

text \<open>The identifying entries a registration fills in, in the order the code sets them.\<close>

definition fleet_payload :: "string \<Rightarrow> pydict \<Rightarrow> pydict" where
  "fleet_payload worker_id record0 =
     (let p = dset ''worker_id'' (PStr worker_id) record0;
          p = dset ''runtime_id'' (PStr (text_or (dget p ''runtime_id'') worker_id)) p;
          p = dset ''machine_id'' (PStr (sor (strip (py_str_of (por (dget p ''machine_id'')
                (por (dget p ''runtime_id'') (PStr worker_id))))) worker_id)) p;
          p = dset ''tenant_id'' (PStr (text_or (dget p ''tenant_id'') ''default'')) p;
          p = dset ''workspace_id'' (PStr (text_or (dget p ''workspace_id'') ''default'')) p
      in dset ''queue_shard'' (PStr (fleet_shard p)) p)"

definition fleet_request :: "string \<Rightarrow> pydict \<Rightarrow> store_request" where
  "fleet_request worker_id payload = (store_defaults ''upsert_runtime_registration'')\<lparr>
     sr_runtime_id := Some worker_id, sr_workspace_id := Some (py_str_of (dget payload ''workspace_id'')),
     sr_tenant_id := Some (py_str_of (dget payload ''tenant_id'')),
     sr_status := Some (text_or (dget payload ''status'') ''idle''), sr_trace_id := Some (tok (dget payload ''trace_id'')),
     sr_payload := Some payload, sr_state_class := Some ''runtime_registrations''\<rparr>"

definition worker_values :: "int \<Rightarrow> string \<Rightarrow> pydict \<Rightarrow> int \<Rightarrow> worker_row option \<Rightarrow> bool \<Rightarrow> worker_row" where
  "worker_values t worker_id payload lease_seconds old heartbeat_seen =
     \<lparr>fw_worker_id = worker_id, fw_tenant_id = py_str_of (dget payload ''tenant_id''),
      fw_workspace_id = py_str_of (dget payload ''workspace_id''), fw_machine_id = py_str_of (dget payload ''machine_id''),
      fw_runtime_type = text_or (dget payload ''runtime_type'') ''local'',
      fw_status = text_or (dget payload ''status'') ''idle'',
      fw_control_state = sor (lower (strip (py_str_of (por (dget payload ''control_state'') (PStr ''active''))))) ''active'',
      fw_current_run_id = snone (tok (dget payload ''current_run_id'')),
      fw_instance_id = snone (tok (dget payload ''instance_id'')),
      fw_shard_key = py_str_of (dget payload ''queue_shard''),
      fw_prewarm_state = snone (lower (tok (dget payload ''prewarm_state''))),
      fw_warm_pool = snone (tok (dget payload ''warm_pool'')),
      fw_lease_seconds = max 1 lease_seconds, fw_payload = payload,
      fw_registered_at = (case old of None \<Rightarrow> t | Some r \<Rightarrow> fw_registered_at r), fw_last_registered_at = t,
      fw_last_heartbeat_at = (if heartbeat_seen then Some t
        else case old of None \<Rightarrow> None | Some r \<Rightarrow> fw_last_heartbeat_at r),
      fw_updated_at = t\<rparr>"

definition fleet_worker_id :: "pydict \<Rightarrow> string" where
  "fleet_worker_id r = strip (py_str_of (por (dget r ''worker_id'') (por (dget r ''runtime_id'') (PStr []))))"

definition upsert_fleet_worker :: "repo_env \<Rightarrow> pydict \<Rightarrow> bool \<Rightarrow> fleet \<Rightarrow> unit res \<times> fleet" where
  "upsert_fleet_worker E record0 heartbeat_seen s =
     (let worker_id = fleet_worker_id record0
      in if worker_id = [] then (Inr (), s)
      else (let payload = fleet_payload worker_id record0 in
        case enforce_runtime_state_store_decision E (fleet_request worker_id payload) of
          Inl e \<Rightarrow> (Inl e, s)
        | Inr _ \<Rightarrow>
          (case require_pool E ''upsert_fleet_worker'' of
             Inl e \<Rightarrow> (Inl e, s)
           | Inr _ \<Rightarrow>
             (case (case fault E 0 of Some m \<Rightarrow> Inl m | None \<Rightarrow>
                 (case py_int (por (dget payload ''lease_seconds'') (PInt 30)) of
                    Inl e \<Rightarrow> Inl (exc_text e)
                  | Inr n \<Rightarrow> (case fault E 1 of Some m \<Rightarrow> Inl m | None \<Rightarrow> Inr n))) of
                Inl m \<Rightarrow> (Inl (PersistenceError (''Postgres upsert_fleet_worker failed for '' @ worker_id @ '': '' @ m)), s)
              | Inr n \<Rightarrow> (Inr (), s\<lparr>workers := put_row fw_worker_id
                  (worker_values (now E) worker_id payload n (worker_of worker_id s) heartbeat_seen) (workers s)\<rparr>)))))"

subsection \<open>Reading the registry\<close>

definition when_text :: "int option \<Rightarrow> pyval" where
  "when_text t = (case t of None \<Rightarrow> PNone | Some m \<Rightarrow> PStr (strip (datetime_str m)))"

text \<open>
  The columns over the stored payload. \<open>get_fleet_worker\<close> falls back to the id it was asked for
  when the machine is blank, \<open>list_fleet_workers\<close> to the id of the row.
\<close>

definition worker_record :: "string \<Rightarrow> worker_row \<Rightarrow> pydict" where
  "worker_record fallback r = dmerge (fw_payload r)
     [(''worker_id'', PStr (strip (fw_worker_id r))),
      (''runtime_id'', PStr (strip (py_str_of (por (dget (fw_payload r) ''runtime_id'') (PStr (fw_worker_id r)))))),
      (''tenant_id'', PStr (sor (strip (fw_tenant_id r)) ''default'')),
      (''workspace_id'', PStr (sor (strip (fw_workspace_id r)) ''default'')),
      (''machine_id'', PStr (sor (strip (fw_machine_id r)) fallback)),
      (''runtime_type'', PStr (sor (strip (fw_runtime_type r)) ''local'')),
      (''status'', PStr (sor (strip (fw_status r)) ''idle'')),
      (''control_state'', PStr (sor (lower (strip (fw_control_state r))) ''active'')),
      (''current_run_id'', opt_val (snone (opt_tok (fw_current_run_id r)))),
      (''instance_id'', opt_val (snone (opt_tok (fw_instance_id r)))),
      (''queue_shard'', opt_val (snone (strip (fw_shard_key r)))),
      (''prewarm_state'', opt_val (snone (opt_tok (fw_prewarm_state r)))),
      (''warm_pool'', opt_val (snone (opt_tok (fw_warm_pool r)))),
      (''lease_seconds'', PInt (if fw_lease_seconds r = 0 then 30 else fw_lease_seconds r)),
      (''registered_at'', when_text (Some (fw_registered_at r))),
      (''last_registered_at'', when_text (Some (fw_last_registered_at r))),
      (''last_heartbeat_at'', when_text (fw_last_heartbeat_at r)),
      (''updated_at'', when_text (Some (fw_updated_at r)))]"

definition get_fleet_worker :: "repo_env \<Rightarrow> string \<Rightarrow> fleet \<Rightarrow> pydict option res" where
  "get_fleet_worker E worker_id s =
     (let token = strip worker_id in
      if token = [] then Inr None
      else case read_pool E ''get_fleet_worker'' of
        Inl e \<Rightarrow> Inl e
      | Inr False \<Rightarrow> Inr None
      | Inr True \<Rightarrow>
        (if coalesce (fault E 0) (fault E 1) \<noteq> None then Inr None
         else Inr (map_option (worker_record token) (worker_of token s))))"

text \<open>
  Text columns are ordered by the collation of the database; \<open>collate\<close> is its sort key.
\<close>

definition last_seen :: "worker_row \<Rightarrow> int" where
  "last_seen r = (case fw_last_heartbeat_at r of Some t \<Rightarrow> t | None \<Rightarrow> fw_updated_at r)"

definition in_fleet_scope :: "string \<Rightarrow> string \<Rightarrow> string \<Rightarrow> string \<Rightarrow> bool" where
  "in_fleet_scope tenant workspace t w = ((tenant = [] \<or> t = tenant) \<and> (workspace = [] \<or> w = workspace))"

definition list_fleet_workers ::
    "(string \<Rightarrow> string) \<Rightarrow> repo_env \<Rightarrow> string option \<Rightarrow> string option \<Rightarrow> fleet \<Rightarrow> pydict list res" where
  "list_fleet_workers collate E tenant_id workspace_id s =
     (case read_pool E ''list_fleet_workers'' of
        Inl e \<Rightarrow> Inl e
      | Inr False \<Rightarrow> Inr []
      | Inr True \<Rightarrow>
        (if coalesce (fault E 0) (fault E 1) \<noteq> None then Inr []
         else Inr (map (\<lambda>r. worker_record (strip (fw_worker_id r)) r)
           (order_desc last_seen (sort_key (\<lambda>r. collate (fw_worker_id r)) (filter (\<lambda>r.
              in_fleet_scope (opt_tok tenant_id) (opt_tok workspace_id) (fw_tenant_id r) (fw_workspace_id r)) (workers s)))))))"

subsection \<open>Queue partitions\<close>

record partition_args =
  pa_partition_id :: string
  pa_tenant_id :: string
  pa_workspace_id :: string
  pa_specialist_key :: string
  pa_pending_count :: int
  pa_claimed_count :: int
  pa_online_workers :: int
  pa_busy_workers :: int
  pa_idle_workers :: int
  pa_prewarmed_workers :: int
  pa_state :: string
  pa_retry_after_seconds :: int
  pa_payload :: pydict

definition partition_request :: "partition_args \<Rightarrow> store_request" where
  "partition_request a = (store_defaults ''upsert_fleet_queue_partition'')\<lparr>
     sr_workspace_id := Some (sor (strip (pa_workspace_id a)) ''default''),
     sr_tenant_id := Some (sor (strip (pa_tenant_id a)) ''default''),
     sr_status := Some (sor (lower (strip (pa_state a))) ''healthy''),
     sr_payload := Some (pa_payload a), sr_state_class := Some ''fleet_queue_partitions''\<rparr>"

definition partition_values :: "int \<Rightarrow> partition_args \<Rightarrow> partition_row" where
  "partition_values t a =
     \<lparr>fp_partition_id = strip (pa_partition_id a), fp_tenant_id = sor (strip (pa_tenant_id a)) ''default'',
      fp_workspace_id = sor (strip (pa_workspace_id a)) ''default'',
      fp_specialist_key = sor (strip (pa_specialist_key a)) ''workspace-default'',
      fp_pending_count = max 0 (pa_pending_count a), fp_claimed_count = max 0 (pa_claimed_count a),
      fp_online_workers = max 0 (pa_online_workers a), fp_busy_workers = max 0 (pa_busy_workers a),
      fp_idle_workers = max 0 (pa_idle_workers a), fp_prewarmed_workers = max 0 (pa_prewarmed_workers a),
      fp_state = sor (lower (strip (pa_state a))) ''healthy'',
      fp_retry_after_seconds = max 0 (pa_retry_after_seconds a), fp_payload = pa_payload a, fp_updated_at = t\<rparr>"

definition upsert_fleet_queue_partition :: "repo_env \<Rightarrow> partition_args \<Rightarrow> fleet \<Rightarrow> unit res \<times> fleet" where
  "upsert_fleet_queue_partition E a s =
     (let token = strip (pa_partition_id a) in
      if token = [] then (Inr (), s)
      else case enforce_runtime_state_store_decision E (partition_request a) of
        Inl e \<Rightarrow> (Inl e, s)
      | Inr _ \<Rightarrow>
        (case require_pool E ''upsert_fleet_queue_partition'' of
           Inl e \<Rightarrow> (Inl e, s)
         | Inr _ \<Rightarrow>
           (case coalesce (fault E 0) (fault E 1) of
              Some m \<Rightarrow> (Inl (PersistenceError (''Postgres upsert_fleet_queue_partition failed for '' @ token @ '': '' @ m)), s)
            | None \<Rightarrow> (Inr (), s\<lparr>partitions := put_row fp_partition_id (partition_values (now E) a) (partitions s)\<rparr>))))"

definition partition_record :: "partition_row \<Rightarrow> pydict" where
  "partition_record r = dmerge (fp_payload r)
     [(''partition_id'', PStr (strip (fp_partition_id r))),
      (''tenant_id'', PStr (sor (strip (fp_tenant_id r)) ''default'')),
      (''workspace_id'', PStr (sor (strip (fp_workspace_id r)) ''default'')),
      (''specialist_key'', PStr (sor (strip (fp_specialist_key r)) ''workspace-default'')),
      (''pending_count'', PInt (fp_pending_count r)), (''claimed_count'', PInt (fp_claimed_count r)),
      (''online_workers'', PInt (fp_online_workers r)), (''busy_workers'', PInt (fp_busy_workers r)),
      (''idle_workers'', PInt (fp_idle_workers r)), (''prewarmed_workers'', PInt (fp_prewarmed_workers r)),
      (''state'', PStr (sor (lower (strip (fp_state r))) ''healthy'')),
      (''retry_after_seconds'', PInt (fp_retry_after_seconds r)),
      (''updated_at'', when_text (Some (fp_updated_at r)))]"

definition list_fleet_queue_partitions ::
    "(string \<Rightarrow> string) \<Rightarrow> repo_env \<Rightarrow> string option \<Rightarrow> string option \<Rightarrow> fleet \<Rightarrow> pydict list res" where
  "list_fleet_queue_partitions collate E tenant_id workspace_id s =
     (case read_pool E ''list_fleet_queue_partitions'' of
        Inl e \<Rightarrow> Inl e
      | Inr False \<Rightarrow> Inr []
      | Inr True \<Rightarrow>
        (if coalesce (fault E 0) (fault E 1) \<noteq> None then Inr []
         else Inr (map partition_record (order_desc fp_updated_at (sort_key (\<lambda>r. collate (fp_partition_id r)) (filter (\<lambda>r.
              in_fleet_scope (opt_tok tenant_id) (opt_tok workspace_id) (fp_tenant_id r) (fp_workspace_id r)) (partitions s)))))))"

subsection \<open>The report on dead letters\<close>

text \<open>\<open>GROUP BY key ORDER BY count DESC, key ASC LIMIT 5\<close>.\<close>

definition hotspots :: "(string \<Rightarrow> string) \<Rightarrow> string list \<Rightarrow> (string \<times> int) list" where
  "hotspots collate keys = limit_rows 5 (order_desc snd (sort_key (\<lambda>h. collate (fst h))
     (map (\<lambda>k. (k, int (count_list keys k))) (remdups keys))))"

definition hotspot_items :: "string \<Rightarrow> string \<Rightarrow> (string \<times> int) list \<Rightarrow> pyval" where
  "hotspot_items name dflt hs =
     PList (map (\<lambda>(k, n). PDict [(name, PStr (sor (strip k) dflt)), (''count'', PInt n)]) hs)"

definition latest_of :: "int list \<Rightarrow> int option" where
  "latest_of ts = (if ts = [] then None else Some (Max (set ts)))"

definition dead_letter_report :: "int \<Rightarrow> int \<Rightarrow> int option \<Rightarrow> pyval \<Rightarrow> pyval \<Rightarrow> pydict" where
  "dead_letter_report n failures latest workspace_spots specialist_spots =
     [(''dead_letter_count'', PInt n), (''total_failure_count'', PInt failures), (''last_recorded_at'', when_text latest),
      (''workspace_hotspots'', workspace_spots), (''specialist_hotspots'', specialist_spots)]"

definition specialist_group :: "dead_letter_row \<Rightarrow> string" where
  "specialist_group r = (case dl_specialist_key r of None \<Rightarrow> ''workspace-default'' | Some k \<Rightarrow> sor k ''workspace-default'')"

definition get_local_queue_dead_letter_status :: "(string \<Rightarrow> string) \<Rightarrow> repo_env \<Rightarrow> local_queue \<Rightarrow> pydict res" where
  "get_local_queue_dead_letter_status collate E q =
     (let none = dead_letter_report 0 0 None (PList []) (PList []) in
      case read_pool E ''get_local_queue_dead_letter_status'' of
        Inl e \<Rightarrow> Inl e
      | Inr False \<Rightarrow> Inr none
      | Inr True \<Rightarrow>
        (if coalesce (fault E 0) (coalesce (fault E 1) (coalesce (fault E 2) (fault E 3))) \<noteq> None then Inr none
         else (let rows = dead_letters q in Inr (dead_letter_report (int (length rows))
           (sum_list (map dl_failure_count rows)) (latest_of (map dl_last_recorded_at rows))
           (hotspot_items ''workspace_id'' ''default'' (hotspots collate (map dl_workspace_id rows)))
           (hotspot_items ''specialist_key'' ''workspace-default'' (hotspots collate (map specialist_group rows)))))))"

subsection \<open>Histories\<close>

datatype fleet_op =
    OpWorker repo_env pydict bool
  | OpPartition repo_env partition_args

fun fleet_step :: "fleet_op \<Rightarrow> fleet \<Rightarrow> fleet" where
  "fleet_step (OpWorker E r seen) s = snd (upsert_fleet_worker E r seen s)"
| "fleet_step (OpPartition E a) s = snd (upsert_fleet_queue_partition E a s)"

lemmas worker_steps = upsert_fleet_worker_def Let_def

text \<open>What a registration does, on every branch.\<close>

definition registers :: "repo_env \<Rightarrow> pydict \<Rightarrow> bool \<Rightarrow> fleet \<Rightarrow> fleet \<Rightarrow> bool" where
  "registers E r seen s s' = (\<exists>w n. w = fleet_worker_id r \<and> w \<noteq> [] \<and>
     py_int (por (dget r ''lease_seconds'') (PInt 30)) = Inr n \<and> allowed E ''write_runtime_registration'' \<and>
     s' = s\<lparr>workers := put_row fw_worker_id (worker_values (now E) w (fleet_payload w r) n (worker_of w s) seen) (workers s)\<rparr>)"

lemma fleet_payload_other:
  "k \<notin> {''worker_id'', ''runtime_id'', ''machine_id'', ''tenant_id'', ''workspace_id'', ''queue_shard''}
   \<Longrightarrow> dget (fleet_payload w r) k = dget r k"
  by (auto simp: fleet_payload_def Let_def)

lemma upsert_worker_outcome: "upsert_fleet_worker E r seen s \<in> outcome s (\<lambda>_. \<lambda>s'. s' = s \<or> registers E r seen s s')"
  unfolding worker_steps
  by (intro branch)
    (auto simp: outcome_def registers_def fleet_payload_other next_action_tables fleet_request_def
       split: option.splits sum.splits intro!: store_allowed)

definition keeps_partitions :: "repo_env \<Rightarrow> partition_args \<Rightarrow> fleet \<Rightarrow> fleet \<Rightarrow> bool" where
  "keeps_partitions E a s s' = (allowed E ''write_fleet_queue_partition'' \<and>
     s' = s\<lparr>partitions := put_row fp_partition_id (partition_values (now E) a) (partitions s)\<rparr>)"

lemma upsert_partition_outcome:
  "upsert_fleet_queue_partition E a s \<in> outcome s (\<lambda>_. \<lambda>s'. s' = s \<or> keeps_partitions E a s s')"
  unfolding upsert_fleet_queue_partition_def Let_def
  by (intro branch)
    (auto simp: outcome_def keeps_partitions_def next_action_tables partition_request_def intro!: store_allowed)

lemma fleet_step_cases:
  "fleet_step op s = s \<or> (\<exists>E r seen. op = OpWorker E r seen \<and> registers E r seen s (fleet_step op s))
   \<or> (\<exists>E a. op = OpPartition E a \<and> keeps_partitions E a s (fleet_step op s))"
proof (cases op)
  case (OpWorker E r seen)
  then show ?thesis using outcome_state [OF upsert_worker_outcome [of E r seen s]] by auto
next
  case (OpPartition E a)
  then show ?thesis using outcome_state [OF upsert_partition_outcome [of E a s]] by auto
qed

text \<open>The moment a worker first registered is written once.\<close>

definition registered_since :: "fleet \<Rightarrow> string \<Rightarrow> int option" where
  "registered_since s w = map_option fw_registered_at (worker_of w s)"

lemma worker_values_simps [simp]:
  "fw_worker_id (worker_values t w p n old seen) = w" "fw_payload (worker_values t w p n old seen) = p"
  "fw_tenant_id (worker_values t w p n old seen) = py_str_of (dget p ''tenant_id'')"
  "fw_workspace_id (worker_values t w p n old seen) = py_str_of (dget p ''workspace_id'')"
  "fw_status (worker_values t w p n old seen) = text_or (dget p ''status'') ''idle''"
  "fw_current_run_id (worker_values t w p n old seen) = snone (tok (dget p ''current_run_id''))"
  "fw_registered_at (worker_values t w p n old seen) = (case old of None \<Rightarrow> t | Some r \<Rightarrow> fw_registered_at r)"
  "fw_lease_seconds (worker_values t w p n old seen) = max 1 n"
  "fw_last_heartbeat_at (worker_values t w p n old seen) =
     (if seen then Some t else case old of None \<Rightarrow> None | Some r \<Rightarrow> fw_last_heartbeat_at r)"
  by (simp_all add: worker_values_def)

interpretation registrations: write_once registered_since fleet_step
proof
  fix s :: fleet and k v op assume "registered_since s k = Some v"
  then show "registered_since (fleet_step op s) k = Some v"
    using fleet_step_cases [of op s]
    by (auto simp: registered_since_def worker_of_def registers_def keeps_partitions_def)
qed

lemma worker_record_fields:
  "dget (worker_record f r) ''worker_id'' = PStr (strip (fw_worker_id r))"
  "dget (worker_record f r) ''tenant_id'' = PStr (sor (strip (fw_tenant_id r)) ''default'')"
  "dget (worker_record f r) ''workspace_id'' = PStr (sor (strip (fw_workspace_id r)) ''default'')"
  "dget (worker_record f r) ''status'' = PStr (sor (strip (fw_status r)) ''idle'')"
  "dget (worker_record f r) ''queue_shard'' = opt_val (snone (strip (fw_shard_key r)))"
  "dget (worker_record f r) ''current_run_id'' = opt_val (snone (opt_tok (fw_current_run_id r)))"
  "dget (worker_record f r) ''lease_seconds'' = PInt (if fw_lease_seconds r = 0 then 30 else fw_lease_seconds r)"
  "dget (worker_record f r) ''registered_at'' = when_text (Some (fw_registered_at r))"
  "dget (worker_record f r) ''last_heartbeat_at'' = when_text (fw_last_heartbeat_at r)"
  by (simp_all add: worker_record_def)

lemma fleet_payload_fields [simp]:
  "dget (fleet_payload w r) ''tenant_id'' = PStr (text_or (dget r ''tenant_id'') ''default'')"
  "dget (fleet_payload w r) ''workspace_id'' = PStr (text_or (dget r ''workspace_id'') ''default'')"
  by (simp_all add: fleet_payload_def Let_def)

lemma fleet_words [simp]: "strip ''default'' = ''default''" "strip ''idle'' = ''idle''"
  by (simp_all add: strip_def py_space_def)

lemma strip_fleet_worker_id [simp]: "strip (fleet_worker_id r) = fleet_worker_id r"
  by (simp add: fleet_worker_id_def)

lemma opt_tok_snone_tok [simp]: "opt_tok (snone (tok v)) = tok v"
  by (simp add: snone_def)

definition worker_columns :: "string list" where
  "worker_columns = [''worker_id'', ''runtime_id'', ''tenant_id'', ''workspace_id'', ''machine_id'', ''runtime_type'', ''status'',
     ''control_state'', ''current_run_id'', ''instance_id'', ''queue_shard'', ''prewarm_state'', ''warm_pool'', ''lease_seconds'',
     ''registered_at'', ''last_registered_at'', ''last_heartbeat_at'', ''updated_at'']"

lemma dget_dmerge_other: "k \<notin> set (map fst b) \<Longrightarrow> dget (dmerge a b) k = dget a k"
  by (induction a b rule: dmerge.induct) auto

lemma worker_record_other: "k \<notin> set worker_columns \<Longrightarrow> dget (worker_record f r) k = dget (fw_payload r) k"
  unfolding worker_record_def by (rule dget_dmerge_other) (simp only: worker_columns_def list.map fst_conv not_False_eq_True)

theorem fleet_worker_round_trip:
  assumes "upsert_fleet_worker E r seen s = (Inr (), s')" and "fleet_worker_id r \<noteq> []" and "db_ok E'"
  shows "\<exists>item n. get_fleet_worker E' (fleet_worker_id r) s' = Inr (Some item)
    \<and> py_int (por (dget r ''lease_seconds'') (PInt 30)) = Inr n
    \<and> dget item ''worker_id'' = PStr (fleet_worker_id r)
    \<and> dget item ''tenant_id'' = PStr (text_or (dget r ''tenant_id'') ''default'')
    \<and> dget item ''workspace_id'' = PStr (text_or (dget r ''workspace_id'') ''default'')
    \<and> dget item ''status'' = PStr (text_or (dget r ''status'') ''idle'')
    \<and> dget item ''current_run_id'' = opt_val (snone (tok (dget r ''current_run_id'')))
    \<and> dget item ''lease_seconds'' = PInt (max 1 n)
    \<and> dget item ''registered_at'' = when_text (Some (case registered_since s (fleet_worker_id r) of None \<Rightarrow> now E | Some t \<Rightarrow> t))
    \<and> (seen \<longrightarrow> dget item ''last_heartbeat_at'' = when_text (Some (now E)))
    \<and> (\<forall>k. k \<notin> set worker_columns \<longrightarrow> dget item k = dget r k)"
proof -
  let ?w = "fleet_worker_id r"
  obtain n where n: "py_int (por (dget r ''lease_seconds'') (PInt 30)) = Inr n"
    and s': "worker_of ?w s' = Some (worker_values (now E) ?w (fleet_payload ?w r) n (worker_of ?w s) seen)"
    using assms(1,2)
    by (auto simp: worker_steps worker_of_def fleet_payload_other split: option.splits sum.splits if_splits)
  define row where "row = worker_values (now E) ?w (fleet_payload ?w r) n (worker_of ?w s) seen"
  have get: "get_fleet_worker E' ?w s' = Inr (Some (worker_record ?w row))"
    using assms(2,3) s' by (simp add: get_fleet_worker_def row_def Let_def)
  have other: "dget (worker_record ?w row) k = dget r k" if "k \<notin> set worker_columns" for k
    using that by (subst worker_record_other) (auto simp: row_def worker_columns_def fleet_payload_other)
  have columns: "fw_worker_id row = ?w" "fw_tenant_id row = text_or (dget r ''tenant_id'') ''default''"
    "fw_workspace_id row = text_or (dget r ''workspace_id'') ''default''" "fw_status row = text_or (dget r ''status'') ''idle''"
    "fw_current_run_id row = snone (tok (dget r ''current_run_id''))" "fw_lease_seconds row = max 1 n"
    "fw_registered_at row = (case registered_since s ?w of None \<Rightarrow> now E | Some t \<Rightarrow> t)"
    "seen \<longrightarrow> fw_last_heartbeat_at row = Some (now E)"
    by (simp_all add: row_def fleet_payload_other registered_since_def split: option.split)
  show ?thesis
    by (rule exI [of _ "worker_record ?w row"], rule exI [of _ n])
      (use columns in \<open>simp add: get n other worker_record_fields\<close>)
qed

definition empty_fleet :: fleet where
  "empty_fleet = \<lparr>workers = [], partitions = []\<rparr>"

lemma upsert_worker_open:
  assumes "db_ok E" and "store_gate E (fleet_request (fleet_worker_id r) (fleet_payload (fleet_worker_id r) r))"
    and "py_int (por (dget r ''lease_seconds'') (PInt 30)) = Inr n"
  shows "fst (upsert_fleet_worker E r seen s) = Inr ()"
  using assms by (auto simp: worker_steps store_gate_def fleet_payload_other)

theorem fleet_worker_round_trip_witness:
  "\<exists>item. get_fleet_worker (allow_env 5) ''w1'' (snd (upsert_fleet_worker (allow_env 0) [(''worker_id'', PStr ''w1'')] True empty_fleet))
     = Inr (Some item) \<and> dget item ''worker_id'' = PStr ''w1''"
proof -
  let ?r = "[(''worker_id'', PStr ''w1'')]"
  have w: "fleet_worker_id ?r = ''w1''" by (simp add: fleet_worker_id_def por_def strip_def py_space_def)
  have "fst (upsert_fleet_worker (allow_env 0) ?r True empty_fleet) = Inr ()"
    by (rule upsert_worker_open [where n = 30]) (auto simp: por_def fleet_request_def intro!: allow_store)
  then have "upsert_fleet_worker (allow_env 0) ?r True empty_fleet = (Inr (), snd (upsert_fleet_worker (allow_env 0) ?r True empty_fleet))"
    by (metis prod.collapse)
  from fleet_worker_round_trip [OF this, of "allow_env 5"] show ?thesis unfolding w by auto
qed

subsection \<open>The hotspots are the fullest groups\<close>

definition groups :: "string list \<Rightarrow> (string \<times> int) list" where
  "groups ks = map (\<lambda>k. (k, int (count_list ks k))) (remdups ks)"

lemma groups_facts:
  "set (groups ks) = (\<lambda>k. (k, int (count_list ks k))) ` set ks" "distinct (map fst (groups ks))"
  "length (groups ks) = card (set ks)"
  by (simp_all add: groups_def comp_def length_remdups_card_conv)

lemma hotspots_facts:
  fixes ks collate
  defines "hs \<equiv> hotspots collate ks"
  shows "distinct (map fst hs)" and "length hs = min 5 (card (set ks))"
    and "(k, n) \<in> set hs \<Longrightarrow> n = int (count_list ks k) \<and> k \<in> set ks"
    and "(k, n) \<in> set hs \<Longrightarrow> k' \<in> set ks \<Longrightarrow> k' \<notin> fst ` set hs \<Longrightarrow> int (count_list ks k') \<le> n"
proof -
  define ranked where "ranked = order_desc snd (sort_key (\<lambda>h. collate (fst h)) (groups ks))"
  have hs: "hs = take 5 ranked"
    by (simp add: hs_def hotspots_def limit_rows_def ranked_def groups_def)
  have sets: "set ranked = set (groups ks)" and len: "length ranked = length (groups ks)"
    and srt: "sorted (map (\<lambda>h. - snd h) ranked)"
    by (simp_all add: ranked_def order_desc_def)
  have "distinct ranked" using groups_facts(2) [of ks] by (simp add: ranked_def order_desc_def distinct_map)
  then have dist: "distinct (map fst ranked)" using groups_facts(2) [of ks] sets by (simp add: distinct_map)
  then show "distinct (map fst hs)" by (simp add: hs take_map [symmetric])
  show "length hs = min 5 (card (set ks))" by (simp add: hs len groups_facts)
  show *: "n = int (count_list ks k) \<and> k \<in> set ks" if "(k, n) \<in> set hs" for k n
    using that set_take_subset [of 5 ranked] by (auto simp: hs sets groups_facts)
  show "int (count_list ks k') \<le> n" if m: "(k, n) \<in> set hs" "k' \<in> set ks" "k' \<notin> fst ` set hs"
  proof -
    let ?h = "(k', int (count_list ks k'))"
    have "?h \<in> set ranked" "?h \<notin> set (take 5 ranked)"
      using m(2,3) by (auto simp: sets groups_facts hs image_iff)
    with take_sorted_le [OF srt, of "(k, n)" 5 ?h] m(1) show ?thesis by (simp add: hs)
  qed
qed

lemma count_group: "count_list (map f rows) k = length (filter (\<lambda>r. f r = k) rows)"
  by (induction rows) auto

theorem dead_letter_hotspots:
  assumes "db_ok E"
  shows "\<exists>report spots. get_local_queue_dead_letter_status collate E q = Inr report
    \<and> dget report ''dead_letter_count'' = PInt (int (length (dead_letters q)))
    \<and> dget report ''workspace_hotspots'' = hotspot_items ''workspace_id'' ''default'' spots
    \<and> distinct (map fst spots) \<and> length spots = min 5 (card (dl_workspace_id ` set (dead_letters q)))
    \<and> (\<forall>(w, n) \<in> set spots. n = int (length (filter (\<lambda>r. dl_workspace_id r = w) (dead_letters q)))
      \<and> (\<forall>r \<in> set (dead_letters q). dl_workspace_id r \<notin> fst ` set spots \<longrightarrow>
           int (length (filter (\<lambda>r'. dl_workspace_id r' = dl_workspace_id r) (dead_letters q))) \<le> n))"
proof -
  define spots where "spots = hotspots collate (map dl_workspace_id (dead_letters q))"
  note facts = hotspots_facts [where collate = collate and ks = "map dl_workspace_id (dead_letters q)", folded spots_def, unfolded count_group]
  show ?thesis
    by (rule exI, rule exI [of _ spots])
      (use assms facts in \<open>auto simp: get_local_queue_dead_letter_status_def dead_letter_report_def spots_def [symmetric] Let_def\<close>)
qed

theorem dead_letter_hotspots_witness:
  "\<exists>report. get_local_queue_dead_letter_status id (allow_env 0) \<lparr>claims = [], dead_letters = []\<rparr> = Inr report
    \<and> dget report ''dead_letter_count'' = PInt 0"
  using dead_letter_hotspots [of "allow_env 0" id "\<lparr>claims = [], dead_letters = []\<rparr>"] by auto

end
