(* ===== verification/Sync_Facade.thy ===== *)
theory Sync_Facade
  imports Queue_Claims Approvals Outbox Fleet
begin

text \<open>
  The synchronous facade of the repository: every \<open>sync_*\<close> function of
  \<open>run_state_repository.py\<close> hands its operation to the dispatch loop (\<open>_run_sync\<close>) and decides
  what an error means. A write always raises; a read raises only when the durable runtime is
  required (\<open>_sync_raise_on_read_failure\<close>) and returns its fallback otherwise. The threads of
  the dispatch loop are outside the model; \<open>dispatch E\<close> is the error of a failed hand-over,
  after which the operation has not run.
\<close>

definition sync_raise_on_read_failure :: "repo_env \<Rightarrow> bool" where
  "sync_raise_on_read_failure E = durable E"

definition run_sync :: "repo_env \<Rightarrow> ('s \<Rightarrow> 'a res \<times> 's) \<Rightarrow> 'a \<Rightarrow> bool \<Rightarrow> 's \<Rightarrow> 'a res \<times> 's" where
  "run_sync E operation fallback raise_on_error s =
     (case (case dispatch E of Some e \<Rightarrow> (Inl e, s) | None \<Rightarrow> operation s) of
        (Inr v, s') \<Rightarrow> (Inr v, s')
      | (Inl e, s') \<Rightarrow> if raise_on_error then (Inl e, s') else (Inr fallback, s'))"

text \<open>An operation that only reads.\<close>

definition reading :: "('s \<Rightarrow> 'a res) \<Rightarrow> 's \<Rightarrow> 'a res \<times> 's" where
  "reading query s = (query s, s)"

subsection \<open>Runs\<close>

text \<open>The fallback \<open>{}\<close> of the initial creation is never returned; the model's value stands for it.\<close>

definition sync_upsert_live_run where
  "sync_upsert_live_run E run_id workspace_id tenant_id state payload trace_id =
     run_sync E (upsert_live_run E run_id workspace_id tenant_id state payload trace_id) () True"

definition sync_create_live_run_initial where
  "sync_create_live_run_initial E run_id workspace_id tenant_id state payload trace_id =
     run_sync E (create_live_run_initial E run_id workspace_id tenant_id state payload trace_id) (0, None) True"

definition sync_update_live_run_if_version_matches where
  "sync_update_live_run_if_version_matches E run_id workspace_id tenant_id state payload trace_id expected_version =
     run_sync E (update_live_run_if_version_matches E run_id workspace_id tenant_id state payload trace_id expected_version) None True"

definition sync_delete_live_run where
  "sync_delete_live_run E run_id = run_sync E (delete_live_run E run_id) () True"

definition sync_archive_run where
  "sync_archive_run E run_id final_state payload trace_id =
     run_sync E (archive_run E run_id final_state payload trace_id) () True"

definition sync_record_transition where
  "sync_record_transition E run_id from_state to_state actor trace_id =
     run_sync E (record_transition E run_id from_state to_state actor trace_id) () True"

definition sync_list_live_runs where
  "sync_list_live_runs E = run_sync E (reading (list_live_runs E)) [] (sync_raise_on_read_failure E)"

definition sync_list_live_runs_page where
  "sync_list_live_runs_page E limit offset workspace_id states =
     run_sync E (reading (list_live_runs_page E limit offset workspace_id states)) [] (sync_raise_on_read_failure E)"

definition sync_count_live_runs where
  "sync_count_live_runs E workspace_id states =
     run_sync E (reading (count_live_runs E workspace_id states)) 0 (sync_raise_on_read_failure E)"

definition sync_count_hosted_live_runs where
  "sync_count_hosted_live_runs E workspace_id terminal_states =
     run_sync E (reading (count_hosted_live_runs E workspace_id terminal_states)) 0 (sync_raise_on_read_failure E)"

definition sync_get_live_run where
  "sync_get_live_run E run_id = run_sync E (reading (get_live_run E run_id)) None (sync_raise_on_read_failure E)"

definition sync_get_archived_run where
  "sync_get_archived_run E run_id = run_sync E (reading (get_archived_run E run_id)) None (sync_raise_on_read_failure E)"

definition sync_list_live_runs_by_state where
  "sync_list_live_runs_by_state E states =
     run_sync E (reading (list_live_runs_by_state E states)) [] (sync_raise_on_read_failure E)"

definition sync_list_run_archive where
  "sync_list_run_archive E limit = run_sync E (reading (list_run_archive E limit)) [] (sync_raise_on_read_failure E)"

definition sync_find_live_run_by_approval_id where
  "sync_find_live_run_by_approval_id E approval_id =
     run_sync E (reading (find_live_run_by_approval_id E approval_id)) None (sync_raise_on_read_failure E)"

subsection \<open>Approvals\<close>

definition sync_create_or_update_approval_request where
  "sync_create_or_update_approval_request ts E run_id approval_id request_payload actor trace_id metadata expires_at =
     run_sync E (create_or_update_approval_request ts E run_id approval_id request_payload actor trace_id metadata expires_at) [] True"

definition sync_list_pending_approvals where
  "sync_list_pending_approvals E limit =
     run_sync E (list_pending_approvals E limit) [] (sync_raise_on_read_failure E)"

definition sync_list_pending_approvals_page where
  "sync_list_pending_approvals_page E limit offset workspace_id =
     run_sync E (list_pending_approvals_page E limit offset workspace_id) [] (sync_raise_on_read_failure E)"

definition sync_get_approval_record where
  "sync_get_approval_record E approval_id =
     run_sync E (get_approval_record E approval_id) None (sync_raise_on_read_failure E)"

definition sync_find_run_snapshot_for_approval_id where
  "sync_find_run_snapshot_for_approval_id E approval_id runs =
     run_sync E (find_run_snapshot_for_approval_id E approval_id runs) None (sync_raise_on_read_failure E)"

definition sync_resolve_approval_if_pending where
  "sync_resolve_approval_if_pending E run_id approval_id resolution actor trace_id note decision_payload =
     run_sync E (resolve_approval_if_pending E run_id approval_id resolution actor trace_id note decision_payload) None True"

definition sync_record_approval_resolution where
  "sync_record_approval_resolution E run_id approval_id resolution actor trace_id note =
     run_sync E (record_approval_resolution E run_id approval_id resolution actor trace_id note) None True"

subsection \<open>Outbox\<close>

definition sync_persist_outbox_event where
  "sync_persist_outbox_event E event_id event_type tenant_id workspace_id run_id machine_id trace_id idempotency_key payload =
     run_sync E (persist_outbox_event E event_id event_type tenant_id workspace_id run_id machine_id trace_id idempotency_key payload) () True"

definition sync_list_undelivered_outbox_events where
  "sync_list_undelivered_outbox_events E older_than limit tenant_id workspace_id run_id event_type =
     run_sync E (reading (list_undelivered_outbox_events E older_than limit tenant_id workspace_id run_id event_type)) []
       (sync_raise_on_read_failure E)"

definition sync_claim_due_outbox_events where
  "sync_claim_due_outbox_events nonce E older_than limit claimed_by ttl tenant_id workspace_id run_id event_type =
     run_sync E (claim_due_outbox_events nonce E older_than limit claimed_by ttl tenant_id workspace_id run_id event_type) []
       (sync_raise_on_read_failure E)"

definition sync_mark_outbox_event_delivered where
  "sync_mark_outbox_event_delivered E event_id claim_token =
     run_sync E (mark_outbox_event_delivered E event_id claim_token) False True"

definition sync_patch_outbox_event_payload where
  "sync_patch_outbox_event_payload E event_id patch = run_sync E (patch_outbox_event_payload E event_id patch) () True"

definition sync_record_outbox_delivery_failure where
  "sync_record_outbox_delivery_failure E event_id claim_token error_text retry_delay poison increment =
     run_sync E (record_outbox_delivery_failure E event_id claim_token error_text retry_delay poison increment) False True"

definition sync_list_poisoned_outbox_events where
  "sync_list_poisoned_outbox_events E limit =
     run_sync E (reading (list_poisoned_outbox_events E limit)) [] (sync_raise_on_read_failure E)"

definition no_outbox_status :: outbox_status where
  "no_outbox_status = \<lparr>undelivered_count = 0, poisoned_count = 0, claimed_count = 0, repeated_failure_count = 0,
     stuck_count = 0, total_retry_count = 0, max_retry_count = 0, last_error = None\<rparr>"

definition sync_get_outbox_delivery_status where
  "sync_get_outbox_delivery_status E =
     run_sync E (reading (get_outbox_delivery_status E)) no_outbox_status (sync_raise_on_read_failure E)"

subsection \<open>Queue claims\<close>

definition sync_list_expired_local_claims where
  "sync_list_expired_local_claims E run_payload =
     run_sync E (reading (list_expired_local_claims E run_payload)) [] (sync_raise_on_read_failure E)"

definition sync_release_claim where
  "sync_release_claim E run_id lease_id = run_sync E (release_claim E run_id lease_id) False True"

definition sync_touch_claim_heartbeat where
  "sync_touch_claim_heartbeat E run_id worker_id lease_id note progress =
     run_sync E (touch_claim_heartbeat E run_id worker_id lease_id note progress) False True"

definition sync_append_local_queue_dead_letter where
  "sync_append_local_queue_dead_letter E run_id tenant_id workspace_id specialist_key reason trace_id failure_count payload =
     run_sync E (append_local_queue_dead_letter E run_id tenant_id workspace_id specialist_key reason trace_id failure_count payload) () True"

text \<open>The fallback of the report is the report on an empty table.\<close>

definition sync_get_local_queue_dead_letter_status where
  "sync_get_local_queue_dead_letter_status collate E =
     run_sync E (reading (get_local_queue_dead_letter_status collate E)) (dead_letter_report 0 0 None (PList []) (PList []))
       (sync_raise_on_read_failure E)"

subsection \<open>Workers and partitions\<close>

definition sync_upsert_fleet_worker where
  "sync_upsert_fleet_worker E r heartbeat_seen = run_sync E (upsert_fleet_worker E r heartbeat_seen) () True"

definition sync_get_fleet_worker where
  "sync_get_fleet_worker E worker_id = run_sync E (reading (get_fleet_worker E worker_id)) None (sync_raise_on_read_failure E)"

definition sync_list_fleet_workers where
  "sync_list_fleet_workers collate E tenant_id workspace_id =
     run_sync E (reading (list_fleet_workers collate E tenant_id workspace_id)) [] (sync_raise_on_read_failure E)"

definition sync_upsert_fleet_queue_partition where
  "sync_upsert_fleet_queue_partition E a = run_sync E (upsert_fleet_queue_partition E a) () True"

definition sync_list_fleet_queue_partitions where
  "sync_list_fleet_queue_partitions collate E tenant_id workspace_id =
     run_sync E (reading (list_fleet_queue_partitions collate E tenant_id workspace_id)) [] (sync_raise_on_read_failure E)"

subsection \<open>What the facade promises\<close>

lemma run_sync_no_dispatch:
  "dispatch E = None \<Longrightarrow> run_sync E operation fallback True s = operation s"
  by (auto simp: run_sync_def split: prod.splits sum.splits)

lemma run_sync_state:
  "snd (run_sync E operation fallback raise s) = (if dispatch E = None then snd (operation s) else s)"
  by (auto simp: run_sync_def split: prod.splits sum.splits option.splits)

lemma run_sync_lenient: "\<exists>v. fst (run_sync E operation fallback False s) = Inr v"
  by (auto simp: run_sync_def split: prod.splits sum.splits)

lemma run_sync_Inr:
  "run_sync E operation fallback True s = (Inr v, s') \<Longrightarrow> dispatch E = None \<and> operation s = (Inr v, s')"
  by (auto simp: run_sync_def split: prod.splits sum.splits option.splits)

end
