(* ===== verification/Outbox_Delivery.thy ===== *)
theory Outbox_Delivery
  imports Sync_Facade
begin

text \<open>
  One pass of outbox delivery (\<open>outbox_service.py\<close>: \<open>deliver_due_outbox_events_once\<close>): claim the
  due events, hand each to the delivery sink, and settle it as delivered, deferred, failed with
  a backoff, or poisoned. The sink, a function of other modules, is the parameter \<open>sink\<close>. Each
  event is settled in an environment of its own, \<open>env (Suc i)\<close> for the \<open>i\<close>-th item, so time may
  pass, the kernel change its answers and the database fail between the steps.
\<close>

subsection \<open>Events\<close>

definition outbox_delivery_retry_backoff_seconds :: "int list" where
  "outbox_delivery_retry_backoff_seconds = [5, 15, 30, 60, 120]"

definition outbox_max_delivery_attempts :: int where
  "outbox_max_delivery_attempts = int (length outbox_delivery_retry_backoff_seconds)"

record outbox_event =
  oe_event_id :: string
  oe_event_type :: string
  oe_tenant_id :: string
  oe_workspace_id :: string
  oe_run_id :: "string option"
  oe_machine_id :: "string option"
  oe_trace_id :: string
  oe_idempotency_key :: string
  oe_payload :: pydict
  oe_created_at :: "string option"
  oe_retry_count :: int
  oe_last_delivery_error :: "string option"
  oe_last_attempted_at :: "string option"
  oe_next_attempt_at :: "string option"
  oe_poisoned_at :: "string option"
  oe_claim_token :: "string option"
  oe_claimed_by :: "string option"
  oe_claimed_at :: "string option"
  oe_claim_expires_at :: "string option"

definition scope_token :: "pyval \<Rightarrow> string" where
  "scope_token v = sor (tok v) ''default''"

definition outbox_event_from_item :: "pydict \<Rightarrow> outbox_event option res" where
  "outbox_event_from_item item =
     (let event_id = tok (dget item ''event_id''); text = (\<lambda>k. snone (tok (dget item k))) in
      if event_id = [] then Inr None
      else case py_int (por (dget item ''retry_count'') (PInt 0)) of
        Inl e \<Rightarrow> Inl e
      | Inr retries \<Rightarrow> Inr (Some
         \<lparr>oe_event_id = event_id, oe_event_type = sor (tok (dget item ''event_type'')) ''runtime_event'',
          oe_tenant_id = scope_token (dget item ''tenant_id''), oe_workspace_id = scope_token (dget item ''workspace_id''),
          oe_run_id = text ''run_id'', oe_machine_id = text ''machine_id'',
          oe_trace_id = tok (dget item ''trace_id''), oe_idempotency_key = tok (dget item ''idempotency_key''),
          oe_payload = dict_of (dget item ''payload''), oe_created_at = text ''created_at'', oe_retry_count = retries,
          oe_last_delivery_error = text ''last_delivery_error'', oe_last_attempted_at = text ''last_attempted_at'',
          oe_next_attempt_at = text ''next_attempt_at'', oe_poisoned_at = text ''poisoned_at'',
          oe_claim_token = text ''claim_token'', oe_claimed_by = text ''claimed_by'',
          oe_claimed_at = text ''claimed_at'', oe_claim_expires_at = text ''claim_expires_at''\<rparr>))"

text \<open>
  What the sink does with an event: it returns true or false, raises \<open>OutboxRetryLater\<close> with a
  message and a delay, or raises another exception with a message.
\<close>

datatype delivery = Accepted | Refused | RetryLater string int | Crashed string

text \<open>The service asks the kernel again, with the same request, before it calls the repository.\<close>

definition enforce_outbox_service_decision :: "repo_env \<Rightarrow> outbox_request \<Rightarrow> pydict res" where
  "enforce_outbox_service_decision E r =
     (case run_runtime_kernel_enforced E ''outbox-delivery-decision'' (outbox_kernel_request r) of
        Inl e \<Rightarrow> Inl e
      | Inr decision \<Rightarrow>
        (let next_action = tok (dget decision ''next_action'') in
         case outbox_delivery_next_actions (strip (or_operation r)) of
           Some expected \<Rightarrow> if next_action \<notin> set expected
             then Inl (RuntimeError (''unexpected next_action: '' @ sor next_action ''missing'')) else Inr decision
         | None \<Rightarrow> Inr decision))"

definition delivery_retry_delay_for_attempt :: "int \<Rightarrow> int option" where
  "delivery_retry_delay_for_attempt n =
     (if outbox_max_delivery_attempts \<le> n then None
      else Some (outbox_delivery_retry_backoff_seconds ! nat (max 0 (n - 1))))"

subsection \<open>A pass\<close>

record delivery_report =
  attempted :: int
  delivered_ids :: "string list"
  failed_ids :: "string list"
  deferred_ids :: "string list"
  poisoned_ids :: "string list"
  delivery_status :: outbox_status

record tally =
  t_delivered :: "string list"
  t_failed :: "string list"
  t_deferred :: "string list"
  t_poisoned :: "string list"

definition event_request :: "string \<Rightarrow> outbox_event \<Rightarrow> string \<Rightarrow> outbox_request" where
  "event_request operation ev claim = (outbox_defaults operation)\<lparr>or_event_id := Some (oe_event_id ev),
     or_event_type := Some (oe_event_type ev), or_tenant_id := Some (oe_tenant_id ev),
     or_workspace_id := Some (oe_workspace_id ev), or_run_id := oe_run_id ev, or_machine_id := oe_machine_id ev,
     or_claim_token := Some claim\<rparr>"

text \<open>Both calls are in a \<open>try\<close> whose handler only logs.\<close>

definition settle_failure ::
    "repo_env \<Rightarrow> outbox_event \<Rightarrow> string \<Rightarrow> string \<Rightarrow> int option \<Rightarrow> bool \<Rightarrow> bool \<Rightarrow> outbox \<Rightarrow> outbox" where
  "settle_failure E ev claim message delay poison increment s =
     (case enforce_outbox_service_decision E ((event_request ''record_failure'' ev claim)\<lparr>
          or_retry_count := Some (oe_retry_count ev), or_retry_delay_seconds := delay, or_poison := poison,
          or_error_text := Some message\<rparr>) of
        Inl _ \<Rightarrow> s
      | Inr _ \<Rightarrow> snd (sync_record_outbox_delivery_failure E (oe_event_id ev) claim message delay poison increment s))"

definition settle_delivered :: "repo_env \<Rightarrow> outbox_event \<Rightarrow> string \<Rightarrow> outbox \<Rightarrow> bool res \<times> outbox" where
  "settle_delivered E ev claim s =
     (case enforce_outbox_service_decision E (event_request ''mark_delivered'' ev claim) of
        Inl e \<Rightarrow> (Inl e, s)
      | Inr _ \<Rightarrow> sync_mark_outbox_event_delivered E (oe_event_id ev) claim s)"

definition retry_message :: "string \<Rightarrow> string \<Rightarrow> string" where
  "retry_message m dflt = sor (strip m) dflt"

definition failing :: "repo_env \<Rightarrow> outbox_event \<Rightarrow> string \<Rightarrow> string \<Rightarrow> outbox \<Rightarrow> tally \<Rightarrow> outbox \<times> tally" where
  "failing E ev claim message s t =
     (let delay = delivery_retry_delay_for_attempt (oe_retry_count ev + 1); poison = (delay = None)
      in (settle_failure E ev claim (retry_message message ''delivery failed'') delay poison True s,
          t\<lparr>t_failed := t_failed t @ [oe_event_id ev],
            t_poisoned := t_poisoned t @ (if poison then [oe_event_id ev] else [])\<rparr>))"

definition attempt_event ::
    "(outbox_event \<Rightarrow> delivery) \<Rightarrow> repo_env \<Rightarrow> outbox_event \<Rightarrow> string \<Rightarrow> outbox \<Rightarrow> tally \<Rightarrow> outbox \<times> tally" where
  "attempt_event sink E ev claim s t =
     (case sink ev of
        RetryLater message seconds \<Rightarrow>
          (settle_failure E ev claim (retry_message message ''retry later'') (Some (max 1 seconds)) False False s,
           t\<lparr>t_deferred := t_deferred t @ [oe_event_id ev]\<rparr>)
      | Crashed message \<Rightarrow> failing E ev claim message s t
      | Refused \<Rightarrow> failing E ev claim ''delivery sink returned false'' s t
      | Accepted \<Rightarrow>
          (case settle_delivered E ev claim s of
             (Inr True, s') \<Rightarrow> (s', t\<lparr>t_delivered := t_delivered t @ [oe_event_id ev]\<rparr>)
           | (_, s') \<Rightarrow> (s', t)))"

definition deliver_event :: "(outbox_event \<Rightarrow> delivery) \<Rightarrow> repo_env \<Rightarrow> outbox_event \<Rightarrow> outbox \<Rightarrow> tally \<Rightarrow> outbox \<times> tally" where
  "deliver_event sink E ev s t =
     (case oe_claim_token ev of
        None \<Rightarrow> (s, t)
      | Some token \<Rightarrow> let claim = strip token in if claim = [] then (s, t) else attempt_event sink E ev claim s t)"

text \<open>The loop; an item whose retry count is no number raises out of the pass.\<close>

fun deliver_items ::
    "(outbox_event \<Rightarrow> delivery) \<Rightarrow> (nat \<Rightarrow> repo_env) \<Rightarrow> nat \<Rightarrow> pydict list \<Rightarrow> outbox \<Rightarrow> tally \<Rightarrow> tally res \<times> outbox" where
  "deliver_items sink env i [] s t = (Inr t, s)"
| "deliver_items sink env i (item # items) s t =
     (case outbox_event_from_item item of
        Inl e \<Rightarrow> (Inl e, s)
      | Inr None \<Rightarrow> deliver_items sink env (Suc i) items s t
      | Inr (Some ev) \<Rightarrow>
        (case deliver_event sink (env i) ev s t of (s', t') \<Rightarrow> deliver_items sink env (Suc i) items s' t'))"

text \<open>The default worker name holds the process id and the thread id, which are parameters.\<close>

definition default_outbox_claimed_by :: "int \<times> int \<Rightarrow> string" where
  "default_outbox_claimed_by ids = ''outbox-delivery:'' @ py_int_str (fst ids) @ '':'' @ py_int_str (snd ids)"

definition deliver_due_outbox_events_once ::
    "int \<times> int \<Rightarrow> (string \<Rightarrow> string) \<Rightarrow> (outbox_event \<Rightarrow> delivery) \<Rightarrow> (nat \<Rightarrow> repo_env) \<Rightarrow> int \<Rightarrow> int
     \<Rightarrow> string option \<Rightarrow> string option \<Rightarrow> string option \<Rightarrow> string option \<Rightarrow> string option \<Rightarrow> int \<Rightarrow> outbox
     \<Rightarrow> delivery_report res \<times> outbox" where
  "deliver_due_outbox_events_once ids nonce sink env older_than limit tenant workspace run event_type claimed_by ttl s =
     (let E = env 0; who = sor (opt_tok claimed_by) (default_outbox_claimed_by ids); older = max 0 older_than; lim = max 1 limit; life = max 1 ttl in
      case enforce_outbox_service_decision E ((outbox_defaults ''claim_due'')\<lparr>or_tenant_id := filter_arg tenant,
          or_workspace_id := filter_arg workspace, or_run_id := filter_arg run, or_event_type := filter_arg event_type,
          or_claimed_by := Some who, or_claim_ttl_seconds := Some life, or_limit := Some lim\<rparr>) of
        Inl e \<Rightarrow> (Inl e, s)
      | Inr _ \<Rightarrow>
       (case sync_claim_due_outbox_events nonce E older lim who life (filter_arg tenant) (filter_arg workspace)
            (filter_arg run) (filter_arg event_type) s of
          (Inl e, s1) \<Rightarrow> (Inl e, s1)
        | (Inr items, s1) \<Rightarrow>
          (case deliver_items sink env 1 items s1 \<lparr>t_delivered = [], t_failed = [], t_deferred = [], t_poisoned = []\<rparr> of
             (Inl e, s2) \<Rightarrow> (Inl e, s2)
           | (Inr t, s2) \<Rightarrow>
             (case sync_get_outbox_delivery_status (env (Suc (length items))) s2 of
                (Inl e, s3) \<Rightarrow> (Inl e, s3)
              | (Inr status, s3) \<Rightarrow> (Inr
                 \<lparr>attempted = int (length (t_delivered t) + length (t_failed t) + length (t_deferred t)),
                  delivered_ids = t_delivered t, failed_ids = t_failed t, deferred_ids = t_deferred t,
                  poisoned_ids = t_poisoned t, delivery_status = status\<rparr>, s3)))))"

definition replay_undelivered_events_on_startup where
  "replay_undelivered_events_on_startup ids nonce sink env older_than limit claimed_by ttl s =
     (case deliver_due_outbox_events_once ids nonce sink env (max 0 older_than) (max 1 limit) None None None None claimed_by ttl s of
        (Inl e, s') \<Rightarrow> (Inl e, s')
      | (Inr report, s') \<Rightarrow> (Inr (delivered_ids report), s'))"

subsection \<open>What a pass does\<close>

lemma mark_delivers:
  assumes "mark_outbox_event_delivered E ev claim s = (Inr True, s')" and "keys_distinct ob_event_id s"
  shows "delivered s' (strip ev) = Some (now E)"
proof -
  let ?hit = "holds_claim (strip ev) (strip claim)"
  have key: "delivered (upd_rows ?hit f s) (strip ev) = Some (now E)"
    if "r \<in> set s" "?hit r" "\<And>r. ob_event_id (f r) = ob_event_id r" "ob_delivered_at (f r) = Some (now E)" for r f
  proof -
    have "row_of ob_event_id (strip ev) s = Some r"
      using row_of_mem [OF assms(2) that(1)] that(2) by (simp add: holds_claim_def)
    from row_of_upd_hit [where P = ?hit and f = f, OF this that(2,3)] that(4) assms(2) show ?thesis
      by (simp add: delivered_def event_of_def keys_distinct_upd that(3))
  qed
  have "mark_outbox_event_delivered E ev claim s \<in> {(x, y). x = Inr True \<longrightarrow> delivered y (strip ev) = Some (now E)}"
    unfolding mark_outbox_event_delivered_def by (intro branch) (auto intro!: key)
  with assms(1) show ?thesis by auto
qed

text \<open>A settled event is a history of repository operations on the table.\<close>

definition reaches :: "outbox \<Rightarrow> outbox \<Rightarrow> bool" where
  "reaches s s' \<longleftrightarrow> (\<exists>ops. s' = fold outbox_step ops s)"

lemma reaches_refl [simp]: "reaches s s"
  unfolding reaches_def by (rule exI [of _ "[]"]) simp

lemma reaches_step: "reaches s (outbox_step op s)"
  unfolding reaches_def by (rule exI [of _ "[op]"]) simp

lemma reaches_trans: "reaches s t \<Longrightarrow> reaches t u \<Longrightarrow> reaches s u"
  unfolding reaches_def by (metis comp_def fold_append)

lemma reaches_delivered: "reaches s s' \<Longrightarrow> delivered s k = Some t \<Longrightarrow> delivered s' k = Some t"
  unfolding reaches_def by (auto intro: deliveries.settled_forever)

lemma reaches_keys: "reaches s s' \<Longrightarrow> keys_distinct ob_event_id s \<Longrightarrow> keys_distinct ob_event_id s'"
proof -
  have step: "keys_distinct ob_event_id (outbox_step op s)" if "keys_distinct ob_event_id s" for op s
    using outbox_step_fates [OF that, of op] by (simp add: fates_def)
  have "keys_distinct ob_event_id s \<Longrightarrow> keys_distinct ob_event_id (fold outbox_step ops s)" for ops
    by (induction ops arbitrary: s) (simp_all add: step)
  then show "reaches s s' \<Longrightarrow> keys_distinct ob_event_id s \<Longrightarrow> keys_distinct ob_event_id s'" by (auto simp: reaches_def)
qed

lemma sync_failure_reaches:
  "reaches s (snd (sync_record_outbox_delivery_failure E ev claim err delay poison increment s))"
  using reaches_step [of s "OpFailure E ev claim err delay poison increment"]
  by (simp add: sync_record_outbox_delivery_failure_def run_sync_state)

lemma settle_failure_reaches: "reaches s (settle_failure E ev claim message delay poison increment s)"
  by (simp add: settle_failure_def sync_failure_reaches split: sum.split)

lemma settle_delivered_reaches: "reaches s (snd (settle_delivered E ev claim s))"
  using reaches_step [of s "OpDelivered E (oe_event_id ev) claim"]
  by (simp add: settle_delivered_def sync_mark_outbox_event_delivered_def run_sync_state split: sum.split)

lemma settle_delivered_true:
  "settle_delivered E ev claim s = (Inr True, s') \<Longrightarrow> keys_distinct ob_event_id s \<Longrightarrow> delivered s' (strip (oe_event_id ev)) = Some (now E)"
  by (auto simp: settle_delivered_def sync_mark_outbox_event_delivered_def dest!: run_sync_Inr mark_delivers split: sum.splits)

lemma item_event_id: "outbox_event_from_item item = Inr (Some ev) \<Longrightarrow> strip (oe_event_id ev) = oe_event_id ev"
  by (auto simp: outbox_event_from_item_def Let_def split: if_splits sum.splits)

text \<open>
  Each event goes to one of the report's lists at most; only an event the repository marked as
  delivered is listed as delivered.
\<close>

definition tally_grows :: "tally \<Rightarrow> tally \<Rightarrow> string \<Rightarrow> bool" where
  "tally_grows t t' ev \<longleftrightarrow>
     t' = t \<or> t' = t\<lparr>t_delivered := t_delivered t @ [ev]\<rparr> \<or> t' = t\<lparr>t_deferred := t_deferred t @ [ev]\<rparr> \<or>
     t' = t\<lparr>t_failed := t_failed t @ [ev]\<rparr> \<or> t' = t\<lparr>t_failed := t_failed t @ [ev], t_poisoned := t_poisoned t @ [ev]\<rparr>"

lemma attempt_event_effect:
  assumes "strip (oe_event_id ev) = oe_event_id ev"
  shows "attempt_event sink E ev claim s t \<in> {(s', t'). reaches s s' \<and> tally_grows t t' (oe_event_id ev) \<and>
    (keys_distinct ob_event_id s \<longrightarrow> t_delivered t' = t_delivered t \<or> delivered s' (oe_event_id ev) = Some (now E))}"
proof -
  have fail: "failing E ev claim m s t \<in> {(s', t'). reaches s s' \<and> tally_grows t t' (oe_event_id ev) \<and> t_delivered t' = t_delivered t}" for m
    by (auto simp: failing_def Let_def settle_failure_reaches tally_grows_def)
  show ?thesis
  proof (cases "sink ev")
    case Accepted
    obtain r s' where sd: "settle_delivered E ev claim s = (r, s')" by (cases "settle_delivered E ev claim s")
    with settle_delivered_reaches [of s E ev claim] have "reaches s s'" by simp
    with Accepted sd settle_delivered_true [of E ev claim s s'] assms show ?thesis
      by (auto simp: attempt_event_def tally_grows_def split: sum.split bool.split)
  next
    case Refused
    with fail [of "''delivery sink returned false''"] show ?thesis by (auto simp: attempt_event_def)
  next
    case (RetryLater m n)
    then show ?thesis by (simp add: attempt_event_def settle_failure_reaches tally_grows_def)
  next
    case (Crashed m)
    with fail [of m] show ?thesis by (auto simp: attempt_event_def)
  qed
qed

lemma deliver_event_effect:
  assumes "strip (oe_event_id ev) = oe_event_id ev" and "deliver_event sink E ev s t = (s', t')"
  shows "reaches s s'" and "tally_grows t t' (oe_event_id ev)"
    and "keys_distinct ob_event_id s \<Longrightarrow> t_delivered t' = t_delivered t \<or> delivered s' (oe_event_id ev) = Some (now E)"
  using assms(2) attempt_event_effect [OF assms(1), of sink E "strip (the (oe_claim_token ev))" s t]
  by (auto simp: deliver_event_def Let_def tally_grows_def split: option.splits if_splits)

text \<open>The loop of a pass.\<close>

definition tally_size :: "tally \<Rightarrow> nat" where
  "tally_size t = length (t_delivered t) + length (t_failed t) + length (t_deferred t)"

lemma deliver_items_sound:
  assumes "deliver_items sink env i items s t = (r, s')" and "keys_distinct ob_event_id s"
    and "\<forall>ev \<in> set (t_delivered t). delivered s ev \<noteq> None" and "set (t_poisoned t) \<subseteq> set (t_failed t)"
  shows "reaches s s' \<and> (\<forall>t'. r = Inr t' \<longrightarrow> (\<forall>ev \<in> set (t_delivered t'). delivered s' ev \<noteq> None) \<and>
     set (t_poisoned t') \<subseteq> set (t_failed t') \<and> tally_size t' \<le> tally_size t + length items)"
  using assms
proof (induction items arbitrary: i s t)
  case Nil
  then show ?case by auto
next
  case (Cons item items)
  show ?case
  proof (cases "outbox_event_from_item item")
    case (Inl e)
    with Cons.prems(1) show ?thesis by auto
  next
    case (Inr found)
    show ?thesis
    proof (cases found)
      case None
      with Inr Cons.prems(1) have "deliver_items sink env (Suc i) items s t = (r, s')" by simp
      from Cons.IH [OF this Cons.prems(2-)] show ?thesis by auto
    next
      case (Some ev)
      obtain u v where de: "deliver_event sink (env i) ev s t = (u, v)" by (cases "deliver_event sink (env i) ev s t")
      note eff = deliver_event_effect [OF item_event_id de, of item]
      have it: "outbox_event_from_item item = Inr (Some ev)" using Inr Some by simp
      have go: "deliver_items sink env (Suc i) items u v = (r, s')" using Cons.prems(1) it de by simp
      have keep: "delivered u k \<noteq> None" if "k \<in> set (t_delivered t)" for k
        using Cons.prems(3) that reaches_delivered [OF eff(1) [OF it]] by blast
      have d: "\<forall>k \<in> set (t_delivered v). delivered u k \<noteq> None"
        using eff(2) [OF it] eff(3) [OF it Cons.prems(2)] keep by (auto simp: tally_grows_def)
      have p: "set (t_poisoned v) \<subseteq> set (t_failed v)" and n: "tally_size v \<le> Suc (tally_size t)"
        using eff(2) [OF it] Cons.prems(4) by (auto simp: tally_grows_def tally_size_def)
      from Cons.IH [OF go reaches_keys [OF eff(1) [OF it] Cons.prems(2)] d p] reaches_trans [OF eff(1) [OF it]] n
      show ?thesis by fastforce
    qed
  qed
qed

subsection \<open>Properties\<close>

lemma claim_due_reaches: "reaches s (snd (sync_claim_due_outbox_events nonce E older lim who ttl ten w run ty s))"
  using reaches_step [of s "OpClaimDue nonce E older lim who ttl ten w run ty"]
  by (simp add: sync_claim_due_outbox_events_def run_sync_state)

lemma claim_due_length:
  assumes "sync_claim_due_outbox_events nonce E older lim who ttl ten w run ty s = (Inr items, s')"
  shows "int (length items) \<le> max 1 lim"
  using assms claim_due_batch_length [of nonce E older lim who ttl ten w run ty s]
  by (auto simp: sync_claim_due_outbox_events_def run_sync_def split: prod.splits sum.splits option.splits if_splits)

lemma status_state: "snd (sync_get_outbox_delivery_status E s) = s"
  by (simp add: sync_get_outbox_delivery_status_def run_sync_state reading_def)

text \<open>
  C4. A pass reports only what it did, for every sink, every schedule of times, faults and
  kernel answers: each event listed as delivered is marked as delivered in the table the pass
  leaves, every poisoned event is listed as failed too, the number of attempts is within the
  batch limit, and the events delivered before the pass stay delivered.
\<close>

theorem pass_report_sound:
  assumes "deliver_due_outbox_events_once ids nonce sink env older limit tenant workspace run event_type claimed_by ttl s = (Inr report, s')"
    and "keys_distinct ob_event_id s"
  shows "(\<forall>ev \<in> set (delivered_ids report). delivered s' ev \<noteq> None) \<and> set (poisoned_ids report) \<subseteq> set (failed_ids report) \<and>
    attempted report \<le> max 1 limit \<and> (\<forall>k t. delivered s k = Some t \<longrightarrow> delivered s' k = Some t)"
proof -
  let ?claim = "sync_claim_due_outbox_events nonce (env 0) (max 0 older) (max 1 limit) (sor (opt_tok claimed_by) (default_outbox_claimed_by ids)) (max 1 ttl)
    (filter_arg tenant) (filter_arg workspace) (filter_arg run) (filter_arg event_type) s"
  let ?none = "\<lparr>t_delivered = [], t_failed = [], t_deferred = [], t_poisoned = []\<rparr>"
  from assms(1) obtain items s1 t s2 where c: "?claim = (Inr items, s1)" and l: "deliver_items sink env 1 items s1 ?none = (Inr t, s2)"
    and s': "s' = snd (sync_get_outbox_delivery_status (env (Suc (length items))) s2)"
    and rep: "attempted report = int (tally_size t)" "delivered_ids report = t_delivered t"
      "failed_ids report = t_failed t" "poisoned_ids report = t_poisoned t"
    by (auto simp: deliver_due_outbox_events_once_def tally_size_def Let_def split: sum.splits prod.splits)
  have r1: "reaches s s1"
    using claim_due_reaches [of s nonce "env 0"] c by (metis snd_conv)
  from deliver_items_sound [OF l reaches_keys [OF r1 assms(2)]]
  have r2: "reaches s1 s2" and d: "\<forall>ev \<in> set (t_delivered t). delivered s2 ev \<noteq> None"
    and p: "set (t_poisoned t) \<subseteq> set (t_failed t)" and n: "tally_size t \<le> length items"
    by (auto simp: tally_size_def)
  have "s' = s2" by (simp add: s' status_state)
  with d p n rep claim_due_length [OF c] reaches_delivered [OF reaches_trans [OF r1 r2]] show ?thesis by auto
qed


lemma service_allows:
  assumes "outbox_delivery_next_actions (or_operation r) \<noteq> None" and "strip (or_operation r) = or_operation r"
  shows "\<exists>d. enforce_outbox_service_decision (allow_env t) r = Inr d"
proof -
  from assms(1) obtain d where d: "enforce_outbox_delivery_decision (allow_env t) r = Inr d"
    using allow_outbox_open [of r _ t, OF refl assms(1)] by (cases "enforce_outbox_delivery_decision (allow_env t) r") auto
  with assms(2) show ?thesis
    by (auto simp: enforce_outbox_service_decision_def enforce_outbox_delivery_decision_def check_next_action_Inr Let_def
      split: sum.splits option.splits)
qed

text \<open>A pass over records of the table is not cut short: their retry counts are integers.\<close>

lemma record_item: "\<exists>x. outbox_event_from_item (outbox_record_from_row r) = Inr x"
  by (auto simp: outbox_event_from_item_def outbox_record_from_row_def Let_def por_def)

lemma deliver_records:
  "set items \<subseteq> range outbox_record_from_row \<Longrightarrow> \<exists>t' s'. deliver_items sink env i items s t = (Inr t', s')"
proof (induction items arbitrary: i s t)
  case (Cons item items)
  from Cons.prems record_item obtain x where x: "outbox_event_from_item item = Inr x" by fastforce
  show ?case
  proof (cases x)
    case None
    with x Cons show ?thesis by simp
  next
    case (Some ev)
    with x Cons show ?thesis by (cases "deliver_event sink (env i) ev s t") auto
  qed
qed simp

lemma claim_due_batch:
  assumes "claim_due_outbox_events nonce E older limit who ttl ten w run ty s = (Inr items, s')"
  shows "set items \<subseteq> range outbox_record_from_row"
proof -
  have "claim_due_outbox_events nonce E older limit who ttl ten w run ty s
      \<in> {c. \<forall>items. fst c = Inr items \<longrightarrow> set items \<subseteq> range outbox_record_from_row}"
    unfolding claim_due_outbox_events_def Let_def by (intro branch) auto
  with assms show ?thesis by auto
qed

theorem pass_report_sound_witness:
  "\<exists>report s'. deliver_due_outbox_events_once (1, 2) (\<lambda>_. ''9'') (\<lambda>_. Accepted) (\<lambda>i. allow_env (40000000 + int i)) 0 10
       None None None None (Some ''d'') 30 [demo_event] = (Inr report, s') \<and> attempted report \<le> 10"
proof -
  let ?env = "\<lambda>i. allow_env (40000000 + int i)"
  let ?c = "deliver_due_outbox_events_once (1, 2) (\<lambda>_. ''9'') (\<lambda>_. Accepted) ?env 0 10 None None None None (Some ''d'') 30 [demo_event]"
  let ?k = "sync_claim_due_outbox_events (\<lambda>_. ''9'') (?env 0) 0 10 ''d'' 30 (filter_arg None) (filter_arg None) (filter_arg None) (filter_arg None) [demo_event]"
  have gate: "enforce_outbox_delivery_decision (allow_env t) r \<noteq> Inl e" if "or_operation r = ''claim_due''" for r t e
    using that by (rule allow_outbox_open) simp
  have "claim_due_outbox_events (\<lambda>_. ''9'') (?env 0) 0 10 ''d'' 30 (filter_arg None) (filter_arg None) (filter_arg None) (filter_arg None) [demo_event]
      \<in> {c. \<exists>items. fst c = Inr items}"
    unfolding claim_due_outbox_events_def by (intro branch) (use gate in auto)
  from fst_pair_ex [OF this] obtain items s1 where
    "claim_due_outbox_events (\<lambda>_. ''9'') (?env 0) 0 10 ''d'' 30 (filter_arg None) (filter_arg None) (filter_arg None) (filter_arg None) [demo_event] = (Inr items, s1)" by blast
  then have k: "?k = (Inr items, s1)" and rec: "set items \<subseteq> range outbox_record_from_row"
    using claim_due_batch by (auto simp: sync_claim_due_outbox_events_def run_sync_def)
  obtain d where d: "enforce_outbox_service_decision (?env 0) ((outbox_defaults ''claim_due'')\<lparr>or_tenant_id := filter_arg None,
          or_workspace_id := filter_arg None, or_run_id := filter_arg None, or_event_type := filter_arg None,
          or_claimed_by := Some ''d'', or_claim_ttl_seconds := Some 30, or_limit := Some 10\<rparr>) = Inr d"
    using service_allows [of "(outbox_defaults ''claim_due'')\<lparr>or_tenant_id := filter_arg None,
          or_workspace_id := filter_arg None, or_run_id := filter_arg None, or_event_type := filter_arg None,
          or_claimed_by := Some ''d'', or_claim_ttl_seconds := Some 30, or_limit := Some 10\<rparr>" "40000000 + int 0"]
    by (auto simp: outbox_defaults_def strip_def py_space_def)
  have st: "\<exists>v. sync_get_outbox_delivery_status (allow_env t) s = (Inr v, s)" for t s
    by (auto simp: sync_get_outbox_delivery_status_def run_sync_def reading_def get_outbox_delivery_status_def Let_def)
  have "\<exists>report s'. ?c = (Inr report, s')"
  proof -
    obtain t s2 where l: "deliver_items (\<lambda>_. Accepted) ?env 1 items s1
        \<lparr>t_delivered = [], t_failed = [], t_deferred = [], t_poisoned = []\<rparr> = (Inr t, s2)"
      using deliver_records [OF rec] by blast
    have who: "sor (opt_tok (Some ''d'')) (default_outbox_claimed_by (1, 2)) = ''d''" by (simp add: sor_def strip_def py_space_def)
    obtain v where v: "sync_get_outbox_delivery_status (?env (Suc (length items))) s2 = (Inr v, s2)" using st by blast
    show ?thesis unfolding deliver_due_outbox_events_once_def Let_def who using d k l v by simp
  qed
  then obtain report s' where c: "?c = (Inr report, s')" by blast
  from pass_report_sound [OF c demo_event_of(2), THEN conjunct2, THEN conjunct2, THEN conjunct1] have "attempted report \<le> 10" by simp
  with c show ?thesis by blast
qed

text \<open>
  A failed delivery is retried after 5, 15, 30 and 60 seconds and poisoned the fifth time:
  when a sink refuses an event whose claim is held, and the kernel and the database let the
  report through, the event is released with its retry count one higher; below four earlier
  failures it waits for the step of the backoff list that its count names, from the fourth on it
  is poisoned and never scheduled again. The last entry of the list, 120 seconds, is never used.
\<close>

theorem refused_event_fate:
  assumes "sink ev = Refused" and "attempt_event sink E ev claim s t = (s', t')"
    and "keys_distinct ob_event_id s" and "event_of (oe_event_id ev) s = Some r"
    and "event_holder s (oe_event_id ev) = Some claim" and "ob_delivered_at r = None"
    and "ob_retry_count r = oe_retry_count ev" and "0 \<le> oe_retry_count ev"
    and "strip (oe_event_id ev) = oe_event_id ev" and "oe_event_id ev \<noteq> []" and "strip claim = claim" and "claim \<noteq> []"
    and "\<forall>q. or_operation q = ''record_failure'' \<longrightarrow>
      (\<exists>d. enforce_outbox_service_decision E q = Inr d) \<and> (\<exists>d. enforce_outbox_delivery_decision E q = Inr d)"
    and "db_ok E" and "dispatch E = None"
  shows "t' = t\<lparr>t_failed := t_failed t @ [oe_event_id ev],
      t_poisoned := t_poisoned t @ (if 4 \<le> oe_retry_count ev then [oe_event_id ev] else [])\<rparr> \<and>
    event_holder s' (oe_event_id ev) = None \<and>
    (\<exists>r'. event_of (oe_event_id ev) s' = Some r' \<and> ob_retry_count r' = ob_retry_count r + 1 \<and>
      (if 4 \<le> oe_retry_count ev then ob_poisoned_at r' = Some (now E) \<and> ob_next_attempt_at r' = None
       else ob_poisoned_at r' = None \<and>
         ob_next_attempt_at r' = Some (now E + sec ([5, 15, 30, 60] ! nat (oe_retry_count ev)))))"
proof -
  let ?n = "oe_retry_count ev" and ?msg = "retry_message ''delivery sink returned false'' ''delivery failed''"
  let ?delay = "delivery_retry_delay_for_attempt (?n + 1)"
  let ?c = "record_outbox_delivery_failure E (oe_event_id ev) claim ?msg ?delay (?delay = None) True s"
  have none: "?delay = None \<longleftrightarrow> 4 \<le> ?n"
    by (simp add: delivery_retry_delay_for_attempt_def outbox_max_delivery_attempts_def outbox_delivery_retry_backoff_seconds_def)
  have nth: "?delay = Some ([5, 15, 30, 60] ! nat ?n)" and nonneg: "0 \<le> ([5, 15, 30, 60] :: int list) ! nat ?n" if "\<not> 4 \<le> ?n"
  proof -
    from that assms(8) have "?n = 0 \<or> ?n = 1 \<or> ?n = 2 \<or> ?n = 3" by presburger
    then show "?delay = Some ([5, 15, 30, 60] ! nat ?n)" and "0 \<le> ([5, 15, 30, 60] :: int list) ! nat ?n"
      by (elim disjE; simp add: delivery_retry_delay_for_attempt_def outbox_max_delivery_attempts_def outbox_delivery_retry_backoff_seconds_def nth_Cons')+
  qed
  have gate: "enforce_outbox_delivery_decision E q \<noteq> Inl e" if "or_operation q = ''record_failure''" for q e
    using assms(13) that by (metis sum.distinct(1))
  have service: "enforce_outbox_service_decision E q \<noteq> Inl e" if "or_operation q = ''record_failure''" for q e
    using assms(13) that by (metis sum.distinct(1))
  have "?c \<in> {c. \<exists>b. fst c = Inr b}"
    unfolding record_outbox_delivery_failure_def by (intro branch) (use gate assms(14) in \<open>auto simp: outbox_defaults_def\<close>)
  from fst_pair_ex [OF this] obtain b where c: "?c = (Inr b, snd ?c)" by blast
  have st: "strip (oe_event_id ev) = oe_event_id ev" "strip claim = claim" by fact+
  note written = failure_written [OF c assms(3), of r, unfolded st, OF assms(5,4,6,10,12)]
  have "settle_failure E ev claim ?msg ?delay (?delay = None) True s = snd ?c"
    using assms(15) by (simp add: settle_failure_def sync_record_outbox_delivery_failure_def run_sync_state event_request_def outbox_defaults_def service split: sum.split)
  with assms(1,2) have out: "s' = snd ?c" "t' = t\<lparr>t_failed := t_failed t @ [oe_event_id ev],
      t_poisoned := t_poisoned t @ (if 4 \<le> ?n then [oe_event_id ev] else [])\<rparr>"
    by (auto simp: attempt_event_def failing_def Let_def none)
  show ?thesis
    using written none nth nonneg unfolding out
    by (auto simp: event_holder_def failed_row_def max_def)
qed


definition no_tally :: tally where
  "no_tally = \<lparr>t_delivered = [], t_failed = [], t_deferred = [], t_poisoned = []\<rparr>"

definition demo_delivery :: outbox_event where
  "demo_delivery = \<lparr>oe_event_id = ''e1'', oe_event_type = ''x'', oe_tenant_id = ''t'', oe_workspace_id = ''w'',
     oe_run_id = None, oe_machine_id = None, oe_trace_id = [], oe_idempotency_key = [], oe_payload = [],
     oe_created_at = None, oe_retry_count = 0, oe_last_delivery_error = None, oe_last_attempted_at = None,
     oe_next_attempt_at = None, oe_poisoned_at = None, oe_claim_token = Some ''e1:0'', oe_claimed_by = Some ''d'',
     oe_claimed_at = None, oe_claim_expires_at = None\<rparr>"

theorem refused_event_fate_witness:
  "event_holder (fst (attempt_event (\<lambda>_. Refused) (allow_env 9) demo_delivery ''e1:0'' [demo_event] no_tally)) ''e1'' = None"
proof -
  have gate: "(\<exists>d. enforce_outbox_service_decision (allow_env 9) q = Inr d) \<and> (\<exists>d. enforce_outbox_delivery_decision (allow_env 9) q = Inr d)"
    if "or_operation q = ''record_failure''" for q
    using service_allows [of q 9] allow_outbox [of q 9] that by (simp add: strip_def py_space_def)
  have "event_holder [demo_event] ''e1'' = Some ''e1:0''" by (simp add: event_holder_def)
  with refused_event_fate [of "\<lambda>_. Refused" demo_delivery "allow_env 9" "''e1:0''" "[demo_event]" no_tally
      "fst (attempt_event (\<lambda>_. Refused) (allow_env 9) demo_delivery ''e1:0'' [demo_event] no_tally)"
      "snd (attempt_event (\<lambda>_. Refused) (allow_env 9) demo_delivery ''e1:0'' [demo_event] no_tally)" demo_event] gate
  show ?thesis by (simp add: demo_delivery_def strip_def py_space_def)
qed

end
