(* ===== verification/Lane_Queue.thy ===== *)
theory Lane_Queue
  imports Py_Base "HOL-Library.Multiset"
begin

text \<open>
  The lane queue (\<open>runtime_lane_queue.py\<close>, class \<open>RuntimeLaneQueue\<close>): work is queued on four
  lanes and dispatched round robin, within a limit per lane and a total limit; queued and
  running items with a run id are checkpointed, so that a restart can queue them again.

  Items are shared objects: the queue's containers hold references, here positions in
  \<open>q_heap\<close>, and an update of an item is seen through all of them. Methods that hold the lock are
  functions on the state; the threads (callers, the dispatcher, the workers) are the step
  relation \<open>lane_step\<close>, where the steps between two lock regions may be any others.
\<close>

subsection \<open>Lanes\<close>

datatype lane = Main | Cron | Subagent | System

definition lane_order :: "lane list" where
  "lane_order = [Main, Cron, Subagent, System]"

fun lane_name :: "lane \<Rightarrow> string" where
  "lane_name Main = ''main''"
| "lane_name Cron = ''cron''"
| "lane_name Subagent = ''subagent''"
| "lane_name System = ''system''"

definition default_lane_concurrency :: "lane \<Rightarrow> int" where
  "default_lane_concurrency l = 1"

definition coerce_lane :: "pyval \<Rightarrow> lane res" where
  "coerce_lane v = (case find (\<lambda>l. lane_name l = lower (tok v)) lane_order of
     Some l \<Rightarrow> Inr l
   | None \<Rightarrow> Inl (ValueError (''Unsupported runtime lane: '' @ py_repr v)))"

text \<open>Timestamps: \<open>isoformat().replace("+00:00", "Z")\<close>.\<close>

definition utc_now_iso :: "int \<Rightarrow> string" where
  "utc_now_iso t = (let s = isoformat t in take (length s - 6) s @ ''Z'')"

subsection \<open>Items\<close>

record lane_item =
  li_id :: string
  li_lane :: lane
  li_label :: string
  li_metadata :: pydict
  li_status :: string
  li_enqueued_at :: string
  li_started_at :: "string option"
  li_finished_at :: "string option"
  li_run_id :: "string option"
  li_summary :: "string option"
  li_error :: "string option"
  li_result :: "pydict option"

definition to_snapshot :: "lane_item \<Rightarrow> pydict" where
  "to_snapshot item =
     [(''id'', PStr (li_id item)), (''lane'', PStr (lane_name (li_lane item))), (''label'', PStr (li_label item)),
      (''status'', PStr (li_status item)), (''enqueued_at'', PStr (li_enqueued_at item)),
      (''started_at'', opt_val (li_started_at item)), (''finished_at'', opt_val (li_finished_at item)),
      (''run_id'', opt_val (li_run_id item)), (''summary'', opt_val (li_summary item)),
      (''error'', opt_val (li_error item)), (''metadata'', PDict (li_metadata item))]"

subsection \<open>The queue\<close>

record lane_queue =
  q_heap :: "lane_item list"
  q_lane_concurrency :: "lane \<Rightarrow> int"
  q_max_total :: int
  q_recent_limit :: int
  q_pending :: "lane \<Rightarrow> nat list"
  q_active :: "lane \<Rightarrow> (string \<times> nat) list"
  q_recent :: "nat list"
  q_items :: "string \<Rightarrow> nat option"
  q_started :: bool
  q_accepting :: bool
  q_draining :: bool
  q_shutdown :: bool
  q_cursor :: nat
  q_checkpointed :: bool
  q_checkpoint_key :: string
  q_checkpoint_error :: "string option"

text \<open>
  The local state database is the second component of an operation's result where it is
  written: the value stored under the checkpoint key. \<open>db_error\<close> is the error of the access,
  when it fails.
\<close>

type_synonym saved = "pyval option"

definition item_at :: "lane_queue \<Rightarrow> nat \<Rightarrow> lane_item" where
  "item_at q r = q_heap q ! r"

definition total_active :: "lane_queue \<Rightarrow> nat" where
  "total_active q = sum_list (map (\<lambda>l. length (q_active q l)) lane_order)"

definition has_pending :: "lane_queue \<Rightarrow> bool" where
  "has_pending q = list_ex (\<lambda>l. q_pending q l \<noteq> []) lane_order"

definition has_active :: "lane_queue \<Rightarrow> bool" where
  "has_active q = list_ex (\<lambda>l. q_active q l \<noteq> []) lane_order"

subsection \<open>Checkpoints\<close>

definition runs_only :: "lane_queue \<Rightarrow> nat list \<Rightarrow> pyval list" where
  "runs_only q refs = map (\<lambda>r. PDict (to_snapshot (item_at q r)))
     (filter (\<lambda>r. case li_run_id (item_at q r) of None \<Rightarrow> False | Some s \<Rightarrow> s \<noteq> []) refs)"

definition checkpoint_items :: "lane_queue \<Rightarrow> pyval list" where
  "checkpoint_items q =
     concat (map (\<lambda>l. runs_only q (map snd (q_active q l)) @ runs_only q (q_pending q l)) lane_order)"

definition persist_checkpoint :: "string option \<Rightarrow> int \<Rightarrow> lane_queue \<Rightarrow> saved \<Rightarrow> lane_queue \<times> saved" where
  "persist_checkpoint db_error t q db =
     (if \<not> q_checkpointed q then (q, db)
      else case db_error of
        Some m \<Rightarrow> (q\<lparr>q_checkpoint_error := Some m\<rparr>, db)
      | None \<Rightarrow> (q\<lparr>q_checkpoint_error := None\<rparr>,
          Some (PDict [(''items'', PList (checkpoint_items q)), (''persisted_at'', PStr (utc_now_iso t))])))"

text \<open>A new object, appended to its lane and entered under its id.\<close>

definition add_item :: "lane_item \<Rightarrow> lane_queue \<Rightarrow> lane_queue" where
  "add_item item q = (let l = li_lane item; r = length (q_heap q) in
     q\<lparr>q_heap := q_heap q @ [item], q_pending := (q_pending q)(l := q_pending q l @ [r]),
       q_items := (q_items q)(li_id item \<mapsto> r)\<rparr>)"

text \<open>
  Restoring one saved item. \<open>factory\<close> is the restore function given to the queue: \<open>True\<close> when it
  returns a callable for the item. \<open>fresh\<close> is the generated id of an item that has none.
\<close>

definition restore_item :: "(pydict \<Rightarrow> bool) \<Rightarrow> string \<Rightarrow> int \<Rightarrow> pyval \<Rightarrow> lane_queue \<Rightarrow> lane_queue" where
  "restore_item factory fresh t raw q =
     (let payload = dict_of raw; run_id = tok (dget payload ''run_id'') in
      if run_id = [] then q
      else case coerce_lane (dget payload ''lane'') of
        Inl _ \<Rightarrow> q
      | Inr l \<Rightarrow>
        if \<not> factory payload then q
        else add_item
         \<lparr>li_id = strip (py_str_of (por (dget payload ''id'') (PStr (''lane_'' @ fresh)))), li_lane = l,
          li_label = sor (strip (py_str_of (por (dget payload ''label'') (PStr ''Restored queued work'')))) ''Restored queued work'',
          li_metadata = dict_of (dget payload ''metadata''), li_status = ''queued'',
          li_enqueued_at = sor (strip (py_str_of (por (dget payload ''enqueued_at'') (PStr (utc_now_iso t))))) (utc_now_iso t),
          li_started_at = None, li_finished_at = None, li_run_id = Some run_id,
          li_summary = snone (tok (dget payload ''summary'')), li_error = None, li_result = None\<rparr> q)"

fun restore_items :: "(pydict \<Rightarrow> bool) \<Rightarrow> (nat \<Rightarrow> string) \<Rightarrow> int \<Rightarrow> pyval list \<Rightarrow> lane_queue \<Rightarrow> lane_queue" where
  "restore_items factory fresh t [] q = q"
| "restore_items factory fresh t (raw # raws) q =
     restore_items factory fresh t raws (restore_item factory (fresh (length raws)) t raw q)"

definition restore_checkpoint ::
    "(pydict \<Rightarrow> bool) option \<Rightarrow> (nat \<Rightarrow> string) \<Rightarrow> int \<Rightarrow> string option \<Rightarrow> saved \<Rightarrow> lane_queue \<Rightarrow> lane_queue" where
  "restore_checkpoint factory fresh t db_error db q =
     (case factory of
        None \<Rightarrow> q
      | Some build \<Rightarrow>
        if \<not> q_checkpointed q then q
        else case db_error of
          Some m \<Rightarrow> q\<lparr>q_checkpoint_error := Some m\<rparr>
        | None \<Rightarrow>
          (case (case db of None \<Rightarrow> Inr [] | Some value \<Rightarrow> py_iter (por (dget (dict_of value) ''items'') (PList []))) of
             Inl m \<Rightarrow> q\<lparr>q_checkpoint_error := Some (exc_text m)\<rparr>
           | Inr raws \<Rightarrow> restore_items build fresh t raws (q\<lparr>q_checkpoint_error := None\<rparr>)))"

subsection \<open>Creating the queue\<close>

definition lane_limit :: "int \<Rightarrow> int" where
  "lane_limit v = max 1 (int_or (Some v) 1)"

fun configure :: "(pyval \<times> int) list \<Rightarrow> (lane \<Rightarrow> int) \<Rightarrow> (lane \<Rightarrow> int) res" where
  "configure [] c = Inr c"
| "configure ((key, v) # rest) c = (case coerce_lane key of Inl e \<Rightarrow> Inl e
     | Inr l \<Rightarrow> configure rest (c(l := lane_limit v)))"

definition default_checkpoint_key :: string where
  "default_checkpoint_key = ''runtime_lane_queue.v1''"

definition empty_lane_queue :: "(lane \<Rightarrow> int) \<Rightarrow> int \<Rightarrow> int \<Rightarrow> bool \<Rightarrow> string \<Rightarrow> lane_queue" where
  "empty_lane_queue c max_total recent_limit checkpointed key =
     \<lparr>q_heap = [], q_lane_concurrency = c, q_max_total = max 1 (int_or (Some max_total) 4),
      q_recent_limit = max 4 (int_or (Some recent_limit) 16), q_pending = (\<lambda>l. []), q_active = (\<lambda>l. []),
      q_recent = [], q_items = Map.empty, q_started = False, q_accepting = True, q_draining = False,
      q_shutdown = False, q_cursor = 0, q_checkpointed = checkpointed,
      q_checkpoint_key = sor (strip (sor key default_checkpoint_key)) default_checkpoint_key,
      q_checkpoint_error = None\<rparr>"

definition new_lane_queue ::
    "(pyval \<times> int) list \<Rightarrow> int \<Rightarrow> int \<Rightarrow> bool \<Rightarrow> string \<Rightarrow> (pydict \<Rightarrow> bool) option \<Rightarrow> (nat \<Rightarrow> string) \<Rightarrow> int
     \<Rightarrow> string option \<Rightarrow> saved \<Rightarrow> lane_queue res" where
  "new_lane_queue lane_concurrency max_total recent_limit checkpointed key factory fresh t db_error db =
     (case configure lane_concurrency default_lane_concurrency of
        Inl e \<Rightarrow> Inl e
      | Inr c \<Rightarrow> Inr (restore_checkpoint factory fresh t db_error db
          (empty_lane_queue c max_total recent_limit checkpointed key)))"

subsection \<open>Snapshots\<close>

definition snapshots :: "lane_queue \<Rightarrow> nat list \<Rightarrow> pyval" where
  "snapshots q refs = PList (map (\<lambda>r. PDict (to_snapshot (item_at q r))) refs)"

definition lane_snapshot :: "lane_queue \<Rightarrow> lane \<Rightarrow> pydict" where
  "lane_snapshot q l =
     [(''concurrency'', PInt (q_lane_concurrency q l)), (''pending_count'', PInt (int (length (q_pending q l)))),
      (''active_count'', PInt (int (length (q_active q l)))), (''pending'', snapshots q (take 4 (q_pending q l))),
      (''active'', snapshots q (take 4 (map snd (q_active q l))))]"

definition queue_snapshot :: "lane_queue \<Rightarrow> pydict" where
  "queue_snapshot q =
     [(''accepting_new_work'', PBool (q_accepting q)), (''draining'', PBool (q_draining q)),
      (''running'', PBool (q_started q \<and> \<not> q_shutdown q)), (''max_total_concurrency'', PInt (q_max_total q)),
      (''pending_count'', PInt (int (sum_list (map (\<lambda>l. length (q_pending q l)) lane_order)))),
      (''active_count'', PInt (int (total_active q))),
      (''checkpoint'', PDict [(''enabled'', PBool (q_checkpointed q)),
         (''key'', if q_checkpointed q then PStr (q_checkpoint_key q) else PNone),
         (''last_error'', opt_val (q_checkpoint_error q))]),
      (''lanes'', PDict (map (\<lambda>l. (lane_name l, PDict (lane_snapshot q l))) lane_order)),
      (''recent'', snapshots q (take 6 (q_recent q)))]"

subsection \<open>Operations\<close>

definition set_lane_concurrency :: "pyval \<Rightarrow> int \<Rightarrow> lane_queue \<Rightarrow> pydict res \<times> lane_queue" where
  "set_lane_concurrency lane v q =
     (case coerce_lane lane of Inl e \<Rightarrow> (Inl e, q)
      | Inr l \<Rightarrow> (let q' = q\<lparr>q_lane_concurrency := (q_lane_concurrency q)(l := lane_limit v)\<rparr>
                  in (Inr (queue_snapshot q'), q')))"

definition start :: "lane_queue \<Rightarrow> lane_queue" where
  "start q = q\<lparr>q_started := True\<rparr>"

definition enqueue ::
    "string option \<Rightarrow> int \<Rightarrow> string \<Rightarrow> bool \<Rightarrow> pyval \<Rightarrow> string \<Rightarrow> pyval \<Rightarrow> lane_queue \<Rightarrow> saved
     \<Rightarrow> pydict res \<times> lane_queue \<times> saved" where
  "enqueue db_error t fresh callable lane label metadata q db =
     (if \<not> callable then (Inl (TypeError ''Lane queue work must be callable.''), q, db)
      else case coerce_lane lane of
        Inl e \<Rightarrow> (Inl e, q, db)
      | Inr l \<Rightarrow>
       (let meta = dict_of metadata;
            item = \<lparr>li_id = ''lane_'' @ fresh, li_lane = l, li_label = sor (strip label) ''Queued work'',
              li_metadata = meta, li_status = ''queued'', li_enqueued_at = utc_now_iso t, li_started_at = None,
              li_finished_at = None, li_run_id = snone (tok (dget meta ''run_id'')), li_summary = None,
              li_error = None, li_result = None\<rparr>;
            q1 = (if q_started q then q else start q) in
        if \<not> q_accepting q1 then (Inl (RuntimeError ''Runtime lane queue is shutting down.''), q1, db)
        else case persist_checkpoint db_error t (add_item item q1) db of (q2, db') \<Rightarrow>
          (Inr [(''queued'', PBool True), (''item_id'', PStr (li_id item)), (''lane'', PStr (lane_name l)),
                (''status'', PStr (li_status item)), (''snapshot'', PDict (queue_snapshot q2))], q2, db')))"

definition lane_at :: "nat \<Rightarrow> lane" where
  "lane_at k = lane_order ! (k mod length lane_order)"

definition eligible :: "lane_queue \<Rightarrow> lane \<Rightarrow> bool" where
  "eligible q l \<longleftrightarrow> int (length (q_active q l)) < q_lane_concurrency q l \<and> q_pending q l \<noteq> []"

text \<open>The oldest item of a lane starts.\<close>

definition start_item :: "int \<Rightarrow> lane \<Rightarrow> lane_queue \<Rightarrow> lane_queue" where
  "start_item t l q = (let r = hd (q_pending q l); item = item_at q r in
     q\<lparr>q_heap := (q_heap q)[r := item\<lparr>li_status := ''running'', li_started_at := Some (utc_now_iso t)\<rparr>],
       q_pending := (q_pending q)(l := tl (q_pending q l)),
       q_active := (q_active q)(l := AList.update (li_id item) r (q_active q l))\<rparr>)"

definition next_dispatchable_item ::
    "string option \<Rightarrow> int \<Rightarrow> lane_queue \<Rightarrow> saved \<Rightarrow> nat option \<times> lane_queue \<times> saved" where
  "next_dispatchable_item db_error t q db =
     (if q_max_total q \<le> int (total_active q) then (None, q, db)
      else case find (\<lambda>k. eligible q (lane_at (q_cursor q + k))) [0..<length lane_order] of
        None \<Rightarrow> (None, q, db)
      | Some k \<Rightarrow>
       (let l = lane_at (q_cursor q + k) in
        case persist_checkpoint db_error t (start_item t l q) db of (q', db') \<Rightarrow>
          (Some (hd (q_pending q l)), q'\<lparr>q_cursor := (q_cursor q + k + 1) mod length lane_order\<rparr>, db')))"

text \<open>
  Finishing writes what the work reported; an empty text keeps what the item had. The report of
  a call of \<open>_finish_item\<close> is its keyword arguments.
\<close>

record work_report =
  rp_status :: string
  rp_result :: "pydict option"
  rp_run_id :: "string option"
  rp_summary :: "string option"
  rp_error :: "string option"

definition keep_text :: "string option \<Rightarrow> string option \<Rightarrow> string option" where
  "keep_text new old = (if opt_tok new = [] then old else Some (opt_tok new))"

definition finished_item :: "int \<Rightarrow> work_report \<Rightarrow> lane_item \<Rightarrow> lane_item" where
  "finished_item t p item = item\<lparr>li_status := rp_status p, li_finished_at := Some (utc_now_iso t),
     li_result := rp_result p, li_run_id := keep_text (rp_run_id p) (li_run_id item),
     li_summary := keep_text (rp_summary p) (li_summary item), li_error := keep_text (rp_error p) (li_error item)\<rparr>"

definition finish_item ::
    "string option \<Rightarrow> int \<Rightarrow> string \<Rightarrow> work_report \<Rightarrow> lane_queue \<Rightarrow> saved \<Rightarrow> lane_queue \<times> saved" where
  "finish_item db_error t item_id p q db =
     (case q_items q item_id of
        None \<Rightarrow> (q, db)
      | Some r \<Rightarrow>
       (let l = li_lane (item_at q r) in
        persist_checkpoint db_error t
          (q\<lparr>q_heap := (q_heap q)[r := finished_item t p (item_at q r)],
             q_active := (q_active q)(l := AList.delete item_id (q_active q l)),
             q_recent := take (nat (q_recent_limit q)) (r # q_recent q)\<rparr>) db))"

text \<open>What calling an item's work gave, and the report \<open>_run_item\<close> makes of it.\<close>

datatype work_outcome = Returned pyval | Raised string

fun report_of :: "work_outcome \<Rightarrow> work_report" where
  "report_of (Returned result) =
     (let payload = (if is_dict result then dict_of result else [(''value'', result)]) in
      \<lparr>rp_status = sor (strip (py_str_of (por (dget payload ''status'') (PStr ''completed'')))) ''completed'',
       rp_result = Some payload, rp_run_id = snone (tok (dget payload ''run_id'')),
       rp_summary = snone (tok (dget payload ''summary'')), rp_error = None\<rparr>)"
| "report_of (Raised message) =
     \<lparr>rp_status = ''failed'', rp_result = None, rp_run_id = None,
      rp_summary = Some (''Lane work failed: '' @ message), rp_error = Some message\<rparr>"

definition run_item ::
    "string option \<Rightarrow> int \<Rightarrow> string \<Rightarrow> work_outcome \<Rightarrow> lane_queue \<Rightarrow> saved \<Rightarrow> lane_queue \<times> saved" where
  "run_item db_error t item_id got q db = finish_item db_error t item_id (report_of got) q db"

definition begin_shutdown :: "lane_queue \<Rightarrow> lane_queue" where
  "begin_shutdown q = q\<lparr>q_accepting := False, q_draining := True\<rparr>"

definition end_shutdown :: "string option \<Rightarrow> int \<Rightarrow> lane_queue \<Rightarrow> saved \<Rightarrow> pydict \<times> lane_queue \<times> saved" where
  "end_shutdown db_error t q db =
     (case persist_checkpoint db_error t (q\<lparr>q_shutdown := True\<rparr>) db of (q', db') \<Rightarrow> (queue_snapshot q', q', db'))"

subsection \<open>Threads\<close>

text \<open>
  The queue with its threads: whether the dispatcher is alive, and the ids of the items whose
  worker threads have not come back. Every step is one region under the lock. A generated id is
  one that no item has.
\<close>

record lane_world =
  w_queue :: lane_queue
  w_db :: saved
  w_dispatcher :: bool
  w_workers :: "string list"

datatype lane_event = Accepted lane string | Dispatched lane string | Finished string | Configured lane | Internal

inductive lane_step :: "lane_world \<Rightarrow> lane_event \<Rightarrow> lane_world \<Rightarrow> bool" where
  step_accept:
    "q_items (w_queue w) (''lane_'' @ fresh) = None \<Longrightarrow>
     enqueue db_error t fresh callable lane label metadata (w_queue w) (w_db w) = (Inr reply, q, db) \<Longrightarrow>
     coerce_lane lane = Inr l \<Longrightarrow>
     lane_step w (Accepted l (''lane_'' @ fresh))
       (w\<lparr>w_queue := q, w_db := db, w_dispatcher := w_dispatcher w \<or> \<not> q_started (w_queue w)\<rparr>)"
| step_refuse:
    "enqueue db_error t fresh callable lane label metadata (w_queue w) (w_db w) = (Inl e, q, db) \<Longrightarrow>
     lane_step w Internal
       (w\<lparr>w_queue := q, w_db := db, w_dispatcher := w_dispatcher w \<or> (q_started q \<and> \<not> q_started (w_queue w))\<rparr>)"
| step_start:
    "\<not> q_started (w_queue w) \<Longrightarrow> lane_step w Internal (w\<lparr>w_queue := start (w_queue w), w_dispatcher := True\<rparr>)"
| step_configure:
    "set_lane_concurrency lane v (w_queue w) = (Inr reply, q) \<Longrightarrow> coerce_lane lane = Inr l \<Longrightarrow>
     lane_step w (Configured l) (w\<lparr>w_queue := q\<rparr>)"
| step_dispatch:
    "w_dispatcher w \<Longrightarrow> \<not> q_shutdown (w_queue w) \<Longrightarrow>
     next_dispatchable_item db_error t (w_queue w) (w_db w) = (Some r, q, db) \<Longrightarrow>
     lane_step w (Dispatched (li_lane (item_at q r)) (li_id (item_at q r)))
       (w\<lparr>w_queue := q, w_db := db, w_workers := w_workers w @ [li_id (item_at q r)]\<rparr>)"
| step_drained:
    "w_dispatcher w \<Longrightarrow> \<not> q_shutdown (w_queue w) \<Longrightarrow>
     next_dispatchable_item db_error t (w_queue w) (w_db w) = (None, q, db) \<Longrightarrow>
     q_draining q \<Longrightarrow> \<not> has_pending q \<Longrightarrow> \<not> has_active q \<Longrightarrow>
     lane_step w Internal (w\<lparr>w_queue := q\<lparr>q_shutdown := True\<rparr>, w_db := db, w_dispatcher := False\<rparr>)"
| step_stopped:
    "w_dispatcher w \<Longrightarrow> q_shutdown (w_queue w) \<Longrightarrow> lane_step w Internal (w\<lparr>w_dispatcher := False\<rparr>)"
| step_work:
    "k \<in> set (w_workers w) \<Longrightarrow> run_item db_error t k got (w_queue w) (w_db w) = (q, db) \<Longrightarrow>
     lane_step w (Finished k) (w\<lparr>w_queue := q, w_db := db, w_workers := remove1 k (w_workers w)\<rparr>)"
| step_begin_shutdown:
    "lane_step w Internal (w\<lparr>w_queue := begin_shutdown (w_queue w)\<rparr>)"
| step_end_shutdown:
    "end_shutdown db_error t (w_queue w) (w_db w) = (result, q, db) \<Longrightarrow>
     lane_step w Internal (w\<lparr>w_queue := q, w_db := db\<rparr>)"

inductive_cases dispatched_stepE: "lane_step w (Dispatched l k) w'"

text \<open>A history: the events of the steps, in their order.\<close>

inductive lane_trace :: "lane_world \<Rightarrow> lane_event list \<Rightarrow> lane_world \<Rightarrow> bool" where
  trace_start: "lane_trace w [] w"
| trace_step: "lane_trace w events w' \<Longrightarrow> lane_step w' e w'' \<Longrightarrow> lane_trace w (events @ [e]) w''"

subsection \<open>The invariant\<close>

text \<open>
  Every item is in the container its moments say: queued on its lane while not started, active
  on its lane while started and not finished; the containers hold nothing else; a lane's queue
  is in the order of arrival, behind everything of the lane that was started; and the total
  limit is kept.
\<close>

definition waiting :: "lane_item \<Rightarrow> bool" where
  "waiting item \<longleftrightarrow> li_started_at item = None \<and> li_finished_at item = None"

definition running :: "lane_item \<Rightarrow> bool" where
  "running item \<longleftrightarrow> li_started_at item \<noteq> None \<and> li_finished_at item = None"

definition lane_ok :: "lane_queue \<Rightarrow> lane \<Rightarrow> bool" where
  "lane_ok q l \<longleftrightarrow>
     q_pending q l = filter (\<lambda>r. li_lane (item_at q r) = l \<and> waiting (item_at q r)) [0..<length (q_heap q)] \<and>
     distinct (map fst (q_active q l)) \<and>
     (\<forall>k r. (k, r) \<in> set (q_active q l) \<longleftrightarrow>
        r < length (q_heap q) \<and> li_lane (item_at q r) = l \<and> running (item_at q r) \<and> k = li_id (item_at q r)) \<and>
     (\<forall>r r'. r < r' \<longrightarrow> r' < length (q_heap q) \<longrightarrow> li_lane (item_at q r) = l \<longrightarrow> li_lane (item_at q r') = l \<longrightarrow>
        waiting (item_at q r) \<longrightarrow> waiting (item_at q r'))"

definition lanes_ok :: "lane_queue \<Rightarrow> bool" where
  "lanes_ok q \<longleftrightarrow> (\<forall>l. lane_ok q l) \<and> int (total_active q) \<le> q_max_total q \<and>
     (\<forall>r < length (q_heap q). q_items q (li_id (item_at q r)) = Some r) \<and>
     (\<forall>k r. q_items q k = Some r \<longrightarrow> r < length (q_heap q) \<and> li_id (item_at q r) = k) \<and>
     (\<forall>r < length (q_heap q). li_finished_at (item_at q r) \<noteq> None \<longrightarrow> li_started_at (item_at q r) \<noteq> None)"

definition world_ok :: "lane_world \<Rightarrow> bool" where
  "world_ok w \<longleftrightarrow> lanes_ok (w_queue w) \<and> distinct (w_workers w) \<and>
     (\<forall>k. k \<in> set (w_workers w) \<longleftrightarrow> (\<exists>l. k \<in> fst ` set (q_active (w_queue w) l)))"

subsection \<open>Every step keeps it\<close>

lemma item_at_simps [simp]:
  "item_at (q\<lparr>q_checkpoint_error := e\<rparr>) r = item_at q r" "item_at (q\<lparr>q_pending := p\<rparr>) r = item_at q r"
  "item_at (q\<lparr>q_active := a\<rparr>) r = item_at q r" "item_at (q\<lparr>q_recent := rs\<rparr>) r = item_at q r"
  "item_at (q\<lparr>q_cursor := c\<rparr>) r = item_at q r" "item_at (q\<lparr>q_started := b\<rparr>) r = item_at q r"
  "item_at (q\<lparr>q_shutdown := b\<rparr>) r = item_at q r" "item_at (q\<lparr>q_items := m\<rparr>) r = item_at q r"
  "item_at (q\<lparr>q_lane_concurrency := f\<rparr>) r = item_at q r"
  "item_at (q\<lparr>q_accepting := b\<rparr>) r = item_at q r" "item_at (q\<lparr>q_draining := b\<rparr>) r = item_at q r"
  by (simp_all add: item_at_def)

lemma lanes_ok_cong:
  assumes "q_heap q' = q_heap q" "q_pending q' = q_pending q" "q_active q' = q_active q" "q_items q' = q_items q"
    "q_max_total q' = q_max_total q"
  shows "lanes_ok q' = lanes_ok q"
  using assms by (simp add: lanes_ok_def lane_ok_def total_active_def item_at_def)

lemma persist_fields:
  assumes "persist_checkpoint db_error t q db = (q', db')"
  shows "q_heap q' = q_heap q" "q_pending q' = q_pending q" "q_active q' = q_active q" "q_items q' = q_items q"
    "q_max_total q' = q_max_total q" "q_shutdown q' = q_shutdown q" "q_cursor q' = q_cursor q" "q_draining q' = q_draining q"
    "q_accepting q' = q_accepting q" "q_started q' = q_started q" "q_lane_concurrency q' = q_lane_concurrency q"
    "q_recent q' = q_recent q" "q_recent_limit q' = q_recent_limit q"
  using assms by (auto simp: persist_checkpoint_def split: if_splits option.splits)

lemma persist_ok: "persist_checkpoint db_error t q db = (q', db') \<Longrightarrow> lanes_ok q' = lanes_ok q"
  by (rule lanes_ok_cong) (auto dest: persist_fields)

lemma total_active_alt: "total_active q = length (q_active q Main) + length (q_active q Cron) + length (q_active q Subagent) + length (q_active q System)"
  by (simp add: total_active_def lane_order_def)

lemma lane_okD:
  assumes "lanes_ok q"
  shows "q_pending q l = filter (\<lambda>r. li_lane (item_at q r) = l \<and> waiting (item_at q r)) [0..<length (q_heap q)]"
    and "distinct (map fst (q_active q l))"
    and "(k, r) \<in> set (q_active q l) \<longleftrightarrow>
        r < length (q_heap q) \<and> li_lane (item_at q r) = l \<and> running (item_at q r) \<and> k = li_id (item_at q r)"
    and "r < r' \<Longrightarrow> r' < length (q_heap q) \<Longrightarrow> li_lane (item_at q r) = li_lane (item_at q r') \<Longrightarrow>
        waiting (item_at q r) \<Longrightarrow> waiting (item_at q r')"
  using assms by (auto simp: lanes_ok_def lane_ok_def)

lemma lanes_okD:
  assumes "lanes_ok q"
  shows "int (total_active q) \<le> q_max_total q"
    and "r < length (q_heap q) \<Longrightarrow> q_items q (li_id (item_at q r)) = Some r"
    and "q_items q k = Some r \<Longrightarrow> r < length (q_heap q) \<and> li_id (item_at q r) = k"
    and "r < length (q_heap q) \<Longrightarrow> li_finished_at (item_at q r) \<noteq> None \<Longrightarrow> li_started_at (item_at q r) \<noteq> None"
  using assms by (auto simp: lanes_ok_def)

lemma add_item_ok:
  assumes ok: "lanes_ok q" and new: "q_items q (li_id item) = None" and w: "waiting item"
  shows "lanes_ok (add_item item q)"
proof -
  let ?n = "length (q_heap q)" and ?q = "add_item item q"
  have at: "item_at ?q r = (if r = ?n then item else item_at q r)" if "r < Suc ?n" for r
    using that by (auto simp: item_at_def add_item_def Let_def nth_append)
  have n: "length (q_heap ?q) = Suc ?n" by (simp add: add_item_def Let_def)
  have pend: "q_pending ?q l = filter (\<lambda>r. li_lane (item_at ?q r) = l \<and> waiting (item_at ?q r)) [0..<Suc ?n]" for l
  proof -
    have "filter (\<lambda>r. li_lane (item_at ?q r) = l \<and> waiting (item_at ?q r)) [0..<?n] = q_pending q l"
      unfolding lane_okD(1) [OF ok] by (rule filter_cong) (simp_all add: at)
    then show ?thesis using at [of ?n] w by (auto simp: add_item_def Let_def)
  qed
  have nr: "\<not> running item" using w by (simp add: waiting_def running_def)
  have act: "q_active ?q = q_active q" by (simp add: add_item_def Let_def)
  have tot: "total_active ?q = total_active q" by (simp add: total_active_def act)
  have its: "q_items ?q = (q_items q)(li_id item \<mapsto> ?n)" "q_max_total ?q = q_max_total q" by (simp_all add: add_item_def Let_def)
  have idn: "li_id (item_at q r) \<noteq> li_id item" if "r < ?n" for r using lanes_okD(2) [OF ok that] new by auto
  have "lane_ok ?q l" for l
    unfolding lane_ok_def n act
    using pend [of l] lane_okD(2,3) [OF ok] lane_okD(4) [OF ok] nr w by (auto simp: at less_Suc_eq)
  then show ?thesis
    unfolding lanes_ok_def n tot its
    using lanes_okD [OF ok] idn w by (auto simp: at less_Suc_eq waiting_def)
qed

lemma update_new: "k \<notin> fst ` set al \<Longrightarrow> AList.update k v al = al @ [(k, v)]"
  by (induction al) auto

text \<open>One item of the heap changes its moments, not its id and lane.\<close>

lemma heap_update_at:
  assumes "q_heap q' = (q_heap q)[r := x]" and "r < length (q_heap q)"
  shows "item_at q' i = (if i = r then x else item_at q i)"
  using assms by (auto simp: item_at_def)

lemma head_waits:
  assumes "lanes_ok q" and "q_pending q l \<noteq> []"
  shows "hd (q_pending q l) < length (q_heap q)" "li_lane (item_at q (hd (q_pending q l))) = l"
    "waiting (item_at q (hd (q_pending q l)))"
  using hd_in_set [OF assms(2)] unfolding lane_okD(1) [OF assms(1)] by auto

lemma start_item_active:
  assumes ok: "lanes_ok q" and p: "q_pending q l \<noteq> []"
  shows "q_active (start_item t l q) m = q_active q m @
      (if m = l then [(li_id (item_at q (hd (q_pending q l))), hd (q_pending q l))] else [])"
    and "hd (q_pending q l) < length (q_heap q)"
    and "li_id (item_at q (hd (q_pending q l))) \<notin> fst ` set (q_active q n)"
proof -
  let ?r = "hd (q_pending q l)" and ?n = "length (q_heap q)"
  note r = head_waits [OF ok p]
  have fresh: "li_id (item_at q ?r) \<notin> fst ` set (q_active q m)" for m
  proof
    assume "li_id (item_at q ?r) \<in> fst ` set (q_active q m)"
    then obtain r' where r': "(li_id (item_at q ?r), r') \<in> set (q_active q m)" by force
    with lane_okD(3) [OF ok, of "li_id (item_at q ?r)" r' m]
    have r2: "r' < ?n" "running (item_at q r')" "li_id (item_at q ?r) = li_id (item_at q r')" by simp_all
    with lanes_okD(2) [OF ok r2(1)] lanes_okD(2) [OF ok r(1)] have "r' = ?r" by simp
    with r2(2) r(3) show False by (simp add: waiting_def running_def)
  qed
  then show "li_id (item_at q ?r) \<notin> fst ` set (q_active q n)" .
  show "q_active (start_item t l q) m = q_active q m @ (if m = l then [(li_id (item_at q ?r), ?r)] else [])"
    using fresh [of l] by (cases "m = l") (simp_all add: start_item_def Let_def update_new)
  show "?r < ?n" by (rule r(1))
qed

lemma start_item_ok:
  assumes ok: "lanes_ok q" and p: "q_pending q l \<noteq> []" and tot: "int (total_active q) < q_max_total q"
  shows "lanes_ok (start_item t l q)"
proof -
  let ?n = "length (q_heap q)" and ?q = "start_item t l q"
  obtain r rest where pl: "q_pending q l = r # rest" using p by (cases "q_pending q l") auto
  have "r \<in> set (q_pending q l)" by (simp add: pl)
  then have r: "r < ?n" "li_lane (item_at q r) = l" "waiting (item_at q r)" by (auto simp: lane_okD(1) [OF ok])
  let ?x = "(item_at q r)\<lparr>li_status := ''running'', li_started_at := Some (utc_now_iso t)\<rparr>"
  have heap: "q_heap ?q = (q_heap q)[r := ?x]" by (simp add: start_item_def Let_def pl)
  note at = heap_update_at [OF heap r(1)]
  have n: "length (q_heap ?q) = ?n" by (simp add: heap)
  have x: "\<not> waiting ?x" "running ?x" using r(3) by (auto simp: waiting_def running_def)
  have sorted: "sorted_wrt (<) (q_pending q l)" unfolding lane_okD(1) [OF ok] by (intro sorted_wrt_filter) simp
  then have first: "r < r'" if "r' \<in> set rest" for r' using that by (simp add: pl)
  have pend: "q_pending ?q m = filter (\<lambda>i. li_lane (item_at ?q i) = m \<and> waiting (item_at ?q i)) [0..<?n]" for m
  proof (cases "m = l")
    case True
    have "filter (\<lambda>i. li_lane (item_at ?q i) = l \<and> waiting (item_at ?q i)) [0..<?n] = filter (\<lambda>i. i \<noteq> r) (q_pending q l)"
      unfolding lane_okD(1) [OF ok] by (auto simp: at x intro!: filter_cong)
    also have "\<dots> = rest" using first by (auto simp: pl intro!: filter_True)
    finally show ?thesis using True by (simp add: start_item_def Let_def pl)
  next
    case False
    have "q_pending ?q m = q_pending q m" using False by (simp add: start_item_def Let_def)
    then show ?thesis using False r(2) unfolding lane_okD(1) [OF ok] by (auto simp: at intro!: filter_cong)
  qed
  note act = start_item_active(1) [OF ok p, unfolded pl list.sel] and fresh = start_item_active(3) [OF ok p, unfolded pl list.sel]
  have lanes: "lane_ok ?q m" for m
  proof -
    have "distinct (map fst (q_active ?q m))" using lane_okD(2) [OF ok, of m] fresh [of m] by (auto simp: act)
    moreover have "(k, i) \<in> set (q_active ?q m) \<longleftrightarrow> i < ?n \<and> li_lane (item_at ?q i) = m \<and> running (item_at ?q i) \<and> k = li_id (item_at ?q i)" for k i
      using lane_okD(3) [OF ok, of k i m] r x by (auto simp: act at waiting_def running_def)
    moreover have "waiting (item_at ?q j)" if "i < j" "j < ?n" "li_lane (item_at ?q i) = m" "li_lane (item_at ?q j) = m" "waiting (item_at ?q i)" for i j
    proof -
      have ij: "i \<noteq> r" "li_lane (item_at q i) = m" "li_lane (item_at q j) = m" "waiting (item_at q i)" using that x r(2) by (auto simp: at split: if_splits)
      moreover have "j \<noteq> r"
      proof
        assume "j = r"
        then have "i \<in> set (q_pending q l)" using ij r that by (auto simp: lane_okD(1) [OF ok])
        then show False using \<open>j = r\<close> that(1) first [of i] ij(1) by (auto simp: pl)
      qed
      ultimately show ?thesis using lane_okD(4) [OF ok that(1,2)] by (simp add: at)
    qed
    ultimately show ?thesis unfolding lane_ok_def n using pend [of m] by auto
  qed
  have len: "length (q_active ?q m) = length (q_active q m) + (if m = l then 1 else 0)" for m by (simp add: act)
  have "total_active ?q = Suc (total_active q)" unfolding total_active_alt len by (cases l) simp_all
  moreover have "q_items ?q = q_items q" "q_max_total ?q = q_max_total q" by (simp_all add: start_item_def Let_def)
  ultimately show ?thesis unfolding lanes_ok_def n using lanes lanes_okD [OF ok] tot by (auto simp: at)
qed


lemma finish_ok:
  assumes ok: "lanes_ok q" and k: "q_items q k = Some r" and run: "running (item_at q r)"
    and x: "li_id x = k" "li_lane x = li_lane (item_at q r)" "li_started_at x = li_started_at (item_at q r)" "li_finished_at x \<noteq> None"
    and q': "q_heap q' = (q_heap q)[r := x]" "q_active q' = (q_active q)(li_lane x := AList.delete k (q_active q (li_lane x)))"
      "q_pending q' = q_pending q" "q_items q' = q_items q" "q_max_total q' = q_max_total q"
  shows "lanes_ok q'"
proof -
  let ?n = "length (q_heap q)"
  have r: "r < ?n" "li_id (item_at q r) = k" using lanes_okD(3) [OF ok k] by auto
  note at = heap_update_at [OF q'(1) r(1)]
  have n: "length (q_heap q') = ?n" by (simp add: q'(1))
  have nx: "\<not> waiting x" "\<not> running x" "\<not> waiting (item_at q r)" using x(4) run by (auto simp: waiting_def running_def)
  have uniq: "i = r" if "i < ?n" "li_id (item_at q i) = k" for i
    using lanes_okD(2) [OF ok that(1)] that(2) k by simp
  have own: "(k, i) \<in> set (q_active q m) \<longleftrightarrow> i = r \<and> m = li_lane x" for i m
  proof
    assume "(k, i) \<in> set (q_active q m)"
    with lane_okD(3) [OF ok, of k i m] have i: "i < ?n" "li_lane (item_at q i) = m" "li_id (item_at q i) = k" by simp_all
    with uniq [OF i(1,3)] x(2) show "i = r \<and> m = li_lane x" by simp
  next
    assume "i = r \<and> m = li_lane x"
    with lane_okD(3) [OF ok, of k r m] r run x(2) show "(k, i) \<in> set (q_active q m)" by simp
  qed
  have lanes: "lane_ok q' m" for m
  proof -
    have "q_pending q' m = filter (\<lambda>i. li_lane (item_at q' i) = m \<and> waiting (item_at q' i)) [0..<?n]"
      unfolding q'(3) lane_okD(1) [OF ok] using nx by (auto simp: at intro!: filter_cong)
    moreover have "distinct (map fst (q_active q' m))"
      using lane_okD(2) [OF ok] by (simp add: q'(2) distinct_delete)
    moreover have "(j, i) \<in> set (q_active q' m) \<longleftrightarrow> i < ?n \<and> li_lane (item_at q' i) = m \<and> running (item_at q' i) \<and> j = li_id (item_at q' i)" for j i
    proof -
      have "(j, i) \<in> set (q_active q' m) \<longleftrightarrow> (j, i) \<in> set (q_active q m) \<and> j \<noteq> k"
        using own [of i m] by (auto simp: q'(2) AList.delete_eq)
      also have "\<dots> \<longleftrightarrow> i < ?n \<and> li_lane (item_at q i) = m \<and> running (item_at q i) \<and> j = li_id (item_at q i) \<and> i \<noteq> r"
        unfolding lane_okD(3) [OF ok, of j i m] using uniq [of i] r(2) by blast
      finally show ?thesis using nx by (auto simp: at)
    qed
    moreover have "waiting (item_at q' j)" if "i < j" "j < ?n" "li_lane (item_at q' i) = m" "li_lane (item_at q' j) = m" "waiting (item_at q' i)" for i j
    proof -
      have ij: "i \<noteq> r" using that nx by (auto simp: at)
      have "waiting (item_at q j)"
        using that ij x(2) by (intro lane_okD(4) [OF ok that(1,2)]) (auto simp: at split: if_splits)
      then show ?thesis using nx by (auto simp: at)
    qed
    ultimately show ?thesis unfolding lane_ok_def n by auto
  qed
  have len: "length (AList.delete k al) \<le> length al" for al :: "(string \<times> nat) list"
    by (simp add: AList.delete_eq)
  have "total_active q' \<le> total_active q"
    using len by (cases "li_lane x") (simp_all add: total_active_alt q'(2))
  then show ?thesis
    unfolding lanes_ok_def n q'(4,5) using lanes lanes_okD [OF ok] r x run by (auto simp: at running_def)
qed

lemma lane_order_UNIV: "l \<in> set lane_order"
  by (cases l) (simp_all add: lane_order_def)

lemma length_lane_order [simp]: "length lane_order = 4"
  by (simp add: lane_order_def)

lemma dispatchedE:
  assumes "next_dispatchable_item db_error t q db = (Some r, q', db')"
  obtains k where "k < 4" "int (total_active q) < q_max_total q"
    "eligible q (lane_at (q_cursor q + k))" "\<And>j. j < k \<Longrightarrow> \<not> eligible q (lane_at (q_cursor q + j))"
    "r = hd (q_pending q (lane_at (q_cursor q + k)))"
    "lanes_ok q' = lanes_ok (start_item t (lane_at (q_cursor q + k)) q)"
    "q_heap q' = q_heap (start_item t (lane_at (q_cursor q + k)) q)"
    "q_active q' = q_active (start_item t (lane_at (q_cursor q + k)) q)"
    "q_pending q' = q_pending (start_item t (lane_at (q_cursor q + k)) q)"
    "q_cursor q' = (q_cursor q + k + 1) mod 4" "q_items q' = q_items q"
    "q_lane_concurrency q' = q_lane_concurrency q" "q_max_total q' = q_max_total q"
proof -
  from assms obtain k q1 where f: "find (\<lambda>k. eligible q (lane_at (q_cursor q + k))) [0..<4] = Some k"
    and p: "persist_checkpoint db_error t (start_item t (lane_at (q_cursor q + k)) q) db = (q1, db')"
    and q': "q' = q1\<lparr>q_cursor := (q_cursor q + k + 1) mod 4\<rparr>" and m: "int (total_active q) < q_max_total q"
    and r: "r = hd (q_pending q (lane_at (q_cursor q + k)))"
    by (auto simp: next_dispatchable_item_def Let_def split: if_splits option.splits prod.splits)
  from f have "k < 4" "eligible q (lane_at (q_cursor q + k))" "\<And>j. j < k \<Longrightarrow> \<not> eligible q (lane_at (q_cursor q + j))"
    by (auto simp: find_Some_iff)
  moreover have "lanes_ok q' = lanes_ok q1" unfolding q' by (rule lanes_ok_cong) simp_all
  ultimately show thesis
    using m r persist_ok [OF p] persist_fields [OF p] by (intro that [of k]) (simp_all add: q' start_item_def Let_def)
qed

lemma lane_near: "\<exists>k < 4. lane_at (c + k) = l"
proof -
  from lane_order_UNIV [of l] obtain i where i: "i < 4" "lane_order ! i = l" by (auto simp: in_set_conv_nth)
  have "(c + (i + 3 * c) mod 4) mod 4 = i" using i(1) by presburger
  with i(2) show ?thesis by (intro exI [of _ "(i + 3 * c) mod 4"]) (simp add: lane_at_def)
qed

lemma not_dispatched:
  assumes "next_dispatchable_item db_error t q db = (None, q', db')"
  shows "q' = q" "db' = db" "q_max_total q \<le> int (total_active q) \<or> (\<forall>l. \<not> eligible q l)"
proof -
  have near: "(\<forall>k < 4. \<not> eligible q (lane_at (q_cursor q + k))) \<Longrightarrow> \<not> eligible q l" for l
    using lane_near [of "q_cursor q" l] by auto
  show "q' = q" "db' = db" "q_max_total q \<le> int (total_active q) \<or> (\<forall>l. \<not> eligible q l)"
    using assms near by (auto simp: next_dispatchable_item_def Let_def find_None_iff split: if_splits option.splits prod.splits)
qed

text \<open>What finishing an item writes.\<close>

lemma finished_item_simps [simp]:
  "li_id (finished_item t p x) = li_id x" "li_lane (finished_item t p x) = li_lane x"
  "li_started_at (finished_item t p x) = li_started_at x" "li_finished_at (finished_item t p x) = Some (utc_now_iso t)"
  by (simp_all add: finished_item_def)

lemma run_item_effect:
  assumes "run_item db_error t k got q db = (q', db')" and "q_items q k = Some r"
  shows "q_heap q' = (q_heap q)[r := finished_item t (report_of got) (item_at q r)]"
    "q_active q' = (q_active q)(li_lane (item_at q r) := AList.delete k (q_active q (li_lane (item_at q r))))"
    "q_pending q' = q_pending q" "q_items q' = q_items q" "q_max_total q' = q_max_total q" "q_cursor q' = q_cursor q"
    "q_recent q' = take (nat (q_recent_limit q)) (r # q_recent q)"
proof -
  let ?l = "li_lane (item_at q r)"
  from assms have p: "persist_checkpoint db_error t (q\<lparr>q_heap := (q_heap q)[r := finished_item t (report_of got) (item_at q r)],
      q_active := (q_active q)(?l := AList.delete k (q_active q ?l)), q_recent := take (nat (q_recent_limit q)) (r # q_recent q)\<rparr>) db = (q', db')"
    by (simp add: run_item_def finish_item_def Let_def)
  show "q_heap q' = (q_heap q)[r := finished_item t (report_of got) (item_at q r)]"
    "q_active q' = (q_active q)(?l := AList.delete k (q_active q ?l))"
    "q_pending q' = q_pending q" "q_items q' = q_items q" "q_max_total q' = q_max_total q" "q_cursor q' = q_cursor q"
    "q_recent q' = take (nat (q_recent_limit q)) (r # q_recent q)"
    using persist_fields [OF p] by simp_all
qed

text \<open>The start of a history: a queue without items, or one restored with distinct ids.\<close>

lemma empty_ok: "lanes_ok (empty_lane_queue c m n b key)"
  by (auto simp: lanes_ok_def lane_ok_def empty_lane_queue_def total_active_alt)

text \<open>Queueing either adds one item or leaves the lanes as they are.\<close>

definition lanes_same :: "lane_queue \<Rightarrow> lane_queue \<Rightarrow> bool" where
  "lanes_same q q' \<longleftrightarrow> q_heap q' = q_heap q \<and> q_pending q' = q_pending q \<and> q_active q' = q_active q \<and>
     q_items q' = q_items q \<and> q_max_total q' = q_max_total q \<and> q_cursor q' = q_cursor q"

lemma lanes_same_refl [simp]: "lanes_same q q"
  by (simp add: lanes_same_def)

lemma lanes_same_ok: "lanes_same q q' \<Longrightarrow> lanes_ok q' = lanes_ok q"
  by (rule lanes_ok_cong) (simp_all add: lanes_same_def)

lemma lanes_same_at: "lanes_same q q' \<Longrightarrow> item_at q' r = item_at q r"
  by (simp add: lanes_same_def item_at_def)

lemma persist_same: "persist_checkpoint db_error t q db = (q', db') \<Longrightarrow> lanes_same q q'"
  using persist_fields [of db_error t q db q' db'] by (simp add: lanes_same_def)

lemma lanes_same_trans: "lanes_same q q' \<Longrightarrow> lanes_same q' q'' \<Longrightarrow> lanes_same q q''"
  by (simp add: lanes_same_def)

lemma lanes_same_simps [simp]:
  "lanes_same q (q\<lparr>q_started := b\<rparr>)" "lanes_same q (q\<lparr>q_lane_concurrency := f\<rparr>)" "lanes_same q (q\<lparr>q_shutdown := b\<rparr>)"
  "lanes_same q (q\<lparr>q_accepting := b, q_draining := b'\<rparr>)" "lanes_same q (q\<lparr>q_checkpoint_error := e\<rparr>)"
  by (simp_all add: lanes_same_def)

lemma add_item_same: "lanes_same q u \<Longrightarrow> lanes_same (add_item item q) (add_item item u)"
  by (simp add: lanes_same_def add_item_def Let_def)

lemma enqueue_effect:
  "enqueue db_error t fresh callable lane label metadata q db \<in> {(x, q', db').
     (\<forall>e. x = Inl e \<longrightarrow> lanes_same q q') \<and>
     (\<forall>reply l. x = Inr reply \<longrightarrow> coerce_lane lane = Inr l \<longrightarrow> q_accepting q \<and> q_started q' \<and>
        (\<exists>item. li_id item = ''lane_'' @ fresh \<and> li_lane item = l \<and> waiting item \<and> lanes_same (add_item item q) q'))}"
  unfolding enqueue_def
proof (intro branch)
  fix l meta item q1 u v
  assume l: "coerce_lane lane = Inr l"
    and item: "item = \<lparr>li_id = ''lane_'' @ fresh, li_lane = l, li_label = sor (strip label) ''Queued work'',
      li_metadata = meta, li_status = ''queued'', li_enqueued_at = utc_now_iso t, li_started_at = None,
      li_finished_at = None, li_run_id = snone (tok (dget meta ''run_id'')), li_summary = None, li_error = None, li_result = None\<rparr>"
    and q1: "q1 = (if q_started q then q else start q)" and acc: "\<not> \<not> q_accepting q1"
    and p: "persist_checkpoint db_error t (add_item item q1) db = (u, v)"
  have "lanes_same q q1" using q1 by (simp add: start_def)
  with persist_same [OF p] have "lanes_same (add_item item q) u" by (metis add_item_same lanes_same_trans)
  moreover have "q_accepting q" "q_started u" using acc q1 persist_fields(10) [OF p] by (auto simp: start_def add_item_def Let_def split: if_splits)
  moreover have "li_id item = ''lane_'' @ fresh" "li_lane item = l" "waiting item" using item by (simp_all add: waiting_def)
  ultimately show "(Inr [(''queued'', PBool True), (''item_id'', PStr (li_id item)), (''lane'', PStr (lane_name l)),
                (''status'', PStr (li_status item)), (''snapshot'', PDict (queue_snapshot u))], u, v)
      \<in> {(x, q', db'). (\<forall>e. x = Inl e \<longrightarrow> lanes_same q q') \<and>
     (\<forall>reply l. x = Inr reply \<longrightarrow> coerce_lane lane = Inr l \<longrightarrow> q_accepting q \<and> q_started q' \<and>
        (\<exists>item. li_id item = ''lane_'' @ fresh \<and> li_lane item = l \<and> waiting item \<and> lanes_same (add_item item q) q'))}"
    using l by auto
qed (auto simp: start_def)

lemma accept_effect:
  assumes "enqueue db_error t fresh callable lane label metadata q db = (Inr reply, q', db')" and "coerce_lane lane = Inr l"
  obtains item where "li_id item = ''lane_'' @ fresh" "li_lane item = l" "waiting item" "lanes_same (add_item item q) q'"
    "q_accepting q" "q_started q'"
  using enqueue_effect [of db_error t fresh callable lane label metadata q db] assms by auto

lemma refuse_effect:
  "enqueue db_error t fresh callable lane label metadata q db = (Inl e, q', db') \<Longrightarrow> lanes_same q q'"
  using enqueue_effect [of db_error t fresh callable lane label metadata q db] by auto

lemma world_ok_simps:
  "world_ok w \<Longrightarrow> lanes_ok (w_queue w)"
  "world_ok w \<Longrightarrow> k \<in> set (w_workers w) \<longleftrightarrow> (\<exists>l. k \<in> fst ` set (q_active (w_queue w) l))"
  "world_ok w \<Longrightarrow> distinct (w_workers w)"
  by (auto simp: world_ok_def)

lemma dispatch_ok:
  assumes ok: "world_ok w" and d: "next_dispatchable_item db_error t (w_queue w) (w_db w) = (Some r, q, db)"
  shows "world_ok (w\<lparr>w_queue := q, w_db := db, w_workers := w_workers w @ [li_id (item_at q r)]\<rparr>)"
proof -
  let ?q = "w_queue w"
  from d obtain k where k: "int (total_active ?q) < q_max_total ?q" "eligible ?q (lane_at (q_cursor ?q + k))"
    "r = hd (q_pending ?q (lane_at (q_cursor ?q + k)))"
    "lanes_ok q = lanes_ok (start_item t (lane_at (q_cursor ?q + k)) ?q)"
    "q_heap q = q_heap (start_item t (lane_at (q_cursor ?q + k)) ?q)"
    "q_active q = q_active (start_item t (lane_at (q_cursor ?q + k)) ?q)" by (rule dispatchedE)
  define l where "l = lane_at (q_cursor ?q + k)"
  note k' = k [folded l_def]
  have pend: "q_pending ?q l \<noteq> []" using k'(2) by (simp add: eligible_def)
  note started = start_item_ok [OF world_ok_simps(1) [OF ok] pend k'(1), of t] start_item_active [OF world_ok_simps(1) [OF ok] pend]
  have new: "li_id (item_at q r) = li_id (item_at ?q r)"
    using started(3) k'(3,5) by (auto simp: item_at_def start_item_def Let_def nth_list_update)
  have keys: "fst ` set (q_active q m) = fst ` set (q_active ?q m) \<union> (if m = l then {li_id (item_at ?q r)} else {})" for m
    using started(2) [of t m] k'(3,6) by auto
  have fresh: "li_id (item_at ?q r) \<notin> set (w_workers w)"
    using started(4) k'(3) world_ok_simps(2) [OF ok] by blast
  have "(\<exists>m. j \<in> fst ` set (q_active q m)) \<longleftrightarrow> j \<in> set (w_workers w) \<or> j = li_id (item_at q r)" for j
    unfolding keys new world_ok_simps(2) [OF ok] by (auto split: if_splits)
  with started(1) k'(4) fresh new world_ok_simps(3) [OF ok] show ?thesis by (auto simp: world_ok_def)
qed

lemma work_ok:
  assumes ok: "world_ok w" and k: "k \<in> set (w_workers w)"
    and r: "run_item db_error t k got (w_queue w) (w_db w) = (q, db)"
  shows "world_ok (w\<lparr>w_queue := q, w_db := db, w_workers := remove1 k (w_workers w)\<rparr>)"
proof -
  let ?q = "w_queue w"
  note okq = world_ok_simps(1) [OF ok]
  from k world_ok_simps(2) [OF ok] obtain l i where a: "(k, i) \<in> set (q_active ?q l)" by force
  with lane_okD(3) [OF okq, of k i l] have i: "i < length (q_heap ?q)" "li_lane (item_at ?q i) = l"
    "running (item_at ?q i)" "li_id (item_at ?q i) = k" by simp_all
  with lanes_okD(2) [OF okq i(1)] have items: "q_items ?q k = Some i" by simp
  note eff = run_item_effect [OF r items]
  have "lanes_ok q"
    by (rule finish_ok [OF okq items i(3), of "finished_item t (report_of got) (item_at ?q i)"]) (simp_all add: eff i(4))
  moreover have "(\<exists>m. j \<in> fst ` set (q_active q m)) \<longleftrightarrow> j \<in> set (w_workers w) \<and> j \<noteq> k" for j
  proof -
    have only: "m = l" if "(k, i') \<in> set (q_active ?q m)" for m i'
      using that lane_okD(3) [OF okq, of k i' m] lanes_okD(2) [OF okq, of i'] items i(2) by auto
    have "j \<in> fst ` set (q_active q m) \<longleftrightarrow> j \<in> fst ` set (q_active ?q m) \<and> j \<noteq> k" for m
      using only [of _ m] i(2) by (cases "m = l") (auto simp: eff(2) AList.delete_eq)
    then show ?thesis unfolding world_ok_simps(2) [OF ok] by blast
  qed
  ultimately show ?thesis using world_ok_simps(3) [OF ok] by (simp add: world_ok_def)
qed

lemma world_same: "lanes_same (w_queue w) q \<Longrightarrow> world_ok w \<Longrightarrow> w_queue w' = q \<Longrightarrow> w_workers w' = w_workers w \<Longrightarrow> world_ok w'"
  using lanes_same_ok [of "w_queue w" q] by (simp add: world_ok_def lanes_same_def)

text \<open>Every step other than the three that carry an item keeps the lanes.\<close>

fun quiet :: "lane_event \<Rightarrow> bool" where
  "quiet Internal = True"
| "quiet (Configured l) = True"
| "quiet e = False"

lemma quiet_same: "lane_step w e w' \<Longrightarrow> quiet e \<Longrightarrow> lanes_same (w_queue w) (w_queue w') \<and> w_workers w' = w_workers w"
proof (induction rule: lane_step.induct)
  case (step_configure lane v w reply q l)
  then show ?case by (auto simp: set_lane_concurrency_def Let_def)
next
  case (step_drained w db_error t q db)
  with not_dispatched(1) [OF step_drained.hyps(3)] show ?case by simp
next
  case (step_end_shutdown db_error t w result q db)
  then obtain p: "persist_checkpoint db_error t ((w_queue w)\<lparr>q_shutdown := True\<rparr>) (w_db w) = (q, db)"
    by (auto simp: end_shutdown_def split: prod.splits)
  from lanes_same_trans [OF lanes_same_simps(3) persist_same [OF p]] show ?case by simp
qed (auto simp: start_def begin_shutdown_def dest: refuse_effect)

lemma quiet_ok: "lane_step w e w' \<Longrightarrow> quiet e \<Longrightarrow> world_ok w \<Longrightarrow> world_ok w'"
  using quiet_same [of w e w'] world_same [of w "w_queue w'" w'] by simp

lemma accept_ok:
  assumes ok: "world_ok w" and new: "q_items (w_queue w) (''lane_'' @ fresh) = None"
    and e: "enqueue db_error t fresh callable lane label metadata (w_queue w) (w_db w) = (Inr reply, q, db)"
    and l: "coerce_lane lane = Inr l"
  shows "world_ok (w\<lparr>w_queue := q, w_db := db, w_dispatcher := d\<rparr>)"
proof -
  from e l obtain item where item: "li_id item = ''lane_'' @ fresh" "waiting item" "lanes_same (add_item item (w_queue w)) q"
    by (rule accept_effect)
  from item(1) new have "q_items (w_queue w) (li_id item) = None" by simp
  from add_item_ok [OF world_ok_simps(1) [OF ok] this item(2)] lanes_same_ok [OF item(3)] have "lanes_ok q" by simp
  moreover have "q_active q = q_active (w_queue w)" using item(3) by (simp add: lanes_same_def add_item_def Let_def)
  ultimately show ?thesis using ok by (simp add: world_ok_def)
qed

lemma world_ok_step:
  assumes "lane_step w e w'" and "world_ok w"
  shows "world_ok w'"
proof (cases "quiet e")
  case True
  then show ?thesis using quiet_ok assms by blast
next
  case False
  with assms show ?thesis by cases (auto intro: accept_ok dispatch_ok work_ok)
qed

lemma world_ok_trace: "lane_trace w events w' \<Longrightarrow> world_ok w \<Longrightarrow> world_ok w'"
  by (induction rule: lane_trace.induct) (auto intro: world_ok_step)

subsection \<open>Properties\<close>

definition accepted_on :: "lane \<Rightarrow> lane_event list \<Rightarrow> string list" where
  "accepted_on l events = concat (map (\<lambda>e. case e of Accepted m k \<Rightarrow> if m = l then [k] else [] | _ \<Rightarrow> []) events)"

definition dispatched_on :: "lane \<Rightarrow> lane_event list \<Rightarrow> string list" where
  "dispatched_on l events = concat (map (\<lambda>e. case e of Dispatched m k \<Rightarrow> if m = l then [k] else [] | _ \<Rightarrow> []) events)"

definition finished_ids :: "lane_event list \<Rightarrow> string list" where
  "finished_ids events = concat (map (\<lambda>e. case e of Finished k \<Rightarrow> [k] | _ \<Rightarrow> []) events)"

definition dispatched_ids :: "lane_event list \<Rightarrow> string list" where
  "dispatched_ids events = concat (map (\<lambda>e. case e of Dispatched m k \<Rightarrow> [k] | _ \<Rightarrow> []) events)"

lemma event_lists_simps [simp]:
  "accepted_on l [] = []" "dispatched_on l [] = []" "finished_ids [] = []" "dispatched_ids [] = []"
  "accepted_on l (evs @ evs') = accepted_on l evs @ accepted_on l evs'"
  "dispatched_on l (evs @ evs') = dispatched_on l evs @ dispatched_on l evs'"
  "finished_ids (evs @ evs') = finished_ids evs @ finished_ids evs'"
  "dispatched_ids (evs @ evs') = dispatched_ids evs @ dispatched_ids evs'"
  "accepted_on l [Accepted m k] = (if m = l then [k] else [])" "dispatched_on l [Dispatched m k] = (if m = l then [k] else [])"
  "dispatched_ids [Dispatched m k] = [k]" "finished_ids [Finished k] = [k]"
  "accepted_on l [Dispatched m k] = []" "accepted_on l [Finished k] = []" "dispatched_on l [Accepted m k] = []"
  "dispatched_on l [Finished k] = []" "finished_ids [Accepted m k] = []" "finished_ids [Dispatched m k] = []"
  "dispatched_ids [Accepted m k] = []" "dispatched_ids [Finished k] = []"
  by (simp_all add: accepted_on_def dispatched_on_def finished_ids_def dispatched_ids_def)

lemma quiet_lists [simp]:
  "quiet e \<Longrightarrow> accepted_on l [e] = []" "quiet e \<Longrightarrow> dispatched_on l [e] = []" "quiet e \<Longrightarrow> finished_ids [e] = []"
  "quiet e \<Longrightarrow> dispatched_ids [e] = []"
  by (cases e; simp add: accepted_on_def dispatched_on_def finished_ids_def dispatched_ids_def)+

definition pending_ids :: "lane_queue \<Rightarrow> lane \<Rightarrow> string list" where
  "pending_ids q l = map (\<lambda>r. li_id (item_at q r)) (q_pending q l)"

lemma pending_ids_same: "lanes_same q q' \<Longrightarrow> pending_ids q' l = pending_ids q l"
  by (simp add: pending_ids_def lanes_same_at) (simp add: lanes_same_def)

lemma pending_ids_add:
  "lanes_ok q \<Longrightarrow> pending_ids (add_item item q) l = pending_ids q l @ (if l = li_lane item then [li_id item] else [])"
  by (auto simp: pending_ids_def add_item_def Let_def item_at_def nth_append lane_okD(1))

lemma pending_ids_dispatch:
  assumes ok: "lanes_ok q" and d: "next_dispatchable_item db_error t q db = (Some r, q', db')"
  shows "pending_ids q l = (if l = li_lane (item_at q' r) then [li_id (item_at q' r)] else []) @ pending_ids q' l"
    and "total_active q' = Suc (total_active q)" and "q_items q' = q_items q"
    and "eligible q (li_lane (item_at q' r))" and "int (total_active q) < q_max_total q"
    and "\<exists>k < 4. li_lane (item_at q' r) = lane_at (q_cursor q + k) \<and> (\<forall>j < k. \<not> eligible q (lane_at (q_cursor q + j))) \<and>
      q_cursor q' = (q_cursor q + k + 1) mod 4"
    and "q_active q' m = q_active q m @ (if m = li_lane (item_at q' r) then [(li_id (item_at q' r), r)] else [])"
proof -
  obtain k where k: "k < 4" "int (total_active q) < q_max_total q" "eligible q (lane_at (q_cursor q + k))"
    "\<And>j. j < k \<Longrightarrow> \<not> eligible q (lane_at (q_cursor q + j))" "r = hd (q_pending q (lane_at (q_cursor q + k)))"
    "q_heap q' = q_heap (start_item t (lane_at (q_cursor q + k)) q)"
    "q_active q' = q_active (start_item t (lane_at (q_cursor q + k)) q)"
    "q_pending q' = q_pending (start_item t (lane_at (q_cursor q + k)) q)"
    "q_cursor q' = (q_cursor q + k + 1) mod 4" "q_items q' = q_items q"
    using d by (elim dispatchedE) blast
  let ?m = "lane_at (q_cursor q + k)"
  have pend: "q_pending q ?m \<noteq> []" using k(3) by (simp add: eligible_def)
  note head = head_waits [OF ok pend, folded k(5)] and act = start_item_active [OF ok pend, folded k(5)]
  have heap: "q_heap q' = (q_heap q)[r := (item_at q r)\<lparr>li_status := ''running'', li_started_at := Some (utc_now_iso t)\<rparr>]"
    by (simp add: k(6) start_item_def Let_def k(5))
  note at = heap_update_at [OF heap head(1)]
  have m: "li_lane (item_at q' r) = ?m" "li_id (item_at q' r) = li_id (item_at q r)" using head(2) by (simp_all add: at)
  have rest: "q_pending q ?m = r # q_pending q' ?m" using pend by (simp add: k(5,8) start_item_def Let_def)
  have other: "q_pending q' l = q_pending q l" if "l \<noteq> ?m" for l using that by (simp add: k(8) start_item_def Let_def)
  have ids: "li_id (item_at q' i) = li_id (item_at q i)" for i by (simp add: at)
  show "pending_ids q l = (if l = li_lane (item_at q' r) then [li_id (item_at q' r)] else []) @ pending_ids q' l" for l
    unfolding pending_ids_def m ids using rest other by (cases "l = ?m") simp_all
  show act': "q_active q' m = q_active q m @ (if m = li_lane (item_at q' r) then [(li_id (item_at q' r), r)] else [])" for m
    unfolding k(7) m using act(1) by simp
  have len: "length (q_active q' n) = length (q_active q n) + (if n = ?m then 1 else 0)" for n using act' [of n] m(1) by simp
  show "total_active q' = Suc (total_active q)" unfolding total_active_alt len by (cases ?m) simp_all
  show "q_items q' = q_items q" "int (total_active q) < q_max_total q" by (fact k)+
  show "eligible q (li_lane (item_at q' r))" unfolding m(1) by (fact k(3))
  show "\<exists>k < 4. li_lane (item_at q' r) = lane_at (q_cursor q + k) \<and> (\<forall>j < k. \<not> eligible q (lane_at (q_cursor q + j))) \<and>
      q_cursor q' = (q_cursor q + k + 1) mod 4" unfolding m(1) using k(1,4,9) by blast
qed

lemma work_active:
  assumes ok: "world_ok w" and k: "k \<in> set (w_workers w)"
    and r: "run_item db_error t k got (w_queue w) (w_db w) = (q, db)"
  shows "pending_ids q l = pending_ids (w_queue w) l" and "Suc (total_active q) = total_active (w_queue w)"
    and "q_items q = q_items (w_queue w)" and "q_cursor q = q_cursor (w_queue w)"
    and "length (q_active q m) \<le> length (q_active (w_queue w) m)"
    and "q_pending q = q_pending (w_queue w)"
proof -
  let ?q = "w_queue w"
  note okq = world_ok_simps(1) [OF ok]
  from k world_ok_simps(2) [OF ok] obtain n i where a: "(k, i) \<in> set (q_active ?q n)" by force
  with lane_okD(3) [OF okq, of k i n] have i: "i < length (q_heap ?q)" "li_lane (item_at ?q i) = n" "li_id (item_at ?q i) = k" by simp_all
  with lanes_okD(2) [OF okq i(1)] have items: "q_items ?q k = Some i" by simp
  note eff = run_item_effect [OF r items]
  have ids: "li_id (item_at q j) = li_id (item_at ?q j)" for j by (simp add: heap_update_at [OF eff(1) i(1)])
  show "pending_ids q l = pending_ids ?q l" by (simp add: pending_ids_def ids eff(3))
  show "q_items q = q_items ?q" "q_cursor q = q_cursor ?q" "q_pending q = q_pending ?q" by (fact eff)+
  have "length (AList.delete k (q_active ?q n)) = length (removeAll k (map fst (q_active ?q n)))"
    by (metis AList.delete_keys length_map)
  also have "\<dots> = length (remove1 k (map fst (q_active ?q n)))"
    using lane_okD(2) [OF okq, of n] by (simp add: distinct_remove1_removeAll)
  also have "\<dots> = length (q_active ?q n) - 1" using a by (subst length_remove1) (force simp: image_iff)
  finally have len: "length (q_active q m) = length (q_active ?q m) - (if m = n then 1 else 0)" for m
    by (simp add: eff(2) i(2))
  then show "length (q_active q m) \<le> length (q_active ?q m)" by simp
  have "0 < length (q_active ?q n)" using a by auto
  then show "Suc (total_active q) = total_active ?q" unfolding total_active_alt len by (cases n) simp_all
qed

definition initial_world :: "(lane \<Rightarrow> int) \<Rightarrow> int \<Rightarrow> int \<Rightarrow> bool \<Rightarrow> string \<Rightarrow> saved \<Rightarrow> lane_world" where
  "initial_world c max_total recent_limit checkpointed key db =
     \<lparr>w_queue = empty_lane_queue c max_total recent_limit checkpointed key, w_db = db, w_dispatcher = False, w_workers = []\<rparr>"

lemma initial_world_ok: "world_ok (initial_world c m n b key db)"
  using empty_ok by (simp add: world_ok_def initial_world_def) (simp add: empty_lane_queue_def)

text \<open>What the events of a history say about the queue it leads to.\<close>

definition history_ok :: "lane_event list \<Rightarrow> lane_world \<Rightarrow> bool" where
  "history_ok events w \<longleftrightarrow>
     (\<forall>l. dispatched_on l events @ pending_ids (w_queue w) l = accepted_on l events) \<and>
     mset (dispatched_ids events) = mset (finished_ids events) + mset (w_workers w) \<and>
     (\<forall>k. (\<exists>l. k \<in> set (accepted_on l events)) \<longleftrightarrow> q_items (w_queue w) k \<noteq> None) \<and>
     (\<forall>l. distinct (accepted_on l events)) \<and> length (w_workers w) = total_active (w_queue w)"

lemma history_ok_step:
  assumes "lane_step w e w'" and "world_ok w" and h: "history_ok events w"
  shows "history_ok (events @ [e]) w'"
proof (cases "quiet e")
  case True
  from quiet_same [OF assms(1) this] have same: "lanes_same (w_queue w) (w_queue w')" "w_workers w' = w_workers w" by auto
  have "total_active (w_queue w') = total_active (w_queue w)" "q_items (w_queue w') = q_items (w_queue w)"
    using same(1) by (simp_all add: lanes_same_def total_active_def)
  with h True same(2) pending_ids_same [OF same(1)] show ?thesis by (simp add: history_ok_def)
next
  case False
  note okq = world_ok_simps(1) [OF assms(2)]
  from assms(1) show ?thesis
  proof cases
    case (step_accept fresh db_error t callable lane label metadata reply q db l)
    from step_accept(4,5) obtain item where item: "li_id item = ''lane_'' @ fresh" "li_lane item = l"
      "lanes_same (add_item item (w_queue w)) q" by (rule accept_effect)
    have "q_items q = (q_items (w_queue w))(''lane_'' @ fresh \<mapsto> length (q_heap (w_queue w)))"
      "total_active q = total_active (w_queue w)"
      using item by (simp_all add: lanes_same_def add_item_def Let_def total_active_def)
    moreover have "pending_ids q m = pending_ids (w_queue w) m @ (if m = l then [''lane_'' @ fresh] else [])" for m
      using pending_ids_same [OF item(3)] pending_ids_add [OF okq] item(1,2) by simp
    moreover have "''lane_'' @ fresh \<notin> set (accepted_on m events)" for m
      using h step_accept(3) unfolding history_ok_def by blast
    ultimately show ?thesis using h step_accept(1,2) by (auto simp: history_ok_def)
  next
    case (step_dispatch db_error t r q db)
    note eff = pending_ids_dispatch [OF okq step_dispatch(5)]
    from h step_dispatch(1,2) eff(2,3) eff(1) show ?thesis by (auto simp: history_ok_def split: if_splits)
  next
    case (step_work k db_error t got q db)
    note eff = work_active [OF assms(2) step_work(3,4)]
    have "length (remove1 k (w_workers w)) = length (w_workers w) - 1" "0 < length (w_workers w)"
      using step_work(3) by (auto simp: length_remove1)
    with h step_work(1,2,3) eff(1,2,3) show ?thesis by (auto simp: history_ok_def)
  qed (use False in auto)
qed

lemma history_ok_trace: "lane_trace w events w' \<Longrightarrow> world_ok w \<Longrightarrow> history_ok [] w \<Longrightarrow> history_ok events w'"
  by (induction rule: lane_trace.induct) (auto intro: history_ok_step world_ok_trace)

lemma initial_history: "history_ok [] (initial_world c m n b key db)"
  by (simp add: history_ok_def initial_world_def empty_lane_queue_def pending_ids_def total_active_alt)

lemma max_total_step:
  assumes "lane_step w e w'" and "world_ok w"
  shows "q_max_total (w_queue w') = q_max_total (w_queue w)"
proof (cases "quiet e")
  case True
  with quiet_same [OF assms(1)] show ?thesis by (simp add: lanes_same_def)
next
  case False
  from assms(1) show ?thesis
  proof cases
    case (step_accept fresh db_error t callable lane label metadata reply q db l)
    from step_accept(4,5) obtain item where "lanes_same (add_item item (w_queue w)) q" by (rule accept_effect)
    then show ?thesis using step_accept(2) by (simp add: lanes_same_def add_item_def Let_def)
  next
    case (step_dispatch db_error t r q db)
    from step_dispatch(5) have "q_max_total q = q_max_total (w_queue w)" by (elim dispatchedE)
    then show ?thesis using step_dispatch(2) by simp
  next
    case (step_work k db_error t got q db)
    from step_work(3) world_ok_simps(2) [OF assms(2)] obtain n i where "(k, i) \<in> set (q_active (w_queue w) n)" by force
    with lane_okD(3) [OF world_ok_simps(1) [OF assms(2)], of k i n] lanes_okD(2) [OF world_ok_simps(1) [OF assms(2)], of i]
    have "q_items (w_queue w) k = Some i" by simp
    from run_item_effect(5) [OF step_work(4) this] step_work(2) show ?thesis by simp
  qed (use False in auto)
qed

lemma max_total_trace: "lane_trace w events w' \<Longrightarrow> world_ok w \<Longrightarrow> q_max_total (w_queue w') = q_max_total (w_queue w)"
  by (induction rule: lane_trace.induct) (auto dest: max_total_step world_ok_trace)

lemma workers_bounded:
  assumes "lane_trace (initial_world c m n b key db) events w"
  shows "int (length (w_workers w)) \<le> max 1 (int_or (Some m) 4)"
proof -
  note ok = world_ok_trace [OF assms initial_world_ok]
  have "length (w_workers w) = total_active (w_queue w)"
    using history_ok_trace [OF assms initial_world_ok initial_history] by (simp only: history_ok_def)
  moreover have "q_max_total (w_queue w) = max 1 (int_or (Some m) 4)"
    unfolding max_total_trace [OF assms initial_world_ok] by (simp add: initial_world_def empty_lane_queue_def)
  ultimately show ?thesis using lanes_okD(1) [OF world_ok_simps(1) [OF ok]] by simp
qed

text \<open>
  C5. Each lane is a first-in first-out queue that loses and repeats nothing: in every history
  of calls, dispatches, completions and shutdowns, under every schedule of the threads, the items
  dispatched on a lane followed by those still queued are the items accepted on it, in the order
  of acceptance; the accepted ids are distinct; and every dispatched item is finished once or has
  its one running worker.
\<close>

theorem lanes_fifo_exactly_once:
  assumes "lane_trace (initial_world c m n b key db) events w"
  shows "(\<forall>l. accepted_on l events = dispatched_on l events @ pending_ids (w_queue w) l) \<and>
    (\<forall>l. distinct (accepted_on l events)) \<and>
    mset (dispatched_ids events) = mset (finished_ids events) + mset (w_workers w)"
  using history_ok_trace [OF assms initial_world_ok initial_history] unfolding history_ok_def by metis

text \<open>A history that queues an item and dispatches it.\<close>

definition demo_item :: lane_item where
  "demo_item = \<lparr>li_id = ''lane_1'', li_lane = Main, li_label = ''x'', li_metadata = [], li_status = ''queued'',
     li_enqueued_at = utc_now_iso 0, li_started_at = None, li_finished_at = None, li_run_id = None,
     li_summary = None, li_error = None, li_result = None\<rparr>"

definition demo_start :: lane_world where
  "demo_start = initial_world default_lane_concurrency 4 16 False [] None"

definition demo_queued :: lane_world where
  "demo_queued = demo_start\<lparr>w_queue := add_item demo_item (start (w_queue demo_start)), w_dispatcher := True\<rparr>"

lemma demo_accepted: "lane_step demo_start (Accepted Main ''lane_1'') demo_queued"
proof -
  have main: "coerce_lane (PStr ''main'') = Inr Main"
    by (simp add: coerce_lane_def lane_order_def strip_def py_space_def lower_def)
  have x: "sor (strip ''x'') ''Queued work'' = ''x''" by (simp add: sor_def strip_def py_space_def)
  have "\<exists>reply. enqueue None 0 ''1'' True (PStr ''main'') ''x'' (PDict []) (w_queue demo_start) (w_db demo_start)
      = (Inr reply, add_item demo_item (start (w_queue demo_start)), None)"
    by (simp add: enqueue_def main x Let_def persist_checkpoint_def add_item_def start_def demo_item_def demo_start_def
      initial_world_def empty_lane_queue_def snone_def)
  then obtain reply where r: "enqueue None 0 ''1'' True (PStr ''main'') ''x'' (PDict []) (w_queue demo_start) (w_db demo_start)
      = (Inr reply, add_item demo_item (start (w_queue demo_start)), None)" ..
  have "q_items (w_queue demo_start) (''lane_'' @ ''1'') = None"
    by (simp add: demo_start_def initial_world_def empty_lane_queue_def)
  from step_accept [OF this r main]
  show ?thesis by (simp add: demo_queued_def demo_start_def initial_world_def empty_lane_queue_def)
qed

lemma demo_trace: "lane_trace demo_start [Accepted Main ''lane_1''] demo_queued"
  using trace_step [OF trace_start demo_accepted] by simp

lemma demo_dispatched: "\<exists>w. lane_step demo_queued (Dispatched Main ''lane_1'') w"
proof -
  let ?q = "w_queue demo_queued"
  have q0: "q_heap ?q = [demo_item]" "q_pending ?q Main = [0]" "q_active ?q = (\<lambda>l. [])" "q_cursor ?q = 0"
    "q_max_total ?q = 4" "q_lane_concurrency ?q Main = 1" "\<not> q_checkpointed ?q"
    by (simp_all add: demo_queued_def demo_start_def initial_world_def empty_lane_queue_def add_item_def start_def Let_def
      demo_item_def default_lane_concurrency_def)
  have main: "lane_at 0 = Main" by (simp add: lane_at_def lane_order_def)
  have "find (\<lambda>k. eligible ?q (lane_at (q_cursor ?q + k))) [0..<4] = Some 0"
    using q0 by (simp add: upt_conv_Cons eligible_def main)
  then have "next_dispatchable_item None 0 ?q (w_db demo_queued)
      = (Some 0, (start_item 0 Main ?q)\<lparr>q_cursor := 1\<rparr>, w_db demo_queued)"
    using q0 by (simp add: next_dispatchable_item_def total_active_alt main persist_checkpoint_def start_item_def Let_def)
  moreover have "w_db demo_queued = None" by (simp add: demo_queued_def demo_start_def initial_world_def)
  moreover have "item_at ((start_item 0 Main ?q)\<lparr>q_cursor := 1\<rparr>) 0 = demo_item\<lparr>li_status := ''running'', li_started_at := Some (utc_now_iso 0)\<rparr>"
    using q0 by (simp add: item_at_def start_item_def Let_def)
  ultimately have "\<exists>q. next_dispatchable_item None 0 ?q (w_db demo_queued) = (Some 0, q, None) \<and>
      li_lane (item_at q 0) = Main \<and> li_id (item_at q 0) = ''lane_1''"
    by (simp add: demo_item_def)
  then obtain q where q: "next_dispatchable_item None 0 (w_queue demo_queued) (w_db demo_queued) = (Some 0, q, None)"
    "li_lane (item_at q 0) = Main" "li_id (item_at q 0) = ''lane_1''" by blast
  have "w_dispatcher demo_queued" "\<not> q_shutdown (w_queue demo_queued)"
    by (simp_all add: demo_queued_def demo_start_def initial_world_def empty_lane_queue_def add_item_def start_def Let_def)
  from step_dispatch [OF this q(1)] q(2,3) show ?thesis by auto
qed

theorem lanes_fifo_exactly_once_witness:
  "lane_trace demo_start [Accepted Main ''lane_1''] demo_queued \<and> pending_ids (w_queue demo_queued) Main = [''lane_1'']"
  using lanes_fifo_exactly_once [OF demo_trace [unfolded demo_start_def], THEN conjunct1, rule_format, of Main] demo_trace
  by (simp add: accepted_on_def dispatched_on_def)

text \<open>
  C6. The limits hold when a step starts an item: the number of running workers stays within the
  total limit, the item's lane stays within its own limit at that moment, and the item was at the
  head of its lane.
\<close>

theorem dispatch_within_limits:
  assumes "lane_trace (initial_world c m n b key db) events w" and "lane_step w (Dispatched l k) w'"
  shows "int (length (w_workers w')) \<le> max 1 (int_or (Some m) 4) \<and>
    int (length (q_active (w_queue w') l)) \<le> q_lane_concurrency (w_queue w) l \<and>
    pending_ids (w_queue w) l = k # pending_ids (w_queue w') l"
proof -
  note ok = world_ok_simps(1) [OF world_ok_trace [OF assms(1) initial_world_ok]]
  from assms(2) obtain db_error t r q db where d: "next_dispatchable_item db_error t (w_queue w) (w_db w) = (Some r, q, db)"
    and q: "w_queue w' = q" "l = li_lane (item_at q r)" "k = li_id (item_at q r)" by (elim dispatched_stepE) auto
  note eff = pending_ids_dispatch [OF ok d]
  have "int (length (q_active q l)) \<le> q_lane_concurrency (w_queue w) l"
    using eff(4,7) q(2) by (simp add: eligible_def)
  with eff(1) [of l] q workers_bounded [OF trace_step [OF assms]] show ?thesis by simp
qed


theorem dispatch_within_limits_witness:
  "\<exists>w. lane_step demo_queued (Dispatched Main ''lane_1'') w \<and> int (length (w_workers w)) \<le> 4"
proof -
  from demo_dispatched obtain w where w: "lane_step demo_queued (Dispatched Main ''lane_1'') w" ..
  from dispatch_within_limits [OF demo_trace [unfolded demo_start_def] w, THEN conjunct1] w show ?thesis by auto
qed

definition lane_index :: "lane \<Rightarrow> nat" where
  "lane_index l = (case l of Main \<Rightarrow> 0 | Cron \<Rightarrow> 1 | Subagent \<Rightarrow> 2 | System \<Rightarrow> 3)"

definition turns_away :: "lane_queue \<Rightarrow> lane \<Rightarrow> nat" where
  "turns_away q l = (lane_index l + 3 * q_cursor q) mod 4"

lemma lane_at_index: "lane_at k = l \<longleftrightarrow> k mod 4 = lane_index l"
proof -
  have "k mod 4 = 0 \<or> k mod 4 = 1 \<or> k mod 4 = 2 \<or> k mod 4 = 3" by arith
  then show ?thesis by (cases l; elim disjE; simp add: lane_at_def lane_order_def lane_index_def)
qed

lemma lane_index_less: "lane_index l < 4"
  by (cases l) (simp_all add: lane_index_def)

lemma turns_less: "turns_away q l < 4"
  by (simp add: turns_away_def)

lemma turns_reach: "lane_at (q_cursor q + turns_away q l) = l"
proof -
  have "(q_cursor q + (lane_index l + 3 * q_cursor q) mod 4) mod 4 = lane_index l"
    using lane_index_less [of l] by presburger
  then show ?thesis by (simp add: lane_at_index turns_away_def)
qed

lemma turns_closer:
  assumes "k < turns_away q l" and "q_cursor q' = (q_cursor q + k + 1) mod 4"
  shows "turns_away q' l < turns_away q l"
proof -
  have closer: "(s + 3 * k + 3) mod 4 < s mod 4" if "k < s mod 4" for s :: nat
  proof -
    from that obtain e where e: "s mod 4 = Suc (k + e)" by (auto simp: less_iff_Suc_add)
    have "s = Suc (k + e) + 4 * (s div 4)" using e by (metis mod_mult_div_eq)
    then obtain d where "s = Suc (k + e) + 4 * d" ..
    then have "s + 3 * k + 3 = e + 4 * (d + k + 1)" by simp
    then have "(s + 3 * k + 3) mod 4 = e mod 4" by (simp only: mod_mult_self2)
    also have "\<dots> \<le> e" by (rule mod_less_eq_dividend)
    also have "\<dots> < s mod 4" using e by simp
    finally show ?thesis .
  qed
  have modular: "(a + 3 * (b mod 4)) mod 4 = (a + 3 * b) mod 4" for a b :: nat
    by (metis mod_add_right_eq mod_mult_right_eq)
  have "turns_away q' l = (lane_index l + 3 * (q_cursor q + k + 1)) mod 4"
    unfolding turns_away_def assms(2) by (rule modular)
  also have "\<dots> = (lane_index l + 3 * q_cursor q + 3 * k + 3) mod 4" by (simp add: algebra_simps)
  finally show ?thesis using closer [of "lane_index l + 3 * q_cursor q"] assms(1) by (simp add: turns_away_def)
qed

definition dispatches :: "lane_event list \<Rightarrow> nat" where
  "dispatches events = length (dispatched_ids events)"

lemma passed_over:
  assumes "lane_step w e w'" and ok: "world_ok w" and el: "eligible (w_queue w) l"
    and "e \<noteq> Configured l" and "\<And>k. e \<noteq> Dispatched l k"
  shows "eligible (w_queue w') l \<and> turns_away (w_queue w') l + dispatches [e] \<le> turns_away (w_queue w) l"
  using assms(1)
proof cases
  case (step_accept fresh db_error t callable lane label metadata reply q db m)
  from step_accept(4,5) obtain item where same: "lanes_same (add_item item (w_queue w)) q" by (rule accept_effect)
  have conc: "q_lane_concurrency q = q_lane_concurrency (w_queue w)"
  proof -
    have "enqueue db_error t fresh callable lane label metadata (w_queue w) (w_db w)
        \<in> {(x, q, db). q_lane_concurrency q = q_lane_concurrency (w_queue w)}"
      unfolding enqueue_def by (intro branch) (auto simp: start_def add_item_def Let_def dest!: persist_fields(11) split: if_splits)
    with step_accept(4) show ?thesis by simp
  qed
  from same el show ?thesis
    by (auto simp: step_accept(1,2) lanes_same_def add_item_def Let_def eligible_def conc turns_away_def dispatches_def)
next
  case (step_dispatch db_error t r q db)
  note okq = world_ok_simps(1) [OF ok] 
  note eff = pending_ids_dispatch [OF okq step_dispatch(5)]
  let ?m = "li_lane (item_at q r)"
  have m: "?m \<noteq> l" using step_dispatch(1) assms(5) by auto
  from eff(6) obtain k where k: "k < 4" "?m = lane_at (q_cursor (w_queue w) + k)"
    "\<forall>j < k. \<not> eligible (w_queue w) (lane_at (q_cursor (w_queue w) + j))" "q_cursor q = (q_cursor (w_queue w) + k + 1) mod 4" by blast
  have "k < turns_away (w_queue w) l"
  proof (rule ccontr)
    assume "\<not> k < turns_away (w_queue w) l"
    then have "turns_away (w_queue w) l < k \<or> turns_away (w_queue w) l = k" by auto
    then show False using k(2,3) el m turns_reach [of "w_queue w" l] by auto
  qed
  from turns_closer [OF this k(4)] have t: "turns_away q l < turns_away (w_queue w) l" .
  have conc: "q_lane_concurrency q = q_lane_concurrency (w_queue w)" using step_dispatch(5) by (elim dispatchedE)
  have "pending_ids (w_queue w) l = pending_ids q l" using eff(1) [of l] m by simp
  then have "q_pending q l \<noteq> []" using el by (auto simp: eligible_def pending_ids_def)
  moreover have "q_active q l = q_active (w_queue w) l" using eff(7) [of l] m by simp
  ultimately show ?thesis using t el by (simp add: step_dispatch(1,2) eligible_def conc dispatches_def)
next
  case (step_work k db_error t got q db)
  note eff = work_active [OF ok step_work(3,4)]
  have "q_lane_concurrency q = q_lane_concurrency (w_queue w)"
    using step_work(4) by (auto simp: run_item_def finish_item_def Let_def dest!: persist_fields(11) split: option.splits)
  with el eff(5) [of l] show ?thesis
    by (auto simp: step_work(1,2) eligible_def eff(4,6) turns_away_def dispatches_def intro: le_less_trans)
next
  case (step_configure lane v reply q m)
  with el assms(4) show ?thesis
    by (auto simp: set_lane_concurrency_def Let_def eligible_def turns_away_def dispatches_def)
next
  case (step_refuse db_error t fresh callable lane label metadata e' q db)
  have "enqueue db_error t fresh callable lane label metadata (w_queue w) (w_db w)
        \<in> {(x, q, db). q_lane_concurrency q = q_lane_concurrency (w_queue w)}"
    unfolding enqueue_def by (intro branch) (auto simp: start_def add_item_def Let_def dest!: persist_fields(11) split: if_splits)
  with step_refuse(3) refuse_effect [OF step_refuse(3)] el show ?thesis
    by (simp add: step_refuse(1,2) eligible_def lanes_same_def turns_away_def dispatches_def)
next
  case (step_drained db_error t q db)
  with not_dispatched(1) [OF step_drained(5)] el show ?thesis by (simp add: eligible_def turns_away_def dispatches_def)
next
  case (step_end_shutdown db_error t result q db)
  then obtain p: "persist_checkpoint db_error t ((w_queue w)\<lparr>q_shutdown := True\<rparr>) (w_db w) = (q, db)"
    by (auto simp: end_shutdown_def split: prod.splits)
  from persist_fields [OF p] el show ?thesis by (simp add: step_end_shutdown(1,2) eligible_def turns_away_def dispatches_def)
qed (use el in \<open>auto simp: start_def begin_shutdown_def eligible_def turns_away_def dispatches_def\<close>)


lemma dispatches_snoc: "dispatches (events @ [e]) = dispatches events + dispatches [e]"
  by (simp add: dispatches_def)

lemma passed_over_trace:
  assumes "lane_trace w events w'" and "world_ok w" and "eligible (w_queue w) l"
    and "Configured l \<notin> set events" and "\<forall>k. Dispatched l k \<notin> set events"
  shows "eligible (w_queue w') l \<and> turns_away (w_queue w') l + dispatches events \<le> turns_away (w_queue w) l"
  using assms
proof (induction rule: lane_trace.induct)
  case (trace_step w events w' e w'')
  then have IH: "eligible (w_queue w') l" "turns_away (w_queue w') l + dispatches events \<le> turns_away (w_queue w) l" by auto
  from passed_over [OF trace_step.hyps(2) world_ok_trace [OF trace_step.hyps(1) trace_step.prems(1)] IH(1)] trace_step.prems(3,4)
  have "eligible (w_queue w'') l \<and> turns_away (w_queue w'') l + dispatches [e] \<le> turns_away (w_queue w') l" by auto
  with IH(2) show ?case by (simp add: dispatches_snoc)
qed (simp add: dispatches_def)

text \<open>
  C7. No lane starves: while a lane has room and waiting items, the dispatcher's round robin
  passes it over at most three times, whatever else happens, unless its limit is reconfigured; so
  among any four dispatches one is of this lane.
\<close>

theorem no_lane_starves:
  assumes "lane_trace (initial_world c m n b key db) before w" and "eligible (w_queue w) l"
    and "lane_trace w events w'" and "Configured l \<notin> set events" and "\<forall>k. Dispatched l k \<notin> set events"
  shows "length (dispatched_ids events) \<le> 3 \<and> eligible (w_queue w') l"
  using passed_over_trace [OF assms(3) world_ok_trace [OF assms(1) initial_world_ok] assms(2,4,5)] turns_less [of "w_queue w" l]
  by (simp add: dispatches_def)

lemma demo_eligible: "eligible (w_queue demo_queued) Main"
  by (simp add: eligible_def demo_queued_def demo_start_def initial_world_def empty_lane_queue_def add_item_def start_def Let_def
    demo_item_def default_lane_concurrency_def)

theorem no_lane_starves_witness:
  "eligible (begin_shutdown (w_queue demo_queued)) Main"
proof -
  let ?w = "demo_queued\<lparr>w_queue := begin_shutdown (w_queue demo_queued)\<rparr>"
  have "lane_trace demo_queued [Internal] ?w" using trace_step [OF trace_start step_begin_shutdown] by simp
  from no_lane_starves [OF demo_trace [unfolded demo_start_def] demo_eligible this] show ?thesis by simp
qed

subsection \<open>Restarting from a checkpoint\<close>

definition has_run :: "lane_item \<Rightarrow> bool" where
  "has_run item = (case li_run_id item of None \<Rightarrow> False | Some s \<Rightarrow> s \<noteq> [])"

text \<open>An item whose texts are non-empty and without surrounding blanks, as \<open>enqueue\<close> leaves them.\<close>

definition clean :: "string \<Rightarrow> bool" where
  "clean s \<longleftrightarrow> s \<noteq> [] \<and> strip s = s"

definition storable :: "lane_item \<Rightarrow> bool" where
  "storable item \<longleftrightarrow> clean (li_id item) \<and> clean (li_label item) \<and> clean (li_enqueued_at item) \<and>
     (\<exists>run. li_run_id item = Some run \<and> clean run) \<and> (case li_summary item of None \<Rightarrow> True | Some s \<Rightarrow> clean s)"

text \<open>The item as it is queued again.\<close>

definition requeued :: "lane_item \<Rightarrow> lane_item" where
  "requeued item = item\<lparr>li_status := ''queued'', li_started_at := None, li_finished_at := None, li_error := None, li_result := None\<rparr>"

lemma coerce_lane_name [simp]: "coerce_lane (PStr (lane_name l)) = Inr l"
  by (cases l) (simp_all add: coerce_lane_def lane_order_def strip_def py_space_def lower_def)

lemma restore_snapshot:
  assumes "storable item" and "\<And>d. build d"
  shows "restore_item build f t (PDict (to_snapshot item)) q = add_item (requeued item) q"
proof -
  from assms(1) obtain run where run: "li_run_id item = Some run" "run \<noteq> []" "strip run = run"
    and rest: "li_id item \<noteq> []" "strip (li_id item) = li_id item" "li_label item \<noteq> []" "strip (li_label item) = li_label item"
    "li_enqueued_at item \<noteq> []" "strip (li_enqueued_at item) = li_enqueued_at item" by (auto simp: storable_def clean_def)
  have sum: "snone (tok (opt_val (li_summary item))) = li_summary item"
    using assms(1) by (cases "li_summary item") (auto simp: storable_def clean_def snone_def)
  show ?thesis
    by (cases item) (use run rest sum assms(2) in \<open>simp add: restore_item_def to_snapshot_def requeued_def sor_def Let_def\<close>)
qed

lemma restore_snapshots:
  "\<forall>x \<in> set xs. storable x \<Longrightarrow> (\<And>d. build d) \<Longrightarrow>
   restore_items build fresh t (map (\<lambda>x. PDict (to_snapshot x)) xs) q = fold (\<lambda>x. add_item (requeued x)) xs q"
  by (induction xs arbitrary: q) (simp_all add: restore_snapshot)

text \<open>The items of a lane's queue, as objects.\<close>

definition queued_items :: "lane_queue \<Rightarrow> lane \<Rightarrow> lane_item list" where
  "queued_items q l = map (item_at q) (q_pending q l)"

definition refs_valid :: "lane_queue \<Rightarrow> bool" where
  "refs_valid q \<longleftrightarrow> (\<forall>l. \<forall>r \<in> set (q_pending q l). r < length (q_heap q))"

lemma queued_items_add:
  "refs_valid q \<Longrightarrow> refs_valid (add_item x q) \<and> queued_items (add_item x q) l = queued_items q l @ (if li_lane x = l then [x] else [])"
  by (auto simp: refs_valid_def queued_items_def add_item_def Let_def item_at_def nth_append less_Suc_eq)

lemma queued_items_fold:
  "refs_valid q \<Longrightarrow> queued_items (fold (\<lambda>x. add_item (requeued x)) xs q) l =
     queued_items q l @ map requeued (filter (\<lambda>x. li_lane x = l) xs)"
proof (induction xs arbitrary: q)
  case (Cons x xs)
  from queued_items_add [OF Cons.prems, of "requeued x"] Cons.IH [of "add_item (requeued x) q"] show ?case
    by (simp add: requeued_def)
qed simp

definition saved_items :: "lane_queue \<Rightarrow> lane \<Rightarrow> lane_item list" where
  "saved_items q l = filter has_run (map (item_at q) (map snd (q_active q l) @ q_pending q l))"

lemma checkpoint_saved: "checkpoint_items q = map (\<lambda>x. PDict (to_snapshot x)) (concat (map (saved_items q) lane_order))"
  by (simp add: checkpoint_items_def runs_only_def saved_items_def has_run_def map_concat comp_def filter_map)

lemma saved_lane:
  assumes "lanes_ok q" and "x \<in> set (saved_items q l)"
  shows "li_lane x = l \<and> has_run x \<and> (\<exists>r < length (q_heap q). x = item_at q r)"
  using assms(2) lane_okD(3) [OF assms(1), of _ _ l] by (auto simp: saved_items_def lane_okD(1) [OF assms(1)])

lemma saved_by_lane:
  assumes "lanes_ok q"
  shows "filter (\<lambda>x. li_lane x = l) (concat (map (saved_items q) lane_order)) = saved_items q l"
proof -
  have "filter (\<lambda>x. li_lane x = l) (saved_items q m) = (if m = l then saved_items q l else [])" for m
    using saved_lane [OF assms, of _ m] by (auto simp: filter_empty_conv intro!: filter_True)
  then show ?thesis by (cases l) (simp_all add: lane_order_def)
qed

text \<open>
  C8. A restart loses no work that has a run id: after a checkpoint of a queue in any reachable
  state, a new queue restored from it holds, on every lane and in this order, the items that
  were running and then those that were queued, each as a fresh queued item with the same id,
  label, metadata and run id.
\<close>

theorem restart_recovers:
  assumes "lanes_ok q" and "q_checkpointed q" and "\<forall>r < length (q_heap q). has_run (item_at q r) \<longrightarrow> storable (item_at q r)"
    and "persist_checkpoint None t q db = (q1, db1)"
    and "new_lane_queue limits m n True key (Some (\<lambda>_. True)) fresh t' None db1 = Inr q2"
  shows "queued_items q2 l = map requeued (saved_items q l)"
proof -
  let ?xs = "concat (map (saved_items q) lane_order)"
  from assms(5) obtain c where c: "q2 = restore_checkpoint (Some (\<lambda>_. True)) fresh t' None db1 (empty_lane_queue c m n True key)"
    by (auto simp: new_lane_queue_def split: sum.splits)
  have db1: "db1 = Some (PDict [(''items'', PList (map (\<lambda>x. PDict (to_snapshot x)) ?xs)), (''persisted_at'', PStr (utc_now_iso t))])"
    using assms(2,4) by (auto simp: persist_checkpoint_def checkpoint_saved)
  have e: "q_checkpointed (empty_lane_queue c m n True key)" by (simp add: empty_lane_queue_def)
  have por_list: "por (PList ys) (PList []) = PList ys" for ys by (simp add: por_def)
  have "\<forall>x \<in> set ?xs. storable x"
    using saved_lane [OF assms(1)] assms(3) by fastforce
  then have "q2 = fold (\<lambda>x. add_item (requeued x)) ?xs ((empty_lane_queue c m n True key)\<lparr>q_checkpoint_error := None\<rparr>)"
    using e by (simp add: c db1 restore_checkpoint_def por_list restore_snapshots)
  moreover have "refs_valid ((empty_lane_queue c m n True key)\<lparr>q_checkpoint_error := None\<rparr>)"
    "queued_items ((empty_lane_queue c m n True key)\<lparr>q_checkpoint_error := None\<rparr>) l = []"
    by (simp_all add: empty_lane_queue_def refs_valid_def queued_items_def)
  ultimately show ?thesis by (simp add: queued_items_fold saved_by_lane [OF assms(1)])
qed

definition demo_run :: lane_item where
  "demo_run = demo_item\<lparr>li_run_id := Some ''r1'', li_enqueued_at := ''1''\<rparr>"

definition demo_saved :: lane_queue where
  "demo_saved = add_item demo_run (empty_lane_queue default_lane_concurrency 4 16 True [])"

theorem restart_recovers_witness:
  "\<exists>q1 db1 q2. persist_checkpoint None 0 demo_saved None = (q1, db1) \<and>
     new_lane_queue [] 4 16 True [] (Some (\<lambda>_. True)) (\<lambda>_. ''2'') 1 None db1 = Inr q2 \<and> queued_items q2 Main = [requeued demo_run]"
proof -
  obtain q1 db1 where p: "persist_checkpoint None 0 demo_saved None = (q1, db1)" by fastforce
  obtain q2 where n: "new_lane_queue [] 4 16 True [] (Some (\<lambda>_. True)) (\<lambda>_. ''2'') 1 None db1 = Inr q2"
    by (simp add: new_lane_queue_def)
  have ok: "lanes_ok demo_saved"
    unfolding demo_saved_def by (rule add_item_ok [OF empty_ok]) (simp_all add: empty_lane_queue_def waiting_def demo_run_def demo_item_def)
  have q: "q_checkpointed demo_saved" "q_heap demo_saved = [demo_run]" "q_pending demo_saved Main = [0]" "q_active demo_saved Main = []"
    by (simp_all add: demo_saved_def add_item_def Let_def empty_lane_queue_def demo_run_def demo_item_def)
  have "storable demo_run" by (simp add: storable_def clean_def demo_run_def demo_item_def strip_def py_space_def)
  then have st: "\<forall>r < length (q_heap demo_saved). has_run (item_at demo_saved r) \<longrightarrow> storable (item_at demo_saved r)"
    by (simp add: q(2) item_at_def)
  have "saved_items demo_saved Main = [demo_run]" by (simp add: saved_items_def q item_at_def has_run_def demo_run_def)
  with restart_recovers [OF ok q(1) st p n, of Main] have "queued_items q2 Main = [requeued demo_run]" by simp
  with p n show ?thesis by blast
qed

end
