(* ===== verification/Quota_Windows.thy ===== *)
theory Quota_Windows
  imports Py_Base Tables
begin

text \<open>
  Request windows: the durable fixed windows of \<open>durable_quota_store.py\<close>, the sliding windows in
  memory of \<open>request_window_quota_adapter.py\<close>, and the decisions \<open>quota_policy_service.py\<close> makes of
  them. Times are microseconds; \<open>sql_error\<close> is the error with which the driver fails the
  transaction, which is then rolled back.
\<close>

subsection \<open>Seconds\<close>

text \<open>\<open>int(round(x))\<close>: to the nearest second, halves to the even one.\<close>

definition round_seconds :: "int \<Rightarrow> int" where
  "round_seconds us = (let q = us div 1000000; r = us mod 1000000 in
     if 2 * r < 1000000 then q else if 1000000 < 2 * r then q + 1 else if even q then q else q + 1)"

definition seconds :: "int \<Rightarrow> int" where
  "seconds n = n * 1000000"

subsection \<open>The durable store\<close>

record window_row =
  qw_key :: string
  qw_started_at :: int
  qw_count :: int
  qw_updated_at :: int

record window_decision =
  wd_allowed :: bool
  wd_limit :: int
  wd_observed :: int
  wd_remaining :: int
  wd_retry_after :: int
  wd_window :: int

type_synonym quota_store = "window_row list"

definition window_expired :: "int \<Rightarrow> int \<Rightarrow> window_row \<Rightarrow> bool" where
  "window_expired t window r = (seconds window \<le> t - qw_started_at r)"

definition consume_window ::
    "string option \<Rightarrow> string \<Rightarrow> int \<Rightarrow> int \<Rightarrow> int \<Rightarrow> quota_store \<Rightarrow> window_decision res \<times> quota_store" where
  "consume_window sql_error key limit window_seconds current s =
     (let k = strip key; lim = max limit 1; window = max window_seconds 1 in
      if k = [] then (Inl (ValueError ''quota key is required''), s)
      else case sql_error of
        Some m \<Rightarrow> (Inl (DriverError m), s)
      | None \<Rightarrow>
       (let (started, observed) = (case row_of qw_key k s of
              None \<Rightarrow> (current, 0)
            | Some r \<Rightarrow> if window_expired current window r then (current, 0) else (qw_started_at r, max (qw_count r) 0)) in
        if lim \<le> observed
        then (Inr \<lparr>wd_allowed = False, wd_limit = lim, wd_observed = observed, wd_remaining = 0,
                wd_retry_after = max 1 (round_seconds (started + seconds window - current)), wd_window = window\<rparr>, s)
        else (Inr \<lparr>wd_allowed = True, wd_limit = lim, wd_observed = observed + 1,
                wd_remaining = max 0 (lim - (observed + 1)), wd_retry_after = 0, wd_window = window\<rparr>,
              put_row qw_key \<lparr>qw_key = k, qw_started_at = started, qw_count = observed + 1, qw_updated_at = current\<rparr> s)))"

definition snapshot_window ::
    "string option \<Rightarrow> string \<Rightarrow> int \<Rightarrow> int \<Rightarrow> int \<Rightarrow> quota_store \<Rightarrow> window_decision res" where
  "snapshot_window sql_error key limit window_seconds current s =
     (let k = strip key; lim = max limit 1; window = max window_seconds 1 in
      if k = [] then Inr \<lparr>wd_allowed = True, wd_limit = lim, wd_observed = 0, wd_remaining = lim,
          wd_retry_after = 0, wd_window = window\<rparr>
      else case sql_error of
        Some m \<Rightarrow> Inl (DriverError m)
      | None \<Rightarrow>
       (let (observed, retry_after) = (case row_of qw_key k s of
              None \<Rightarrow> (0, 0)
            | Some r \<Rightarrow> if window_expired current window r then (0, 0)
                else (max (qw_count r) 0, max 1 (round_seconds (qw_started_at r + seconds window - current)))) in
        Inr \<lparr>wd_allowed = (observed < lim), wd_limit = lim, wd_observed = observed,
          wd_remaining = max 0 (lim - observed), wd_retry_after = (if observed < lim then 0 else retry_after),
          wd_window = window\<rparr>))"

subsection \<open>Sliding windows in memory\<close>

definition max_buckets_before_dead_prune :: nat where
  "max_buckets_before_dead_prune = 1000"

definition dead_bucket_prune_interval_seconds :: int where
  "dead_bucket_prune_interval_seconds = 60"

definition dead_bucket_retention_seconds :: int where
  "dead_bucket_retention_seconds = 120"

text \<open>The buckets of a caller and the module's moment of the last pruning, which starts at 0.\<close>

record bucket_state =
  bk_buckets :: "(string \<times> int list) list"
  bk_last_prune :: int

definition prune_dead_buckets :: "int \<Rightarrow> bucket_state \<Rightarrow> bucket_state" where
  "prune_dead_buckets current b =
     (if max_buckets_before_dead_prune < length (bk_buckets b) \<and>
         seconds dead_bucket_prune_interval_seconds \<le> current - bk_last_prune b
      then b\<lparr>bk_last_prune := current,
             bk_buckets := filter (\<lambda>(k, v). \<not> (v = [] \<or> last v < current - seconds dead_bucket_retention_seconds)) (bk_buckets b)\<rparr>
      else b)"

definition bucket_of :: "bucket_state \<Rightarrow> string \<Rightarrow> int list" where
  "bucket_of b key = (case map_of (bk_buckets b) key of None \<Rightarrow> [] | Some v \<Rightarrow> v)"

record window_reply =
  wr_allowed :: bool
  wr_retry_after :: int
  wr_limit :: int
  wr_observed :: int

definition evaluate_in_memory :: "string \<Rightarrow> int \<Rightarrow> int \<Rightarrow> bucket_state \<Rightarrow> window_reply \<times> bucket_state" where
  "evaluate_in_memory key limit current b =
     (let lim = max limit 1; b1 = prune_dead_buckets current b;
          bucket = filter (\<lambda>t. current - seconds 60 \<le> t) (bucket_of b1 key) in
      if lim \<le> int (length bucket)
      then (\<lparr>wr_allowed = False, wr_retry_after = max 1 (round_seconds (hd bucket + seconds 60 - current)),
              wr_limit = lim, wr_observed = int (length bucket)\<rparr>,
            b1\<lparr>bk_buckets := AList.update key bucket (bk_buckets b1)\<rparr>)
      else (\<lparr>wr_allowed = True, wr_retry_after = 0, wr_limit = lim, wr_observed = int (length bucket) + 1\<rparr>,
            b1\<lparr>bk_buckets := AList.update key (bucket @ [current]) (bk_buckets b1)\<rparr>))"

text \<open>The durable store is used unless the process is in the in-memory mode.\<close>

definition evaluate_request_window ::
    "bool \<Rightarrow> string option \<Rightarrow> string \<Rightarrow> int \<Rightarrow> int \<Rightarrow> bucket_state \<times> quota_store
     \<Rightarrow> window_reply res \<times> bucket_state \<times> quota_store" where
  "evaluate_request_window in_memory sql_error key limit current st =
     (case st of (b, s) \<Rightarrow>
      if \<not> in_memory then
        (case consume_window sql_error key (max limit 1) 60 current s of
           (Inl e, s') \<Rightarrow> (Inl e, b, s')
         | (Inr d, s') \<Rightarrow> (Inr \<lparr>wr_allowed = wd_allowed d, wr_retry_after = wd_retry_after d, wr_limit = wd_limit d,
             wr_observed = wd_observed d\<rparr>, b, s'))
      else (case evaluate_in_memory key limit current b of (d, b') \<Rightarrow> (Inr d, b', s)))"

subsection \<open>The in-memory windows are exact\<close>

record window_call =
  wc_key :: string
  wc_limit :: int
  wc_now :: int

fun run_calls :: "window_call list \<Rightarrow> bucket_state \<Rightarrow> bool list" where
  "run_calls [] b = []"
| "run_calls (c # cs) b = (case evaluate_in_memory (wc_key c) (wc_limit c) (wc_now c) b of
     (d, b') \<Rightarrow> wr_allowed d # run_calls cs b')"

text \<open>
  The specification keeps the whole log of admitted calls and admits a call when fewer than its
  limit were admitted on its key in the last sixty seconds.
\<close>

definition recent_on :: "string \<Rightarrow> int \<Rightarrow> (string \<times> int) list \<Rightarrow> int list" where
  "recent_on k cutoff log = filter (\<lambda>t. cutoff \<le> t) (map snd (filter (\<lambda>(k', t). k' = k) log))"

fun spec_calls :: "window_call list \<Rightarrow> (string \<times> int) list \<Rightarrow> bool list" where
  "spec_calls [] log = []"
| "spec_calls (c # cs) log =
     (let ok = int (length (recent_on (wc_key c) (wc_now c - seconds 60) log)) < max (wc_limit c) 1
      in ok # spec_calls cs (if ok then log @ [(wc_key c, wc_now c)] else log))"

definition log_matches :: "int \<Rightarrow> bucket_state \<Rightarrow> (string \<times> int) list \<Rightarrow> bool" where
  "log_matches t b log \<longleftrightarrow> distinct (map fst (bk_buckets b)) \<and>
     (\<forall>k. sorted (bucket_of b k) \<and> (\<forall>x \<in> set (bucket_of b k). x \<le> t) \<and>
        (\<forall>c \<ge> t - seconds 60. filter (\<lambda>x. c \<le> x) (bucket_of b k) = recent_on k c log))"

lemma bucket_of_update: "bucket_of (b\<lparr>bk_buckets := AList.update key v (bk_buckets b)\<rparr>) k = (if k = key then v else bucket_of b k)"
  by (simp add: bucket_of_def update_conv')

lemma map_of_filter_value:
  "distinct (map fst al) \<Longrightarrow> map_of (filter (\<lambda>(k, v). P v) al) k =
     (case map_of al k of None \<Rightarrow> None | Some v \<Rightarrow> if P v then Some v else None)"
proof (induction al)
  case (Cons p al)
  then show ?case by (cases p) (auto simp: image_iff split: option.splits dest: map_of_SomeD)
qed simp

lemma pruned_bucket:
  assumes "distinct (map fst (bk_buckets b))"
  shows "bucket_of (prune_dead_buckets t b) k = bucket_of b k \<or>
    (bucket_of (prune_dead_buckets t b) k = [] \<and> last (bucket_of b k) < t - seconds 120)"
  using map_of_filter_value [OF assms, of "\<lambda>v. \<not> (v = [] \<or> last v < t - seconds dead_bucket_retention_seconds)" k]
  by (auto simp: prune_dead_buckets_def bucket_of_def dead_bucket_retention_seconds_def split: option.splits if_splits)

lemma sorted_le_last: "sorted xs \<Longrightarrow> (x :: int) \<in> set xs \<Longrightarrow> x \<le> last xs"
  by (induction xs) auto

lemma log_matches_prune:
  assumes m: "log_matches t b log" and "t \<le> t'"
  shows "log_matches t' (prune_dead_buckets t' b) log"
proof -
  have d: "distinct (map fst (bk_buckets (prune_dead_buckets t' b)))"
    using m by (auto simp: log_matches_def prune_dead_buckets_def distinct_map_filter)
  have "sorted (bucket_of (prune_dead_buckets t' b) k) \<and> (\<forall>x \<in> set (bucket_of (prune_dead_buckets t' b) k). x \<le> t') \<and>
      (\<forall>c \<ge> t' - seconds 60. filter (\<lambda>x. c \<le> x) (bucket_of (prune_dead_buckets t' b) k) = recent_on k c log)" for k
  proof -
    have s: "sorted (bucket_of b k)" and le: "\<And>x. x \<in> set (bucket_of b k) \<Longrightarrow> x \<le> t" and f: "\<And>c. t - seconds 60 \<le> c \<Longrightarrow> filter (\<lambda>x. c \<le> x) (bucket_of b k) = recent_on k c log"
      using m by (auto simp: log_matches_def)
    from m have "distinct (map fst (bk_buckets b))" by (simp add: log_matches_def)
    from pruned_bucket [OF this, of t' k] show ?thesis
    proof
      assume "bucket_of (prune_dead_buckets t' b) k = bucket_of b k"
      with s f assms(2) show ?thesis by (auto dest!: le)
    next
      assume e: "bucket_of (prune_dead_buckets t' b) k = [] \<and> last (bucket_of b k) < t' - seconds 120"
      have "filter (\<lambda>x. c \<le> x) (bucket_of b k) = []" if "t' - seconds 60 \<le> c" for c
      proof -
        have "x < c" if "x \<in> set (bucket_of b k)" for x
        proof -
          from sorted_le_last [OF s that] have "x \<le> last (bucket_of b k)" .
          with e \<open>t' - seconds 60 \<le> c\<close> show ?thesis by (simp add: seconds_def)
        qed
        then show ?thesis by (fastforce simp: filter_empty_conv)
      qed
      with e f assms(2) show ?thesis by fastforce
    qed
  qed
  with d show ?thesis by (simp add: log_matches_def)
qed

lemma recent_on_snoc: "recent_on k c (log @ [(k', t)]) = recent_on k c log @ (if k' = k \<and> c \<le> t then [t] else [])"
  by (simp add: recent_on_def)

lemma recent_on_narrow: "d \<le> c \<Longrightarrow> filter (\<lambda>x. c \<le> x) (recent_on k d log) = recent_on k c log"
  unfolding recent_on_def by (auto intro: filter_cong)

lemma evaluate_matches:
  fixes key :: string and limit :: int
  assumes m: "log_matches t b log" and "t \<le> now"
  defines "r \<equiv> evaluate_in_memory key limit now b"
  defines "ok \<equiv> int (length (recent_on key (now - seconds 60) log)) < max limit 1"
  shows "wr_allowed (fst r) = ok" and "log_matches now (snd r) (if ok then log @ [(key, now)] else log)"
proof -
  let ?b = "prune_dead_buckets now b"
  let ?bucket = "filter (\<lambda>x. now - seconds 60 \<le> x) (bucket_of ?b key)"
  have p: "log_matches now ?b log" using log_matches_prune [OF m assms(2)] .
  then have base: "sorted (bucket_of ?b key)" "\<forall>x \<in> set (bucket_of ?b key). x \<le> now" and d: "distinct (map fst (bk_buckets ?b))"
    and bucket: "?bucket = recent_on key (now - seconds 60) log"
    by (auto simp: log_matches_def)
  have s: "sorted ?bucket" using base(1) by (rule sorted_wrt_filter)
  have le: "\<forall>x \<in> set ?bucket. x \<le> now" using base(2) by simp
  have f: "filter (\<lambda>x. c \<le> x) (bucket_of ?b k) = recent_on k c log" if "now - seconds 60 \<le> c" for c k
    using p that by (auto simp: log_matches_def)
  have narrow: "filter (\<lambda>x. c \<le> x) ?bucket = filter (\<lambda>x. c \<le> x) (bucket_of ?b key)" if "now - seconds 60 \<le> c" for c
    using that by (auto intro: filter_cong)
  have full: "max limit 1 \<le> int (length ?bucket) \<longleftrightarrow> \<not> ok" unfolding ok_def bucket by linarith
  have r: "r = (if \<not> ok
      then (\<lparr>wr_allowed = False, wr_retry_after = max 1 (round_seconds (hd ?bucket + seconds 60 - now)),
              wr_limit = max limit 1, wr_observed = int (length ?bucket)\<rparr>,
            ?b\<lparr>bk_buckets := AList.update key ?bucket (bk_buckets ?b)\<rparr>)
      else (\<lparr>wr_allowed = True, wr_retry_after = 0, wr_limit = max limit 1, wr_observed = int (length ?bucket) + 1\<rparr>,
            ?b\<lparr>bk_buckets := AList.update key (?bucket @ [now]) (bk_buckets ?b)\<rparr>))"
    unfolding r_def evaluate_in_memory_def Let_def full by (rule refl)
  show "wr_allowed (fst r) = ok" unfolding r by simp
  note narrow' = recent_on_narrow [of "now - seconds 60" _ key log]
  show "log_matches now (snd r) (if ok then log @ [(key, now)] else log)"
  proof (cases ok)
    case False
    then have "snd r = ?b\<lparr>bk_buckets := AList.update key ?bucket (bk_buckets ?b)\<rparr>" by (simp add: r del: filter_filter)
    with False p s le d show ?thesis
      by (auto simp: log_matches_def bucket_of_update distinct_update narrow' f bucket simp del: filter_filter)
  next
    case True
    then have "snd r = ?b\<lparr>bk_buckets := AList.update key (?bucket @ [now]) (bk_buckets ?b)\<rparr>" by (simp add: r)
    with True p s le d show ?thesis
      by (auto simp: log_matches_def bucket_of_update distinct_update narrow' f bucket recent_on_snoc sorted_append simp del: filter_filter)
  qed
qed


lemma run_spec:
  "sorted (map wc_now calls) \<Longrightarrow> log_matches t b log \<Longrightarrow> (\<forall>c \<in> set calls. t \<le> wc_now c) \<Longrightarrow>
      run_calls calls b = spec_calls calls log"
proof (induction calls arbitrary: t b log)
  case (Cons c cs)
  obtain d b' where e: "evaluate_in_memory (wc_key c) (wc_limit c) (wc_now c) b = (d, b')" by fastforce
  from Cons.prems(3) have "t \<le> wc_now c" by simp
  note step = evaluate_matches [OF Cons.prems(2) this, of "wc_key c" "wc_limit c", unfolded e fst_conv snd_conv]
  from Cons.IH [OF _ step(2)] Cons.prems(1) step(1) e show ?case by (simp add: Let_def)
qed simp

text \<open>
  C38. The in-memory sliding window decides exactly as its specification: with a clock that does
  not go back, whatever keys, limits and moments the calls have, and whenever buckets are
  pruned, a call is admitted if and only if fewer than its limit were admitted on its key in the
  last sixty seconds.
\<close>

theorem sliding_window_exact:
  assumes "sorted (map wc_now calls)"
  shows "run_calls calls \<lparr>bk_buckets = [], bk_last_prune = 0\<rparr> = spec_calls calls []"
proof -
  let ?t = "if calls = [] then 0 else wc_now (hd calls)"
  have "log_matches ?t \<lparr>bk_buckets = [], bk_last_prune = 0\<rparr> []"
    by (simp add: log_matches_def bucket_of_def recent_on_def)
  moreover have "\<forall>c \<in> set calls. ?t \<le> wc_now c" using assms by (cases calls) auto
  ultimately show ?thesis by (rule run_spec [OF assms])
qed

theorem sliding_window_exact_witness:
  "run_calls [\<lparr>wc_key = ''a'', wc_limit = 1, wc_now = 0\<rparr>, \<lparr>wc_key = ''a'', wc_limit = 1, wc_now = 60000000\<rparr>,
     \<lparr>wc_key = ''a'', wc_limit = 1, wc_now = 120000001\<rparr>] \<lparr>bk_buckets = [], bk_last_prune = 0\<rparr> = [True, False, True]"
  by (subst sliding_window_exact) (simp_all add: Let_def recent_on_def seconds_def)

subsection \<open>The durable windows bound every burst\<close>

text \<open>A call of \<open>consume_window\<close>: the driver's error if it has one, the key, and the moment.\<close>

record durable_call =
  dc_error :: "string option"
  dc_key :: string
  dc_now :: int

text \<open>The moments at which the calls on one key were admitted, oldest first.\<close>

fun admitted_on :: "string \<Rightarrow> int \<Rightarrow> int \<Rightarrow> durable_call list \<Rightarrow> quota_store \<Rightarrow> int list" where
  "admitted_on k limit window [] s = []"
| "admitted_on k limit window (c # cs) s = (case consume_window (dc_error c) (dc_key c) limit window (dc_now c) s of
     (r, s') \<Rightarrow> (if strip (dc_key c) = k \<and> (case r of Inr d \<Rightarrow> wd_allowed d | Inl _ \<Rightarrow> False) then [dc_now c] else [])
       @ admitted_on k limit window cs s')"

text \<open>
  The admitted calls of a key fall into windows of at most \<open>l\<close> calls each, each of which starts
  \<open>w\<close> or more after the start of the one before; the last window is the stored row.
\<close>

fun spaced :: "int \<Rightarrow> nat \<Rightarrow> int list list \<Rightarrow> bool" where
  "spaced w l [] = True"
| "spaced w l (x # xs) \<longleftrightarrow> x \<noteq> [] \<and> length x \<le> l \<and> (xs \<noteq> [] \<longrightarrow> hd x + w \<le> hd (hd xs)) \<and> spaced w l xs"

lemma spaced_snoc:
  "spaced w l (xs @ [y]) \<longleftrightarrow> spaced w l xs \<and> y \<noteq> [] \<and> length y \<le> l \<and> (xs \<noteq> [] \<longrightarrow> hd (last xs) + w \<le> hd y)"
  by (induction xs) auto

lemma spaced_hd_late:
  assumes "spaced w l xs" and "sorted (concat xs)" and "0 \<le> w" and "x \<in> set (concat xs)"
  shows "hd (hd xs) \<le> x"
proof (cases xs)
  case (Cons y ys)
  with assms(1) obtain z zs where "y = z # zs" by (cases y) auto
  with assms(2,4) Cons show ?thesis by auto
qed (use assms in auto)

text \<open>Calls in a stretch shorter than a window that starts before the first window fall into that window.\<close>

lemma in_first_window:
  assumes "spaced w l xs" and "sorted (concat xs)" and "0 \<le> w" and "xs \<noteq> []" and "t \<le> hd (hd xs)"
  shows "length (filter (\<lambda>x. t \<le> x \<and> x < t + w) (concat xs)) \<le> l"
proof -
  obtain y ys where xs: "xs = y # ys" using assms(4) by (cases xs) auto
  have "\<not> x < t + w" if "x \<in> set (concat ys)" for x
  proof -
    from that have "ys \<noteq> []" by auto
    with assms(1,5) xs have "t + w \<le> hd (hd ys)" by simp
    also have "\<dots> \<le> x" using assms(1-3) xs that by (intro spaced_hd_late [of w l]) (auto simp: sorted_append)
    finally show ?thesis by simp
  qed
  then have "filter (\<lambda>x. t \<le> x \<and> x < t + w) (concat ys) = []" by (auto simp: filter_empty_conv)
  moreover have "length (filter (\<lambda>x. t \<le> x \<and> x < t + w) y) \<le> l"
    using assms(1) xs order_trans [OF length_filter_le, of y l] by simp
  ultimately show ?thesis using xs by simp
qed

lemma burst_in_spaced:
  assumes "spaced w l xs" and "sorted (concat xs)" and "0 \<le> w"
  shows "length (filter (\<lambda>x. t \<le> x \<and> x < t + w) (concat xs)) \<le> 2 * l"
  using assms
proof (induction xs)
  case (Cons y ys)
  let ?P = "\<lambda>x. t \<le> x \<and> x < t + w"
  have sp: "spaced w l ys" and so: "sorted (concat ys)" and y: "length y \<le> l"
    using Cons.prems by (auto simp: sorted_append)
  show ?case
  proof (cases "filter ?P y = []")
    case True
    with Cons.IH [OF sp so Cons.prems(3)] show ?thesis by simp
  next
    case False
    then obtain x where x: "x \<in> set y" "t \<le> x" by (auto simp: filter_empty_conv)
    have "length (filter ?P (concat ys)) \<le> l"
    proof (cases "ys = []")
      case False
      then have "hd ys \<noteq> []" using sp by (cases ys) auto
      then have "hd (hd ys) \<in> set (concat ys)" using False by (cases ys) auto
      with Cons.prems(2) x have "t \<le> hd (hd ys)" by (fastforce simp: sorted_append)
      from in_first_window [OF sp so Cons.prems(3) False this] show ?thesis .
    qed simp
    moreover have "length (filter ?P y) \<le> l" using y length_filter_le [of ?P y] by linarith
    ultimately show ?thesis by simp
  qed
qed simp

definition windows_match :: "string \<Rightarrow> int \<Rightarrow> int list list \<Rightarrow> quota_store \<Rightarrow> bool" where
  "windows_match k t xs s \<longleftrightarrow> sorted (concat xs) \<and> (\<forall>x \<in> set (concat xs). x \<le> t) \<and>
     (case row_of qw_key k s of None \<Rightarrow> xs = []
      | Some r \<Rightarrow> xs \<noteq> [] \<and> qw_started_at r = hd (last xs) \<and> qw_count r = int (length (last xs)))"

lemma windows_match_later: "windows_match k t xs s \<Longrightarrow> t \<le> t' \<Longrightarrow> windows_match k t' xs s"
  by (fastforce simp: windows_match_def)

text \<open>One call: it is on another key or refused and leaves the windows, or it extends them.\<close>

lemma consume_window_keeps:
  assumes "windows_match k t xs s"
    and "\<not> (strip key = k \<and> (case fst (consume_window e key limit window n s) of Inr d \<Rightarrow> wd_allowed d | Inl _ \<Rightarrow> False))"
  shows "windows_match k t xs (snd (consume_window e key limit window n s))"
  using assms by (auto simp: windows_match_def consume_window_def Let_def split: option.splits prod.splits if_splits)

lemma hd_last_append: "xs \<noteq> [] \<Longrightarrow> hd (xs @ ys) = hd xs"
  by (cases xs) auto

lemma consume_window_extends:
  assumes m: "windows_match k t xs s" and sp: "spaced (seconds (max window 1)) (nat (max limit 1)) xs" and "t \<le> n"
    and ok: "strip key = k" "case fst (consume_window e key limit window n s) of Inr d \<Rightarrow> wd_allowed d | Inl _ \<Rightarrow> False"
  shows "\<exists>xs'. concat xs' = concat xs @ [n] \<and> spaced (seconds (max window 1)) (nat (max limit 1)) xs' \<and>
    windows_match k n xs' (snd (consume_window e key limit window n s))"
proof -
  have k: "k \<noteq> []" and e: "e = None" using ok by (auto simp: consume_window_def Let_def split: option.splits if_splits)
  have so: "sorted (concat xs @ [n])" "\<forall>x \<in> set (concat xs @ [n]). x \<le> n"
    using windows_match_later [OF m \<open>t \<le> n\<close>] by (auto simp: windows_match_def sorted_append)
  let ?lim = "max limit 1"
  let ?put = "\<lambda>st c. put_row qw_key \<lparr>qw_key = k, qw_started_at = st, qw_count = c, qw_updated_at = n\<rparr> s"
  show ?thesis
  proof (cases "case row_of qw_key k s of None \<Rightarrow> True | Some r \<Rightarrow> window_expired n (max window 1) r")
    case True
    then have s': "snd (consume_window e key limit window n s) = ?put n 1"
      using ok k e by (auto simp: consume_window_def Let_def split: option.splits)
    have "hd (last xs) + seconds (max window 1) \<le> n" if "xs \<noteq> []"
      using True m that by (auto simp: windows_match_def window_expired_def split: option.splits)
    then have "spaced (seconds (max window 1)) (nat ?lim) (xs @ [[n]])"
      using sp by (simp add: spaced_snoc)
    moreover have "windows_match k n (xs @ [[n]]) (?put n 1)" using so by (simp add: windows_match_def)
    ultimately show ?thesis unfolding s' by (intro exI [of _ "xs @ [[n]]"]) simp
  next
    case False
    then obtain r where r: "row_of qw_key k s = Some r" "\<not> window_expired n (max window 1) r"
      by (auto split: option.splits)
    with m have xs: "xs \<noteq> []" "qw_started_at r = hd (last xs)" "qw_count r = int (length (last xs))"
      by (auto simp: windows_match_def)
    then obtain ys y where y: "xs = ys @ [y]" by (metis rev_exhaust)
    have s': "snd (consume_window e key limit window n s) = ?put (hd y) (int (length y) + 1)" and lim: "int (length y) < ?lim"
      using ok k e r xs y by (auto simp: consume_window_def Let_def split: if_splits)
    have ne: "y \<noteq> []" using sp y by (simp add: spaced_snoc)
    have "length (y @ [n]) \<le> nat ?lim" using lim by simp
    then have "spaced (seconds (max window 1)) (nat ?lim) (ys @ [y @ [n]])"
      using sp y ne by (simp add: spaced_snoc hd_last_append)
    moreover have "windows_match k n (ys @ [y @ [n]]) (?put (hd y) (int (length y) + 1))"
      using so y ne by (simp add: windows_match_def hd_last_append)
    ultimately show ?thesis unfolding s' using y by (intro exI [of _ "ys @ [y @ [n]]"]) simp
  qed
qed

lemma admitted_windows:
  assumes "sorted (map dc_now calls)" and "\<forall>c \<in> set calls. t \<le> dc_now c"
    and "windows_match k t xs s" and "spaced (seconds (max window 1)) (nat (max limit 1)) xs"
  shows "\<exists>ys. concat ys = concat xs @ admitted_on k limit window calls s \<and>
    spaced (seconds (max window 1)) (nat (max limit 1)) ys \<and> sorted (concat ys)"
  using assms
proof (induction calls arbitrary: t xs s)
  case Nil
  then show ?case by (auto simp: windows_match_def intro!: exI [of _ xs])
next
  case (Cons c cs)
  obtain r s' where run: "consume_window (dc_error c) (dc_key c) limit window (dc_now c) s = (r, s')" by fastforce
  have later: "sorted (map dc_now cs)" "\<forall>d \<in> set cs. dc_now c \<le> dc_now d" "t \<le> dc_now c" using Cons.prems(1,2) by auto
  show ?case
  proof (cases "strip (dc_key c) = k \<and> (case r of Inr d \<Rightarrow> wd_allowed d | Inl _ \<Rightarrow> False)")
    case True
    from consume_window_extends [OF Cons.prems(3,4) later(3), of "dc_key c" "dc_error c"] True run
    obtain xs' where "concat xs' = concat xs @ [dc_now c]" "spaced (seconds (max window 1)) (nat (max limit 1)) xs'"
      "windows_match k (dc_now c) xs' s'" by auto
    with Cons.IH [OF later(1,2), of xs' s'] True run show ?thesis by auto
  next
    case False
    with consume_window_keeps [OF windows_match_later [OF Cons.prems(3) later(3)], of "dc_key c" "dc_error c" limit window "dc_now c"] run
    have "windows_match k (dc_now c) xs s'" by simp
    with Cons.IH [OF later(1,2) this Cons.prems(4)] False run show ?thesis by auto
  qed
qed

text \<open>
  The durable windows start anew when they have run out, so a burst across the border of two
  can pass the limit, but never twice the limit: with a clock that does not go back, whatever
  other keys are used in between and whatever calls the database fails, any stretch as long as
  a window holds at most twice the limit of admitted calls on a key.
\<close>

theorem window_burst_bound:
  assumes "sorted (map dc_now calls)"
  shows "int (length (filter (\<lambda>x. t \<le> x \<and> x < t + seconds (max window 1)) (admitted_on k limit window calls []))) \<le> 2 * max limit 1"
proof -
  let ?t0 = "if calls = [] then 0 else dc_now (hd calls)"
  have "\<forall>c \<in> set calls. ?t0 \<le> dc_now c" using assms by (cases calls) auto
  from admitted_windows [OF assms this, of k "[]" "[]" window limit]
  obtain ys where ys: "concat ys = admitted_on k limit window calls []"
    "spaced (seconds (max window 1)) (nat (max limit 1)) ys" "sorted (concat ys)" by (auto simp: windows_match_def)
  have "0 \<le> seconds (max window 1)" by (simp add: seconds_def)
  from burst_in_spaced [OF ys(2,3) this, of t] ys(1) show ?thesis by simp
qed

theorem window_burst_bound_witness:
  "let calls = map (\<lambda>t. \<lparr>dc_error = None, dc_key = ''k'', dc_now = t\<rparr>) [0, 59000000, 59000000, 60000000, 60000000, 60000000] in
     admitted_on ''k'' 2 60 calls [] = [0, 59000000, 60000000, 60000000] \<and>
     int (length (filter (\<lambda>x. 1000000 \<le> x \<and> x < 1000000 + seconds (max 60 1)) (admitted_on ''k'' 2 60 calls []))) \<le> 2 * max 2 1"
proof -
  let ?calls = "map (\<lambda>t. \<lparr>dc_error = None, dc_key = ''k'', dc_now = t\<rparr>) [0, 59000000, 59000000, 60000000, 60000000, 60000000 :: int]"
  have "admitted_on ''k'' 2 60 ?calls [] = [0, 59000000, 60000000, 60000000]" by code_simp
  moreover have "sorted (map dc_now ?calls)" by simp
  ultimately show ?thesis using window_burst_bound [of ?calls 1000000 60 "''k''" 2] unfolding Let_def by blast
qed

end
