(* ===== verification/Quota_Policy.thy ===== *)
theory Quota_Policy
  imports Quota_Windows
begin

text \<open>
  The quota decisions of \<open>quota_policy_service.py\<close>: a profile names the surface, the answer of a
  request window or of a refused channel turn becomes a decision with its reason, scope,
  response class and HTTP status, and \<open>quota_response_service.py\<close> turns a decision into an HTTP
  refusal. The texts of the chat replies (which use characters above code point 255) are left
  out, and so is the daily message limit of deployed agents but for the verdict it hands over.
\<close>

subsection \<open>Data\<close>

record quota_subject =
  qs_tenant_id :: "string option"
  qs_workspace_id :: "string option"
  qs_surface_kind :: string
  qs_channel_key :: "string option"
  qs_deployed_agent_id :: "string option"
  qs_external_user_id :: "string option"
  qs_responder_install_id :: "string option"
  qs_thread_id :: "string option"
  qs_session_key :: "string option"
  qs_actor_id :: "string option"
  qs_request_path :: "string option"
  qs_client_ip :: "string option"

record quota_profile =
  qp_name :: string
  qp_surface_kind :: string
  qp_deny_reason :: "string option"

record quota_decision =
  qd_allowed :: bool
  qd_reason :: "string option"
  qd_scope :: "string option"
  qd_surface_kind :: string
  qd_retry_after :: "int option"
  qd_quota_snapshot :: "pydict option"
  qd_response_class :: "string option"
  qd_http_status :: "int option"
  qd_metadata :: pydict

subsection \<open>Tables\<close>

definition quota_profiles :: "quota_profile list" where
  "quota_profiles = map (\<lambda>(n, s, d). \<lparr>qp_name = n, qp_surface_kind = s, qp_deny_reason = d\<rparr>)
     [(''auth_login'', ''auth_login'', Some ''auth_login_rate_limited''),
      (''auth_public_registration'', ''auth_public'', Some ''auth_public_rate_limited''),
      (''authenticated_api'', ''authenticated_api'', Some ''authenticated_api_rate_limited''),
      (''service_api'', ''service_api'', Some ''service_api_rate_limited''),
      (''control_plane_mutation'', ''control_plane_mutation'', Some ''control_plane_rate_limited''),
      (''auth_csrf_failure'', ''auth_csrf'', Some ''auth_csrf_rate_limited''),
      (''auth_refresh'', ''auth_refresh'', Some ''auth_refresh_rate_limited''),
      (''model_invocation'', ''model_invocation'', Some ''model_invocation_rate_limited''),
      (''mini_app_bridge'', ''mini_app_bridge'', Some ''mini_app_bridge_rate_limited''),
      (''mini_app_invoke'', ''mini_app_invoke'', Some ''mini_app_invoke_rate_limited''),
      (''deployed_agent_public_turn'', ''deployed_agent_channel'', None),
      (''deployed_agent_internal_transport'', ''deployed_agent_channel'', None)]"

definition deployed_agent_public_turn_profile :: quota_profile where
  "deployed_agent_public_turn_profile =
     \<lparr>qp_name = ''deployed_agent_public_turn'', qp_surface_kind = ''deployed_agent_channel'', qp_deny_reason = None\<rparr>"

definition response_class_by_reason :: "string \<Rightarrow> string option" where
  "response_class_by_reason = map_of
     [(''auth_login_rate_limited'', ''http_rate_limited''),
      (''auth_public_rate_limited'', ''http_rate_limited''),
      (''authenticated_api_rate_limited'', ''http_rate_limited''),
      (''service_api_rate_limited'', ''http_rate_limited''),
      (''control_plane_rate_limited'', ''http_rate_limited''),
      (''auth_csrf_rate_limited'', ''http_rate_limited''),
      (''auth_refresh_rate_limited'', ''http_rate_limited''),
      (''model_invocation_rate_limited'', ''http_rate_limited''),
      (''mini_app_bridge_rate_limited'', ''http_rate_limited''),
      (''mini_app_invoke_rate_limited'', ''http_rate_limited''),
      (''deployed_agent_daily_limit_exceeded'', ''upgrade_required''),
      (''thread_busy'', ''thread_busy''),
      (''agent_limit_exceeded'', ''specialist_busy''),
      (''workspace_limit_exceeded'', ''workspace_busy''),
      (''workspace_rate_limited'', ''traffic_surge''),
      (''runtime_cap_exceeded'', ''service_window_exceeded'')]"

definition scope_by_reason :: "string \<Rightarrow> string option" where
  "scope_by_reason = map_of
     [(''auth_login_rate_limited'', ''auth_login_ip_window''),
      (''auth_public_rate_limited'', ''auth_public_ip_window''),
      (''authenticated_api_rate_limited'', ''authenticated_api_actor_window''),
      (''service_api_rate_limited'', ''service_api_actor_window''),
      (''control_plane_rate_limited'', ''control_plane_identity_window''),
      (''auth_csrf_rate_limited'', ''auth_csrf_failure_ip_window''),
      (''auth_refresh_rate_limited'', ''auth_refresh_ip_window''),
      (''model_invocation_rate_limited'', ''model_invocation_actor_window''),
      (''mini_app_bridge_rate_limited'', ''mini_app_bridge_actor_window''),
      (''mini_app_invoke_rate_limited'', ''mini_app_invoke_actor_window''),
      (''deployed_agent_daily_limit_exceeded'', ''deployed_agent_external_user_day''),
      (''thread_busy'', ''conversation_thread''),
      (''agent_limit_exceeded'', ''agent_active_threads''),
      (''workspace_limit_exceeded'', ''workspace_active_threads''),
      (''workspace_rate_limited'', ''workspace_turn_rate''),
      (''runtime_cap_exceeded'', ''runtime_service_window'')]"

definition http_detail_for_reason :: "string option \<Rightarrow> string" where
  "http_detail_for_reason reason = (case map_of
     [(''auth_login_rate_limited'', ''Too many attempts right now. Please wait a moment and try again.''),
      (''auth_public_rate_limited'', ''Too many requests right now. Please wait a moment and try again.''),
      (''authenticated_api_rate_limited'', ''Sage is receiving too many requests right now. Please try again shortly.''),
      (''service_api_rate_limited'', ''Sage is receiving too many requests right now. Please try again shortly.''),
      (''control_plane_rate_limited'', ''Setup services are busy right now. Please try again in a moment.''),
      (''auth_csrf_rate_limited'', ''Too many invalid security token attempts. Please wait a moment and try again.''),
      (''model_invocation_rate_limited'', ''Sage is receiving too many generation requests right now. Please try again shortly.''),
      (''mini_app_bridge_rate_limited'', ''Mini-app bridge traffic is currently limited. Please retry in a moment.''),
      (''mini_app_invoke_rate_limited'', ''Mini-app invoke traffic is currently limited. Please retry in a moment.'')]
     (opt_tok reason) of Some m \<Rightarrow> m | None \<Rightarrow> ''Sage is temporarily at capacity. Please try again in a moment.'')"

definition channel_status_for_reason :: "string option \<Rightarrow> string" where
  "channel_status_for_reason reason = (case map_of
     [(''deployed_agent_daily_limit_exceeded'', ''rate_limited''),
      (''thread_busy'', ''thread_busy''),
      (''agent_limit_exceeded'', ''agent_busy''),
      (''workspace_limit_exceeded'', ''workspace_busy''),
      (''workspace_rate_limited'', ''rate_limited''),
      (''runtime_cap_exceeded'', ''runtime_capped'')] (opt_tok reason) of Some m \<Rightarrow> m | None \<Rightarrow> ''rate_limited'')"

subsection \<open>Decisions\<close>

definition get_quota_policy_profile :: "string \<Rightarrow> quota_profile res" where
  "get_quota_policy_profile name = (case row_of qp_name (strip name) quota_profiles of
     None \<Rightarrow> Inl (KeyError (''Unknown quota policy profile: '' @ name))
   | Some p \<Rightarrow> Inr p)"

definition allow_quota_decision :: "quota_profile \<Rightarrow> pydict \<Rightarrow> quota_decision" where
  "allow_quota_decision profile metadata =
     \<lparr>qd_allowed = True, qd_reason = None, qd_scope = None, qd_surface_kind = qp_surface_kind profile,
      qd_retry_after = None, qd_quota_snapshot = None, qd_response_class = None, qd_http_status = Some 200,
      qd_metadata = metadata\<rparr>"

text \<open>No caller passes the arguments \<open>scope\<close>, \<open>response_class\<close> and \<open>http_status\<close> (429).\<close>

definition deny_quota_decision :: "quota_profile \<Rightarrow> string \<Rightarrow> int option \<Rightarrow> pydict option \<Rightarrow> pydict \<Rightarrow> quota_decision" where
  "deny_quota_decision profile reason retry_after quota_snapshot metadata =
     (let r = sor (strip reason) (sor (case qp_deny_reason profile of None \<Rightarrow> [] | Some d \<Rightarrow> d) ''rate_limited'') in
      \<lparr>qd_allowed = False, qd_reason = Some r, qd_scope = scope_by_reason r, qd_surface_kind = qp_surface_kind profile,
       qd_retry_after = (case retry_after of None \<Rightarrow> None | Some i \<Rightarrow> if i = 0 then None else Some (max i 1)),
       qd_quota_snapshot = (case quota_snapshot of None \<Rightarrow> None | Some d \<Rightarrow> if d = [] then None else Some d),
       qd_response_class = response_class_by_reason r, qd_http_status = Some 429, qd_metadata = metadata\<rparr>)"

definition evaluate_request_window_quota ::
    "bool \<Rightarrow> string option \<Rightarrow> string \<Rightarrow> quota_subject \<Rightarrow> string \<Rightarrow> int \<Rightarrow> int \<Rightarrow> bucket_state \<times> quota_store
     \<Rightarrow> quota_decision res \<times> bucket_state \<times> quota_store" where
  "evaluate_request_window_quota in_memory sql_error profile_name subject key limit current st =
     (case get_quota_policy_profile profile_name of
        Inl e \<Rightarrow> (Inl e, st)
      | Inr profile \<Rightarrow>
        (case evaluate_request_window in_memory sql_error key limit current st of
           (Inl e, st') \<Rightarrow> (Inl e, st')
         | (Inr w, st') \<Rightarrow>
           (let metadata =
                [(''quota_key'', opt_val (snone (strip key))),
                 (''window_seconds'', PInt 60),
                 (''limit'', PInt (if wr_limit w = 0 then max limit 1 else wr_limit w)),
                 (''observed'', PInt (wr_observed w)),
                 (''request_path'', opt_val (qs_request_path subject)),
                 (''client_ip'', opt_val (qs_client_ip subject)),
                 (''actor_id'', opt_val (qs_actor_id subject))]
            in (Inr (if wr_allowed w then allow_quota_decision profile metadata
                else deny_quota_decision profile (case qp_deny_reason profile of None \<Rightarrow> ''rate_limited'' | Some d \<Rightarrow> sor d ''rate_limited'')
                  (Some (if wr_retry_after w = 0 then 1 else wr_retry_after w)) None metadata), st'))))"

definition quota_thread_metadata :: "quota_subject \<Rightarrow> pydict" where
  "quota_thread_metadata subject =
     [(''deployed_agent_id'', opt_val (qs_deployed_agent_id subject)),
      (''responder_install_id'', opt_val (qs_responder_install_id subject)),
      (''thread_id'', opt_val (qs_thread_id subject)),
      (''session_key'', opt_val (qs_session_key subject))]"

text \<open>
  Both decisions on a channel turn: \<open>error\<close> is read through its reason, its seconds to wait and
  its snapshot.
\<close>

definition channel_limit_error_decision :: "quota_subject \<Rightarrow> string \<Rightarrow> int \<Rightarrow> pydict option \<Rightarrow> quota_decision" where
  "channel_limit_error_decision subject reason retry_after snapshot =
     deny_quota_decision deployed_agent_public_turn_profile (sor reason ''workspace_limit_exceeded'')
       (Some (if retry_after = 0 then 1 else retry_after)) snapshot (quota_thread_metadata subject)"

definition runtime_cap_quota_decision :: "quota_subject \<Rightarrow> pydict \<Rightarrow> quota_decision res" where
  "runtime_cap_quota_decision subject snapshot =
     (case py_int (por (dget snapshot ''max_runtime_seconds'') (PInt 0)) of
        Inl e \<Rightarrow> Inl e
      | Inr m \<Rightarrow> Inr (deny_quota_decision deployed_agent_public_turn_profile ''runtime_cap_exceeded''
          (Some (if m \<noteq> 0 then max (min (m div 2) 30) 5 else 5)) (Some snapshot) (quota_thread_metadata subject)))"

text \<open>
  \<open>evaluate_channel_quota\<close>, from the verdict of the daily quota: its dictionary. \<open>int(...)\<close> of the
  seconds to wait can raise.
\<close>

definition evaluate_channel_quota :: "string \<Rightarrow> quota_subject \<Rightarrow> pydict \<Rightarrow> quota_decision res" where
  "evaluate_channel_quota profile_name subject verdict =
     (case get_quota_policy_profile profile_name of
        Inl e \<Rightarrow> Inl e
      | Inr profile \<Rightarrow>
        if \<not> truthy (dget verdict ''applied'') \<or> (map_of verdict ''allowed'' = None \<or> truthy (dget verdict ''allowed''))
        then Inr (allow_quota_decision profile
          ((''applied'', PBool (truthy (dget verdict ''applied''))) # (''deployed_agent_id'', opt_val (qs_deployed_agent_id subject))
           # map (\<lambda>k. (k, dget verdict k)) [''daily_message_limit'', ''message_count'', ''remaining'', ''usage_day'', ''warning_sent'']))
        else (case py_int (por (dget verdict ''retry_after_seconds'') (PInt 1)) of
          Inl e \<Rightarrow> Inl e
        | Inr retry_after \<Rightarrow> Inr (deny_quota_decision profile ''deployed_agent_daily_limit_exceeded'' (Some retry_after) None
          ((''deployed_agent_id'', opt_val (qs_deployed_agent_id subject))
           # map (\<lambda>k. (k, dget verdict k)) [''daily_message_limit'', ''message_count'', ''remaining'', ''usage_day'',
               ''upgrade_cta_url'', ''upgrade_cta_label'', ''channel_attribution'']))))"

subsection \<open>The HTTP refusal\<close>

record http_refusal =
  hr_status :: int
  hr_detail :: pydict
  hr_headers :: "(string \<times> string) list"

definition rate_limit_class :: string where
  "rate_limit_class = ''rate_limit''"

definition http_exception_from_quota_decision :: "quota_decision \<Rightarrow> http_refusal" where
  "http_exception_from_quota_decision d =
     \<lparr>hr_status = int_or (qd_http_status d) 429,
      hr_detail =
        [(''code'', PStr (sor (opt_tok (qd_reason d)) ''rate_limit_exceeded'')),
         (''message'', PStr (http_detail_for_reason (qd_reason d))),
         (''class'', PStr rate_limit_class),
         (''retryable'', PBool True),
         (''details'', PDict (dmerge [(''response_class'', opt_val (qd_response_class d))]
            (filter (\<lambda>(k, v). v \<noteq> PNone) (qd_metadata d))))],
      hr_headers = (case qd_retry_after d of None \<Rightarrow> [] | Some i \<Rightarrow> if i = 0 then [] else [(''Retry-After'', py_int_str i)])\<rparr>"

subsection \<open>Refusals are explained\<close>

lemma profile_reasons:
  "list_all (\<lambda>p. case qp_deny_reason p of None \<Rightarrow> True
     | Some r \<Rightarrow> r \<noteq> [] \<and> strip r = r \<and> scope_by_reason r \<noteq> None \<and> response_class_by_reason r = Some ''http_rate_limited'') quota_profiles"
  by code_simp

lemma profile_reason:
  assumes "get_quota_policy_profile name = Inr p" and "qp_deny_reason p = Some r"
  shows "r \<noteq> []" and "strip r = r" and "scope_by_reason r \<noteq> None" and "response_class_by_reason r = Some ''http_rate_limited''"
proof -
  from assms(1) have "p \<in> set quota_profiles"
    by (auto simp: get_quota_policy_profile_def dest: row_of_key split: option.splits)
  with profile_reasons assms(2) have "r \<noteq> [] \<and> strip r = r \<and> scope_by_reason r \<noteq> None \<and> response_class_by_reason r = Some ''http_rate_limited''"
    by (fastforce simp: list_all_iff)
  then show "r \<noteq> []" and "strip r = r" and "scope_by_reason r \<noteq> None" and "response_class_by_reason r = Some ''http_rate_limited''"
    by blast+
qed

lemma refusal_code:
  "dget (hr_detail (http_exception_from_quota_decision d)) ''code'' = PStr (sor (opt_tok (qd_reason d)) ''rate_limit_exceeded'')"
  by (simp add: http_exception_from_quota_decision_def)

lemma deny_http:
  fixes i :: int
  assumes "i \<noteq> 0"
  shows "hr_status (http_exception_from_quota_decision (deny_quota_decision p r (Some i) snapshot m)) = 429"
    and "hr_headers (http_exception_from_quota_decision (deny_quota_decision p r (Some i) snapshot m)) = [(''Retry-After'', py_int_str (max i 1))]"
  using assms by (simp_all add: deny_quota_decision_def http_exception_from_quota_decision_def Let_def max_def)

lemma deny_reason:
  assumes "strip r = r" and "r \<noteq> []"
  shows "qd_reason (deny_quota_decision p r i snapshot m) = Some r"
    and "qd_scope (deny_quota_decision p r i snapshot m) = scope_by_reason r"
    and "qd_response_class (deny_quota_decision p r i snapshot m) = response_class_by_reason r"
    and "qd_allowed (deny_quota_decision p r i snapshot m) = False"
  using assms by (simp_all add: deny_quota_decision_def sor_def Let_def)

text \<open>
  A request window decides the quota of a request, and a refusal is explained to the client:
  it answers 429 with the reason of the profile, names the scope and the response class of that
  reason, and the \<open>Retry-After\<close> header asks for at least a second; an admitted request has no
  reason and no header.
\<close>

theorem window_refusal_explained:
  assumes "evaluate_request_window_quota in_memory sql_error name subject key limit t st = (Inr d, st')"
  shows "\<exists>p w. get_quota_policy_profile name = Inr p \<and>
    evaluate_request_window in_memory sql_error key limit t st = (Inr w, st') \<and> qd_allowed d = wr_allowed w \<and>
    (wr_allowed w \<longrightarrow> qd_reason d = None \<and> hr_headers (http_exception_from_quota_decision d) = []) \<and>
    (\<not> wr_allowed w \<longrightarrow> hr_status (http_exception_from_quota_decision d) = 429 \<and>
       (\<exists>i \<ge> 1. hr_headers (http_exception_from_quota_decision d) = [(''Retry-After'', py_int_str i)]) \<and>
       (\<forall>r. qp_deny_reason p = Some r \<longrightarrow> dget (hr_detail (http_exception_from_quota_decision d)) ''code'' = PStr r \<and>
          qd_scope d = scope_by_reason r \<and> qd_scope d \<noteq> None \<and> qd_response_class d = Some ''http_rate_limited''))"
proof -
  from assms obtain p w where p: "get_quota_policy_profile name = Inr p"
    and w: "evaluate_request_window in_memory sql_error key limit t st = (Inr w, st')"
    by (auto simp: evaluate_request_window_quota_def Let_def split: sum.splits prod.splits)
  have reply: "d = (if wr_allowed w then allow_quota_decision p m
      else deny_quota_decision p r (Some i) None m)" if "m = qd_metadata d"
      "r = (case qp_deny_reason p of None \<Rightarrow> ''rate_limited'' | Some r \<Rightarrow> sor r ''rate_limited'')"
      "i = (if wr_retry_after w = 0 then 1 else wr_retry_after w)" for m r i
    using assms p w that by (auto simp: evaluate_request_window_quota_def Let_def allow_quota_decision_def deny_quota_decision_def)
  show ?thesis
  proof (cases "wr_allowed w")
    case True
    with reply have "d = allow_quota_decision p (qd_metadata d)" by simp
    then have "qd_reason d = None" "qd_retry_after d = None" "qd_allowed d"
      by (metis allow_quota_decision_def quota_decision.select_convs)+
    with True p w show ?thesis by (auto simp: http_exception_from_quota_decision_def)
  next
    case False
    define r where "r = (case qp_deny_reason p of None \<Rightarrow> ''rate_limited'' | Some r \<Rightarrow> sor r ''rate_limited'')"
    define i where "i = (if wr_retry_after w = 0 then 1 else wr_retry_after w)"
    have i: "i \<noteq> 0" by (simp add: i_def)
    have r: "strip r = r" "r \<noteq> []" "\<And>q. qp_deny_reason p = Some q \<Longrightarrow> r = q"
      using profile_reason [OF p] by (auto simp: r_def sor_def strip_def py_space_def split: option.splits)
    from reply [OF refl r_def i_def] False obtain m where d: "d = deny_quota_decision p r (Some i) None m" by auto
    have "\<exists>j \<ge> 1. hr_headers (http_exception_from_quota_decision d) = [(''Retry-After'', py_int_str j)]"
      unfolding d deny_http(2) [OF i] by (intro exI [of _ "max i 1"]) simp
    moreover have "dget (hr_detail (http_exception_from_quota_decision d)) ''code'' = PStr q \<and> qd_scope d = scope_by_reason q \<and>
        qd_scope d \<noteq> None \<and> qd_response_class d = Some ''http_rate_limited''" if "qp_deny_reason p = Some q" for q
      using deny_reason [OF r(1,2), of p "Some i" None m] r profile_reason [OF p that] that
      unfolding d by (simp add: refusal_code sor_def)
    ultimately show ?thesis
      using p w False deny_http(1) [OF i, of p r None m, folded d] deny_reason(4) [OF r(1,2), of p "Some i" None m, folded d]
      by (intro exI [of _ p] exI [of _ w]) (use profile_reason(3) [OF p] in \<open>auto simp del: not_None_eq\<close>)
  qed
qed

theorem window_refusal_explained_witness:
  "\<exists>d st'. evaluate_request_window_quota True None ''auth_login'' \<lparr>qs_tenant_id = None, qs_workspace_id = None,
       qs_surface_kind = [], qs_channel_key = None, qs_deployed_agent_id = None, qs_external_user_id = None,
       qs_responder_install_id = None, qs_thread_id = None, qs_session_key = None, qs_actor_id = None,
       qs_request_path = None, qs_client_ip = None\<rparr> ''ip'' 1 60000000 (\<lparr>bk_buckets = [(''ip'', [0])], bk_last_prune = 0\<rparr>, []) = (Inr d, st') \<and>
     qd_reason d = Some ''auth_login_rate_limited'' \<and> (\<exists>p. \<exists>w :: window_reply. get_quota_policy_profile ''auth_login'' = Inr p \<and> qd_allowed d = wr_allowed w \<and> \<not> wr_allowed w)"
  (is "\<exists>d st'. ?e = (Inr d, st') \<and> _")
proof -
  have e: "(case fst ?e of Inl _ \<Rightarrow> False | Inr d \<Rightarrow> qd_reason d = Some ''auth_login_rate_limited'')" by code_simp
  then obtain d where d: "fst ?e = Inr d" "qd_reason d = Some ''auth_login_rate_limited''" by (cases "fst ?e") auto
  then have q: "?e = (Inr d, snd ?e)" by (cases ?e) simp
  from window_refusal_explained [OF q] obtain p and w :: window_reply where "get_quota_policy_profile ''auth_login'' = Inr p"
    "qd_allowed d = wr_allowed w" "wr_allowed w \<longrightarrow> qd_reason d = None"
    by (elim exE conjE) (rule that, assumption, assumption, simp)
  with d have "qd_reason d = Some ''auth_login_rate_limited'' \<and> (\<exists>p. \<exists>w :: window_reply. get_quota_policy_profile ''auth_login'' = Inr p \<and>
    qd_allowed d = wr_allowed w \<and> \<not> wr_allowed w)" by auto
  with q show ?thesis by (intro exI [of _ d] exI [of _ "snd ?e"] conjI) simp_all
qed

end
