(* ===== verification/Channel_Leases.thy ===== *)
theory Channel_Leases
  imports Kernel_Gate Tables Lease_Contract Quota_Policy
begin

text \<open>
  The execution leases of channel conversations (\<open>channel_concurrency_service.py\<close>): a turn runs
  under a lease on its thread, which is granted only while the limits of the agent and of the
  workspace leave room. The tables are \<open>agent_channel_execution_leases\<close> and the part of
  \<open>agent_channel_events\<close> that the turn rate reads. An acquisition is one transaction under an
  advisory lock of its workspace, so it is one step here. \<open>NOW()\<close> of the transaction and the
  clock of the process are different moments.
\<close>

subsection \<open>Data\<close>

record channel_snapshot =
  cs_workspace_threads :: int
  cs_agent_threads :: int
  cs_turns_per_minute :: int
  cs_runtime_seconds :: int

record limit_error =
  le_reason :: string
  le_retry_after :: int
  le_snapshot :: channel_snapshot

datatype channel_error = Limited limit_error | ChannelFault py_error

record channel_lease =
  cl_id :: string
  cl_tenant :: string
  cl_workspace :: string
  cl_responder :: "string option"
  cl_thread :: string
  cl_session :: string
  cl_channel :: string
  cl_endpoint :: string
  cl_metadata :: pydict
  cl_acquired_at :: int
  cl_updated_at :: int
  cl_expires_at :: int

record channel_event =
  ce_tenant :: string
  ce_workspace :: string
  ce_direction :: string
  ce_type :: string
  ce_created_at :: int

record channel_store =
  leases :: "channel_lease list"
  channel_events :: "channel_event list"

text \<open>An error of the driver: whether it is a unique violation, the constraint it names, its text.\<close>

record driver_fault =
  df_unique :: bool
  df_constraint :: string
  df_message :: string

text \<open>
  \<open>repo\<close> holds the kernel, \<open>NOW()\<close> and the faults of the statements (call 6 is the insertion,
  whose fault is \<open>insert_fault\<close>; call 7 is the commit); \<open>scoped\<close> is the outcome of
  \<open>_scoped_connection\<close>, \<open>Inr False\<close> when there is no database; \<open>clock\<close> is \<open>datetime.now\<close>,
  \<open>new_lease_id\<close> the fresh identifier, \<open>fetch_workspace\<close> is \<open>get_workspace_by_id\<close>.
\<close>

record channel_env =
  repo :: repo_env
  scoped :: "bool res"
  clock :: int
  new_lease_id :: string
  fetch_workspace :: "string \<Rightarrow> pyval res"
  insert_fault :: "driver_fault option"

record lease_request =
  lr_tenant :: string
  lr_workspace :: string
  lr_responder :: "string option"
  lr_thread :: string
  lr_session :: string
  lr_channel :: string
  lr_endpoint :: string
  lr_workspace_row :: pyval
  lr_install :: pyval
  lr_metadata :: "pydict option"

subsection \<open>Limits\<close>

definition snapshot_dict :: "channel_snapshot \<Rightarrow> pydict" where
  "snapshot_dict q =
     [(''max_workspace_active_threads'', PInt (cs_workspace_threads q)),
      (''max_agent_active_threads'', PInt (cs_agent_threads q)),
      (''max_workspace_turns_per_minute'', PInt (cs_turns_per_minute q)),
      (''max_runtime_seconds'', PInt (cs_runtime_seconds q))]"

definition coerce_int :: "pyval \<Rightarrow> int \<Rightarrow> int \<Rightarrow> int \<Rightarrow> int" where
  "coerce_int v dflt minimum maximum = max minimum (min maximum (safe_int v dflt))"

text \<open>\<open>_workspace_quota_metadata\<close> and \<open>_agent_quota_metadata\<close> are the same code.\<close>

definition quota_metadata :: "pyval \<Rightarrow> pydict" where
  "quota_metadata row = (let metadata = dict_of (dget (dict_of row) ''metadata'') in
     dmerge (dmerge [] (dict_of (dget metadata ''concurrency''))) (dict_of (dget metadata ''plan_limits'')))"

definition resolve_channel_quota_snapshot :: "pyval \<Rightarrow> pyval \<Rightarrow> channel_snapshot" where
  "resolve_channel_quota_snapshot workspace install =
     (let w = dget (quota_metadata workspace); a = dget (quota_metadata install) in
      \<lparr>cs_workspace_threads = coerce_int (por (w ''max_concurrent_customer_threads'') (w ''max_workspace_active_threads'')) 24 1 1000,
       cs_agent_threads = coerce_int (por (a ''max_active_threads'')
          (por (w ''max_concurrent_threads_per_agent'') (w ''max_agent_active_threads''))) 8 1 1000,
       cs_turns_per_minute = coerce_int (por (w ''max_customer_turns_per_minute'') (w ''max_workspace_turns_per_minute'')) 180 1 10000,
       cs_runtime_seconds = coerce_int (por (a ''max_runtime_seconds'')
          (por (w ''max_customer_runtime_seconds'') (w ''max_runtime_seconds''))) 45 5 300\<rparr>)"

definition limit_error_of :: "string \<Rightarrow> int \<Rightarrow> channel_snapshot \<Rightarrow> limit_error" where
  "limit_error_of reason retry_after q =
     \<lparr>le_reason = sor (strip (sor reason ''workspace_busy'')) ''workspace_busy'',
      le_retry_after = max (if retry_after = 0 then 1 else retry_after) 1, le_snapshot = q\<rparr>"

definition thread_busy_error :: "channel_snapshot \<Rightarrow> channel_error" where
  "thread_busy_error q = Limited (limit_error_of ''thread_busy'' 2 q)"

definition agent_limit_error :: "channel_snapshot \<Rightarrow> channel_error" where
  "agent_limit_error q = Limited (limit_error_of ''agent_limit_exceeded'' 5 q)"

definition workspace_limit_error :: "channel_snapshot \<Rightarrow> channel_error" where
  "workspace_limit_error q = Limited (limit_error_of ''workspace_limit_exceeded'' 5 q)"

definition workspace_rate_limit_error :: "channel_snapshot \<Rightarrow> channel_error" where
  "workspace_rate_limit_error q = Limited (limit_error_of ''workspace_rate_limited'' 10 q)"

text \<open>The decisions in \<open>build_limit_result\<close> and \<open>build_runtime_capped_result\<close>.\<close>

definition channel_subject :: quota_subject where
  "channel_subject = \<lparr>qs_tenant_id = None, qs_workspace_id = None, qs_surface_kind = ''deployed_agent_channel'',
     qs_channel_key = None, qs_deployed_agent_id = None, qs_external_user_id = None, qs_responder_install_id = None,
     qs_thread_id = None, qs_session_key = None, qs_actor_id = None, qs_request_path = None, qs_client_ip = None\<rparr>"

definition limit_decision :: "limit_error \<Rightarrow> quota_decision" where
  "limit_decision e = channel_limit_error_decision channel_subject (le_reason e) (le_retry_after e) (Some (snapshot_dict (le_snapshot e)))"

definition runtime_capped_decision :: "channel_snapshot \<Rightarrow> quota_decision res" where
  "runtime_capped_decision q = runtime_cap_quota_decision channel_subject (snapshot_dict q)"

subsection \<open>The gate\<close>

text \<open>
  \<open>json.dumps(value, ensure_ascii=False, sort_keys=True)\<close>, whose length in bytes the gate is told.
\<close>

fun json_sorted :: "pyval \<Rightarrow> string"
and json_sorted_list :: "pyval list \<Rightarrow> string list"
and json_sorted_items :: "(string \<times> pyval) list \<Rightarrow> (string \<times> string) list" where
  "json_sorted PNone = ''null''"
| "json_sorted (PBool b) = (if b then ''true'' else ''false'')"
| "json_sorted (PInt i) = py_int_str i"
| "json_sorted (PStr s) = json_str s"
| "json_sorted (PList xs) = ''['' @ join '', '' (json_sorted_list xs) @ '']''"
| "json_sorted (PDict d) = ''{'' @ join '', '' (map (\<lambda>(k, t). json_str k @ '': '' @ t) (sort_key fst (json_sorted_items d))) @ ''}''"
| "json_sorted_list [] = []"
| "json_sorted_list (x # xs) = json_sorted x # json_sorted_list xs"
| "json_sorted_items [] = []"
| "json_sorted_items ((k, v) # d) = (k, json_sorted v) # json_sorted_items d"

definition lease_payload :: "lease_request \<Rightarrow> string \<Rightarrow> pydict \<Rightarrow> pydict" where
  "lease_payload r lease_id snapshot =
     [(''tenant_id'', PStr (strip (lr_tenant r))),
      (''workspace_id'', PStr (strip (lr_workspace r))),
      (''lease_id'', PStr (strip lease_id)),
      (''responder_install_id'', PStr (opt_tok (lr_responder r))),
      (''thread_id'', PStr (strip (lr_thread r))),
      (''session_key'', PStr (strip (lr_session r))),
      (''channel_key'', PStr (lower (strip (lr_channel r)))),
      (''endpoint_key'', PStr (lower (strip (lr_endpoint r)))),
      (''quota_snapshot'', PDict snapshot),
      (''metadata'', PDict (case lr_metadata r of None \<Rightarrow> [] | Some m \<Rightarrow> m))]"

definition lease_gate_request :: "string \<Rightarrow> lease_request \<Rightarrow> string \<Rightarrow> pydict \<Rightarrow> pydict" where
  "lease_gate_request operation r lease_id snapshot =
     (let payload = lease_payload r lease_id snapshot in
      [(''operation'', PStr operation),
       (''state_class'', PStr ''channel_execution_leases''),
       (''tenant_id'', PStr (sor (strip (lr_tenant r)) ''default'')),
       (''workspace_id'', PStr (strip (lr_workspace r))),
       (''actor_id'', PStr ''system''),
       (''status'', PStr ''active''),
       (''payload'', PDict payload),
       (''payload_bytes'', PInt (utf8_len (json_sorted (PDict payload)))),
       (''workspace_access'', PBool True),
       (''owner_access'', PBool True)])"

text \<open>\<open>next_action\<close> is read from the response as it came.\<close>

definition enforce_lease_transition :: "repo_env \<Rightarrow> string \<Rightarrow> lease_request \<Rightarrow> string \<Rightarrow> pydict \<Rightarrow> unit res" where
  "enforce_lease_transition E operation r lease_id snapshot =
     (let request = lease_gate_request operation r lease_id snapshot in
      case run_runtime_kernel_enforced E ''runtime-state-store-decision'' request of
        Inl e \<Rightarrow> Inl (GateError (exc_text e))
      | Inr _ \<Rightarrow> if tok (dget (kern E ''runtime-state-store-decision'' request) ''next_action'') \<noteq> strip operation
          then Inl (GateError ''unexpected_next_action'') else Inr ())"

subsection \<open>Acquiring\<close>

definition thread_lease_constraint :: string where
  "thread_lease_constraint = ''uq_agent_channel_execution_leases_active_thread''"

definition is_thread_lease_conflict :: "driver_fault \<Rightarrow> bool" where
  "is_thread_lease_conflict f =
     (strip (df_constraint f) = thread_lease_constraint \<or>
      (\<not> df_unique f \<and> contains thread_lease_constraint (lower (df_message f))))"

text \<open>The rows of a workspace, those of them that are live at a moment, its inbound messages of a minute.\<close>

definition of_workspace :: "string \<Rightarrow> string \<Rightarrow> channel_lease \<Rightarrow> bool" where
  "of_workspace tenant workspace r = (cl_tenant r = tenant \<and> cl_workspace r = workspace)"

definition thread_live :: "int \<Rightarrow> string \<Rightarrow> string \<Rightarrow> string \<Rightarrow> channel_lease list \<Rightarrow> bool" where
  "thread_live t tenant workspace thread rows = (\<exists>x \<in> set rows. of_workspace tenant workspace x \<and> cl_thread x = thread \<and> t < cl_expires_at x)"

definition count_live :: "int \<Rightarrow> (channel_lease \<Rightarrow> bool) \<Rightarrow> channel_lease list \<Rightarrow> int" where
  "count_live t P rows = int (length (filter (\<lambda>r. P r \<and> t < cl_expires_at r) rows))"

definition recent_turns :: "int \<Rightarrow> string \<Rightarrow> string \<Rightarrow> channel_event list \<Rightarrow> int" where
  "recent_turns t tenant workspace events = int (length (filter (\<lambda>e. ce_tenant e = tenant \<and> ce_workspace e = workspace \<and>
     ce_direction e = ''inbound'' \<and> ce_type e = ''message'' \<and> t - sec 60 \<le> ce_created_at e) events))"

text \<open>The insertion: the primary key, then the unique index on tenant, workspace and thread.\<close>

definition insert_lease :: "channel_env \<Rightarrow> channel_lease \<Rightarrow> channel_lease list \<Rightarrow> driver_fault + channel_lease list" where
  "insert_lease C row rows =
     (case insert_fault C of
        Some f \<Rightarrow> Inl f
      | None \<Rightarrow>
        if \<exists>r \<in> set rows. cl_id r = cl_id row
        then Inl \<lparr>df_unique = True, df_constraint = ''agent_channel_execution_leases_pkey'', df_message = dup_error (repo C)\<rparr>
        else if \<exists>r \<in> set rows. of_workspace (cl_tenant row) (cl_workspace row) r \<and> cl_thread r = cl_thread row
        then Inl \<lparr>df_unique = True, df_constraint = thread_lease_constraint, df_message = dup_error (repo C)\<rparr>
        else Inr (rows @ [row]))"

definition new_lease :: "channel_env \<Rightarrow> lease_request \<Rightarrow> channel_snapshot \<Rightarrow> channel_lease" where
  "new_lease C r q =
     \<lparr>cl_id = new_lease_id C, cl_tenant = strip (lr_tenant r), cl_workspace = strip (lr_workspace r),
      cl_responder = snone (opt_tok (lr_responder r)), cl_thread = strip (lr_thread r), cl_session = strip (lr_session r),
      cl_channel = lower (strip (lr_channel r)), cl_endpoint = lower (strip (lr_endpoint r)),
      cl_metadata = (case lr_metadata r of None \<Rightarrow> [] | Some m \<Rightarrow> m),
      cl_acquired_at = clock C, cl_updated_at = clock C,
      cl_expires_at = clock C + sec (max (cs_runtime_seconds q + 15) 30)\<rparr>"

text \<open>The checks of the limits, in their order: \<open>None\<close> lets the insertion go ahead.\<close>

definition limit_refusal :: "repo_env \<Rightarrow> lease_request \<Rightarrow> channel_snapshot \<Rightarrow> channel_lease list \<Rightarrow> channel_event list \<Rightarrow> channel_error option" where
  "limit_refusal E r q rows events =
     (let tenant = strip (lr_tenant r); workspace = strip (lr_workspace r); agent = opt_tok (lr_responder r);
          mine = of_workspace tenant workspace; t = now E in
      case first_fault E [2] of Some m \<Rightarrow> Some (ChannelFault (DriverError m)) | None \<Rightarrow>
      if thread_live t tenant workspace (strip (lr_thread r)) rows then Some (thread_busy_error q)
      else case (if agent = [] then None else first_fault E [3]) of Some m \<Rightarrow> Some (ChannelFault (DriverError m)) | None \<Rightarrow>
      if agent \<noteq> [] \<and> cs_agent_threads q \<le> count_live t (\<lambda>x. mine x \<and> cl_responder x = Some agent) rows
      then Some (agent_limit_error q)
      else case first_fault E [4] of Some m \<Rightarrow> Some (ChannelFault (DriverError m)) | None \<Rightarrow>
      if cs_workspace_threads q \<le> count_live t mine rows then Some (workspace_limit_error q)
      else case first_fault E [5] of Some m \<Rightarrow> Some (ChannelFault (DriverError m)) | None \<Rightarrow>
      if cs_turns_per_minute q \<le> recent_turns t tenant workspace events then Some (workspace_rate_limit_error q)
      else None)"

text \<open>The deletion of the expired leases of the workspace.\<close>

definition expire_leases :: "int \<Rightarrow> string \<Rightarrow> string \<Rightarrow> channel_lease list \<Rightarrow> channel_lease list" where
  "expire_leases t tenant workspace rows = del_rows (\<lambda>x. of_workspace tenant workspace x \<and> cl_expires_at x \<le> t) rows"

text \<open>The transaction; whatever error leaves it rolls it back, the deletion of expired leases included.\<close>

definition acquire_transaction ::
    "channel_env \<Rightarrow> lease_request \<Rightarrow> channel_snapshot \<Rightarrow> channel_store \<Rightarrow> (channel_error + channel_lease) \<times> channel_store" where
  "acquire_transaction C r q s =
     (let E = repo C; row = new_lease C r q;
          kept = expire_leases (now E) (strip (lr_tenant r)) (strip (lr_workspace r)) (leases s) in
      case first_fault E [0, 1] of
        Some m \<Rightarrow> (Inl (ChannelFault (DriverError m)), s)
      | None \<Rightarrow>
        (case limit_refusal E r q kept (channel_events s) of
           Some e \<Rightarrow> (Inl e, s)
         | None \<Rightarrow>
           (case insert_lease C row kept of
              Inl f \<Rightarrow> (Inl (if is_thread_lease_conflict f then thread_busy_error q else ChannelFault (DriverError (df_message f))), s)
            | Inr rows \<Rightarrow>
              (case first_fault E [7] of
                 Some m \<Rightarrow> (Inl (ChannelFault (DriverError m)), s)
               | None \<Rightarrow> (Inr row, s\<lparr>leases := rows\<rparr>)))))"

record granted =
  gr_lease_id :: string
  gr_snapshot :: channel_snapshot
  gr_expires_at :: string

definition acquire_channel_execution_lease ::
    "channel_env \<Rightarrow> lease_request \<Rightarrow> channel_store \<Rightarrow> (channel_error + granted) \<times> channel_store" where
  "acquire_channel_execution_lease C r s =
     (case (if truthy (lr_workspace_row r) then Inr (lr_workspace_row r) else fetch_workspace C (lr_workspace r)) of
        Inl e \<Rightarrow> (Inl (ChannelFault e), s)
      | Inr workspace \<Rightarrow>
        (let q = resolve_channel_quota_snapshot workspace (lr_install r) in
         case enforce_lease_transition (repo C) ''acquire_channel_execution_lease'' r (new_lease_id C) (snapshot_dict q) of
           Inl e \<Rightarrow> (Inl (ChannelFault e), s)
         | Inr _ \<Rightarrow>
           (case scoped C of
              Inl e \<Rightarrow> (Inl (ChannelFault e), s)
            | Inr False \<Rightarrow> (Inl (workspace_limit_error q), s)
            | Inr True \<Rightarrow>
              (case acquire_transaction C r q s of
                 (Inl e, s') \<Rightarrow> (Inl e, s')
               | (Inr row, s') \<Rightarrow>
                 (Inr \<lparr>gr_lease_id = cl_id row, gr_snapshot = q, gr_expires_at = isoformat (cl_expires_at row)\<rparr>, s')))))"

subsection \<open>Releasing, and the slot around a turn\<close>

definition release_request :: "string \<Rightarrow> string \<Rightarrow> lease_request" where
  "release_request tenant workspace = \<lparr>lr_tenant = tenant, lr_workspace = workspace, lr_responder = None, lr_thread = [],
     lr_session = [], lr_channel = [], lr_endpoint = [], lr_workspace_row = PNone, lr_install = PNone, lr_metadata = None\<rparr>"

definition release_channel_execution_lease ::
    "channel_env \<Rightarrow> string \<Rightarrow> string \<Rightarrow> string \<Rightarrow> channel_store \<Rightarrow> (channel_error + unit) \<times> channel_store" where
  "release_channel_execution_lease C tenant workspace lease_id s =
     (if strip lease_id = [] then (Inr (), s)
      else case enforce_lease_transition (repo C) ''release_channel_execution_lease'' (release_request tenant workspace) lease_id [] of
        Inl e \<Rightarrow> (Inl (ChannelFault e), s)
      | Inr _ \<Rightarrow>
        (case scoped C of
           Inl e \<Rightarrow> (Inl (ChannelFault e), s)
         | Inr False \<Rightarrow> (Inr (), s)
         | Inr True \<Rightarrow>
           (case first_fault (repo C) [0, 7] of
              Some m \<Rightarrow> (Inl (ChannelFault (DriverError m)), s)
            | None \<Rightarrow> (Inr (), s\<lparr>leases := del_rows (\<lambda>x. cl_id x = strip lease_id \<and>
                of_workspace (strip tenant) (strip workspace) x) (leases s)\<rparr>))))"

text \<open>
  \<open>channel_execution_slot\<close> around the body of its \<open>async with\<close>: the lease is released whether the
  body returns or raises, and an error of the release takes the place of the body's outcome.
\<close>

definition channel_execution_slot ::
    "channel_env \<Rightarrow> channel_env \<Rightarrow> lease_request \<Rightarrow> (granted \<Rightarrow> channel_store \<Rightarrow> (channel_error + 'a) \<times> channel_store)
     \<Rightarrow> channel_store \<Rightarrow> (channel_error + 'a) \<times> channel_store" where
  "channel_execution_slot C C' r body s =
     (case acquire_channel_execution_lease C r s of
        (Inl e, s1) \<Rightarrow> (Inl e, s1)
      | (Inr g, s1) \<Rightarrow>
        (case body g s1 of (res, s2) \<Rightarrow>
          (case release_channel_execution_lease C' (lr_tenant r) (lr_workspace r) (strip (gr_lease_id g)) s2 of
             (Inl e, s3) \<Rightarrow> (Inl e, s3)
           | (Inr _, s3) \<Rightarrow> (res, s3))))"

subsection \<open>What an acquisition does\<close>

text \<open>The limits an acquisition runs under, when the workspace can be read.\<close>

definition acquire_limits :: "channel_env \<Rightarrow> lease_request \<Rightarrow> channel_snapshot res" where
  "acquire_limits C r = (case (if truthy (lr_workspace_row r) then Inr (lr_workspace_row r) else fetch_workspace C (lr_workspace r)) of
     Inl e \<Rightarrow> Inl e | Inr w \<Rightarrow> Inr (resolve_channel_quota_snapshot w (lr_install r)))"

text \<open>An acquisition changes the table only to put the new lease behind the unexpired ones, and only when it is granted.\<close>

definition grants :: "channel_env \<Rightarrow> lease_request \<Rightarrow> channel_snapshot \<Rightarrow> channel_store \<Rightarrow> channel_store \<Rightarrow> bool" where
  "grants C r q s s' \<longleftrightarrow>
     (let rows = expire_leases (now (repo C)) (strip (lr_tenant r)) (strip (lr_workspace r)) (leases s) in
      limit_refusal (repo C) r q rows (channel_events s) = None \<and>
      insert_lease C (new_lease C r q) rows = Inr (rows @ [new_lease C r q]) \<and>
      s' = s\<lparr>leases := rows @ [new_lease C r q]\<rparr>)"

lemma insert_lease_appends: "insert_lease C row rows = Inr rows' \<Longrightarrow> rows' = rows @ [row]"
  by (auto simp: insert_lease_def split: option.splits if_splits)

lemma acquire_transaction_outcome:
  "acquire_transaction C r q s \<in> outcome s (\<lambda>row s'. row = new_lease C r q \<and> grants C r q s s')"
  unfolding acquire_transaction_def
  by (intro branch branch_changed) (auto simp: grants_def Let_def dest: insert_lease_appends)

lemma acquire_outcome_set:
  "acquire_channel_execution_lease C r s \<in> outcome s (\<lambda>g s'. \<exists>q. acquire_limits C r = Inr q \<and> grants C r q s s' \<and>
     g = \<lparr>gr_lease_id = new_lease_id C, gr_snapshot = q, gr_expires_at = isoformat (cl_expires_at (new_lease C r q))\<rparr>)"
  (is "_ \<in> outcome s ?W")
proof -
  have "(case acquire_transaction C r q s of (Inl e, s') \<Rightarrow> (Inl e, s')
      | (Inr row, s') \<Rightarrow> (Inr \<lparr>gr_lease_id = cl_id row, gr_snapshot = q, gr_expires_at = isoformat (cl_expires_at row)\<rparr>, s')) \<in> outcome s ?W"
    if "acquire_limits C r = Inr q" for q
    using acquire_transaction_outcome [of C r q s] that
    by (auto simp: outcome_def new_lease_def split: prod.splits sum.splits)
  then show ?thesis unfolding acquire_channel_execution_lease_def
    by (intro branch) (auto simp: acquire_limits_def)
qed

lemmas acquire_state = outcome_state [OF acquire_outcome_set]

lemma release_state:
  "snd (release_channel_execution_lease C tenant workspace lease_id s) = s \<or>
   snd (release_channel_execution_lease C tenant workspace lease_id s) = s\<lparr>leases := del_rows
     (\<lambda>x. cl_id x = strip lease_id \<and> of_workspace (strip tenant) (strip workspace) x) (leases s)\<rparr>"
  by (simp add: release_channel_execution_lease_def split: option.splits sum.splits bool.splits)

lemma set_expire: "x \<in> set (expire_leases t a b rows) \<longleftrightarrow> x \<in> set rows \<and> \<not> (of_workspace a b x \<and> cl_expires_at x \<le> t)"
  by (auto simp: expire_leases_def del_rows_def)

lemma count_live_expire: "count_live t (\<lambda>x. of_workspace a b x \<and> P x) (expire_leases t a b rows) = count_live t (\<lambda>x. of_workspace a b x \<and> P x) rows"
  by (auto simp: count_live_def expire_leases_def del_rows_def intro!: arg_cong [where f = length] filter_cong)

lemma count_live_all: "count_live t (\<lambda>x. of_workspace a b x \<and> P x) (expire_leases t a b rows) =
    int (length (filter (\<lambda>x. of_workspace a b x \<and> P x) (expire_leases t a b rows)))"
  by (auto simp: count_live_def expire_leases_def del_rows_def intro!: arg_cong [where f = length] filter_cong)

text \<open>
  C39. What an acquisition answers, once the gate and the database let it through: a live lease
  on the thread, a full agent, a full workspace and a full minute of messages are refused in
  that order, with nothing changed; otherwise the lease is granted and takes its place behind
  the unexpired ones.
\<close>

theorem acquire_outcome:
  assumes "acquire_limits C r = Inr q"
    and "enforce_lease_transition (repo C) ''acquire_channel_execution_lease'' r (new_lease_id C) (snapshot_dict q) = Inr ()"
    and "scoped C = Inr True" and "fault (repo C) = (\<lambda>_. None)" and "insert_fault C = None"
    and "\<forall>x \<in> set (leases s). cl_id x \<noteq> new_lease_id C"
  defines "mine \<equiv> of_workspace (strip (lr_tenant r)) (strip (lr_workspace r))" and "t \<equiv> now (repo C)"
    and "agent \<equiv> opt_tok (lr_responder r)" and "row \<equiv> new_lease C r q"
  shows "acquire_channel_execution_lease C r s =
    (if thread_live t (strip (lr_tenant r)) (strip (lr_workspace r)) (strip (lr_thread r)) (leases s) then (Inl (thread_busy_error q), s)
     else if agent \<noteq> [] \<and> cs_agent_threads q \<le> count_live t (\<lambda>x. mine x \<and> cl_responder x = Some agent) (leases s)
       then (Inl (agent_limit_error q), s)
     else if cs_workspace_threads q \<le> count_live t mine (leases s) then (Inl (workspace_limit_error q), s)
     else if cs_turns_per_minute q \<le> recent_turns t (strip (lr_tenant r)) (strip (lr_workspace r)) (channel_events s)
       then (Inl (workspace_rate_limit_error q), s)
     else (Inr \<lparr>gr_lease_id = new_lease_id C, gr_snapshot = q, gr_expires_at = isoformat (cl_expires_at row)\<rparr>,
       s\<lparr>leases := filter (\<lambda>x. \<not> (mine x \<and> cl_expires_at x \<le> t)) (leases s) @ [row]\<rparr>))"
proof -
  let ?rows = "expire_leases t (strip (lr_tenant r)) (strip (lr_workspace r)) (leases s)"
  have busy: "thread_live t (strip (lr_tenant r)) (strip (lr_workspace r)) th ?rows = thread_live t (strip (lr_tenant r)) (strip (lr_workspace r)) th (leases s)" for th
    by (auto simp: set_expire thread_live_def)
  have agents: "count_live t (\<lambda>x. mine x \<and> cl_responder x = Some agent) ?rows = count_live t (\<lambda>x. mine x \<and> cl_responder x = Some agent) (leases s)"
    unfolding mine_def by (rule count_live_expire)
  have all: "count_live t mine ?rows = count_live t mine (leases s)"
    using count_live_expire [of t _ _ "\<lambda>_. True"] unfolding mine_def by simp
  have room: "limit_refusal (repo C) r q ?rows ev = (if thread_live t (strip (lr_tenant r)) (strip (lr_workspace r)) (strip (lr_thread r)) (leases s)
      then Some (thread_busy_error q)
      else if agent \<noteq> [] \<and> cs_agent_threads q \<le> count_live t (\<lambda>x. mine x \<and> cl_responder x = Some agent) (leases s) then Some (agent_limit_error q)
      else if cs_workspace_threads q \<le> count_live t mine (leases s) then Some (workspace_limit_error q)
      else if cs_turns_per_minute q \<le> recent_turns t (strip (lr_tenant r)) (strip (lr_workspace r)) ev
        then Some (workspace_rate_limit_error q) else None)" for ev
    using busy agents all assms(4)
    by (cases "agent = []") (simp_all add: limit_refusal_def Let_def flip: mine_def t_def agent_def)
  have ins: "insert_lease C row ?rows = Inr (?rows @ [row])"
    if "\<not> thread_live t (strip (lr_tenant r)) (strip (lr_workspace r)) (strip (lr_thread r)) (leases s)"
    using that assms(5,6) by (auto simp: thread_live_def insert_lease_def row_def new_lease_def set_expire mine_def not_less)
  have rows: "?rows = filter (\<lambda>x. \<not> (mine x \<and> cl_expires_at x \<le> t)) (leases s)"
    by (simp add: expire_leases_def del_rows_def mine_def)
  have ids: "cl_id row = new_lease_id C" by (simp add: row_def new_lease_def)
  obtain w where w: "(if truthy (lr_workspace_row r) then Inr (lr_workspace_row r) else fetch_workspace C (lr_workspace r)) = Inr w"
    and q: "q = resolve_channel_quota_snapshot w (lr_install r)"
    using assms(1) by (auto simp: acquire_limits_def split: sum.splits)
  have "acquire_channel_execution_lease C r s = (case acquire_transaction C r q s of
      (Inl e, s') \<Rightarrow> (Inl e, s')
    | (Inr row, s') \<Rightarrow> (Inr \<lparr>gr_lease_id = cl_id row, gr_snapshot = q, gr_expires_at = isoformat (cl_expires_at row)\<rparr>, s'))"
    unfolding acquire_channel_execution_lease_def w using assms(2,3) by (simp add: Let_def flip: q)
  also have "acquire_transaction C r q s = (case limit_refusal (repo C) r q ?rows (channel_events s) of
      Some e \<Rightarrow> (Inl e, s)
    | None \<Rightarrow> (case insert_lease C row ?rows of
        Inl f \<Rightarrow> (Inl (if is_thread_lease_conflict f then thread_busy_error q else ChannelFault (DriverError (df_message f))), s)
      | Inr rows \<Rightarrow> (Inr row, s\<lparr>leases := rows\<rparr>)))"
    using assms(4) by (simp add: acquire_transaction_def Let_def t_def row_def split: option.splits sum.splits)
  finally show ?thesis unfolding room using ins by (simp add: rows ids)
qed

text \<open>Limits nobody has reached, and a database that works.\<close>

definition channel_allow :: "int \<Rightarrow> string \<Rightarrow> channel_env" where
  "channel_allow t lease_id = \<lparr>repo = (allow_env t)\<lparr>kern := echo_kernel\<rparr>, scoped = Inr True, clock = t,
     new_lease_id = lease_id, fetch_workspace = (\<lambda>_. Inr (PDict [])), insert_fault = None\<rparr>"

lemma channel_allow_simps [simp]:
  "now (repo (channel_allow t i)) = t" "fault (repo (channel_allow t i)) = (\<lambda>_. None)" "scoped (channel_allow t i) = Inr True"
  "clock (channel_allow t i) = t" "new_lease_id (channel_allow t i) = i" "insert_fault (channel_allow t i) = None"
  "fetch_workspace (channel_allow t i) w = Inr (PDict [])"
  by (simp_all add: channel_allow_def allow_env_def)

lemma channel_allow_gate [simp]:
  "strip operation = operation \<Longrightarrow> operation \<noteq> [] \<Longrightarrow> enforce_lease_transition (repo (channel_allow t i)) operation r l q = Inr ()"
  by (simp add: enforce_lease_transition_def lease_gate_request_def Let_def channel_allow_def echo_kernel_def
      run_runtime_kernel_enforced_def enforce_kernel_decision_def normalize_kernel_decision_def tok_def por_def sor_def strip_def py_space_def)

definition demo_request :: "string \<Rightarrow> lease_request" where
  "demo_request thread = (release_request ''t'' ''w'')\<lparr>lr_thread := thread, lr_responder := Some ''a''\<rparr>"

lemma demo_limits [simp]:
  "acquire_limits (channel_allow t i) (demo_request thread) = Inr \<lparr>cs_workspace_threads = 24, cs_agent_threads = 8,
     cs_turns_per_minute = 180, cs_runtime_seconds = 45\<rparr>"
  by (simp add: acquire_limits_def demo_request_def release_request_def resolve_channel_quota_snapshot_def quota_metadata_def
      coerce_int_def safe_int_def por_def Let_def)

definition demo_lease :: "string \<Rightarrow> string \<Rightarrow> int \<Rightarrow> channel_lease" where
  "demo_lease i thread t = \<lparr>cl_id = i, cl_tenant = ''t'', cl_workspace = ''w'', cl_responder = Some ''a'', cl_thread = thread,
     cl_session = [], cl_channel = [], cl_endpoint = [], cl_metadata = [], cl_acquired_at = t, cl_updated_at = t,
     cl_expires_at = t + sec 60\<rparr>"

lemmas demo_simps = demo_request_def release_request_def demo_lease_def strip_def py_space_def

theorem acquire_outcome_witness:
  "acquire_channel_execution_lease (channel_allow 0 ''l2'') (demo_request ''c'')
     \<lparr>leases = [demo_lease ''l1'' ''c'' 0], channel_events = []\<rparr> =
   (Inl (thread_busy_error \<lparr>cs_workspace_threads = 24, cs_agent_threads = 8, cs_turns_per_minute = 180, cs_runtime_seconds = 45\<rparr>),
    \<lparr>leases = [demo_lease ''l1'' ''c'' 0], channel_events = []\<rparr>)"
proof -
  have "thread_live 0 ''t'' ''w'' ''c'' [demo_lease ''l1'' ''c'' 0]"
    by (simp add: thread_live_def of_workspace_def demo_lease_def sec_def)
  moreover have "strip (lr_tenant (demo_request ''c'')) = ''t''" "strip (lr_workspace (demo_request ''c'')) = ''w''"
    "strip (lr_thread (demo_request ''c'')) = ''c''" "strip ''acquire_channel_execution_lease'' = ''acquire_channel_execution_lease''"
    by (simp_all add: demo_simps)
  moreover have "\<forall>x \<in> set (leases \<lparr>leases = [demo_lease ''l1'' ''c'' 0], channel_events = []\<rparr>). cl_id x \<noteq> new_lease_id (channel_allow 0 ''l2'')"
    by (simp add: demo_lease_def)
  ultimately show ?thesis by (subst acquire_outcome [OF demo_limits]) simp_all
qed

subsection \<open>Histories\<close>

datatype channel_op =
    OpAcquire channel_env lease_request
  | OpReleaseLease channel_env string string string

fun channel_step :: "channel_op \<Rightarrow> channel_store \<Rightarrow> channel_store" where
  "channel_step (OpAcquire C r) s = snd (acquire_channel_execution_lease C r s)"
| "channel_step (OpReleaseLease C tenant workspace i) s = snd (release_channel_execution_lease C tenant workspace i s)"

text \<open>
  Right after a grant every lease of the workspace in the table is live, so the limits bound the
  rows themselves, at whatever moments the transactions started.
\<close>

definition within :: "string \<Rightarrow> string \<Rightarrow> int \<Rightarrow> string \<Rightarrow> int \<Rightarrow> channel_lease list \<Rightarrow> bool" where
  "within tenant workspace W agent A rows \<longleftrightarrow>
     int (length (filter (of_workspace tenant workspace) rows)) \<le> W \<and>
     int (length (filter (\<lambda>x. of_workspace tenant workspace x \<and> cl_responder x = Some agent) rows)) \<le> A \<and>
     distinct (map cl_thread (filter (of_workspace tenant workspace) rows))"

lemma within_fewer:
  assumes "within tenant workspace W agent A rows"
  shows "within tenant workspace W agent A (filter P rows)"
proof -
  have "length (filter (\<lambda>x. of_workspace tenant workspace x \<and> Q x) (filter P rows)) \<le> length (filter (\<lambda>x. of_workspace tenant workspace x \<and> Q x) rows)" for Q
    by (induction rows) auto
  from this [of "\<lambda>_. True"] this [of "\<lambda>x. cl_responder x = Some agent"] assms
  have "int (length (filter (of_workspace tenant workspace) (filter P rows))) \<le> W"
    "int (length (filter (\<lambda>x. of_workspace tenant workspace x \<and> cl_responder x = Some agent) (filter P rows))) \<le> A"
    by (auto simp: within_def simp del: filter_filter)
  moreover have "distinct (map cl_thread (filter (of_workspace tenant workspace) rows)) \<Longrightarrow>
      distinct (map cl_thread (filter (of_workspace tenant workspace) (filter P rows)))"
    by (induction rows) auto
  ultimately show ?thesis using assms by (simp add: within_def del: filter_filter)
qed

lemma within_other: "\<not> of_workspace tenant workspace x \<Longrightarrow> within tenant workspace W agent A (rows @ [x]) = within tenant workspace W agent A rows"
  by (simp add: within_def)

lemma grants_within:
  assumes g: "grants C r q s s'" and w: "within tenant workspace W agent A (leases s)" and "agent \<noteq> []"
    and q: "strip (lr_tenant r) = tenant \<Longrightarrow> strip (lr_workspace r) = workspace \<Longrightarrow> cs_workspace_threads q \<le> W \<and> cs_agent_threads q \<le> A"
  shows "within tenant workspace W agent A (leases s')"
proof -
  define rows where "rows = expire_leases (now (repo C)) (strip (lr_tenant r)) (strip (lr_workspace r)) (leases s)"
  define row where "row = new_lease C r q"
  have s': "leases s' = rows @ [row]" and room: "limit_refusal (repo C) r q rows (channel_events s) = None"
    and ins: "insert_lease C row rows = Inr (rows @ [row])"
    using g by (simp_all add: grants_def Let_def rows_def row_def)
  have rows: "within tenant workspace W agent A rows"
    using within_fewer [OF w] by (simp add: rows_def expire_leases_def del_rows_def)
  show ?thesis
  proof (cases "of_workspace tenant workspace row")
    case False
    with rows s' show ?thesis by (simp add: within_other)
  next
    case True
    then have t: "strip (lr_tenant r) = tenant" "strip (lr_workspace r) = workspace" by (auto simp: of_workspace_def row_def new_lease_def)
    have all: "count_live (now (repo C)) (\<lambda>x. of_workspace tenant workspace x \<and> P x) rows = int (length (filter (\<lambda>x. of_workspace tenant workspace x \<and> P x) rows))" for P
      unfolding rows_def t by (rule count_live_all)
    have "count_live (now (repo C)) (of_workspace tenant workspace) rows < cs_workspace_threads q"
      and "opt_tok (lr_responder r) \<noteq> [] \<longrightarrow>
        count_live (now (repo C)) (\<lambda>x. of_workspace tenant workspace x \<and> cl_responder x = Some (opt_tok (lr_responder r))) rows < cs_agent_threads q"
      using room by (auto simp: limit_refusal_def Let_def t split: option.splits if_splits)
    with all [of "\<lambda>_. True"] all have "int (length (filter (of_workspace tenant workspace) rows)) < W"
      and "cl_responder row = Some agent \<longrightarrow> int (length (filter (\<lambda>x. of_workspace tenant workspace x \<and> cl_responder x = Some agent) rows)) < A"
      using q [OF t] \<open>agent \<noteq> []\<close> by (auto simp: row_def new_lease_def)
    moreover have "cl_thread row \<notin> cl_thread ` set (filter (of_workspace tenant workspace) rows)"
      using ins True by (auto simp: insert_lease_def of_workspace_def split: option.splits if_splits)
    ultimately show ?thesis using rows True s' by (auto simp: within_def)
  qed
qed

lemma channel_step_within:
  assumes "within tenant workspace W agent A (leases s)" and "agent \<noteq> []"
    and "\<And>C r q. op = OpAcquire C r \<Longrightarrow> strip (lr_tenant r) = tenant \<Longrightarrow> strip (lr_workspace r) = workspace \<Longrightarrow>
      acquire_limits C r = Inr q \<Longrightarrow> cs_workspace_threads q \<le> W \<and> cs_agent_threads q \<le> A"
  shows "within tenant workspace W agent A (leases (channel_step op s))"
proof (cases op)
  case (OpAcquire C r)
  with acquire_state [of C r s] assms grants_within show ?thesis by (auto simp: OpAcquire)
next
  case (OpReleaseLease C a b i)
  with release_state [of C a b i s] within_fewer [OF assms(1)] assms(1) show ?thesis
    by (auto simp: del_rows_def)
qed

text \<open>
  C9. The limits hold in every history: while every acquisition of a workspace runs under at most
  \<open>W\<close> threads for the workspace and at most \<open>A\<close> for each agent, the table never holds more than
  \<open>W\<close> leases of the workspace nor more than \<open>A\<close> of an agent in it, and never two on one
  thread, whatever the releases, the errors and the clocks of the transactions.
\<close>

theorem channel_limits_hold:
  fixes events :: "channel_event list" and ops :: "channel_op list"
  assumes "0 \<le> W" and "0 \<le> A" and "agent \<noteq> []"
    and "\<forall>C r q. OpAcquire C r \<in> set ops \<and> strip (lr_tenant r) = tenant \<and> strip (lr_workspace r) = workspace \<and>
      acquire_limits C r = Inr q \<longrightarrow> cs_workspace_threads q \<le> W \<and> cs_agent_threads q \<le> A"
  defines "rows \<equiv> filter (of_workspace tenant workspace) (leases (fold channel_step ops \<lparr>leases = [], channel_events = events\<rparr>))"
  shows "int (length rows) \<le> W \<and> int (length (filter (\<lambda>x. cl_responder x = Some agent) rows)) \<le> A \<and> distinct (map cl_thread rows)"
proof -
  have "within tenant workspace W agent A (leases (fold channel_step ops s))"
    if "within tenant workspace W agent A (leases s)" for s
    using that assms(4)
  proof (induction ops arbitrary: s)
    case (Cons op ops)
    from Cons.prems(1) assms(3) have "within tenant workspace W agent A (leases (channel_step op s))"
      by (rule channel_step_within) (use Cons.prems(2) in auto)
    with Cons.IH Cons.prems(2) show ?case by auto
  qed simp
  from this [of "\<lparr>leases = [], channel_events = events\<rparr>"] assms(1,2) show ?thesis
    by (simp add: within_def rows_def conj_commute)
qed

theorem channel_limits_hold_witness:
  "let rows = filter (of_workspace ''t'' ''w'') (leases (fold channel_step
       [OpAcquire (channel_allow 0 ''l1'') (demo_request ''c''), OpAcquire (channel_allow 5 ''l2'') (demo_request ''d'')]
       \<lparr>leases = [], channel_events = []\<rparr>))
   in int (length rows) \<le> 24 \<and> int (length (filter (\<lambda>x. cl_responder x = Some ''a'') rows)) \<le> 8 \<and> distinct (map cl_thread rows)"
proof -
  have "\<forall>C r q. OpAcquire C r \<in> set [OpAcquire (channel_allow 0 ''l1'') (demo_request ''c''), OpAcquire (channel_allow 5 ''l2'') (demo_request ''d'')] \<and>
      strip (lr_tenant r) = ''t'' \<and> strip (lr_workspace r) = ''w'' \<and> acquire_limits C r = Inr q \<longrightarrow>
      cs_workspace_threads q \<le> 24 \<and> cs_agent_threads q \<le> 8"
    by auto
  from channel_limits_hold [OF _ _ _ this, of "''a''" "[]"] show ?thesis by (simp add: Let_def)
qed

subsection \<open>A thread's lease is a lease\<close>

type_synonym thread_key = "string \<times> string \<times> string"

definition thread_key_of :: "channel_lease \<Rightarrow> thread_key" where
  "thread_key_of x = (cl_tenant x, cl_workspace x, cl_thread x)"

definition thread_lease :: "channel_store \<Rightarrow> thread_key \<Rightarrow> channel_lease option" where
  "thread_lease s k = row_of thread_key_of k (leases s)"

definition thread_holder :: "channel_store \<Rightarrow> thread_key \<Rightarrow> string option" where
  "thread_holder s k = map_option cl_id (thread_lease s k)"

definition thread_deadline :: "channel_store \<Rightarrow> thread_key \<Rightarrow> int" where
  "thread_deadline s k = (case thread_lease s k of None \<Rightarrow> 0 | Some x \<Rightarrow> cl_expires_at x)"

fun channel_op_time :: "channel_op \<Rightarrow> int" where
  "channel_op_time (OpAcquire C r) = now (repo C)"
| "channel_op_time (OpReleaseLease C tenant workspace i) = now (repo C)"

fun channel_op_lease :: "channel_op \<Rightarrow> string option" where
  "channel_op_lease (OpAcquire C r) = None"
| "channel_op_lease (OpReleaseLease C tenant workspace i) = Some (strip i)"

lemma channel_step_keeps_thread:
  assumes x: "thread_lease s k = Some x" and t: "channel_op_time op < cl_expires_at x" and a: "channel_op_lease op \<noteq> Some (cl_id x)"
  shows "thread_lease (channel_step op s) k = Some x"
proof (cases op)
  case (OpAcquire C r)
  let ?rows = "expire_leases (now (repo C)) (strip (lr_tenant r)) (strip (lr_workspace r)) (leases s)"
  have "row_of thread_key_of k (?rows @ [new_lease C r q]) = Some x" for q
  proof -
    have "row_of thread_key_of k ?rows = Some x"
      unfolding expire_leases_def using x t OpAcquire by (auto simp: thread_lease_def intro!: row_of_del_miss)
    then show ?thesis by (simp add: row_of_append)
  qed
  with acquire_state [of C r s] x OpAcquire show ?thesis by (auto simp: thread_lease_def grants_def Let_def)
next
  case (OpReleaseLease C b c i)
  with release_state [of C b c i s] x a show ?thesis
    by (auto simp: thread_lease_def intro!: row_of_del_miss)
qed

interpretation thread_leases: lease_store thread_holder thread_deadline channel_step channel_op_time channel_op_lease
proof unfold_locales
  fix s k h op
  assume "thread_holder s k = Some h" "channel_op_time op < thread_deadline s k" "channel_op_lease op \<noteq> Some h"
  then obtain x where x: "thread_lease s k = Some x" "cl_id x = h" "channel_op_time op < cl_expires_at x" "channel_op_lease op \<noteq> Some (cl_id x)"
    by (auto simp: thread_holder_def thread_deadline_def split: option.splits)
  from channel_step_keeps_thread [OF x(1,3,4)] x show "thread_holder (channel_step op s) k = Some h \<and>
      thread_deadline (channel_step op s) k = thread_deadline s k"
    by (simp add: thread_holder_def thread_deadline_def)
qed

text \<open>
  A conversation thread has one turn at a time: through any history of acquisitions, of this
  thread or of others, and of releases that present other leases, the thread keeps its lease and
  its deadline until that deadline.
\<close>

theorem channel_thread_exclusive:
  assumes "thread_holder s k = Some h"
    and "\<And>op. op \<in> set ops \<Longrightarrow> channel_op_lease op \<noteq> Some h \<and> channel_op_time op < thread_deadline s k"
  shows "thread_holder (fold channel_step ops s) k = Some h \<and> thread_deadline (fold channel_step ops s) k = thread_deadline s k"
  using assms by (rule thread_leases.held_until_expiry)

theorem channel_thread_exclusive_witness:
  "thread_holder (fold channel_step [OpAcquire (channel_allow 5 ''l2'') (demo_request ''c''),
      OpReleaseLease (channel_allow 6 ''l3'') ''t'' ''w'' ''l2'']
      \<lparr>leases = [demo_lease ''l1'' ''c'' 0], channel_events = []\<rparr>) (''t'', ''w'', ''c'') = Some ''l1''"
proof -
  let ?s = "\<lparr>leases = [demo_lease ''l1'' ''c'' 0], channel_events = []\<rparr>"
  have k: "thread_holder ?s (''t'', ''w'', ''c'') = Some ''l1''" "thread_deadline ?s (''t'', ''w'', ''c'') = sec 60"
    by (simp_all add: thread_holder_def thread_deadline_def thread_lease_def thread_key_of_def demo_lease_def)
  have "channel_op_lease op \<noteq> Some ''l1'' \<and> channel_op_time op < thread_deadline ?s (''t'', ''w'', ''c'')"
    if "op \<in> set [OpAcquire (channel_allow 5 ''l2'') (demo_request ''c''), OpReleaseLease (channel_allow 6 ''l3'') ''t'' ''w'' ''l2'']" for op
    using that unfolding k(2) by (auto simp: sec_def strip_def py_space_def)
  from channel_thread_exclusive [OF k(1) this] show ?thesis by blast
qed

subsection \<open>The slot\<close>

lemma release_removes:
  assumes "enforce_lease_transition (repo C) ''release_channel_execution_lease'' (release_request tenant workspace) i [] = Inr ()"
    and "scoped C = Inr True" and "fault (repo C) = (\<lambda>_. None)" and "strip i \<noteq> []"
  shows "release_channel_execution_lease C tenant workspace i s = (Inr (), s\<lparr>leases := del_rows
     (\<lambda>x. cl_id x = strip i \<and> of_workspace (strip tenant) (strip workspace) x) (leases s)\<rparr>)"
  using assms by (simp add: release_channel_execution_lease_def)

lemma insert_lease_fresh: "insert_lease C row rows = Inr rows' \<Longrightarrow> x \<in> set rows \<Longrightarrow> cl_id x \<noteq> cl_id row"
  by (auto simp: insert_lease_def split: option.splits if_splits)

lemma acquire_granted:
  assumes "acquire_channel_execution_lease C r s = (Inr g, s')"
  shows "\<exists>q. acquire_limits C r = Inr q \<and> grants C r q s s' \<and>
     g = \<lparr>gr_lease_id = new_lease_id C, gr_snapshot = q, gr_expires_at = isoformat (cl_expires_at (new_lease C r q))\<rparr>"
proof -
  from assms obtain w q row where w: "(if truthy (lr_workspace_row r) then Inr (lr_workspace_row r) else fetch_workspace C (lr_workspace r)) = Inr w"
    and q: "q = resolve_channel_quota_snapshot w (lr_install r)"
    and t: "acquire_transaction C r q s = (Inr row, s')"
    and g: "g = \<lparr>gr_lease_id = cl_id row, gr_snapshot = q, gr_expires_at = isoformat (cl_expires_at row)\<rparr>"
    unfolding acquire_channel_execution_lease_def by (auto simp: Let_def split: sum.splits bool.splits prod.splits)
  from t have "row = new_lease C r q \<and> grants C r q s s'"
    by (auto simp: acquire_transaction_def Let_def grants_def split: option.splits sum.splits if_splits dest: insert_lease_appends)
  with w q g show ?thesis by (auto simp: acquire_limits_def new_lease_def)
qed

text \<open>
  The slot around a turn gives its lease back whether the turn returns or raises: when the
  release goes through, the outcome is the turn's own and no lease with that id is left in the
  workspace; a turn that leaves the leases alone leaves behind the table as it was, less the
  leases that had expired.
\<close>

theorem slot_returns_lease:
  assumes got: "acquire_channel_execution_lease C r s = (Inr g, s1)"
    and body: "body g s1 = (res, s2)"
    and "strip (new_lease_id C) = new_lease_id C" and "new_lease_id C \<noteq> []"
    and rel: "enforce_lease_transition (repo C') ''release_channel_execution_lease'' (release_request (lr_tenant r) (lr_workspace r)) (new_lease_id C) [] = Inr ()"
      "scoped C' = Inr True" "fault (repo C') = (\<lambda>_. None)"
  shows "\<exists>s3. channel_execution_slot C C' r body s = (res, s3) \<and>
    (\<forall>x \<in> set (leases s3). of_workspace (strip (lr_tenant r)) (strip (lr_workspace r)) x \<longrightarrow> cl_id x \<noteq> gr_lease_id g) \<and>
    (leases s2 = leases s1 \<longrightarrow>
      leases s3 = filter (\<lambda>x. \<not> (of_workspace (strip (lr_tenant r)) (strip (lr_workspace r)) x \<and> cl_expires_at x \<le> now (repo C))) (leases s))"
proof -
  let ?ws = "of_workspace (strip (lr_tenant r)) (strip (lr_workspace r))"
  from acquire_granted [OF got] obtain q where grant: "grants C r q s s1" and id: "gr_lease_id g = new_lease_id C" by auto
  define rows where "rows = expire_leases (now (repo C)) (strip (lr_tenant r)) (strip (lr_workspace r)) (leases s)"
  have s1: "leases s1 = rows @ [new_lease C r q]" and fresh: "\<forall>x \<in> set rows. cl_id x \<noteq> new_lease_id C"
    using grant insert_lease_fresh [of C "new_lease C r q" rows] by (auto simp: grants_def Let_def rows_def new_lease_def)
  define s3 where "s3 = s2\<lparr>leases := del_rows (\<lambda>x. cl_id x = new_lease_id C \<and> ?ws x) (leases s2)\<rparr>"
  have run: "channel_execution_slot C C' r body s = (res, s3)"
    using release_removes [OF rel] assms(3,4) by (simp add: channel_execution_slot_def got body id s3_def)
  have gone: "\<forall>x \<in> set (leases s3). ?ws x \<longrightarrow> cl_id x \<noteq> gr_lease_id g"
    by (auto simp: s3_def del_rows_def id)
  have "leases s3 = rows" if "leases s2 = leases s1"
  proof -
    have "del_rows (\<lambda>x. cl_id x = new_lease_id C \<and> ?ws x) rows = rows" using fresh by (intro del_rows_none) auto
    then show ?thesis using that s1 by (simp add: s3_def del_rows_def new_lease_def of_workspace_def)
  qed
  with run gone show ?thesis by (auto simp: rows_def expire_leases_def del_rows_def)
qed

theorem slot_returns_lease_witness:
  "\<exists>s3. channel_execution_slot (channel_allow 0 ''l1'') (channel_allow 9 ''x'') (demo_request ''c'')
      (\<lambda>g s. (Inl (ChannelFault (RuntimeError ''boom'')) :: channel_error + unit, s)) \<lparr>leases = [], channel_events = []\<rparr> =
     (Inl (ChannelFault (RuntimeError ''boom'')), s3) \<and> leases s3 = []"
proof -
  let ?q = "\<lparr>cs_workspace_threads = 24, cs_agent_threads = 8, cs_turns_per_minute = 180, cs_runtime_seconds = 45\<rparr>"
  let ?s = "\<lparr>leases = [], channel_events = []\<rparr>"
  have ok: "strip ''acquire_channel_execution_lease'' = ''acquire_channel_execution_lease''"
    "strip ''release_channel_execution_lease'' = ''release_channel_execution_lease''" "strip ''l1'' = ''l1''"
    by (simp_all add: strip_def py_space_def)
  have t: "acquire_transaction (channel_allow 0 ''l1'') (demo_request ''c'') ?q ?s =
      (Inr (new_lease (channel_allow 0 ''l1'') (demo_request ''c'') ?q), \<lparr>leases = [new_lease (channel_allow 0 ''l1'') (demo_request ''c'') ?q], channel_events = []\<rparr>)"
    by (simp add: acquire_transaction_def limit_refusal_def insert_lease_def expire_leases_def del_rows_def thread_live_def
        count_live_def recent_turns_def Let_def)
  obtain g s1 where got: "acquire_channel_execution_lease (channel_allow 0 ''l1'') (demo_request ''c'') ?s = (Inr g, s1)"
    using t demo_limits [of 0 "''l1''" "''c''"] ok(1)
    by (auto simp: acquire_channel_execution_lease_def acquire_limits_def Let_def split: sum.splits if_splits)
  show ?thesis
    using slot_returns_lease [where body = "\<lambda>g s. (Inl (ChannelFault (RuntimeError ''boom'')) :: channel_error + unit, s)", OF got refl, of "channel_allow 9 ''x''"] ok by auto
qed

subsection \<open>Limits and refusals\<close>

lemma coerce_int_range: "minimum \<le> maximum \<Longrightarrow> minimum \<le> coerce_int v d minimum maximum \<and> coerce_int v d minimum maximum \<le> maximum"
  by (simp add: coerce_int_def)

text \<open>
  Whatever values the metadata of a workspace and of an installed agent hold, the limits
  resolved from them are in range, and a lease under them lives between 30 and 315 seconds.
\<close>

theorem resolved_limits_in_range:
  "let q = resolve_channel_quota_snapshot workspace install; ttl = cl_expires_at (new_lease C r q) - cl_acquired_at (new_lease C r q) in
     cs_workspace_threads q \<in> {1..1000} \<and> cs_agent_threads q \<in> {1..1000} \<and> cs_turns_per_minute q \<in> {1..10000} \<and>
     cs_runtime_seconds q \<in> {5..300} \<and> ttl \<in> {sec 30..sec 315} \<and> sec (cs_runtime_seconds q) < ttl"
proof -
  let ?q = "resolve_channel_quota_snapshot workspace install"
  have "5 \<le> cs_runtime_seconds ?q \<and> cs_runtime_seconds ?q \<le> 300"
    by (simp add: resolve_channel_quota_snapshot_def Let_def coerce_int_range)
  then have "let ttl = cl_expires_at (new_lease C r ?q) - cl_acquired_at (new_lease C r ?q) in
      ttl \<in> {sec 30..sec 315} \<and> sec (cs_runtime_seconds ?q) < ttl"
    by (auto simp: new_lease_def sec_def max_def Let_def)
  then show ?thesis
    by (simp add: resolve_channel_quota_snapshot_def Let_def coerce_int_range)
qed

definition limit_reasons :: "string list" where
  "limit_reasons = [''thread_busy'', ''agent_limit_exceeded'', ''workspace_limit_exceeded'', ''workspace_rate_limited'']"

lemma limit_reasons_known:
  "list_all (\<lambda>r. strip r = r \<and> r \<noteq> [] \<and> scope_by_reason r \<noteq> None \<and> response_class_by_reason r \<noteq> None \<and>
     channel_status_for_reason (Some r) \<in> set [''thread_busy'', ''agent_busy'', ''workspace_busy'', ''rate_limited'']) limit_reasons"
  by code_simp

lemma limit_reason_known:
  assumes "r \<in> set limit_reasons"
  shows "strip r = r" and "r \<noteq> []" and "scope_by_reason r \<noteq> None" and "response_class_by_reason r \<noteq> None"
    and "channel_status_for_reason (Some r) \<in> {''thread_busy'', ''agent_busy'', ''workspace_busy'', ''rate_limited''}"
  using limit_reasons_known assms unfolding list_all_iff by auto

definition limit_errors :: "channel_snapshot \<Rightarrow> channel_error set" where
  "limit_errors q = {thread_busy_error q, agent_limit_error q, workspace_limit_error q, workspace_rate_limit_error q}"

lemma limit_errors_shape:
  assumes "Limited e \<in> limit_errors q"
  shows "le_reason e \<in> set limit_reasons" and "le_retry_after e \<in> {2, 5, 10}" and "le_snapshot e = q"
  using assms by (auto simp: limit_errors_def thread_busy_error_def agent_limit_error_def workspace_limit_error_def
      workspace_rate_limit_error_def limit_error_of_def limit_reasons_def sor_def strip_def py_space_def)

lemma limit_errors_mem [simp]:
  "thread_busy_error q \<in> limit_errors q" "agent_limit_error q \<in> limit_errors q"
  "workspace_limit_error q \<in> limit_errors q" "workspace_rate_limit_error q \<in> limit_errors q"
  by (simp_all add: limit_errors_def)

lemma limit_refusal_limited:
  assumes "limit_refusal E r q rows events = Some (Limited e)"
  shows "Limited e \<in> limit_errors q"
proof -
  have "limit_refusal E r q rows events \<in> {c. \<forall>e. c = Some (Limited e) \<longrightarrow> Limited e \<in> limit_errors q}"
    unfolding limit_refusal_def by (intro branch) (simp_all add: limit_errors_def)
  with assms show ?thesis by simp
qed

lemma acquire_transaction_limited:
  assumes "fst (acquire_transaction C r q s) = Inl (Limited e)"
  shows "Limited e \<in> limit_errors q"
proof -
  have "acquire_transaction C r q s \<in> {c. \<forall>e. fst c = Inl (Limited e) \<longrightarrow> Limited e \<in> limit_errors q}"
    unfolding acquire_transaction_def by (intro branch)
      (auto dest: limit_refusal_limited, metis limit_errors_mem(1))
  with assms show ?thesis by simp
qed

lemma acquire_limited:
  assumes "fst (acquire_channel_execution_lease C r s) = Inl (Limited e)"
  shows "\<exists>q. acquire_limits C r = Inr q \<and> Limited e \<in> limit_errors q"
proof -
  have "acquire_channel_execution_lease C r s \<in> {c. \<forall>e. fst c = Inl (Limited e) \<longrightarrow>
      (\<exists>q. acquire_limits C r = Inr q \<and> Limited e \<in> limit_errors q)}"
    unfolding acquire_channel_execution_lease_def
  proof (intro branch)
    fix w q u ok res b e'
    assume "(if truthy (lr_workspace_row r) then Inr (lr_workspace_row r) else fetch_workspace C (lr_workspace r)) = Inr w"
      and "q = resolve_channel_quota_snapshot w (lr_install r)" and "acquire_transaction C r q s = (res, b)" and "res = Inl e'"
    then show "(Inl e', b) \<in> {c. \<forall>e. fst c = Inl (Limited e) \<longrightarrow> (\<exists>q. acquire_limits C r = Inr q \<and> Limited e \<in> limit_errors q)}"
      using acquire_transaction_limited [of C r q s] by (auto simp: acquire_limits_def)
  qed (auto simp: acquire_limits_def dest: sym)
  with assms show ?thesis by simp
qed

text \<open>
  A turn refused for a limit changes nothing, and its refusal is explained: the decision
  carries the reason, one of the four, with a scope and a response class for it, a channel status
  of its own, the seconds to wait and the limits it was measured against.
\<close>

theorem channel_refusal_explained:
  assumes "acquire_channel_execution_lease C r s = (Inl (Limited e), s')"
  shows "s' = s \<and> le_reason e \<in> set limit_reasons \<and> acquire_limits C r = Inr (le_snapshot e) \<and>
    (let d = limit_decision e in \<not> qd_allowed d \<and> qd_reason d = Some (le_reason e) \<and> qd_scope d = scope_by_reason (le_reason e) \<and>
       qd_scope d \<noteq> None \<and> qd_response_class d \<noteq> None \<and> qd_http_status d = Some 429 \<and>
       qd_retry_after d = Some (le_retry_after e) \<and> le_retry_after e \<in> {2, 5, 10} \<and>
       qd_quota_snapshot d = Some (snapshot_dict (le_snapshot e)) \<and>
       channel_status_for_reason (qd_reason d) \<in> {''thread_busy'', ''agent_busy'', ''workspace_busy'', ''rate_limited''})"
proof -
  have "s' = s" using outcome_error [OF acquire_outcome_set, of C r s] assms by simp
  moreover obtain q where q: "acquire_limits C r = Inr q" "Limited e \<in> limit_errors q"
    using acquire_limited [of C r s e] assms by auto
  note shape = limit_errors_shape [OF q(2)]
  note known = limit_reason_known [OF shape(1)]
  have d: "limit_decision e = deny_quota_decision deployed_agent_public_turn_profile (le_reason e)
      (Some (le_retry_after e)) (Some (snapshot_dict q)) (quota_thread_metadata channel_subject)"
    using shape(2,3) known(2) by (auto simp: limit_decision_def channel_limit_error_decision_def sor_def)
  have "qd_http_status (limit_decision e) = Some 429" "qd_retry_after (limit_decision e) = Some (le_retry_after e)"
    "qd_quota_snapshot (limit_decision e) = Some (snapshot_dict q)"
    using shape(2) by (auto simp: d deny_quota_decision_def Let_def snapshot_dict_def)
  moreover note deny_reason [OF known(1,2), of deployed_agent_public_turn_profile "Some (le_retry_after e)"
      "Some (snapshot_dict q)" "quota_thread_metadata channel_subject", folded d]
  ultimately show ?thesis using q(1) shape known by (simp add: Let_def)
qed

theorem channel_refusal_explained_witness:
  "\<exists>e. acquire_channel_execution_lease ((channel_allow 0 ''l1'')\<lparr>scoped := Inr False\<rparr>) (demo_request ''c'') \<lparr>leases = [], channel_events = []\<rparr> =
     (Inl (Limited e), \<lparr>leases = [], channel_events = []\<rparr>) \<and> le_reason e \<in> set limit_reasons"
proof -
  let ?C = "(channel_allow 0 ''l1'')\<lparr>scoped := Inr False\<rparr>"
  have "strip ''acquire_channel_execution_lease'' = ''acquire_channel_execution_lease''" by (simp add: strip_def py_space_def)
  then obtain e where "acquire_channel_execution_lease ?C (demo_request ''c'') \<lparr>leases = [], channel_events = []\<rparr> =
      (Inl (Limited e), \<lparr>leases = [], channel_events = []\<rparr>)"
    by (simp add: acquire_channel_execution_lease_def workspace_limit_error_def Let_def demo_request_def release_request_def)
  with channel_refusal_explained [OF this] show ?thesis by blast
qed

end
