(* ===== verification/Resilience.thy ===== *)
theory Resilience
  imports Py_Base
begin

text \<open>
  Calls to downstream services (\<open>downstream_resilience_service.py\<close>): retries with a growing
  delay, a circuit breaker per service name, and the wrapper for HTTP calls. A call acts on a
  world \<open>'w\<close>, which the operation, the sleeping and the clock read and change; times and delays
  are microseconds and the backoff multiplier is an integer, as in every use of the service.
  Sleeping is assumed not to raise.
\<close>

subsection \<open>Policies and circuits\<close>

record retry_policy =
  rp_attempts :: int
  rp_initial_delay :: int
  rp_backoff_multiplier :: int
  rp_max_delay :: int

record circuit_policy =
  cp_failure_threshold :: int
  cp_reset_after :: int

record circuit =
  cb_failures :: int
  cb_opened_at :: "int option"

type_synonym circuits = "(string \<times> circuit) list"

record ('w, 'e, 'a) downstream =
  ds_operation :: "'w \<Rightarrow> ('e + 'a) \<times> 'w"
  ds_sleep :: "int \<Rightarrow> 'w \<Rightarrow> 'w"
  ds_now :: "'w \<Rightarrow> int"

datatype 'e call_error = CircuitOpen string | NoAttempt string | Failed 'e

definition circuit_name :: "string \<Rightarrow> string" where
  "circuit_name name = sor (strip (sor name ''downstream'')) ''downstream''"

text \<open>\<open>_circuit_state\<close>: the circuit of a name, entered when it is new.\<close>

definition circuit_of :: "circuits \<Rightarrow> string \<Rightarrow> circuit" where
  "circuit_of cs n = (case map_of cs n of Some c \<Rightarrow> c | None \<Rightarrow> \<lparr>cb_failures = 0, cb_opened_at = None\<rparr>)"

subsection \<open>Retrying\<close>

text \<open>
  The loop of \<open>call_with_retries\<close>, by the number of attempts left. \<open>Inl None\<close> is the loop
  without an attempt.
\<close>

fun attempt_calls ::
    "('w, 'e, 'a) downstream \<Rightarrow> retry_policy \<Rightarrow> nat \<Rightarrow> int \<Rightarrow> 'e option \<Rightarrow> 'w \<Rightarrow> ('e option + 'a) \<times> 'w" where
  "attempt_calls D p 0 delay last_error w = (Inl last_error, w)"
| "attempt_calls D p (Suc n) delay last_error w =
     (case ds_operation D w of
        (Inr a, w') \<Rightarrow> (Inr a, w')
      | (Inl e, w') \<Rightarrow>
          if 0 < n \<and> 0 < delay
          then attempt_calls D p n (delay * max (if rp_backoff_multiplier p = 0 then 1 else rp_backoff_multiplier p) 1) (Some e)
            (ds_sleep D (min delay (max (if rp_max_delay p = 0 then delay else rp_max_delay p) 0)) w')
          else attempt_calls D p n delay (Some e) w')"

definition attempts_of :: "retry_policy \<Rightarrow> nat" where
  "attempts_of p = nat (max (if rp_attempts p = 0 then 1 else rp_attempts p) 1)"

definition threshold_of :: "circuit_policy \<Rightarrow> int" where
  "threshold_of p = max (if cp_failure_threshold p = 0 then 1 else cp_failure_threshold p) 1"

definition circuit_blocks :: "circuit_policy \<Rightarrow> int \<Rightarrow> circuit \<Rightarrow> bool" where
  "circuit_blocks p t c = (case cb_opened_at c of None \<Rightarrow> False | Some t0 \<Rightarrow> t - t0 < cp_reset_after p)"

definition call_with_retries ::
    "('w, 'e, 'a) downstream \<Rightarrow> retry_policy \<Rightarrow> circuit_policy \<Rightarrow> string \<Rightarrow> circuits \<times> 'w
     \<Rightarrow> ('e call_error + 'a) \<times> circuits \<times> 'w" where
  "call_with_retries D rp cp name st =
     (case st of (cs, w) \<Rightarrow>
      let n = circuit_name name; c = circuit_of cs n in
      if circuit_blocks cp (ds_now D w) c then (Inl (CircuitOpen n), AList.update n c cs, w)
      else
        let c1 = (if cb_opened_at c = None then c else \<lparr>cb_failures = 0, cb_opened_at = None\<rparr>) in
        (case attempt_calls D rp (attempts_of rp) (max (rp_initial_delay rp) 0) None w of
           (Inr a, w') \<Rightarrow> (Inr a, AList.update n \<lparr>cb_failures = 0, cb_opened_at = None\<rparr> cs, w')
         | (Inl e, w') \<Rightarrow>
           (let k = cb_failures c1 + 1;
                c2 = \<lparr>cb_failures = k, cb_opened_at = (if threshold_of cp \<le> k then Some (ds_now D w') else cb_opened_at c1)\<rparr>
            in (Inl (case e of None \<Rightarrow> NoAttempt n | Some x \<Rightarrow> Failed x), AList.update n c2 cs, w'))))"

subsection \<open>HTTP\<close>

definition retryable_http_statuses :: "int list" where
  "retryable_http_statuses = [408, 425, 429, 500, 502, 503, 504]"

definition is_retryable_http_status :: "pyval \<Rightarrow> bool" where
  "is_retryable_http_status status = (case py_int status of Inl _ \<Rightarrow> False | Inr i \<Rightarrow> i \<in> set retryable_http_statuses)"

datatype 'e http_error = Retryable pydict | OtherError 'e

text \<open>
  \<open>_operation\<close> of \<open>call_http_json_with_retries\<close>. \<open>retry_after\<close> is
  \<open>retry_after_seconds_from_headers\<close>, whose parsing of decimal numbers is a parameter.
\<close>

definition http_operation ::
    "(pyval \<Rightarrow> int option) \<Rightarrow> retry_policy \<Rightarrow> ('w, 'e, pydict) downstream \<Rightarrow> 'w \<Rightarrow> ('e http_error + pydict) \<times> 'w" where
  "http_operation retry_after rp H w =
     (case ds_operation H w of
        (Inl e, w') \<Rightarrow> (Inl (OtherError e), w')
      | (Inr response, w') \<Rightarrow>
          if is_retryable_http_status (dget response ''status'')
          then (Inl (Retryable response), case retry_after (dget response ''headers'') of
              None \<Rightarrow> w'
            | Some s \<Rightarrow> if 0 < s then ds_sleep H (min (s * 1000000) (rp_max_delay rp)) w' else w')
          else (Inr response, w'))"

text \<open>
  The exception that is caught was raised by the last attempt, so the response it carries is the
  last retryable one.
\<close>

definition call_http_json_with_retries ::
    "(pyval \<Rightarrow> int option) \<Rightarrow> ('w, 'e, pydict) downstream \<Rightarrow> retry_policy \<Rightarrow> circuit_policy \<Rightarrow> string \<Rightarrow> circuits \<times> 'w
     \<Rightarrow> ('e http_error call_error + pydict) \<times> circuits \<times> 'w" where
  "call_http_json_with_retries retry_after H rp cp name st =
     (case call_with_retries \<lparr>ds_operation = http_operation retry_after rp H, ds_sleep = ds_sleep H, ds_now = ds_now H\<rparr> rp cp name st of
        (Inl (Failed (Retryable response)), st') \<Rightarrow> (Inr response, st')
      | (res, st') \<Rightarrow> (res, st'))"

subsection \<open>Calls are bounded\<close>

text \<open>\<open>count\<close> counts the operation's calls in the world: the operation adds one, nothing else changes it.\<close>

lemma attempt_calls_count:
  assumes "\<And>w. count (snd (ds_operation D w)) = count w + (1 :: nat)" and "\<And>d w. count (ds_sleep D d w) = count w"
    and "attempt_calls D p n delay e w = (r, w')"
  shows "count w \<le> count w' \<and> count w' \<le> count w + n \<and> (\<forall>x. r = Inl x \<longrightarrow> count w' = count w + n) \<and> (0 < n \<longrightarrow> count w < count w' \<and> r \<noteq> Inl None) \<and>
    (\<forall>a. r = Inr a \<longrightarrow> count w < count w')"
  using assms(3)
proof (induction n arbitrary: delay e w)
  case (Suc n)
  obtain x w1 where op: "ds_operation D w = (x, w1)" by fastforce
  have c1: "count w1 = count w + 1" using assms(1) [of w] op by simp
  show ?case
  proof (cases x)
    case (Inr a)
    with Suc.prems op c1 show ?thesis by auto
  next
    case (Inl y)
    define w2 where "w2 = (if 0 < n \<and> 0 < delay then ds_sleep D (min delay (max (if rp_max_delay p = 0 then delay else rp_max_delay p) 0)) w1 else w1)"
    have c2: "count w2 = count w + 1" using assms(2) c1 by (simp add: w2_def)
    from Suc.prems op Inl obtain d where "attempt_calls D p n d (Some y) w2 = (r, w')" by (auto simp: w2_def split: if_splits)
    from Suc.IH [OF this] c2 this show ?thesis by (cases n) auto
  qed
qed auto

text \<open>
  C35. A downstream call returns after at most its number of attempts, whatever the service does:
  it calls the service not at all when the circuit is open, once or more when it succeeds, and
  exactly as often as it has attempts when it fails, and then with the error of an attempt.
\<close>

theorem retries_bounded:
  assumes "\<And>w. count (snd (ds_operation D w)) = count w + (1 :: nat)" and "\<And>d w. count (ds_sleep D d w) = count w"
  shows "\<exists>r cs' w'. call_with_retries D rp cp name (cs, w) = (r, cs', w') \<and> count w' \<le> count w + attempts_of rp \<and>
    (case r of
       Inl (CircuitOpen n) \<Rightarrow> n = circuit_name name \<and> circuit_blocks cp (ds_now D w) (circuit_of cs n) \<and> w' = w
     | Inl (NoAttempt n) \<Rightarrow> False
     | Inl (Failed e) \<Rightarrow> count w' = count w + attempts_of rp
     | Inr a \<Rightarrow> count w < count w')"
proof -
  obtain r w' where run: "attempt_calls D rp (attempts_of rp) (max (rp_initial_delay rp) 0) None w = (r, w')" by fastforce
  have "0 < attempts_of rp" by (simp add: attempts_of_def)
  with attempt_calls_count [of count D, OF assms run]
  have c: "count w' \<le> count w + attempts_of rp" "\<And>x. r = Inl x \<Longrightarrow> count w' = count w + attempts_of rp" "r \<noteq> Inl None"
    "\<And>a. r = Inr a \<Longrightarrow> count w < count w'" by auto
  show ?thesis
    using c by (auto simp: call_with_retries_def run Let_def split: sum.splits option.splits)
qed

text \<open>A service scripted by its answers: the world is what is left of the script, the calls made, and the clock.\<close>

record scripted =
  sc_answers :: "(string + string) list"
  sc_calls :: nat
  sc_clock :: int

definition scripted_service :: "(scripted, string, string) downstream" where
  "scripted_service = \<lparr>ds_operation = (\<lambda>w. (case sc_answers w of [] \<Rightarrow> Inl ''down'' | a # _ \<Rightarrow> a,
       w\<lparr>sc_answers := tl (sc_answers w), sc_calls := sc_calls w + 1\<rparr>)),
     ds_sleep = (\<lambda>d w. w\<lparr>sc_clock := sc_clock w + d\<rparr>), ds_now = sc_clock\<rparr>"

lemma scripted_counts:
  "sc_calls (snd (ds_operation scripted_service w)) = sc_calls w + 1" "sc_calls (ds_sleep scripted_service d w) = sc_calls w"
  by (simp_all add: scripted_service_def)

definition default_retry :: retry_policy where
  "default_retry = \<lparr>rp_attempts = 3, rp_initial_delay = 50000, rp_backoff_multiplier = 2, rp_max_delay = 2000000\<rparr>"

definition default_circuit :: circuit_policy where
  "default_circuit = \<lparr>cp_failure_threshold = 3, cp_reset_after = 30000000\<rparr>"

theorem retries_bounded_witness:
  "(\<exists>r cs' w'. call_with_retries scripted_service default_retry default_circuit ''s''
      ([], \<lparr>sc_answers = [Inl ''e'', Inr ''ok''], sc_calls = 0, sc_clock = 0\<rparr>) = (r, cs', w') \<and> sc_calls w' \<le> 3) \<and>
   fst (call_with_retries scripted_service default_retry default_circuit ''s''
      ([], \<lparr>sc_answers = [Inl ''e'', Inr ''ok''], sc_calls = 0, sc_clock = 0\<rparr>)) = Inr ''ok''"
proof -
  have "attempts_of default_retry = 3" by (simp add: attempts_of_def default_retry_def)
  then show ?thesis
    using retries_bounded [of sc_calls scripted_service, OF scripted_counts, of default_retry default_circuit "''s''" "[]"
        "\<lparr>sc_answers = [Inl ''e'', Inr ''ok''], sc_calls = 0, sc_clock = 0\<rparr>"]
    by (auto simp: call_with_retries_def scripted_service_def default_retry_def default_circuit_def attempts_of_def
        circuit_blocks_def circuit_of_def Let_def numeral_3_eq_3)
qed

subsection \<open>The circuit\<close>

text \<open>A history of calls on the circuits, each with its own service, policy of attempts and name.\<close>

fun run_downstream :: "(('w, 'e, 'a) downstream \<times> retry_policy \<times> string) list \<Rightarrow> circuit_policy \<Rightarrow> circuits \<times> 'w
    \<Rightarrow> ('e call_error + 'a) list \<times> circuits \<times> 'w" where
  "run_downstream [] cp st = ([], st)"
| "run_downstream ((D, rp, name) # calls) cp st = (case call_with_retries D rp cp name st of
     (r, st1) \<Rightarrow> (case run_downstream calls cp st1 of (rs, st2) \<Rightarrow> (r # rs, st2)))"

fun is_failure :: "'e call_error + 'a \<Rightarrow> bool" where
  "is_failure (Inl (Failed e)) = True"
| "is_failure (Inl (NoAttempt n)) = True"
| "is_failure r = False"

text \<open>The answers of the calls on one circuit.\<close>

definition answers_on :: "string \<Rightarrow> (('w, 'e, 'a) downstream \<times> retry_policy \<times> string) list \<Rightarrow> ('e call_error + 'a) list \<Rightarrow> ('e call_error + 'a) list" where
  "answers_on n calls rs = map snd (filter (\<lambda>((D, rp, name), r). circuit_name name = n) (zip calls rs))"

definition rejected :: "'e call_error + 'a \<Rightarrow> bool" where
  "rejected r = (case r of Inl (CircuitOpen n) \<Rightarrow> True | _ \<Rightarrow> False)"

lemma circuit_of_update [simp]: "circuit_of (AList.update n c cs) m = (if m = n then c else circuit_of cs m)"
  by (simp add: circuit_of_def update_conv')

text \<open>
  \<open>trail\<close> is the number of failures at the end of the answers of a circuit, those turned away by
  the open circuit left out. A circuit counts them modulo its threshold: it is open when the
  threshold divides their number, and the call that ends its cool-down starts the count again.
\<close>

definition trail :: "('e call_error + 'a) list \<Rightarrow> nat" where
  "trail rs = length (takeWhile is_failure (rev (filter (\<lambda>r. \<not> rejected r) rs)))"

definition opens_at :: "circuit_policy \<Rightarrow> nat \<Rightarrow> bool" where
  "opens_at cp k \<longleftrightarrow> 0 < k \<and> threshold_of cp dvd int k"

definition counted :: "circuit_policy \<Rightarrow> ('e call_error + 'a) list \<Rightarrow> circuit \<Rightarrow> bool" where
  "counted cp rs c \<longleftrightarrow> (cb_opened_at c \<noteq> None \<longleftrightarrow> opens_at cp (trail rs)) \<and>
     (cb_opened_at c = None \<longrightarrow> cb_failures c = int (trail rs) mod threshold_of cp)"

lemma trail_snoc:
  "trail (rs @ [r]) = (if rejected r then trail rs else if is_failure r then Suc (trail rs) else 0)"
  by (simp add: trail_def)

text \<open>The three ways a call leaves its circuit: turned away, closed by a success, one more failure.\<close>

lemma call_cases:
  assumes "call_with_retries D rp cp name (cs, w) = (r, cs', w')"
  defines "c \<equiv> circuit_of cs (circuit_name name)" and "c' \<equiv> circuit_of cs' (circuit_name name)"
  obtains "rejected r" and "c' = c"
  | "\<not> rejected r" and "\<not> is_failure r" and "c' = \<lparr>cb_failures = 0, cb_opened_at = None\<rparr>"
  | k where "\<not> rejected r" and "is_failure r" and "k = (if cb_opened_at c = None then cb_failures c else 0) + 1"
      and "c' = \<lparr>cb_failures = k, cb_opened_at = (if threshold_of cp \<le> k then Some (ds_now D w') else None)\<rparr>"
  using assms by (auto simp: call_with_retries_def Let_def rejected_def split: if_splits sum.splits option.splits prod.splits)

text \<open>The count a failing call arrives at reaches the threshold exactly when the threshold divides the failures so far.\<close>

lemma counted_next:
  assumes "counted cp rs c" and "k = (if cb_opened_at c = None then cb_failures c else 0) + 1"
  shows "threshold_of cp \<le> k \<longleftrightarrow> opens_at cp (Suc (trail rs))"
    and "\<not> threshold_of cp \<le> k \<Longrightarrow> k = int (Suc (trail rs)) mod threshold_of cp"
proof -
  let ?T = "threshold_of cp" and ?t = "int (trail rs)"
  have T: "1 \<le> ?T" by (simp add: threshold_of_def)
  have k: "k = ?t mod ?T + 1"
    using assms by (cases "cb_opened_at c = None") (auto simp: counted_def opens_at_def)
  have below: "?t mod ?T < ?T" "0 \<le> ?t mod ?T" using T by simp_all
  have m: "int (Suc (trail rs)) mod ?T = k mod ?T" by (simp add: k mod_simps add.commute)
  show "?T \<le> k \<longleftrightarrow> opens_at cp (Suc (trail rs))"
  proof
    assume "?T \<le> k"
    with below k have "k = ?T" by simp
    with m show "opens_at cp (Suc (trail rs))" by (simp add: opens_at_def dvd_eq_mod_eq_0)
  next
    assume "opens_at cp (Suc (trail rs))"
    with m have "k mod ?T = 0" by (simp add: opens_at_def dvd_eq_mod_eq_0)
    with k below show "?T \<le> k" by (metis mod_pos_pos_trivial not_le add_nonneg_eq_0_iff zero_le_one one_neq_zero add_nonneg_nonneg)
  qed
  show "k = int (Suc (trail rs)) mod ?T" if "\<not> ?T \<le> k"
    using that m k below by simp
qed

lemma call_counted:
  assumes "call_with_retries D rp cp name (cs, w) = (r, cs', w')" and c: "counted cp rs (circuit_of cs (circuit_name name))"
  shows "counted cp (rs @ [r]) (circuit_of cs' (circuit_name name))"
  using assms(1)
proof (cases rule: call_cases)
  case 1
  with c show ?thesis by (simp add: counted_def trail_snoc)
next
  case 2
  then show ?thesis by (simp add: counted_def trail_snoc opens_at_def)
next
  case (3 k)
  with counted_next [OF c 3(3)] show ?thesis by (simp add: counted_def trail_snoc)
qed

lemma call_rejected_iff:
  assumes "call_with_retries D rp cp name (cs, w) = (r, cs', w')"
  shows "rejected r \<longleftrightarrow> (\<exists>t0. cb_opened_at (circuit_of cs (circuit_name name)) = Some t0 \<and> ds_now D w < t0 + cp_reset_after cp)"
    and "rejected r \<Longrightarrow> w' = w"
  using assms by (auto simp: call_with_retries_def Let_def rejected_def circuit_blocks_def
      split: if_splits sum.splits option.splits prod.splits)

lemma call_other_circuit:
  "call_with_retries D rp cp name (cs, w) = (r, cs', w') \<Longrightarrow> circuit_name name \<noteq> n \<Longrightarrow> circuit_of cs' n = circuit_of cs n"
  by (auto simp: call_with_retries_def Let_def split: if_splits sum.splits prod.splits)

lemma run_counted:
  assumes "run_downstream calls cp (cs, w) = (rs, cs', w')" and "counted cp before (circuit_of cs n)"
  shows "counted cp (before @ answers_on n calls rs) (circuit_of cs' n)"
  using assms
proof (induction calls arbitrary: cs w rs before)
  case Nil
  then show ?case by (simp add: answers_on_def)
next
  case (Cons call calls)
  obtain D rp name where call: "call = (D, rp, name)" by (cases call)
  obtain r cs1 w1 where first: "call_with_retries D rp cp name (cs, w) = (r, cs1, w1)" by (cases "call_with_retries D rp cp name (cs, w)")
  obtain rs1 where rest: "run_downstream calls cp (cs1, w1) = (rs1, cs', w')" and rs: "rs = r # rs1"
    using Cons.prems(1) by (auto simp: call first split: prod.splits)
  show ?case
  proof (cases "circuit_name name = n")
    case True
    with Cons.prems(2) have "counted cp (before @ [r]) (circuit_of cs1 n)" using call_counted [OF first] by simp
    from Cons.IH [OF rest this] True show ?thesis by (simp add: rs call answers_on_def)
  next
    case False
    with Cons.IH [OF rest, of before] call_other_circuit [OF first False] Cons.prems(2) show ?thesis
      by (simp add: rs call answers_on_def)
  qed
qed

text \<open>
  C33. The circuit of a service opens at every failure that completes its threshold of failures in
  a row, and stays open for its cool-down: after any history of calls on any services the circuit
  is open exactly when the failures since the last success of its service, calls it turned away
  left out, are a positive multiple of the threshold. The next call is turned away, without
  calling the service or changing the circuit, exactly when the circuit was opened less than the
  cool-down ago; any other call leaves it open, from the moment it ended, exactly when it fails
  and completes the threshold, so that after a cool-down the threshold must be reached anew.
\<close>

theorem circuit_opens:
  fixes n :: string
  assumes "run_downstream calls cp ([], w) = (rs, cs, w')"
  defines "k \<equiv> trail (answers_on n calls rs)"
  shows "(cb_opened_at (circuit_of cs n) \<noteq> None \<longleftrightarrow> 0 < k \<and> threshold_of cp dvd int k) \<and>
    (\<forall>D rp name r cs1 w1. circuit_name name = n \<and> call_with_retries D rp cp name (cs, w') = (r, cs1, w1) \<longrightarrow>
       (rejected r \<longleftrightarrow> (\<exists>t0. cb_opened_at (circuit_of cs n) = Some t0 \<and> ds_now D w' < t0 + cp_reset_after cp)) \<and>
       (rejected r \<longrightarrow> w1 = w' \<and> circuit_of cs1 n = circuit_of cs n) \<and>
       (\<not> rejected r \<longrightarrow> cb_opened_at (circuit_of cs1 n) =
          (if is_failure r \<and> threshold_of cp dvd int (k + 1) then Some (ds_now D w1) else None)))"
proof -
  have "counted cp [] (circuit_of [] n)" by (simp add: counted_def circuit_of_def trail_def opens_at_def)
  from run_counted [OF assms(1) this] have inv: "counted cp (answers_on n calls rs) (circuit_of cs n)" by simp
  have step: "(rejected r \<longrightarrow> circuit_of cs1 n = circuit_of cs n) \<and>
      (\<not> rejected r \<longrightarrow> cb_opened_at (circuit_of cs1 n) =
        (if is_failure r \<and> threshold_of cp dvd int (k + 1) then Some (ds_now D w1) else None))"
    if n: "circuit_name name = n" and call: "call_with_retries D rp cp name (cs, w') = (r, cs1, w1)" for D rp name r cs1 w1
    using call
  proof (cases rule: call_cases)
    case (3 i)
    from counted_next(1) [OF inv 3(3) [unfolded n]] 3 n show ?thesis by (simp add: opens_at_def k_def)
  qed (simp_all add: n)
  show ?thesis
    using inv call_rejected_iff step by (fastforce simp: counted_def opens_at_def k_def)
qed

theorem circuit_opens_witness:
  "\<exists>rs cs w'. run_downstream (replicate 3 (scripted_service, default_retry, ''s'')) default_circuit
      ([], \<lparr>sc_answers = [], sc_calls = 0, sc_clock = 0\<rparr>) = (rs, cs, w') \<and> cb_opened_at (circuit_of cs ''s'') \<noteq> None \<and> sc_calls w' = 9"
proof -
  let ?calls = "replicate 3 (scripted_service, default_retry, ''s'')"
  obtain rs cs w' where run: "run_downstream ?calls default_circuit ([], \<lparr>sc_answers = [], sc_calls = 0, sc_clock = 0\<rparr>) = (rs, cs, w')"
    by (cases "run_downstream ?calls default_circuit ([], \<lparr>sc_answers = [], sc_calls = 0, sc_clock = 0\<rparr>)")
  have n: "circuit_name ''s'' = ''s''" by (simp add: circuit_name_def sor_def strip_def py_space_def)
  have three: "sc_calls w' = 9" "rs = replicate 3 (Inl (Failed ''down''))"
    using run by (simp_all add: numeral_3_eq_3 call_with_retries_def scripted_service_def default_retry_def default_circuit_def
        attempts_of_def threshold_of_def circuit_blocks_def circuit_of_def n Let_def) (elim conjE, hypsubst, simp)+
  then have "answers_on ''s'' ?calls rs = replicate 3 (Inl (Failed ''down''))"
    by (simp add: answers_on_def numeral_3_eq_3 n)
  then have "trail (answers_on ''s'' ?calls rs) = 3" by (simp add: trail_def rejected_def numeral_3_eq_3)
  moreover have "threshold_of default_circuit = 3" by (simp add: threshold_of_def default_circuit_def)
  ultimately have "cb_opened_at (circuit_of cs ''s'') \<noteq> None"
    using conjunct1 [OF circuit_opens [OF run, of "''s''"]] by simp
  with run three(1) show ?thesis by blast
qed

end
