(* ===== verification/Actor_Queue.thy ===== *)
theory Actor_Queue
  imports Py_Base
begin

text \<open>
  The per-actor queue of the session manager (\<open>session_manager/actor_queue.py\<close>): \<open>claim\<close> hands a
  caller the lock of its actor, creates it for the first caller and drops it with the last. The
  callers are threads, each between the four points where \<open>claim\<close> touches shared state: the
  sections under \<open>_global_lock\<close> are atomic, and so are \<open>lock.acquire\<close>, which only a free lock
  lets through, and \<open>lock.release\<close>. A lock is a reference into a heap of lock objects, so a lock
  dropped from the table is still the lock its waiters hold on to. A thread has one claim at a
  time: a claim inside the body of another one is outside the model.
\<close>

subsection \<open>State\<close>

datatype claimant =
    Outside
  | Waiting string nat
  | Holding string nat
  | Leaving string

record actor_queue =
  aq_held :: "bool list"
  aq_lock_by_actor :: "(string \<times> nat) list"
  aq_pending_by_actor :: "(string \<times> int) list"
  aq_threads :: "claimant list"

definition normalize_actor_key :: "string \<Rightarrow> string" where
  "normalize_actor_key actor_key = sor (lower (strip actor_key)) ''__default__''"

definition pending_of :: "string \<Rightarrow> actor_queue \<Rightarrow> int" where
  "pending_of t q = (case map_of (aq_pending_by_actor q) t of None \<Rightarrow> 0 | Some n \<Rightarrow> n)"

definition new_actor_queue :: "nat \<Rightarrow> actor_queue" where
  "new_actor_queue threads = \<lparr>aq_held = [], aq_lock_by_actor = [], aq_pending_by_actor = [], aq_threads = replicate threads Outside\<rparr>"

subsection \<open>The points of a claim\<close>

text \<open>The first section under the global lock: find or create the lock, count the caller.\<close>

definition enter_claim :: "nat \<Rightarrow> string \<Rightarrow> actor_queue \<Rightarrow> actor_queue" where
  "enter_claim i actor_key q =
     (let token = normalize_actor_key actor_key;
          (lock, q1) = (case map_of (aq_lock_by_actor q) token of
              Some l \<Rightarrow> (l, q)
            | None \<Rightarrow> (length (aq_held q), q\<lparr>aq_held := aq_held q @ [False],
                aq_lock_by_actor := AList.update token (length (aq_held q)) (aq_lock_by_actor q)\<rparr>))
      in q1\<lparr>aq_pending_by_actor := AList.update token (pending_of token q + 1) (aq_pending_by_actor q1),
            aq_threads := (aq_threads q1)[i := Waiting token lock]\<rparr>)"

definition acquire_lock :: "nat \<Rightarrow> string \<Rightarrow> nat \<Rightarrow> actor_queue \<Rightarrow> actor_queue" where
  "acquire_lock i token l q = q\<lparr>aq_held := (aq_held q)[l := True], aq_threads := (aq_threads q)[i := Holding token l]\<rparr>"

text \<open>The \<open>finally\<close> clause, after the body has returned or raised: the release, then the second section.\<close>

definition release_lock :: "nat \<Rightarrow> string \<Rightarrow> nat \<Rightarrow> actor_queue \<Rightarrow> actor_queue" where
  "release_lock i token l q = q\<lparr>aq_held := (aq_held q)[l := False], aq_threads := (aq_threads q)[i := Leaving token]\<rparr>"

definition leave_claim :: "nat \<Rightarrow> string \<Rightarrow> actor_queue \<Rightarrow> actor_queue" where
  "leave_claim i token q =
     (let n = pending_of token q; pending = (if n = 0 then 1 else n) - 1;
          q1 = q\<lparr>aq_threads := (aq_threads q)[i := Outside]\<rparr>
      in if pending \<le> 0
         then q1\<lparr>aq_pending_by_actor := AList.delete token (aq_pending_by_actor q),
                 aq_lock_by_actor := AList.delete token (aq_lock_by_actor q)\<rparr>
         else q1\<lparr>aq_pending_by_actor := AList.update token pending (aq_pending_by_actor q)\<rparr>)"

definition get_total_pending_count :: "actor_queue \<Rightarrow> int" where
  "get_total_pending_count q = sum_list (map snd (aq_pending_by_actor q))"

definition get_pending_count_for_session :: "string \<Rightarrow> actor_queue \<Rightarrow> int" where
  "get_pending_count_for_session actor_key q = pending_of (normalize_actor_key actor_key) q"

text \<open>A step of the system is a step of one thread; \<open>Enter\<close> is a new call, the others continue one.\<close>

datatype claim_point = Enter string | Acquire | Release | Leave

inductive actor_step :: "actor_queue \<Rightarrow> nat \<times> claim_point \<Rightarrow> actor_queue \<Rightarrow> bool" where
  step_enter: "i < length (aq_threads q) \<Longrightarrow> aq_threads q ! i = Outside \<Longrightarrow> actor_step q (i, Enter key) (enter_claim i key q)"
| step_acquire: "i < length (aq_threads q) \<Longrightarrow> aq_threads q ! i = Waiting t l \<Longrightarrow> \<not> aq_held q ! l \<Longrightarrow>
    actor_step q (i, Acquire) (acquire_lock i t l q)"
| step_release: "i < length (aq_threads q) \<Longrightarrow> aq_threads q ! i = Holding t l \<Longrightarrow> actor_step q (i, Release) (release_lock i t l q)"
| step_leave: "i < length (aq_threads q) \<Longrightarrow> aq_threads q ! i = Leaving t \<Longrightarrow> actor_step q (i, Leave) (leave_claim i t q)"

inductive_cases actor_stepE: "actor_step q (i, p) q'"
inductive_simps actor_step_acquire: "actor_step q (i, Acquire) q'"

inductive actor_reach :: "actor_queue \<Rightarrow> bool" where
  reach_new: "actor_reach (new_actor_queue n)"
| reach_step: "actor_reach q \<Longrightarrow> actor_step q e q' \<Longrightarrow> actor_reach q'"

subsection \<open>The invariant\<close>

fun on_token :: "string \<Rightarrow> claimant \<Rightarrow> bool" where
  "on_token t Outside = False"
| "on_token t (Waiting t' l) = (t' = t)"
| "on_token t (Holding t' l) = (t' = t)"
| "on_token t (Leaving t') = (t' = t)"

fun uses_lock :: "string \<Rightarrow> nat \<Rightarrow> claimant \<Rightarrow> bool" where
  "uses_lock t l (Waiting t' l') = (t' = t \<and> l' = l)"
| "uses_lock t l (Holding t' l') = (t' = t \<and> l' = l)"
| "uses_lock t l c = False"

fun holds_lock :: "nat \<Rightarrow> claimant \<Rightarrow> bool" where
  "holds_lock l (Holding t l') = (l' = l)"
| "holds_lock l c = False"

definition callers_on :: "string \<Rightarrow> claimant list \<Rightarrow> nat" where
  "callers_on t cs = length (filter (on_token t) cs)"

text \<open>
  The callers of an actor are counted, its lock is in the table while there are any, all of them
  wait for or hold that lock, no two actors share a lock, and a lock is held by as many
  threads as its flag says: one or none.
\<close>

definition actor_inv :: "actor_queue \<Rightarrow> bool" where
  "actor_inv q \<longleftrightarrow>
     distinct (map fst (aq_pending_by_actor q)) \<and>
     (\<forall>t. map_of (aq_pending_by_actor q) t = (if callers_on t (aq_threads q) = 0 then None else Some (int (callers_on t (aq_threads q))))) \<and>
     (\<forall>t. map_of (aq_lock_by_actor q) t = None \<longleftrightarrow> callers_on t (aq_threads q) = 0) \<and>
     (\<forall>c \<in> set (aq_threads q). \<forall>t l. uses_lock t l c \<longrightarrow> map_of (aq_lock_by_actor q) t = Some l) \<and>
     (\<forall>t l. map_of (aq_lock_by_actor q) t = Some l \<longrightarrow> l < length (aq_held q)) \<and>
     (\<forall>t t' l. map_of (aq_lock_by_actor q) t = Some l \<and> map_of (aq_lock_by_actor q) t' = Some l \<longrightarrow> t = t') \<and>
     (\<forall>l < length (aq_held q). length (filter (holds_lock l) (aq_threads q)) = (if aq_held q ! l then 1 else 0))"

lemma count_update:
  "i < length xs \<Longrightarrow> int (length (filter P (xs[i := y]))) =
     int (length (filter P xs)) - (if P (xs ! i) then 1 else 0) + (if P y then 1 else 0)"
proof (induction xs arbitrary: i)
  case (Cons x xs)
  show ?case
  proof (cases i)
    case (Suc j)
    with Cons.prems have "j < length xs" by simp
    from Cons.IH [OF this] Suc show ?thesis by (simp split: if_splits)
  qed simp
qed simp

lemma callers_update:
  "i < length cs \<Longrightarrow> int (callers_on t (cs[i := c])) = int (callers_on t cs) - (if on_token t (cs ! i) then 1 else 0) + (if on_token t c then 1 else 0)"
  unfolding callers_on_def by (rule count_update)

lemma in_update: "c \<in> set (xs[i := y]) \<Longrightarrow> c = y \<or> c \<in> set xs"
  by (metis in_set_conv_nth length_list_update nth_list_update_eq nth_list_update_neq nth_mem)

lemma callers_pos: "i < length cs \<Longrightarrow> on_token t (cs ! i) \<Longrightarrow> 0 < callers_on t cs"
  unfolding callers_on_def by (metis filter_empty_conv length_greater_0_conv nth_mem)

lemma inv_pending:
  assumes "actor_inv q"
  shows "pending_of t q = int (callers_on t (aq_threads q))"
proof -
  have "map_of (aq_pending_by_actor q) t = (if callers_on t (aq_threads q) = 0 then None else Some (int (callers_on t (aq_threads q))))"
    using assms unfolding actor_inv_def by blast
  then show ?thesis by (simp add: pending_of_def)
qed

lemma inv_locked: "actor_inv q \<Longrightarrow> map_of (aq_lock_by_actor q) t = None \<longleftrightarrow> callers_on t (aq_threads q) = 0"
  unfolding actor_inv_def by blast

lemma inv_range: "actor_inv q \<Longrightarrow> map_of (aq_lock_by_actor q) t = Some l \<Longrightarrow> l < length (aq_held q)"
  unfolding actor_inv_def by blast

lemma inv_uses: "actor_inv q \<Longrightarrow> c \<in> set (aq_threads q) \<Longrightarrow> uses_lock t l c \<Longrightarrow> map_of (aq_lock_by_actor q) t = Some l"
  unfolding actor_inv_def by blast

lemma inv_held: "actor_inv q \<Longrightarrow> l < length (aq_held q) \<Longrightarrow>
    length (filter (holds_lock l) (aq_threads q)) = (if aq_held q ! l then 1 else 0)"
  unfolding actor_inv_def by blast

lemma holder_uses: "holds_lock l c \<Longrightarrow> \<exists>t. uses_lock t l c"
  by (cases c) auto

lemma uses_on: "uses_lock t l c \<Longrightarrow> on_token t c"
  by (cases c) auto

lemma no_callers: "callers_on t cs = 0 \<Longrightarrow> c \<in> set cs \<Longrightarrow> \<not> uses_lock t l c"
  unfolding callers_on_def using uses_on by (fastforce simp: filter_empty_conv)

lemma inv_new: "actor_inv (new_actor_queue n)"
  by (auto simp: actor_inv_def new_actor_queue_def callers_on_def)

lemma inv_enter:
  assumes q: "actor_inv q" and i: "i < length (aq_threads q)" "aq_threads q ! i = Outside"
  shows "actor_inv (enter_claim i key q)"
proof -
  define token where "token = normalize_actor_key key"
  have callers: "callers_on t ((aq_threads q)[i := Waiting token l]) = callers_on t (aq_threads q) + (if t = token then 1 else 0)" for t l
    using callers_update [OF i(1), of t "Waiting token l"] i(2) by auto
  have held: "length (filter (holds_lock l) ((aq_threads q)[i := Waiting token k])) = length (filter (holds_lock l) (aq_threads q))" for l k
    using count_update [OF i(1), of "holds_lock l" "Waiting token k"] i(2) by simp
  show ?thesis
  proof (cases "map_of (aq_lock_by_actor q) token")
    case (Some k)
    have "enter_claim i key q = q\<lparr>aq_pending_by_actor := AList.update token (int (callers_on token (aq_threads q)) + 1) (aq_pending_by_actor q),
        aq_threads := (aq_threads q)[i := Waiting token k]\<rparr>"
      using inv_pending [OF q, of token] by (simp add: enter_claim_def Let_def Some flip: token_def)
    moreover have "0 < callers_on token (aq_threads q)" using inv_locked [OF q, of token] Some by simp
    ultimately show ?thesis
      using q Some unfolding actor_inv_def by (auto simp: callers held distinct_update update_conv' dest!: in_update)
  next
    case None
    define k where "k = length (aq_held q)"
    have e: "enter_claim i key q = q\<lparr>aq_held := aq_held q @ [False], aq_lock_by_actor := AList.update token k (aq_lock_by_actor q),
        aq_pending_by_actor := AList.update token (int (callers_on token (aq_threads q)) + 1) (aq_pending_by_actor q),
        aq_threads := (aq_threads q)[i := Waiting token k]\<rparr>"
      using inv_pending [OF q, of token] by (simp add: enter_claim_def Let_def None k_def flip: token_def)
    have fresh: "map_of (aq_lock_by_actor q) t \<noteq> Some k" for t using inv_range [OF q] by (auto simp: k_def)
    have unused: "length (filter (holds_lock k) (aq_threads q)) = 0"
      using inv_uses [OF q] fresh holder_uses by (fastforce simp: filter_empty_conv)
    have none: "\<not> uses_lock token l c" if "c \<in> set (aq_threads q)" for l c
      using no_callers that inv_locked [OF q, of token] None by blast
    from q None fresh unused none show ?thesis
      unfolding e actor_inv_def
      by (auto simp: callers held distinct_update update_conv' nth_append k_def less_Suc_eq dest!: in_update)
  qed
qed

lemma inv_acquire:
  assumes q: "actor_inv q" and i: "i < length (aq_threads q)" "aq_threads q ! i = Waiting t l" "\<not> aq_held q ! l"
  shows "actor_inv (acquire_lock i t l q)"
proof -
  have mem: "Waiting t l \<in> set (aq_threads q)" using i by (metis nth_mem)
  have l: "map_of (aq_lock_by_actor q) t = Some l" "l < length (aq_held q)"
    using inv_uses [OF q mem, of t l] inv_range [OF q] by auto
  have callers: "callers_on t' ((aq_threads q)[i := Holding t l]) = callers_on t' (aq_threads q)" for t'
    using callers_update [OF i(1), of t' "Holding t l"] i(2) by auto
  have held: "length (filter (holds_lock k) ((aq_threads q)[i := Holding t l])) = length (filter (holds_lock k) (aq_threads q)) + (if k = l then 1 else 0)" for k
    using count_update [OF i(1), of "holds_lock k" "Holding t l"] i(2) by auto
  from q l i(3) show ?thesis
    unfolding acquire_lock_def actor_inv_def by (auto simp: callers held nth_list_update dest!: in_update)
qed

lemma inv_release:
  assumes q: "actor_inv q" and i: "i < length (aq_threads q)" "aq_threads q ! i = Holding t l"
  shows "actor_inv (release_lock i t l q)"
proof -
  have mem: "Holding t l \<in> set (aq_threads q)" using i by (metis nth_mem)
  have l: "map_of (aq_lock_by_actor q) t = Some l" "l < length (aq_held q)"
    using inv_uses [OF q mem, of t l] inv_range [OF q] by auto
  have callers: "callers_on t' ((aq_threads q)[i := Leaving t]) = callers_on t' (aq_threads q)" for t'
    using callers_update [OF i(1), of t' "Leaving t"] i(2) by auto
  have pos: "0 < length (filter (holds_lock l) (aq_threads q))"
    using mem by (metis filter_empty_conv holds_lock.simps(1) length_greater_0_conv)
  have held: "int (length (filter (holds_lock k) ((aq_threads q)[i := Leaving t]))) = int (length (filter (holds_lock k) (aq_threads q))) - (if k = l then 1 else 0)" for k
    using count_update [OF i(1), of "holds_lock k" "Leaving t"] i(2) by auto
  have one: "length (filter (holds_lock k) ((aq_threads q)[i := Leaving t])) = (if (aq_held q)[l := False] ! k then 1 else 0)"
    if "k < length (aq_held q)" for k
    using held [of k] inv_held [OF q that] pos l(2) by (auto simp: nth_list_update split: if_splits)
  from q l show ?thesis
    unfolding release_lock_def actor_inv_def by (auto simp: callers one dest!: in_update)
qed

lemma inv_leave:
  assumes q: "actor_inv q" and i: "i < length (aq_threads q)" "aq_threads q ! i = Leaving t"
  shows "actor_inv (leave_claim i t q)"
proof -
  have pos: "0 < callers_on t (aq_threads q)" using callers_pos [OF i(1), of t] i(2) by simp
  have callers: "callers_on t' ((aq_threads q)[i := Outside]) = callers_on t' (aq_threads q) - (if t' = t then 1 else 0)" for t'
    using callers_update [OF i(1), of t' Outside] i(2) pos by (auto split: if_splits)
  have held: "length (filter (holds_lock k) ((aq_threads q)[i := Outside])) = length (filter (holds_lock k) (aq_threads q))" for k
    using count_update [OF i(1), of "holds_lock k" Outside] i(2) by auto
  have pend: "pending_of t q = int (callers_on t (aq_threads q))" by (rule inv_pending [OF q])
  show ?thesis
  proof (cases "callers_on t (aq_threads q) = 1")
    case True
    then have none: "\<not> uses_lock t l c" if "c \<in> set ((aq_threads q)[i := Outside])" for l c
      using no_callers that callers [of t] by (metis diff_self_eq_0)
    have e: "leave_claim i t q = q\<lparr>aq_threads := (aq_threads q)[i := Outside],
        aq_pending_by_actor := AList.delete t (aq_pending_by_actor q), aq_lock_by_actor := AList.delete t (aq_lock_by_actor q)\<rparr>"
      using True pend by (simp add: leave_claim_def Let_def)
    have uses: "t' \<noteq> t \<and> map_of (aq_lock_by_actor q) t' = Some l"
      if "c \<in> set ((aq_threads q)[i := Outside])" "uses_lock t' l c" for c t' l
      using none [OF that(1)] inv_uses [OF q, of c t' l] in_update [OF that(1)] that(2) by auto
    from q True show ?thesis unfolding e actor_inv_def
      by (auto simp: callers held uses delete_conv' distinct_delete split: if_splits dest: uses)
  next
    case False
    have e: "leave_claim i t q = q\<lparr>aq_threads := (aq_threads q)[i := Outside],
        aq_pending_by_actor := AList.update t (int (callers_on t (aq_threads q)) - 1) (aq_pending_by_actor q)\<rparr>"
      using False pend pos by (simp add: leave_claim_def Let_def)
    from q False pos show ?thesis unfolding e actor_inv_def
      by (auto simp: callers held update_conv' distinct_update of_nat_diff dest!: in_update)
  qed
qed

lemma actor_inv_step:
  assumes "actor_step q e q'" and "actor_inv q"
  shows "actor_inv q'"
  using assms by (cases rule: actor_step.cases) (auto intro: inv_enter inv_acquire inv_release inv_leave)

lemma reach_inv: "actor_reach q \<Longrightarrow> actor_inv q"
  by (induction rule: actor_reach.induct) (auto intro: inv_new actor_inv_step)

subsection \<open>Properties\<close>

lemma indicator_sum:
  "distinct keys \<Longrightarrow> (\<Sum>k\<leftarrow>keys. if on_token k c then 1 else 0) = (if \<exists>k \<in> set keys. on_token k c then 1 else (0 :: int))"
  by (induction keys) (cases c; auto)+

lemma callers_sum:
  assumes "distinct keys"
  shows "(\<Sum>k\<leftarrow>keys. int (callers_on k cs)) = int (length (filter (\<lambda>c. \<exists>k \<in> set keys. on_token k c) cs))"
proof (induction cs)
  case Nil
  then show ?case by (simp add: callers_on_def)
next
  case (Cons c cs)
  have "int (callers_on k (c # cs)) = (if on_token k c then 1 else 0) + int (callers_on k cs)" for k
    by (simp add: callers_on_def)
  then have "(\<Sum>k\<leftarrow>keys. int (callers_on k (c # cs))) = (\<Sum>k\<leftarrow>keys. if on_token k c then 1 else 0) + (\<Sum>k\<leftarrow>keys. int (callers_on k cs))"
    by (simp only: sum_list_addf)
  with Cons.IH indicator_sum [OF assms, of c] show ?case by simp
qed

lemma map_of_values: "distinct (map fst al) \<Longrightarrow> map snd al = map (\<lambda>k. the (map_of al k)) (map fst al)"
  by (auto simp: map_of_is_SomeI)

lemma total_pending:
  assumes q: "actor_inv q"
  shows "get_total_pending_count q = int (length (filter (\<lambda>c. c \<noteq> Outside) (aq_threads q)))"
proof -
  let ?keys = "map fst (aq_pending_by_actor q)"
  have d: "distinct ?keys" and m: "\<And>t. map_of (aq_pending_by_actor q) t =
      (if callers_on t (aq_threads q) = 0 then None else Some (int (callers_on t (aq_threads q))))"
    using q unfolding actor_inv_def by blast+
  have keys: "k \<in> set ?keys \<longleftrightarrow> callers_on k (aq_threads q) \<noteq> 0" for k
    using m [of k] by (metis map_of_eq_None_iff list.set_map option.distinct(1))
  have "map snd (aq_pending_by_actor q) = map (\<lambda>k. int (callers_on k (aq_threads q))) ?keys"
    unfolding map_of_values [OF d] using keys m by (intro map_cong refl) (metis option.sel)
  then have "get_total_pending_count q = int (length (filter (\<lambda>c. \<exists>k \<in> set ?keys. on_token k c) (aq_threads q)))"
    by (simp only: get_total_pending_count_def callers_sum [OF d])
  also have "filter (\<lambda>c. \<exists>k \<in> set ?keys. on_token k c) (aq_threads q) = filter (\<lambda>c. c \<noteq> Outside) (aq_threads q)"
  proof (rule filter_cong [OF refl])
    fix c assume c: "c \<in> set (aq_threads q)"
    have "k \<in> set ?keys" if "on_token k c" for k
      using c that unfolding keys callers_on_def by (auto simp: filter_empty_conv)
    then show "(\<exists>k \<in> set ?keys. on_token k c) = (c \<noteq> Outside)" by (cases c) auto
  qed
  finally show ?thesis .
qed

lemma two_in_filter:
  assumes "length (filter P xs) \<le> 1" and "i < length xs" "j < length xs" "P (xs ! i)" "P (xs ! j)"
  shows "i = j"
proof (rule ccontr)
  assume "i \<noteq> j"
  have "card {k. k < length xs \<and> P (xs ! k)} = length (filter P xs)" by (simp add: length_filter_conv_card)
  moreover have "card {i, j} \<le> card {k. k < length xs \<and> P (xs ! k)}"
    using assms by (intro card_mono) auto
  ultimately show False using assms(1) \<open>i \<noteq> j\<close> by simp
qed

text \<open>
  C10. Two callers never run for one actor at the same time: in every reachable state, whatever
  the interleaving and however often locks were created and dropped in between, at most one
  thread is inside the body of a claim on an actor, and the counts the queue reports are the
  number of threads with a claim on an actor and with any claim; with none, nothing is left in
  its tables.
\<close>

theorem actor_mutual_exclusion:
  assumes "actor_reach q"
  shows "(\<forall>i j t l l'. i < length (aq_threads q) \<and> j < length (aq_threads q) \<and>
       aq_threads q ! i = Holding t l \<and> aq_threads q ! j = Holding t l' \<longrightarrow> i = j) \<and>
    get_pending_count_for_session key q = int (callers_on (normalize_actor_key key) (aq_threads q)) \<and>
    get_total_pending_count q = int (length (filter (\<lambda>c. c \<noteq> Outside) (aq_threads q))) \<and>
    ((\<forall>c \<in> set (aq_threads q). c = Outside) \<longrightarrow> aq_lock_by_actor q = [] \<and> aq_pending_by_actor q = [])"
proof -
  from reach_inv [OF assms] have q: "actor_inv q" .
  have "i = j" if ij: "i < length (aq_threads q)" "j < length (aq_threads q)"
    and h: "aq_threads q ! i = Holding t l" "aq_threads q ! j = Holding t l'" for i j t l l'
  proof -
    have "map_of (aq_lock_by_actor q) t = Some l" "map_of (aq_lock_by_actor q) t = Some l'"
      using inv_uses [OF q nth_mem [OF ij(1)], of t l] inv_uses [OF q nth_mem [OF ij(2)], of t l'] h by auto
    then have "l' = l" "l < length (aq_held q)" using inv_range [OF q] by auto
    with inv_held [OF q, of l] have "length (filter (holds_lock l) (aq_threads q)) \<le> 1" by simp
    from two_in_filter [OF this ij] h \<open>l' = l\<close> show ?thesis by simp
  qed
  moreover have "aq_lock_by_actor q = [] \<and> aq_pending_by_actor q = []" if "\<forall>c \<in> set (aq_threads q). c = Outside"
  proof -
    have n: "callers_on t (aq_threads q) = 0" for t using that by (auto simp: callers_on_def filter_empty_conv)
    have "map_of (aq_lock_by_actor q) t = None" for t using inv_locked [OF q, of t] n [of t] by simp
    then have "map_of (aq_lock_by_actor q) = Map.empty" by (rule ext)
    moreover have "map_of (aq_pending_by_actor q) t = None" for t using q n [of t] unfolding actor_inv_def by simp
    then have "map_of (aq_pending_by_actor q) = Map.empty" by (rule ext)
    ultimately show ?thesis by simp
  qed
  ultimately show ?thesis
    using inv_pending [OF q] total_pending [OF q] by (auto simp: get_pending_count_for_session_def)
qed

text \<open>Two threads on one actor, the second waiting for the first.\<close>

definition demo_claims :: actor_queue where
  "demo_claims = enter_claim 1 '' a '' (acquire_lock 0 ''a'' 0 (enter_claim 0 ''A'' (new_actor_queue 2)))"

lemma demo_claims_reach: "actor_reach demo_claims"
proof -
  have k: "normalize_actor_key ''A'' = ''a''" by (simp add: normalize_actor_key_def sor_def strip_def lower_def py_space_def)
  have "actor_reach (enter_claim 0 ''A'' (new_actor_queue 2))"
    by (rule reach_step [OF reach_new step_enter]) (simp_all add: new_actor_queue_def)
  then have "actor_reach (acquire_lock 0 ''a'' 0 (enter_claim 0 ''A'' (new_actor_queue 2)))"
    by (rule reach_step [OF _ step_acquire]) (simp_all add: new_actor_queue_def enter_claim_def k Let_def numeral_2_eq_2)
  then show ?thesis unfolding demo_claims_def
    by (rule reach_step [OF _ step_enter]) (simp_all add: new_actor_queue_def enter_claim_def acquire_lock_def k Let_def numeral_2_eq_2)
qed

lemma demo_claims_threads: "aq_threads demo_claims = [Holding ''a'' 0, Waiting ''a'' 0]"
  by (simp add: demo_claims_def new_actor_queue_def enter_claim_def acquire_lock_def normalize_actor_key_def sor_def strip_def
      lower_def py_space_def Let_def numeral_2_eq_2)

theorem actor_mutual_exclusion_witness:
  "get_pending_count_for_session ''a'' demo_claims = 2 \<and> get_total_pending_count demo_claims = 2"
  using actor_mutual_exclusion [OF demo_claims_reach, of "''a''"]
  by (simp add: demo_claims_threads callers_on_def normalize_actor_key_def sor_def strip_def lower_def py_space_def)

text \<open>
  C34. The queue does not get stuck: in every reachable state with a claim under way, some thread
  other than a new caller can take a step, and a thread that waits for the lock of its actor
  either can take it or waits for exactly one thread, which is inside its body on the same actor.
\<close>

theorem actor_queue_progress:
  assumes "actor_reach q" and "i < length (aq_threads q)" and "aq_threads q ! i \<noteq> Outside"
  shows "(\<exists>j p q'. actor_step q (j, p) q' \<and> p \<in> {Acquire, Release, Leave}) \<and>
    (\<forall>t l. aq_threads q ! i = Waiting t l \<longrightarrow>
       (\<exists>q'. actor_step q (i, Acquire) q') \<or>
       (\<exists>!j. j < length (aq_threads q) \<and> aq_threads q ! j = Holding t l))"
proof -
  from reach_inv [OF assms(1)] have q: "actor_inv q" .
  have waits: "(\<exists>q'. actor_step q (i, Acquire) q') \<or> (\<exists>!j. j < length (aq_threads q) \<and> aq_threads q ! j = Holding t l)"
    if w: "aq_threads q ! i = Waiting t l" for t l
  proof (cases "aq_held q ! l")
    case False
    with w assms(2) show ?thesis by (auto simp: actor_step_acquire)
  next
    case True
    have lock: "map_of (aq_lock_by_actor q) t = Some l" using inv_uses [OF q nth_mem [OF assms(2)], of t l] w by simp
    then have "length (filter (holds_lock l) (aq_threads q)) = 1" using inv_held [OF q, of l] inv_range [OF q] True by auto
    then have one: "length (filter (holds_lock l) (aq_threads q)) \<le> 1" and "filter (holds_lock l) (aq_threads q) \<noteq> []" by auto
    then obtain j where j: "j < length (aq_threads q)" "holds_lock l (aq_threads q ! j)"
      by (metis filter_empty_conv in_set_conv_nth)
    then obtain t' where t': "aq_threads q ! j = Holding t' l" by (cases "aq_threads q ! j") auto
    have "map_of (aq_lock_by_actor q) t' = Some l" using inv_uses [OF q nth_mem [OF j(1)], of t' l] t' by simp
    with lock q have "t' = t" unfolding actor_inv_def by blast
    with j t' two_in_filter [OF one] have "\<exists>!j. j < length (aq_threads q) \<and> aq_threads q ! j = Holding t l"
      by (intro ex1I [of _ j]) auto
    then show ?thesis ..
  qed
  have "\<exists>j p q'. actor_step q (j, p) q' \<and> p \<in> {Acquire, Release, Leave}"
  proof (cases "aq_threads q ! i")
    case Outside
    with assms(3) show ?thesis by simp
  next
    case (Waiting t l)
    from waits [OF this] show ?thesis using step_release by blast
  next
    case (Holding t l)
    with step_release [OF assms(2)] show ?thesis by blast
  next
    case (Leaving t)
    with step_leave [OF assms(2)] show ?thesis by blast
  qed
  with waits show ?thesis by blast
qed

theorem actor_queue_progress_witness:
  "\<exists>!j. j < length (aq_threads demo_claims) \<and> aq_threads demo_claims ! j = Holding ''a'' 0"
proof -
  have "aq_held demo_claims = [True]"
    by (simp add: demo_claims_def new_actor_queue_def enter_claim_def acquire_lock_def normalize_actor_key_def sor_def strip_def
        lower_def py_space_def Let_def numeral_2_eq_2)
  then have "\<not> actor_step demo_claims (1, Acquire) q'" for q' by (auto simp: actor_step_acquire demo_claims_threads)
  then show ?thesis
    using actor_queue_progress [OF demo_claims_reach, of 1] by (auto simp: demo_claims_threads numeral_2_eq_2)
qed

end
