(* ===== verification/Kill_Switch.thy ===== *)
theory Kill_Switch
  imports Kernel_Gate "HOL-Library.Multiset"
begin

text \<open>
  The emergency gate (\<open>kill_switch_gate.py\<close>): switches in the memory of a process, written
  through to one file that every process of the machine reads when its memory has no entry for a
  key. The file's content, its read errors and what a failed write leaves of it are explicit;
  the richer controls of \<open>safe_mode_service\<close> are parameters, functions of the arguments the gate
  calls them with. Log lines and the audit event of a denial are left out.
\<close>

subsection \<open>State\<close>

datatype kill_file = MissingFile | BrokenFile | JsonFile pyval

type_synonym switches = "(string \<times> bool) list"

text \<open>
  \<open>read_fails\<close>: reading raises; \<open>write_fails\<close>: writing raises and leaves this file;
  \<open>resolvers\<close>: what the resolvers registered after the file's own return.
\<close>

record kill_env =
  ke_repo :: repo_env
  read_fails :: bool
  write_fails :: "kill_file option"
  resolvers :: "switches res list"
  machine_policy :: "(string option \<Rightarrow> string option \<Rightarrow> string option \<Rightarrow> pyval res) option"
  agent_disable_state :: "string option \<Rightarrow> string \<Rightarrow> string \<Rightarrow> pyval res"

record kill_decision =
  kd_blocked :: bool
  kd_reason :: string
  kd_scope :: string
  kd_detail :: string
  kd_trace_id :: string

definition global_kill_key :: string where "global_kill_key = ''global_pilot''"
definition workspace_kill_prefix :: string where "workspace_kill_prefix = ''workspace:''"
definition agent_kill_prefix :: string where "agent_kill_prefix = ''agent:''"
definition gateway_kill_prefix :: string where "gateway_kill_prefix = ''gateway:''"

definition kill_switch_scope :: "string \<Rightarrow> string" where
  "kill_switch_scope key =
     (if key = global_kill_key then ''global''
      else if py_startswith key workspace_kill_prefix then ''workspace''
      else if py_startswith key agent_kill_prefix then ''agent''
      else if py_startswith key gateway_kill_prefix then ''gateway''
      else ''custom'')"

subsection \<open>The gate of a change\<close>

text \<open>A string by \<open>json.dumps\<close> in its default form, which escapes everything but printable ASCII.\<close>

definition json_ascii_char :: "char \<Rightarrow> string" where
  "json_ascii_char c = (let n = of_char c :: nat in
     if n < 127 then json_char c
     else [CHR 0x5C, CHR ''u'', CHR ''0'', CHR ''0'', hex_digit (n div 16), hex_digit (n mod 16)])"

definition json_ascii :: "string \<Rightarrow> string" where
  "json_ascii s = [CHR 0x22] @ concat (map json_ascii_char s) @ [CHR 0x22]"

definition kill_payload_text :: "string \<Rightarrow> bool \<Rightarrow> string" where
  "kill_payload_text key active = ''{'' @ json_ascii ''active'' @ '': '' @ (if active then ''true'' else ''false'') @ '', '' @
     json_ascii ''key'' @ '': '' @ json_ascii key @ '', '' @ json_ascii ''scope'' @ '': '' @ json_ascii (kill_switch_scope key) @ ''}''"

definition enforce_kill_switch_state_decision :: "repo_env \<Rightarrow> string \<Rightarrow> string \<Rightarrow> bool \<Rightarrow> unit res" where
  "enforce_kill_switch_state_decision E operation key active =
     (let normalized_key = strip key;
          request =
            [(''operation'', PStr operation),
             (''state_class'', PStr ''kill_switches''),
             (''actor_id'', PStr ''system''),
             (''status'', PStr (if active then ''active'' else ''cleared'')),
             (''payload'', PDict [(''key'', PStr normalized_key), (''active'', PBool active),
                (''scope'', PStr (kill_switch_scope normalized_key))]),
             (''payload_bytes'', PInt (int (length (kill_payload_text normalized_key active)))),
             (''workspace_access'', PBool True),
             (''owner_access'', PBool True)]
      in case run_runtime_kernel_enforced E ''runtime-state-store-decision'' request of
           Inl e \<Rightarrow> Inl (GateError (exc_text e))
         | Inr _ \<Rightarrow> if tok (dget (kern E ''runtime-state-store-decision'' request) ''next_action'') \<noteq> operation
             then Inl (GateError ''unexpected_next_action'') else Inr ())"

subsection \<open>Memory and file\<close>

definition read_kill_switches_from_file :: "kill_env \<Rightarrow> kill_file \<Rightarrow> switches" where
  "read_kill_switches_from_file E f =
     (if read_fails E then [] else case f of JsonFile (PDict d) \<Rightarrow> map (\<lambda>(k, v). (k, truthy v)) d | _ \<Rightarrow> [])"

definition write_kill_switches_to_file :: "kill_env \<Rightarrow> switches \<Rightarrow> kill_file \<Rightarrow> kill_file" where
  "write_kill_switches_to_file E state f =
     (case write_fails E of
        Some left \<Rightarrow> left
      | None \<Rightarrow> JsonFile (PDict (sort_key fst (map (\<lambda>(k, v). (k, PBool v)) (filter snd state)))))"

text \<open>A process starts with no switches and takes over those of the file.\<close>

definition reload_kill_switches :: "kill_env \<Rightarrow> kill_file \<Rightarrow> switches" where
  "reload_kill_switches E f = fold (\<lambda>(k, v). AList.update k v) (read_kill_switches_from_file E f) []"

definition set_kill_switch :: "kill_env \<Rightarrow> string \<Rightarrow> bool \<Rightarrow> switches \<times> kill_file \<Rightarrow> unit res \<times> switches \<times> kill_file" where
  "set_kill_switch E key active st =
     (case st of (mem, f) \<Rightarrow>
      case enforce_kill_switch_state_decision (ke_repo E) ''set_kill_switch'' key active of
        Inl e \<Rightarrow> (Inl e, mem, f)
      | Inr _ \<Rightarrow> (let mem' = AList.update key active mem in (Inr (), mem', write_kill_switches_to_file E mem' f)))"

definition clear_kill_switch :: "kill_env \<Rightarrow> string \<Rightarrow> switches \<times> kill_file \<Rightarrow> unit res \<times> switches \<times> kill_file" where
  "clear_kill_switch E key st =
     (case st of (mem, f) \<Rightarrow>
      case enforce_kill_switch_state_decision (ke_repo E) ''clear_kill_switch'' key False of
        Inl e \<Rightarrow> (Inl e, mem, f)
      | Inr _ \<Rightarrow> (let mem' = AList.delete key mem in (Inr (), mem', write_kill_switches_to_file E mem' f)))"

fun resolve_key :: "string \<Rightarrow> switches res list \<Rightarrow> bool" where
  "resolve_key key [] = False"
| "resolve_key key (Inl e # rs) = resolve_key key rs"
| "resolve_key key (Inr d # rs) = (case map_of d key of Some b \<Rightarrow> b | None \<Rightarrow> resolve_key key rs)"

text \<open>\<open>{str(k): bool(v) for ...}\<close>: of two equal keys the last one counts, as in \<open>json.loads\<close>.\<close>

definition is_kill_active :: "kill_env \<Rightarrow> string \<Rightarrow> switches \<times> kill_file \<Rightarrow> bool" where
  "is_kill_active E key st = (case st of (mem, f) \<Rightarrow> case map_of mem key of
     Some b \<Rightarrow> b
   | None \<Rightarrow> resolve_key key (Inr (reload_kill_switches E f) # resolvers E))"

subsection \<open>Evaluating\<close>

definition not_killed :: "string \<Rightarrow> kill_decision" where
  "not_killed trace_id = \<lparr>kd_blocked = False, kd_reason = [], kd_scope = [], kd_detail = [], kd_trace_id = trace_id\<rparr>"

definition safe_mode_target :: "string \<Rightarrow> string \<Rightarrow> string \<Rightarrow> string \<Rightarrow> string" where
  "safe_mode_target scope tenant_id workspace_id gateway_id = (case map_of
     [(''global'', ''The platform is in emergency stop mode.''),
      (''tenant'', ''Tenant '' @ tenant_id @ '' has been stopped.''),
      (''workspace'', ''Workspace '' @ workspace_id @ '' has been stopped.''),
      (''machine'', ''Gateway '' @ gateway_id @ '' has been stopped.''),
      (''capability'', ''A required gateway capability has been stopped.'')] scope of
     Some m \<Rightarrow> m | None \<Rightarrow> ''This operation has been stopped.'')"

definition evaluate_safe_mode_emergency_kill ::
    "kill_env \<Rightarrow> string \<Rightarrow> string \<Rightarrow> string \<Rightarrow> string \<Rightarrow> string \<Rightarrow> kill_decision" where
  "evaluate_safe_mode_emergency_kill E tenant_id workspace_id agent_id gateway_id trace_id =
     (case machine_policy E of
        None \<Rightarrow> not_killed trace_id
      | Some policy \<Rightarrow>
        (let kill_state = (case policy (snone tenant_id) (snone workspace_id) (snone gateway_id) of
               Inr (PDict d) \<Rightarrow> dget d ''kill_switch'' | _ \<Rightarrow> PDict []);
             state = dict_of kill_state in
         if truthy (dget state ''active'')
         then (let scope = sor (strip (py_str_of (por (dget state ''scope'') (PStr ''workspace'')))) ''workspace'' in
           \<lparr>kd_blocked = True, kd_reason = ''safe_mode_'' @ scope @ ''_kill_active'', kd_scope = scope,
            kd_detail = sor (tok (dget state ''reason'')) (safe_mode_target scope tenant_id workspace_id gateway_id),
            kd_trace_id = trace_id\<rparr>)
         else if workspace_id \<noteq> [] \<and> agent_id \<noteq> []
         then (let agent_state = (case agent_disable_state E (snone tenant_id) workspace_id agent_id of Inl _ \<Rightarrow> [] | Inr v \<Rightarrow> dict_of v) in
           if truthy (dget agent_state ''active'')
           then \<lparr>kd_blocked = True, kd_reason = ''safe_mode_agent_kill_active'', kd_scope = ''agent'',
             kd_detail = py_str_of (por (dget agent_state ''reason'') (PStr (''Agent '' @ agent_id @ '' has been stopped.''))),
             kd_trace_id = trace_id\<rparr>
           else not_killed trace_id)
         else not_killed trace_id))"

definition evaluate_kill_switch ::
    "kill_env \<Rightarrow> string \<Rightarrow> string \<Rightarrow> string \<Rightarrow> string \<Rightarrow> string \<Rightarrow> switches \<times> kill_file \<Rightarrow> kill_decision" where
  "evaluate_kill_switch E tenant_id workspace_id agent_id gateway_id trace_id st =
     (if is_kill_active E global_kill_key st then
        \<lparr>kd_blocked = True, kd_reason = ''global_kill_active'', kd_scope = ''global'',
         kd_detail = ''The platform is in emergency stop mode. All operations are blocked.'', kd_trace_id = trace_id\<rparr>
      else if workspace_id \<noteq> [] \<and> is_kill_active E (workspace_kill_prefix @ workspace_id) st then
        \<lparr>kd_blocked = True, kd_reason = ''workspace_kill_active'', kd_scope = ''workspace'',
         kd_detail = ''Workspace '' @ workspace_id @ '' has been stopped.'', kd_trace_id = trace_id\<rparr>
      else if agent_id \<noteq> [] \<and> is_kill_active E (agent_kill_prefix @ agent_id) st then
        \<lparr>kd_blocked = True, kd_reason = ''agent_kill_active'', kd_scope = ''agent'',
         kd_detail = ''Agent '' @ agent_id @ '' has been stopped by its owner.'', kd_trace_id = trace_id\<rparr>
      else if gateway_id \<noteq> [] \<and> is_kill_active E (gateway_kill_prefix @ gateway_id) st then
        \<lparr>kd_blocked = True, kd_reason = ''gateway_kill_active'', kd_scope = ''gateway'',
         kd_detail = ''Gateway '' @ gateway_id @ '' has been stopped.'', kd_trace_id = trace_id\<rparr>
      else
        (let d = evaluate_safe_mode_emergency_kill E tenant_id workspace_id agent_id gateway_id trace_id in
         if kd_blocked d then d else not_killed trace_id))"

text \<open>\<open>assert_not_killed\<close> raises the decision.\<close>

definition assert_not_killed ::
    "kill_env \<Rightarrow> string \<Rightarrow> string \<Rightarrow> string \<Rightarrow> string \<Rightarrow> string \<Rightarrow> switches \<times> kill_file \<Rightarrow> kill_decision + unit" where
  "assert_not_killed E tenant_id workspace_id agent_id gateway_id trace_id st =
     (let d = evaluate_kill_switch E tenant_id workspace_id agent_id gateway_id trace_id st in
      if kd_blocked d then Inl d else Inr ())"

subsection \<open>Switches hold\<close>

text \<open>A kernel that allows every change, and files that can be read and written.\<close>

definition kill_allow :: kill_env where
  "kill_allow = \<lparr>ke_repo = (allow_env 0)\<lparr>kern := echo_kernel\<rparr>, read_fails = False, write_fails = None, resolvers = [],
     machine_policy = None, agent_disable_state = (\<lambda>_ _ _. Inr PNone)\<rparr>"

lemma kill_allow_simps [simp]:
  "kern (ke_repo kill_allow) = echo_kernel" "write_fails kill_allow = None" "read_fails kill_allow = False" "resolvers kill_allow = []"
  by (simp_all add: kill_allow_def)

lemma kill_allow_gate:
  assumes "strip operation = operation"
  shows "enforce_kill_switch_state_decision (ke_repo kill_allow) operation key active = Inr ()"
proof -
  have "run_runtime_kernel_enforced (ke_repo kill_allow) c r \<noteq> Inl e" for c r e
    using echo_enforced [of "ke_repo kill_allow" c r] by auto
  then show ?thesis
    using assms by (auto simp: enforce_kill_switch_state_decision_def Let_def echo_kernel_def tok_def por_def split: sum.splits)
qed

lemma map_of_fold_update:
  "map_of (fold (\<lambda>(k, v). AList.update k v) xs al) k = (case map_of (rev xs) k of Some v \<Rightarrow> Some v | None \<Rightarrow> map_of al k)"
  by (induction xs arbitrary: al) (auto simp: update_conv' map_add_def split: option.splits)

lemma distinct_fold_update: "distinct (map fst al) \<Longrightarrow> distinct (map fst (fold (\<lambda>(k, v). AList.update k v) xs al))"
  by (induction xs arbitrary: al) (auto intro: distinct_update)

lemma map_sort_key_fst: "map fst (sort_key fst xs) = sort (map fst xs)"
proof (rule sym, rule properties_for_sort)
  show "mset (map fst (sort_key fst xs)) = mset (map fst xs)" by (metis mset_map mset_sort)
qed simp

text \<open>A key is armed when it is on in the memory of the process and in a well-formed file.\<close>

definition armed :: "string \<Rightarrow> switches \<times> kill_file \<Rightarrow> bool" where
  "armed key st \<longleftrightarrow> distinct (map fst (fst st)) \<and> map_of (fst st) key = Some True \<and>
     (\<exists>d. snd st = JsonFile (PDict d) \<and> distinct (map fst d) \<and> (key, PBool True) \<in> set d)"

lemma written_armed:
  assumes "distinct (map fst mem)" and "map_of mem key = Some True" and "write_fails E = None"
  shows "armed key (mem, write_kill_switches_to_file E mem f)"
proof -
  let ?d = "sort_key fst (map (\<lambda>(k, v). (k, PBool v)) (filter snd mem))"
  have k: "map fst (map (\<lambda>(k, v). (k, PBool v)) xs) = map fst xs" for xs :: switches by (induction xs) auto
  have "distinct (map fst (map (\<lambda>(k, v). (k, PBool v)) (filter snd mem)))"
    unfolding k using assms(1) by (rule distinct_map_filter)
  then have "distinct (sort (map fst (map (\<lambda>(k, v). (k, PBool v)) (filter snd mem))))" by simp
  then have "distinct (map fst ?d)" by (simp only: map_sort_key_fst)
  moreover have "(key, PBool True) \<in> set ?d"
    using map_of_SomeD [OF assms(2)] by (auto simp: image_iff intro!: bexI [of _ "(key, True)"])
  ultimately show ?thesis using assms by (simp add: armed_def write_kill_switches_to_file_def)
qed

lemma reload_armed:
  assumes "armed key (mem, f)" and "\<not> read_fails E"
  shows "armed key (reload_kill_switches E f, f)"
proof -
  obtain d where d: "f = JsonFile (PDict d)" "distinct (map fst d)" "(key, PBool True) \<in> set d"
    using assms(1) by (auto simp: armed_def)
  let ?xs = "map (\<lambda>(k, v). (k, truthy v)) d"
  have "map fst ?xs = map fst d" by (induction d) auto
  then have "distinct (map fst (rev ?xs))" using d(2) by (metis distinct_rev rev_map)
  moreover have "(key, True) \<in> set (rev ?xs)" using d(3) by force
  ultimately have "map_of (rev ?xs) key = Some True" by (rule map_of_is_SomeI)
  then show ?thesis using d assms(2)
    by (simp add: armed_def reload_kill_switches_def read_kill_switches_from_file_def map_of_fold_update distinct_fold_update)
qed

text \<open>
  What happens to a process and the file: its own changes, a restart, and \<open>OpOtherProcess\<close>, anything
  another process does to the file.
\<close>

datatype kill_op =
    OpSetSwitch kill_env string bool
  | OpClearSwitch kill_env string
  | OpRestart kill_env
  | OpOtherProcess kill_file

fun kill_step :: "kill_op \<Rightarrow> switches \<times> kill_file \<Rightarrow> switches \<times> kill_file" where
  "kill_step (OpSetSwitch E key active) st = snd (set_kill_switch E key active st)"
| "kill_step (OpClearSwitch E key) st = snd (clear_kill_switch E key st)"
| "kill_step (OpRestart E) st = (reload_kill_switches E (snd st), snd st)"
| "kill_step (OpOtherProcess f) st = (fst st, f)"

text \<open>
  \<open>file_kept\<close> follows whether the file is the one this process wrote last: each change the kernel
  grants writes it anew, unless the write fails. \<open>undisturbed\<close> is a history that never turns the
  switch off, in which the process restarts only with its own file, and can read it.
\<close>

definition file_rewritten :: "bool \<Rightarrow> kill_env \<Rightarrow> unit res \<Rightarrow> bool" where
  "file_rewritten kept E gate = (case gate of Inl e \<Rightarrow> kept | Inr u \<Rightarrow> write_fails E = None)"

fun file_kept :: "bool \<Rightarrow> kill_op \<Rightarrow> bool" where
  "file_kept kept (OpSetSwitch E k active) = file_rewritten kept E (enforce_kill_switch_state_decision (ke_repo E) ''set_kill_switch'' k active)"
| "file_kept kept (OpClearSwitch E k) = file_rewritten kept E (enforce_kill_switch_state_decision (ke_repo E) ''clear_kill_switch'' k False)"
| "file_kept kept (OpRestart E) = kept"
| "file_kept kept (OpOtherProcess f) = False"

fun leaves_switch :: "string \<Rightarrow> bool \<Rightarrow> kill_op \<Rightarrow> bool" where
  "leaves_switch key kept (OpSetSwitch E k active) = (k = key \<longrightarrow> active)"
| "leaves_switch key kept (OpClearSwitch E k) = (k \<noteq> key)"
| "leaves_switch key kept (OpRestart E) = (kept \<and> \<not> read_fails E)"
| "leaves_switch key kept (OpOtherProcess f) = True"

fun undisturbed :: "string \<Rightarrow> bool \<Rightarrow> kill_op list \<Rightarrow> bool" where
  "undisturbed key kept [] = True"
| "undisturbed key kept (op # ops) = (leaves_switch key kept op \<and> undisturbed key (file_kept kept op) ops)"

text \<open>A key that is on in the memory, and in the file too as long as the file is kept.\<close>

definition held :: "string \<Rightarrow> bool \<Rightarrow> switches \<times> kill_file \<Rightarrow> bool" where
  "held key kept st \<longleftrightarrow> distinct (map fst (fst st)) \<and> map_of (fst st) key = Some True \<and> (kept \<longrightarrow> armed key st)"

lemma write_held:
  assumes "distinct (map fst mem)" and "map_of mem key = Some True"
  shows "held key (write_fails E = None) (mem, write_kill_switches_to_file E mem f)"
  using assms written_armed [OF assms] by (simp add: held_def)

lemma kill_step_held:
  assumes "held key kept st" and "leaves_switch key kept op"
  shows "held key (file_kept kept op) (kill_step op st)"
proof (cases op)
  case (OpSetSwitch E k active)
  have "distinct (map fst (AList.update k active (fst st)))" "map_of (AList.update k active (fst st)) key = Some True"
    using assms OpSetSwitch by (auto simp: held_def distinct_update update_conv')
  from write_held [OF this, of E] assms OpSetSwitch show ?thesis
    by (cases st) (simp add: set_kill_switch_def file_rewritten_def Let_def split: sum.splits)
next
  case (OpClearSwitch E k)
  have "distinct (map fst (AList.delete k (fst st)))" "map_of (AList.delete k (fst st)) key = Some True"
    using assms OpClearSwitch by (auto simp: held_def distinct_delete delete_conv')
  from write_held [OF this, of E] assms OpClearSwitch show ?thesis
    by (cases st) (simp add: clear_kill_switch_def file_rewritten_def Let_def split: sum.splits)
next
  case (OpRestart E)
  with reload_armed [of key "fst st" "snd st" E] assms show ?thesis by (simp add: held_def armed_def)
next
  case (OpOtherProcess f)
  with assms show ?thesis by (simp add: held_def)
qed

lemma history_held: "held key kept st \<Longrightarrow> undisturbed key kept ops \<Longrightarrow> \<exists>kept'. held key kept' (fold kill_step ops st)"
proof (induction ops arbitrary: kept st)
  case (Cons op ops)
  from Cons.IH [OF kill_step_held [OF Cons.prems(1), of op]] Cons.prems(2) show ?case by simp
qed auto

text \<open>The key is one of those a request of these ids is measured against.\<close>

definition concerns :: "string \<Rightarrow> string \<Rightarrow> string \<Rightarrow> string \<Rightarrow> bool" where
  "concerns key workspace_id agent_id gateway_id \<longleftrightarrow> key = global_kill_key \<or>
     (workspace_id \<noteq> [] \<and> key = workspace_kill_prefix @ workspace_id) \<or>
     (agent_id \<noteq> [] \<and> key = agent_kill_prefix @ agent_id) \<or>
     (gateway_id \<noteq> [] \<and> key = gateway_kill_prefix @ gateway_id)"

text \<open>
  C32. An emergency stop holds in the process that set it: every request it concerns is refused
  there after any history in which nobody turns that switch off in this process, whatever other
  switches it sets and clears, whatever changes the kernel refuses, whether or not the file can be
  written, and whatever other processes do to the file. A restart may belong to the history only
  when the process wrote the file after the last failed write and the last change another process
  made to it, and can read it: a stop that is in the memory alone, or that another process has
  dropped from the file, is lost with the process.
\<close>

theorem kill_switch_holds:
  assumes "set_kill_switch E key True (mem, f) = (Inr (), st)" and "distinct (map fst mem)"
    and "undisturbed key (write_fails E = None) ops" and "concerns key workspace_id agent_id gateway_id"
  shows "\<exists>d. assert_not_killed E' tenant_id workspace_id agent_id gateway_id trace_id (fold kill_step ops st) = Inl d \<and> kd_blocked d"
proof -
  have "held key (write_fails E = None) st"
    using assms(1,2) write_held [of "AList.update key True mem" key E f]
    by (auto simp: set_kill_switch_def Let_def distinct_update update_conv' split: sum.splits)
  from history_held [OF this assms(3)] have "is_kill_active E' key (fold kill_step ops st)"
    by (auto simp: held_def is_kill_active_def split: prod.splits)
  with assms(4) show ?thesis
    by (auto simp: concerns_def assert_not_killed_def evaluate_kill_switch_def Let_def)
qed

theorem kill_switch_holds_witness:
  "\<exists>d. assert_not_killed kill_allow '''' ''w'' '''' ''g'' ''''
     (fold kill_step [OpSetSwitch (kill_allow\<lparr>write_fails := Some BrokenFile\<rparr>) ''x'' True, OpOtherProcess MissingFile,
        OpClearSwitch kill_allow ''x'', OpRestart kill_allow]
     (snd (set_kill_switch kill_allow ''gateway:g'' True ([], MissingFile)))) = Inl d \<and> kd_blocked d"
proof -
  have strip: "strip ''set_kill_switch'' = ''set_kill_switch''" "strip ''clear_kill_switch'' = ''clear_kill_switch''"
    by (simp_all add: strip_def py_space_def)
  then have "set_kill_switch kill_allow ''gateway:g'' True ([], MissingFile) = (Inr (), snd (set_kill_switch kill_allow ''gateway:g'' True ([], MissingFile)))"
    by (simp add: set_kill_switch_def kill_allow_gate Let_def)
  from kill_switch_holds [OF this, of "[OpSetSwitch (kill_allow\<lparr>write_fails := Some BrokenFile\<rparr>) ''x'' True, OpOtherProcess MissingFile,
      OpClearSwitch kill_allow ''x'', OpRestart kill_allow]" "''w''" "''''" "''g''" kill_allow "''''" "''''"]
  show ?thesis by (simp add: concerns_def gateway_kill_prefix_def file_rewritten_def kill_allow_gate strip)
qed

text \<open>
  C36. A stop set in one process is lost to the others as soon as another process changes any
  switch of its own: that process writes the file from its own memory, so a process that has
  no entry for the first switch no longer sees it, although nobody cleared it.
\<close>

theorem kill_switch_lost_across_processes:
  assumes "set_kill_switch E other active (mem, f) = (Inr (), mem', f')" and "write_fails E = None"
    and "map_of mem key = None" and "key \<noteq> other" and "map_of reader key = None" and "resolvers E' = []"
  shows "\<not> is_kill_active E' key (reader, f')"
proof -
  have f': "f' = JsonFile (PDict (sort_key fst (map (\<lambda>(k, v). (k, PBool v)) (filter snd (AList.update other active mem)))))"
    using assms(1,2) by (auto simp: set_kill_switch_def write_kill_switches_to_file_def Let_def split: sum.splits)
  have "key \<notin> fst ` set (AList.update other active mem)"
    using assms(3,4) by (metis map_of_eq_None_iff update_conv' fun_upd_other)
  then have "map_of (rev (map (\<lambda>(k, v). (k, truthy v)) (sort_key fst (map (\<lambda>(k, v). (k, PBool v)) (filter snd (AList.update other active mem)))))) key = None"
    by (force simp: map_of_eq_None_iff)
  then have "map_of (reload_kill_switches E' f') key = None"
    by (simp add: f' reload_kill_switches_def read_kill_switches_from_file_def map_of_fold_update)
  with assms(5,6) show ?thesis by (simp add: is_kill_active_def)
qed

theorem kill_switch_lost_witness:
  "let f1 = snd (snd (set_kill_switch kill_allow ''agent:a'' True ([], MissingFile)));
       f2 = snd (snd (set_kill_switch kill_allow ''agent:b'' True ([], f1)))
   in is_kill_active kill_allow ''agent:a'' ([], f1) \<and> \<not> is_kill_active kill_allow ''agent:a'' ([], f2)"
proof -
  have g: "strip ''set_kill_switch'' = ''set_kill_switch''" by (simp add: strip_def py_space_def)
  define f1 where "f1 = snd (snd (set_kill_switch kill_allow ''agent:a'' True ([], MissingFile)))"
  have f1: "f1 = JsonFile (PDict [(''agent:a'', PBool True)])"
    by (simp add: f1_def set_kill_switch_def kill_allow_gate [OF g] write_kill_switches_to_file_def Let_def)
  have "is_kill_active kill_allow ''agent:a'' ([], f1)"
    by (simp add: f1 is_kill_active_def reload_kill_switches_def read_kill_switches_from_file_def)
  moreover have "set_kill_switch kill_allow ''agent:b'' True ([], f1) =
      (Inr (), [(''agent:b'', True)], snd (snd (set_kill_switch kill_allow ''agent:b'' True ([], f1))))"
    by (simp add: set_kill_switch_def kill_allow_gate [OF g] Let_def)
  from kill_switch_lost_across_processes [OF this, of "''agent:a''" "[]" kill_allow]
  have "\<not> is_kill_active kill_allow ''agent:a'' ([], snd (snd (set_kill_switch kill_allow ''agent:b'' True ([], f1))))"
    by simp
  ultimately show ?thesis by (simp add: f1_def Let_def)
qed

end
