(* ===== verification/Scheduler.thy ===== *)
theory Scheduler
  imports Kernel_Gate Tables
begin

text \<open>
  The wake requests of the background scheduler: the table \<open>agent_scheduler_wake_requests\<close> with
  its functions in \<open>control_plane_repository.py\<close>, and the service \<open>bounded_scheduler_service.py\<close>
  that proposes, claims, finishes and retries them within quiet hours, rates and device limits.
  Moments are microseconds. The pool sets no codec for \<open>jsonb\<close>, so a JSON column is written from
  a dictionary but read back as text.
\<close>

subsection \<open>Data\<close>

record wake_row =
  wk_id :: string
  wk_tenant :: string
  wk_workspace :: string
  wk_master_install :: "string option"
  wk_trigger_kind :: string
  wk_source :: string
  wk_requested_by :: string
  wk_reason :: string
  wk_summary :: string
  wk_payload :: pydict
  wk_policy :: pydict
  wk_approval_required :: bool
  wk_status :: string
  wk_denial_reason :: "string option"
  wk_due_at :: int
  wk_claimed_at :: "int option"
  wk_executed_at :: "int option"
  wk_metadata :: pydict
  wk_created_at :: int
  wk_updated_at :: int

type_synonym wake_table = "wake_row list"

record scheduler_policy =
  sp_quiet_start :: int
  sp_quiet_end :: int
  sp_max_event_triggers :: int
  sp_max_self_proposed :: int
  sp_max_runtime :: int
  sp_minimum_battery :: int
  sp_require_network :: bool
  sp_require_owner_approval :: bool
  sp_plan_tier :: string

record wake_retry_policy =
  wr_max_retries :: int
  wr_base_delay :: int
  wr_max_delay :: int
  wr_multiplier :: int

text \<open>
  \<open>sched_repo\<close>: the kernel and the faults of the statements; \<open>sched_scoped\<close>: the outcome of
  \<open>_scoped_connection\<close>; \<open>sched_clock k\<close>: what the \<open>k\<close>-th reading of the clock in an operation
  gives; \<open>utc_offset\<close>: the offset of local time at a moment; \<open>load_scope\<close>: the workspace and its
  master install; \<open>plan_defaults\<close>: \<open>entitlements_service.scheduler_policy_defaults\<close>;
  \<open>jsonb_text\<close>: the text in which the database gives a JSON column back.
\<close>

record sched_env =
  sched_repo :: repo_env
  sched_scoped :: "bool res"
  sched_clock :: "nat \<Rightarrow> int"
  utc_offset :: "int \<Rightarrow> int"
  load_scope :: "string \<Rightarrow> string \<Rightarrow> (pyval \<times> pyval) res"
  plan_defaults :: "pyval \<Rightarrow> pyval \<Rightarrow> pydict"
  new_wake_id :: string
  jsonb_text :: "pydict \<Rightarrow> string"

subsection \<open>Policy\<close>

definition sched_coerce_int :: "pyval \<Rightarrow> int \<Rightarrow> int \<Rightarrow> int \<Rightarrow> int" where
  "sched_coerce_int v dflt minimum maximum = max minimum (min maximum (safe_int v dflt))"

fun coerce_bool :: "pyval \<Rightarrow> bool \<Rightarrow> bool" where
  "coerce_bool (PBool b) dflt = b"
| "coerce_bool v dflt = (let token = lower (tok v) in
     if token \<in> {''1'', ''true'', ''yes'', ''on''} then True
     else if token \<in> {''0'', ''false'', ''no'', ''off''} then False
     else dflt)"

text \<open>\<open>_workspace_scheduler_metadata\<close> and \<open>_install_scheduler_metadata\<close> are the same code.\<close>

definition scheduler_metadata :: "pyval \<Rightarrow> pydict" where
  "scheduler_metadata row = (let metadata = dict_of (dget (dict_of row) ''metadata'') in
     dmerge (dmerge (dmerge [] (dict_of (dget metadata ''scheduler''))) (dict_of (dget metadata ''scheduler_policy'')))
       (dict_of (dget metadata ''plan_limits'')))"

definition resolve_scheduler_policy :: "pydict \<Rightarrow> pyval \<Rightarrow> pyval \<Rightarrow> scheduler_policy res" where
  "resolve_scheduler_policy defaults workspace install =
     (let w = scheduler_metadata workspace; i = scheduler_metadata install;
          quiet = dmerge (dmerge [] (dict_of (dget w ''quiet_hours''))) (dict_of (dget i ''quiet_hours''));
          either = (\<lambda>k. if map_of i k \<noteq> None then dget i k else dget w k);
          num = (\<lambda>k d. py_int (por (dget defaults k) (PInt d))) in
      case num ''max_event_triggers_per_hour'' 4 of Inl e \<Rightarrow> Inl e | Inr triggers \<Rightarrow>
      case num ''max_self_proposed_per_hour'' 2 of Inl e \<Rightarrow> Inl e | Inr proposed \<Rightarrow>
      case num ''max_runtime_seconds'' 20 of Inl e \<Rightarrow> Inl e | Inr runtime \<Rightarrow>
      Inr \<lparr>sp_quiet_start = sched_coerce_int (dget quiet ''start'') 23 0 23,
        sp_quiet_end = sched_coerce_int (dget quiet ''end'') 7 0 23,
        sp_max_event_triggers = sched_coerce_int (por (dget i ''max_event_triggers_per_hour'') (dget w ''max_event_triggers_per_hour'')) triggers 1 100,
        sp_max_self_proposed = sched_coerce_int (por (dget i ''max_self_proposed_per_hour'') (dget w ''max_self_proposed_per_hour'')) proposed 1 100,
        sp_max_runtime = sched_coerce_int (por (dget i ''max_runtime_seconds'')
          (por (dget w ''max_customer_runtime_seconds'') (dget w ''max_runtime_seconds''))) runtime 5 300,
        sp_minimum_battery = sched_coerce_int (por (dget i ''minimum_battery_percent'') (dget w ''minimum_battery_percent'')) 20 0 100,
        sp_require_network = coerce_bool (either ''require_network_online'') False,
        sp_require_owner_approval = coerce_bool (either ''require_owner_approval_for_privileged_wakeups'') True,
        sp_plan_tier = sor (strip (py_str_of (por (dget defaults ''plan_tier'') (PStr ''free'')))) ''free''\<rparr>)"

definition policy_dict :: "scheduler_policy \<Rightarrow> pydict" where
  "policy_dict p =
     [(''quiet_hours_start'', PInt (sp_quiet_start p)),
      (''quiet_hours_end'', PInt (sp_quiet_end p)),
      (''max_event_triggers_per_hour'', PInt (sp_max_event_triggers p)),
      (''max_self_proposed_per_hour'', PInt (sp_max_self_proposed p)),
      (''max_runtime_seconds'', PInt (sp_max_runtime p)),
      (''minimum_battery_percent'', PInt (sp_minimum_battery p)),
      (''require_network_online'', PBool (sp_require_network p)),
      (''require_owner_approval_for_privileged_wakeups'', PBool (sp_require_owner_approval p)),
      (''plan_tier'', PStr (sp_plan_tier p))]"

definition load_scheduler_scope :: "sched_env \<Rightarrow> string \<Rightarrow> string \<Rightarrow> (pyval \<times> pyval \<times> scheduler_policy) res" where
  "load_scheduler_scope S tenant workspace =
     (case load_scope S tenant workspace of
        Inl e \<Rightarrow> Inl e
      | Inr (w, i) \<Rightarrow> (case resolve_scheduler_policy (plan_defaults S w i) w i of
          Inl e \<Rightarrow> Inl e | Inr p \<Rightarrow> Inr (w, i, p)))"

subsection \<open>Quiet hours and device limits\<close>

definition hour_us :: int where "hour_us = 3600000000"
definition day_us :: int where "day_us = 86400000000"

definition local_hour :: "sched_env \<Rightarrow> int \<Rightarrow> int" where
  "local_hour S t = (t + utc_offset S t) div hour_us mod 24"

definition is_within_quiet_hours :: "sched_env \<Rightarrow> scheduler_policy \<Rightarrow> int \<Rightarrow> bool" where
  "is_within_quiet_hours S p t =
     (let hour = local_hour S t; start = sp_quiet_start p; stop = sp_quiet_end p in
      if start = stop then False
      else if start < stop then start \<le> hour \<and> hour < stop
      else start \<le> hour \<or> hour < stop)"

text \<open>The candidate is the end hour on the day of the local moment, or of the next day if that has passed.\<close>

definition next_allowed_wakeup_time :: "sched_env \<Rightarrow> scheduler_policy \<Rightarrow> int \<Rightarrow> int" where
  "next_allowed_wakeup_time S p t =
     (if \<not> is_within_quiet_hours S p t then t
      else
        let local_now = t + utc_offset S t;
            candidate = local_now div day_us * day_us + sp_quiet_end p * hour_us;
            candidate' = (if candidate \<le> local_now then candidate + day_us else candidate)
        in candidate' - utc_offset S t)"

text \<open>\<open>_apply_policy_to_due_at\<close>; the clock is read at the two delays.\<close>

definition apply_policy_to_due_at :: "sched_env \<Rightarrow> scheduler_policy \<Rightarrow> pydict \<Rightarrow> int \<Rightarrow> nat \<Rightarrow> int \<times> string option" where
  "apply_policy_to_due_at S p device due_at k =
     (let (d1, r1) = (if is_within_quiet_hours S p due_at then (next_allowed_wakeup_time S p due_at, Some ''quiet_hours'') else (due_at, None));
          battery = (case dget device ''battery_percent'' of PNone \<Rightarrow> None
              | v \<Rightarrow> (case py_int v of Inr i \<Rightarrow> Some i | Inl _ \<Rightarrow> None));
          low = (case battery of None \<Rightarrow> False | Some i \<Rightarrow> i < sp_minimum_battery p);
          (d2, r2) = (if low then (max d1 (sched_clock S k + 30 * 60 * 1000000), coalesce r1 (Some ''battery_low'')) else (d1, r1));
          offline = (sp_require_network p \<and> map_of device ''network_online'' \<noteq> None \<and> \<not> coerce_bool (dget device ''network_online'') True)
      in if offline then (max d2 (sched_clock S (k + 1) + 15 * 60 * 1000000), coalesce r2 (Some ''network_offline'')) else (d2, r2))"

definition device_state :: "pydict \<Rightarrow> pyval \<Rightarrow> pyval \<Rightarrow> pydict" where
  "device_state policy_context workspace install =
     dmerge (dmerge (dmerge [] (dict_of (dget (scheduler_metadata workspace) ''device_state'')))
       (dict_of (dget (scheduler_metadata install) ''device_state'')))
       (dict_of (dget policy_context ''device_state''))"

subsection \<open>Retries\<close>

definition default_wake_retry :: wake_retry_policy where
  "default_wake_retry = \<lparr>wr_max_retries = 5, wr_base_delay = 30, wr_max_delay = 3600, wr_multiplier = 2\<rparr>"

definition compute_retry_delay :: "int \<Rightarrow> wake_retry_policy \<Rightarrow> int" where
  "compute_retry_delay attempt p =
     (if attempt < 1 then wr_base_delay p else min (wr_base_delay p * wr_multiplier p ^ nat attempt) (wr_max_delay p))"

definition should_retry :: "int \<Rightarrow> wake_retry_policy \<Rightarrow> bool" where
  "should_retry attempt p = (attempt < wr_max_retries p)"

definition build_retry_metadata :: "sched_env \<Rightarrow> int \<Rightarrow> wake_retry_policy \<Rightarrow> string \<Rightarrow> nat \<Rightarrow> pydict" where
  "build_retry_metadata S attempt p last_error k =
     [(''retry_attempt'', PInt attempt),
      (''retry_max'', PInt (wr_max_retries p)),
      (''retry_delay_seconds'', PInt (compute_retry_delay attempt p)),
      (''retry_last_error'', PStr (take 500 last_error)),
      (''retry_next_at'', PStr (zulu (sched_clock S k + sec (compute_retry_delay attempt p))))]"

subsection \<open>The repository's gate\<close>

definition scheduler_policy_value :: "pydict option \<Rightarrow> string \<Rightarrow> pyval \<Rightarrow> pyval" where
  "scheduler_policy_value policy k dflt = (case policy of None \<Rightarrow> dflt
     | Some p \<Rightarrow> (case map_of p k of None \<Rightarrow> dflt | Some v \<Rightarrow> v))"

definition scheduler_wake_operation :: "string \<Rightarrow> string" where
  "scheduler_wake_operation trigger_kind = (let token = lower (strip trigger_kind) in
     if token = ''event_trigger'' then ''event_trigger''
     else if token = ''self_proposed'' then ''self_proposed_trigger''
     else ''wake_decision'')"

definition scheduler_wake_next_actions :: "string \<Rightarrow> string list option" where
  "scheduler_wake_next_actions operation = map_of
     [(''event_trigger'', [''schedule_event_trigger'']),
      (''self_proposed_trigger'', [''schedule_self_proposed_trigger'']),
      (''wake_decision'', [''trigger_wakeup'']),
      (''claim_wake_requests'', [''claim_due_wake_requests'']),
      (''schedule_retry'', [''schedule_retry'']),
      (''failure_decision'', [''record_scheduler_failure'']),
      (''finalize_wake_requests'', [''finalize_wake_requests''])] operation"

text \<open>Keyword arguments of \<open>_enforce_scheduler_wake_repository_decision\<close>, with their defaults.\<close>

record wake_request =
  wq_operation :: string
  wq_tenant :: string
  wq_workspace :: string
  wq_wake_id :: string
  wq_trigger_kind :: string
  wq_status :: string
  wq_policy :: "pydict option"
  wq_payload :: pydict
  wq_candidate_count :: int
  wq_attempt :: int
  wq_owner_approval :: bool

definition wake_defaults :: "string \<Rightarrow> string \<Rightarrow> string \<Rightarrow> string \<Rightarrow> wake_request" where
  "wake_defaults operation tenant_id workspace_id wake_id = \<lparr>wq_operation = operation, wq_tenant = tenant_id,
     wq_workspace = workspace_id, wq_wake_id = wake_id, wq_trigger_kind = [], wq_status = [], wq_policy = None,
     wq_payload = [], wq_candidate_count = 0, wq_attempt = 0, wq_owner_approval = True\<rparr>"

text \<open>\<open>utc_hour\<close> is \<open>datetime.now(timezone.utc).hour\<close>.\<close>

definition utc_hour :: "int \<Rightarrow> int" where
  "utc_hour t = t div hour_us mod 24"

definition int_entry :: "pyval \<Rightarrow> int \<Rightarrow> int res" where
  "int_entry v d = py_int (por v (PInt d))"

text \<open>The entries \<open>int(value or default)\<close> of a request, in order; the first that cannot be read raises.\<close>

fun int_entries :: "(string \<times> pyval \<times> int) list \<Rightarrow> pydict res" where
  "int_entries [] = Inr []"
| "int_entries ((k, v, d) # es) = (case int_entry v d of
     Inl e \<Rightarrow> Inl e
   | Inr i \<Rightarrow> (case int_entries es of Inl e \<Rightarrow> Inl e | Inr is \<Rightarrow> Inr ((k, PInt i) # is)))"

definition wake_kernel_request :: "int \<Rightarrow> wake_request \<Rightarrow> pydict res" where
  "wake_kernel_request t r =
     (let payload = wq_payload r; pol = scheduler_policy_value (wq_policy r);
          trigger = (\<lambda>d. py_str_of (por (PStr (wq_trigger_kind r)) (por (dget payload ''trigger_kind'') (PStr d)))) in
      case int_entries
        [(''priority'', dget payload ''priority'', 0),
         (''quiet_hours_start'', pol ''quiet_hours_start'' (PInt 23), 23),
         (''quiet_hours_end'', pol ''quiet_hours_end'' (PInt 7), 7),
         (''max_event_triggers_per_hour'', pol ''max_event_triggers_per_hour'' (PInt 4), 4),
         (''max_self_proposed_per_hour'', pol ''max_self_proposed_per_hour'' (PInt 2), 2),
         (''max_runtime_seconds'', pol ''max_runtime_seconds'' (PInt 20), 20),
         (''battery_percent'', dget payload ''battery_percent'', 100),
         (''minimum_battery_percent'', pol ''minimum_battery_percent'' (PInt 20), 20)] of
        Inl e \<Rightarrow> Inl e
      | Inr ints \<Rightarrow>
      Inr [(''operation'', PStr (wq_operation r)),
           (''tenant_id'', PStr (strip (wq_tenant r))),
           (''workspace_id'', PStr (strip (wq_workspace r))),
           (''trigger_id'', PStr (strip (py_str_of (por (PStr (wq_wake_id r)) (por (dget payload ''id'')
              (por (dget payload ''event_id'') (por (PStr (wq_trigger_kind r)) (PStr (wq_operation r))))))))),
           (''trigger_kind'', PStr (strip (trigger []))),
           (''wake_mode'', PStr (sor (strip (trigger ''event'')) ''event'')),
           (''status'', PStr (strip (py_str_of (por (PStr (wq_status r)) (por (dget payload ''status'') (PStr [])))))),
           (''candidate_count'', PInt (wq_candidate_count r)),
           (''attempt'', PInt (wq_attempt r)),
           (''priority'', dget ints ''priority''),
           (''scheduler_enabled'', PBool (truthy (pol ''scheduler_enabled'' (PBool True)))),
           (''quiet_hours_start'', dget ints ''quiet_hours_start''),
           (''quiet_hours_end'', dget ints ''quiet_hours_end''),
           (''current_hour'', PInt (utc_hour t)),
           (''quiet_hours_override'', PBool (truthy (dget payload ''quiet_hours_override''))),
           (''max_event_triggers_per_hour'', dget ints ''max_event_triggers_per_hour''),
           (''max_self_proposed_per_hour'', dget ints ''max_self_proposed_per_hour''),
           (''max_runtime_seconds'', dget ints ''max_runtime_seconds''),
           (''battery_percent'', dget ints ''battery_percent''),
           (''minimum_battery_percent'', dget ints ''minimum_battery_percent''),
           (''network_online'', PBool (case map_of payload ''network_online'' of None \<Rightarrow> True | Some v \<Rightarrow> truthy v)),
           (''require_network_online'', PBool (truthy (pol ''require_network_online'' (PBool False)))),
           (''require_owner_approval_for_privileged_wakeups'',
              PBool (truthy (pol ''require_owner_approval_for_privileged_wakeups'' (PBool True)))),
           (''owner_approval_provided'', PBool (wq_owner_approval r)),
           (''plan_tier'', PStr (py_str_of (por (pol ''plan_tier'' (PStr ''default'')) (PStr ''default''))))])"

definition enforce_scheduler_wake_repository_decision :: "sched_env \<Rightarrow> nat \<Rightarrow> wake_request \<Rightarrow> pydict res" where
  "enforce_scheduler_wake_repository_decision S k r =
     (case wake_kernel_request (sched_clock S k) r of
        Inl e \<Rightarrow> Inl e
      | Inr request \<Rightarrow>
          (case run_runtime_kernel_enforced (sched_repo S) ''session-scheduler-decision'' request of
             Inl e \<Rightarrow> Inl e
           | Inr decision \<Rightarrow>
               check_next_action ''scheduler_wake_repository'' ''session-scheduler-decision''
                 scheduler_wake_next_actions (wq_operation r) decision))"

subsection \<open>The table of wake requests\<close>

text \<open>
  An operation takes the table and gives its result and the table it leaves. Clock readings are
  numbered in the order of the code; \<open>fault\<close> of the environment numbers the statements.
\<close>

definition scheduler_scope :: "string \<Rightarrow> string \<Rightarrow> (string \<times> string) res" where
  "scheduler_scope tenant_id workspace_id =
     (if strip tenant_id = [] then Inl (ValueError ''tenant_id is required for scoped control-plane access.'')
      else if strip workspace_id = [] then Inl (ValueError ''workspace_id is required for scoped control-plane access.'')
      else Inr (strip tenant_id, strip workspace_id))"

text \<open>\<open>async with _scoped_connection\<close> and one statement in it: \<open>Inr False\<close> is a missing pool.\<close>

definition wake_statement :: "sched_env \<Rightarrow> nat \<Rightarrow> bool res" where
  "wake_statement S j = (case sched_scoped S of
     Inl e \<Rightarrow> Inl e
   | Inr False \<Rightarrow> Inr False
   | Inr True \<Rightarrow> (case fault (sched_repo S) j of Some m \<Rightarrow> Inl (DriverError m) | None \<Rightarrow> Inr True))"

record new_wake =
  nw_master_install :: "string option"
  nw_trigger_kind :: string
  nw_source :: string
  nw_requested_by :: string
  nw_reason :: string
  nw_summary :: string
  nw_payload :: "pydict option"
  nw_policy :: "pydict option"
  nw_approval_required :: bool
  nw_status :: string
  nw_denial_reason :: "string option"
  nw_due_at :: int
  nw_metadata :: "pydict option"

text \<open>
  Every caller leaves \<open>wake_id\<close>, \<open>claimed_at\<close> and \<open>executed_at\<close> to their defaults. A primary key
  that exists is the driver's error, as is a fault at the read after the insert, which rolls back.
\<close>

definition append_agent_scheduler_wake_request ::
    "sched_env \<Rightarrow> nat \<Rightarrow> string \<Rightarrow> string \<Rightarrow> new_wake \<Rightarrow> wake_table \<Rightarrow> wake_row option res \<times> wake_table" where
  "append_agent_scheduler_wake_request S k tenant_id workspace_id w tab =
     (case scheduler_scope tenant_id workspace_id of
        Inl e \<Rightarrow> (Inl e, tab)
      | Inr (tenant, workspace) \<Rightarrow>
        (let kind = lower (strip (nw_trigger_kind w)); source = lower (strip (nw_source w));
             status = sor (lower (strip (sor (nw_status w) ''pending''))) ''pending'';
             wake_id = strip (new_wake_id S); t = sched_clock S k in
         if kind = [] \<or> source = [] then (Inr None, tab)
         else case enforce_scheduler_wake_repository_decision S (k + 1)
             ((wake_defaults (scheduler_wake_operation kind) tenant workspace wake_id)
                \<lparr>wq_trigger_kind := kind, wq_status := status, wq_policy := nw_policy w,
                 wq_payload := (case nw_payload w of None \<Rightarrow> [] | Some d \<Rightarrow> d),
                 wq_owner_approval := \<not> nw_approval_required w \<or> lower (strip (nw_status w)) \<in> {''denied'', ''rejected''}\<rparr>) of
           Inl e \<Rightarrow> (Inl e, tab)
         | Inr _ \<Rightarrow>
           (case wake_statement S 1 of
              Inl e \<Rightarrow> (Inl e, tab)
            | Inr False \<Rightarrow> (Inr None, tab)
            | Inr True \<Rightarrow>
              if row_of wk_id wake_id tab \<noteq> None then (Inl (DriverError (dup_error (sched_repo S))), tab)
              else
                (let row = \<lparr>wk_id = wake_id, wk_tenant = tenant, wk_workspace = workspace,
                   wk_master_install = snone (opt_tok (nw_master_install w)),
                   wk_trigger_kind = kind, wk_source = source,
                   wk_requested_by = sor (lower (strip (sor (nw_requested_by w) ''system''))) ''system'',
                   wk_reason = nw_reason w, wk_summary = nw_summary w,
                   wk_payload = (case nw_payload w of None \<Rightarrow> [] | Some d \<Rightarrow> d),
                   wk_policy = (case nw_policy w of None \<Rightarrow> [] | Some d \<Rightarrow> d),
                   wk_approval_required = nw_approval_required w, wk_status = status,
                   wk_denial_reason = snone (opt_tok (nw_denial_reason w)), wk_due_at = nw_due_at w,
                   wk_claimed_at = None, wk_executed_at = None,
                   wk_metadata = (case nw_metadata w of None \<Rightarrow> [] | Some d \<Rightarrow> d), wk_created_at = t, wk_updated_at = t\<rparr>
                 in case fault (sched_repo S) 2 of
                      Some m \<Rightarrow> (Inl (DriverError m), tab)
                    | None \<Rightarrow> (Inr (Some row), tab @ [row])))))"

definition in_scope :: "string \<Rightarrow> string \<Rightarrow> wake_row \<Rightarrow> bool" where
  "in_scope tenant workspace r = (wk_tenant r = tenant \<and> wk_workspace r = workspace)"

definition by_due :: "wake_table \<Rightarrow> wake_table" where
  "by_due rows = sort_key wk_due_at (sort_key wk_created_at rows)"

definition list_agent_scheduler_wake_requests ::
    "sched_env \<Rightarrow> string \<Rightarrow> string \<Rightarrow> string option \<Rightarrow> string option \<Rightarrow> int option \<Rightarrow> int \<Rightarrow> wake_table \<Rightarrow> wake_row list res" where
  "list_agent_scheduler_wake_requests S tenant_id workspace_id status trigger_kind due_before limit tab =
     (case scheduler_scope tenant_id workspace_id of
        Inl e \<Rightarrow> Inl e
      | Inr (tenant, workspace) \<Rightarrow>
        (case wake_statement S 1 of
           Inl e \<Rightarrow> Inl e
         | Inr False \<Rightarrow> Inr []
         | Inr True \<Rightarrow>
             Inr (limit_rows (max 1 (if limit = 0 then 100 else limit)) (by_due (filter (\<lambda>r. in_scope tenant workspace r \<and>
               (case status of None \<Rightarrow> True | Some s \<Rightarrow> s = [] \<or> wk_status r = lower (strip s)) \<and>
               (case trigger_kind of None \<Rightarrow> True | Some s \<Rightarrow> s = [] \<or> wk_trigger_kind r = lower (strip s)) \<and>
               (case due_before of None \<Rightarrow> True | Some t \<Rightarrow> wk_due_at r \<le> t)) tab)))))"

definition count_agent_scheduler_wake_requests_since ::
    "sched_env \<Rightarrow> string \<Rightarrow> string \<Rightarrow> int \<Rightarrow> string option \<Rightarrow> wake_table \<Rightarrow> int res" where
  "count_agent_scheduler_wake_requests_since S tenant_id workspace_id since trigger_kind tab =
     (case scheduler_scope tenant_id workspace_id of
        Inl e \<Rightarrow> Inl e
      | Inr (tenant, workspace) \<Rightarrow>
        (case wake_statement S 1 of
           Inl e \<Rightarrow> Inl e
         | Inr False \<Rightarrow> Inr 0
         | Inr True \<Rightarrow>
             Inr (int (length (filter (\<lambda>r. in_scope tenant workspace r \<and> since \<le> wk_created_at r \<and> wk_status r \<noteq> ''denied'' \<and>
               (case trigger_kind of None \<Rightarrow> True | Some s \<Rightarrow> s = [] \<or> wk_trigger_kind r = lower (strip s))) tab)))))"

definition claimable :: "string \<Rightarrow> string \<Rightarrow> int \<Rightarrow> wake_row \<Rightarrow> bool" where
  "claimable tenant workspace due_before r =
     (in_scope tenant workspace r \<and> wk_status r = ''pending'' \<and> wk_due_at r \<le> due_before)"

definition claimed_wake :: "int \<Rightarrow> wake_row \<Rightarrow> wake_row" where
  "claimed_wake t r = r\<lparr>wk_status := ''claimed'', wk_claimed_at := Some t, wk_updated_at := t\<rparr>"

text \<open>The rows come back in the order of the table; the code promises none.\<close>

definition claim_due_agent_scheduler_wake_requests ::
    "sched_env \<Rightarrow> nat \<Rightarrow> string \<Rightarrow> string \<Rightarrow> int \<Rightarrow> int \<Rightarrow> wake_table \<Rightarrow> wake_row list res \<times> wake_table" where
  "claim_due_agent_scheduler_wake_requests S k tenant_id workspace_id due_before limit tab =
     (case scheduler_scope tenant_id workspace_id of
        Inl e \<Rightarrow> (Inl e, tab)
      | Inr (tenant, workspace) \<Rightarrow>
        (let n = max 1 (if limit = 0 then 10 else limit); t = sched_clock S k in
         case enforce_scheduler_wake_repository_decision S (k + 1)
             ((wake_defaults ''claim_wake_requests'' tenant workspace ''claim_due_wake_requests'')\<lparr>wq_candidate_count := n\<rparr>) of
           Inl e \<Rightarrow> (Inl e, tab)
         | Inr _ \<Rightarrow>
           (case wake_statement S 1 of
              Inl e \<Rightarrow> (Inl e, tab)
            | Inr False \<Rightarrow> (Inr [], tab)
            | Inr True \<Rightarrow>
              (let candidates = map wk_id (limit_rows n (by_due (filter (claimable tenant workspace due_before) tab)));
                   chosen = (\<lambda>r. wk_id r \<in> set candidates)
               in (Inr (map (claimed_wake t) (filter chosen tab)), upd_rows chosen (claimed_wake t) tab)))))"

text \<open>
  The metadata column comes back as text, so \<open>_coerce_dict\<close> of it is empty and the patch replaces
  what was stored; the same holds for the policy and the payload the gate is told.
\<close>

definition stored_json :: "sched_env \<Rightarrow> pydict \<Rightarrow> pyval" where
  "stored_json S d = PStr (jsonb_text S d)"

definition wake_update_operation :: "string \<Rightarrow> pydict \<Rightarrow> string" where
  "wake_update_operation status retry_meta =
     (if status \<in> {''pending'', ''retry_scheduled''} \<and> retry_meta \<noteq> [] then ''schedule_retry''
      else if status = ''failed_permanent'' then ''failure_decision''
      else ''finalize_wake_requests'')"

definition update_agent_scheduler_wake_request_status ::
    "sched_env \<Rightarrow> nat \<Rightarrow> string \<Rightarrow> string \<Rightarrow> string \<Rightarrow> string \<Rightarrow> string option \<Rightarrow> pydict option \<Rightarrow> wake_table
     \<Rightarrow> wake_row option res \<times> wake_table" where
  "update_agent_scheduler_wake_request_status S k tenant_id workspace_id wake_id status denial_reason metadata_patch tab =
     (case scheduler_scope tenant_id workspace_id of
        Inl e \<Rightarrow> (Inl e, tab)
      | Inr (tenant, workspace) \<Rightarrow>
        if strip wake_id = [] then (Inr None, tab)
        else let t = sched_clock S k in
        (case wake_statement S 1 of
           Inl e \<Rightarrow> (Inl e, tab)
         | Inr False \<Rightarrow> (Inr None, tab)
         | Inr True \<Rightarrow>
           (case row_of wk_id (strip wake_id) tab of
              None \<Rightarrow> (Inr None, tab)
            | Some existing \<Rightarrow>
              (let next_metadata = dmerge (dict_of (stored_json S (wk_metadata existing))) (case metadata_patch of None \<Rightarrow> [] | Some d \<Rightarrow> d);
                   next_status = sor (lower (strip status)) ''pending'';
                   retry_meta = dict_of (dget next_metadata ''retry'') in
               case py_int (por (dget retry_meta ''retry_attempt'') (por (dget retry_meta ''attempt'') (PInt 0))) of
                 Inl e \<Rightarrow> (Inl e, tab)
               | Inr retry_attempt \<Rightarrow>
                 (case enforce_scheduler_wake_repository_decision S (k + 1)
                     ((wake_defaults (wake_update_operation next_status retry_meta) tenant workspace (strip wake_id))
                        \<lparr>wq_trigger_kind := strip (wk_trigger_kind existing), wq_status := next_status,
                         wq_policy := Some (dict_of (stored_json S (wk_policy existing))),
                         wq_payload := dict_of (stored_json S (wk_payload existing)),
                         wq_candidate_count := 1, wq_attempt := retry_attempt\<rparr>) of
                    Inl e \<Rightarrow> (Inl e, tab)
                  | Inr _ \<Rightarrow>
                    (let upd = (\<lambda>r. r\<lparr>wk_status := next_status, wk_denial_reason := snone (opt_tok denial_reason),
                           wk_executed_at := (if next_status \<in> {''executed'', ''completed'', ''failed'', ''skipped'', ''denied''}
                              then Some t else wk_executed_at existing),
                           wk_metadata := next_metadata, wk_updated_at := t\<rparr>);
                         tab' = upd_rows (\<lambda>r. wk_id r = strip wake_id \<and> in_scope tenant workspace r) upd tab in
                     (case fault (sched_repo S) 2 of
                        Some m \<Rightarrow> (Inl (DriverError m), tab)
                      | None \<Rightarrow>
                        (case fault (sched_repo S) 3 of
                           Some m \<Rightarrow> (Inl (DriverError m), tab)
                         | None \<Rightarrow> (Inr (row_of wk_id (strip wake_id) tab'), tab')))))))))"

subsection \<open>The service\<close>

record scheduler_request =
  sq_operation :: string
  sq_trigger_id :: string
  sq_trigger_kind :: string
  sq_wake_mode :: string
  sq_priority :: int
  sq_attempt :: int
  sq_max_retries :: int
  sq_base_delay :: int
  sq_max_delay :: int
  sq_status :: string
  sq_candidate_count :: int
  sq_owner_approval :: bool
  sq_payload :: pydict

definition scheduler_defaults :: "string \<Rightarrow> scheduler_request" where
  "scheduler_defaults operation = \<lparr>sq_operation = operation, sq_trigger_id = [], sq_trigger_kind = [], sq_wake_mode = [],
     sq_priority = 0, sq_attempt = 0, sq_max_retries = wr_max_retries default_wake_retry,
     sq_base_delay = wr_base_delay default_wake_retry, sq_max_delay = wr_max_delay default_wake_retry, sq_status = [],
     sq_candidate_count = 0, sq_owner_approval = False, sq_payload = []\<rparr>"

definition session_scheduler_next_actions :: "string \<Rightarrow> string list option" where
  "session_scheduler_next_actions operation = map_of
     [(''event_trigger'', [''schedule_event_trigger'', ''defer_session_scheduler_operation'']),
      (''self_proposed_trigger'', [''schedule_self_proposed_trigger'', ''request_session_scheduler_approval'', ''defer_session_scheduler_operation'']),
      (''wake_decision'', [''trigger_wakeup'', ''request_session_scheduler_approval'', ''defer_session_scheduler_operation'']),
      (''claim_wake_requests'', [''claim_due_wake_requests'']),
      (''finalize_wake_requests'', [''finalize_wake_requests'']),
      (''schedule_retry'', [''schedule_retry'']),
      (''failure_decision'', [''record_scheduler_failure''])] operation"

definition enforce_session_scheduler_decision ::
    "sched_env \<Rightarrow> nat \<Rightarrow> string \<Rightarrow> scheduler_policy \<Rightarrow> scheduler_request \<Rightarrow> pydict res" where
  "enforce_session_scheduler_decision S k workspace_id p r =
     (let device = dict_of (dget (sq_payload r) ''device_state'') in
      case int_entry (dget device ''battery_percent'') 100 of
        Inl e \<Rightarrow> Inl e
      | Inr battery \<Rightarrow>
        (let request =
           [(''operation'', PStr (sq_operation r)),
            (''workspace_id'', PStr (strip workspace_id)),
            (''trigger_id'', PStr (strip (sq_trigger_id r))),
            (''trigger_kind'', PStr (strip (sq_trigger_kind r))),
            (''wake_mode'', PStr (strip (sor (sq_wake_mode r) (sq_trigger_kind r)))),
            (''priority'', PInt (sq_priority r)),
            (''attempt'', PInt (sq_attempt r)),
            (''max_retries'', PInt (sq_max_retries r)),
            (''base_delay_seconds'', PInt (if sq_base_delay r = 0 then 1 else sq_base_delay r)),
            (''max_delay_seconds'', PInt (if sq_max_delay r = 0 then 1 else sq_max_delay r)),
            (''status'', PStr (strip (sq_status r))),
            (''candidate_count'', PInt (sq_candidate_count r)),
            (''scheduler_enabled'', PBool True),
            (''quiet_hours_start'', PInt (sp_quiet_start p)),
            (''quiet_hours_end'', PInt (sp_quiet_end p)),
            (''current_hour'', PInt (utc_hour (sched_clock S k))),
            (''quiet_hours_override'', PBool (truthy (dget (sq_payload r) ''quiet_hours_override''))),
            (''max_event_triggers_per_hour'', PInt (sp_max_event_triggers p)),
            (''max_self_proposed_per_hour'', PInt (sp_max_self_proposed p)),
            (''max_runtime_seconds'', PInt (sp_max_runtime p)),
            (''battery_percent'', PInt battery),
            (''minimum_battery_percent'', PInt (sp_minimum_battery p)),
            (''network_online'', PBool (case map_of device ''network_online'' of None \<Rightarrow> True | Some v \<Rightarrow> truthy v)),
            (''require_network_online'', PBool (sp_require_network p)),
            (''require_owner_approval_for_privileged_wakeups'', PBool (sp_require_owner_approval p)),
            (''owner_approval_provided'', PBool (sq_owner_approval r)),
            (''plan_tier'', PStr (sp_plan_tier p))]
         in case run_runtime_kernel_enforced (sched_repo S) ''session-scheduler-decision'' request of
              Inl e \<Rightarrow> Inl e
            | Inr decision \<Rightarrow>
              (let next_action = tok (dget decision ''next_action'') in
               case session_scheduler_next_actions (sq_operation r) of
                 None \<Rightarrow> Inr decision
               | Some expected \<Rightarrow> if next_action \<notin> set expected
                   then Inl (RuntimeError (''Rust session scheduler returned unexpected next_action for '' @ sq_operation r @ '': ''
                     @ sor next_action ''missing'')) else Inr decision)))"

text \<open>
  \<open>_persist_wakeup\<close>. The activity event it appends afterwards, whose failure is swallowed, is left
  out.
\<close>

definition persist_wakeup ::
    "sched_env \<Rightarrow> nat \<Rightarrow> string \<Rightarrow> string \<Rightarrow> pyval \<Rightarrow> scheduler_policy \<Rightarrow> new_wake \<Rightarrow> wake_table \<Rightarrow> wake_row res \<times> wake_table" where
  "persist_wakeup S k tenant_id workspace_id install p w tab =
     (let payload = (case nw_payload w of None \<Rightarrow> [] | Some d \<Rightarrow> d);
          metadata = (case nw_metadata w of None \<Rightarrow> [] | Some d \<Rightarrow> d);
          kind = nw_trigger_kind w;
          trigger_id = sor (tok (dget metadata ''event_id'')) (sor (tok (dget payload ''run_id''))
            (sor (tok (dget payload ''event_type'')) (strip (sor (nw_summary w) (sor (nw_reason w) kind)))));
          operation = (if strip kind = ''event_trigger'' then ''event_trigger''
            else if strip kind = ''self_proposed'' then ''self_proposed_trigger'' else ''wake_decision'') in
      case int_entry (dget payload ''priority'') 0 of
        Inl e \<Rightarrow> (Inl e, tab)
      | Inr priority \<Rightarrow>
        (case enforce_session_scheduler_decision S k workspace_id p ((scheduler_defaults operation)
            \<lparr>sq_trigger_id := trigger_id, sq_trigger_kind := kind, sq_wake_mode := kind, sq_priority := priority,
             sq_status := nw_status w,
             sq_owner_approval := \<not> nw_approval_required w \<or> coerce_bool (dget metadata ''approval_granted'') False,
             sq_payload := dset ''device_state'' (PDict (dict_of (dget metadata ''device_state''))) payload\<rparr>) of
           Inl e \<Rightarrow> (Inl e, tab)
         | Inr _ \<Rightarrow>
           (case append_agent_scheduler_wake_request S (k + 1) tenant_id workspace_id
               (w\<lparr>nw_master_install := snone (tok (dget (dict_of install) ''id'')), nw_payload := Some payload,
                  nw_policy := Some (policy_dict p), nw_metadata := Some metadata\<rparr>) tab of
              (Inl e, tab') \<Rightarrow> (Inl e, tab')
            | (Inr None, tab') \<Rightarrow> (Inl (GateError ''Failed to persist scheduler wake request.''), tab')
            | (Inr (Some row), tab') \<Rightarrow> (Inr row, tab'))))"

definition new_wake_request :: "string \<Rightarrow> string \<Rightarrow> string \<Rightarrow> string \<Rightarrow> string \<Rightarrow> pydict option \<Rightarrow> bool \<Rightarrow> string \<Rightarrow> string option
    \<Rightarrow> int \<Rightarrow> pydict \<Rightarrow> new_wake" where
  "new_wake_request kind source requested_by reason summary payload approval status denial due metadata =
     \<lparr>nw_master_install = None, nw_trigger_kind = kind, nw_source = source, nw_requested_by = requested_by,
      nw_reason = reason, nw_summary = summary, nw_payload = payload, nw_policy = None, nw_approval_required = approval,
      nw_status = status, nw_denial_reason = denial, nw_due_at = due, nw_metadata = Some metadata\<rparr>"

definition event_trigger_priority_threshold :: int where "event_trigger_priority_threshold = 60"
definition immediate_trigger_window :: int where "immediate_trigger_window = sec 5"

text \<open>
  The clock is read at nine places: 0 for the window of the count, 1 for the moment the request is
  due, 2 for the deferral, 3 and 4 for the device limits, 5 to 7 while persisting, 8 for the
  question whether the ambient monitor is called now, which the boolean of the result answers.
\<close>

definition maybe_schedule_event_trigger ::
    "sched_env \<Rightarrow> string \<Rightarrow> string \<Rightarrow> pydict \<Rightarrow> wake_table \<Rightarrow> (wake_row \<times> bool) option res \<times> wake_table" where
  "maybe_schedule_event_trigger S tenant_id workspace_id event tab =
     (case py_iter (por (dget (dict_of (dget event ''scope'')) ''audience'') (PList [])) of
        Inl e \<Rightarrow> (Inl e, tab)
      | Inr items \<Rightarrow>
        (let audience = filter (\<lambda>t. t \<noteq> []) (map (\<lambda>v. lower (tok v)) items) in
         if audience \<noteq> [] \<and> set audience \<inter> {''sage'', ''workspace'', ''all''} = {} then (Inr None, tab)
         else case int_entry (dget event ''priority'') 0 of
           Inl e \<Rightarrow> (Inl e, tab)
         | Inr priority \<Rightarrow>
           if priority < event_trigger_priority_threshold then (Inr None, tab)
           else (case load_scheduler_scope S tenant_id workspace_id of
             Inl e \<Rightarrow> (Inl e, tab)
           | Inr (workspace, install, p) \<Rightarrow>
             (case count_agent_scheduler_wake_requests_since S tenant_id workspace_id (sched_clock S 0 - sec 3600) (Some ''event_trigger'') tab of
                Inl e \<Rightarrow> (Inl e, tab)
              | Inr recent_count \<Rightarrow>
                (let limited = sp_max_event_triggers p \<le> recent_count;
                     event_id = tok (dget event ''id'');
                     due0 = (if limited then max (sched_clock S 1) (sched_clock S 2 + sec 3600) else sched_clock S 1);
                     meta0 = (''event_id'', opt_val (snone event_id)) #
                       (if limited then [(''deferred_reason'', PStr ''event_rate_limit'')] else []);
                     (due, delay) = apply_policy_to_due_at S p (device_state [] workspace install) due0 3;
                     meta = (case delay of None \<Rightarrow> meta0 | Some r \<Rightarrow> dset ''policy_delay_reason'' (PStr r) meta0)
                 in case persist_wakeup S 5 tenant_id workspace_id install p
                     (new_wake_request ''event_trigger''
                       (sor (lower (strip (py_str_of (por (dget event ''source_app'') (PStr ''context''))))) ''context'')
                       ''context_engine'' (tok (dget event ''event_type'')) (tok (dget event ''summary''))
                       (Some [(''context_event_ids'', PList (if event_id = [] then [] else [PStr event_id])),
                              (''event_type'', PStr (tok (dget event ''event_type''))),
                              (''source_app'', PStr (tok (dget event ''source_app''))),
                              (''priority'', PInt priority)])
                       False ''pending'' None due meta) tab of
                   (Inl e, tab') \<Rightarrow> (Inl e, tab')
                 | (Inr row, tab') \<Rightarrow> (Inr (Some (row, due \<le> sched_clock S 8 + immediate_trigger_window)), tab'))))))"

text \<open>
  \<open>requested_due_at\<close> is what \<open>_parse_datetime\<close> makes of the argument. The result holds the
  request, the policy, whether it was accepted, and whether the ambient monitor is called.
\<close>

definition propose_self_wakeup ::
    "sched_env \<Rightarrow> string \<Rightarrow> string \<Rightarrow> string \<Rightarrow> string \<Rightarrow> int option \<Rightarrow> pydict option \<Rightarrow> pydict option \<Rightarrow> string \<Rightarrow> wake_table
     \<Rightarrow> (wake_row \<times> pydict \<times> bool \<times> bool) res \<times> wake_table" where
  "propose_self_wakeup S tenant_id workspace_id summary reason requested_due_at payload policy_context requested_by tab =
     (if strip summary = [] then (Inl (GateError ''summary is required for self-proposed wakeups.''), tab)
      else case load_scheduler_scope S tenant_id workspace_id of
        Inl e \<Rightarrow> (Inl e, tab)
      | Inr (workspace, install, p) \<Rightarrow>
        (let now_utc = sched_clock S 0;
             requested = (case requested_due_at of None \<Rightarrow> now_utc | Some t \<Rightarrow> t);
             metadata = (case policy_context of None \<Rightarrow> [] | Some d \<Rightarrow> d);
             device = device_state metadata workspace install;
             wake = (\<lambda>approval status denial due meta. new_wake_request ''self_proposed'' ''sage'' requested_by
               (strip reason) (strip summary) payload approval status denial due meta) in
         if coerce_bool (dget metadata ''requires_privileged_runtime'') False \<and> sp_require_owner_approval p
            \<and> \<not> coerce_bool (dget metadata ''approval_granted'') False
         then (case persist_wakeup S 3 tenant_id workspace_id install p
             (wake True ''denied'' (Some ''approval_required'') requested (dset ''policy_decision'' (PStr ''denied'') metadata)) tab of
             (Inl e, tab') \<Rightarrow> (Inl e, tab')
           | (Inr row, tab') \<Rightarrow> (Inr (row, policy_dict p, False, False), tab'))
         else (case count_agent_scheduler_wake_requests_since S tenant_id workspace_id (now_utc - sec 3600) (Some ''self_proposed'') tab of
             Inl e \<Rightarrow> (Inl e, tab)
           | Inr recent_count \<Rightarrow>
             (let limited = sp_max_self_proposed p \<le> recent_count;
                  due0 = (if limited then max requested (now_utc + sec 3600) else requested);
                  meta0 = (if limited then dset ''deferred_reason'' (PStr ''self_proposed_rate_limit'') metadata else metadata);
                  (due, delay) = apply_policy_to_due_at S p device due0 1;
                  meta = (case delay of None \<Rightarrow> meta0 | Some r \<Rightarrow> dset ''policy_delay_reason'' (PStr r) meta0)
              in case persist_wakeup S 3 tenant_id workspace_id install p
                  (wake (coerce_bool (dget metadata ''approval_required'') False) ''pending'' None due
                     (dset ''policy_decision'' (PStr ''accepted'') meta)) tab of
                (Inl e, tab') \<Rightarrow> (Inl e, tab')
              | (Inr row, tab') \<Rightarrow> (Inr (row, policy_dict p, True, due \<le> now_utc + immediate_trigger_window), tab')))))"

definition claim_due_wake_requests ::
    "sched_env \<Rightarrow> string \<Rightarrow> string \<Rightarrow> int \<Rightarrow> wake_table \<Rightarrow> (wake_row list \<times> pydict \<times> pyval \<times> pyval) res \<times> wake_table" where
  "claim_due_wake_requests S tenant_id workspace_id limit tab =
     (case load_scheduler_scope S tenant_id workspace_id of
        Inl e \<Rightarrow> (Inl e, tab)
      | Inr (workspace, install, p) \<Rightarrow>
        (let n = max 1 (if limit = 0 then 5 else limit) in
         case enforce_session_scheduler_decision S 0 workspace_id p ((scheduler_defaults ''claim_wake_requests'')
             \<lparr>sq_trigger_id := ''claim_due_wake_requests'', sq_candidate_count := n\<rparr>) of
           Inl e \<Rightarrow> (Inl e, tab)
         | Inr _ \<Rightarrow>
           (case claim_due_agent_scheduler_wake_requests S 2 tenant_id workspace_id (sched_clock S 1) n tab of
              (Inl e, tab') \<Rightarrow> (Inl e, tab')
            | (Inr rows, tab') \<Rightarrow> (Inr (rows, policy_dict p, por workspace (PDict []), por install (PDict [])), tab'))))"

text \<open>
  A row as the dictionary the service hands on: JSON columns are text. Moments, which nothing here
  reads from it, are shown in ISO form.
\<close>

definition opt_moment :: "int option \<Rightarrow> pyval" where
  "opt_moment t = (case t of None \<Rightarrow> PNone | Some m \<Rightarrow> PStr (isoformat m))"

definition wake_item :: "sched_env \<Rightarrow> wake_row \<Rightarrow> pydict" where
  "wake_item S r =
     [(''id'', PStr (wk_id r)), (''tenant_id'', PStr (wk_tenant r)), (''workspace_id'', PStr (wk_workspace r)),
      (''master_agent_install_id'', opt_val (wk_master_install r)), (''trigger_kind'', PStr (wk_trigger_kind r)),
      (''source'', PStr (wk_source r)), (''requested_by'', PStr (wk_requested_by r)), (''reason'', PStr (wk_reason r)),
      (''summary'', PStr (wk_summary r)), (''payload'', stored_json S (wk_payload r)), (''policy'', stored_json S (wk_policy r)),
      (''approval_required'', PBool (wk_approval_required r)), (''status'', PStr (wk_status r)),
      (''denial_reason'', opt_val (wk_denial_reason r)), (''due_at'', PStr (isoformat (wk_due_at r))),
      (''claimed_at'', opt_moment (wk_claimed_at r)), (''executed_at'', opt_moment (wk_executed_at r)),
      (''metadata'', stored_json S (wk_metadata r)), (''created_at'', PStr (isoformat (wk_created_at r))),
      (''updated_at'', PStr (isoformat (wk_updated_at r)))]"

definition context_ids :: "pydict \<Rightarrow> string list res" where
  "context_ids item = (case py_iter (por (dget (dict_of (dget item ''payload'')) ''context_event_ids'') (PList [])) of
     Inl e \<Rightarrow> Inl e | Inr vs \<Rightarrow> Inr (filter (\<lambda>t. t \<noteq> []) (map tok vs)))"

fun extract_context_event_ids :: "pydict list \<Rightarrow> string list \<Rightarrow> string list res" where
  "extract_context_event_ids [] ids = Inr ids"
| "extract_context_event_ids (item # items) ids = (case context_ids item of
     Inl e \<Rightarrow> Inl e
   | Inr ts \<Rightarrow> extract_context_event_ids items (fold (\<lambda>t acc. if t \<in> set acc then acc else acc @ [t]) ts ids))"

text \<open>
  The loop of \<open>finalize_wake_requests\<close>: an error leaves the requests already finished as they are.
  The \<open>i\<close>-th request reads the clock at \<open>3 * i\<close> and the two places after it.
\<close>

fun finalize_items ::
    "sched_env \<Rightarrow> string \<Rightarrow> string \<Rightarrow> scheduler_policy \<Rightarrow> int \<Rightarrow> string \<Rightarrow> string option \<Rightarrow> pydict option \<Rightarrow> nat \<Rightarrow> pydict list
     \<Rightarrow> wake_row list \<Rightarrow> wake_table \<Rightarrow> wake_row list res \<times> wake_table" where
  "finalize_items S tenant_id workspace_id p n status denial patch k [] updated tab = (Inr updated, tab)"
| "finalize_items S tenant_id workspace_id p n status denial patch k (item # items) updated tab =
     (let wake_id = tok (dget item ''id'') in
      if wake_id = [] then finalize_items S tenant_id workspace_id p n status denial patch k items updated tab
      else case enforce_session_scheduler_decision S k workspace_id p ((scheduler_defaults ''finalize_wake_requests'')
          \<lparr>sq_trigger_id := wake_id, sq_status := status, sq_candidate_count := n, sq_payload := item\<rparr>) of
        Inl e \<Rightarrow> (Inl e, tab)
      | Inr _ \<Rightarrow>
        (case update_agent_scheduler_wake_request_status S (k + 1) tenant_id workspace_id wake_id status denial patch tab of
           (Inl e, tab') \<Rightarrow> (Inl e, tab')
         | (Inr None, tab') \<Rightarrow> finalize_items S tenant_id workspace_id p n status denial patch (k + 3) items updated tab'
         | (Inr (Some row), tab') \<Rightarrow>
             finalize_items S tenant_id workspace_id p n status denial patch (k + 3) items (updated @ [row]) tab'))"

text \<open>The second component of the result: the context events handed to \<open>mark_seen_by_sage\<close>.\<close>

definition finalize_wake_requests ::
    "sched_env \<Rightarrow> string \<Rightarrow> string \<Rightarrow> pydict list \<Rightarrow> string \<Rightarrow> string option \<Rightarrow> bool \<Rightarrow> pydict option \<Rightarrow> wake_table
     \<Rightarrow> (wake_row list \<times> string list) res \<times> wake_table" where
  "finalize_wake_requests S tenant_id workspace_id wake_requests status denial_reason mark_context_seen metadata_patch tab =
     (case load_scheduler_scope S tenant_id workspace_id of
        Inl e \<Rightarrow> (Inl e, tab)
      | Inr (workspace, install, p) \<Rightarrow>
        (case finalize_items S tenant_id workspace_id p (int (length wake_requests)) status denial_reason metadata_patch 0
            wake_requests [] tab of
           (Inl e, tab') \<Rightarrow> (Inl e, tab')
         | (Inr updated, tab') \<Rightarrow>
           if \<not> mark_context_seen then (Inr (updated, []), tab')
           else (case extract_context_event_ids wake_requests [] of
             Inl e \<Rightarrow> (Inl e, tab')
           | Inr ids \<Rightarrow> (Inr (updated, ids), tab'))))"

definition attempt_so_far :: "pydict \<Rightarrow> int res" where
  "attempt_so_far item =
     (let metadata = dict_of (dget item ''metadata'');
          existing = dict_of (case map_of metadata ''retry'' of Some v \<Rightarrow> v | None \<Rightarrow> dget item ''retry'') in
      py_int (case map_of existing ''retry_attempt'' of Some v \<Rightarrow> v
        | None \<Rightarrow> (case map_of existing ''attempt'' of Some v \<Rightarrow> v | None \<Rightarrow> PInt 0)))"

definition schedule_retry ::
    "sched_env \<Rightarrow> string \<Rightarrow> string \<Rightarrow> pydict \<Rightarrow> string \<Rightarrow> wake_retry_policy \<Rightarrow> wake_table \<Rightarrow> wake_row option res \<times> wake_table" where
  "schedule_retry S tenant_id workspace_id item last_error rp tab =
     (let wake_id = tok (dget item ''id'') in
      if wake_id = [] then (Inr None, tab)
      else case load_scheduler_scope S tenant_id workspace_id of
        Inl e \<Rightarrow> (Inl e, tab)
      | Inr (workspace, install, p) \<Rightarrow>
        (case attempt_so_far item of
           Inl e \<Rightarrow> (Inl e, tab)
         | Inr current \<Rightarrow>
           (let next_attempt = current + 1;
                request = (\<lambda>operation status. (scheduler_defaults operation)\<lparr>sq_trigger_id := wake_id, sq_attempt := next_attempt,
                  sq_max_retries := wr_max_retries rp, sq_base_delay := wr_base_delay rp, sq_max_delay := wr_max_delay rp,
                  sq_status := status, sq_payload := item\<rparr>) in
            if \<not> should_retry next_attempt rp
            then (case enforce_session_scheduler_decision S 2 workspace_id p (request ''failure_decision'' ''failed_permanent'') of
                Inl e \<Rightarrow> (Inl e, tab)
              | Inr _ \<Rightarrow> update_agent_scheduler_wake_request_status S 3 tenant_id workspace_id wake_id ''failed_permanent''
                  (Some (''max_retries_exceeded:'' @ py_int_str next_attempt)) None tab)
            else (case enforce_session_scheduler_decision S 2 workspace_id p (request ''schedule_retry'' ''pending'') of
                Inl e \<Rightarrow> (Inl e, tab)
              | Inr _ \<Rightarrow> update_agent_scheduler_wake_request_status S 3 tenant_id workspace_id wake_id ''pending'' None
                  (Some [(''retry'', PDict (build_retry_metadata S next_attempt rp (take 500 last_error) 0)),
                         (''due_at'', PStr (zulu (sched_clock S 1 + sec (compute_retry_delay next_attempt rp))))]) tab))))"

subsection \<open>Quiet hours\<close>

lemma day_hours: "day_us = 24 * hour_us" and hour_pos: "0 < hour_us"
  by (simp_all add: day_us_def hour_us_def)

lemma hour_less: "r < x * hour_us \<Longrightarrow> r div hour_us < x"
  by (simp add: hour_us_def div_less_iff_less_mult)

lemma hour_ge: "x * hour_us \<le> r \<Longrightarrow> x \<le> r div hour_us"
  using zdiv_mono1 [of "x * hour_us" r hour_us] hour_pos by simp

lemma hour_within_day:
  assumes "0 \<le> r" "r < day_us"
  shows "(d * day_us + r) div hour_us mod 24 = r div hour_us"
proof -
  have "(d * day_us + r) div hour_us = (r + (d * 24) * hour_us) div hour_us" by (simp add: day_hours algebra_simps)
  also have "\<dots> = d * 24 + r div hour_us" using hour_pos by simp
  finally have "(d * day_us + r) div hour_us mod 24 = r div hour_us mod 24" by simp
  moreover have "0 \<le> r div hour_us" "r div hour_us < 24"
    using assms hour_pos hour_less [of r 24] by (simp_all add: day_hours pos_imp_zdiv_nonneg_iff)
  ultimately show ?thesis by simp
qed

lemma day_split: "(L :: int) = L div day_us * day_us + L mod day_us" "0 \<le> L mod day_us" "L mod day_us < day_us"
  using hour_pos by (simp_all only: div_mult_mod_eq day_hours pos_mod_sign pos_mod_bound zero_less_mult_iff zero_less_numeral simp_thms)

definition quiet_hour :: "int \<Rightarrow> int \<Rightarrow> int \<Rightarrow> bool" where
  "quiet_hour start stop h =
     (if start = stop then False else if start < stop then start \<le> h \<and> h < stop else start \<le> h \<or> h < stop)"

lemma quiet_by_hour: "is_within_quiet_hours S p t = quiet_hour (sp_quiet_start p) (sp_quiet_end p) (local_hour S t)"
  by (simp add: is_within_quiet_hours_def quiet_hour_def Let_def)

text \<open>On the local clock: the stop hour of the day, or of the next one, ends a quiet stretch.\<close>

lemma stop_not_quiet: "0 \<le> stop \<Longrightarrow> stop < 24 \<Longrightarrow> \<not> quiet_hour start stop ((d * day_us + stop * hour_us) div hour_us mod 24)"
  using hour_pos by (subst hour_within_day) (auto simp: day_hours quiet_hour_def)

lemma quiet_stretch:
  fixes L :: int
  assumes b: "0 \<le> start" "start < 24" "0 \<le> stop" "stop < 24" and q: "quiet_hour start stop (L div hour_us mod 24)"
  defines "c \<equiv> L div day_us * day_us + stop * hour_us"
  defines "n \<equiv> if c \<le> L then c + day_us else c"
  shows "L < n" "n \<le> L + day_us" "\<not> quiet_hour start stop (n div hour_us mod 24)"
    "L \<le> u \<Longrightarrow> u < n \<Longrightarrow> quiet_hour start stop (u div hour_us mod 24)"
proof -
  define d where "d = L div day_us"
  define r where "r = L mod day_us"
  have r: "L = d * day_us + r" "0 \<le> r" "r < day_us" using day_split [of L] by (simp_all add: d_def r_def)
  have stop: "0 \<le> stop * hour_us" "stop * hour_us < day_us" using b hour_pos by (simp_all add: day_hours)
  show bounds: "L < n" "n \<le> L + day_us"
    unfolding n_def c_def d_def [symmetric] using r stop by (auto split: if_splits)
  have "n = L div day_us * day_us + stop * hour_us \<or> n = (L div day_us + 1) * day_us + stop * hour_us"
    by (simp add: n_def c_def algebra_simps)
  then show "\<not> quiet_hour start stop (n div hour_us mod 24)" using stop_not_quiet b by metis
  have h: "quiet_hour start stop (r div hour_us)" using q hour_within_day [OF r(2,3), of d] r(1) by simp
  have n: "n = (if stop * hour_us \<le> r then (d + 1) * day_us + stop * hour_us else d * day_us + stop * hour_us)"
    using r(1) unfolding n_def c_def d_def [symmetric] by (simp add: algebra_simps)
  assume u: "L \<le> u" "u < n"
  show "quiet_hour start stop (u div hour_us mod 24)"
  proof (cases "u < (d + 1) * day_us")
    case True
    define v where "v = u - d * day_us"
    have v: "r \<le> v" "v < day_us" "u = d * day_us + v" using u(1) r True by (auto simp: v_def algebra_simps)
    have "r div hour_us \<le> v div hour_us" using v(1) hour_pos by (rule zdiv_mono1)
    moreover have "v div hour_us < stop" if "r div hour_us < stop"
      using that hour_ge [of stop r] n u(2) v(3) by (intro hour_less) (auto split: if_splits)
    ultimately have "quiet_hour start stop (v div hour_us)"
      using h b unfolding quiet_hour_def by (auto split: if_splits)
    then show ?thesis using hour_within_day [of v d] v r(2) by simp
  next
    case False
    define v where "v = u - (d + 1) * day_us"
    have "stop * hour_us \<le> r" using False n u(2) r stop by (auto simp: algebra_simps split: if_splits)
    then have v: "0 \<le> v" "v < stop * hour_us" "u = (d + 1) * day_us + v" using False n u(2) by (auto simp: v_def)
    have "v div hour_us < stop" "stop \<le> r div hour_us" using v(2) \<open>stop * hour_us \<le> r\<close> by (auto intro: hour_less hour_ge)
    then have "quiet_hour start stop (v div hour_us)" using h b unfolding quiet_hour_def by (auto split: if_splits)
    moreover have "v < day_us" using v stop by simp
    ultimately show ?thesis using hour_within_day [of v "d + 1"] v by simp
  qed
qed
lemma next_allowed_stretch:
  assumes off: "\<And>u. utc_offset S u = offset"
    and b: "0 \<le> sp_quiet_start p" "sp_quiet_start p < 24" "0 \<le> sp_quiet_end p" "sp_quiet_end p < 24"
    and q: "is_within_quiet_hours S p t"
  defines "n \<equiv> next_allowed_wakeup_time S p t"
  shows "\<not> is_within_quiet_hours S p n \<and> t < n \<and> n \<le> t + day_us \<and> (\<forall>u. t \<le> u \<and> u < n \<longrightarrow> is_within_quiet_hours S p u)"
proof -
  have hour: "is_within_quiet_hours S p u = quiet_hour (sp_quiet_start p) (sp_quiet_end p) ((u + offset) div hour_us mod 24)" for u
    by (simp add: quiet_by_hour local_hour_def off)
  define L where "L = t + offset"
  define c where "c = L div day_us * day_us + sp_quiet_end p * hour_us"
  define m where "m = (if c \<le> L then c + day_us else c)"
  have n: "n + offset = m"
    unfolding n_def next_allowed_wakeup_time_def m_def c_def L_def by (simp add: q off Let_def)
  have "quiet_hour (sp_quiet_start p) (sp_quiet_end p) (L div hour_us mod 24)" using q hour L_def by simp
  note st = quiet_stretch [OF b this, folded c_def, folded m_def]
  show ?thesis using st(1-3) st(4) n unfolding hour L_def by (auto simp: algebra_simps)
qed

text \<open>
  Quiet hours are respected exactly. With a fixed offset of local time and policy hours in
  range, the next allowed moment of a wake request is not within quiet hours and at most a day
  away, it is the requested moment when that is allowed, and every earlier moment from the
  requested one on is quiet.
\<close>

theorem quiet_hours_respected:
  assumes "\<And>u. utc_offset S u = offset"
    and "0 \<le> sp_quiet_start p" "sp_quiet_start p < 24" "0 \<le> sp_quiet_end p" "sp_quiet_end p < 24"
  shows "\<not> is_within_quiet_hours S p (next_allowed_wakeup_time S p t)
    \<and> t \<le> next_allowed_wakeup_time S p t \<and> next_allowed_wakeup_time S p t \<le> t + day_us
    \<and> (next_allowed_wakeup_time S p t = t \<longleftrightarrow> \<not> is_within_quiet_hours S p t)
    \<and> (\<forall>u. t \<le> u \<and> u < next_allowed_wakeup_time S p t \<longrightarrow> is_within_quiet_hours S p u)"
proof (cases "is_within_quiet_hours S p t")
  case True
  from next_allowed_stretch [OF assms this] show ?thesis using True by auto
next
  case False
  then show ?thesis by (auto simp: next_allowed_wakeup_time_def day_us_def)
qed

definition sched_kernel :: "string \<Rightarrow> pydict \<Rightarrow> pydict" where
  "sched_kernel command request = [(''ok'', PBool True), (''decision'', PStr ''allow''),
     (''next_action'', PStr (case scheduler_wake_next_actions (py_str_of (dget request ''operation'')) of Some (a # as) \<Rightarrow> a | _ \<Rightarrow> []))]"

text \<open>A workspace at UTC+2 with the default quiet hours.\<close>

definition demo_sched :: sched_env where
  "demo_sched = \<lparr>sched_repo = (allow_env 0)\<lparr>kern := sched_kernel\<rparr>, sched_scoped = Inr True, sched_clock = (\<lambda>k. 1000000000), utc_offset = (\<lambda>t. 7200000000),
     load_scope = (\<lambda>t w. Inr (PNone, PNone)), plan_defaults = (\<lambda>w i. []), new_wake_id = ''wake_1'', jsonb_text = (\<lambda>d. json_dumps (PDict d))\<rparr>"

definition demo_policy :: scheduler_policy where
  "demo_policy = \<lparr>sp_quiet_start = 23, sp_quiet_end = 7, sp_max_event_triggers = 4, sp_max_self_proposed = 2, sp_max_runtime = 20,
     sp_minimum_battery = 20, sp_require_network = False, sp_require_owner_approval = True, sp_plan_tier = ''free''\<rparr>"

theorem quiet_hours_respected_witness:
  "is_within_quiet_hours demo_sched demo_policy 0
   \<and> next_allowed_wakeup_time demo_sched demo_policy 0 = 5 * hour_us
   \<and> \<not> is_within_quiet_hours demo_sched demo_policy (next_allowed_wakeup_time demo_sched demo_policy 0)"
  using quiet_hours_respected [of demo_sched 7200000000 demo_policy 0]
  by (simp add: demo_sched_def demo_policy_def next_allowed_wakeup_time_def is_within_quiet_hours_def local_hour_def Let_def
    hour_us_def day_us_def)

subsection \<open>Retries\<close>

lemma wake_item_keys [simp]:
  "dget (wake_item S r) ''id'' = PStr (wk_id r)" "dget (wake_item S r) ''metadata'' = stored_json S (wk_metadata r)"
  "dget (wake_item S r) ''payload'' = stored_json S (wk_payload r)" "dget (wake_item S r) ''retry'' = PNone"
  by (simp_all add: wake_item_def)

lemma stored_json_dict [simp]: "dict_of (stored_json S d) = []"
  by (simp add: stored_json_def)

text \<open>What a status update leaves when it reports a row.\<close>

lemma updated_row:
  assumes "update_agent_scheduler_wake_request_status S k t w wake_id status denial patch tab = (Inr (Some row'), tab')"
    and "row_of wk_id (strip wake_id) tab = Some row" and "in_scope (strip t) (strip w) row"
  shows "row' = row\<lparr>wk_status := sor (lower (strip status)) ''pending'', wk_denial_reason := snone (opt_tok denial),
      wk_executed_at := (if sor (lower (strip status)) ''pending'' \<in> {''executed'', ''completed'', ''failed'', ''skipped'', ''denied''}
        then Some (sched_clock S k) else wk_executed_at row),
      wk_metadata := dmerge [] (case patch of None \<Rightarrow> [] | Some d \<Rightarrow> d), wk_updated_at := sched_clock S k\<rparr>
    \<and> row_of wk_id (strip wake_id) tab' = Some row'"
proof -
  note hit = row_of_upd_hit [OF assms(2), of "\<lambda>r. wk_id r = strip wake_id \<and> in_scope (strip t) (strip w) r"]
  have "wk_id row = strip wake_id" using row_of_key [OF assms(2)] by simp
  with assms(1,2,3) show ?thesis
    unfolding update_agent_scheduler_wake_request_status_def scheduler_scope_def
    by (auto simp: Let_def hit split: if_splits sum.splits option.splits bool.splits)
qed

lemma lower_pending: "sor (lower (strip ''pending'')) ''pending'' = ''pending''"
  by (simp add: strip_def py_space_def lower_def sor_def)

lemma lower_failed: "sor (lower (strip ''failed_permanent'')) ''pending'' = ''failed_permanent''"
  by (simp add: strip_def py_space_def lower_def sor_def)

lemma attempt_in_dict:
  assumes "dget item ''metadata'' = PDict md" and "dget (dict_of (dget md ''retry'')) ''retry_attempt'' = PInt n"
  shows "attempt_so_far item = Inr n"
proof -
  have "map_of md ''retry'' = Some (dget md ''retry'')" "map_of (dict_of (dget md ''retry'')) ''retry_attempt'' = Some (PInt n)"
    using assms(2) by (auto simp: dget_def split: option.splits)
  with assms(1) show ?thesis by (simp add: attempt_so_far_def)
qed

lemma attempt_in_text: "dget item ''metadata'' = PStr s \<Longrightarrow> dget item ''retry'' = PNone \<Longrightarrow> attempt_so_far item = Inr 0"
  by (simp add: attempt_so_far_def)

text \<open>
  C37. A scheduled retry never waits, and its attempts are counted only as far as the caller hands
  them on as a dictionary. When \<open>schedule_retry\<close> reports the row of a request, under any policy
  and whatever the table holds, the column \<open>due_at\<close> of that row is the old one although a later
  moment was computed. While attempts are left the row is pending again with the next attempt in
  its metadata, and can be claimed from its old moment on; otherwise it is \<open>failed_permanent\<close> and
  is never claimed again. The attempts before are those in the metadata when the request carries
  these as a dictionary; when it carries them as text, as the database returns the column, they
  are taken to be 0 however many were recorded.
\<close>

theorem retry_outcome:
  assumes "schedule_retry S t w item last_error rp tab = (Inr (Some row'), tab')"
    and "tok (dget item ''id'') = wk_id row" and "row_of wk_id (wk_id row) tab = Some row"
    and "in_scope (strip t) (strip w) row"
  shows "\<exists>a. attempt_so_far item = Inr a \<and>
    (\<forall>md n. dget item ''metadata'' = PDict md \<and> dget (dict_of (dget md ''retry'')) ''retry_attempt'' = PInt n \<longrightarrow> a = n) \<and>
    (\<forall>s. dget item ''metadata'' = PStr s \<and> dget item ''retry'' = PNone \<longrightarrow> a = 0) \<and>
    row_of wk_id (wk_id row) tab' = Some row' \<and> wk_due_at row' = wk_due_at row \<and>
    (if a + 1 < wr_max_retries rp
     then wk_status row' = ''pending'' \<and> dget (dict_of (dget (wk_metadata row') ''retry'')) ''retry_attempt'' = PInt (a + 1) \<and>
       claimable (strip t) (strip w) (wk_due_at row) row'
     else wk_status row' = ''failed_permanent'' \<and> (\<forall>moment. \<not> claimable (strip t) (strip w) moment row'))"
proof -
  have id: "strip (wk_id row) = wk_id row" using assms(2) strip_strip by (metis tok_def)
  from assms(1) obtain a where a: "attempt_so_far item = Inr a"
    by (auto simp: schedule_retry_def Let_def split: if_splits sum.splits prod.splits)
  have read: "\<forall>md n. dget item ''metadata'' = PDict md \<and> dget (dict_of (dget md ''retry'')) ''retry_attempt'' = PInt n \<longrightarrow> a = n"
    "\<forall>s. dget item ''metadata'' = PStr s \<and> dget item ''retry'' = PNone \<longrightarrow> a = 0"
    using attempt_in_dict [of item] attempt_in_text [of item] a by auto
  show ?thesis
  proof (cases "a + 1 < wr_max_retries rp")
    case True
    with assms(1,2) a obtain d where
      "update_agent_scheduler_wake_request_status S 3 t w (wk_id row) ''pending'' None
         (Some [(''retry'', PDict (build_retry_metadata S (a + 1) rp (take 500 last_error) 0)), (''due_at'', d)]) tab
       = (Inr (Some row'), tab')"
      by (auto simp: schedule_retry_def should_retry_def Let_def split: if_splits sum.splits prod.splits)
    from updated_row [OF this] assms(3,4) id a read True show ?thesis
      by (simp add: lower_pending claimable_def in_scope_def build_retry_metadata_def)
  next
    case False
    with assms(1,2) a obtain denial where
      "update_agent_scheduler_wake_request_status S 3 t w (wk_id row) ''failed_permanent'' denial None tab = (Inr (Some row'), tab')"
      by (auto simp: schedule_retry_def should_retry_def Let_def split: if_splits sum.splits prod.splits)
    from updated_row [OF this] assms(3,4) id a read False show ?thesis
      by (simp add: lower_failed claimable_def)
  qed
qed

definition demo_wake :: wake_row where
  "demo_wake = \<lparr>wk_id = ''wake_1'', wk_tenant = ''t'', wk_workspace = ''w'', wk_master_install = None, wk_trigger_kind = ''self_proposed'',
     wk_source = ''sage'', wk_requested_by = ''sage'', wk_reason = [], wk_summary = ''check'', wk_payload = [], wk_policy = [],
     wk_approval_required = False, wk_status = ''claimed'', wk_denial_reason = None, wk_due_at = 100, wk_claimed_at = Some 200,
     wk_executed_at = None, wk_metadata = [(''retry'', PDict [(''retry_attempt'', PInt 4)])], wk_created_at = 50, wk_updated_at = 200\<rparr>"

text \<open>
  The same request, which recorded four attempts: as the row of the database it is tried again as
  its first attempt, with its metadata as a dictionary it has failed for good.
\<close>

definition demo_dict_item :: pydict where
  "demo_dict_item = [(''id'', PStr ''wake_1''), (''metadata'', PDict (wk_metadata demo_wake))]"

lemma reported: "case fst c of Inr (Some _) \<Rightarrow> True | _ \<Rightarrow> False \<Longrightarrow> \<exists>row. c = (Inr (Some row), snd c)"
  by (cases c) (auto split: sum.splits option.splits)

theorem retry_outcome_witness:
  "(\<exists>row' tab'. schedule_retry demo_sched ''t'' ''w'' (wake_item demo_sched demo_wake) ''boom'' default_wake_retry [demo_wake]
      = (Inr (Some row'), tab') \<and> wk_due_at row' = wk_due_at demo_wake \<and>
      dget (dict_of (dget (wk_metadata row') ''retry'')) ''retry_attempt'' = PInt 1) \<and>
   (\<exists>row' tab'. schedule_retry demo_sched ''t'' ''w'' demo_dict_item ''boom'' default_wake_retry [demo_wake]
      = (Inr (Some row'), tab') \<and> wk_due_at row' = wk_due_at demo_wake \<and> wk_status row' = ''failed_permanent'')"
proof -
  have "case fst (schedule_retry demo_sched ''t'' ''w'' (wake_item demo_sched demo_wake) ''boom'' default_wake_retry [demo_wake]) of
      Inr (Some _) \<Rightarrow> True | _ \<Rightarrow> False" by code_simp
  from reported [OF this] obtain r1 where
    r1: "schedule_retry demo_sched ''t'' ''w'' (wake_item demo_sched demo_wake) ''boom'' default_wake_retry [demo_wake] = (Inr (Some r1),
      snd (schedule_retry demo_sched ''t'' ''w'' (wake_item demo_sched demo_wake) ''boom'' default_wake_retry [demo_wake]))" ..
  have "case fst (schedule_retry demo_sched ''t'' ''w'' demo_dict_item ''boom'' default_wake_retry [demo_wake]) of
      Inr (Some _) \<Rightarrow> True | _ \<Rightarrow> False" by code_simp
  from reported [OF this] obtain r2 where
    r2: "schedule_retry demo_sched ''t'' ''w'' demo_dict_item ''boom'' default_wake_retry [demo_wake] = (Inr (Some r2),
      snd (schedule_retry demo_sched ''t'' ''w'' demo_dict_item ''boom'' default_wake_retry [demo_wake]))" ..
  have hyps: "tok (dget (wake_item demo_sched demo_wake) ''id'') = wk_id demo_wake" "tok (dget demo_dict_item ''id'') = wk_id demo_wake"
    "row_of wk_id (wk_id demo_wake) [demo_wake] = Some demo_wake" "in_scope (strip ''t'') (strip ''w'') demo_wake"
    by (simp_all add: demo_dict_item_def demo_wake_def in_scope_def strip_def py_space_def tok_def por_def)
  have "dget demo_dict_item ''metadata'' = PDict (wk_metadata demo_wake)"
    "dget (dict_of (dget (wk_metadata demo_wake) ''retry'')) ''retry_attempt'' = PInt 4"
    by (simp_all add: demo_dict_item_def demo_wake_def)
  then have "wk_due_at r2 = wk_due_at demo_wake \<and> wk_status r2 = ''failed_permanent''"
    using retry_outcome [OF r2 hyps(2-4)] by (elim exE conjE) (simp add: default_wake_retry_def)
  moreover have "wk_due_at r1 = wk_due_at demo_wake \<and> dget (dict_of (dget (wk_metadata r1) ''retry'')) ''retry_attempt'' = PInt 1"
    using retry_outcome [OF r1 hyps(1,3,4)] by (elim exE conjE) (simp add: stored_json_def default_wake_retry_def)
  ultimately show ?thesis by (intro conjI exI) (rule r1, simp, simp, rule r2, simp_all)
qed

subsection \<open>Claims\<close>

lemma by_due_facts: "set (by_due xs) = set xs" "length (by_due xs) = length xs" "sorted (map wk_due_at (by_due xs))"
    "distinct (by_due xs) = distinct xs"
  by (simp_all add: by_due_def)

lemma chosen_rows:
  assumes "keys_distinct wk_id tab" and "r \<in> set tab" and "set taken \<subseteq> set tab"
  shows "wk_id r \<in> set (map wk_id taken) \<longleftrightarrow> r \<in> set taken"
  using assms row_of_mem [OF assms(1)] by (auto simp: subset_iff) (metis option.inject)

text \<open>
  A claim takes the requests of the workspace that are pending and due, the earliest first,
  up to the limit: it marks exactly those as claimed now, returns them so, and touches nothing else.
\<close>

theorem wake_claim_takes_earliest:
  assumes "claim_due_agent_scheduler_wake_requests S k t w due_before limit tab = (Inr rows, tab')"
    and "keys_distinct wk_id tab" and "sched_scoped S = Inr True"
  shows "\<exists>taken. rows = map (claimed_wake (sched_clock S k)) taken
    \<and> set taken \<subseteq> {r \<in> set tab. claimable (strip t) (strip w) due_before r}
    \<and> length taken = min (nat (max 1 (if limit = 0 then 10 else limit))) (length (filter (claimable (strip t) (strip w) due_before) tab))
    \<and> (\<forall>r \<in> set taken. \<forall>r' \<in> set tab. claimable (strip t) (strip w) due_before r' \<and> r' \<notin> set taken \<longrightarrow> wk_due_at r \<le> wk_due_at r')
    \<and> tab' = map (\<lambda>r. if r \<in> set taken then claimed_wake (sched_clock S k) r else r) tab"
proof -
  define n where "n = nat (max 1 (if limit = 0 then 10 else limit))"
  define due where "due = filter (claimable (strip t) (strip w) due_before) tab"
  define best where "best = take n (by_due due)"
  define chosen where "chosen = (\<lambda>r :: wake_row. wk_id r \<in> set (map wk_id best))"
  have sub: "set best \<subseteq> set tab" unfolding best_def due_def using set_take_subset by (fastforce simp: by_due_facts)
  have mem: "chosen r \<longleftrightarrow> r \<in> set best" if "r \<in> set tab" for r
    unfolding chosen_def by (rule chosen_rows [OF assms(2) that sub])
  have scope: "scheduler_scope t w = Inr (strip t, strip w)"
    using assms(1) by (auto simp: claim_due_agent_scheduler_wake_requests_def scheduler_scope_def split: if_splits)
  from assms(1,3) scope have res: "rows = map (claimed_wake (sched_clock S k)) (filter chosen tab)"
      "tab' = upd_rows chosen (claimed_wake (sched_clock S k)) tab"
    by (auto simp: claim_due_agent_scheduler_wake_requests_def wake_statement_def limit_rows_def Let_def
        chosen_def best_def n_def due_def split: sum.splits option.splits prod.splits)
  define T where "T = filter chosen tab"
  have taken: "set T = set best" unfolding T_def using mem sub by auto
  have "distinct tab" using assms(2) by (simp add: keys_distinct_def distinct_map)
  then have "distinct best" "distinct T" by (simp_all add: best_def due_def T_def by_due_facts)
  then have "length T = length best" using taken by (metis distinct_card)
  then have len: "length T = min n (length due)" by (simp add: best_def by_due_facts min.commute)
  have ord: "wk_due_at r \<le> wk_due_at r'" if "r \<in> set T" "r' \<in> set due" "r' \<notin> set T" for r r'
    using take_sorted_le [of wk_due_at "by_due due"] that unfolding taken by (simp add: best_def by_due_facts)
  have tab': "tab' = map (\<lambda>r. if r \<in> set T then claimed_wake (sched_clock S k) r else r) tab"
    unfolding res(2) upd_rows_def taken using mem by (intro map_cong) auto
  have sub': "set T \<subseteq> {r \<in> set tab. claimable (strip t) (strip w) due_before r}"
    unfolding taken best_def due_def using set_take_subset by (fastforce simp: by_due_facts)
  show ?thesis
    by (rule exI [of _ T], intro conjI) (use res(1) len ord tab' sub' in \<open>auto simp: T_def [symmetric] n_def due_def\<close>)
qed

theorem wake_claim_witness:
  "\<exists>rows tab'. claim_due_agent_scheduler_wake_requests demo_sched 0 ''t'' ''w'' 500 1
       [demo_wake\<lparr>wk_status := ''pending'', wk_due_at := 300\<rparr>, demo_wake\<lparr>wk_id := ''wake_2'', wk_status := ''pending''\<rparr>] = (Inr rows, tab')
     \<and> length rows = 1"
proof -
  let ?tab = "[demo_wake\<lparr>wk_status := ''pending'', wk_due_at := 300\<rparr>, demo_wake\<lparr>wk_id := ''wake_2'', wk_status := ''pending''\<rparr>]"
  define c where "c = claim_due_agent_scheduler_wake_requests demo_sched 0 ''t'' ''w'' 500 1 ?tab"
  have "case fst c of Inr _ \<Rightarrow> True | _ \<Rightarrow> False" unfolding c_def by code_simp
  then obtain rows where r: "c = (Inr rows, snd c)" by (cases c) (auto split: sum.splits)
  have "keys_distinct wk_id ?tab" "sched_scoped demo_sched = Inr True" by (simp_all add: keys_distinct_def demo_wake_def demo_sched_def)
  from wake_claim_takes_earliest [OF r [unfolded c_def] this]
  have "length rows = 1" by (auto simp: claimable_def in_scope_def demo_wake_def strip_def py_space_def)
  with r show ?thesis unfolding c_def by blast
qed

subsection \<open>Device limits\<close>

text \<open>
  The delay of a low battery comes after the quiet hours were observed, and can end within them:
  here at 22:45 local time the request moves half an hour on, into the hours from 23.
\<close>

lemma battery_delay_into_quiet_hours:
  defines "S \<equiv> demo_sched\<lparr>sched_clock := \<lambda>_. 74700 * 1000000\<rparr>"
  shows "\<exists>due. apply_policy_to_due_at S demo_policy [(''battery_percent'', PInt 5)] (74700 * 1000000) 0 = (due, Some ''battery_low'')
    \<and> is_within_quiet_hours S demo_policy due"
  by (simp add: S_def apply_policy_to_due_at_def is_within_quiet_hours_def local_hour_def demo_sched_def demo_policy_def hour_us_def
    dget_def Let_def)

end
