(* ===== verification/Kernel_Leases.thy ===== *)
theory Kernel_Leases
  imports Kernel_Gate
begin

text \<open>
  The decisions of the runtime kernel on machine leases and queue items, translated from
  \<open>empyralis-runtime-kernel/src/lease.rs\<close> and \<open>queue.rs\<close>: pure functions from the JSON request to
  the JSON response, \<open>pydict\<close> standing for an object. Text is trimmed and lowered as Rust does:
  \<open>trim\<close> removes the code points that are white space in Unicode, \<open>to_ascii_lowercase\<close> changes
  ASCII letters only. An unsigned 64-bit number is an \<open>int\<close> that \<open>as_u64\<close> has checked; the
  arithmetic on it (\<open>saturating_add\<close>, \<open>saturating_mul\<close>) is written out with its bound.
\<close>

subsection \<open>Reading a request\<close>

definition rust_space :: "char \<Rightarrow> bool" where
  "rust_space c = (c \<in> set [CHR '' '', CHR 0x09, CHR 0x0A, CHR 0x0B, CHR 0x0C, CHR 0x0D, CHR 0x85, CHR 0xA0])"

definition rust_trim :: "string \<Rightarrow> string" where
  "rust_trim s = rev (dropWhile rust_space (rev (dropWhile rust_space s)))"

text \<open>The bits of \<open>A\<close> to \<open>Z\<close> are those of 64 to 95 without 64 and 91 to 95.\<close>

fun ascii_lower_char :: "char \<Rightarrow> char" where
  "ascii_lower_char (Char b0 b1 b2 b3 b4 b5 b6 b7) =
     (if b6 \<and> \<not> b5 \<and> \<not> b7 \<and> (b0 \<or> b1 \<or> b2 \<or> b3 \<or> b4) \<and> \<not> (b4 \<and> b3 \<and> (b2 \<or> (b1 \<and> b0)))
      then Char b0 b1 b2 b3 b4 True b6 b7 else Char b0 b1 b2 b3 b4 b5 b6 b7)"

fun split_on :: "char \<Rightarrow> string \<Rightarrow> string list" where
  "split_on c [] = [[]]"
| "split_on c (x # xs) = (if x = c then [] # split_on c xs
     else case split_on c xs of [] \<Rightarrow> [[x]] | p # ps \<Rightarrow> (x # p) # ps)"

definition normalize_token :: "string \<Rightarrow> string" where
  "normalize_token v = join ''_'' (filter (\<lambda>p. p \<noteq> []) (split_on (CHR ''_'')
     (map (\<lambda>c. if c \<in> set ''- /.'' then CHR ''_'' else c) (map ascii_lower_char (rust_trim v)))))"

definition string_field :: "pydict \<Rightarrow> string \<Rightarrow> string option" where
  "string_field input k = (case map_of input k of Some (PStr s) \<Rightarrow> snone (rust_trim s) | _ \<Rightarrow> None)"

fun or_else :: "'a option \<Rightarrow> 'a option \<Rightarrow> 'a option" where
  "or_else (Some a) b = Some a"
| "or_else None b = b"

definition or_text :: "string option \<Rightarrow> string \<Rightarrow> string" where
  "or_text a d = (case a of Some s \<Rightarrow> s | None \<Rightarrow> d)"

fun as_u64 :: "pyval \<Rightarrow> int option" where
  "as_u64 (PInt i) = (if 0 \<le> i \<and> i < 2 ^ 64 then Some i else None)"
| "as_u64 v = None"

definition u64_field :: "pydict \<Rightarrow> string \<Rightarrow> int \<Rightarrow> int" where
  "u64_field input k d = (case map_of input k of None \<Rightarrow> d | Some v \<Rightarrow> (case as_u64 v of None \<Rightarrow> d | Some i \<Rightarrow> i))"

definition boolish :: "pydict \<Rightarrow> string \<Rightarrow> bool" where
  "boolish input k = (case map_of input k of
     Some (PBool b) \<Rightarrow> b
   | Some (PStr s) \<Rightarrow> normalize_token s \<in> set [''1'', ''true'', ''yes'', ''on'', ''enabled'', ''active'', ''force'', ''forced'']
   | Some (PInt i) \<Rightarrow> (case as_u64 (PInt i) of None \<Rightarrow> False | Some n \<Rightarrow> 0 < n)
   | _ \<Rightarrow> False)"

definition kernel_block :: "string \<Rightarrow> pydict" where
  "kernel_block reason = [(''ok'', PBool False), (''decision'', PStr ''block''), (''reason'', PStr reason)]"

subsection \<open>Machine leases\<close>

definition min_lease_ttl_seconds :: int where "min_lease_ttl_seconds = 30"
definition max_lease_ttl_seconds :: int where "max_lease_ttl_seconds = 3600"
definition default_lease_ttl_seconds :: int where "default_lease_ttl_seconds = 900"

definition lease_operation :: "string \<Rightarrow> string" where
  "lease_operation v = (let t = normalize_token v in
     if t \<in> set [''acquire'', ''claim'', ''create''] then ''acquire''
     else if t \<in> set [''renew'', ''extend''] then ''renew''
     else if t \<in> set [''release'', ''delete'', ''free''] then ''release''
     else if t \<in> set [''heartbeat'', ''ping'', ''keepalive''] then ''heartbeat''
     else [])"

definition lease_next_action :: "string \<Rightarrow> string \<Rightarrow> string" where
  "lease_next_action operation decision =
     (if decision = ''require_approval'' then ''request_machine_lease_approval''
      else if operation \<in> set [''acquire'', ''renew''] \<and> decision = ''allow'' then ''persist_machine_lease_transition''
      else if operation = ''release'' \<and> decision = ''allow'' then ''release_machine_lease_transition''
      else if operation = ''heartbeat'' \<and> decision = ''allow'' then ''touch_machine_lease''
      else ''deny_machine_lease_transition'')"

definition lease_response ::
    "string \<Rightarrow> string \<Rightarrow> string \<Rightarrow> string \<Rightarrow> string option \<Rightarrow> string option \<Rightarrow> int \<Rightarrow> bool \<Rightarrow> pydict" where
  "lease_response decision reason operation holder current lease ttl force =
     [(''ok'', PBool (decision \<noteq> ''block'')),
      (''decision'', PStr decision),
      (''reason'', PStr reason),
      (''operation'', PStr operation),
      (''next_action'', PStr (lease_next_action operation decision)),
      (''holder_id'', PStr holder),
      (''current_holder_id'', opt_val current),
      (''lease_id'', opt_val lease),
      (''ttl_seconds'', PInt ttl),
      (''force'', PBool force),
      (''approval_required'', PBool (decision = ''require_approval'')),
      (''cacheable'', PBool False),
      (''audit_visibility'', PStr (if decision = ''allow'' then ''standard'' else ''security''))]"

definition acquire_decision ::
    "string option \<Rightarrow> string option \<Rightarrow> string option \<Rightarrow> string option \<Rightarrow> int \<Rightarrow> int \<Rightarrow> bool \<Rightarrow> bool \<Rightarrow> int \<Rightarrow> pydict" where
  "acquire_decision holder_id current lease current_lease active limit stale force ttl =
     (case holder_id of
        None \<Rightarrow> kernel_block ''lease_holder_missing''
      | Some holder \<Rightarrow>
        if current = Some holder \<and> or_else current_lease lease \<noteq> None
        then lease_response ''allow'' ''lease_already_held_by_requester'' ''acquire'' holder current (or_else current_lease lease) ttl False
        else if limit \<le> active \<and> \<not> stale \<and> \<not> force
        then lease_response ''block'' ''lease_capacity_exhausted'' ''acquire'' holder current lease ttl False
        else lease_response (if force \<and> limit \<le> active then ''require_approval'' else ''allow'')
          (if stale then ''stale_lease_may_be_replaced''
           else if force \<and> limit \<le> active then ''forced_lease_takeover_requires_approval''
           else ''lease_acquire_allowed'') ''acquire'' holder current lease ttl force)"

text \<open>What \<open>renew\<close>, \<open>release\<close> and \<open>heartbeat\<close> check first, and the decision on a lease that passes.\<close>

definition holder_decision ::
    "string \<Rightarrow> string \<Rightarrow> string \<Rightarrow> bool \<Rightarrow> string option \<Rightarrow> string option \<Rightarrow> string option \<Rightarrow> string option \<Rightarrow> int
     \<Rightarrow> (string \<Rightarrow> pydict) \<Rightarrow> pydict" where
  "holder_decision operation mismatch not_held force holder_id current lease current_lease ttl passed =
     (case holder_id of
        None \<Rightarrow> kernel_block ''lease_holder_missing''
      | Some holder \<Rightarrow>
        if lease = None then kernel_block ''lease_id_missing''
        else if current_lease \<noteq> None \<and> lease \<noteq> current_lease
        then lease_response ''block'' mismatch operation holder current lease ttl False
        else if current \<noteq> Some holder \<and> \<not> force
        then lease_response ''block'' not_held operation holder current lease ttl False
        else passed holder)"

definition renew_decision ::
    "string option \<Rightarrow> string option \<Rightarrow> string option \<Rightarrow> string option \<Rightarrow> bool \<Rightarrow> int \<Rightarrow> pydict" where
  "renew_decision holder_id current lease current_lease stale ttl =
     holder_decision ''renew'' ''lease_renew_id_mismatch'' ''lease_not_held_by_requester'' False holder_id current lease current_lease ttl
       (\<lambda>holder. lease_response (if stale then ''require_approval'' else ''allow'')
          (if stale then ''stale_lease_renewal_requires_approval'' else ''lease_renew_allowed'') ''renew'' holder current lease ttl False)"

definition release_decision ::
    "string option \<Rightarrow> string option \<Rightarrow> string option \<Rightarrow> string option \<Rightarrow> bool \<Rightarrow> bool \<Rightarrow> pydict" where
  "release_decision holder_id current lease current_lease stale force =
     holder_decision ''release'' ''lease_release_id_mismatch'' ''lease_release_not_owned'' force holder_id current lease current_lease 0
       (\<lambda>holder. lease_response (if force \<and> current \<noteq> Some holder then ''require_approval'' else ''allow'')
          (if force \<and> current \<noteq> Some holder then ''forced_release_requires_approval''
           else if stale then ''stale_lease_release_allowed'' else ''lease_release_allowed'') ''release'' holder current lease 0 force)"

definition heartbeat_decision ::
    "string option \<Rightarrow> string option \<Rightarrow> string option \<Rightarrow> string option \<Rightarrow> bool \<Rightarrow> pydict" where
  "heartbeat_decision holder_id current lease current_lease stale =
     holder_decision ''heartbeat'' ''lease_heartbeat_id_mismatch'' ''lease_heartbeat_not_owned'' False holder_id current lease current_lease 0
       (\<lambda>holder. lease_response (if stale then ''block'' else ''allow'')
          (if stale then ''stale_lease_heartbeat_blocked'' else ''lease_heartbeat_allowed'') ''heartbeat'' holder current lease 0 False)"

definition requested_ttl :: "pydict \<Rightarrow> int" where
  "requested_ttl input = max min_lease_ttl_seconds (min max_lease_ttl_seconds
     (case or_else (map_of input ''lease_ttl_seconds'') (map_of input ''requested_ttl_seconds'') of
        None \<Rightarrow> default_lease_ttl_seconds
      | Some v \<Rightarrow> (case as_u64 v of None \<Rightarrow> default_lease_ttl_seconds | Some i \<Rightarrow> i)))"

definition machine_lease_decision :: "pydict \<Rightarrow> pydict" where
  "machine_lease_decision input =
     (let operation = lease_operation (or_text (or_else (string_field input ''operation'') (string_field input ''action'')) []);
          holder = or_else (string_field input ''holder_id'') (string_field input ''requested_holder_id'');
          current = string_field input ''current_holder_id'';
          lease = string_field input ''lease_id'';
          current_lease = or_else (string_field input ''current_lease_id'') (string_field input ''existing_lease_id'');
          active = u64_field input ''active_lease_count'' 0;
          limit = max (u64_field input ''max_concurrent_leases'' 1) 1;
          stale = (boolish input ''stale'' \<or> boolish input ''expired'');
          force = boolish input ''force'' in
      if operation = [] then kernel_block ''lease_operation_missing''
      else if operation = ''acquire'' then acquire_decision holder current lease current_lease active limit stale force (requested_ttl input)
      else if operation = ''renew'' then renew_decision holder current lease current_lease stale (requested_ttl input)
      else if operation = ''release'' then release_decision holder current lease current_lease stale force
      else if operation = ''heartbeat'' then heartbeat_decision holder current lease current_lease stale
      else kernel_block ''unknown_lease_operation'')"

subsection \<open>Queue items\<close>

definition queue_operation :: "string \<Rightarrow> string" where
  "queue_operation v = (let t = normalize_token v in
     if t \<in> set [''enqueue'', ''queue'', ''create''] then ''enqueue''
     else if t \<in> set [''claim'', ''lease'', ''start''] then ''claim''
     else if t \<in> set [''complete'', ''succeed'', ''success''] then ''complete''
     else if t \<in> set [''fail'', ''failure''] then ''fail''
     else if t \<in> set [''retry'', ''requeue''] then ''retry''
     else if t \<in> set [''cancel'', ''abort''] then ''cancel''
     else if t \<in> set [''release'', ''unlock''] then ''release''
     else if t \<in> set [''dead_letter'', ''deadletter'', ''poison''] then ''dead_letter''
     else [])"

definition queue_status :: "string \<Rightarrow> string" where
  "queue_status v = (let t = normalize_token v in
     if t \<in> set [''queued'', ''queued_local'', ''pending'', ''waiting'', ''waiting_for_input'', ''starting''] then ''queued''
     else if t \<in> set [''claimed'', ''leased'', ''running_local''] then ''claimed''
     else if t \<in> set [''running'', ''active''] then ''running''
     else if t \<in> set [''retry_scheduled'', ''retry'', ''backoff''] then ''retry_scheduled''
     else if t \<in> set [''completed'', ''succeeded'', ''success'', ''done''] then ''completed''
     else if t \<in> set [''failed'', ''error''] then ''failed''
     else if t \<in> set [''cancelled'', ''canceled''] then ''cancelled''
     else ''unknown'')"

definition queue_next_action :: "string \<Rightarrow> string \<Rightarrow> bool \<Rightarrow> string" where
  "queue_next_action operation next_status retryable =
     (if operation = ''fail''
      then (if retryable \<or> next_status = ''retry_scheduled'' then ''schedule_queue_retry'' else ''fail_queue_item'')
      else if operation \<in> set [''enqueue'', ''claim'', ''complete'', ''retry'', ''cancel'', ''release'', ''dead_letter'']
      then operation @ ''_queue_item''
      else ''review_queue_transition'')"

record queue_reply =
  qr_decision :: string
  qr_reason :: string
  qr_operation :: string
  qr_item :: "string option"
  qr_requester :: "string option"
  qr_holder :: "string option"
  qr_status :: string
  qr_next_status :: string
  qr_retryable :: bool
  qr_delay :: int
  qr_terminal :: bool

definition queue_response :: "queue_reply \<Rightarrow> pydict" where
  "queue_response r =
     [(''ok'', PBool (qr_decision r \<noteq> ''block'')),
      (''decision'', PStr (qr_decision r)),
      (''reason'', PStr (qr_reason r)),
      (''operation'', PStr (qr_operation r)),
      (''next_action'', PStr (queue_next_action (qr_operation r) (qr_next_status r) (qr_retryable r))),
      (''item_id'', opt_val (qr_item r)),
      (''requester_id'', opt_val (qr_requester r)),
      (''lease_holder_id'', opt_val (qr_holder r)),
      (''current_status'', PStr (qr_status r)),
      (''next_status'', PStr (qr_next_status r)),
      (''retryable'', PBool (qr_retryable r)),
      (''retry_delay_seconds'', PInt (qr_delay r)),
      (''terminal'', PBool (qr_terminal r)),
      (''approval_required'', PBool (qr_decision r = ''require_approval'')),
      (''cacheable'', PBool False),
      (''audit_visibility'', PStr (if qr_decision r = ''allow'' \<and> \<not> qr_terminal r then ''standard'' else ''security''))]"

text \<open>The fields of a request the decisions read, and the two plain answers: a refusal, which keeps the status, and a permission.\<close>

record queue_item =
  qi_item :: "string option"
  qi_requester :: "string option"
  qi_holder :: "string option"
  qi_status :: string
  qi_attempts :: int
  qi_max_attempts :: int
  qi_stale :: bool
  qi_force :: bool
  qi_reason :: "string option"

definition refuse_item :: "string \<Rightarrow> string \<Rightarrow> queue_item \<Rightarrow> pydict" where
  "refuse_item operation reason q = queue_response \<lparr>qr_decision = ''block'', qr_reason = reason, qr_operation = operation,
     qr_item = qi_item q, qr_requester = qi_requester q, qr_holder = qi_holder q, qr_status = qi_status q,
     qr_next_status = qi_status q, qr_retryable = False, qr_delay = 0, qr_terminal = False\<rparr>"

definition allow_item :: "string \<Rightarrow> string \<Rightarrow> string \<Rightarrow> bool \<Rightarrow> queue_item \<Rightarrow> pydict" where
  "allow_item operation reason next_status terminal q = queue_response \<lparr>qr_decision = ''allow'', qr_reason = reason,
     qr_operation = operation, qr_item = qi_item q, qr_requester = qi_requester q, qr_holder = qi_holder q,
     qr_status = qi_status q, qr_next_status = next_status, qr_retryable = False, qr_delay = 0, qr_terminal = terminal\<rparr>"

text \<open>\<open>enqueue\<close>, \<open>retry\<close> and \<open>dead_letter\<close> answer without requester and holder.\<close>

definition anonymous :: "queue_item \<Rightarrow> queue_item" where
  "anonymous q = q\<lparr>qi_requester := None, qi_holder := None\<rparr>"

definition enqueue_decision :: "queue_item \<Rightarrow> pydict" where
  "enqueue_decision q =
     (if qi_item q = None then kernel_block ''queue_item_missing''
      else if qi_status q \<in> set [''running'', ''completed'', ''failed'', ''cancelled'']
      then refuse_item ''enqueue'' ''queue_item_not_enqueueable'' (anonymous q)
      else allow_item ''enqueue'' ''queue_enqueue_allowed'' ''queued'' False (anonymous q))"

definition claim_decision :: "queue_item \<Rightarrow> pydict" where
  "claim_decision q =
     (if qi_item q = None then kernel_block ''queue_item_missing''
      else if qi_requester q = None then kernel_block ''queue_requester_missing''
      else if qi_status q \<in> set [''running'', ''claimed''] \<and> qi_holder q \<noteq> qi_requester q \<and> \<not> qi_stale q \<and> \<not> qi_force q
      then refuse_item ''claim'' ''queue_item_already_claimed'' q
      else if qi_status q \<in> set [''completed'', ''failed'', ''cancelled'']
      then refuse_item ''claim'' ''queue_terminal_item_not_claimable'' q
      else queue_response \<lparr>qr_decision = (if qi_force q \<and> qi_holder q \<noteq> None then ''require_approval'' else ''allow''),
        qr_reason = (if qi_stale q then ''stale_queue_claim_allowed''
          else if qi_force q \<and> qi_holder q \<noteq> None then ''forced_queue_claim_requires_approval'' else ''queue_claim_allowed''),
        qr_operation = ''claim'', qr_item = qi_item q, qr_requester = qi_requester q, qr_holder = qi_holder q,
        qr_status = qi_status q, qr_next_status = ''running'', qr_retryable = False, qr_delay = 0, qr_terminal = False\<rparr>)"

definition not_owner :: "queue_item \<Rightarrow> bool" where
  "not_owner q = (qi_requester q \<noteq> None \<and> qi_holder q \<noteq> None \<and> qi_requester q \<noteq> qi_holder q)"

definition terminal_decision :: "string \<Rightarrow> string \<Rightarrow> string \<Rightarrow> bool \<Rightarrow> queue_item \<Rightarrow> pydict" where
  "terminal_decision operation next_status reason force q =
     (if qi_item q = None then kernel_block ''queue_item_missing''
      else if qi_status q \<notin> set [''running'', ''claimed''] then refuse_item operation ''queue_item_not_active'' q
      else if not_owner q \<and> \<not> force then refuse_item operation ''queue_item_not_owned_by_requester'' q
      else allow_item operation reason next_status True q)"

definition complete_decision :: "queue_item \<Rightarrow> pydict" where
  "complete_decision q =
     (if qi_status q \<in> set [''completed'', ''failed'', ''cancelled'']
      then allow_item ''complete'' ''queue_item_already_terminal'' (qi_status q) True q
      else terminal_decision ''complete'' ''completed'' ''queue_complete_allowed'' False q)"

definition queue_retry_delay :: "int \<Rightarrow> int" where
  "queue_retry_delay attempts = min (min (30 * 2 ^ nat (min attempts 5)) (2 ^ 64 - 1)) 960"

definition fail_decision :: "queue_item \<Rightarrow> pydict" where
  "fail_decision q =
     (if qi_item q = None then kernel_block ''queue_item_missing''
      else if qi_status q \<in> set [''completed'', ''failed'', ''cancelled'']
      then allow_item ''fail'' ''queue_item_already_terminal'' (qi_status q) True q
      else if qi_status q \<notin> set [''running'', ''claimed''] then refuse_item ''fail'' ''queue_item_not_active'' q
      else let next_attempts = min (qi_attempts q + 1) (2 ^ 64 - 1) in
        if next_attempts < qi_max_attempts q
        then queue_response \<lparr>qr_decision = ''allow'', qr_reason = ''queue_failure_retry_scheduled'', qr_operation = ''fail'',
          qr_item = qi_item q, qr_requester = qi_requester q, qr_holder = qi_holder q, qr_status = qi_status q,
          qr_next_status = ''retry_scheduled'', qr_retryable = True, qr_delay = queue_retry_delay next_attempts, qr_terminal = False\<rparr>
        else allow_item ''fail'' ''queue_failure_terminal'' ''failed'' True q)"

definition retry_decision :: "queue_item \<Rightarrow> pydict" where
  "retry_decision q =
     (if qi_item q = None then kernel_block ''queue_item_missing''
      else if qi_max_attempts q \<le> qi_attempts q then refuse_item ''retry'' ''queue_retry_attempts_exhausted'' (anonymous q)
      else if qi_status q \<notin> set [''retry_scheduled'', ''failed'', ''queued''] then refuse_item ''retry'' ''queue_item_not_retryable'' (anonymous q)
      else allow_item ''retry'' ''queue_retry_allowed'' ''queued'' False (anonymous q))"

definition cancel_decision :: "queue_item \<Rightarrow> pydict" where
  "cancel_decision q =
     (let reason = (if qi_force q then ''queue_forced_cancel_allowed'' else ''queue_cancel_allowed'') in
      if qi_status q = ''queued''
      then (if qi_item q = None then kernel_block ''queue_item_missing'' else allow_item ''cancel'' reason ''cancelled'' True q)
      else if qi_status q \<in> set [''completed'', ''failed'', ''cancelled'']
      then allow_item ''cancel'' ''queue_item_already_terminal'' (qi_status q) True q
      else terminal_decision ''cancel'' ''cancelled'' reason (qi_force q) q)"

definition queue_release_decision :: "queue_item \<Rightarrow> pydict" where
  "queue_release_decision q =
     (if qi_item q = None then kernel_block ''queue_item_missing''
      else if qi_status q \<notin> set [''running'', ''claimed''] then refuse_item ''release'' ''queue_item_not_releasable'' q
      else if not_owner q \<and> \<not> qi_stale q then refuse_item ''release'' ''queue_release_not_owned'' q
      else allow_item ''release'' (if qi_stale q then ''stale_queue_release_allowed'' else ''queue_release_allowed'') ''queued'' False q)"

definition dead_letter_decision :: "queue_item \<Rightarrow> pydict" where
  "dead_letter_decision q =
     (if qi_item q = None then kernel_block ''queue_item_missing''
      else if qi_reason q = None then refuse_item ''dead_letter'' ''queue_dead_letter_reason_missing'' (anonymous q)
      else if qi_status q \<in> set [''completed'', ''cancelled'']
      then refuse_item ''dead_letter'' ''queue_dead_letter_invalid_status'' (anonymous q)
      else allow_item ''dead_letter'' ''queue_dead_letter_allowed'' ''failed'' True (anonymous q))"

definition queue_item_of :: "pydict \<Rightarrow> queue_item" where
  "queue_item_of input =
     \<lparr>qi_item = or_else (or_else (string_field input ''item_id'') (string_field input ''run_id'')) (string_field input ''queue_id''),
      qi_requester = or_else (or_else (string_field input ''requester_id'') (string_field input ''worker_id'')) (string_field input ''holder_id''),
      qi_holder = or_else (string_field input ''lease_holder_id'') (string_field input ''current_holder_id''),
      qi_status = queue_status (or_text (or_else (string_field input ''status'') (string_field input ''current_status'')) ''unknown''),
      qi_attempts = u64_field input ''attempts'' 0,
      qi_max_attempts = max (u64_field input ''max_attempts'' 3) 1,
      qi_stale = (boolish input ''stale'' \<or> boolish input ''lease_stale''),
      qi_force = boolish input ''force'',
      qi_reason = string_field input ''reason''\<rparr>"

definition queue_transition_decision :: "pydict \<Rightarrow> pydict" where
  "queue_transition_decision input =
     (let operation = queue_operation (or_text (or_else (string_field input ''operation'') (string_field input ''action'')) []);
          q = queue_item_of input in
      if operation = [] then kernel_block ''queue_operation_missing''
      else if operation = ''enqueue'' then enqueue_decision q
      else if operation = ''claim'' then claim_decision q
      else if operation = ''complete'' then complete_decision q
      else if operation = ''fail'' then fail_decision q
      else if operation = ''retry'' then retry_decision q
      else if operation = ''cancel'' then cancel_decision q
      else if operation = ''release'' then queue_release_decision q
      else if operation = ''dead_letter'' then dead_letter_decision q
      else kernel_block ''unknown_queue_operation'')"

text \<open>A kernel that decides leases and queue items by these functions and leaves every other command to \<open>k\<close>.\<close>

definition lease_kernel :: "(string \<Rightarrow> pydict \<Rightarrow> pydict) \<Rightarrow> string \<Rightarrow> pydict \<Rightarrow> pydict" where
  "lease_kernel k command input =
     (if command = ''machine-lease-decision'' then machine_lease_decision input
      else if command = ''queue-transition-decision'' then queue_transition_decision input
      else k command input)"

end
