(* ===== verification/Machine_Leases.thy ===== *)
theory Machine_Leases
  imports Kernel_Leases Tables
begin

text \<open>
  The leases of local machines on runs (\<open>machine_lease_service.py\<close>): the queue of pending runs, the
  claims of the workers on runs, the registry of workers and the runs themselves, all dictionaries
  in the memory of one process. Calls to other services (persisting the state, the durable writes
  handed to threads, worker presence, run status, dead letters) are recorded in order in
  \<open>ms_calls\<close>; log lines are left out. Moments are microseconds.
\<close>

subsection \<open>State and environment\<close>

datatype machine_call =
    Persist
  | Synced
  | SeenWorker string "string option" string "string option"
  | ClaimWrite string string "string option" int string
  | ReleaseWrite string "string option"
  | RunStatus string string
  | DeadLetter string string string string string string int pydict
  | ResumeRun string

record machine_state =
  ms_pending :: "string list"
  ms_claimed :: pydict
  ms_workers :: pydict
  ms_runs :: pydict
  ms_calls :: "machine_call list"

datatype machine_error = HttpError int string | AttributeFault string | Fault py_error

text \<open>
  \<open>me_repo\<close>: the kernel; \<open>me_now\<close>: the clock, if the caller passes one; \<open>me_parse\<close>: \<open>parse_utc_ts_fn\<close>;
  \<open>me_preferences\<close>, \<open>me_required\<close>, \<open>me_normalize\<close>: the functions on runs and capability lists;
  \<open>me_cleanup\<close>: \<open>cleanup_stale_local_claims_fn\<close>; \<open>me_resume\<close>: the answer of
  \<open>schedule_restored_run_resume_fn\<close>, \<open>False\<close> when it raises or there is none.
\<close>

record machine_env =
  me_repo :: repo_env
  me_now :: "int option"
  me_now_iso :: string
  me_parse :: "(pyval \<Rightarrow> int option) option"
  me_preferences :: "pydict \<Rightarrow> string list"
  me_required :: "pydict \<Rightarrow> string list"
  me_normalize :: "pyval \<Rightarrow> string list"
  me_cleanup :: "machine_state \<Rightarrow> (machine_error + string list) \<times> machine_state"
  me_lease_seconds :: int
  me_lease_id :: string
  me_resume :: "string \<Rightarrow> pydict \<Rightarrow> bool"

definition called :: "machine_call \<Rightarrow> machine_state \<Rightarrow> machine_state" where
  "called c s = s\<lparr>ms_calls := ms_calls s @ [c]\<rparr>"

text \<open>\<open>str(a or b or ... or default).strip() or default\<close>.\<close>

definition first_text :: "pyval list \<Rightarrow> string \<Rightarrow> string" where
  "first_text vs d = sor (strip (py_str_of (foldr por vs (PStr d)))) d"

subsection \<open>Scopes\<close>

definition machine_enrollment_scope :: "pyval \<Rightarrow> string" where
  "machine_enrollment_scope v = (let token = lower (tok v) in
     if token \<in> {''workspace'', ''tenant'', ''global''} then token else ''workspace'')"

definition runtime_session_scope :: "pydict \<Rightarrow> pydict" where
  "runtime_session_scope d =
     [(''tenant_id'', PStr (first_text [dget d ''tenant_id''] ''default'')),
      (''workspace_id'', PStr (first_text [dget d ''workspace_id''] ''default'')),
      (''runtime_type'', PStr (first_text [dget d ''runtime_type''] ''local'')),
      (''runtime_role'', PStr (sor (lower (strip (py_str_of (por (dget d ''runtime_role'') (PStr ''generic''))))) ''generic'')),
      (''install_id'', PStr (tok (dget d ''install_id''))),
      (''specialist_key'', PStr (tok (dget d ''specialist_key''))),
      (''instance_id'', PStr (tok (dget d ''instance_id''))),
      (''capability_digest'', PStr (tok (dget d ''capability_digest''))),
      (''machine_enrollment_scope'', PStr (machine_enrollment_scope (dget d ''machine_enrollment_scope'')))]"

definition runtime_session_scope_key :: "pydict \<Rightarrow> string" where
  "runtime_session_scope_key d = join ''|'' (map (\<lambda>(k, v). py_str_of v) (runtime_session_scope d))"

record run_scope =
  rs_workspace :: string
  rs_tenant :: string
  rs_specialist :: string

definition run_context :: "pydict \<Rightarrow> pydict" where
  "run_context run = dict_of (dget run ''context'')"

definition metadata_for_run :: "pydict \<Rightarrow> pydict" where
  "metadata_for_run run = dict_of (dget (run_context run) ''metadata'')"

definition run_scope_from_payload :: "pydict \<Rightarrow> run_scope" where
  "run_scope_from_payload run =
     (let context = run_context run; metadata = metadata_for_run run in
      \<lparr>rs_workspace = first_text [dget run ''workspace_id'', dget context ''workspace_id'', dget metadata ''workspace_id''] ''default'',
       rs_tenant = first_text [dget run ''tenant_id'', dget context ''tenant_id'', dget metadata ''tenant_id''] ''default'',
       rs_specialist = first_text [dget metadata ''active_agent_install_id'', dget metadata ''agent_install_id'', dget metadata ''agent_role'']
         ''workspace-default''\<rparr>)"

definition worker_runtime_scope_allows_run :: "pydict \<Rightarrow> run_scope \<Rightarrow> bool" where
  "worker_runtime_scope_allows_run worker scope =
     (worker = [] \<or>
      (let tenant = first_text [dget worker ''tenant_id''] ''default'';
           workspace = first_text [dget worker ''workspace_id''] ''default'';
           enrollment = machine_enrollment_scope (dget worker ''machine_enrollment_scope'') in
       enrollment = ''global'' \<or>
       (enrollment = ''workspace'' \<and> rs_tenant scope = ''default'' \<and> workspace \<noteq> ''default'' \<and> workspace = rs_workspace scope) \<or>
       (tenant = rs_tenant scope \<and> (enrollment = ''tenant'' \<or> workspace = rs_workspace scope))))"

definition build_queue_partition_key :: "string \<Rightarrow> string \<Rightarrow> string" where
  "build_queue_partition_key workspace specialist =
     sor (strip workspace) ''default'' @ ''::'' @ sor (strip specialist) ''workspace-default''"

subsection \<open>The gates\<close>

definition expected_lease_action :: "string \<Rightarrow> string option" where
  "expected_lease_action operation = map_of
     [(''acquire'', ''persist_machine_lease_transition''),
      (''renew'', ''persist_machine_lease_transition''),
      (''release'', ''release_machine_lease_transition''),
      (''heartbeat'', ''touch_machine_lease'')] operation"

record lease_gate =
  lg_operation :: string
  lg_holder :: string
  lg_current_holder :: string
  lg_lease :: string
  lg_current_lease :: string
  lg_active :: int
  lg_limit :: int
  lg_ttl :: int
  lg_stale :: bool
  lg_allow_block :: bool

definition lease_gate_defaults :: "string \<Rightarrow> string \<Rightarrow> lease_gate" where
  "lease_gate_defaults operation holder = \<lparr>lg_operation = operation, lg_holder = holder, lg_current_holder = [], lg_lease = [],
     lg_current_lease = [], lg_active = 0, lg_limit = 1, lg_ttl = 900, lg_stale = False, lg_allow_block = False\<rparr>"

definition lease_gate_payload :: "lease_gate \<Rightarrow> pydict" where
  "lease_gate_payload g =
     [(''operation'', PStr (lg_operation g)),
      (''holder_id'', PStr (strip (lg_holder g))),
      (''requested_holder_id'', PStr (strip (lg_holder g))),
      (''current_holder_id'', PStr (strip (lg_current_holder g))),
      (''lease_id'', PStr (strip (lg_lease g))),
      (''current_lease_id'', PStr (strip (lg_current_lease g))),
      (''active_lease_count'', PInt (max 0 (lg_active g))),
      (''max_concurrent_leases'', PInt (max 1 (lg_limit g))),
      (''lease_ttl_seconds'', PInt (max 1 (lg_ttl g))),
      (''requested_ttl_seconds'', PInt (max 1 (lg_ttl g))),
      (''stale'', PBool (lg_stale g)),
      (''expired'', PBool (lg_stale g)),
      (''force'', PBool False)]"

text \<open>
  No caller passes \<open>force\<close>. The exceptions of the kernel client have no attribute \<open>result\<close>
  (\<open>rust_runtime_kernel_client.py\<close>, class \<open>RustKernelDecisionError\<close>): with \<open>allow_block_result\<close> a refusal
  is an \<open>AttributeError\<close>.
\<close>

definition lease_gate_refused :: "lease_gate \<Rightarrow> py_error \<Rightarrow> machine_error" where
  "lease_gate_refused g e = (case e of
     KernelApprovalRequired reason \<Rightarrow>
       if lg_allow_block g then AttributeFault ''RustKernelApprovalRequired object has no attribute result''
       else HttpError 409 (''Rust machine-lease gate requires approval for '' @ lg_operation g @ '': '' @ reason)
   | KernelDecisionError reason \<Rightarrow>
       if lg_allow_block g then AttributeFault ''RustKernelDecisionError object has no attribute result''
       else HttpError 409 (''Rust machine-lease gate blocked '' @ lg_operation g @ '': '' @ reason)
   | _ \<Rightarrow> Fault e)"

definition enforce_machine_lease_decision :: "repo_env \<Rightarrow> lease_gate \<Rightarrow> machine_error + pydict" where
  "enforce_machine_lease_decision E g =
     (case run_runtime_kernel_enforced E ''machine-lease-decision'' (lease_gate_payload g) of
        Inl e \<Rightarrow> Inl (lease_gate_refused g e)
      | Inr decision \<Rightarrow>
        (let next_action = tok (dget decision ''next_action'') in
         case expected_lease_action (strip (lg_operation g)) of
           None \<Rightarrow> Inr decision
         | Some expected \<Rightarrow> if lower (tok (dget decision ''decision'')) = ''allow'' \<and> next_action \<noteq> expected
             then Inl (HttpError 409 (''Rust machine-lease gate blocked '' @ lg_operation g @ '': unexpected_next_action:''
               @ sor next_action ''missing'')) else Inr decision))"

definition expected_queue_action :: "string \<Rightarrow> string option" where
  "expected_queue_action operation = map_of
     [(''enqueue'', ''enqueue_queue_item''),
      (''claim'', ''claim_queue_item''),
      (''complete'', ''complete_queue_item''),
      (''retry'', ''retry_queue_item''),
      (''cancel'', ''cancel_queue_item''),
      (''release'', ''release_queue_item''),
      (''dead_letter'', ''dead_letter_queue_item'')] operation"

record queue_gate =
  qg_operation :: string
  qg_run_id :: string
  qg_requester :: string
  qg_holder :: string
  qg_status :: string
  qg_stale :: bool
  qg_force :: bool
  qg_attempts :: int
  qg_max_attempts :: int

definition queue_gate_defaults :: "string \<Rightarrow> string \<Rightarrow> string \<Rightarrow> string \<Rightarrow> string \<Rightarrow> queue_gate" where
  "queue_gate_defaults operation run_id requester holder status = \<lparr>qg_operation = operation, qg_run_id = run_id,
     qg_requester = requester, qg_holder = holder, qg_status = status, qg_stale = False, qg_force = False,
     qg_attempts = 0, qg_max_attempts = 3\<rparr>"

definition queue_gate_payload :: "queue_gate \<Rightarrow> pydict" where
  "queue_gate_payload g =
     [(''operation'', PStr (qg_operation g)),
      (''item_id'', PStr (strip (qg_run_id g))),
      (''run_id'', PStr (strip (qg_run_id g))),
      (''requester_id'', PStr (strip (qg_requester g))),
      (''worker_id'', PStr (strip (qg_requester g))),
      (''lease_holder_id'', PStr (strip (qg_holder g))),
      (''current_holder_id'', PStr (strip (qg_holder g))),
      (''status'', PStr (strip (sor (qg_status g) ''unknown''))),
      (''current_status'', PStr (strip (sor (qg_status g) ''unknown''))),
      (''stale'', PBool (qg_stale g)),
      (''lease_stale'', PBool (qg_stale g)),
      (''force'', PBool (qg_force g)),
      (''attempts'', PInt (max 0 (qg_attempts g))),
      (''max_attempts'', PInt (max 1 (if qg_max_attempts g = 0 then 1 else qg_max_attempts g)))]"

definition enforce_queue_transition_decision :: "repo_env \<Rightarrow> queue_gate \<Rightarrow> machine_error + pydict" where
  "enforce_queue_transition_decision E g =
     (case run_runtime_kernel_enforced E ''queue-transition-decision'' (queue_gate_payload g) of
        Inl (KernelApprovalRequired reason) \<Rightarrow>
          Inl (HttpError 409 (''Rust queue gate requires approval for '' @ qg_operation g @ '': '' @ reason))
      | Inl (KernelDecisionError reason) \<Rightarrow> Inl (HttpError 409 (''Rust queue gate blocked '' @ qg_operation g @ '': '' @ reason))
      | Inl e \<Rightarrow> Inl (Fault e)
      | Inr decision \<Rightarrow>
        (let expected = (if strip (qg_operation g) = ''fail''
               then Some (if truthy (dget decision ''retryable'') \<or> tok (dget decision ''next_status'') = ''retry_scheduled''
                 then ''schedule_queue_retry'' else ''fail_queue_item'')
               else expected_queue_action (strip (qg_operation g)));
             next_action = tok (dget decision ''next_action'') in
         case expected of
           None \<Rightarrow> Inr decision
         | Some action \<Rightarrow> if next_action \<noteq> action
             then Inl (HttpError 409 (''Rust queue gate returned unexpected next_action for '' @ qg_operation g @ '': ''
               @ sor next_action ''missing'')) else Inr decision))"

subsection \<open>Presence and registration\<close>

definition build_machine_presence_record ::
    "pydict \<Rightarrow> string \<Rightarrow> string option \<Rightarrow> string \<Rightarrow> int \<Rightarrow> string \<Rightarrow> string option \<Rightarrow> machine_error + pydict" where
  "build_machine_presence_record previous machine_id current_run status_hint lease_seconds now_iso note =
     (let machine = strip machine_id in
      if machine = [] then Inr previous
      else
        let status = sor (lower (strip (py_str_of (por (PStr status_hint) (por (dget previous ''status'') (PStr ''idle'')))))) ''idle'';
            clears = (current_run = None \<and> status \<in> {''idle'', ''offline'', ''stopped'', ''recovering''}) in
        (case py_int (por (dget previous ''lease_seconds'') (PInt lease_seconds)) of
           Inl e \<Rightarrow> Inl (Fault e)
         | Inr seconds \<Rightarrow>
           (let seen = dmerge previous
              [(''worker_id'', PStr machine),
               (''runtime_id'', PStr (first_text [dget previous ''runtime_id''] machine)),
               (''machine_id'', PStr (first_text [dget previous ''machine_id''] machine)),
               (''last_seen_at'', PStr now_iso),
               (''status'', PStr status),
               (''current_run_id'', if clears then PNone else (case current_run of Some r \<Rightarrow> PStr r | None \<Rightarrow> dget previous ''current_run_id'')),
               (''lease_seconds'', PInt seconds),
               (''note'', PStr (py_str_of (por (dget previous ''note'') (PStr []))))]
            in Inr (case note of None \<Rightarrow> seen | Some n \<Rightarrow> if n = [] then seen else dset ''note'' (PStr (take 280 n)) seen))))"

text \<open>The keyword arguments of \<open>build_runtime_registration_record\<close>, and its two functions.\<close>

record registration =
  rg_tenant :: "string option"
  rg_workspace :: "string option"
  rg_runtime_type :: string
  rg_display_name :: "string option"
  rg_platform :: "string option"
  rg_policy_mode :: "string option"
  rg_capabilities :: "string list option"
  rg_targets :: "string list option"
  rg_instance :: "string option"
  rg_digest :: "string option"
  rg_prewarm :: "string option"
  rg_warm_pool :: "string option"
  rg_lease_seconds :: int
  rg_now_iso :: string
  rg_normalize_policy :: "pyval \<Rightarrow> string"
  rg_digest_of :: "string list \<Rightarrow> string option"

text \<open>\<open>[str(item).strip() for item in (given or previous or []) if str(item).strip()]\<close>.\<close>

definition text_list :: "string list option \<Rightarrow> pyval \<Rightarrow> machine_error + string list" where
  "text_list given previous = (case given of
     Some xs \<Rightarrow> Inr (filter (\<lambda>t. t \<noteq> []) (map strip xs))
   | None \<Rightarrow> (case py_iter (por previous (PList [])) of
       Inl e \<Rightarrow> Inl (Fault e)
     | Inr vs \<Rightarrow> Inr (filter (\<lambda>t. t \<noteq> []) (map (\<lambda>v. strip (py_str_of v)) vs))))"

definition build_runtime_registration_record :: "pydict \<Rightarrow> string \<Rightarrow> registration \<Rightarrow> machine_error + pydict" where
  "build_runtime_registration_record previous machine_id r =
     (let worker = strip machine_id; old = dget previous in
      if worker = [] then Inr []
      else case text_list (rg_capabilities r) (old ''capabilities'') of Inl e \<Rightarrow> Inl e | Inr capabilities \<Rightarrow>
      (case text_list (rg_targets r) (old ''execution_targets'') of Inl e \<Rightarrow> Inl e | Inr targets \<Rightarrow>
      (case py_int (por (old ''lease_seconds'') (PInt (rg_lease_seconds r))) of Inl e \<Rightarrow> Inl (Fault e) | Inr seconds \<Rightarrow>
      (let tenant = first_text [opt_val (rg_tenant r), old ''tenant_id''] ''default'';
           workspace = first_text [opt_val (rg_workspace r), old ''workspace_id''] ''default'';
           runtime_type = first_text [PStr (rg_runtime_type r), old ''runtime_type''] ''local'';
           primary = sor (lower (strip (case targets of [] \<Rightarrow> [] | t # _ \<Rightarrow> t))) ''local'';
           digest = sor (opt_tok (rg_digest r)) (tok (old ''capability_digest'')) in
       Inr (dmerge previous
         [(''worker_id'', PStr worker), (''runtime_id'', PStr worker),
          (''machine_id'', PStr (first_text [old ''machine_id''] worker)),
          (''tenant_id'', PStr tenant), (''workspace_id'', PStr workspace), (''runtime_type'', PStr runtime_type),
          (''display_name'', PStr (first_text [opt_val (rg_display_name r), old ''display_name''] worker)),
          (''platform'', opt_val (snone (first_text [opt_val (rg_platform r), old ''platform''] []))),
          (''policy_mode'', PStr (rg_normalize_policy r (por (opt_val (rg_policy_mode r)) (old ''policy_mode'')))),
          (''capabilities'', PList (map PStr capabilities)),
          (''execution_targets'', PList (map PStr targets)),
          (''instance_id'', PStr (first_text [opt_val (rg_instance r), old ''instance_id''] worker)),
          (''capability_digest'', if digest \<noteq> [] then PStr digest else opt_val (rg_digest_of r capabilities)),
          (''queue_shard'', PStr (sor (tok (old ''queue_shard'')) (tenant @ '':'' @ workspace @ '':'' @ runtime_type @ '':'' @ primary))),
          (''prewarm_state'', opt_val (snone (lower (first_text [opt_val (rg_prewarm r), old ''prewarm_state''] [])))),
          (''warm_pool'', opt_val (snone (first_text [opt_val (rg_warm_pool r), old ''warm_pool''] []))),
          (''registered_at'', PStr (py_str_of (por (old ''registered_at'') (PStr (rg_now_iso r))))),
          (''last_registered_at'', PStr (rg_now_iso r)),
          (''lease_seconds'', PInt seconds),
          (''trust_state'', PStr (first_text [old ''trust_state''] ''unverified'')),
          (''permission_probe'', PDict (dict_of (old ''permission_probe''))),
          (''permission_probe_updated_at'', old ''permission_probe_updated_at''),
          (''control_state'', PStr (sor (lower (strip (py_str_of (por (old ''control_state'') (PStr ''active''))))) ''active'')),
          (''suspended_at'', old ''suspended_at''), (''suspended_reason'', old ''suspended_reason''),
          (''revoked_at'', old ''revoked_at''), (''revoked_reason'', old ''revoked_reason''),
          (''control_state_updated_at'', old ''control_state_updated_at'')])))))"

subsection \<open>Sessions\<close>

text \<open>\<open>token\<close> is what \<open>token_factory\<close> returns, \<open>hash_token\<close> the hash function.\<close>

definition issue_machine_session :: "(string \<Rightarrow> string) \<Rightarrow> string \<Rightarrow> string \<Rightarrow> pydict \<Rightarrow> pydict" where
  "issue_machine_session hash_token token issued_at d =
     (let r = dset ''session_last_authenticated_at'' (PStr issued_at) (dset ''session_issued_at'' (PStr issued_at)
                (dset ''session_token_hash'' (PStr (hash_token token)) d));
          scope = runtime_session_scope r
      in dset ''trust_state'' (PStr ''verified'') (dset ''session_scope_key'' (PStr (runtime_session_scope_key scope))
           (dset ''session_scope'' (PDict scope) r)))"

definition touch_machine_session :: "repo_env \<Rightarrow> string \<Rightarrow> pydict \<Rightarrow> machine_error + pydict" where
  "touch_machine_session E touched_at d =
     (let holder = first_text [dget d ''machine_id'', dget d ''runtime_id'', dget d ''worker_id'', dget d ''instance_id'',
            dget d ''session_scope_key''] ''runtime-session'';
          lease = first_text [dget d ''lease_id'', dget d ''machine_lease_id'', dget d ''session_scope_key'', dget d ''session_token_hash''] holder in
      case py_int (por (dget d ''lease_seconds'') (PInt 900)) of
        Inl e \<Rightarrow> Inl (Fault e)
      | Inr ttl \<Rightarrow>
        (case enforce_machine_lease_decision E ((lease_gate_defaults ''heartbeat'' holder)
            \<lparr>lg_current_holder := holder, lg_lease := lease, lg_current_lease := lease, lg_ttl := ttl\<rparr>) of
           Inl e \<Rightarrow> Inl e
         | Inr _ \<Rightarrow> Inr (dset ''trust_state'' (PStr ''verified'') (dset ''session_last_authenticated_at'' (PStr touched_at) d))))"

text \<open>
  The checks of \<open>assert_machine_session\<close> on a registered machine, before the touch: the record with
  the scope key it is compared by and the mark of a mismatch. The record is an object of the
  registry, so its changes stay when a later check raises.
\<close>

definition session_scope_checked :: "bool \<Rightarrow> pydict \<Rightarrow> (machine_error + unit) \<times> pydict" where
  "session_scope_checked enforce_scope d =
     (let current = runtime_session_scope d;
          stored = tok (dget d ''session_scope_key'');
          d1 = (if stored \<noteq> [] then d
                else if is_dict (dget d ''session_scope'')
                then dset ''session_scope_key'' (PStr (runtime_session_scope_key (dict_of (dget d ''session_scope'')))) d
                else dset ''session_scope_key'' (PStr (runtime_session_scope_key current)) (dset ''session_scope'' (PDict current) d));
          expected = (if stored \<noteq> [] then stored else py_str_of (dget d1 ''session_scope_key'')) in
      if expected \<noteq> runtime_session_scope_key current
      then (if enforce_scope then Inl (HttpError 409 ''runtime scope changed. Re-register this machine.'') else Inr (),
            dset ''session_scope_mismatch'' (PDict [(''expected'', PDict (dict_of (dget d1 ''session_scope''))), (''current'', PDict current)]) d1)
      else (Inr (), dpop ''session_scope_mismatch'' d1))"

definition assert_machine_session ::
    "(string \<Rightarrow> string) \<Rightarrow> (pydict \<Rightarrow> machine_error + pydict) \<Rightarrow> string \<Rightarrow> string option \<Rightarrow> string option \<Rightarrow> bool \<Rightarrow> pydict
     \<Rightarrow> (machine_error + pydict) \<times> pydict" where
  "assert_machine_session hash_token touch machine_id session_token instance_id enforce_scope registry =
     (let runtime = strip machine_id; provided = opt_tok session_token; d = dict_of (dget registry runtime);
          expected_hash = tok (dget d ''session_token_hash''); expected_instance = tok (dget d ''instance_id'');
          instance = opt_tok instance_id in
      if runtime = [] then (Inl (HttpError 400 ''runtime_id is required.''), registry)
      else if provided = [] then (Inl (HttpError 401 ''runtime session token is required.''), registry)
      else if \<not> is_dict (dget registry runtime) then (Inl (HttpError 404 ''runtime_id is not registered.''), registry)
      else if expected_hash = [] then (Inl (HttpError 409 ''runtime session is not active. Re-register this machine.''), registry)
      else if hash_token provided \<noteq> expected_hash
      then (Inl (HttpError 401 ''runtime session is no longer valid. Re-register this machine.''), registry)
      else if expected_instance \<noteq> [] \<and> instance \<noteq> [] \<and> expected_instance \<noteq> instance
      then (Inl (HttpError 409 ''runtime instance changed. Re-register this machine.''), registry)
      else (case session_scope_checked enforce_scope d of
          (Inl e, d1) \<Rightarrow> (Inl e, dset runtime (PDict d1) registry)
        | (Inr _, d1) \<Rightarrow> (case touch d1 of
            Inl e \<Rightarrow> (Inl e, dset runtime (PDict d1) registry)
          | Inr d2 \<Rightarrow> (Inr d2, dset runtime (PDict d2) registry))))"

subsection \<open>Claiming\<close>

definition build_machine_lease_record ::
    "string \<Rightarrow> string \<Rightarrow> string \<Rightarrow> string \<Rightarrow> int \<Rightarrow> string \<Rightarrow> string list \<Rightarrow> string list \<Rightarrow> pydict \<Rightarrow> string \<Rightarrow> pydict" where
  "build_machine_lease_record machine_id run_id workspace_id actor_id ttl claimed_at requested granted metadata lease_id =
     [(''worker_id'', PStr (strip machine_id)), (''machine_id'', PStr (strip machine_id)), (''lease_id'', PStr (strip lease_id)),
      (''run_id'', PStr (strip run_id)), (''workspace_id'', PStr (strip workspace_id)), (''actor_id'', PStr (strip actor_id)),
      (''claimed_at'', PStr claimed_at), (''last_heartbeat_at'', PStr claimed_at), (''last_progress_event_at'', PStr claimed_at),
      (''lease_seconds'', PInt ttl), (''capabilities_requested'', PList (map PStr requested)),
      (''capabilities_granted'', PList (map PStr granted)), (''metadata'', PDict metadata)]"

definition run_status_token :: "pydict \<Rightarrow> string" where
  "run_status_token run = lower (tok (dget run ''status''))"

definition run_at :: "pydict \<Rightarrow> string \<Rightarrow> pydict option" where
  "run_at runs run_id = (case map_of runs run_id of Some (PDict r) \<Rightarrow> Some r | _ \<Rightarrow> None)"

text \<open>
  The counters of \<open>_count_claims_by_scope\<close> and \<open>_count_pending_by_scope\<close> at one key; \<open>f\<close> selects
  the workspace or the specialist.
\<close>

definition claims_in_scope :: "(run_scope \<Rightarrow> string) \<Rightarrow> pydict \<Rightarrow> pydict \<Rightarrow> string \<Rightarrow> int" where
  "claims_in_scope f claimed runs v = int (length (filter (\<lambda>(run_id, claim). is_dict claim \<and>
     (case run_at runs run_id of None \<Rightarrow> False | Some r \<Rightarrow> f (run_scope_from_payload r) = v)) claimed))"

definition pending_in_scope :: "(run_scope \<Rightarrow> string) \<Rightarrow> string list \<Rightarrow> pydict \<Rightarrow> string \<Rightarrow> int" where
  "pending_in_scope f pending runs v = int (length (filter (\<lambda>run_id. case run_at runs run_id of None \<Rightarrow> False
     | Some r \<Rightarrow> run_status_token r \<in> {''queued_local'', ''starting''} \<and> f (run_scope_from_payload r) = v) pending))"

definition worker_is_online_for_claim :: "machine_env \<Rightarrow> pydict \<Rightarrow> py_error + bool" where
  "worker_is_online_for_claim M d =
     (let control = sor (lower (strip (py_str_of (por (dget d ''control_state'') (PStr ''active''))))) ''active'';
          status = sor (lower (strip (py_str_of (por (dget d ''status'') (PStr ''idle''))))) ''idle'' in
      if lower (tok (dget d ''lifecycle_state'')) \<in> {''stopped'', ''recovering''} then Inr False
      else if control \<in> {''interrupting'', ''suspended'', ''revoked''} then Inr False
      else if status \<in> {''offline'', ''stopped'', ''recovering''} then Inr False
      else case (me_now M, me_parse M) of
          (Some now_dt, Some parse) \<Rightarrow>
            (case parse (dget d ''last_seen_at'') of
               None \<Rightarrow> Inr True
             | Some seen \<Rightarrow> (case py_int (por (dget d ''lease_seconds'') (PInt 30)) of
                 Inl e \<Rightarrow> Inl e
               | Inr seconds \<Rightarrow> Inr (now_dt \<le> seen + sec (max 1 seconds))))
        | _ \<Rightarrow> Inr True)"

fun best_online_preferred_runtime :: "machine_env \<Rightarrow> pydict \<Rightarrow> string list \<Rightarrow> py_error + string option" where
  "best_online_preferred_runtime M workers [] = Inr None"
| "best_online_preferred_runtime M workers (r # rs) =
     (let token = strip r in
      if token = [] \<or> \<not> is_dict (dget workers token) then best_online_preferred_runtime M workers rs
      else case worker_is_online_for_claim M (dict_of (dget workers token)) of
        Inl e \<Rightarrow> Inl e
      | Inr True \<Rightarrow> Inr (Some token)
      | Inr False \<Rightarrow> best_online_preferred_runtime M workers rs)"

record claim_candidate =
  cc_run_id :: string
  cc_run :: pydict
  cc_required :: "string list"
  cc_scope :: run_scope
  cc_score :: "int list"

datatype verdict = Dropped | Deferred | Offered claim_candidate

text \<open>The worker as the claim sees it: id, registry record, capabilities, and the requested filter.\<close>

record claiming_worker =
  cw_id :: string
  cw_record :: pydict
  cw_capabilities :: "string list"
  cw_filter :: "string list"

definition claiming_worker_of :: "machine_env \<Rightarrow> string \<Rightarrow> pyval \<Rightarrow> machine_state \<Rightarrow> claiming_worker" where
  "claiming_worker_of M worker required s =
     (let d = dict_of (dget (ms_workers s) worker) in
      \<lparr>cw_id = worker, cw_record = d, cw_capabilities = me_normalize M (dget d ''capabilities''),
       cw_filter = me_normalize M required\<rparr>)"

definition not_yet_due :: "machine_env \<Rightarrow> pydict \<Rightarrow> bool" where
  "not_yet_due M metadata =
     (let retry_due_at = dget metadata ''local_queue_next_retry_at'' in
      truthy retry_due_at \<and>
      (case (me_now M, me_parse M) of
         (Some now_dt, Some parse) \<Rightarrow> (case parse retry_due_at of None \<Rightarrow> False | Some due \<Rightarrow> now_dt < due)
       | _ \<Rightarrow> False))"

text \<open>One turn of the loop over the pending runs.\<close>

definition consider_run :: "machine_env \<Rightarrow> claiming_worker \<Rightarrow> machine_state \<Rightarrow> nat \<Rightarrow> string \<Rightarrow> py_error + verdict" where
  "consider_run M w s index run_id =
     (case run_at (ms_runs s) run_id of
        None \<Rightarrow> Inr Dropped
      | Some run \<Rightarrow>
        (let metadata = metadata_for_run run; required = me_required M run; scope = run_scope_from_payload run in
         if run_status_token run \<notin> {''queued_local'', ''starting''} then Inr Dropped
         else if not_yet_due M metadata then Inr Deferred
         else case best_online_preferred_runtime M (ms_workers s) (me_preferences M run) of
           Inl e \<Rightarrow> Inl e
         | Inr preferred \<Rightarrow>
           if (case preferred of None \<Rightarrow> False | Some p \<Rightarrow> p \<noteq> cw_id w) then Inr Deferred
           else if \<not> set required \<subseteq> set (cw_capabilities w) then Inr Deferred
           else if cw_filter w \<noteq> [] \<and> required \<noteq> [] \<and> \<not> set required \<subseteq> set (cw_filter w) then Inr Deferred
           else if \<not> worker_runtime_scope_allows_run (cw_record w) scope then Inr Deferred
           else (case py_int (por (dget metadata ''local_queue_retry_count'') (PInt 0)) of
               Inl e \<Rightarrow> Inl e
             | Inr retries \<Rightarrow> Inr (Offered \<lparr>cc_run_id = run_id, cc_run = run, cc_required = required, cc_scope = scope,
                 cc_score =
                   [if preferred = Some (cw_id w) then 0 else 1,
                    claims_in_scope rs_workspace (ms_claimed s) (ms_runs s) (rs_workspace scope),
                    claims_in_scope rs_specialist (ms_claimed s) (ms_runs s) (rs_specialist scope),
                    pending_in_scope rs_workspace (ms_pending s) (ms_runs s) (rs_workspace scope),
                    pending_in_scope rs_specialist (ms_pending s) (ms_runs s) (rs_specialist scope),
                    max 0 retries,
                    int index]\<rparr>))))"

text \<open>The runs that stay pending, the candidates in queue order, and whether a run was deferred.\<close>

fun scan_pending ::
    "machine_env \<Rightarrow> claiming_worker \<Rightarrow> machine_state \<Rightarrow> nat \<Rightarrow> string list \<Rightarrow> py_error + string list \<times> claim_candidate list \<times> bool" where
  "scan_pending M w s i [] = Inr ([], [], False)"
| "scan_pending M w s i (run_id # rest) =
     (case consider_run M w s i run_id of
        Inl e \<Rightarrow> Inl e
      | Inr v \<Rightarrow>
        (case scan_pending M w s (Suc i) rest of
           Inl e \<Rightarrow> Inl e
         | Inr (remaining, offers, deferred) \<Rightarrow>
           (case v of
              Dropped \<Rightarrow> Inr (remaining, offers, deferred)
            | Deferred \<Rightarrow> Inr (run_id # remaining, offers, True)
            | Offered c \<Rightarrow> Inr (run_id # remaining, c # offers, deferred))))"

text \<open>\<open>min(eligible, key=score)\<close>: the first of the smallest.\<close>

fun best_candidate :: "claim_candidate \<Rightarrow> claim_candidate list \<Rightarrow> claim_candidate" where
  "best_candidate c [] = c"
| "best_candidate c (d # ds) = best_candidate (if cc_score d < cc_score c then d else c) ds"

definition worker_lease_count :: "string \<Rightarrow> pydict \<Rightarrow> int" where
  "worker_lease_count worker claimed = int (length (filter (\<lambda>(run_id, claim). is_dict claim \<and>
     first_text [dget (dict_of claim) ''worker_id'', dget (dict_of claim) ''machine_id''] [] = worker) claimed))"

definition claim_machine_id :: "claiming_worker \<Rightarrow> string" where
  "claim_machine_id w = sor (strip (py_str_of (por (dget (cw_record w) ''machine_id'') (por (dget (cw_record w) ''runtime_id'') (PStr (cw_id w))))))
     (strip (cw_id w))"

definition claim_record_for :: "machine_env \<Rightarrow> claiming_worker \<Rightarrow> claim_candidate \<Rightarrow> pydict" where
  "claim_record_for M w c =
     (let context = run_context (cc_run c); metadata = metadata_for_run (cc_run c); scope = cc_scope c in
      build_machine_lease_record (claim_machine_id w) (strip (cc_run_id c)) (strip (rs_workspace scope))
        (first_text [dget metadata ''owner_user_id'', dget metadata ''user_id'', dget context ''user_id''] [])
        (me_lease_seconds M) (me_now_iso M) (cc_required c) (filter (\<lambda>k. k \<in> set (cw_capabilities w)) (cc_required c))
        [(''runtime_id'', PStr (cw_id w)),
         (''contention_strategy'', PStr ''workspace_specialist_weighted_fifo''),
         (''tenant_id'', PStr (rs_tenant scope)),
         (''specialist_key'', PStr (rs_specialist scope)),
         (''queue_partition'', PStr (build_queue_partition_key (rs_workspace scope) (rs_specialist scope)))]
        (me_lease_id M))"

definition claim_trace_id :: "pydict \<Rightarrow> string" where
  "claim_trace_id run = first_text [dget run ''trace_id'', dget (metadata_for_run run) ''trace_id'', dget (metadata_for_run run) ''request_trace_id''] []"

text \<open>The claim of the chosen run, in the queue lock: both gates, the claim, the queue without the run.\<close>

definition take_claim ::
    "machine_env \<Rightarrow> claiming_worker \<Rightarrow> claim_candidate \<Rightarrow> string list \<Rightarrow> machine_state \<Rightarrow> (machine_error + string) \<times> machine_state" where
  "take_claim M w c remaining s =
     (let run_id = strip (cc_run_id c) in
      case py_int (por (dget (cw_record w) ''max_concurrent_sessions'') (PInt 1)) of
        Inl e \<Rightarrow> (Inl (Fault e), s)
      | Inr limit \<Rightarrow>
        (case enforce_machine_lease_decision (me_repo M) ((lease_gate_defaults ''acquire'' (cw_id w))
            \<lparr>lg_active := worker_lease_count (cw_id w) (ms_claimed s), lg_limit := max 1 limit, lg_ttl := me_lease_seconds M\<rparr>) of
           Inl e \<Rightarrow> (Inl e, s)
         | Inr _ \<Rightarrow>
           (case enforce_queue_transition_decision (me_repo M) (queue_gate_defaults ''claim'' run_id (cw_id w) []
               (first_text [dget (cc_run c) ''status''] ''queued_local'')) of
              Inl e \<Rightarrow> (Inl e, s)
            | Inr _ \<Rightarrow> (Inr run_id, s\<lparr>ms_claimed := dset run_id (PDict (claim_record_for M w c)) (ms_claimed s),
                ms_pending := filter (\<lambda>r. r \<noteq> run_id) remaining\<rparr>))))"

text \<open>The claim in the queue lock, after the cleanup.\<close>

definition claim_from_queue ::
    "machine_env \<Rightarrow> string \<Rightarrow> pyval \<Rightarrow> machine_state \<Rightarrow> (machine_error + string option) \<times> machine_state" where
  "claim_from_queue M worker required s =
     (let w = claiming_worker_of M worker required s;
          control = sor (lower (strip (py_str_of (por (dget (cw_record w) ''control_state'') (PStr ''active''))))) ''active'' in
      if control \<in> {''interrupting'', ''suspended'', ''revoked''}
      then (Inr None, called (SeenWorker worker None ''idle'' (Some (''idle_machine_'' @ control))) s)
      else case scan_pending M w s 0 (ms_pending s) of
        Inl e \<Rightarrow> (Inl (Fault e), s)
      | Inr (remaining, offers, deferred) \<Rightarrow>
        (let idle = SeenWorker worker None ''idle'' (Some (if deferred then ''idle_capability_wait'' else ''idle_poll'')) in
         case offers of
           [] \<Rightarrow> (Inr None, called idle (if remaining \<noteq> ms_pending s then called Persist (s\<lparr>ms_pending := remaining\<rparr>) else s))
         | c # cs \<Rightarrow>
           (case take_claim M w (best_candidate c cs) remaining s of
              (Inl e, s1) \<Rightarrow> (Inl e, s1)
            | (Inr run_id, s1) \<Rightarrow>
              (let s2 = called Persist s1; claim = dict_of (dget (ms_claimed s2) run_id) in
               if run_id = [] then (Inr (Some []), called idle s2)
               else case py_int (por (dget claim ''lease_seconds'') (PInt (me_lease_seconds M))) of
                 Inl e \<Rightarrow> (Inl (Fault e), s2)
               | Inr ttl \<Rightarrow>
                 (Inr (Some run_id),
                  called (SeenWorker worker (Some run_id) ''busy'' (Some ''claimed_local_run''))
                    (called (ClaimWrite run_id worker (snone (tok (dget claim ''lease_id''))) (max 1 ttl)
                       (case run_at (ms_runs s2) run_id of None \<Rightarrow> [] | Some r \<Rightarrow> claim_trace_id r)) s2))))))"

definition claim_local_machine_lease ::
    "machine_env \<Rightarrow> string \<Rightarrow> pyval \<Rightarrow> machine_state \<Rightarrow> (machine_error + string option) \<times> machine_state" where
  "claim_local_machine_lease M worker required s0 = (case me_cleanup M s0 of
     (Inl e, s) \<Rightarrow> (Inl e, s) | (Inr _, s) \<Rightarrow> claim_from_queue M worker required s)"

definition bind_machine_lease_to_run ::
    "(pyval \<Rightarrow> string) \<Rightarrow> string \<Rightarrow> pydict \<Rightarrow> pyval \<Rightarrow> string \<Rightarrow> pydict \<Rightarrow> machine_error + pydict" where
  "bind_machine_lease_to_run normalize_policy worker claim worker_state now_iso run =
     (case py_int (por (dget claim ''lease_seconds'') (PInt 0)) of
        Inl e \<Rightarrow> Inl (Fault e)
      | Inr seconds \<Rightarrow>
        (let m1 = dset ''policy_mode'' (PStr (normalize_policy (dget (dict_of worker_state) ''policy_mode'')))
               (dset ''runtime_id'' (PStr worker) (metadata_for_run run));
             m2 = (if truthy (dget claim ''machine_id'') then dset ''machine_id'' (dget claim ''machine_id'') m1 else m1);
             m3 = (if truthy (dget claim ''lease_id'') then dset ''machine_lease_id'' (dget claim ''lease_id'') m2 else m2) in
         Inr (dpop ''_resume_after_confirmation_scheduled'' (dmerge run
           [(''context'', PDict (dset ''metadata'' (PDict m3) (run_context run))),
            (''local_worker_id'', PStr worker),
            (''machine_id'', por (dget claim ''machine_id'') (PStr worker)),
            (''machine_lease_id'', dget claim ''lease_id''),
            (''local_claimed_at'', PStr now_iso),
            (''local_last_heartbeat_at'', PStr now_iso),
            (''lease_seconds'', PInt seconds)]))))"

definition clear_active_machine_lease_binding :: "pydict \<Rightarrow> pydict" where
  "clear_active_machine_lease_binding run = dmerge run
     [(''local_worker_id'', PNone), (''local_claimed_at'', PNone), (''local_last_heartbeat_at'', PNone), (''machine_lease_id'', PNone)]"

subsection \<open>Releasing\<close>

record release_reply =
  rl_claim :: pyval
  rl_worker :: string
  rl_released :: bool
  rl_mismatch :: bool
  rl_decision_id :: pyval

definition claim_holder_text :: "pydict \<Rightarrow> string" where
  "claim_holder_text claim = first_text [dget claim ''worker_id'', dget claim ''machine_id''] []"

text \<open>Both gates of a release: by \<open>requester\<close>, presenting \<open>lease\<close>.\<close>

definition release_gates :: "repo_env \<Rightarrow> string \<Rightarrow> string \<Rightarrow> string \<Rightarrow> pydict \<Rightarrow> bool \<Rightarrow> bool \<Rightarrow> machine_error + pydict" where
  "release_gates E run_id requester lease claim stale allow_block =
     (let holder = claim_holder_text claim in
      case enforce_queue_transition_decision E
          ((queue_gate_defaults ''release'' run_id requester holder ''claimed'')\<lparr>qg_stale := stale\<rparr>) of
        Inl e \<Rightarrow> Inl e
      | Inr _ \<Rightarrow> enforce_machine_lease_decision E ((lease_gate_defaults ''release'' requester)
          \<lparr>lg_current_holder := holder, lg_lease := lease, lg_current_lease := tok (dget claim ''lease_id''),
           lg_stale := stale, lg_allow_block := allow_block\<rparr>))"

text \<open>\<open>_dispatch_release_repository_write\<close>; an error of the write is only logged.\<close>

definition release_write :: "string \<Rightarrow> pydict \<Rightarrow> machine_call" where
  "release_write run_id claim = ReleaseWrite run_id (snone (tok (dget claim ''lease_id'')))"

text \<open>\<open>persist\<close> and \<open>seen\<close>: whether the caller passes the two functions.\<close>

definition release_machine_lease_claim ::
    "machine_env \<Rightarrow> string \<Rightarrow> string option \<Rightarrow> string option \<Rightarrow> bool \<Rightarrow> bool \<Rightarrow> string option \<Rightarrow> string option \<Rightarrow> machine_state
     \<Rightarrow> (machine_error + release_reply) \<times> machine_state" where
  "release_machine_lease_claim M run_id worker_id lease_id persist seen status_hint note s =
     (let held = dget (ms_claimed s) run_id; claim = dict_of held;
          resolved = sor (opt_tok worker_id) (if is_dict held then tok (dget claim ''worker_id'') else []);
          decision = (if \<not> is_dict held then Inr []
            else release_gates (me_repo M) run_id resolved (sor (opt_tok lease_id) (tok (dget claim ''lease_id''))) claim False True) in
      case decision of
        Inl e \<Rightarrow> (Inl e, s)
      | Inr d \<Rightarrow>
        (let reason = lower (tok (dget d ''reason'')) in
         if is_dict held \<and> lower (tok (dget d ''decision'')) = ''block''
         then (if reason = ''lease_release_not_owned'' then (Inl (HttpError 403 ''Worker does not own this local run.''), s)
               else if reason = ''lease_release_id_mismatch''
               then (Inr \<lparr>rl_claim = held, rl_worker = resolved, rl_released = False, rl_mismatch = True, rl_decision_id = dget d ''decision_id''\<rparr>, s)
               else (Inl (HttpError 409 (''Rust machine-lease gate blocked release: '' @ sor reason ''unknown_reason'')), s))
         else
           (let released = (held \<noteq> PNone);
                s1 = s\<lparr>ms_claimed := dpop run_id (ms_claimed s)\<rparr>;
                s2 = (if released \<and> persist then called Persist s1 else s1);
                s3 = (if released then called (release_write run_id claim) s2 else s2);
                s4 = (case status_hint of
                    Some h \<Rightarrow> if resolved \<noteq> [] \<and> seen \<and> h \<noteq> []
                      then called (SeenWorker resolved None h (case note of Some n \<Rightarrow> snone n | None \<Rightarrow> None)) s3 else s3
                  | None \<Rightarrow> s3)
            in (Inr \<lparr>rl_claim = (if is_dict held then held else PNone), rl_worker = resolved, rl_released = released,
                  rl_mismatch = False, rl_decision_id = PNone\<rparr>, s4))))"

definition reconcile_machine_lease_release ::
    "machine_env \<Rightarrow> string \<Rightarrow> machine_state \<Rightarrow> (machine_error + bool) \<times> machine_state" where
  "reconcile_machine_lease_release M run_id s =
     (let queued = (run_id \<in> set (ms_pending s));
          s1 = (if queued then s\<lparr>ms_pending := filter (\<lambda>r. r \<noteq> run_id) (ms_pending s)\<rparr> else s);
          held = dget (ms_claimed s) run_id; claim = dict_of held in
      if is_dict held
      then (case release_gates (me_repo M) run_id (claim_holder_text claim) (tok (dget claim ''lease_id'')) claim False False of
          Inl e \<Rightarrow> (Inl e, s1)
        | Inr _ \<Rightarrow> (Inr True, called Synced (called (release_write run_id claim) (s1\<lparr>ms_claimed := dpop run_id (ms_claimed s1)\<rparr>))))
      else (Inr queued, if queued then called Synced (called (release_write run_id []) s1) else s1))"

text \<open>The loop of \<open>reconcile_recovered_machine_leases\<close> over the set of recovered ids, in the order given.\<close>

fun drop_recovered :: "machine_env \<Rightarrow> string list \<Rightarrow> machine_state \<Rightarrow> (machine_error + pydict) \<times> machine_state" where
  "drop_recovered M [] s = (Inr [], s)"
| "drop_recovered M (run_id # rest) s =
     (let held = dget (ms_claimed s) run_id; claim = dict_of held in
      if \<not> is_dict held then drop_recovered M rest s
      else case release_gates (me_repo M) run_id (claim_holder_text claim) (tok (dget claim ''lease_id'')) claim False False of
        Inl e \<Rightarrow> (Inl e, s)
      | Inr _ \<Rightarrow> (case drop_recovered M rest (s\<lparr>ms_claimed := dpop run_id (ms_claimed s)\<rparr>) of
          (Inl e, s') \<Rightarrow> (Inl e, s')
        | (Inr released, s') \<Rightarrow> (Inr ((run_id, held) # released), s')))"

definition reconcile_recovered_machine_leases ::
    "machine_env \<Rightarrow> string list \<Rightarrow> machine_state \<Rightarrow> (machine_error + bool) \<times> machine_state" where
  "reconcile_recovered_machine_leases M recovered s =
     (let ids = remdups (filter (\<lambda>r. strip r \<noteq> []) recovered);
          next_pending = filter (\<lambda>r. r \<notin> set ids) (ms_pending s);
          s1 = s\<lparr>ms_pending := next_pending\<rparr> in
      if ids = [] then (Inr False, s)
      else case drop_recovered M ids s1 of
        (Inl e, s2) \<Rightarrow> (Inl e, s2)
      | (Inr released, s2) \<Rightarrow>
        (if next_pending \<noteq> ms_pending s \<or> released \<noteq> []
         then (Inr True, called Persist (fold (\<lambda>r. called (release_write r (dict_of (dget released r)))) ids s2))
         else (Inr False, s2)))"

subsection \<open>Stale claims\<close>

record cleanup_config =
  cl_now :: int
  cl_parse :: "pyval \<Rightarrow> int option"
  cl_now_iso :: string
  cl_max_recoveries :: int
  cl_recovery_backoff :: "int list"
  cl_lost_timeout :: int
  cl_default_lease :: int
  cl_requeue :: bool
  cl_max_retries :: int
  cl_retry_backoff :: "int list"
  cl_dead_letters :: bool

record stale_claim =
  sc_run_id :: string
  sc_worker :: "string option"
  sc_machine :: "string option"
  sc_lease_seconds :: int
  sc_last_heartbeat :: pyval

definition last_heartbeat :: "cleanup_config \<Rightarrow> pydict \<Rightarrow> int" where
  "last_heartbeat C claim = (case cl_parse C (dget claim ''last_heartbeat_at'') of
     Some t \<Rightarrow> t
   | None \<Rightarrow> (case cl_parse C (dget claim ''claimed_at'') of Some t \<Rightarrow> t | None \<Rightarrow> cl_now C))"

definition claim_lost :: "cleanup_config \<Rightarrow> pydict \<Rightarrow> bool" where
  "claim_lost C claim = (sec (cl_lost_timeout C) < cl_now C - last_heartbeat C claim)"

text \<open>The presence of the worker that lost its claim; it was last seen when it was last seen.\<close>

definition offline_worker :: "cleanup_config \<Rightarrow> string \<Rightarrow> pydict \<Rightarrow> int \<Rightarrow> pydict \<Rightarrow> machine_error + pydict" where
  "offline_worker C worker claim lease_seconds workers =
     (let d = dict_of (dget workers worker);
          seen = py_str_of (por (dget d ''last_seen_at'') (por (dget claim ''last_heartbeat_at'') (por (dget claim ''claimed_at'') (PStr (cl_now_iso C))))) in
      case py_int (por (dget d ''lease_seconds'') (PInt lease_seconds)) of
        Inl e \<Rightarrow> Inl (Fault e)
      | Inr seconds \<Rightarrow> build_machine_presence_record d worker None ''offline'' seconds seen
          (if truthy (dget d ''note'') then Some (py_str_of (dget d ''note'')) else None))"

text \<open>
  The first loop, over the claims as they were when it started. An error ends it where it is:
  the claims dropped so far are gone.
\<close>

fun drop_stale :: "machine_env \<Rightarrow> cleanup_config \<Rightarrow> pydict \<Rightarrow> bool \<Rightarrow> stale_claim list \<Rightarrow> machine_state
    \<Rightarrow> (machine_error + bool \<times> stale_claim list) \<times> machine_state" where
  "drop_stale M C [] changed stale s = (Inr (changed, stale), s)"
| "drop_stale M C ((run_id, held) # rest) changed stale s =
     (let claim = dict_of held in
      if \<not> is_dict held then drop_stale M C rest True stale (s\<lparr>ms_claimed := dpop run_id (ms_claimed s)\<rparr>)
      else case py_int (por (dget claim ''lease_seconds'') (PInt (cl_default_lease C))) of
        Inl e \<Rightarrow> (Inl (Fault e), s)
      | Inr seconds \<Rightarrow>
        if \<not> claim_lost C claim then drop_stale M C rest changed stale s
        else
          (let worker = snone (tok (dget claim ''worker_id''));
               machine = snone (first_text [dget claim ''machine_id'', opt_val worker] []);
               requester = (case worker of Some w \<Rightarrow> w | None \<Rightarrow> (case machine of Some m \<Rightarrow> m | None \<Rightarrow> []));
               lease = tok (dget claim ''lease_id'') in
           case enforce_queue_transition_decision (me_repo M)
               ((queue_gate_defaults ''release'' run_id requester requester ''claimed'')\<lparr>qg_stale := True\<rparr>) of
             Inl e \<Rightarrow> (Inl e, s)
           | Inr _ \<Rightarrow>
             (case enforce_machine_lease_decision (me_repo M) ((lease_gate_defaults ''release'' requester)
                 \<lparr>lg_current_holder := requester, lg_lease := lease, lg_current_lease := lease, lg_stale := True\<rparr>) of
                Inl e \<Rightarrow> (Inl e, s)
              | Inr _ \<Rightarrow>
                (let s1 = called (release_write run_id claim) (s\<lparr>ms_claimed := dpop run_id (ms_claimed s)\<rparr>);
                     item = \<lparr>sc_run_id = run_id, sc_worker = worker, sc_machine = machine,
                       sc_lease_seconds = max 10 seconds, sc_last_heartbeat = dget claim ''last_heartbeat_at''\<rparr> in
                 case worker of
                   None \<Rightarrow> drop_stale M C rest True (stale @ [item]) s1
                 | Some w \<Rightarrow>
                   (case offline_worker C w claim (max 10 seconds) (ms_workers s1) of
                      Inl e \<Rightarrow> (Inl e, s1)
                    | Inr record \<Rightarrow> drop_stale M C rest True (stale @ [item]) (s1\<lparr>ms_workers := dset w (PDict record) (ms_workers s1)\<rparr>))))))"

subsection \<open>What becomes of a run that lost its worker\<close>

definition int_list_or :: "int list \<Rightarrow> int list" where
  "int_list_or xs = (let ys = map (max 0) xs in if ys = [] then [0] else ys)"

definition backoff_at :: "int list \<Rightarrow> int \<Rightarrow> int" where
  "backoff_at schedule attempt = schedule ! min (nat (max 0 (attempt - 1))) (length schedule - 1)"

definition next_retry_at :: "cleanup_config \<Rightarrow> int \<Rightarrow> pyval" where
  "next_retry_at C backoff = (if 0 < backoff then PStr (zulu (cl_now C + sec backoff)) else PNone)"

definition with_metadata :: "pydict \<Rightarrow> pydict \<Rightarrow> pydict" where
  "with_metadata run metadata = dset ''context'' (PDict (dset ''metadata'' (PDict metadata) (run_context run))) run"

definition put_run :: "string \<Rightarrow> pydict \<Rightarrow> machine_state \<Rightarrow> machine_state" where
  "put_run run_id run s = s\<lparr>ms_runs := dset run_id (PDict run) (ms_runs s)\<rparr>"

definition result_told :: "string \<Rightarrow> pydict \<Rightarrow> pydict" where
  "result_told text data = [(''result'', PStr text), (''result_data'', PDict ((''summary'', PStr text) # data))]"

definition stale_facts :: "stale_claim \<Rightarrow> pydict" where
  "stale_facts x = [(''worker_id'', opt_val (sc_worker x)), (''machine_id'', opt_val (sc_machine x)),
     (''last_heartbeat_at'', sc_last_heartbeat x)]"

definition checkpoint_facts :: "pydict \<Rightarrow> pydict" where
  "checkpoint_facts checkpoint = [(''next_action_index'', dget checkpoint ''next_action_index''),
     (''session_profile'', dget checkpoint ''session_profile'')]"

definition dead_letter_call :: "string \<Rightarrow> pydict \<Rightarrow> string \<Rightarrow> int \<Rightarrow> pydict \<Rightarrow> machine_call" where
  "dead_letter_call run_id run reason failures payload =
     (let scope = run_scope_from_payload run in
      DeadLetter run_id (rs_tenant scope) (rs_workspace scope) (rs_specialist scope) reason
        (first_text [dget run ''trace_id'', dget (metadata_for_run run) ''trace_id''] []) failures payload)"

text \<open>An error of the dead-letter function is only logged; without the function there is no call.\<close>

definition dead_lettered :: "cleanup_config \<Rightarrow> machine_call \<Rightarrow> machine_state \<Rightarrow> machine_state" where
  "dead_lettered C c s = (if cl_dead_letters C then called c s else s)"

definition recovery_exhausted :: "cleanup_config \<Rightarrow> stale_claim \<Rightarrow> pydict \<Rightarrow> pydict \<Rightarrow> int \<Rightarrow> int \<Rightarrow> machine_state \<Rightarrow> machine_state" where
  "recovery_exhausted C x run checkpoint attempts limit s =
     (let run_id = sc_run_id x;
          text = ''Worker lost connection repeatedly. Automatic checkpoint recovery is paused.'';
          metadata = dmerge (metadata_for_run run)
            [(''browser_resume_supported'', PBool True), (''resume_ready'', PBool True),
             (''local_worker_recovery_reason'', PStr ''worker_lost''),
             (''local_worker_recovery_auto_retry_exhausted'', PBool True),
             (''local_worker_recovery_manual_confirmation_required'', PBool True),
             (''local_worker_recovery_attempt_count'', PInt attempts),
             (''local_worker_recovery_next_retry_at'', PNone),
             (''local_worker_recovery_backoff_seconds'', PInt 0)];
          run' = with_metadata (dmerge run (result_told text
            ([(''error'', PStr ''local_worker_recovery_exhausted''), (''resume_available'', PBool True),
              (''manual_confirmation_required'', PBool True)] @ stale_facts x @ checkpoint_facts checkpoint @
             [(''attempt_count'', PInt attempts), (''max_auto_retries'', PInt limit)]))) metadata
      in called (RunStatus run_id ''waiting_for_input'') (put_run run_id run' (dead_lettered C
           (dead_letter_call run_id run ''checkpoint_recovery_exhausted'' attempts
             ([(''run_id'', PStr run_id)] @ stale_facts x @ checkpoint_facts checkpoint @
              [(''attempt_count'', PInt attempts), (''max_auto_retries'', PInt limit), (''failure_kind'', PStr ''checkpoint_recovery'')])) s)))"

text \<open>The run waiting for its next automatic attempt.\<close>

definition recovering_run :: "cleanup_config \<Rightarrow> stale_claim \<Rightarrow> pydict \<Rightarrow> pydict \<Rightarrow> int \<Rightarrow> int \<Rightarrow> int \<Rightarrow> pydict" where
  "recovering_run C x run checkpoint attempt limit backoff =
     (let text = (if 0 < backoff then ''Worker lost connection. Recovery from saved browser checkpoint is delayed before retry.''
            else ''Worker lost connection. Recovering from saved browser checkpoint.'');
          metadata = dmerge (metadata_for_run run)
            [(''browser_resume_supported'', PBool True), (''resume_ready'', PBool True),
             (''local_worker_recovery_reason'', PStr ''worker_lost''),
             (''local_worker_recovery_attempt_count'', PInt attempt),
             (''local_worker_recovery_backoff_seconds'', PInt backoff),
             (''local_worker_recovery_max_auto_retries'', PInt limit),
             (''local_worker_recovery_auto_retry_exhausted'', PBool False),
             (''local_worker_recovery_manual_confirmation_required'', PBool False),
             (''local_worker_recovery_next_retry_at'', next_retry_at C backoff)]
      in with_metadata (dmerge run (result_told text
           ([(''error'', PStr ''local_worker_lost_recoverable''), (''resume_available'', PBool True)] @ stale_facts x @
            checkpoint_facts checkpoint @
            [(''attempt_count'', PInt attempt), (''max_auto_retries'', PInt limit), (''retry_backoff_seconds'', PInt backoff),
             (''next_retry_at'', next_retry_at C backoff)]))) metadata)"

definition resumed_run :: "cleanup_config \<Rightarrow> pydict \<Rightarrow> pydict" where
  "resumed_run C run = with_metadata run (dmerge (metadata_for_run run)
     [(''local_worker_recovery_next_retry_at'', PNone), (''local_worker_recovery_backoff_seconds'', PInt 0),
      (''local_worker_recovery_last_resume_scheduled_at'', PStr (cl_now_iso C))])"

definition requeued_run :: "cleanup_config \<Rightarrow> stale_claim \<Rightarrow> pydict \<Rightarrow> int \<Rightarrow> int \<Rightarrow> int \<Rightarrow> pydict" where
  "requeued_run C x run attempt limit backoff =
     (let text = (if 0 < backoff then ''Worker lost connection. Requeued for another local worker after backoff.''
            else ''Worker lost connection. Requeued for another local worker.'');
          metadata = dmerge (metadata_for_run run)
            [(''local_queue_retry_reason'', PStr ''worker_lost''), (''local_queue_retry_count'', PInt attempt),
             (''local_queue_max_retries'', PInt limit), (''local_queue_retry_backoff_seconds'', PInt backoff),
             (''local_queue_next_retry_at'', next_retry_at C backoff)]
      in dmerge (with_metadata run metadata) (result_told text
           ([(''error'', PStr ''local_worker_requeued'')] @ stale_facts x @
            [(''retry_count'', PInt attempt), (''max_retries'', PInt limit), (''retry_backoff_seconds'', PInt backoff),
             (''next_retry_at'', next_retry_at C backoff)])))"

definition lost_run :: "stale_claim \<Rightarrow> pydict \<Rightarrow> int \<Rightarrow> int \<Rightarrow> pydict" where
  "lost_run x run retries limit = dmerge run (result_told ''Worker lost connection.''
     ([(''error'', PStr ''local_worker_lost_connection'')] @ stale_facts x @
      [(''retry_count'', PInt retries), (''max_retries'', PInt limit)]))"

text \<open>The second half: back to the queue while the retry budget lasts, then failed and a dead letter.\<close>

definition retry_or_fail :: "cleanup_config \<Rightarrow> stale_claim \<Rightarrow> bool \<Rightarrow> pydict \<Rightarrow> machine_state \<Rightarrow> (machine_error + unit) \<times> machine_state" where
  "retry_or_fail C x is_local run s =
     (let run_id = sc_run_id x; metadata = metadata_for_run run in
      case py_int (por (dget metadata ''local_queue_retry_count'') (PInt 0)) of
        Inl e \<Rightarrow> (Inl (Fault e), s)
      | Inr retries \<Rightarrow>
        (case py_int (por (dget metadata ''local_queue_max_retries'') (PInt (cl_max_retries C))) of
           Inl e \<Rightarrow> (Inl (Fault e), s)
         | Inr given_limit \<Rightarrow>
           (let limit = max 0 given_limit in
            if is_local \<and> cl_requeue C \<and> retries < limit
            then
              (let attempt = retries + 1; backoff = backoff_at (int_list_or (cl_retry_backoff C)) attempt;
                   s1 = called (RunStatus run_id ''queued_local'') (put_run run_id (requeued_run C x run attempt limit backoff) s);
                   s2 = (if run_id \<in> set (ms_pending s1) then s1 else s1\<lparr>ms_pending := ms_pending s1 @ [run_id]\<rparr>)
               in (Inr (), called Persist s2))
            else
              (Inr (), called (RunStatus run_id ''failed'') (put_run run_id (lost_run x run retries limit) (dead_lettered C
                 (dead_letter_call run_id run ''worker_lost_retry_exhausted'' (max retries limit)
                   ([(''run_id'', PStr run_id)] @ stale_facts x @
                    [(''retry_count'', PInt retries), (''max_retries'', PInt limit), (''failure_kind'', PStr ''worker_lost'')])) s))))))"

definition recover_run :: "machine_env \<Rightarrow> cleanup_config \<Rightarrow> stale_claim \<Rightarrow> machine_state \<Rightarrow> (machine_error + unit) \<times> machine_state" where
  "recover_run M C x s =
     (let run_id = sc_run_id x in
      case run_at (ms_runs s) run_id of
        None \<Rightarrow> (Inr (), s)
      | Some run0 \<Rightarrow>
        if run_status_token run0 \<in> {''completed'', ''failed'', ''timeout''} then (Inr (), s)
        else
          (let checkpoint = dict_of (dget run0 ''browser_checkpoint'');
               metadata = metadata_for_run run0;
               is_local = (lower (first_text [dget metadata ''execution_target_selected'', dget metadata ''execution_target''] [])
                 \<in> {''local'', ''local_companion''});
               run = clear_active_machine_lease_binding run0;
               s1 = put_run run_id run s in
           if checkpoint \<noteq> [] \<and> is_local
           then (case py_int (por (dget metadata ''local_worker_recovery_attempt_count'') (PInt 0)) of
               Inl e \<Rightarrow> (Inl (Fault e), s1)
             | Inr attempts \<Rightarrow>
               (let limit = max 1 (if cl_max_recoveries C = 0 then 1 else cl_max_recoveries C);
                    backoff = backoff_at (int_list_or (cl_recovery_backoff C)) (attempts + 1);
                    run1 = recovering_run C x run checkpoint (attempts + 1) limit backoff;
                    s2 = called (RunStatus run_id ''waiting_for_input'') (put_run run_id run1 s1) in
                if limit < attempts + 1 then (Inr (), recovery_exhausted C x run checkpoint attempts limit s1)
                else if 0 < backoff then (Inr (), s2)
                else if me_resume M run_id run1 then (Inr (), put_run run_id (resumed_run C run1) (called (ResumeRun run_id) s2))
                else let run2 = dpop ''_resume_after_confirmation_scheduled'' run1 in
                  retry_or_fail C x is_local run2 (put_run run_id run2 (called (ResumeRun run_id) s2))))
           else retry_or_fail C x is_local run s1))"

fun recover_runs :: "machine_env \<Rightarrow> cleanup_config \<Rightarrow> stale_claim list \<Rightarrow> machine_state \<Rightarrow> (machine_error + unit) \<times> machine_state" where
  "recover_runs M C [] s = (Inr (), s)"
| "recover_runs M C (x # xs) s = (case recover_run M C x s of
     (Inl e, s') \<Rightarrow> (Inl e, s') | (Inr _, s') \<Rightarrow> recover_runs M C xs s')"

definition cleanup_stale_machine_leases ::
    "machine_env \<Rightarrow> cleanup_config \<Rightarrow> machine_state \<Rightarrow> (machine_error + string list) \<times> machine_state" where
  "cleanup_stale_machine_leases M C s =
     (case drop_stale M C (ms_claimed s) False [] s of
        (Inl e, s1) \<Rightarrow> (Inl e, s1)
      | (Inr (changed, stale), s1) \<Rightarrow>
        (case recover_runs M C stale (if changed then called Persist s1 else s1) of
           (Inl e, s2) \<Rightarrow> (Inl e, s2)
         | (Inr _, s2) \<Rightarrow> (Inr (map sc_run_id stale), s2)))"

end
