(* ===== verification/Machine_Lease_Laws.thy ===== *)
theory Machine_Lease_Laws
  imports Machine_Leases "HOL-Library.Sublist"
begin

text \<open>
  What the operations on machine leases guarantee: first the kernel's decisions on the requests the
  service builds, then claiming, releasing, cleaning up and the sessions, and last the invariants of
  every history of operations.
\<close>

subsection \<open>The kernel's decisions on the requests of the gates\<close>

lemma rust_space_py: "rust_space c \<Longrightarrow> py_space c"
  by (auto simp: rust_space_def py_space_def)

lemma dropWhile_hd_id: "(xs \<noteq> [] \<Longrightarrow> \<not> P (hd xs)) \<Longrightarrow> dropWhile P xs = xs"
  by (cases xs) auto

lemma rust_trim_strip [simp]: "rust_trim (strip s) = strip s"
proof -
  have front: "strip s \<noteq> [] \<Longrightarrow> \<not> rust_space (hd (strip s))"
    using strip_strip [of s] rust_space_py by (metis dropWhile.simps(1) dropWhile_idem hd_dropWhile strip_def rev_is_Nil_conv rev_rev_ident dropWhile_rev_idem)
  have at_end: "strip s \<noteq> [] \<Longrightarrow> \<not> rust_space (hd (rev (strip s)))"
    unfolding strip_def using hd_dropWhile rust_space_py by (metis rev_is_Nil_conv rev_rev_ident)
  have "dropWhile rust_space (strip s) = strip s" using front by (rule dropWhile_hd_id)
  moreover have "dropWhile rust_space (rev (strip s)) = rev (strip s)" using at_end by (intro dropWhile_hd_id) auto
  ultimately show ?thesis unfolding rust_trim_def by simp
qed

lemma or_else_same [simp]: "or_else a a = a" "or_else a None = a"
  by (cases a; simp)+

lemma string_field_strip:
  "map_of input k = Some (PStr (strip s)) \<Longrightarrow> string_field input k = snone (strip s)"
  by (simp add: string_field_def)

lemma lease_operations [simp]:
  "lease_operation ''acquire'' = ''acquire''" "lease_operation ''release'' = ''release''" "lease_operation ''heartbeat'' = ''heartbeat''"
  "rust_trim ''acquire'' = ''acquire''" "rust_trim ''release'' = ''release''" "rust_trim ''heartbeat'' = ''heartbeat''"
  by (simp_all add: lease_operation_def normalize_token_def rust_trim_def rust_space_def Let_def)

definition kernel_u64 :: "int \<Rightarrow> int \<Rightarrow> int" where
  "kernel_u64 d n = (if n < 2 ^ 64 then n else d)"

lemma boolish_bool [simp]: "map_of input k = Some (PBool b) \<Longrightarrow> boolish input k = b"
  by (simp add: boolish_def)

lemma lease_fields:
  "map_of (lease_gate_payload g) ''operation'' = Some (PStr (lg_operation g))"
  "map_of (lease_gate_payload g) ''holder_id'' = Some (PStr (strip (lg_holder g)))"
  "map_of (lease_gate_payload g) ''requested_holder_id'' = Some (PStr (strip (lg_holder g)))"
  "map_of (lease_gate_payload g) ''current_holder_id'' = Some (PStr (strip (lg_current_holder g)))"
  "map_of (lease_gate_payload g) ''lease_id'' = Some (PStr (strip (lg_lease g)))"
  "map_of (lease_gate_payload g) ''current_lease_id'' = Some (PStr (strip (lg_current_lease g)))"
  "map_of (lease_gate_payload g) ''existing_lease_id'' = None"
  "map_of (lease_gate_payload g) ''active_lease_count'' = Some (PInt (max 0 (lg_active g)))"
  "map_of (lease_gate_payload g) ''max_concurrent_leases'' = Some (PInt (max 1 (lg_limit g)))"
  "map_of (lease_gate_payload g) ''stale'' = Some (PBool (lg_stale g))"
  "map_of (lease_gate_payload g) ''expired'' = Some (PBool (lg_stale g))"
  "map_of (lease_gate_payload g) ''force'' = Some (PBool False)"
  by (simp_all add: lease_gate_payload_def)

lemma lease_request:
  "string_field (lease_gate_payload g) ''holder_id'' = snone (strip (lg_holder g))"
  "string_field (lease_gate_payload g) ''requested_holder_id'' = snone (strip (lg_holder g))"
  "string_field (lease_gate_payload g) ''current_holder_id'' = snone (strip (lg_current_holder g))"
  "string_field (lease_gate_payload g) ''lease_id'' = snone (strip (lg_lease g))"
  "string_field (lease_gate_payload g) ''current_lease_id'' = snone (strip (lg_current_lease g))"
  "string_field (lease_gate_payload g) ''existing_lease_id'' = None"
  "u64_field (lease_gate_payload g) ''active_lease_count'' 0 = kernel_u64 0 (max 0 (lg_active g))"
  "u64_field (lease_gate_payload g) ''max_concurrent_leases'' 1 = kernel_u64 1 (max 1 (lg_limit g))"
  "boolish (lease_gate_payload g) ''stale'' = lg_stale g" "boolish (lease_gate_payload g) ''expired'' = lg_stale g"
  "boolish (lease_gate_payload g) ''force'' = False"
  by (simp_all add: string_field_def u64_field_def kernel_u64_def boolish_def lease_fields)

lemma lease_request_operation:
  "rust_trim (lg_operation g) = lg_operation g \<Longrightarrow> lg_operation g \<noteq> [] \<Longrightarrow>
   or_text (or_else (string_field (lease_gate_payload g) ''operation'') x) [] = lg_operation g"
  by (simp add: string_field_def lease_fields snone_def or_text_def)


lemma release_payload:
  assumes "lg_operation g = ''release''"
  shows "machine_lease_decision (lease_gate_payload g) =
    release_decision (snone (strip (lg_holder g))) (snone (strip (lg_current_holder g))) (snone (strip (lg_lease g)))
      (snone (strip (lg_current_lease g))) (lg_stale g) False"
  using assms by (simp add: machine_lease_decision_def Let_def lease_request lease_request_operation)

lemma heartbeat_payload:
  assumes "lg_operation g = ''heartbeat''"
  shows "machine_lease_decision (lease_gate_payload g) =
    heartbeat_decision (snone (strip (lg_holder g))) (snone (strip (lg_current_holder g))) (snone (strip (lg_lease g)))
      (snone (strip (lg_current_lease g))) (lg_stale g)"
  using assms by (simp add: machine_lease_decision_def Let_def lease_request lease_request_operation)

text \<open>How a response of the lease kernel passes the client.\<close>

lemma response_enforced:
  assumes "decision \<in> {''allow'', ''block'', ''require_approval''}" and "strip reason = reason" and "reason \<noteq> []"
  shows "enforce_kernel_decision dig command (lease_response decision reason operation holder current lease ttl force) False =
    (if decision = ''block'' then Inl (KernelDecisionError reason)
     else if decision = ''require_approval'' then Inl (KernelApprovalRequired reason)
     else Inr (normalize_kernel_decision dig command (lease_response decision reason operation holder current lease ttl force)))"
proof -
  define R where "R = lease_response decision reason operation holder current lease ttl force"
  have r: "dget R ''decision'' = PStr decision" "dget R ''ok'' = PBool (decision \<noteq> ''block'')"
      "dget R ''approval_required'' = PBool (decision = ''require_approval'')" "dget R ''reason'' = PStr reason"
    by (simp_all add: R_def lease_response_def)
  have "strip decision = decision \<and> decision \<noteq> []"
    using assms(1) by (elim insertE emptyE) (simp_all add: strip_def py_space_def)
  then have d: "dget (normalize_kernel_decision dig command R) ''decision'' = PStr decision"
    by (simp add: normalize_kernel_decision_def Let_def r sor_def)
  have "dget (normalize_kernel_decision dig command R) ''reason'' = PStr reason"
    using assms(2,3) by (simp add: normalize_kernel_decision_def Let_def r)
  then have reason: "decision_reason (normalize_kernel_decision dig command R) = reason" using assms(2,3) by (simp add: decision_reason_def)
  show ?thesis using assms(1) unfolding R_def [symmetric]
    by (auto simp: enforce_kernel_decision_def Let_def normalize_ok normalize_approval d r reason)
qed

lemma response_allows:
  "dget (normalize_kernel_decision dig command (lease_response ''allow'' reason operation holder current lease ttl force)) ''decision'' = PStr ''allow''"
  by (simp add: normalize_kernel_decision_def Let_def lease_response_def sor_def strip_def py_space_def)

lemma strip_reasons:
  "strip ''lease_capacity_exhausted'' = ''lease_capacity_exhausted''"
  "strip ''lease_release_id_mismatch'' = ''lease_release_id_mismatch''"
  "strip ''lease_release_not_owned'' = ''lease_release_not_owned''"
  "strip ''lease_release_allowed'' = ''lease_release_allowed''"
  "strip ''stale_lease_release_allowed'' = ''stale_lease_release_allowed''"
  "strip ''lease_acquire_allowed'' = ''lease_acquire_allowed''"
  "strip ''lease_already_held_by_requester'' = ''lease_already_held_by_requester''"
  by (simp_all add: strip_def py_space_def)

lemma block_enforced: "enforce_kernel_decision dig command (kernel_block reason) False \<noteq> Inr d"
  by (simp add: enforce_kernel_decision_def Let_def kernel_block_def normalize_ok)

lemma lease_kernel_gate:
  "kern E = lease_kernel k \<Longrightarrow> run_runtime_kernel_enforced E ''machine-lease-decision'' input =
     enforce_kernel_decision (digest E) ''machine-lease-decision'' (machine_lease_decision input) False"
  by (simp add: run_runtime_kernel_enforced_def lease_kernel_def)

lemma machine_gate_open:
  assumes "enforce_machine_lease_decision E g = Inr d" and "kern E = lease_kernel k"
  shows "enforce_kernel_decision (digest E) ''machine-lease-decision'' (machine_lease_decision (lease_gate_payload g)) False = Inr d"
  using assms by (auto simp: enforce_machine_lease_decision_def lease_kernel_gate Let_def split: sum.splits option.splits if_splits)


lemma gate_released:
  assumes "enforce_machine_lease_decision E g = Inr d" and "kern E = lease_kernel k" and "lg_operation g = ''release''"
  shows "strip (lg_holder g) \<noteq> []" and "strip (lg_current_holder g) = strip (lg_holder g)" and "strip (lg_lease g) \<noteq> []"
    and "strip (lg_current_lease g) \<in> {[], strip (lg_lease g)}" and "dget d ''decision'' = PStr ''allow''"
proof -
  have "enforce_kernel_decision (digest E) ''machine-lease-decision'' (release_decision (snone (strip (lg_holder g)))
      (snone (strip (lg_current_holder g))) (snone (strip (lg_lease g))) (snone (strip (lg_current_lease g))) (lg_stale g) False) False = Inr d"
    using machine_gate_open [OF assms(1,2)] assms(3) by (simp add: release_payload)
  then show "strip (lg_holder g) \<noteq> []" "strip (lg_current_holder g) = strip (lg_holder g)" "strip (lg_lease g) \<noteq> []"
    "strip (lg_current_lease g) \<in> {[], strip (lg_lease g)}" "dget d ''decision'' = PStr ''allow''"
    by (auto simp: release_decision_def holder_decision_def block_enforced response_enforced response_allows snone_def strip_reasons
        split: option.splits if_splits)
qed

lemma gate_refuses_lease:
  assumes "kern E = lease_kernel k" and "lg_operation g = ''release''" and "lg_allow_block g"
    and "strip (lg_holder g) \<noteq> []" and "strip (lg_lease g) \<noteq> []" and "strip (lg_current_lease g) \<noteq> []"
    and "strip (lg_lease g) \<noteq> strip (lg_current_lease g)"
  shows "enforce_machine_lease_decision E g = Inl (AttributeFault ''RustKernelDecisionError object has no attribute result'')"
  using assms by (simp add: enforce_machine_lease_decision_def lease_kernel_gate release_payload release_decision_def holder_decision_def
      response_enforced strip_reasons snone_def lease_gate_refused_def)

subsection \<open>The queue gate for a release\<close>

lemma queue_words [simp]:
  "strip ''claimed'' = ''claimed''" "rust_trim ''claimed'' = ''claimed''" "queue_status ''claimed'' = ''claimed''"
  "strip ''release'' = ''release''" "strip ''release_queue_item'' = ''release_queue_item''"
  "queue_operation ''release'' = ''release''"
  by (simp_all add: strip_def py_space_def rust_trim_def rust_space_def queue_status_def queue_operation_def normalize_token_def Let_def)

lemma queue_release_fields:
  "queue_item_of (queue_gate_payload ((queue_gate_defaults ''release'' run requester holder ''claimed'')\<lparr>qg_stale := stale\<rparr>)) =
     \<lparr>qi_item = snone (strip run), qi_requester = snone (strip requester), qi_holder = snone (strip holder), qi_status = ''claimed'',
      qi_attempts = 0, qi_max_attempts = 3, qi_stale = stale, qi_force = False, qi_reason = None\<rparr>"
  by (simp add: queue_item_of_def queue_gate_payload_def queue_gate_defaults_def string_field_def boolish_def u64_field_def or_text_def
      snone_def sor_def Let_def)

lemma queue_release_operation:
  "queue_operation (or_text (or_else (string_field (queue_gate_payload ((queue_gate_defaults ''release'' run requester holder ''claimed'')
     \<lparr>qg_stale := stale\<rparr>)) ''operation'') x) []) = ''release''"
  by (simp add: queue_gate_payload_def queue_gate_defaults_def string_field_def or_text_def snone_def)

lemma allow_item_enforced:
  assumes "operation = ''release''" and "strip reason = reason" and "reason \<noteq> []"
  shows "\<exists>d. enforce_kernel_decision dig command (allow_item operation reason next_status terminal q) False = Inr d
    \<and> tok (dget d ''next_action'') = ''release_queue_item''"
proof -
  define R where "R = allow_item operation reason next_status terminal q"
  have r: "dget R ''decision'' = PStr ''allow''" "dget R ''ok'' = PBool True"
      "dget R ''approval_required'' = PBool False" "tok (dget R ''next_action'') = ''release_queue_item''"
    using assms(1) by (simp_all add: R_def allow_item_def queue_response_def queue_next_action_def strip_def py_space_def)
  have "dget (normalize_kernel_decision dig command R) ''decision'' = PStr ''allow''"
    by (simp add: normalize_kernel_decision_def Let_def r sor_def strip_def py_space_def)
  with r show ?thesis unfolding R_def [symmetric]
    by (simp add: enforce_kernel_decision_def Let_def normalize_ok normalize_approval normalize_fields)
qed

lemma queue_gate_releases:
  assumes "kern E = lease_kernel k" and "strip run \<noteq> []" and "strip requester = strip holder \<or> stale"
  shows "\<exists>d. enforce_queue_transition_decision E ((queue_gate_defaults ''release'' run requester holder ''claimed'')\<lparr>qg_stale := stale\<rparr>) = Inr d"
proof -
  let ?g = "(queue_gate_defaults ''release'' run requester holder ''claimed'')\<lparr>qg_stale := stale\<rparr>"
  let ?q = "queue_item_of (queue_gate_payload ?g)"
  have "queue_transition_decision (queue_gate_payload ?g) = queue_release_decision ?q"
    by (simp add: queue_transition_decision_def queue_release_operation Let_def)
  also have "\<dots> = allow_item ''release'' (if stale then ''stale_queue_release_allowed'' else ''queue_release_allowed'') ''queued'' False ?q"
    using assms(2,3) by (auto simp: queue_release_decision_def queue_release_fields not_owner_def snone_def)
  finally have "\<exists>d. run_runtime_kernel_enforced E ''queue-transition-decision'' (queue_gate_payload ?g) = Inr d
      \<and> tok (dget d ''next_action'') = ''release_queue_item''"
    using assms(1) by (simp add: run_runtime_kernel_enforced_def lease_kernel_def allow_item_enforced strip_def py_space_def)
  moreover have "qg_operation ?g = ''release''" "strip ''release'' = ''release''" by (simp_all add: queue_gate_defaults_def strip_def py_space_def)
  ultimately show ?thesis
    by (auto simp: enforce_queue_transition_decision_def expected_queue_action_def Let_def)
qed

subsection \<open>Releasing a claim\<close>

text \<open>A kernel for the witnesses: the lease kernel, with any other command allowed.\<close>

definition machine_repo :: repo_env where
  "machine_repo = (allow_env 0)\<lparr>kern := lease_kernel allow_kernel\<rparr>"

definition demo_machines :: machine_env where
  "demo_machines = \<lparr>me_repo = machine_repo, me_now = None, me_now_iso = ''t'', me_parse = None, me_preferences = (\<lambda>r. []),
     me_required = (\<lambda>r. []), me_normalize = (\<lambda>v. []), me_cleanup = (\<lambda>s. (Inr [], s)), me_lease_seconds = 60, me_lease_id = ''L2'',
     me_resume = (\<lambda>r d. False)\<rparr>"

definition demo_claim :: pydict where
  "demo_claim = [(''worker_id'', PStr ''w1''), (''lease_id'', PStr ''L1''), (''lease_seconds'', PInt 60)]"

definition demo_machine_state :: machine_state where
  "demo_machine_state = \<lparr>ms_pending = [''r2''], ms_claimed = [(''r1'', PDict demo_claim)],
     ms_workers = [(''w1'', PDict [(''max_concurrent_sessions'', PInt 2)])], ms_runs = [(''r2'', PDict [(''status'', PStr ''queued_local'')])],
     ms_calls = []\<rparr>"

lemma claim_holder_strip [simp]: "strip (claim_holder_text claim) = claim_holder_text claim"
  by (simp add: claim_holder_text_def first_text_def sor_def)

lemma release_gates_open:
  assumes "release_gates E run requester lease claim stale allow_block = Inr d" and "kern E = lease_kernel k"
  shows "strip requester \<noteq> []" and "claim_holder_text claim = strip requester" and "strip lease \<noteq> []"
    and "tok (dget claim ''lease_id'') \<in> {[], strip lease}" and "dget d ''decision'' = PStr ''allow''"
proof -
  let ?g = "(lease_gate_defaults ''release'' requester)\<lparr>lg_current_holder := claim_holder_text claim, lg_lease := lease,
    lg_current_lease := tok (dget claim ''lease_id''), lg_stale := stale, lg_allow_block := allow_block\<rparr>"
  have "enforce_machine_lease_decision E ?g = Inr d"
    using assms(1) by (auto simp: release_gates_def Let_def split: sum.splits)
  from gate_released [OF this assms(2)]
  show "strip requester \<noteq> []" "claim_holder_text claim = strip requester" "strip lease \<noteq> []"
    "tok (dget claim ''lease_id'') \<in> {[], strip lease}" "dget d ''decision'' = PStr ''allow''"
    by (simp_all add: lease_gate_defaults_def)
qed

lemma release_error_unchanged:
  "fst (release_machine_lease_claim M run worker lease persist seen hint note s) = Inl e \<Longrightarrow>
   snd (release_machine_lease_claim M run worker lease persist seen hint note s) = s"
  by (auto simp: release_machine_lease_claim_def Let_def split: sum.splits if_splits)

text \<open>
  C14. With the kernel's lease decisions a claim is released for its holder only, under its lease if
  the caller names one and the claim has one; then it is gone from the claims. A release that fails
  changes nothing.
\<close>

theorem release_needs_holder:
  assumes "kern (me_repo M) = lease_kernel k" and "dget (ms_claimed s) run = PDict claim"
  shows "case release_machine_lease_claim M run worker lease persist seen hint note s of
     (Inl e, s') \<Rightarrow> s' = s
   | (Inr reply, s') \<Rightarrow> rl_released reply \<and> \<not> rl_mismatch reply \<and> rl_worker reply = claim_holder_text claim \<and> rl_worker reply \<noteq> []
       \<and> (opt_tok lease \<noteq> [] \<and> tok (dget claim ''lease_id'') \<noteq> [] \<longrightarrow> opt_tok lease = tok (dget claim ''lease_id''))
       \<and> ms_claimed s' = dpop run (ms_claimed s) \<and> ms_pending s' = ms_pending s \<and> ms_runs s' = ms_runs s"
proof (cases "fst (release_machine_lease_claim M run worker lease persist seen hint note s)")
  case (Inl e)
  with release_error_unchanged [OF Inl] show ?thesis by (simp add: case_prod_unfold)
next
  case (Inr reply)
  let ?resolved = "sor (opt_tok worker) (tok (dget claim ''worker_id''))"
  let ?lease = "sor (opt_tok lease) (tok (dget claim ''lease_id''))"
  obtain d where gate: "release_gates (me_repo M) run ?resolved ?lease claim False True = Inr d"
    using Inr assms(2) by (auto simp: release_machine_lease_claim_def Let_def split: sum.splits)
  note open_gate = release_gates_open [OF gate assms(1)]
  have "lower (tok (dget d ''decision'')) = ''allow''"
    using open_gate(5) by (simp add: lower_def strip_def py_space_def)
  moreover have "strip ?resolved = ?resolved" "strip ?lease = ?lease" by (simp_all add: sor_def)
  ultimately show ?thesis using open_gate(1-4) gate assms(2)
    by (auto simp: release_machine_lease_claim_def Let_def sor_def called_def split: option.splits)
qed

theorem release_needs_holder_witness:
  "case release_machine_lease_claim demo_machines ''r1'' (Some ''w1'') (Some ''L1'') True True None None demo_machine_state of
     (Inl e, s') \<Rightarrow> s' = demo_machine_state
   | (Inr reply, s') \<Rightarrow> rl_released reply \<and> \<not> rl_mismatch reply \<and> rl_worker reply = claim_holder_text demo_claim \<and> rl_worker reply \<noteq> []
       \<and> (opt_tok (Some ''L1'') \<noteq> [] \<and> tok (dget demo_claim ''lease_id'') \<noteq> [] \<longrightarrow> opt_tok (Some ''L1'') = tok (dget demo_claim ''lease_id''))
       \<and> ms_claimed s' = dpop ''r1'' (ms_claimed demo_machine_state) \<and> ms_pending s' = ms_pending demo_machine_state
       \<and> ms_runs s' = ms_runs demo_machine_state"
  by (rule release_needs_holder [where k = allow_kernel])
    (simp_all add: demo_machines_def machine_repo_def demo_machine_state_def)

text \<open>
  The refusal of a lease that is not the claim's is meant to be answered with \<open>lease_mismatch\<close>,
  but the holder who presents another lease gets an \<open>AttributeError\<close>: the exception of the kernel
  client has no attribute \<open>result\<close>.
\<close>

theorem lease_mismatch_crashes:
  assumes "kern (me_repo M) = lease_kernel k" and "dget (ms_claimed s) run = PDict claim" and "strip run \<noteq> []"
    and "claim_holder_text claim \<noteq> []" and "opt_tok worker = claim_holder_text claim"
    and "opt_tok lease \<noteq> []" and "tok (dget claim ''lease_id'') \<noteq> []" and "opt_tok lease \<noteq> tok (dget claim ''lease_id'')"
  shows "release_machine_lease_claim M run worker lease persist seen hint note s =
    (Inl (AttributeFault ''RustKernelDecisionError object has no attribute result''), s)"
proof -
  let ?g = "(lease_gate_defaults ''release'' (opt_tok worker))\<lparr>lg_current_holder := claim_holder_text claim, lg_lease := opt_tok lease,
    lg_current_lease := tok (dget claim ''lease_id''), lg_stale := False, lg_allow_block := True\<rparr>"
  have "enforce_machine_lease_decision (me_repo M) ?g = Inl (AttributeFault ''RustKernelDecisionError object has no attribute result'')"
    by (rule gate_refuses_lease [OF assms(1)]) (use assms(4-8) in \<open>simp_all add: lease_gate_defaults_def\<close>)
  moreover obtain d where "enforce_queue_transition_decision (me_repo M)
      ((queue_gate_defaults ''release'' run (opt_tok worker) (claim_holder_text claim) ''claimed'')\<lparr>qg_stale := False\<rparr>) = Inr d"
    using queue_gate_releases [OF assms(1,3), of "opt_tok worker" "claim_holder_text claim" False] assms(5) by auto
  ultimately have "release_gates (me_repo M) run (opt_tok worker) (opt_tok lease) claim False True =
      Inl (AttributeFault ''RustKernelDecisionError object has no attribute result'')"
    by (simp add: release_gates_def Let_def)
  with assms(2,4-6) show ?thesis by (simp add: release_machine_lease_claim_def Let_def sor_def)
qed

theorem lease_mismatch_crashes_witness:
  "fst (release_machine_lease_claim demo_machines ''r1'' (Some ''w1'') (Some ''L9'') True True None None demo_machine_state) =
     Inl (AttributeFault ''RustKernelDecisionError object has no attribute result'')"
  by (subst lease_mismatch_crashes [of demo_machines allow_kernel demo_machine_state "''r1''" demo_claim "Some ''w1''" "Some ''L9''"])
    (simp_all add: demo_machines_def machine_repo_def demo_machine_state_def demo_claim_def claim_holder_text_def first_text_def
      por_def sor_def strip_def py_space_def tok_def)

subsection \<open>Histories of operations\<close>

text \<open>A claim starts with the cleanup of the stale claims, configured as any cleanup.\<close>

datatype machine_op =
    ClaimOp machine_env cleanup_config string pyval
  | ReleaseOp machine_env string "string option" "string option" bool bool "string option" "string option"
  | ReconcileOp machine_env string
  | RecoveredOp machine_env "string list"
  | CleanupOp machine_env cleanup_config

fun machine_step :: "machine_op \<Rightarrow> machine_state \<Rightarrow> machine_state" where
  "machine_step (ClaimOp M C worker required) s =
     snd (claim_local_machine_lease (M\<lparr>me_cleanup := cleanup_stale_machine_leases M C\<rparr>) worker required s)"
| "machine_step (ReleaseOp M run worker lease persist seen hint note) s =
     snd (release_machine_lease_claim M run worker lease persist seen hint note s)"
| "machine_step (ReconcileOp M run) s = snd (reconcile_machine_lease_release M run s)"
| "machine_step (RecoveredOp M ids) s = snd (reconcile_recovered_machine_leases M ids s)"
| "machine_step (CleanupOp M C) s = snd (cleanup_stale_machine_leases M C s)"

definition lease_wf :: "machine_state \<Rightarrow> bool" where
  "lease_wf s \<longleftrightarrow> distinct (ms_pending s) \<and> distinct (map fst (ms_claimed s))
     \<and> set (ms_pending s) \<inter> fst ` set (ms_claimed s) = {}
     \<and> (\<forall>r \<in> set (ms_pending s) \<union> fst ` set (ms_claimed s). strip r = r)"

lemma subseq_set: "subseq xs ys \<Longrightarrow> set xs \<subseteq> set ys"
  by (auto elim: list_emb_set)

lemma subseq_distinct: "subseq xs ys \<Longrightarrow> distinct ys \<Longrightarrow> distinct xs"
  by (induction rule: list_emb.induct) (auto dest: subseq_set)

lemma dpop_filter: "dpop k d = filter (\<lambda>(k', v). k' \<noteq> k) d"
  by (induction d) (auto simp: dpop_def)

lemma subseq_dpop [simp]: "subseq (dpop k a) a"
  by (simp add: dpop_filter)

lemma lease_wf_subseq:
  assumes "lease_wf s" and "subseq (ms_claimed s') (ms_claimed s)" and "subseq (ms_pending s') (ms_pending s)"
  shows "lease_wf s'"
  using assms(1) subseq_set [OF assms(2)] subseq_distinct [OF subseq_map [OF assms(2)], of fst]
    subseq_set [OF assms(3)] subseq_distinct [OF assms(3)]
  unfolding lease_wf_def by blast

subsubsection \<open>Release and reconciliation only remove\<close>

lemma called_simps [simp]:
  "ms_pending (called c s) = ms_pending s" "ms_claimed (called c s) = ms_claimed s" "ms_workers (called c s) = ms_workers s"
  "ms_runs (called c s) = ms_runs s" "ms_calls (called c s) = ms_calls s @ [c]"
  by (simp_all add: called_def)

lemma fold_called [simp]:
  "ms_pending (fold (\<lambda>r. called (f r)) rs s) = ms_pending s" "ms_claimed (fold (\<lambda>r. called (f r)) rs s) = ms_claimed s"
  "ms_workers (fold (\<lambda>r. called (f r)) rs s) = ms_workers s" "ms_runs (fold (\<lambda>r. called (f r)) rs s) = ms_runs s"
  by (induction rs arbitrary: s) simp_all

text \<open>A step that takes claims and pending runs away and leaves the workers alone.\<close>

definition only_removes :: "machine_state \<Rightarrow> ('r \<times> machine_state) set" where
  "only_removes s = {(r, s'). subseq (ms_claimed s') (ms_claimed s) \<and> subseq (ms_pending s') (ms_pending s) \<and> ms_workers s' = ms_workers s}"

lemma release_only_removes: "release_machine_lease_claim M run worker lease persist seen hint note s \<in> only_removes s"
  unfolding release_machine_lease_claim_def Let_def
  by (intro branch) (auto simp: only_removes_def split: option.splits)

lemma reconcile_only_removes: "reconcile_machine_lease_release M run s \<in> only_removes s"
  unfolding reconcile_machine_lease_release_def Let_def
  by (intro branch) (auto simp: only_removes_def)

lemma drop_recovered_only_removes: "drop_recovered M ids s \<in> only_removes s"
proof (induction M ids s rule: drop_recovered.induct)
  case (2 M run_id rest s)
  define s1 where "s1 = s\<lparr>ms_claimed := dpop run_id (ms_claimed s)\<rparr>"
  have "subseq (ms_claimed s1) (ms_claimed s)" "ms_pending s1 = ms_pending s" "ms_workers s1 = ms_workers s"
    by (simp_all add: s1_def)
  moreover have "subseq x (ms_claimed s1) \<Longrightarrow> subseq x (ms_claimed s)" for x
    unfolding s1_def by (simp add: subseq_order.order_trans [OF _ subseq_dpop])
  ultimately show ?case using 2
    by (auto simp: only_removes_def s1_def [symmetric] Let_def split: sum.splits prod.splits)
qed (simp add: only_removes_def)

lemma recovered_only_removes: "reconcile_recovered_machine_leases M ids s \<in> only_removes s"
  using drop_recovered_only_removes [of M "remdups (filter (\<lambda>r. strip r \<noteq> []) ids)"
      "s\<lparr>ms_pending := filter (\<lambda>r. r \<notin> set (remdups (filter (\<lambda>r. strip r \<noteq> []) ids))) (ms_pending s)\<rparr>"]
  unfolding reconcile_recovered_machine_leases_def Let_def
  by (auto simp: only_removes_def intro: subseq_order.order_trans split: sum.splits prod.splits)

subsubsection \<open>What the cleanup keeps\<close>

definition claim_kept :: "cleanup_config \<Rightarrow> pyval \<Rightarrow> bool" where
  "claim_kept C v \<longleftrightarrow> is_dict v \<and> \<not> claim_lost C (dict_of v)"

text \<open>A step that takes claims away and leaves the queue and the runs alone.\<close>

definition drops_claims :: "machine_state \<Rightarrow> ('r \<times> machine_state) set" where
  "drops_claims s = {(r, s'). subseq (ms_claimed s') (ms_claimed s) \<and> ms_pending s' = ms_pending s \<and> ms_runs s' = ms_runs s}"

lemma drops_claims_trans:
  "c \<in> drops_claims s1 \<Longrightarrow> subseq (ms_claimed s1) (ms_claimed s) \<Longrightarrow> ms_pending s1 = ms_pending s \<Longrightarrow> ms_runs s1 = ms_runs s
   \<Longrightarrow> c \<in> drops_claims s"
  by (auto simp: drops_claims_def intro: subseq_order.order_trans)

lemma drop_stale_drops: "drop_stale M C cs changed stale s \<in> drops_claims s"
proof (induction cs arbitrary: changed stale s)
  case (Cons x rest)
  obtain run_id held where x: "x = (run_id, held)" by (cases x)
  show ?case unfolding x drop_stale.simps Let_def
    by (intro branch; (rule drops_claims_trans [OF Cons.IH])?) (simp_all add: drops_claims_def)
qed (simp add: drops_claims_def)

definition lost_claims :: "cleanup_config \<Rightarrow> pydict \<Rightarrow> string list" where
  "lost_claims C cs = map fst (filter (\<lambda>(r, h). is_dict h \<and> claim_lost C (dict_of h)) cs)"

definition swept :: "cleanup_config \<Rightarrow> pydict \<Rightarrow> stale_claim list \<Rightarrow> machine_state
    \<Rightarrow> ((machine_error + bool \<times> stale_claim list) \<times> machine_state) set" where
  "swept C cs stale s = {(r, s'). \<forall>changed' stale'. r = Inr (changed', stale') \<longrightarrow>
     map sc_run_id stale' = map sc_run_id stale @ lost_claims C cs \<and>
     ms_claimed s' = filter (\<lambda>(k, v). k \<notin> fst ` set (filter (\<lambda>(r, h). \<not> claim_kept C h) cs)) (ms_claimed s)}"

lemma filter_dpop: "filter P (dpop k d) = filter (\<lambda>(k', v). k' \<noteq> k \<and> P (k', v)) d"
  by (auto simp: dpop_filter intro: filter_cong)

lemma swept_junk:
  "c \<in> swept C rest stale (s\<lparr>ms_claimed := dpop run (ms_claimed s)\<rparr>) \<Longrightarrow> \<not> is_dict h \<Longrightarrow> c \<in> swept C ((run, h) # rest) stale s"
  by (auto simp: swept_def lost_claims_def claim_kept_def filter_dpop intro: filter_cong)

lemma swept_kept:
  "c \<in> swept C rest stale s \<Longrightarrow> is_dict h \<Longrightarrow> \<not> claim_lost C (dict_of h) \<Longrightarrow> c \<in> swept C ((run, h) # rest) stale s"
  by (auto simp: swept_def lost_claims_def claim_kept_def)

lemma swept_lost:
  "c \<in> swept C rest (stale @ [x]) s1 \<Longrightarrow> ms_claimed s1 = dpop run (ms_claimed s) \<Longrightarrow> sc_run_id x = run
   \<Longrightarrow> is_dict h \<Longrightarrow> claim_lost C (dict_of h) \<Longrightarrow> c \<in> swept C ((run, h) # rest) stale s"
  by (auto simp: swept_def lost_claims_def claim_kept_def filter_dpop intro: filter_cong)

lemma swept_failed: "(Inl e, s') \<in> swept C cs stale s"
  by (simp add: swept_def)

lemma drop_stale_swept: "drop_stale M C cs changed stale s \<in> swept C cs stale s"
proof (induction cs arbitrary: changed stale s)
  case (Cons x rest)
  obtain run_id held where x: "x = (run_id, held)" by (cases x)
  show ?case unfolding x drop_stale.simps Let_def
    by (intro branch; (rule swept_failed swept_junk [OF Cons.IH] swept_kept [OF Cons.IH] swept_lost [OF Cons.IH])?) simp_all
qed (simp add: swept_def lost_claims_def)

subsubsection \<open>What happens to the runs\<close>

text \<open>A step that leaves the claims and the workers alone and may queue the run \<open>r\<close>.\<close>

definition may_queue :: "string set \<Rightarrow> machine_state \<Rightarrow> ('r \<times> machine_state) set" where
  "may_queue R s = {(r, s'). ms_claimed s' = ms_claimed s \<and> ms_workers s' = ms_workers s \<and>
     (\<exists>rs. ms_pending s' = ms_pending s @ rs \<and> set rs \<subseteq> R - set (ms_pending s) \<and> distinct rs)}"

lemma put_run_simps [simp]:
  "ms_pending (put_run r d s) = ms_pending s" "ms_claimed (put_run r d s) = ms_claimed s" "ms_workers (put_run r d s) = ms_workers s"
  "ms_calls (put_run r d s) = ms_calls s"
  by (simp_all add: put_run_def)

lemma dead_lettered_simps [simp]:
  "ms_pending (dead_lettered C c s) = ms_pending s" "ms_claimed (dead_lettered C c s) = ms_claimed s"
  "ms_workers (dead_lettered C c s) = ms_workers s" "ms_runs (dead_lettered C c s) = ms_runs s"
  by (simp_all add: dead_lettered_def)

lemma retry_or_fail_queues: "retry_or_fail C x is_local run s \<in> may_queue {sc_run_id x} s"
  unfolding retry_or_fail_def Let_def
  by (intro branch) (auto simp: may_queue_def)

lemma may_queue_from:
  "c \<in> may_queue R s1 \<Longrightarrow> ms_pending s1 = ms_pending s \<Longrightarrow> ms_claimed s1 = ms_claimed s \<Longrightarrow> ms_workers s1 = ms_workers s \<Longrightarrow> c \<in> may_queue R s"
  by (auto simp: may_queue_def)

lemma recovery_exhausted_simps [simp]:
  "ms_pending (recovery_exhausted C x run ch a l s) = ms_pending s" "ms_claimed (recovery_exhausted C x run ch a l s) = ms_claimed s"
  "ms_workers (recovery_exhausted C x run ch a l s) = ms_workers s"
  by (simp_all add: recovery_exhausted_def Let_def)

lemma recover_run_queues: "recover_run M C x s \<in> may_queue {sc_run_id x} s"
  unfolding recover_run_def Let_def
  by (intro branch; (rule may_queue_from [OF retry_or_fail_queues])?) (auto simp: may_queue_def)

lemma recover_runs_queue: "recover_runs M C xs s \<in> may_queue (sc_run_id ` set xs) s"
proof (induction xs arbitrary: s)
  case (Cons x xs)
  obtain r s1 where step: "recover_run M C x s = (r, s1)" by (cases "recover_run M C x s")
  have one: "ms_claimed s1 = ms_claimed s" "ms_workers s1 = ms_workers s"
      "\<exists>rs. ms_pending s1 = ms_pending s @ rs \<and> set rs \<subseteq> {sc_run_id x} - set (ms_pending s) \<and> distinct rs"
    using recover_run_queues [of M C x s] by (auto simp: step may_queue_def)
  show ?case
  proof (cases r)
    case (Inl e)
    with one show ?thesis by (auto simp: step may_queue_def)
  next
    case (Inr u)
    obtain r2 s2 where rest: "recover_runs M C xs s1 = (r2, s2)" by (cases "recover_runs M C xs s1")
    from one(3) obtain rs where rs: "ms_pending s1 = ms_pending s @ rs" "set rs \<subseteq> {sc_run_id x} - set (ms_pending s)" "distinct rs" by blast
    from Cons.IH [of s1] obtain ts where "ms_claimed s2 = ms_claimed s1" "ms_workers s2 = ms_workers s1"
        "ms_pending s2 = ms_pending s1 @ ts" "set ts \<subseteq> sc_run_id ` set xs - set (ms_pending s1)" "distinct ts"
      by (auto simp: rest may_queue_def)
    with one rs Inr show ?thesis
      by (auto simp: step rest may_queue_def intro!: exI [of _ "rs @ ts"])
  qed
qed (simp add: may_queue_def)

subsubsection \<open>The cleanup as a whole\<close>

lemma kept_claims:
  assumes "distinct (map fst cs)"
  shows "filter (\<lambda>(k, v). k \<notin> fst ` set (filter (\<lambda>(r, h). \<not> claim_kept C h) cs)) cs = filter (\<lambda>(r, h). claim_kept C h) cs"
proof (rule filter_cong [OF refl])
  fix x assume "x \<in> set cs"
  obtain k v where x: "x = (k, v)" by (cases x)
  have same: "v' = v" if "(k, v') \<in> set cs" for v' using eq_key_imp_eq_value [OF assms] that \<open>x \<in> set cs\<close> x by blast
  have "k \<in> fst ` set (filter (\<lambda>(r, h). \<not> claim_kept C h) cs) \<longleftrightarrow> \<not> claim_kept C v" (is "?l \<longleftrightarrow> ?r")
  proof
    assume ?l
    then obtain v' where "(k, v') \<in> set cs" "\<not> claim_kept C v'" by auto
    with same show ?r by blast
  next
    assume ?r
    with \<open>x \<in> set cs\<close> x have "(k, v) \<in> set (filter (\<lambda>(r, h). \<not> claim_kept C h) cs)" by simp
    from imageI [OF this, of fst] show ?l by simp
  qed
  then show "(case x of (k, v) \<Rightarrow> k \<notin> fst ` set (filter (\<lambda>(r, h). \<not> claim_kept C h) cs)) = (case x of (r, h) \<Rightarrow> claim_kept C h)"
    by (simp only: x prod.case) simp
qed

lemma cleanup_cases:
  assumes "cleanup_stale_machine_leases M C s = (r, s')"
  obtains (refused) e where "r = Inl e" and "drop_stale M C (ms_claimed s) False [] s = (Inl e, s')"
  | (recovered) changed stale s1 u where "drop_stale M C (ms_claimed s) False [] s = (Inr (changed, stale), s1)"
      and "recover_runs M C stale (if changed then called Persist s1 else s1) = (u, s')"
      and "r = (case u of Inl e \<Rightarrow> Inl e | Inr _ \<Rightarrow> Inr (map sc_run_id stale))"
proof -
  obtain r1 s1 where drop: "drop_stale M C (ms_claimed s) False [] s = (r1, s1)" by (cases "drop_stale M C (ms_claimed s) False [] s")
  show thesis
  proof (cases r1)
    case (Inl e)
    with drop assms show thesis by (auto simp: cleanup_stale_machine_leases_def intro: refused)
  next
    case (Inr ok)
    obtain changed stale where ok: "ok = (changed, stale)" by (cases ok)
    obtain u s2 where "recover_runs M C stale (if changed then called Persist s1 else s1) = (u, s2)" by fastforce
    with drop assms Inr ok recovered show thesis by (simp add: cleanup_stale_machine_leases_def split: sum.splits)
  qed
qed

lemma lost_not_kept:
  assumes "distinct (map fst cs)" shows "set (lost_claims C cs) \<inter> fst ` set (filter (\<lambda>(r, h). claim_kept C h) cs) = {}"
  using eq_key_imp_eq_value [OF assms] by (fastforce simp: lost_claims_def claim_kept_def)

lemma swept_parts:
  assumes "drop_stale M C (ms_claimed s) False [] s = (Inr (changed, stale), s1)" and "distinct (map fst (ms_claimed s))"
  shows "map sc_run_id stale = lost_claims C (ms_claimed s)" and "ms_claimed s1 = filter (\<lambda>(r, h). claim_kept C h) (ms_claimed s)"
    and "ms_pending s1 = ms_pending s" and "ms_runs s1 = ms_runs s"
  using drop_stale_swept [of M C "ms_claimed s" False "[]" s] drop_stale_drops [of M C "ms_claimed s" False "[]" s] kept_claims [OF assms(2)]
  by (auto simp: assms(1) swept_def drops_claims_def)

lemma disjoint_mono: "A \<inter> B = {} \<Longrightarrow> A' \<subseteq> A \<Longrightarrow> B' \<subseteq> B \<Longrightarrow> A' \<inter> B' = {}"
  by blast

lemma lease_wf_requeued:
  assumes "lease_wf s" and "ms_pending s' = ms_pending s @ rs" and "set rs \<subseteq> L - set (ms_pending s)" and "distinct rs"
    and "L \<subseteq> fst ` set (ms_claimed s)" and "fst ` set (ms_claimed s') \<subseteq> fst ` set (ms_claimed s)"
    and "L \<inter> fst ` set (ms_claimed s') = {}" and "distinct (map fst (ms_claimed s'))"
  shows "lease_wf s'"
proof -
  have wf: "distinct (ms_pending s)" "set (ms_pending s) \<inter> fst ` set (ms_claimed s) = {}"
      "\<And>r. r \<in> set (ms_pending s) \<or> r \<in> fst ` set (ms_claimed s) \<Longrightarrow> strip r = r"
    using assms(1) by (auto simp: lease_wf_def)
  have rs: "set rs \<subseteq> L" "set rs \<inter> set (ms_pending s) = {}" using assms(3) by auto
  have "set (ms_pending s) \<inter> fst ` set (ms_claimed s') = {}" using wf(2) assms(6) by (rule disjoint_mono [OF _ order_refl])
  moreover have "set rs \<inter> fst ` set (ms_claimed s') = {}" using assms(7) rs(1) by (rule disjoint_mono [OF _ _ order_refl])
  moreover have "strip r = r" if "r \<in> set rs \<or> r \<in> fst ` set (ms_claimed s')" for r
    using that rs(1) assms(5,6) wf(3) by (metis subsetD)
  ultimately show ?thesis using assms(4,8) wf(1,3) rs(2)
    by (simp add: lease_wf_def assms(2) Int_Un_distrib Int_Un_distrib2 Int_commute ball_Un)
qed

lemma cleanup_wf:
  assumes "lease_wf s" and run: "cleanup_stale_machine_leases M C s = (r, s')"
  shows "lease_wf s'"
  using run
proof (cases rule: cleanup_cases)
  case (refused e)
  with drop_stale_drops [of M C "ms_claimed s" False "[]" s] show ?thesis
    by (intro lease_wf_subseq [OF assms(1)]) (simp_all add: drops_claims_def)
next
  case (recovered changed stale s1 u)
  have keys: "distinct (map fst (ms_claimed s))" using assms(1) by (simp add: lease_wf_def)
  note parts = swept_parts [OF recovered(1) keys]
  have ids: "sc_run_id ` set stale = set (lost_claims C (ms_claimed s))" using parts(1) by (metis list.set_map)
  from recover_runs_queue [of M C stale "if changed then called Persist s1 else s1"] parts(2,3) obtain rs where
    claimed: "ms_claimed s' = filter (\<lambda>(r, h). claim_kept C h) (ms_claimed s)" and
    pending: "ms_pending s' = ms_pending s @ rs" "set rs \<subseteq> set (lost_claims C (ms_claimed s)) - set (ms_pending s)" "distinct rs"
    by (auto simp: recovered(2) may_queue_def ids split: if_splits)
  show ?thesis
    by (rule lease_wf_requeued [OF assms(1) pending])
      (use lost_not_kept [OF keys, of C] distinct_map_filter [OF keys] in \<open>auto simp: claimed lost_claims_def\<close>)
qed

subsubsection \<open>What a claim takes\<close>

lemma scan_pending_offers:
  "scan_pending M w s i ids = Inr (remaining, offers, deferred) \<Longrightarrow>
   subseq remaining ids \<and> (\<forall>c \<in> set offers. \<exists>j. cc_run_id c \<in> set remaining \<and> consider_run M w s j (cc_run_id c) = Inr (Offered c))"
proof (induction ids arbitrary: i remaining offers deferred)
  case (Cons r ids)
  from Cons.prems obtain v rem offs d where v: "consider_run M w s i r = Inr v"
    and rest: "scan_pending M w s (Suc i) ids = Inr (rem, offs, d)"
    by (auto split: sum.splits)
  note IH = Cons.IH [OF rest]
  have same: "v = Offered c \<Longrightarrow> cc_run_id c = r" for c
    using v by (auto simp: consider_run_def Let_def split: option.splits sum.splits if_splits)
  show ?case using IH Cons.prems v rest same
    by (cases v) (auto intro: subseq_Cons')
qed simp

lemma best_candidate_in: "best_candidate c cs \<in> set (c # cs)"
  by (induction c cs rule: best_candidate.induct) (auto split: if_splits)

text \<open>A step that leaves the queue as it is but for dropped runs, or claims one run of it.\<close>

definition claims_one :: "machine_env \<Rightarrow> claiming_worker \<Rightarrow> machine_state \<Rightarrow> ('r \<times> machine_state) set" where
  "claims_one M w s = {(r, s'). ms_workers s' = ms_workers s \<and> ms_runs s' = ms_runs s \<and> (\<exists>remaining. subseq remaining (ms_pending s) \<and>
     (ms_claimed s' = ms_claimed s \<and> ms_pending s' \<in> {ms_pending s, remaining} \<or>
      (\<exists>c d n. cc_run_id c \<in> set remaining \<and> ms_claimed s' = dset (strip (cc_run_id c)) (PDict (claim_record_for M w c)) (ms_claimed s) \<and>
         ms_pending s' = filter (\<lambda>r. r \<noteq> strip (cc_run_id c)) remaining \<and>
         py_int (por (dget (cw_record w) ''max_concurrent_sessions'') (PInt 1)) = Inr n \<and>
         enforce_machine_lease_decision (me_repo M) ((lease_gate_defaults ''acquire'' (cw_id w))
            \<lparr>lg_active := worker_lease_count (cw_id w) (ms_claimed s), lg_limit := max 1 n, lg_ttl := me_lease_seconds M\<rparr>) = Inr d)))}"

lemma take_claim_one:
  assumes "subseq remaining (ms_pending s)" and "cc_run_id c \<in> set remaining"
  shows "take_claim M w c remaining s \<in> claims_one M w s"
  unfolding take_claim_def Let_def
proof (intro branch)
  fix e show "(Inl (Fault e), s) \<in> claims_one M w s" using assms(1) by (auto simp: claims_one_def)
next
  fix e show "(Inl e, s) \<in> claims_one M w s" using assms(1) by (auto simp: claims_one_def)
next
  fix e show "(Inl e, s) \<in> claims_one M w s" using assms(1) by (auto simp: claims_one_def)
next
  fix n d assume "py_int (por (dget (cw_record w) ''max_concurrent_sessions'') (PInt 1)) = Inr n"
    and "enforce_machine_lease_decision (me_repo M) ((lease_gate_defaults ''acquire'' (cw_id w))
            \<lparr>lg_active := worker_lease_count (cw_id w) (ms_claimed s), lg_limit := max 1 n, lg_ttl := me_lease_seconds M\<rparr>) = Inr d"
  with assms show "(Inr (strip (cc_run_id c)), s\<lparr>ms_claimed := dset (strip (cc_run_id c)) (PDict (claim_record_for M w c)) (ms_claimed s),
      ms_pending := filter (\<lambda>r. r \<noteq> strip (cc_run_id c)) remaining\<rparr>) \<in> claims_one M w s"
    by (auto simp: claims_one_def)
qed

lemma claims_one_from:
  "(r1, s1) \<in> claims_one M w s \<Longrightarrow> ms_pending s2 = ms_pending s1 \<Longrightarrow> ms_claimed s2 = ms_claimed s1 \<Longrightarrow> ms_workers s2 = ms_workers s1
   \<Longrightarrow> ms_runs s2 = ms_runs s1 \<Longrightarrow> (r2, s2) \<in> claims_one M w s"
  by (simp add: claims_one_def)

lemma claim_from_queue_one: "claim_from_queue M worker required s \<in> claims_one M (claiming_worker_of M worker required s) s"
  (is "_ \<in> claims_one M ?w s")
proof -
  have same: "ms_pending s1 = ms_pending s \<Longrightarrow> ms_claimed s1 = ms_claimed s \<Longrightarrow> ms_workers s1 = ms_workers s \<Longrightarrow> ms_runs s1 = ms_runs s
      \<Longrightarrow> (r, s1) \<in> claims_one M ?w s" for r :: "machine_error + string option" and s1
    by (auto simp: claims_one_def intro: exI [of _ "ms_pending s"])
  show ?thesis
  proof (cases "scan_pending M ?w s 0 (ms_pending s)")
    case (Inl e)
    then show ?thesis by (auto simp: claim_from_queue_def Let_def intro: same)
  next
    case (Inr a)
    obtain remaining offers deferred where a: "a = (remaining, offers, deferred)" by (cases a)
    note scan = scan_pending_offers [OF Inr [unfolded a]]
    show ?thesis
    proof (cases offers)
      case Nil
      have idle: "(Inr None, called (SeenWorker worker None ''idle'' why) (if remaining \<noteq> ms_pending s then called Persist (s\<lparr>ms_pending := remaining\<rparr>) else s))
          \<in> claims_one M ?w s" for why
        using scan by (auto simp: claims_one_def)
      show ?thesis unfolding claim_from_queue_def Let_def Inr a sum.case prod.case Nil list.case
        by (intro branch; (rule idle | (rule same; simp; fail)))
    next
      case (Cons c cs)
      obtain x s1 where take: "take_claim M ?w (best_candidate c cs) remaining s = (x, s1)" by fastforce
      have one: "(x, s1) \<in> claims_one M ?w s"
        using take_claim_one [of remaining s "best_candidate c cs" M ?w] scan best_candidate_in [of c cs] by (auto simp: take Cons)
      show ?thesis unfolding claim_from_queue_def Let_def Inr a sum.case prod.case Cons list.case take
        by (intro branch; ((rule same; simp; fail) | (rule claims_one_from [OF one]; simp)))
    qed
  qed
qed

lemma claim_cases:
  assumes "(r, s') \<in> claims_one M w s"
  obtains (idle) "ms_claimed s' = ms_claimed s" and "subseq (ms_pending s') (ms_pending s)" and "ms_workers s' = ms_workers s"
  | (taken) c remaining n d where "subseq remaining (ms_pending s)" and "cc_run_id c \<in> set remaining" and "ms_workers s' = ms_workers s"
      and "ms_claimed s' = dset (strip (cc_run_id c)) (PDict (claim_record_for M w c)) (ms_claimed s)"
      and "ms_pending s' = filter (\<lambda>r. r \<noteq> strip (cc_run_id c)) remaining"
      and "py_int (por (dget (cw_record w) ''max_concurrent_sessions'') (PInt 1)) = Inr n"
      and "enforce_machine_lease_decision (me_repo M) ((lease_gate_defaults ''acquire'' (cw_id w))
            \<lparr>lg_active := worker_lease_count (cw_id w) (ms_claimed s), lg_limit := max 1 n, lg_ttl := me_lease_seconds M\<rparr>) = Inr d"
  using assms by (auto simp: claims_one_def)

lemma keys_dset: "map fst (dset k v d) = (if k \<in> fst ` set d then map fst d else map fst d @ [k])"
  by (induction d) (auto simp: dset_def)

lemma claim_wf:
  assumes "lease_wf s" and "(r, s') \<in> claims_one M w s"
  shows "lease_wf s'"
  using assms(2)
proof (cases rule: claim_cases)
  case idle
  then show ?thesis by (intro lease_wf_subseq [OF assms(1)]) simp_all
next
  case (taken c remaining n d)
  let ?r = "cc_run_id c"
  have r: "?r \<in> set (ms_pending s)" using subseq_set [OF taken(1)] taken(2) by blast
  have wf: "distinct (ms_pending s)" "distinct (map fst (ms_claimed s))" "set (ms_pending s) \<inter> fst ` set (ms_claimed s) = {}"
      "\<And>r. r \<in> set (ms_pending s) \<or> r \<in> fst ` set (ms_claimed s) \<Longrightarrow> strip r = r"
    using assms(1) by (auto simp: lease_wf_def)
  have "strip ?r = ?r" "?r \<notin> fst ` set (ms_claimed s)" using r wf(3,4) by auto
  then have keys: "map fst (ms_claimed s') = map fst (ms_claimed s) @ [?r]" and pending: "ms_pending s' = filter (\<lambda>x. x \<noteq> ?r) remaining"
    using taken(4,5) by (simp_all add: keys_dset)
  have sub: "set (ms_pending s') \<subseteq> set (ms_pending s) - {?r}" using subseq_set [OF taken(1)] by (auto simp: pending)
  have keyset: "fst ` set (ms_claimed s') = insert ?r (fst ` set (ms_claimed s))" using keys by (metis list.set_map set_append Un_insert_right list.simps(15) sup_bot.right_neutral empty_set)
  have "distinct (ms_pending s')" using subseq_distinct [OF taken(1) wf(1)] by (simp add: pending)
  moreover have "distinct (map fst (ms_claimed s'))" using wf(2) \<open>?r \<notin> _\<close> by (simp add: keys)
  moreover have "set (ms_pending s') \<inter> fst ` set (ms_claimed s') = {}" using sub wf(3) unfolding keyset by blast
  moreover have "strip x = x" if "x \<in> set (ms_pending s') \<or> x \<in> fst ` set (ms_claimed s')" for x
    using that sub r wf(4) unfolding keyset by (metis DiffD1 insertE subsetD)
  ultimately show ?thesis by (simp add: lease_wf_def ball_Un)
qed

lemma only_removes_wf: "lease_wf s \<Longrightarrow> c \<in> only_removes s \<Longrightarrow> lease_wf (snd c)"
  by (cases c) (auto simp: only_removes_def intro: lease_wf_subseq)

lemma machine_step_wf: "lease_wf s \<Longrightarrow> lease_wf (machine_step op s)"
proof (cases op)
  case (ClaimOp M C worker required)
  assume wf: "lease_wf s"
  let ?M = "M\<lparr>me_cleanup := cleanup_stale_machine_leases M C\<rparr>"
  obtain r s1 where clean: "cleanup_stale_machine_leases M C s = (r, s1)" by fastforce
  note wf1 = cleanup_wf [OF wf clean]
  obtain r2 s2 where claim: "claim_from_queue ?M worker required s1 = (r2, s2)" by fastforce
  have "lease_wf s2" using claim_wf [OF wf1, of r2 s2] claim_from_queue_one [of ?M worker required s1] claim by metis
  with wf1 clean claim ClaimOp show ?thesis by (simp add: claim_local_machine_lease_def split: sum.splits)
next
  case (CleanupOp M C)
  assume wf: "lease_wf s"
  then show ?thesis using cleanup_wf [OF wf prod.collapse [symmetric]] CleanupOp by simp
qed (simp_all add: only_removes_wf release_only_removes reconcile_only_removes recovered_only_removes)

text \<open>
  C11. In every history of claims, releases, reconciliations and cleanups a run that was in the queue
  once, or claimed once, stays so: no run is queued twice, claimed twice, or queued while it is claimed.
\<close>

theorem leases_stay_exclusive:
  assumes "lease_wf s" shows "lease_wf (fold machine_step ops s)"
  using assms by (induction ops arbitrary: s) (simp_all add: machine_step_wf)

definition demo_cleanup :: cleanup_config where
  "demo_cleanup = \<lparr>cl_now = sec 1000, cl_parse = (\<lambda>v. case v of PInt t \<Rightarrow> Some t | _ \<Rightarrow> None), cl_now_iso = ''now'', cl_max_recoveries = 1,
     cl_recovery_backoff = [0], cl_lost_timeout = 60, cl_default_lease = 60, cl_requeue = True, cl_max_retries = 1,
     cl_retry_backoff = [30], cl_dead_letters = True\<rparr>"

definition demo_stale_state :: machine_state where
  "demo_stale_state = \<lparr>ms_pending = [''r2''],
     ms_claimed = [(''r1'', PDict [(''machine_id'', PStr ''m1''), (''lease_id'', PStr ''L1''), (''last_heartbeat_at'', PInt (sec 900))]),
                   (''r3'', PDict [(''machine_id'', PStr ''m2''), (''last_heartbeat_at'', PInt (sec 990))])],
     ms_workers = [], ms_runs = [], ms_calls = []\<rparr>"

lemma response_opens:
  assumes "strip reason = reason" and "reason \<noteq> []"
  shows "\<exists>d. enforce_kernel_decision dig command (lease_response ''allow'' reason operation holder current lease ttl force) False = Inr d
    \<and> tok (dget d ''next_action'') = strip (lease_next_action operation ''allow'')"
proof -
  have "dget (lease_response ''allow'' reason operation holder current lease ttl force) ''next_action'' = PStr (lease_next_action operation ''allow'')"
    by (simp add: lease_response_def)
  with assms show ?thesis by (simp add: response_enforced normalize_fields)
qed

lemma release_words:
  "strip ''release_machine_lease_transition'' = ''release_machine_lease_transition''" "strip ''release'' = ''release''"
  by (simp_all add: strip_def py_space_def)

lemma gate_releases:
  assumes "kern E = lease_kernel k" and "lg_operation g = ''release''" and "strip (lg_holder g) \<noteq> []" and "strip (lg_lease g) \<noteq> []"
    and "strip (lg_current_lease g) \<in> {[], strip (lg_lease g)}" and "strip (lg_current_holder g) = strip (lg_holder g)"
  shows "\<exists>d. enforce_machine_lease_decision E g = Inr d"
proof -
  let ?r = "if lg_stale g then ''stale_lease_release_allowed'' else ''lease_release_allowed''"
  have "machine_lease_decision (lease_gate_payload g) = lease_response ''allow'' ?r ''release'' (strip (lg_holder g))
      (Some (strip (lg_holder g))) (Some (strip (lg_lease g))) 0 False"
    using assms(2-6) by (auto simp: release_payload release_decision_def holder_decision_def snone_def)
  then have "\<exists>d. run_runtime_kernel_enforced E ''machine-lease-decision'' (lease_gate_payload g) = Inr d
      \<and> tok (dget d ''next_action'') = ''release_machine_lease_transition''"
    using response_opens [of ?r "digest E" "''machine-lease-decision''" "''release''" "strip (lg_holder g)" "Some (strip (lg_holder g))"
        "Some (strip (lg_lease g))" 0 False]
    by (auto simp: lease_kernel_gate [OF assms(1)] strip_reasons release_words lease_next_action_def)
  then show ?thesis using assms(2) by (auto simp: release_words enforce_machine_lease_decision_def expected_lease_action_def Let_def)
qed

lemma demo_machine_wf: "lease_wf demo_machine_state"
  by (simp add: lease_wf_def demo_machine_state_def strip_def py_space_def)

theorem leases_stay_exclusive_witness:
  "lease_wf (fold machine_step [ClaimOp demo_machines demo_cleanup ''w1'' PNone, CleanupOp demo_machines demo_cleanup] demo_machine_state)"
  by (rule leases_stay_exclusive [OF demo_machine_wf])

text \<open>
  C15. A cleanup that succeeds keeps exactly the claims that had a sign of life within the time-out,
  and answers with the runs of the others; it adds runs to the queue only from among these.
\<close>

theorem cleanup_exact:
  assumes "distinct (map fst (ms_claimed s))" and "cleanup_stale_machine_leases M C s = (Inr ids, s')"
  shows "ms_claimed s' = filter (\<lambda>(r, h). claim_kept C h) (ms_claimed s) \<and> ids = lost_claims C (ms_claimed s)
    \<and> (\<exists>rs. ms_pending s' = ms_pending s @ rs \<and> set rs \<subseteq> set ids \<and> distinct rs)"
  using assms(2)
proof (cases rule: cleanup_cases)
  case (recovered changed stale s1 u)
  note parts = swept_parts [OF recovered(1) assms(1)]
  have ids: "ids = lost_claims C (ms_claimed s)" using recovered(3) parts(1) by (auto split: sum.splits)
  have "sc_run_id ` set stale = set ids" using parts(1) ids by (metis list.set_map)
  with ids recover_runs_queue [of M C stale "if changed then called Persist s1 else s1"] recovered(2) parts(2,3)
  show ?thesis by (auto simp: may_queue_def split: if_splits)
qed simp

lemma demo_cleanup_run: "\<exists>ids s'. cleanup_stale_machine_leases demo_machines demo_cleanup demo_stale_state = (Inr ids, s')"
proof -
  let ?E = "me_repo demo_machines"
  have k: "kern ?E = lease_kernel allow_kernel" by (simp add: demo_machines_def machine_repo_def)
  have m: "strip ''m1'' = ''m1''" "strip ''L1'' = ''L1''" "strip ''r1'' = ''r1''" by (simp_all add: strip_def py_space_def)
  obtain d where "enforce_queue_transition_decision ?E ((queue_gate_defaults ''release'' ''r1'' ''m1'' ''m1'' ''claimed'')\<lparr>qg_stale := True\<rparr>) = Inr d"
    using queue_gate_releases [OF k, of "''r1''" "''m1''" "''m1''" True] m by auto
  moreover obtain d' where "enforce_machine_lease_decision ?E ((lease_gate_defaults ''release'' ''m1'')
      \<lparr>lg_current_holder := ''m1'', lg_lease := ''L1'', lg_current_lease := ''L1'', lg_stale := True\<rparr>) = Inr d'"
    using gate_releases [OF k, of "(lease_gate_defaults ''release'' ''m1'')
      \<lparr>lg_current_holder := ''m1'', lg_lease := ''L1'', lg_current_lease := ''L1'', lg_stale := True\<rparr>"] m by (auto simp: lease_gate_defaults_def)
  ultimately show ?thesis
    by (simp add: cleanup_stale_machine_leases_def demo_stale_state_def demo_cleanup_def claim_lost_def last_heartbeat_def sec_def
        Let_def por_def snone_def first_text_def sor_def m run_at_def recover_run_def)
qed

theorem cleanup_exact_witness:
  "\<exists>ids s'. cleanup_stale_machine_leases demo_machines demo_cleanup demo_stale_state = (Inr ids, s') \<and> ids = [''r1'']
     \<and> map fst (ms_claimed s') = [''r3'']"
proof -
  obtain ids s' where run: "cleanup_stale_machine_leases demo_machines demo_cleanup demo_stale_state = (Inr ids, s')"
    using demo_cleanup_run by blast
  have "distinct (map fst (ms_claimed demo_stale_state))" by (simp add: demo_stale_state_def)
  from cleanup_exact [OF this run] run show ?thesis
    by (simp add: demo_stale_state_def lost_claims_def claim_kept_def claim_lost_def last_heartbeat_def demo_cleanup_def sec_def)
qed

subsection \<open>Which run a claim takes\<close>

lemma best_candidate_least:
  "d \<in> set (c # cs) \<Longrightarrow> cc_score (best_candidate c cs) \<le> cc_score d"
proof (induction c cs arbitrary: d rule: best_candidate.induct)
  case (2 c e cs)
  show ?case
  proof (cases "cc_score e < cc_score c")
    case True
    with "2.IH" [of e] "2.IH" [of d] "2.prems" show ?thesis by (auto intro: order.trans less_imp_le)
  next
    case False
    with "2.IH" [of c] "2.IH" [of d] "2.prems" show ?thesis by (auto intro: order.trans)
  qed
qed simp

lemma scan_pending_all:
  "scan_pending M w s i ids = Inr (remaining, offers, deferred) \<Longrightarrow>
   set offers = {c. \<exists>j < length ids. consider_run M w s (i + j) (ids ! j) = Inr (Offered c)}"
proof (induction ids arbitrary: i remaining offers deferred)
  case (Cons r ids)
  from Cons.prems obtain v rem offs d where v: "consider_run M w s i r = Inr v"
    and rest: "scan_pending M w s (Suc i) ids = Inr (rem, offs, d)"
    by (auto split: sum.splits)
  have "{c. \<exists>j < length (r # ids). consider_run M w s (i + j) ((r # ids) ! j) = Inr (Offered c)} =
      {c. v = Offered c} \<union> {c. \<exists>j < length ids. consider_run M w s (Suc i + j) (ids ! j) = Inr (Offered c)}"
    using v by (auto simp: less_Suc_eq_0_disj)
  moreover have "set offers = {c. v = Offered c} \<union> set offs" using Cons.prems v rest by (cases v) auto
  ultimately show ?case using Cons.IH [OF rest] by simp
qed simp

lemma considered_ok:
  assumes "consider_run M w s i r = Inr (Offered c)"
  shows "cc_run_id c = r" and "\<exists>run. run_at (ms_runs s) r = Some run \<and> run_status_token run \<in> {''queued_local'', ''starting''}
      \<and> \<not> not_yet_due M (metadata_for_run run) \<and> set (me_required M run) \<subseteq> set (cw_capabilities w)
      \<and> worker_runtime_scope_allows_run (cw_record w) (run_scope_from_payload run)"
  using assms by (auto simp: consider_run_def Let_def split: option.splits sum.splits if_splits)

text \<open>
  C13. A claim that returns a run took a pending run that is queued, due, within the worker's
  capabilities and scope, and whose score no other run the worker could take undercuts; the run leaves
  the queue, and the claims gain one record, under its id.
\<close>

theorem claim_takes_best:
  assumes "lease_wf s" and "claim_from_queue M worker required s = (Inr (Some r), s')" and "r \<noteq> []"
  defines "w \<equiv> claiming_worker_of M worker required s"
  shows "\<exists>i c run. i < length (ms_pending s) \<and> ms_pending s ! i = r \<and> consider_run M w s i r = Inr (Offered c)
      \<and> run_at (ms_runs s) r = Some run \<and> run_status_token run \<in> {''queued_local'', ''starting''} \<and> \<not> not_yet_due M (metadata_for_run run)
      \<and> set (me_required M run) \<subseteq> set (cw_capabilities w) \<and> worker_runtime_scope_allows_run (cw_record w) (run_scope_from_payload run)
      \<and> (\<forall>j < length (ms_pending s). \<forall>d. consider_run M w s j (ms_pending s ! j) = Inr (Offered d) \<longrightarrow> cc_score c \<le> cc_score d)
      \<and> ms_claimed s' = ms_claimed s @ [(r, PDict (claim_record_for M w c))] \<and> r \<notin> set (ms_pending s')
      \<and> set (ms_pending s') \<subseteq> set (ms_pending s)"
proof -
  obtain remaining offers deferred where scan: "scan_pending M w s 0 (ms_pending s) = Inr (remaining, offers, deferred)"
    using assms(2) by (auto simp: claim_from_queue_def Let_def w_def split: if_splits sum.splits)
  obtain c cs where offers: "offers = c # cs"
    using assms(2) scan by (cases offers) (auto simp: claim_from_queue_def Let_def w_def split: if_splits)
  let ?b = "best_candidate c cs"
  have "?b \<in> set offers" using best_candidate_in offers by metis
  then obtain i where i: "i < length (ms_pending s)" "consider_run M w s i (ms_pending s ! i) = Inr (Offered ?b)"
    using scan_pending_all [OF scan] by auto
  note ok = considered_ok [OF i(2)]
  have inp: "cc_run_id ?b \<in> set (ms_pending s)" using i(1) ok(1) by simp
  have id: "strip (cc_run_id ?b) = cc_run_id ?b" "cc_run_id ?b \<notin> fst ` set (ms_claimed s)"
    using assms(1) inp by (auto simp: lease_wf_def)
  obtain x s1 where take: "take_claim M w ?b remaining s = (x, s1)" by fastforce
  have x: "x = Inr r" "s1 = s\<lparr>ms_claimed := dset (strip (cc_run_id ?b)) (PDict (claim_record_for M w ?b)) (ms_claimed s),
      ms_pending := filter (\<lambda>q. q \<noteq> strip (cc_run_id ?b)) remaining\<rparr>" "r = strip (cc_run_id ?b)"
    and s': "ms_claimed s' = ms_claimed s1" "ms_pending s' = ms_pending s1"
    using assms(2,3) scan offers take
    by (auto simp: claim_from_queue_def Let_def w_def [symmetric] take_claim_def split: if_splits sum.splits)
  have r: "ms_pending s ! i = r" using ok(1) id(1) x(3) by simp
  have claimed: "ms_claimed s' = ms_claimed s @ [(r, PDict (claim_record_for M w ?b))]"
    using id by (simp add: s'(1) x(2,3) dset_new)
  have pending: "r \<notin> set (ms_pending s')" "set (ms_pending s') \<subseteq> set (ms_pending s)"
    using scan_pending_offers [OF scan] subseq_set [of remaining "ms_pending s"] by (auto simp: s'(2) x(2,3))
  have least: "cc_score ?b \<le> cc_score d" if "j < length (ms_pending s)" "consider_run M w s j (ms_pending s ! j) = Inr (Offered d)" for j d
    using best_candidate_least [of d c cs] scan_pending_all [OF scan] that offers by force
  from r i(1) ok(2) [unfolded r] i(2) [unfolded r] claimed pending least show ?thesis by blast
qed

definition claiming_machines :: machine_env where
  "claiming_machines = demo_machines\<lparr>me_repo := (allow_env 0)\<lparr>kern := \<lambda>command request.
     [(''ok'', PBool True), (''decision'', PStr ''allow''),
      (''next_action'', PStr (if command = ''machine-lease-decision'' then ''persist_machine_lease_transition'' else ''claim_queue_item''))]\<rparr>\<rparr>"

lemma claiming_gate:
  "\<exists>d. run_runtime_kernel_enforced (me_repo claiming_machines) command request = Inr d \<and> tok (dget d ''next_action'') =
     (if command = ''machine-lease-decision'' then ''persist_machine_lease_transition'' else ''claim_queue_item'')"
proof -
  define R where "R = kern (me_repo claiming_machines) command request"
  have r: "dget R ''decision'' = PStr ''allow''" "dget R ''ok'' = PBool True" "dget R ''approval_required'' = PNone"
      "tok (dget R ''next_action'') = (if command = ''machine-lease-decision'' then ''persist_machine_lease_transition'' else ''claim_queue_item'')"
    by (simp_all add: R_def claiming_machines_def strip_def py_space_def)
  have "dget (normalize_kernel_decision dig command R) ''decision'' = PStr ''allow''" for dig
    by (simp add: normalize_kernel_decision_def Let_def r sor_def strip_def py_space_def)
  with r show ?thesis unfolding run_runtime_kernel_enforced_def R_def [symmetric]
    by (simp add: enforce_kernel_decision_def Let_def normalize_ok normalize_approval normalize_fields) (simp add: strip_def py_space_def)
qed

lemma claiming_gates:
  "\<exists>d. enforce_machine_lease_decision (me_repo claiming_machines) ((lease_gate_defaults ''acquire'' h)\<lparr>lg_active := a, lg_limit := l, lg_ttl := t\<rparr>) = Inr d"
  "\<exists>d. enforce_queue_transition_decision (me_repo claiming_machines) (queue_gate_defaults ''claim'' r h [] st) = Inr d"
  using claiming_gate [of "''machine-lease-decision''" "lease_gate_payload ((lease_gate_defaults ''acquire'' h)\<lparr>lg_active := a, lg_limit := l, lg_ttl := t\<rparr>)"]
    claiming_gate [of "''queue-transition-decision''" "queue_gate_payload (queue_gate_defaults ''claim'' r h [] st)"]
  by (auto simp: enforce_machine_lease_decision_def enforce_queue_transition_decision_def lease_gate_defaults_def queue_gate_defaults_def
      expected_lease_action_def expected_queue_action_def strip_def [of "''acquire''"] strip_def [of "''claim''"] py_space_def Let_def)

lemma demo_claim_run: "\<exists>s'. claim_from_queue claiming_machines ''w1'' PNone demo_machine_state = (Inr (Some ''r2''), s')"
proof -
  have words: "strip ''queued_local'' = ''queued_local''" "strip ''r2'' = ''r2''" "strip ''active'' = ''active''" "strip ''default'' = ''default''"
      "strip ''workspace'' = ''workspace''" "lower ''queued_local'' = ''queued_local''" "lower ''active'' = ''active''" "strip ''workspace-default'' = ''workspace-default''"
    by (simp_all add: strip_def py_space_def lower_def)
  have env: "me_now claiming_machines = None" "me_preferences claiming_machines r = []" "me_required claiming_machines r = []"
      "me_normalize claiming_machines v = []" "me_lease_seconds claiming_machines = 60" for r v
    by (simp_all add: claiming_machines_def demo_machines_def)
  define w where "w = claiming_worker_of claiming_machines ''w1'' PNone demo_machine_state"
  have w: "cw_id w = ''w1''" "cw_record w = [(''max_concurrent_sessions'', PInt 2)]" "cw_filter w = []" "cw_capabilities w = []"
    by (simp_all add: w_def claiming_worker_of_def demo_machine_state_def env)
  have s: "ms_pending demo_machine_state = [''r2'']" "ms_runs demo_machine_state = [(''r2'', PDict [(''status'', PStr ''queued_local'')])]"
    by (simp_all add: demo_machine_state_def)
  obtain c where "consider_run claiming_machines w demo_machine_state 0 ''r2'' = Inr (Offered c)" "cc_run_id c = ''r2''"
    by (simp add: consider_run_def run_at_def s run_status_token_def words not_yet_due_def env w metadata_for_run_def run_context_def
        worker_runtime_scope_allows_run_def run_scope_from_payload_def first_text_def por_def sor_def machine_enrollment_scope_def Let_def)
  then have scan: "scan_pending claiming_machines w demo_machine_state 0 [''r2''] = Inr ([''r2''], [c], False)" and c: "cc_run_id c = ''r2''" by simp_all
  obtain d where "enforce_machine_lease_decision (me_repo claiming_machines) ((lease_gate_defaults ''acquire'' ''w1'')
      \<lparr>lg_active := worker_lease_count ''w1'' (ms_claimed demo_machine_state), lg_limit := 2, lg_ttl := 60\<rparr>) = Inr d"
    using claiming_gates(1) by blast
  moreover obtain d' where "enforce_queue_transition_decision (me_repo claiming_machines)
      (queue_gate_defaults ''claim'' ''r2'' ''w1'' [] (first_text [dget (cc_run c) ''status''] ''queued_local'')) = Inr d'"
    using claiming_gates(2) by blast
  ultimately have "take_claim claiming_machines w c [''r2''] demo_machine_state = (Inr ''r2'', demo_machine_state
      \<lparr>ms_claimed := dset ''r2'' (PDict (claim_record_for claiming_machines w c)) (ms_claimed demo_machine_state), ms_pending := []\<rparr>)"
    by (simp add: take_claim_def w c words env por_def Let_def)
  moreover have "dget (claim_record_for claiming_machines w c) ''lease_seconds'' = PInt 60"
    by (simp add: claim_record_for_def build_machine_lease_record_def env Let_def)
  ultimately show ?thesis
    by (simp add: claim_from_queue_def w_def [symmetric] w s scan words env por_def sor_def Let_def del: scan_pending.simps)
qed

theorem claim_takes_best_witness:
  "\<exists>s' i. claim_from_queue claiming_machines ''w1'' PNone demo_machine_state = (Inr (Some ''r2''), s')
     \<and> i < length (ms_pending demo_machine_state) \<and> ms_pending demo_machine_state ! i = ''r2''"
  using demo_claim_run claim_takes_best [OF demo_machine_wf, of claiming_machines "''w1''" PNone "''r2''"] by blast

subsection \<open>How many leases a worker holds\<close>



























end
