(* ===== verification/Machine_Recovery.thy ===== *)
theory Machine_Recovery
  imports Machine_Lease_Laws
begin

text \<open>
  What becomes of the runs whose workers are lost, and the sessions of the machines: the retry budget,
  a refusal of the kernel in the middle of a cleanup, and the round trip of a session token.
\<close>

subsection \<open>The retry budget of a run\<close>

text \<open>
  A run that is not over, with \<open>j\<close> retries of \<open>n\<close> used; one meant for a local worker has no browser
  checkpoint, since with one it waits to be resumed instead.
\<close>

definition retry_run :: "cleanup_config \<Rightarrow> bool \<Rightarrow> int \<Rightarrow> int \<Rightarrow> pydict \<Rightarrow> bool" where
  "retry_run C is_local j n run \<longleftrightarrow>
     is_local = (lower (first_text [dget (metadata_for_run run) ''execution_target_selected'', dget (metadata_for_run run) ''execution_target''] [])
         \<in> {''local'', ''local_companion''})
     \<and> (is_local \<longrightarrow> dict_of (dget run ''browser_checkpoint'') = [])
     \<and> py_int (por (dget (metadata_for_run run) ''local_queue_retry_count'') (PInt 0)) = Inr j
     \<and> py_int (por (dget (metadata_for_run run) ''local_queue_max_retries'') (PInt (cl_max_retries C))) = Inr n"

definition over_statuses :: "string set" where
  "over_statuses = {''completed'', ''failed'', ''timeout''}"

definition retry_state :: "cleanup_config \<Rightarrow> string \<Rightarrow> bool \<Rightarrow> int \<Rightarrow> int \<Rightarrow> machine_state \<Rightarrow> bool" where
  "retry_state C run_id is_local j n s \<longleftrightarrow>
     (\<exists>run. run_at (ms_runs s) run_id = Some run \<and> run_status_token run \<notin> over_statuses \<and> retry_run C is_local j n run)"

definition run_over :: "string \<Rightarrow> machine_state \<Rightarrow> bool" where
  "run_over run_id s \<longleftrightarrow> (case run_at (ms_runs s) run_id of None \<Rightarrow> True | Some run \<Rightarrow> run_status_token run \<in> over_statuses)"

text \<open>
  The recovery reports statuses through \<open>set_run_status_fn\<close>, which is recorded in \<open>ms_calls\<close>. Its
  effect on the run's status (\<open>run["status"] = status\<close> in \<open>transition_live_run_status\<close>) comes with
  \<open>apply_status\<close>; the recovery itself never reads the status again after it has reported one.
\<close>

definition set_status :: "string \<Rightarrow> string \<Rightarrow> machine_state \<Rightarrow> machine_state" where
  "set_status run_id status s = (case run_at (ms_runs s) run_id of None \<Rightarrow> s
     | Some run \<Rightarrow> put_run run_id (dset ''status'' (PStr status) run) s)"

fun apply_status :: "machine_call \<Rightarrow> machine_state \<Rightarrow> machine_state" where
  "apply_status (RunStatus run_id status) s = set_status run_id status s"
| "apply_status c s = s"

definition lose_worker :: "machine_env \<Rightarrow> cleanup_config \<Rightarrow> stale_claim \<Rightarrow> machine_state \<Rightarrow> machine_state" where
  "lose_worker M C x s = (let s' = snd (recover_run M C x s) in fold apply_status (drop (length (ms_calls s)) (ms_calls s')) s')"

text \<open>A run that loses its workers one after another; \<open>go\<close> is all that happens to the state after a loss.\<close>

fun losses :: "machine_env \<Rightarrow> cleanup_config \<Rightarrow> (stale_claim \<times> (machine_state \<Rightarrow> machine_state)) list \<Rightarrow> machine_state \<Rightarrow> machine_state" where
  "losses M C [] s = s"
| "losses M C ((x, go) # h) s = losses M C h (go (lose_worker M C x s))"

definition leaves_retries :: "cleanup_config \<Rightarrow> string \<Rightarrow> (machine_state \<Rightarrow> machine_state) \<Rightarrow> bool" where
  "leaves_retries C run_id go \<longleftrightarrow> (\<forall>s. (\<forall>b j n. retry_state C run_id b j n s \<longrightarrow> retry_state C run_id b j n (go s))
     \<and> (run_over run_id s \<longrightarrow> run_over run_id (go s)) \<and> ms_calls (go s) = ms_calls s)"

fun statuses_of :: "string \<Rightarrow> machine_call list \<Rightarrow> string list" where
  "statuses_of run_id [] = []"
| "statuses_of run_id (RunStatus q status # cs) = (if q = run_id then [status] else []) @ statuses_of run_id cs"
| "statuses_of run_id (c # cs) = statuses_of run_id cs"

lemma statuses_append [simp]: "statuses_of r (cs @ ds) = statuses_of r cs @ statuses_of r ds"
  by (induction r cs rule: statuses_of.induct) simp_all

lemma metadata_requeued [simp]:
  "metadata_for_run (requeued_run C x run a l b) = dmerge (metadata_for_run run)
     [(''local_queue_retry_reason'', PStr ''worker_lost''), (''local_queue_retry_count'', PInt a),
      (''local_queue_max_retries'', PInt l), (''local_queue_retry_backoff_seconds'', PInt b), (''local_queue_next_retry_at'', next_retry_at C b)]"
  by (simp add: requeued_run_def Let_def with_metadata_def metadata_for_run_def run_context_def result_told_def)

lemma checkpoint_requeued [simp]: "dget (requeued_run C x run a l b) ''browser_checkpoint'' = dget run ''browser_checkpoint''"
  by (simp add: requeued_run_def Let_def with_metadata_def result_told_def)

lemma fields_cleared [simp]:
  "dget (clear_active_machine_lease_binding run) ''context'' = dget run ''context''"
  "dget (clear_active_machine_lease_binding run) ''browser_checkpoint'' = dget run ''browser_checkpoint''"
  by (simp_all add: clear_active_machine_lease_binding_def)

lemma metadata_kept [simp]:
  "metadata_for_run (clear_active_machine_lease_binding run) = metadata_for_run run"
  "metadata_for_run (dset ''status'' v run) = metadata_for_run run"
  by (simp_all add: metadata_for_run_def run_context_def)

lemma run_at_put [simp]: "run_at (ms_runs (put_run r d s)) r = Some d"
  by (simp add: run_at_def put_run_def map_of_dset)

lemma retry_run_kept [simp]:
  "retry_run C b j n (clear_active_machine_lease_binding run) = retry_run C b j n run" "retry_run C b j n (dset ''status'' v run) = retry_run C b j n run"
  by (simp_all add: retry_run_def)

lemma retry_run_requeued: "retry_run C b j n run \<Longrightarrow> 0 \<le> j \<Longrightarrow> j < n \<Longrightarrow> retry_run C b (j + 1) n (requeued_run C x run (j + 1) n i)"
  by (simp add: retry_run_def por_def)

lemma reported_words:
  "run_status_token (dset ''status'' (PStr ''queued_local'') run) = ''queued_local''"
  "run_status_token (dset ''status'' (PStr ''running_local'') run) = ''running_local''"
  "run_status_token (dset ''status'' (PStr ''failed'') run) = ''failed''"
  by (simp_all add: run_status_token_def tok_def por_def strip_def py_space_def lower_def)

lemma retry_stateE:
  assumes "retry_state C (sc_run_id x) b j n s"
  obtains run where "recover_run M C x s = retry_or_fail C x b run (put_run (sc_run_id x) run s)" and "retry_run C b j n run"
proof -
  from assms obtain run0 where run0: "run_at (ms_runs s) (sc_run_id x) = Some run0" "run_status_token run0 \<notin> over_statuses" "retry_run C b j n run0"
    unfolding retry_state_def by (elim exE conjE) (rule that)
  have "recover_run M C x s = retry_or_fail C x b (clear_active_machine_lease_binding run0)
      (put_run (sc_run_id x) (clear_active_machine_lease_binding run0) s)"
    using run0 by (auto simp: recover_run_def over_statuses_def retry_run_def Let_def)
  then show thesis by (rule that) (simp add: run0(3))
qed

lemma loss_requeues:
  assumes "retry_state C (sc_run_id x) True j n s" and "cl_requeue C" and "0 \<le> j" and "j < n"
  shows "retry_state C (sc_run_id x) True (j + 1) n (lose_worker M C x s)"
    and "ms_calls (lose_worker M C x s) = ms_calls s @ [RunStatus (sc_run_id x) ''queued_local'', Persist]"
proof -
  obtain run where run: "recover_run M C x s = retry_or_fail C x True run (put_run (sc_run_id x) run s)" and facts: "retry_run C True j n run"
    using assms(1) by (rule retry_stateE)
  have ints: "py_int (por (dget (metadata_for_run run) ''local_queue_retry_count'') (PInt 0)) = Inr j"
    "py_int (por (dget (metadata_for_run run) ''local_queue_max_retries'') (PInt (cl_max_retries C))) = Inr n"
    using facts by (simp_all add: retry_run_def)
  define b where "b = backoff_at (int_list_or (cl_retry_backoff C)) (j + 1)"
  define next_run where "next_run = requeued_run C x run (j + 1) n b"
  define s1 where "s1 = called (RunStatus (sc_run_id x) ''queued_local'') (put_run (sc_run_id x) next_run (put_run (sc_run_id x) run s))"
  define s2 where "s2 = called Persist (if sc_run_id x \<in> set (ms_pending s1) then s1 else s1\<lparr>ms_pending := ms_pending s1 @ [sc_run_id x]\<rparr>)"
  have step: "snd (recover_run M C x s) = s2"
    using assms(2-4) by (simp add: run retry_or_fail_def Let_def ints s2_def s1_def next_run_def b_def)
  have calls: "ms_calls s2 = ms_calls s @ [RunStatus (sc_run_id x) ''queued_local'', Persist]" by (simp add: s2_def s1_def)
  have at: "run_at (ms_runs s2) (sc_run_id x) = Some next_run" by (simp add: s2_def s1_def)
  have lost: "lose_worker M C x s = put_run (sc_run_id x) (dset ''status'' (PStr ''queued_local'') next_run) s2"
    by (simp add: lose_worker_def step calls set_status_def at Let_def)
  show "ms_calls (lose_worker M C x s) = ms_calls s @ [RunStatus (sc_run_id x) ''queued_local'', Persist]"
    by (simp add: lost calls put_run_def)
  show "retry_state C (sc_run_id x) True (j + 1) n (lose_worker M C x s)"
    unfolding retry_state_def lost using retry_run_requeued [OF facts assms(3,4)]
    by (simp add: next_run_def reported_words over_statuses_def)
qed

lemma loss_fails:
  assumes "retry_state C (sc_run_id x) b j n s" and "\<not> (b \<and> cl_requeue C \<and> j < n)" and "0 \<le> j"
  shows "run_over (sc_run_id x) (lose_worker M C x s)"
    and "statuses_of (sc_run_id x) (ms_calls (lose_worker M C x s)) = statuses_of (sc_run_id x) (ms_calls s) @ [''failed'']"
proof -
  obtain run where run: "recover_run M C x s = retry_or_fail C x b run (put_run (sc_run_id x) run s)" and facts: "retry_run C b j n run"
    using assms(1) by (rule retry_stateE)
  have ints: "py_int (por (dget (metadata_for_run run) ''local_queue_retry_count'') (PInt 0)) = Inr j"
    "py_int (por (dget (metadata_for_run run) ''local_queue_max_retries'') (PInt (cl_max_retries C))) = Inr n"
    using facts by (simp_all add: retry_run_def)
  have within: "\<not> (b \<and> cl_requeue C \<and> j < max 0 n)" using assms(2,3) by auto
  define letter where "letter = dead_letter_call (sc_run_id x) run ''worker_lost_retry_exhausted'' (max j (max 0 n))
    ([(''run_id'', PStr (sc_run_id x))] @ stale_facts x @
     [(''retry_count'', PInt j), (''max_retries'', PInt (max 0 n)), (''failure_kind'', PStr ''worker_lost'')])"
  define lost where "lost = lost_run x run j (max 0 n)"
  define s1 where "s1 = called (RunStatus (sc_run_id x) ''failed'') (put_run (sc_run_id x) lost (dead_lettered C letter (put_run (sc_run_id x) run s)))"
  have step: "snd (recover_run M C x s) = s1"
    using within unfolding run retry_or_fail_def Let_def ints sum.case s1_def lost_def letter_def by (simp only: if_False snd_conv)
  define ds where "ds = (if cl_dead_letters C then [letter] else [])"
  have ds: "statuses_of r ds = []" "fold apply_status ds t = t" for r t by (simp_all add: ds_def letter_def dead_letter_call_def Let_def)
  have calls: "ms_calls s1 = ms_calls s @ ds @ [RunStatus (sc_run_id x) ''failed'']" by (simp add: s1_def dead_lettered_def ds_def)
  have at: "run_at (ms_runs s1) (sc_run_id x) = Some lost" by (simp add: s1_def)
  have lost: "lose_worker M C x s = put_run (sc_run_id x) (dset ''status'' (PStr ''failed'') lost) s1"
    by (simp add: lose_worker_def step calls ds set_status_def at Let_def)
  show "run_over (sc_run_id x) (lose_worker M C x s)" by (simp add: lost run_over_def reported_words over_statuses_def)
  have "ms_calls (lose_worker M C x s) = ms_calls s1" by (simp add: lost put_run_def)
  then show "statuses_of (sc_run_id x) (ms_calls (lose_worker M C x s)) = statuses_of (sc_run_id x) (ms_calls s) @ [''failed'']"
    by (simp add: calls ds)
qed

lemma loss_over: "run_over (sc_run_id x) s \<Longrightarrow> lose_worker M C x s = s"
  by (auto simp: lose_worker_def recover_run_def run_over_def over_statuses_def Let_def split: option.splits)

lemma losses_over:
  assumes "run_over r s" and "\<forall>(x, go) \<in> set h. sc_run_id x = r \<and> leaves_retries C r go"
  shows "ms_calls (losses M C h s) = ms_calls s"
  using assms
proof (induction h arbitrary: s)
  case (Cons e h)
  obtain x go where e: "e = (x, go)" by (cases e)
  then have x: "sc_run_id x = r" "leaves_retries C r go" and h: "\<forall>(x, go) \<in> set h. sc_run_id x = r \<and> leaves_retries C r go"
    using Cons.prems(2) by auto
  have "losses M C (e # h) s = losses M C h (go s)" using loss_over [of x s M C] Cons.prems(1) x(1) e by simp
  moreover have "run_over r (go s)" "ms_calls (go s) = ms_calls s" using x(2) Cons.prems(1) by (simp_all add: leaves_retries_def)
  ultimately show ?case using Cons.IH [OF _ h] by simp
qed simp

definition retry_budget :: "cleanup_config \<Rightarrow> bool \<Rightarrow> int \<Rightarrow> int \<Rightarrow> nat" where
  "retry_budget C is_local j n = (if is_local \<and> cl_requeue C then nat (n - j) else 0)"

lemma losses_reported:
  assumes "retry_state C r b j n s" and "0 \<le> j" and "\<forall>(x, go) \<in> set h. sc_run_id x = r \<and> leaves_retries C r go"
  shows "statuses_of r (ms_calls (losses M C h s)) =
    statuses_of r (ms_calls s) @ take (length h) (replicate (retry_budget C b j n) ''queued_local'' @ [''failed''])"
  using assms
proof (induction h arbitrary: s j)
  case (Cons e h)
  obtain x go where e: "e = (x, go)" by (cases e)
  then have x: "sc_run_id x = r" "leaves_retries C r go" and h: "\<forall>(x, go) \<in> set h. sc_run_id x = r \<and> leaves_retries C r go"
    using Cons.prems(3) by auto
  let ?s = "lose_worker M C x s"
  have go: "ms_calls (go ?s) = ms_calls ?s" "retry_state C r b' j' n' ?s \<Longrightarrow> retry_state C r b' j' n' (go ?s)"
    "run_over r ?s \<Longrightarrow> run_over r (go ?s)" for b' j' n' using x(2) by (simp_all add: leaves_retries_def)
  show ?case
  proof (cases "b \<and> cl_requeue C \<and> j < n")
    case True
    from loss_requeues [of C x j n s M] True Cons.prems(1,2) x(1)
    have "retry_state C r b (j + 1) n (go ?s)" "statuses_of r (ms_calls (go ?s)) = statuses_of r (ms_calls s) @ [''queued_local'']"
      using go by auto
    moreover have "retry_budget C b j n = Suc (retry_budget C b (j + 1) n)" using True by (simp add: retry_budget_def nat_eq_iff)
    ultimately show ?thesis using Cons.IH [OF _ _ h, of "j + 1" "go ?s"] Cons.prems(2) by (simp add: e)
  next
    case False
    from loss_fails [of C x b j n s M] False Cons.prems(1,2) x(1)
    have over: "run_over r (go ?s)" and told: "statuses_of r (ms_calls (go ?s)) = statuses_of r (ms_calls s) @ [''failed'']" using go by auto
    have "retry_budget C b j n = 0" using False by (auto simp: retry_budget_def)
    with losses_over [OF over h, of M] told show ?thesis by (simp add: e)
  qed
qed simp

text \<open>
  C16. A run that keeps losing its workers is queued again as often as its retry budget says, then fails
  once, and is left alone from then on. The budget is the number of retries its metadata (or the
  configuration) allow less those already used, for a run meant for a local worker when the cleanup has
  a queue to return it to, and 0 otherwise; runs for a local worker that have a browser checkpoint are
  recovered by it and not included. Between two losses anything may happen to the state, as long as the run
  is not ended and its target, checkpoint and retry metadata stay (\<open>leaves_retries\<close>), and a run that is
  over stays over; the statuses the recovery reports are applied to the run.
\<close>

theorem retry_budget_exact:
  assumes "retry_state C r is_local j n s" and "0 \<le> j" and "\<forall>(x, go) \<in> set h. sc_run_id x = r \<and> leaves_retries C r go"
    and "statuses_of r (ms_calls s) = []"
  shows "statuses_of r (ms_calls (losses M C h s)) = take (length h) (replicate (retry_budget C is_local j n) ''queued_local'' @ [''failed''])"
  using losses_reported [OF assms(1-3), of M] assms(4) by simp

definition demo_local_run :: pydict where
  "demo_local_run = [(''status'', PStr ''running_local''), (''context'', PDict [(''metadata'', PDict [(''execution_target'', PStr ''local'')])])]"

definition demo_lost :: stale_claim where
  "demo_lost = \<lparr>sc_run_id = ''r1'', sc_worker = Some ''w1'', sc_machine = None, sc_lease_seconds = 60, sc_last_heartbeat = PNone\<rparr>"

definition demo_lost_state :: machine_state where
  "demo_lost_state = \<lparr>ms_pending = [], ms_claimed = [], ms_workers = [], ms_runs = [(''r1'', PDict demo_local_run)], ms_calls = []\<rparr>"

text \<open>Another worker takes the run up, unless it is over.\<close>

definition runs_again :: "string \<Rightarrow> machine_state \<Rightarrow> machine_state" where
  "runs_again run_id s = (if run_over run_id s then s else set_status run_id ''running_local'' s)"

lemma runs_again_leaves: "leaves_retries C r (runs_again r)"
proof -
  have "retry_state C r b j n (runs_again r s)" if "retry_state C r b j n s" for b j n s
  proof -
    from that obtain run where run: "run_at (ms_runs s) r = Some run" "run_status_token run \<notin> over_statuses" "retry_run C b j n run"
      unfolding retry_state_def by blast
    then have "runs_again r s = put_run r (dset ''status'' (PStr ''running_local'') run) s" by (simp add: runs_again_def run_over_def set_status_def)
    with run(3) show ?thesis by (simp add: retry_state_def reported_words over_statuses_def)
  qed
  moreover have "ms_calls (runs_again r s) = ms_calls s" for s by (simp add: runs_again_def set_status_def put_run_def split: option.splits)
  ultimately show ?thesis by (simp add: leaves_retries_def runs_again_def)
qed

theorem retry_budget_exact_witness:
  "statuses_of ''r1'' (ms_calls (losses demo_machines demo_cleanup (replicate 3 (demo_lost, runs_again ''r1'')) demo_lost_state))
     = [''queued_local'', ''failed'']"
proof -
  have words: "strip ''running_local'' = ''running_local''" "strip ''local'' = ''local''" "lower ''running_local'' = ''running_local''" "lower ''local'' = ''local''"
    by (simp_all add: strip_def py_space_def lower_def)
  have st: "retry_state demo_cleanup ''r1'' True 0 1 demo_lost_state"
    by (simp add: retry_state_def retry_run_def over_statuses_def demo_lost_state_def demo_local_run_def run_at_def run_status_token_def words
        metadata_for_run_def run_context_def first_text_def por_def sor_def demo_cleanup_def)
  have h: "\<forall>(x, go) \<in> set (replicate 3 (demo_lost, runs_again ''r1'')). sc_run_id x = ''r1'' \<and> leaves_retries demo_cleanup ''r1'' go"
    by (simp add: demo_lost_def runs_again_leaves)
  have "retry_budget demo_cleanup True 0 1 = 1" by (simp add: retry_budget_def demo_cleanup_def)
  with retry_budget_exact [OF st _ h, of demo_machines] show ?thesis by (simp add: demo_lost_state_def)
qed

subsection \<open>A refusal in the middle of a cleanup\<close>

lemma int_or_default: "py_int (por (PInt i) (PInt j)) = Inr (if i = 0 then j else i)"
  by (simp add: por_def)

lemma presence_ok: "dget d ''lease_seconds'' = PInt i \<Longrightarrow> \<exists>r. build_machine_presence_record d m None st secs seen msg = Inr r"
  by (cases msg) (simp_all add: build_machine_presence_record_def int_or_default Let_def)

lemma offline_worker_ok:
  "\<exists>i. dget (dict_of (dget workers w)) ''lease_seconds'' = PInt i \<Longrightarrow> \<exists>r. offline_worker C w claim secs workers = Inr r"
  using presence_ok by (auto simp: offline_worker_def int_or_default Let_def)

text \<open>
  C17. When the kernel refuses to release one lost claim (here because it has no lease id) the cleanup
  ends with an error, and the claims released before it are stranded: they are gone from the claims,
  while their runs are neither queued again nor failed, and the state is not persisted.
\<close>

theorem cleanup_refusal_strands:
  assumes "kern (me_repo M) = lease_kernel k"
    and "ms_claimed s = (r, PDict c) # (q, PDict b) # rest" and "r \<noteq> q" and "strip r \<noteq> []" and "strip q \<noteq> []"
    and "claim_lost C c" and "tok (dget c ''worker_id'') \<noteq> []" and "tok (dget c ''lease_id'') \<noteq> []"
    and "claim_lost C b" and "tok (dget b ''worker_id'') \<noteq> []" and "tok (dget b ''lease_id'') = []"
    and "\<exists>i. py_int (por (dget c ''lease_seconds'') (PInt (cl_default_lease C))) = Inr i"
    and "\<exists>i. py_int (por (dget b ''lease_seconds'') (PInt (cl_default_lease C))) = Inr i"
    and "\<exists>i. dget (dict_of (dget (ms_workers s) (tok (dget c ''worker_id'')))) ''lease_seconds'' = PInt i"
  shows "\<exists>e s'. cleanup_stale_machine_leases M C s = (Inl e, s') \<and> ms_claimed s' = dpop r (ms_claimed s)
    \<and> ms_pending s' = ms_pending s \<and> ms_runs s' = ms_runs s \<and> ms_calls s' = ms_calls s @ [release_write r c]"
proof -
  let ?E = "me_repo M"
  let ?m = "tok (dget c ''worker_id'')" and ?l = "tok (dget c ''lease_id'')" and ?n = "tok (dget b ''worker_id'')"
  obtain i j where secs: "py_int (por (dget c ''lease_seconds'') (PInt (cl_default_lease C))) = Inr i"
      "py_int (por (dget b ''lease_seconds'') (PInt (cl_default_lease C))) = Inr j" using assms(12,13) by blast
  obtain d1 where d1: "enforce_queue_transition_decision ?E ((queue_gate_defaults ''release'' r ?m ?m ''claimed'')\<lparr>qg_stale := True\<rparr>) = Inr d1"
    using queue_gate_releases [OF assms(1,4), of ?m ?m True] by auto
  let ?g = "(lease_gate_defaults ''release'' ?m)\<lparr>lg_current_holder := ?m, lg_lease := ?l, lg_current_lease := ?l, lg_stale := True\<rparr>"
  obtain d2 where d2: "enforce_machine_lease_decision ?E ?g = Inr d2"
    using gate_releases [OF assms(1), of ?g] assms(7,8) by (auto simp: lease_gate_defaults_def)
  obtain d3 where d3: "enforce_queue_transition_decision ?E ((queue_gate_defaults ''release'' q ?n ?n ''claimed'')\<lparr>qg_stale := True\<rparr>) = Inr d3"
    using queue_gate_releases [OF assms(1,5), of ?n ?n True] by auto
  let ?h = "(lease_gate_defaults ''release'' ?n)\<lparr>lg_current_holder := ?n, lg_lease := [], lg_current_lease := [], lg_stale := True\<rparr>"
  have "enforce_machine_lease_decision ?E ?h \<noteq> Inr d" for d
    using gate_released(3) [OF _ assms(1), of ?h] by (auto simp: lease_gate_defaults_def)
  then obtain e where e: "enforce_machine_lease_decision ?E ?h = Inl e" by (cases "enforce_machine_lease_decision ?E ?h") auto
  obtain w where w: "offline_worker C ?m c (max 10 i) (ms_workers s) = Inr w"
    using offline_worker_ok assms(14) by blast
  have "drop_stale M C (ms_claimed s) False [] s = (Inl e, (called (release_write r c) (s\<lparr>ms_claimed := dpop r (ms_claimed s)\<rparr>))
      \<lparr>ms_workers := dset ?m (PDict w) (ms_workers s)\<rparr>)"
    unfolding assms(2) using assms(6-11) by (simp add: Let_def secs d1 d2 d3 e w snone_def assms(2))
  then show ?thesis by (simp add: cleanup_stale_machine_leases_def)
qed

definition demo_leaseless :: machine_state where
  "demo_leaseless = \<lparr>ms_pending = [],
     ms_claimed = [(''r1'', PDict [(''worker_id'', PStr ''w1''), (''lease_id'', PStr ''L1''), (''last_heartbeat_at'', PInt 0)]),
                   (''r2'', PDict [(''worker_id'', PStr ''w2''), (''last_heartbeat_at'', PInt 0)])],
     ms_workers = [(''w1'', PDict [(''lease_seconds'', PInt 60)])], ms_runs = [(''r1'', PDict demo_local_run)], ms_calls = []\<rparr>"

theorem cleanup_refusal_strands_witness:
  "\<exists>e s'. cleanup_stale_machine_leases demo_machines demo_cleanup demo_leaseless = (Inl e, s') \<and> ms_claimed s' = dpop ''r1'' (ms_claimed demo_leaseless)
    \<and> ms_pending s' = ms_pending demo_leaseless \<and> ms_runs s' = ms_runs demo_leaseless
    \<and> ms_calls s' = ms_calls demo_leaseless @ [release_write ''r1'' [(''worker_id'', PStr ''w1''), (''lease_id'', PStr ''L1''), (''last_heartbeat_at'', PInt 0)]]"
  by (rule cleanup_refusal_strands [where k = allow_kernel and b = "[(''worker_id'', PStr ''w2''), (''last_heartbeat_at'', PInt 0)]" and q = "''r2''" and rest = "[]"])
    (simp_all add: demo_machines_def machine_repo_def demo_leaseless_def strip_def py_space_def claim_lost_def last_heartbeat_def demo_cleanup_def
      sec_def por_def)

subsection \<open>Sessions\<close>

lemma first_text_again [simp]: "d \<noteq> [] \<Longrightarrow> strip d = d \<Longrightarrow> first_text [PStr (first_text vs d)] d = first_text vs d"
  by (simp add: first_text_def sor_def por_def)

lemma enrollment_again [simp]: "machine_enrollment_scope (PStr (machine_enrollment_scope v)) = machine_enrollment_scope v"
  by (auto simp: machine_enrollment_scope_def Let_def strip_def py_space_def lower_def)

lemma role_again:
  "sor (lower (strip (py_str_of (por (PStr (sor (lower (strip x)) ''generic'')) (PStr ''generic''))))) ''generic'' = sor (lower (strip x)) ''generic''"
  by (cases "strip x = []") (simp_all add: sor_def por_def, simp add: strip_def py_space_def lower_def)

lemma scope_again [simp]: "runtime_session_scope (runtime_session_scope d) = runtime_session_scope d"
proof -
  have words: "strip ''default'' = ''default''" "strip ''local'' = ''local''" by (simp_all add: strip_def py_space_def)
  show ?thesis unfolding runtime_session_scope_def by (simp add: words role_again)
qed

lemma strip_ends:
  assumes "strip a = a" and "a \<noteq> []" shows "\<not> py_space (hd a)" and "\<not> py_space (last a)"
proof -
  show "\<not> py_space (hd a)"
    using assms by (metis dropWhile.simps(1) dropWhile_idem dropWhile_rev_idem hd_dropWhile rev_is_Nil_conv rev_rev_ident strip_def)
  show "\<not> py_space (last a)"
    using assms by (metis hd_dropWhile hd_rev last_rev rev_is_Nil_conv strip_def)
qed

lemma strip_between: "strip a = a \<Longrightarrow> a \<noteq> [] \<Longrightarrow> strip b = b \<Longrightarrow> b \<noteq> [] \<Longrightarrow> strip (a @ m @ b) = a @ m @ b"
proof -
  assume a: "strip a = a" "a \<noteq> []" and b: "strip b = b" "b \<noteq> []"
  have "dropWhile py_space (a @ m @ b) = a @ m @ b"
    by (rule dropWhile_hd_id) (use strip_ends(1) [OF a] a(2) in simp)
  moreover have "dropWhile py_space (rev (a @ m @ b)) = rev (a @ m @ b)"
    by (rule dropWhile_hd_id) (use strip_ends(2) [OF b] b(2) in \<open>simp add: hd_append hd_rev\<close>)
  ultimately show ?thesis by (simp add: strip_def)
qed

lemma first_text_ok [simp]: "strip (first_text vs d) = (if strip (py_str_of (foldr por vs (PStr d))) = [] then strip d else first_text vs d)"
  by (simp add: first_text_def sor_def)

lemma enrollment_ok: "machine_enrollment_scope v \<noteq> []" "strip (machine_enrollment_scope v) = machine_enrollment_scope v"
  by (auto simp: machine_enrollment_scope_def Let_def strip_def py_space_def)

lemma join_ends: "\<exists>m. join sep (x # ys @ [z]) = x @ m @ z"
proof (induction ys arbitrary: x)
  case Nil
  show ?case by (intro exI [of _ sep]) simp
next
  case (Cons y ys)
  then obtain m where "join sep (y # ys @ [z]) = y @ m @ z" by blast
  then show ?case by (intro exI [of _ "sep @ y @ m"]) simp
qed

lemma scope_key_stripped: "strip (runtime_session_scope_key d) = runtime_session_scope_key d" "runtime_session_scope_key d \<noteq> []"
proof -
  let ?t = "first_text [dget d ''tenant_id''] ''default''" and ?e = "machine_enrollment_scope (dget d ''machine_enrollment_scope'')"
  have tenant: "strip ?t = ?t" "?t \<noteq> []"
    by (simp_all add: first_text_def sor_def) (simp add: strip_def py_space_def)
  obtain ys where "map (\<lambda>(k, v). py_str_of v) (runtime_session_scope d) = ?t # ys @ [?e]"
    by (simp add: runtime_session_scope_def)
  then obtain m where "runtime_session_scope_key d = ?t @ m @ ?e"
    using join_ends [of "''|''" ?t ys ?e] by (auto simp: runtime_session_scope_key_def)
  with strip_between [OF tenant enrollment_ok(2,1)] tenant(2)
  show "strip (runtime_session_scope_key d) = runtime_session_scope_key d" "runtime_session_scope_key d \<noteq> []" by simp_all
qed

lemma gate_heartbeats:
  assumes "kern E = lease_kernel k" and "lg_operation g = ''heartbeat''" and "strip (lg_holder g) \<noteq> []" and "strip (lg_lease g) \<noteq> []"
    and "strip (lg_current_lease g) = strip (lg_lease g)" and "strip (lg_current_holder g) = strip (lg_holder g)" and "\<not> lg_stale g"
  shows "\<exists>d. enforce_machine_lease_decision E g = Inr d"
proof -
  have words: "strip ''lease_heartbeat_allowed'' = ''lease_heartbeat_allowed''" "strip ''touch_machine_lease'' = ''touch_machine_lease''"
      "strip ''heartbeat'' = ''heartbeat''"
    by (simp_all add: strip_def py_space_def)
  have "machine_lease_decision (lease_gate_payload g) = lease_response ''allow'' ''lease_heartbeat_allowed'' ''heartbeat'' (strip (lg_holder g))
      (Some (strip (lg_holder g))) (Some (strip (lg_lease g))) 0 False"
    using assms(2-7) by (simp add: heartbeat_payload heartbeat_decision_def holder_decision_def snone_def)
  then have "\<exists>d. run_runtime_kernel_enforced E ''machine-lease-decision'' (lease_gate_payload g) = Inr d
      \<and> tok (dget d ''next_action'') = ''touch_machine_lease''"
    using response_opens [OF words(1), of "digest E" "''machine-lease-decision''" "''heartbeat''" "strip (lg_holder g)" "Some (strip (lg_holder g))"
        "Some (strip (lg_lease g))" 0 False]
    by (auto simp: lease_kernel_gate [OF assms(1)] words lease_next_action_def)
  then show ?thesis using assms(2) by (auto simp: words enforce_machine_lease_decision_def expected_lease_action_def Let_def)
qed

lemma touch_opens:
  assumes "kern E = lease_kernel k" and "\<exists>i. py_int (por (dget d ''lease_seconds'') (PInt 900)) = Inr i"
  shows "touch_machine_session E t d = Inr (dset ''trust_state'' (PStr ''verified'') (dset ''session_last_authenticated_at'' (PStr t) d))"
proof -
  define h where "h = first_text [dget d ''machine_id'', dget d ''runtime_id'', dget d ''worker_id'', dget d ''instance_id'', dget d ''session_scope_key''] ''runtime-session''"
  define l where "l = first_text [dget d ''lease_id'', dget d ''machine_lease_id'', dget d ''session_scope_key'', dget d ''session_token_hash''] h"
  have h: "strip h = h" "h \<noteq> []"
    unfolding h_def by (simp_all add: first_text_def sor_def) (simp add: strip_def py_space_def)
  have l: "strip l = l" "l \<noteq> []" unfolding l_def using h by (auto simp: first_text_def sor_def)
  from assms(2) obtain i where i: "py_int (por (dget d ''lease_seconds'') (PInt 900)) = Inr i" by blast
  obtain a where "enforce_machine_lease_decision E ((lease_gate_defaults ''heartbeat'' h)
      \<lparr>lg_current_holder := h, lg_lease := l, lg_current_lease := l, lg_ttl := i\<rparr>) = Inr a"
    using gate_heartbeats [OF assms(1), of "(lease_gate_defaults ''heartbeat'' h)
      \<lparr>lg_current_holder := h, lg_lease := l, lg_current_lease := l, lg_ttl := i\<rparr>"] h l by (auto simp: lease_gate_defaults_def)
  then show ?thesis by (simp add: touch_machine_session_def Let_def h_def [symmetric] l_def [symmetric] i)
qed

lemma issued_fields:
  "dget (issue_machine_session h tk t d) k = (if k = ''trust_state'' then PStr ''verified''
     else if k = ''session_scope_key'' then PStr (runtime_session_scope_key d)
     else if k = ''session_scope'' then PDict (runtime_session_scope d)
     else if k = ''session_last_authenticated_at'' then PStr t else if k = ''session_issued_at'' then PStr t
     else if k = ''session_token_hash'' then PStr (h tk) else dget d k)"
proof -
  have "runtime_session_scope (dset ''session_last_authenticated_at'' (PStr t) (dset ''session_issued_at'' (PStr t) (dset ''session_token_hash'' (PStr (h tk)) d)))
      = runtime_session_scope d"
    by (simp add: runtime_session_scope_def)
  then show ?thesis by (simp add: issue_machine_session_def Let_def runtime_session_scope_key_def)
qed

lemma scope_of_issued [simp]: "runtime_session_scope (issue_machine_session h tk t d) = runtime_session_scope d"
  by (simp add: runtime_session_scope_def issued_fields)

lemma scope_key_of [simp]: "runtime_session_scope_key (runtime_session_scope d) = runtime_session_scope_key d"
  by (simp add: runtime_session_scope_key_def)

lemma scope_key_of_issued [simp]: "runtime_session_scope_key (issue_machine_session h tk t d) = runtime_session_scope_key d"
  by (simp add: runtime_session_scope_key_def)

text \<open>
  A session token is accepted for the record it was issued for, with the kernel's lease decisions:
  the record comes back verified, with the moment of the check, and stays in the registry so.
\<close>

theorem session_round_trip:
  assumes "kern E = lease_kernel k" and "strip runtime = runtime" and "runtime \<noteq> []" and "strip tk = tk" and "tk \<noteq> []"
    and "strip (hash tk) = hash tk" and "hash tk \<noteq> []" and "\<exists>i. py_int (por (dget d ''lease_seconds'') (PInt 900)) = Inr i"
    and "dget registry runtime = PDict (issue_machine_session hash tk t d)"
  shows "\<exists>r registry'. assert_machine_session hash (touch_machine_session E at) runtime (Some tk) None True registry = (Inr r, registry')
      \<and> dget r ''trust_state'' = PStr ''verified'' \<and> dget r ''session_last_authenticated_at'' = PStr at
      \<and> dget registry' runtime = PDict r"
proof -
  let ?r = "issue_machine_session hash tk t d"
  have "touch_machine_session E at (dpop ''session_scope_mismatch'' ?r) =
      Inr (dset ''trust_state'' (PStr ''verified'') (dset ''session_last_authenticated_at'' (PStr at) (dpop ''session_scope_mismatch'' ?r)))"
    by (rule touch_opens [OF assms(1)]) (use assms(8) in \<open>simp add: issued_fields\<close>)
  moreover have "session_scope_checked True ?r = (Inr (), dpop ''session_scope_mismatch'' ?r)"
    using scope_key_stripped [of d] by (simp add: session_scope_checked_def issued_fields Let_def)
  ultimately show ?thesis
    using assms(2-7,9) by (simp add: assert_machine_session_def Let_def issued_fields)
qed

theorem session_round_trip_witness:
  "\<exists>r registry'. assert_machine_session (\<lambda>s. ''#'' @ s) (touch_machine_session machine_repo ''t2'') ''m1'' (Some ''secret'') None True
      [(''m1'', PDict (issue_machine_session (\<lambda>s. ''#'' @ s) ''secret'' ''t1'' [(''tenant_id'', PStr ''acme'')]))] = (Inr r, registry')
      \<and> dget r ''trust_state'' = PStr ''verified'' \<and> dget r ''session_last_authenticated_at'' = PStr ''t2''
      \<and> dget registry' ''m1'' = PDict r"
  by (rule session_round_trip [where k = allow_kernel and tk = "''secret''" and t = "''t1''" and d = "[(''tenant_id'', PStr ''acme'')]"])
    (simp_all add: machine_repo_def strip_def py_space_def por_def)

text \<open>Another token is refused with 401 and changes nothing; a record whose scope has changed is refused with 409.\<close>

lemma session_refuses_token:
  assumes "strip runtime = runtime" and "runtime \<noteq> []" and "strip (hash tk) = hash tk" and "hash tk \<noteq> []"
    and "dget registry runtime = PDict (issue_machine_session hash tk t d)" and "hash (strip other) \<noteq> hash tk" and "strip other \<noteq> []"
  shows "assert_machine_session hash touch runtime (Some other) instance enforce registry =
    (Inl (HttpError 401 ''runtime session is no longer valid. Re-register this machine.''), registry)"
  using assms by (simp add: assert_machine_session_def Let_def issued_fields)

lemma session_refuses_scope:
  assumes "strip runtime = runtime" and "runtime \<noteq> []" and "strip tk = tk" and "tk \<noteq> []" and "hash tk \<noteq> []"
    and "dget registry runtime = PDict d'" and "tok (dget d' ''session_token_hash'') = hash tk"
    and "tok (dget d' ''session_scope_key'') = runtime_session_scope_key d" and "runtime_session_scope_key d' \<noteq> runtime_session_scope_key d"
  shows "fst (assert_machine_session hash touch runtime (Some tk) None True registry) =
    Inl (HttpError 409 ''runtime scope changed. Re-register this machine.'')"
proof -
  have "fst (session_scope_checked True d') = Inl (HttpError 409 ''runtime scope changed. Re-register this machine.'')"
    using assms(8,9) scope_key_stripped [of d] by (simp add: session_scope_checked_def Let_def)
  then show ?thesis using assms(1-7) by (auto simp: assert_machine_session_def Let_def split: prod.splits sum.splits)
qed

end
