(* ===== verification/Local_Store.thy ===== *)
theory Local_Store
  imports Kernel_Gate Tables
begin

text \<open>
  The local SQLite store of a server (\<open>runtime_state_store.py\<close>): its gate, the text of moments, and the
  tables of the sessions, of their turns and of the chat streams. A statement and the commit behind it
  are one transaction: an error of the driver anywhere in it leaves the file as it was.

  A column that holds JSON is modelled by the value its text was made from. Moments are texts; columns of
  text compare by code points, as SQLite's binary collation does.
\<close>

subsection \<open>Environment and gate\<close>

text \<open>
  \<open>le_from_iso\<close> is \<open>datetime.fromisoformat(v).astimezone(timezone.utc).timestamp()\<close> in microseconds, \<open>None\<close>
  when it raises; \<open>le_loads\<close> is \<open>json.loads\<close> of a text the caller brings along.
\<close>

record local_env =
  le_repo :: repo_env
  le_from_iso :: "string \<Rightarrow> int option"
  le_loads :: "string \<Rightarrow> pyval option"

definition le_clock :: "local_env \<Rightarrow> int" where
  "le_clock L = now (le_repo L)"

definition local_now_iso :: "local_env \<Rightarrow> string" where
  "local_now_iso L = zulu (le_clock L)"

definition parse_ts_text :: "local_env \<Rightarrow> string \<Rightarrow> int" where
  "parse_ts_text L raw =
     (let value = strip raw in
      if value = [] then le_clock L
      else case le_from_iso L (if last value = CHR ''Z'' then butlast value @ ''+00:00'' else value) of
        Some t \<Rightarrow> t
      | None \<Rightarrow> le_clock L)"

fun parse_ts :: "local_env \<Rightarrow> pyval \<Rightarrow> int" where
  "parse_ts L (PInt i) = sec i"
| "parse_ts L (PBool b) = sec (if b then 1 else 0)"
| "parse_ts L (PStr s) = parse_ts_text L s"
| "parse_ts L v = le_clock L"

definition local_next_actions :: "string \<Rightarrow> string list option" where
  "local_next_actions operation = map_of
     [(''upsert_runtime_session'', [''write_runtime_session'']),
      (''delete_runtime_session'', [''delete_runtime_session'']),
      (''upsert_runtime_session_turn'', [''write_runtime_session_turn'']),
      (''delete_runtime_session_turn'', [''delete_runtime_session_turn'']),
      (''upsert_chat_stream_state'', [''write_chat_stream_state'']),
      (''upsert_live_run'', [''write_live_run_state'']),
      (''delete_live_run'', [''delete_live_run_state'']),
      (''append_channel_event'', [''append_channel_event'']),
      (''checkpoint_snapshot'', [''write_checkpoint_snapshot'']),
      (''upsert_notification'', [''write_notification'']),
      (''mark_notification_read'', [''mark_notification_read'']),
      (''register_notification_device'', [''write_notification_device'']),
      (''update_notification_delivery'', [''write_notification_delivery'']),
      (''prune_records'', [''prune_state_records''])] operation"

record local_request =
  lq_operation :: string
  lq_state_class :: string
  lq_item :: "pydict option"
  lq_run_id :: "string option"
  lq_session_id :: "string option"
  lq_turn_id :: "string option"
  lq_runtime_id :: "string option"
  lq_notification_id :: "string option"
  lq_device_id :: "string option"
  lq_actor_id :: "string option"
  lq_status :: "string option"
  lq_retention_days :: "int option"
  lq_records_requested :: "int option"

definition local_defaults :: "string \<Rightarrow> string \<Rightarrow> local_request" where
  "local_defaults operation state_class = \<lparr>lq_operation = operation, lq_state_class = state_class, lq_item = None,
     lq_run_id = None, lq_session_id = None, lq_turn_id = None, lq_runtime_id = None, lq_notification_id = None,
     lq_device_id = None, lq_actor_id = None, lq_status = None, lq_retention_days = None, lq_records_requested = None\<rparr>"

definition local_kernel_request :: "local_request \<Rightarrow> pydict" where
  "local_kernel_request r =
     (let item = (case lq_item r of None \<Rightarrow> [] | Some d \<Rightarrow> d);
          given = (\<lambda>v k. PStr (tok (por (opt_val v) (dget item k)))) in
      [(''operation'', PStr (lq_operation r)), (''state_class'', PStr (lq_state_class r)),
       (''storage_engine'', PStr ''local_sqlite''),
       (''workspace_id'', PStr (text_or (dget item ''workspace_id'') ''default'')),
       (''tenant_id'', PStr (text_or (dget item ''tenant_id'') ''default'')),
       (''run_id'', given (lq_run_id r) ''run_id''), (''session_id'', given (lq_session_id r) ''session_id''),
       (''turn_id'', given (lq_turn_id r) ''turn_id''),
       (''runtime_id'', PStr (tok (por (opt_val (lq_runtime_id r)) (por (dget item ''runtime_id'') (dget item ''worker_id''))))),
       (''notification_id'', given (lq_notification_id r) ''id''), (''device_id'', given (lq_device_id r) ''device_id''),
       (''actor_id'', PStr (tok (por (opt_val (lq_actor_id r)) (por (dget item ''reader_key'') (dget item ''user_id''))))),
       (''trace_id'', PStr (tok (dget item ''trace_id''))),
       (''status'', PStr (text_or (por (opt_val (lq_status r)) (por (dget item ''status'') (dget item ''state''))) ''unknown'')),
       (''payload'', PBool (lq_item r \<noteq> None)), (''payload_bytes'', PInt (utf8_len (json_dumps (PDict item)))),
       (''durable_runtime_required'', PBool False), (''durable_pool_available'', PBool True),
       (''local_checkpoint_allowed'', PBool True), (''workspace_access'', PBool True), (''owner_access'', PBool True)]
      @ (case lq_retention_days r of None \<Rightarrow> [] | Some n \<Rightarrow> [(''retention_days'', PInt (max 1 n))])
      @ (case lq_records_requested r of None \<Rightarrow> [] | Some n \<Rightarrow> [(''records_requested'', PInt (max 0 n))]))"

definition enforce_local_store_decision :: "local_env \<Rightarrow> local_request \<Rightarrow> pydict res" where
  "enforce_local_store_decision L r =
     (case run_runtime_kernel_enforced (le_repo L) ''runtime-state-store-decision'' (local_kernel_request r) of
        Inl e \<Rightarrow> Inl e
      | Inr decision \<Rightarrow>
          check_next_action ''runtime_state_store'' ''runtime-state-store-decision'' local_next_actions (lq_operation r) decision)"

text \<open>A transaction of \<open>n\<close> calls of the driver: opening the file, the statements, the commit.\<close>

definition transaction :: "local_env \<Rightarrow> nat \<Rightarrow> unit res" where
  "transaction L n = (case first_fault (le_repo L) [0..<n] of Some m \<Rightarrow> Inl (DriverError m) | None \<Rightarrow> Inr ())"

definition text_desc :: "('r \<Rightarrow> string) \<Rightarrow> 'r list \<Rightarrow> 'r list" where
  "text_desc k rows = rev (sort_key k (rev rows))"

definition limited :: "int option \<Rightarrow> 'r list \<Rightarrow> 'r list" where
  "limited limit rows = (case limit of None \<Rightarrow> rows | Some n \<Rightarrow> if 0 < n then take (nat n) rows else rows)"

definition wanted_statuses :: "string list option \<Rightarrow> string list" where
  "wanted_statuses statuses = filter (\<lambda>s. s \<noteq> []) (map strip (case statuses of None \<Rightarrow> [] | Some xs \<Rightarrow> xs))"

definition status_in :: "string list \<Rightarrow> string \<Rightarrow> bool" where
  "status_in wanted s = (wanted = [] \<or> s \<in> set wanted)"

subsection \<open>Tables\<close>

record session_row =
  rs_session_id :: string
  rs_actor_key :: string
  rs_workspace_id :: string
  rs_user_id :: string
  rs_status :: string
  rs_runtime_options :: pydict
  rs_created_at :: string
  rs_updated_at :: string
  rs_last_touched_at :: string
  rs_last_error :: "string option"
  rs_meta :: pydict

record turn_row =
  rt_turn_id :: string
  rt_session_id :: string
  rt_request_id :: string
  rt_status :: string
  rt_started_at :: string
  rt_updated_at :: string
  rt_completed_at :: "string option"
  rt_input :: pydict
  rt_final_payload :: "pydict option"
  rt_error_text :: "string option"
  rt_metrics :: pydict

record stream_row =
  ch_session_id :: string
  ch_thread_id :: string
  ch_request_id :: string
  ch_workspace_id :: string
  ch_status :: string
  ch_created_at :: string
  ch_updated_at :: string
  ch_last_event_seq :: int
  ch_partial_text :: string
  ch_final_payload :: "pydict option"
  ch_error_text :: "string option"
  ch_metadata :: pydict

record session_db =
  sessions :: "session_row list"
  turns :: "turn_row list"
  streams :: "stream_row list"

text \<open>The JSON column of a final payload: a dictionary of the caller, or a text it brings along.\<close>

definition final_payload_column :: "local_env \<Rightarrow> pydict \<Rightarrow> pydict option" where
  "final_payload_column L item = (case dget item ''final_payload'' of
     PDict d \<Rightarrow> Some d
   | _ \<Rightarrow> (let raw = tok (dget item ''final_payload_json'') in
       if raw = [] then None else case le_loads L raw of Some (PDict d) \<Rightarrow> Some d | _ \<Rightarrow> None))"

fun opt_dict :: "pydict option \<Rightarrow> pyval" where
  "opt_dict None = PNone"
| "opt_dict (Some d) = PDict d"

subsection \<open>Sessions\<close>

definition session_item :: "session_row \<Rightarrow> pydict" where
  "session_item r =
     [(''session_id'', PStr (strip (rs_session_id r))), (''actor_key'', PStr (strip (rs_actor_key r))),
      (''workspace_id'', PStr (strip (rs_workspace_id r))), (''user_id'', PStr (strip (rs_user_id r))),
      (''status'', PStr (strip (rs_status r))), (''runtime_options'', PDict (rs_runtime_options r)),
      (''created_at'', PStr (strip (rs_created_at r))), (''updated_at'', PStr (strip (rs_updated_at r))),
      (''last_touched_at'', PStr (strip (rs_last_touched_at r))), (''last_error'', PStr (opt_tok (rs_last_error r))),
      (''meta'', PDict (rs_meta r))]"

definition session_values :: "local_env \<Rightarrow> pydict \<Rightarrow> session_row" where
  "session_values L item =
     (let session_id = tok (dget item ''session_id'');
          created_at = sor (tok (dget item ''created_at'')) (local_now_iso L);
          updated_at = sor (tok (dget item ''updated_at'')) created_at
      in \<lparr>rs_session_id = session_id, rs_actor_key = sor (tok (dget item ''actor_key'')) session_id,
          rs_workspace_id = tok (dget item ''workspace_id''), rs_user_id = tok (dget item ''user_id''),
          rs_status = text_or (dget item ''status'') ''ready'',
          rs_runtime_options = dict_of (dget item ''runtime_options''), rs_created_at = created_at,
          rs_updated_at = updated_at, rs_last_touched_at = sor (tok (dget item ''last_touched_at'')) updated_at,
          rs_last_error = snone (tok (dget item ''last_error'')), rs_meta = dict_of (dget item ''meta'')\<rparr>)"

definition upsert_runtime_session :: "local_env \<Rightarrow> pydict \<Rightarrow> session_db \<Rightarrow> unit res \<times> session_db" where
  "upsert_runtime_session L item s =
     (let session_id = tok (dget item ''session_id'') in
      if session_id = [] then (Inr (), s)
      else case enforce_local_store_decision L ((local_defaults ''upsert_runtime_session'' ''runtime_sessions'')
          \<lparr>lq_item := Some item, lq_session_id := Some session_id,
           lq_status := Some (py_str_of (por (dget item ''status'') (PStr ''active'')))\<rparr>) of
        Inl e \<Rightarrow> (Inl e, s)
      | Inr _ \<Rightarrow> (case transaction L 3 of Inl e \<Rightarrow> (Inl e, s)
          | Inr _ \<Rightarrow> (Inr (), s\<lparr>sessions := put_row rs_session_id (session_values L item) (sessions s)\<rparr>)))"

definition get_runtime_session :: "local_env \<Rightarrow> string \<Rightarrow> session_db \<Rightarrow> pydict option res" where
  "get_runtime_session L session_id s =
     (let token = strip session_id in
      if token = [] then Inr None
      else case transaction L 2 of Inl e \<Rightarrow> Inl e
        | Inr _ \<Rightarrow> Inr (map_option session_item (row_of rs_session_id token (sessions s))))"

definition list_runtime_sessions :: "local_env \<Rightarrow> string list option \<Rightarrow> int option \<Rightarrow> session_db \<Rightarrow> pydict list res" where
  "list_runtime_sessions L statuses limit s =
     (case transaction L 2 of Inl e \<Rightarrow> Inl e
      | Inr _ \<Rightarrow> Inr (map session_item (limited limit (text_desc rs_last_touched_at
          (filter (\<lambda>r. status_in (wanted_statuses statuses) (rs_status r)) (sessions s))))))"

text \<open>Deleting a session deletes its turns with it (\<open>ON DELETE CASCADE\<close>).\<close>

definition delete_runtime_session :: "local_env \<Rightarrow> string \<Rightarrow> session_db \<Rightarrow> unit res \<times> session_db" where
  "delete_runtime_session L session_id s =
     (let token = strip session_id in
      if token = [] then (Inr (), s)
      else case enforce_local_store_decision L ((local_defaults ''delete_runtime_session'' ''runtime_sessions'')
          \<lparr>lq_session_id := Some token, lq_status := Some ''closed''\<rparr>) of
        Inl e \<Rightarrow> (Inl e, s)
      | Inr _ \<Rightarrow> (case transaction L 3 of Inl e \<Rightarrow> (Inl e, s)
          | Inr _ \<Rightarrow> (Inr (), s\<lparr>sessions := del_rows (\<lambda>r. rs_session_id r = token) (sessions s),
              turns := del_rows (\<lambda>r. rt_session_id r = token) (turns s)\<rparr>)))"

subsection \<open>Turns\<close>

definition turn_item :: "turn_row \<Rightarrow> pydict" where
  "turn_item r =
     [(''turn_id'', PStr (strip (rt_turn_id r))), (''session_id'', PStr (strip (rt_session_id r))),
      (''request_id'', PStr (strip (rt_request_id r))), (''status'', PStr (strip (rt_status r))),
      (''started_at'', PStr (strip (rt_started_at r))), (''updated_at'', PStr (strip (rt_updated_at r))),
      (''completed_at'', PStr (opt_tok (rt_completed_at r))), (''input'', PDict (rt_input r)),
      (''final_payload'', opt_dict (rt_final_payload r)), (''error_text'', PStr (opt_tok (rt_error_text r))),
      (''metrics'', PDict (rt_metrics r))]"

definition turn_values :: "local_env \<Rightarrow> pydict \<Rightarrow> turn_row" where
  "turn_values L item =
     (let started_at = sor (tok (dget item ''started_at'')) (local_now_iso L)
      in \<lparr>rt_turn_id = tok (dget item ''turn_id''), rt_session_id = tok (dget item ''session_id''),
          rt_request_id = tok (dget item ''request_id''), rt_status = text_or (dget item ''status'') ''running'',
          rt_started_at = started_at, rt_updated_at = sor (tok (dget item ''updated_at'')) started_at,
          rt_completed_at = snone (tok (dget item ''completed_at'')), rt_input = dict_of (dget item ''input''),
          rt_final_payload = final_payload_column L item, rt_error_text = snone (tok (dget item ''error_text'')),
          rt_metrics = dict_of (dget item ''metrics'')\<rparr>)"

text \<open>The foreign key: a turn of an unknown session is refused.\<close>

definition upsert_runtime_session_turn :: "local_env \<Rightarrow> pydict \<Rightarrow> session_db \<Rightarrow> unit res \<times> session_db" where
  "upsert_runtime_session_turn L item s =
     (let turn_id = tok (dget item ''turn_id''); session_id = tok (dget item ''session_id'') in
      if turn_id = [] \<or> session_id = [] \<or> tok (dget item ''request_id'') = [] then (Inr (), s)
      else case enforce_local_store_decision L ((local_defaults ''upsert_runtime_session_turn'' ''runtime_session_turns'')
          \<lparr>lq_item := Some item, lq_session_id := Some session_id, lq_turn_id := Some turn_id,
           lq_status := Some (py_str_of (por (dget item ''status'') (PStr ''running'')))\<rparr>) of
        Inl e \<Rightarrow> (Inl e, s)
      | Inr _ \<Rightarrow> (case transaction L 3 of Inl e \<Rightarrow> (Inl e, s)
          | Inr _ \<Rightarrow> if row_of rs_session_id session_id (sessions s) = None
              then (Inl (DriverError ''FOREIGN KEY constraint failed''), s)
              else (Inr (), s\<lparr>turns := put_row rt_turn_id (turn_values L item) (turns s)\<rparr>)))"

definition get_runtime_session_turn :: "local_env \<Rightarrow> string \<Rightarrow> session_db \<Rightarrow> pydict option res" where
  "get_runtime_session_turn L turn_id s =
     (let token = strip turn_id in
      if token = [] then Inr None
      else case transaction L 2 of Inl e \<Rightarrow> Inl e
        | Inr _ \<Rightarrow> Inr (map_option turn_item (row_of rt_turn_id token (turns s))))"

definition list_runtime_session_turns ::
    "local_env \<Rightarrow> string \<Rightarrow> string list option \<Rightarrow> int option \<Rightarrow> session_db \<Rightarrow> pydict list res" where
  "list_runtime_session_turns L session_id statuses limit s =
     (case transaction L 2 of Inl e \<Rightarrow> Inl e
      | Inr _ \<Rightarrow> Inr (map turn_item (limited limit (text_desc rt_updated_at
          (filter (\<lambda>r. (strip session_id = [] \<or> rt_session_id r = strip session_id)
             \<and> status_in (wanted_statuses statuses) (rt_status r)) (turns s))))))"

definition delete_runtime_session_turn :: "local_env \<Rightarrow> string \<Rightarrow> session_db \<Rightarrow> unit res \<times> session_db" where
  "delete_runtime_session_turn L turn_id s =
     (let token = strip turn_id in
      if token = [] then (Inr (), s)
      else case enforce_local_store_decision L ((local_defaults ''delete_runtime_session_turn'' ''runtime_session_turns'')
          \<lparr>lq_turn_id := Some token, lq_status := Some ''closed''\<rparr>) of
        Inl e \<Rightarrow> (Inl e, s)
      | Inr _ \<Rightarrow> (case transaction L 3 of Inl e \<Rightarrow> (Inl e, s)
          | Inr _ \<Rightarrow> (Inr (), s\<lparr>turns := del_rows (\<lambda>r. rt_turn_id r = token) (turns s)\<rparr>)))"

subsection \<open>Chat streams\<close>

definition stream_item :: "stream_row \<Rightarrow> pydict" where
  "stream_item r =
     [(''session_id'', PStr (strip (ch_session_id r))), (''thread_id'', PStr (strip (ch_thread_id r))),
      (''request_id'', PStr (strip (ch_request_id r))), (''workspace_id'', PStr (strip (ch_workspace_id r))),
      (''status'', PStr (strip (ch_status r))), (''created_at'', PStr (strip (ch_created_at r))),
      (''updated_at'', PStr (strip (ch_updated_at r))), (''last_event_seq'', PInt (ch_last_event_seq r)),
      (''partial_text'', PStr (ch_partial_text r)), (''final_payload'', opt_dict (ch_final_payload r)),
      (''error_text'', PStr (opt_tok (ch_error_text r))), (''metadata'', PDict (ch_metadata r))]"

definition stream_values :: "local_env \<Rightarrow> pydict \<Rightarrow> int \<Rightarrow> stream_row" where
  "stream_values L item seq =
     (let created_at = sor (tok (dget item ''created_at'')) (local_now_iso L)
      in \<lparr>ch_session_id = tok (dget item ''session_id''), ch_thread_id = tok (dget item ''thread_id''),
          ch_request_id = tok (dget item ''request_id''), ch_workspace_id = tok (dget item ''workspace_id''),
          ch_status = text_or (dget item ''status'') ''active'', ch_created_at = created_at,
          ch_updated_at = sor (tok (dget item ''updated_at'')) created_at, ch_last_event_seq = max 0 seq,
          ch_partial_text = py_str_of (por (dget item ''partial_text'') (PStr [])),
          ch_final_payload = final_payload_column L item, ch_error_text = snone (tok (dget item ''error_text'')),
          ch_metadata = dict_of (dget item ''metadata'')\<rparr>)"

text \<open>\<open>int(last_event_seq)\<close> is evaluated once the file is open, and its error is not caught.\<close>

definition upsert_chat_stream_state :: "local_env \<Rightarrow> pydict \<Rightarrow> session_db \<Rightarrow> unit res \<times> session_db" where
  "upsert_chat_stream_state L item s =
     (let session_id = tok (dget item ''session_id'') in
      if session_id = [] then (Inr (), s)
      else case enforce_local_store_decision L ((local_defaults ''upsert_chat_stream_state'' ''chat_stream_state'')
          \<lparr>lq_item := Some item, lq_session_id := Some session_id, lq_status := Some (text_or (dget item ''status'') ''active'')\<rparr>) of
        Inl e \<Rightarrow> (Inl e, s)
      | Inr _ \<Rightarrow> (case transaction L 1 of Inl e \<Rightarrow> (Inl e, s)
          | Inr _ \<Rightarrow> (case py_int (por (dget item ''last_event_seq'') (PInt 0)) of Inl e \<Rightarrow> (Inl e, s)
            | Inr seq \<Rightarrow> (case transaction L 3 of Inl e \<Rightarrow> (Inl e, s)
                | Inr _ \<Rightarrow> (Inr (), s\<lparr>streams := put_row ch_session_id (stream_values L item seq) (streams s)\<rparr>)))))"

definition get_chat_stream_state :: "local_env \<Rightarrow> string \<Rightarrow> session_db \<Rightarrow> pydict option res" where
  "get_chat_stream_state L session_id s =
     (let token = strip session_id in
      if token = [] then Inr None
      else case transaction L 2 of Inl e \<Rightarrow> Inl e
        | Inr _ \<Rightarrow> Inr (map_option stream_item (row_of ch_session_id token (streams s))))"

definition list_chat_stream_states :: "local_env \<Rightarrow> string list option \<Rightarrow> int option \<Rightarrow> session_db \<Rightarrow> pydict list res" where
  "list_chat_stream_states L statuses limit s =
     (case transaction L 2 of Inl e \<Rightarrow> Inl e
      | Inr _ \<Rightarrow> Inr (map stream_item (limited limit (text_desc ch_updated_at
          (filter (\<lambda>r. status_in (wanted_statuses statuses) (ch_status r)) (streams s))))))"

text \<open>No kernel decision here: the expired streams go by a comparison of texts.\<close>

definition delete_expired_chat_stream_states :: "local_env \<Rightarrow> int \<Rightarrow> int option \<Rightarrow> session_db \<Rightarrow> int res \<times> session_db" where
  "delete_expired_chat_stream_states L older_than_seconds now_ts s =
     (let cutoff = zulu ((case now_ts of None \<Rightarrow> le_clock L | Some t \<Rightarrow> t) - sec (max 1 older_than_seconds));
          old = (\<lambda>r. ch_updated_at r < cutoff)
      in case transaction L 3 of Inl e \<Rightarrow> (Inl e, s)
        | Inr _ \<Rightarrow> (Inr (int (length (filter old (streams s)))), s\<lparr>streams := del_rows old (streams s)\<rparr>))"

text \<open>The stale active streams, each interrupted in a transaction of its own; \<open>L k\<close> is the environment of the k-th.\<close>

definition interrupted_stream :: "local_env \<Rightarrow> string \<Rightarrow> pydict \<Rightarrow> int \<Rightarrow> pydict" where
  "interrupted_stream L error_text item seq =
     dset ''last_event_seq'' (PInt (max 1 (seq + 1)))
       (dset ''error_text'' (PStr (strip error_text)) (dset ''updated_at'' (PStr (local_now_iso L)) (dset ''status'' (PStr ''interrupted'') item)))"

fun interrupt_streams :: "(nat \<Rightarrow> local_env) \<Rightarrow> nat \<Rightarrow> int \<Rightarrow> string \<Rightarrow> pydict list \<Rightarrow> int \<Rightarrow> session_db \<Rightarrow> int res \<times> session_db" where
  "interrupt_streams L k stale error_text [] n s = (Inr n, s)"
| "interrupt_streams L k stale error_text (item # items) n s =
     (if stale < parse_ts (L k) (dget item ''updated_at'') then interrupt_streams L k stale error_text items n s
      else case py_int (por (dget item ''last_event_seq'') (PInt 0)) of Inl e \<Rightarrow> (Inl e, s)
        | Inr seq \<Rightarrow> (case upsert_chat_stream_state (L k) (interrupted_stream (L k) error_text item seq) s of
            (Inl e, s') \<Rightarrow> (Inl e, s')
          | (Inr _, s') \<Rightarrow> interrupt_streams L (k + 1) stale error_text items (n + 1) s'))"

definition mark_stale_chat_stream_sessions_interrupted ::
    "(nat \<Rightarrow> local_env) \<Rightarrow> int \<Rightarrow> string \<Rightarrow> session_db \<Rightarrow> int res \<times> session_db" where
  "mark_stale_chat_stream_sessions_interrupted L stale_before error_text s =
     (case list_chat_stream_states (L 0) (Some [''active'']) None s of
        Inl e \<Rightarrow> (Inl e, s)
      | Inr items \<Rightarrow> interrupt_streams L 1 stale_before error_text items 0 s)"

definition delete_chat_stream_sessions_older_than :: "local_env \<Rightarrow> int \<Rightarrow> session_db \<Rightarrow> int res \<times> session_db" where
  "delete_chat_stream_sessions_older_than L older_than s =
     (case transaction L 2 of Inl e \<Rightarrow> (Inl e, s)
      | Inr _ \<Rightarrow>
        (let old = (\<lambda>r. parse_ts_text L (if ch_updated_at r = [] then ch_created_at r else ch_updated_at r) \<le> older_than
               \<and> strip (ch_session_id r) \<noteq> []);
             targets = map (\<lambda>r. strip (ch_session_id r)) (filter old (streams s))
         in case (if targets = [] then Inr [] else enforce_local_store_decision L
               ((local_defaults ''prune_records'' ''chat_stream_state'')\<lparr>lq_item := Some [(''workspace_id'', PStr ''default'')],
                lq_status := Some ''archived'', lq_retention_days := Some 30,
                lq_records_requested := Some (int (length targets))\<rparr>)) of
              Inl e \<Rightarrow> (Inl e, s)
            | Inr _ \<Rightarrow> (case transaction L (3 + length targets) of Inl e \<Rightarrow> (Inl e, s)
                | Inr _ \<Rightarrow> (Inr (int (length targets)), s\<lparr>streams := del_rows (\<lambda>r. ch_session_id r \<in> set targets) (streams s)\<rparr>))))"

subsection \<open>A store that answers\<close>

definition store_ok :: "local_env \<Rightarrow> bool" where
  "store_ok L = (fault (le_repo L) = (\<lambda>_. None))"

lemma store_ok_transaction [simp]: "store_ok L \<Longrightarrow> transaction L n = Inr ()"
proof -
  assume "store_ok L"
  then have "first_fault (le_repo L) ks = None" for ks by (induction ks) (simp_all add: store_ok_def)
  then show ?thesis by (simp add: transaction_def)
qed

definition store_open :: "local_env \<Rightarrow> bool" where
  "store_open L \<longleftrightarrow> store_ok L \<and> (\<forall>r. local_next_actions (lq_operation r) \<noteq> None \<longrightarrow> (\<exists>d. enforce_local_store_decision L r = Inr d))"

lemma store_open_ok [simp]: "store_open L \<Longrightarrow> store_ok L"
  by (simp add: store_open_def)

lemma local_defaults_operation [simp]: "lq_operation (local_defaults operation c) = operation"
  by (simp add: local_defaults_def)

lemma local_known [simp]:
  "local_next_actions ''upsert_runtime_session'' \<noteq> None" "local_next_actions ''upsert_runtime_session_turn'' \<noteq> None"
  by (simp_all add: local_next_actions_def)

lemma store_gate_open: "store_open L \<Longrightarrow> local_next_actions (lq_operation r) \<noteq> None \<Longrightarrow> \<exists>d. enforce_local_store_decision L r = Inr d"
  by (simp add: store_open_def)

text \<open>A kernel that allows every write of the local store.\<close>

definition local_kernel :: "string \<Rightarrow> pydict \<Rightarrow> pydict" where
  "local_kernel command request = [(''ok'', PBool True), (''decision'', PStr ''allow''),
     (''next_action'', PStr (case local_next_actions (py_str_of (dget request ''operation'')) of Some (a # as) \<Rightarrow> a | _ \<Rightarrow> []))]"

definition demo_local :: local_env where
  "demo_local = \<lparr>le_repo = (allow_env 0)\<lparr>kern := local_kernel\<rparr>, le_from_iso = (\<lambda>_. None), le_loads = (\<lambda>_. None)\<rparr>"

lemma local_kernel_enforced:
  "\<exists>d. run_runtime_kernel_enforced (le_repo demo_local) command request = Inr d \<and>
       dget d ''next_action'' = PStr (tok (dget (local_kernel command request) ''next_action''))"
proof -
  have "dget (normalize_kernel_decision dig command (local_kernel command request)) ''decision'' = PStr ''allow''" for dig
    by (simp add: normalize_kernel_decision_def Let_def local_kernel_def por_def sor_def strip_def py_space_def)
  then show ?thesis
    by (simp add: run_runtime_kernel_enforced_def enforce_kernel_decision_def Let_def demo_local_def
        normalize_ok normalize_approval normalize_fields local_kernel_def)
qed

lemma local_actions: "local_next_actions operation = Some expected \<Longrightarrow> \<exists>a. expected = [a] \<and> strip a = a"
  by (auto simp: local_next_actions_def strip_def py_space_def split: if_splits)

lemma demo_local_open: "store_open demo_local"
proof -
  have "\<exists>d. enforce_local_store_decision demo_local r = Inr d" if "local_next_actions (lq_operation r) \<noteq> None" for r
  proof -
    from that obtain a where a: "local_next_actions (lq_operation r) = Some [a]" "strip a = a" using local_actions by blast
    have "dget (local_kernel c (local_kernel_request r)) ''next_action'' = PStr a" for c
      using a(1) by (simp add: local_kernel_def local_kernel_request_def Let_def)
    with local_kernel_enforced [of "''runtime-state-store-decision''" "local_kernel_request r"] obtain d where
      "run_runtime_kernel_enforced (le_repo demo_local) ''runtime-state-store-decision'' (local_kernel_request r) = Inr d"
      "dget d ''next_action'' = PStr a" using a(2) by auto
    then show ?thesis using a by (auto simp: enforce_local_store_decision_def check_next_action_Inr)
  qed
  then show ?thesis by (simp add: store_open_def store_ok_def demo_local_def fun_eq_iff)
qed

subsection \<open>Histories\<close>

datatype session_op =
    OpSession local_env pydict
  | OpDropSession local_env string
  | OpTurn local_env pydict
  | OpDropTurn local_env string
  | OpStream local_env pydict
  | OpExpire local_env int "int option"
  | OpInterrupt "nat \<Rightarrow> local_env" int string
  | OpPrune local_env int

fun session_step :: "session_op \<Rightarrow> session_db \<Rightarrow> session_db" where
  "session_step (OpSession L item) s = snd (upsert_runtime_session L item s)"
| "session_step (OpDropSession L i) s = snd (delete_runtime_session L i s)"
| "session_step (OpTurn L item) s = snd (upsert_runtime_session_turn L item s)"
| "session_step (OpDropTurn L i) s = snd (delete_runtime_session_turn L i s)"
| "session_step (OpStream L item) s = snd (upsert_chat_stream_state L item s)"
| "session_step (OpExpire L older t) s = snd (delete_expired_chat_stream_states L older t s)"
| "session_step (OpInterrupt L stale text) s = snd (mark_stale_chat_stream_sessions_interrupted L stale text s)"
| "session_step (OpPrune L older) s = snd (delete_chat_stream_sessions_older_than L older s)"

text \<open>The keys are unique and every turn belongs to a session that exists.\<close>

definition session_wf :: "session_db \<Rightarrow> bool" where
  "session_wf s \<longleftrightarrow> keys_distinct rs_session_id (sessions s) \<and> keys_distinct rt_turn_id (turns s)
     \<and> keys_distinct ch_session_id (streams s)
     \<and> (\<forall>t \<in> set (turns s). rt_session_id t \<in> rs_session_id ` set (sessions s))"

definition keeps_wf :: "session_db \<Rightarrow> ('r \<times> session_db) set" where
  "keeps_wf s = {(r, s'). session_wf s \<longrightarrow> session_wf s'}"

lemma keeps_wf_same: "(r, s) \<in> keeps_wf s"
  by (simp add: keeps_wf_def)

lemma keeps_wf_snd: "c \<in> keeps_wf s \<Longrightarrow> session_wf s \<Longrightarrow> session_wf (snd c)"
  by (auto simp: keeps_wf_def)

lemma keeps_wf_session: "(r, s\<lparr>sessions := put_row rs_session_id row (sessions s)\<rparr>) \<in> keeps_wf s"
  by (auto simp: keeps_wf_def session_wf_def keys_put_row)

lemma keeps_wf_drop_session:
  "(r, s\<lparr>sessions := del_rows (\<lambda>x. rs_session_id x = i) (sessions s), turns := del_rows (\<lambda>t. rt_session_id t = i) (turns s)\<rparr>) \<in> keeps_wf s"
  by (auto simp: keeps_wf_def session_wf_def keys_distinct_del) (auto simp: del_rows_def)

lemma keeps_wf_turn:
  "row_of rs_session_id (rt_session_id t) (sessions s) \<noteq> None \<Longrightarrow> (r, s\<lparr>turns := put_row rt_turn_id t (turns s)\<rparr>) \<in> keeps_wf s"
  unfolding row_of_None using set_put_row [of rt_turn_id t "turns s"] by (auto simp: keeps_wf_def session_wf_def)

lemma keeps_wf_others:
  "(r, s\<lparr>turns := del_rows P (turns s)\<rparr>) \<in> keeps_wf s"
  "(r, s\<lparr>streams := put_row ch_session_id c (streams s)\<rparr>) \<in> keeps_wf s"
  "(r, s\<lparr>streams := del_rows Q (streams s)\<rparr>) \<in> keeps_wf s"
  by (auto simp: keeps_wf_def session_wf_def keys_distinct_del) (auto simp: del_rows_def)

lemmas keeps_wf_rules = keeps_wf_same keeps_wf_session keeps_wf_drop_session keeps_wf_turn keeps_wf_others

lemma turn_values_session: "rt_session_id (turn_values L item) = tok (dget item ''session_id'')"
  by (simp add: turn_values_def Let_def)

lemma upsert_session_wf: "upsert_runtime_session L item s \<in> keeps_wf s"
  unfolding upsert_runtime_session_def Let_def by (intro branch keeps_wf_rules)

lemma drop_session_wf: "delete_runtime_session L i s \<in> keeps_wf s"
  unfolding delete_runtime_session_def Let_def by (intro branch keeps_wf_rules)

lemma upsert_turn_wf: "upsert_runtime_session_turn L item s \<in> keeps_wf s"
  unfolding upsert_runtime_session_turn_def Let_def
  by (intro branch keeps_wf_rules) (simp add: turn_values_session)

lemma drop_turn_wf: "delete_runtime_session_turn L i s \<in> keeps_wf s"
  unfolding delete_runtime_session_turn_def Let_def by (intro branch keeps_wf_rules)

lemma upsert_stream_wf: "upsert_chat_stream_state L item s \<in> keeps_wf s"
  unfolding upsert_chat_stream_state_def Let_def by (intro branch keeps_wf_rules)

lemma expire_wf: "delete_expired_chat_stream_states L older t s \<in> keeps_wf s"
  unfolding delete_expired_chat_stream_states_def Let_def by (intro branch keeps_wf_rules)

lemma prune_wf: "delete_chat_stream_sessions_older_than L older s \<in> keeps_wf s"
  unfolding delete_chat_stream_sessions_older_than_def Let_def by (intro branch keeps_wf_rules)

lemma interrupt_streams_wf: "session_wf s \<Longrightarrow> session_wf (snd (interrupt_streams L k stale text items n s))"
proof (induction items arbitrary: k n s)
  case (Cons item items)
  then show ?case
    using keeps_wf_snd [OF upsert_stream_wf Cons.prems]
    by (auto split: sum.splits prod.splits) (metis snd_conv)+
qed simp

lemma interrupt_wf: "mark_stale_chat_stream_sessions_interrupted L stale text s \<in> keeps_wf s"
  unfolding mark_stale_chat_stream_sessions_interrupted_def
  by (intro branch keeps_wf_same) (metis interrupt_streams_wf keeps_wf_def mem_Collect_eq case_prod_conv surjective_pairing)

lemma session_step_wf: "session_wf s \<Longrightarrow> session_wf (session_step op s)"
  by (cases op) (simp_all add: keeps_wf_snd [OF upsert_session_wf] keeps_wf_snd [OF drop_session_wf] keeps_wf_snd [OF upsert_turn_wf]
      keeps_wf_snd [OF drop_turn_wf] keeps_wf_snd [OF upsert_stream_wf] keeps_wf_snd [OF expire_wf] keeps_wf_snd [OF prune_wf]
      keeps_wf_snd [OF interrupt_wf])

theorem session_store_wf:
  assumes "session_wf s" shows "session_wf (fold session_step ops s)"
  using assms by (induction ops arbitrary: s) (simp_all add: session_step_wf)

end
