(* ===== verification/Session_Manager.thy ===== *)
theory Session_Manager
  imports Local_Store
begin

text \<open>
  The session manager (\<open>session_manager/manager.py\<close>, \<open>runtime_cache.py\<close>, \<open>types.py\<close>, \<open>observability.py\<close>):
  it keeps a cache of runtime handles by actor, runs the turns of a session over the local store, replays
  turns that are completed, interrupts stale sessions and evicts idle handles.

  A turn runs under the lock of its actor (theory \<open>Actor_Queue\<close>), so its sections are modelled in sequence.
  The executor, the sink and the browser factory are parameters; \<open>L k\<close> is the environment (clock, kernel,
  driver errors) of the k-th call an operation makes to the store. Moments of the clock are integers in
  microseconds. An executor's change to the handle it is given is the handle it returns.
\<close>

subsection \<open>Runtime handles and their cache\<close>

text \<open>What \<open>_close_owned_browser\<close> can tell of a browser: the global singleton, an adapter, anything that can be closed.\<close>

record browser =
  br_id :: nat
  br_is_engine :: bool
  br_is_adapter :: bool
  br_can_close :: bool

record runtime_handle =
  hd_session_id :: string
  hd_actor_key :: string
  hd_workspace_id :: string
  hd_user_id :: string
  hd_cwd :: string
  hd_runtime_options :: pydict
  hd_meta :: pydict
  hd_browser :: "browser option"
  hd_last_touched_at :: int

text \<open>An entry is a handle with the moment it was touched; the keys are in insertion order.\<close>

type_synonym runtime_cache = "(string \<times> runtime_handle \<times> int) list"

definition cache_token :: "string \<Rightarrow> string" where
  "cache_token actor_key = lower (strip actor_key)"

definition cache_size :: "runtime_cache \<Rightarrow> int" where
  "cache_size c = int (length c)"

definition cache_has :: "string \<Rightarrow> runtime_cache \<Rightarrow> bool" where
  "cache_has actor_key c = (map_of c (cache_token actor_key) \<noteq> None)"

definition cache_get :: "string \<Rightarrow> bool \<Rightarrow> int \<Rightarrow> runtime_cache \<Rightarrow> runtime_handle option \<times> runtime_cache" where
  "cache_get actor_key touch t c =
     (case map_of c (cache_token actor_key) of
        None \<Rightarrow> (None, c)
      | Some (h, touched) \<Rightarrow>
          if touch then (let h' = h\<lparr>hd_last_touched_at := t\<rparr> in (Some h', AList.update (cache_token actor_key) (h', t) c))
          else (Some h, c))"

definition cache_peek :: "string \<Rightarrow> runtime_cache \<Rightarrow> runtime_handle option" where
  "cache_peek actor_key c = fst (cache_get actor_key False 0 c)"

definition get_last_touched_at :: "string \<Rightarrow> runtime_cache \<Rightarrow> int option" where
  "get_last_touched_at actor_key c = map_option snd (map_of c (cache_token actor_key))"

definition cache_set :: "string \<Rightarrow> runtime_handle \<Rightarrow> int \<Rightarrow> runtime_cache \<Rightarrow> runtime_cache" where
  "cache_set actor_key h t c = AList.update (cache_token actor_key) (h\<lparr>hd_last_touched_at := t\<rparr>, t) c"

definition cache_clear :: "string \<Rightarrow> runtime_cache \<Rightarrow> runtime_cache" where
  "cache_clear actor_key c = AList.delete (cache_token actor_key) c"

record cached_snapshot =
  cp_actor_key :: string
  cp_state :: runtime_handle
  cp_last_touched_at :: int
  cp_idle :: int

definition cache_snapshot :: "int \<Rightarrow> runtime_cache \<Rightarrow> cached_snapshot list" where
  "cache_snapshot t c = map (\<lambda>(k, h, touched). \<lparr>cp_actor_key = k, cp_state = h, cp_last_touched_at = touched,
     cp_idle = max 0 (t - touched)\<rparr>) c"

definition collect_idle_candidates :: "int \<Rightarrow> int \<Rightarrow> runtime_cache \<Rightarrow> cached_snapshot list" where
  "collect_idle_candidates max_idle t c =
     (if max_idle \<le> 0 then [] else filter (\<lambda>p. max_idle \<le> cp_idle p) (cache_snapshot t c))"

subsection \<open>The manager\<close>

record manager_config =
  mc_stale_session_seconds :: int
  mc_handle_idle_ttl_seconds :: int
  mc_browser_factory :: "int \<Rightarrow> browser option"

text \<open>\<open>mg_closed\<close> lists the browsers whose \<open>close_sync\<close> was called.\<close>

record manager =
  mg_db :: session_db
  mg_cache :: runtime_cache
  mg_active_turns :: int
  mg_evicted :: int
  mg_interrupted :: int
  mg_errors :: "(string \<times> int) list"
  mg_closed :: "nat list"

definition manager_config_of :: "int \<Rightarrow> int \<Rightarrow> (int \<Rightarrow> browser option) \<Rightarrow> manager_config" where
  "manager_config_of stale idle factory =
     \<lparr>mc_stale_session_seconds = max 1 stale, mc_handle_idle_ttl_seconds = max 1 idle, mc_browser_factory = factory\<rparr>"

definition new_manager :: "session_db \<Rightarrow> manager" where
  "new_manager db = \<lparr>mg_db = db, mg_cache = [], mg_active_turns = 0, mg_evicted = 0, mg_interrupted = 0, mg_errors = [], mg_closed = []\<rparr>"

definition close_owned_browser :: "browser option \<Rightarrow> manager \<Rightarrow> manager" where
  "close_owned_browser b m = (case b of None \<Rightarrow> m
     | Some x \<Rightarrow> if br_is_engine x \<or> br_is_adapter x \<or> \<not> br_can_close x then m
                 else m\<lparr>mg_closed := mg_closed m @ [br_id x]\<rparr>)"

definition record_error :: "string \<Rightarrow> manager \<Rightarrow> manager" where
  "record_error code m =
     (let token = sor (strip (sor code ''unknown_error'')) ''unknown_error'' in
      m\<lparr>mg_errors := AList.update token ((case map_of (mg_errors m) token of None \<Rightarrow> 0 | Some n \<Rightarrow> n) + 1) (mg_errors m)\<rparr>)"

definition add_active_turn_delta :: "int \<Rightarrow> manager \<Rightarrow> manager" where
  "add_active_turn_delta delta m = m\<lparr>mg_active_turns := max 0 (mg_active_turns m + delta)\<rparr>"

text \<open>An operation of the store inside the manager.\<close>

definition on_db :: "(session_db \<Rightarrow> 'a res \<times> session_db) \<Rightarrow> manager \<Rightarrow> 'a res \<times> manager" where
  "on_db f m = (case f (mg_db m) of (r, db) \<Rightarrow> (r, m\<lparr>mg_db := db\<rparr>))"

subsection \<open>Sessions\<close>

definition build_runtime_handle :: "manager_config \<Rightarrow> int \<Rightarrow> pydict \<Rightarrow> string \<Rightarrow> pydict \<Rightarrow> pydict \<Rightarrow> runtime_handle" where
  "build_runtime_handle C t session actor_key options meta =
     \<lparr>hd_session_id = tok (dget session ''session_id''), hd_actor_key = actor_key,
      hd_workspace_id = tok (dget session ''workspace_id''), hd_user_id = tok (dget session ''user_id''),
      hd_cwd = tok (dget options ''cwd''), hd_runtime_options = options, hd_meta = meta,
      hd_browser = mc_browser_factory C t, hd_last_touched_at = t\<rparr>"

definition ensure_runtime_handle :: "manager_config \<Rightarrow> int \<Rightarrow> pydict \<Rightarrow> manager \<Rightarrow> runtime_handle \<times> manager" where
  "ensure_runtime_handle C t session m =
     (let actor_key = tok (por (dget session ''actor_key'') (dget session ''session_id''));
          options = dict_of (dget session ''runtime_options''); meta = dict_of (dget session ''meta'')
      in case cache_get actor_key True t (mg_cache m) of
          (Some h, c) \<Rightarrow>
            (let h' = h\<lparr>hd_workspace_id := tok (dget session ''workspace_id''), hd_user_id := tok (dget session ''user_id''),
                   hd_cwd := tok (por (dget options ''cwd'') (PStr (hd_cwd h))), hd_runtime_options := options, hd_meta := meta\<rparr>
             in (h', m\<lparr>mg_cache := AList.update (cache_token actor_key) (h', t) c\<rparr>))
        | (None, c) \<Rightarrow>
            (let h = build_runtime_handle C t session actor_key options meta
             in (h, m\<lparr>mg_cache := cache_set actor_key h t c\<rparr>)))"

record session_args =
  sa_session_id :: string
  sa_actor_key :: string
  sa_workspace_id :: string
  sa_user_id :: string

definition session_payload :: "string \<Rightarrow> session_args \<Rightarrow> pydict option \<Rightarrow> pydict option \<Rightarrow> string \<Rightarrow> pydict \<Rightarrow> pydict" where
  "session_payload now_iso a options meta status existing =
     (let token = strip (sa_session_id a);
          kept = (\<lambda>given k. case given of Some d \<Rightarrow> PDict d | None \<Rightarrow> PDict (dict_of (dget existing k)))
      in [(''session_id'', PStr token), (''actor_key'', PStr (sor (strip (sa_actor_key a)) token)),
          (''workspace_id'', PStr (tok (por (PStr (sa_workspace_id a)) (dget existing ''workspace_id'')))),
          (''user_id'', PStr (tok (por (PStr (sa_user_id a)) (dget existing ''user_id'')))),
          (''status'', PStr (text_or (por (PStr status) (dget existing ''status'')) ''ready'')),
          (''runtime_options'', kept options ''runtime_options''),
          (''created_at'', PStr (sor (tok (dget existing ''created_at'')) now_iso)), (''updated_at'', PStr now_iso),
          (''last_touched_at'', PStr now_iso), (''last_error'', PStr (tok (dget existing ''last_error''))),
          (''meta'', kept meta ''meta'')])"

text \<open>Three calls to the store: read, write, read again.\<close>

definition ensure_session ::
    "manager_config \<Rightarrow> (nat \<Rightarrow> local_env) \<Rightarrow> session_args \<Rightarrow> pydict option \<Rightarrow> pydict option \<Rightarrow> string \<Rightarrow> manager \<Rightarrow> pydict res \<times> manager" where
  "ensure_session C L a options meta status m =
     (let token = strip (sa_session_id a) in
      if token = [] then (Inl (ValueError ''session_id is required''), m)
      else case get_runtime_session (L 0) token (mg_db m) of Inl e \<Rightarrow> (Inl e, m)
      | Inr found \<Rightarrow>
        (let existing = (case found of None \<Rightarrow> [] | Some d \<Rightarrow> d);
             payload = session_payload (local_now_iso (L 0)) a options meta status existing
         in case on_db (upsert_runtime_session (L 1) payload) m of (Inl e, m1) \<Rightarrow> (Inl e, m1)
         | (Inr _, m1) \<Rightarrow>
           (case get_runtime_session (L 2) token (mg_db m1) of Inl e \<Rightarrow> (Inl e, m1)
            | Inr again \<Rightarrow> (let session = (case again of None \<Rightarrow> payload | Some d \<Rightarrow> d) in
                (Inr session, snd (ensure_runtime_handle C (le_clock (L 2)) session m1))))))"

subsection \<open>Prior messages and replays\<close>

definition turn_messages :: "pydict \<Rightarrow> pyval list" where
  "turn_messages turn =
     (let user_message = tok (dget (dict_of (dget turn ''input'')) ''message'');
          assistant_reply = tok (dget (dict_of (dget turn ''final_payload'')) ''reply'');
          said = (\<lambda>role content. PDict [(''role'', PStr role), (''content'', PStr content)])
      in (if user_message = [] then [] else [said ''user'' user_message])
         @ (if assistant_reply = [] then [] else [said ''assistant'' assistant_reply]))"

definition build_prior_messages :: "local_env \<Rightarrow> string \<Rightarrow> int \<Rightarrow> session_db \<Rightarrow> pyval list res" where
  "build_prior_messages L session_id limit s =
     (let token = strip session_id in
      if token = [] then Inr []
      else case list_runtime_session_turns L token (Some [''completed'']) (Some (max 1 limit)) s of
        Inl e \<Rightarrow> Inl e
      | Inr ts \<Rightarrow> Inr (concat (map turn_messages (rev ts))))"

definition replay_event :: "string \<Rightarrow> pydict \<Rightarrow> pydict \<Rightarrow> pydict" where
  "replay_event turn_id turn final_payload =
     [(''type'', PStr ''final''), (''payload'', PDict final_payload),
      (''metadata'', PDict [(''replayed'', PBool True),
         (''request_id'', PStr (text_or (dget turn ''request_id'') turn_id))])]"

definition completed_turn_replay_event :: "local_env \<Rightarrow> string \<Rightarrow> session_db \<Rightarrow> pydict option res" where
  "completed_turn_replay_event L turn_id s =
     (case get_runtime_session_turn L turn_id s of
        Inl e \<Rightarrow> Inl e
      | Inr None \<Rightarrow> Inr None
      | Inr (Some turn) \<Rightarrow> Inr (if tok (dget turn ''status'') \<noteq> ''completed'' then None
          else case dget turn ''final_payload'' of
            PDict d \<Rightarrow> if d = [] then None else Some (replay_event turn_id turn d)
          | _ \<Rightarrow> None))"

subsection \<open>Turns\<close>

text \<open>What an executor does with a turn: the events it yields, the exception it then raises, the handle it leaves.\<close>

record executor_run =
  xr_events :: "pyval list"
  xr_failure :: "py_error option"
  xr_handle :: runtime_handle

record turn_args =
  ta_session :: session_args
  ta_message :: string
  ta_request_meta :: "pydict option"

record turn_env =
  te_executor :: "turn_args \<Rightarrow> string \<Rightarrow> runtime_handle \<Rightarrow> pydict \<Rightarrow> executor_run"
  te_sink :: "pydict \<Rightarrow> py_error option"
  te_stop :: "pydict list \<Rightarrow> bool"
  te_uuid :: "nat \<Rightarrow> string"
  te_store :: "nat \<Rightarrow> local_env"

text \<open>
  The loop over the executor's events. \<open>te_stop\<close> holds of the events yielded when the consumer closes the
  generator at the last of them, which \<open>except Exception\<close> does not see.
\<close>

record progress =
  pg_yielded :: "pydict list"
  pg_event_count :: int
  pg_chunk_count :: int
  pg_final :: pydict
  pg_final_seen :: bool

datatype loop_end = Completed | Broken py_error | Abandoned

definition no_progress :: progress where
  "no_progress = \<lparr>pg_yielded = [], pg_event_count = 0, pg_chunk_count = 0, pg_final = [], pg_final_seen = False\<rparr>"

definition event_type :: "pydict \<Rightarrow> string" where
  "event_type ev = lower (tok (dget ev ''type''))"

definition count_event :: "pydict \<Rightarrow> progress \<Rightarrow> progress" where
  "count_event ev p =
     (let p1 = p\<lparr>pg_event_count := pg_event_count p + 1, pg_chunk_count := pg_chunk_count p + (if event_type ev = ''chunk'' then 1 else 0)\<rparr>
      in case dget ev ''payload'' of
          PDict d \<Rightarrow> if event_type ev = ''final'' then p1\<lparr>pg_final := d, pg_final_seen := True\<rparr> else p1
        | _ \<Rightarrow> p1)"

fun turn_loop :: "turn_env \<Rightarrow> py_error option \<Rightarrow> pyval list \<Rightarrow> progress \<Rightarrow> progress \<times> loop_end" where
  "turn_loop T failure [] p = (p, case failure of None \<Rightarrow> Completed | Some e \<Rightarrow> Broken e)"
| "turn_loop T failure (x # xs) p =
     (let ev = dict_of x in
      case te_sink T ev of Some e \<Rightarrow> (p, Broken e)
      | None \<Rightarrow> (let q = count_event ev p; r = q\<lparr>pg_yielded := pg_yielded q @ [ev]\<rparr> in
          if te_stop T (pg_yielded r) then (r, Abandoned) else turn_loop T failure xs r))"

definition turn_record :: "string \<Rightarrow> string \<Rightarrow> string \<Rightarrow> turn_args \<Rightarrow> pydict \<Rightarrow> string \<Rightarrow> string \<Rightarrow> string \<Rightarrow> pydict \<Rightarrow> pydict \<Rightarrow> pydict" where
  "turn_record turn_id request_id status a meta started_at updated_at completed_at extra metrics =
     [(''turn_id'', PStr turn_id), (''session_id'', PStr (sa_session_id (ta_session a))), (''request_id'', PStr request_id),
      (''status'', PStr status), (''started_at'', PStr started_at), (''updated_at'', PStr updated_at)]
     @ (if completed_at = [] then [] else [(''completed_at'', PStr completed_at)])
     @ [(''input'', PDict [(''message'', PStr (ta_message a)), (''request_meta'', PDict meta)])]
     @ extra @ [(''metrics'', PDict metrics)]"

text \<open>The final payload of a loop that ran through: without a final event it becomes an empty reply.\<close>

definition closed_progress :: "progress \<Rightarrow> progress" where
  "closed_progress p = (if pg_final_seen p \<or> pg_final p \<noteq> [] then p else p\<lparr>pg_final := [(''reply'', PStr [])]\<rparr>)"

definition turn_metrics :: "progress \<Rightarrow> pydict" where
  "turn_metrics p = [(''event_count'', PInt (pg_event_count p)), (''chunk_count'', PInt (pg_chunk_count p))]"

text \<open>The session as it was ensured, with the outcome of its turn.\<close>

definition session_after :: "pydict \<Rightarrow> string \<Rightarrow> string \<Rightarrow> string \<Rightarrow> pydict" where
  "session_after session status t last_error =
     dset ''last_error'' (PStr last_error) (dset ''last_touched_at'' (PStr t) (dset ''updated_at'' (PStr t)
       (dset ''status'' (PStr status) session)))"

definition error_code :: "string \<Rightarrow> string" where
  "error_code text = takeWhile (\<lambda>c. c \<noteq> CHR '':'') text"

record turn_names =
  tn_turn_id :: string
  tn_request_id :: string
  tn_meta :: pydict
  tn_started_at :: string

text \<open>The end of a turn that ran through, and the handler around it; both write the turn and then the session.\<close>

definition finish_turn :: "turn_env \<Rightarrow> turn_args \<Rightarrow> turn_names \<Rightarrow> pydict \<Rightarrow> progress \<Rightarrow> manager \<Rightarrow> unit res \<times> manager" where
  "finish_turn T a n session p m =
     (let final_payload = pg_final p;
          error_text = tok (dget final_payload ''error'');
          status = (if error_text = [] then ''completed'' else ''error'');
          completed_at = local_now_iso (te_store T 10)
      in case on_db (upsert_runtime_session_turn (te_store T 10) (turn_record (tn_turn_id n) (tn_request_id n) status a (tn_meta n)
            (tn_started_at n) completed_at completed_at
            [(''final_payload'', PDict final_payload), (''error_text'', PStr error_text)] (turn_metrics p))) m of
          (Inl e, m1) \<Rightarrow> (Inl e, m1)
        | (Inr _, m1) \<Rightarrow>
          (case on_db (upsert_runtime_session (te_store T 11) (session_after session
                (if error_text = [] then ''ready'' else ''error'') completed_at error_text)) m1 of
             (Inl e, m2) \<Rightarrow> (Inl e, m2)
           | (Inr _, m2) \<Rightarrow> (Inr (), if error_text = [] then m2 else record_error (error_code error_text) m2)))"

text \<open>An error inside the handler replaces the one it handles.\<close>

definition fail_turn ::
    "turn_env \<Rightarrow> turn_args \<Rightarrow> turn_names \<Rightarrow> pydict \<Rightarrow> progress \<Rightarrow> py_error \<Rightarrow> manager \<Rightarrow> py_error \<times> manager" where
  "fail_turn T a n session p e m =
     (let error_text = sor (strip (exc_text e)) ''turn_failed'';
          finished_at = local_now_iso (te_store T 12)
      in case on_db (upsert_runtime_session_turn (te_store T 12) (turn_record (tn_turn_id n) (tn_request_id n) ''error'' a (tn_meta n)
            (tn_started_at n) finished_at finished_at
            [(''final_payload'', PDict (pg_final p)), (''error_text'', PStr error_text)] (turn_metrics p))) m of
          (Inl e', m1) \<Rightarrow> (e', m1)
        | (Inr _, m1) \<Rightarrow>
          (case on_db (upsert_runtime_session (te_store T 13) (session_after session ''error'' finished_at error_text)) m1 of
             (Inl e', m2) \<Rightarrow> (e', m2)
           | (Inr _, m2) \<Rightarrow> (e, record_error (error_code error_text) m2)))"

definition leave_turn :: "turn_env \<Rightarrow> string \<Rightarrow> runtime_handle \<Rightarrow> manager \<Rightarrow> manager" where
  "leave_turn T actor_token handle m =
     add_active_turn_delta (- 1) (m\<lparr>mg_cache := cache_set actor_token handle (le_clock (te_store T 14)) (mg_cache m)\<rparr>)"

text \<open>The part of a turn inside \<open>try\<close>, with its handler and its \<open>finally\<close>.\<close>

definition run_executor ::
    "turn_env \<Rightarrow> turn_args \<Rightarrow> turn_names \<Rightarrow> string \<Rightarrow> pydict \<Rightarrow> runtime_handle \<Rightarrow> manager \<Rightarrow> (pydict list \<times> unit res) \<times> manager" where
  "run_executor T a n actor_token session handle m =
     (let run = te_executor T a actor_token handle (tn_meta n);
          (p, ending) = turn_loop T (xr_failure run) (xr_events run) no_progress;
          handled = (\<lambda>q e m1. case fail_turn T a n session q e m1 of (e', m2) \<Rightarrow> (Inl e', m2));
          (r, m') = (case ending of
              Abandoned \<Rightarrow> (Inr (), m)
            | Broken e \<Rightarrow> handled p e m
            | Completed \<Rightarrow> (case finish_turn T a n session (closed_progress p) m of
                (Inr u, m1) \<Rightarrow> (Inr u, m1) | (Inl e, m1) \<Rightarrow> handled (closed_progress p) e m1))
      in ((pg_yielded p, r), leave_turn T actor_token (xr_handle run) m'))"

definition turn_meta :: "pydict \<Rightarrow> pyval list \<Rightarrow> pydict" where
  "turn_meta meta prior = (if prior = [] then meta else dset ''prior_messages'' (PList prior) meta)"

definition has_prior_messages :: "pydict \<Rightarrow> bool" where
  "has_prior_messages meta = (is_list (dget meta ''prior_messages'') \<and> truthy (dget meta ''prior_messages''))"

text \<open>The metadata of the request, with the prior messages it is given or the completed turns of the session.\<close>

definition request_meta :: "turn_env \<Rightarrow> turn_args \<Rightarrow> session_db \<Rightarrow> pydict res" where
  "request_meta T a s =
     (let given = (case ta_request_meta a of None \<Rightarrow> [] | Some d \<Rightarrow> d) in
      case (if has_prior_messages given then Inr [] else build_prior_messages (te_store T 0) (sa_session_id (ta_session a)) 8 s) of
        Inl e \<Rightarrow> Inl e | Inr prior \<Rightarrow> Inr (turn_meta given prior))"

definition request_id_of :: "turn_env \<Rightarrow> pydict \<Rightarrow> string" where
  "request_id_of T meta = strip (py_str_of (por (dget meta ''request_id'') (por (dget meta ''client_request_id'') (PStr (te_uuid T 0)))))"

definition turn_id_of :: "turn_env \<Rightarrow> pydict \<Rightarrow> string" where
  "turn_id_of T meta =
     sor (strip (py_str_of (por (dget meta ''turn_id'') (por (PStr (request_id_of T meta)) (PStr (te_uuid T 1)))))) (te_uuid T 2)"

definition actor_token_of :: "session_args \<Rightarrow> pydict \<Rightarrow> string" where
  "actor_token_of a session =
     sor (strip (py_str_of (por (dget session ''actor_key'') (por (PStr (sa_actor_key a)) (PStr (sa_session_id a)))))) (sa_session_id a)"

text \<open>What happens under the lock of the actor.\<close>

definition claimed_turn ::
    "manager_config \<Rightarrow> turn_env \<Rightarrow> turn_args \<Rightarrow> turn_names \<Rightarrow> string \<Rightarrow> manager \<Rightarrow> (pydict list \<times> unit res) \<times> manager" where
  "claimed_turn C T a n actor_token m =
     (let L = te_store T in
      case completed_turn_replay_event (L 5) (tn_turn_id n) (mg_db m) of
        Inl e \<Rightarrow> (([], Inl e), m)
      | Inr (Some ev) \<Rightarrow> (([ev], Inr ()), m)
      | Inr None \<Rightarrow>
        (case ensure_session C (\<lambda>k. L (6 + k)) ((ta_session a)\<lparr>sa_actor_key := actor_token\<rparr>)
            (Some (dict_of (dget (tn_meta n) ''runtime_options''))) (Some (tn_meta n)) ''active'' m of
           (Inl e, m1) \<Rightarrow> (([], Inl e), m1)
         | (Inr session, m1) \<Rightarrow>
           (case ensure_runtime_handle C (le_clock (L 8)) session m1 of (handle, m2) \<Rightarrow>
             (let m3 = add_active_turn_delta 1 m2 in
              case on_db (upsert_runtime_session_turn (L 9) (turn_record (tn_turn_id n) (tn_request_id n) ''running'' a (tn_meta n)
                  (tn_started_at n) (tn_started_at n) [] [] [])) m3 of
                (Inl e, m4) \<Rightarrow> (([], Inl e), m4)
              | (Inr _, m4) \<Rightarrow> run_executor T a n actor_token session handle m4))))"

definition iter_turn_events :: "manager_config \<Rightarrow> turn_env \<Rightarrow> turn_args \<Rightarrow> manager \<Rightarrow> (pydict list \<times> unit res) \<times> manager" where
  "iter_turn_events C T a m =
     (let L = te_store T in
      case request_meta T a (mg_db m) of
        Inl e \<Rightarrow> (([], Inl e), m)
      | Inr meta \<Rightarrow>
        (let turn_id = turn_id_of T meta in
         case completed_turn_replay_event (L 1) turn_id (mg_db m) of
           Inl e \<Rightarrow> (([], Inl e), m)
         | Inr (Some ev) \<Rightarrow> (([ev], Inr ()), m)
         | Inr None \<Rightarrow>
           (case ensure_session C (\<lambda>k. L (2 + k)) (ta_session a) (Some (dict_of (dget meta ''runtime_options''))) (Some meta) ''ready'' m of
              (Inl e, m1) \<Rightarrow> (([], Inl e), m1)
            | (Inr session, m1) \<Rightarrow>
              claimed_turn C T a \<lparr>tn_turn_id = turn_id, tn_request_id = request_id_of T meta, tn_meta = meta,
                tn_started_at = local_now_iso (L 2)\<rparr> (actor_token_of (ta_session a) session) m1)))"

text \<open>
  \<open>run_turn\<close> gives each event to its own sink, whose exception ends the turn as a consumer that stops does;
  the final payload wins over the text of the chunks.
\<close>

fun gather_reply :: "pydict list \<Rightarrow> pydict \<Rightarrow> string \<Rightarrow> pydict \<times> string" where
  "gather_reply [] final reply = (final, reply)"
| "gather_reply (ev # evs) final reply =
     (if event_type ev = ''chunk'' then gather_reply evs final (reply @ py_str_of (por (dget ev ''delta'') (PStr [])))
      else case dget ev ''payload'' of
          PDict d \<Rightarrow> gather_reply evs (if event_type ev = ''final'' then d else final) reply
        | _ \<Rightarrow> gather_reply evs final reply)"

definition sink_failure :: "turn_env \<Rightarrow> pydict list \<Rightarrow> py_error option" where
  "sink_failure T evs = (if evs = [] then None else te_sink T (last evs))"

definition taking_all :: "turn_env \<Rightarrow> turn_env" where
  "taking_all T = T\<lparr>te_stop := (\<lambda>evs. sink_failure T evs \<noteq> None), te_sink := (\<lambda>_. None)\<rparr>"

definition run_turn :: "manager_config \<Rightarrow> turn_env \<Rightarrow> turn_args \<Rightarrow> manager \<Rightarrow> pydict res \<times> manager" where
  "run_turn C T a m =
     (case iter_turn_events C (taking_all T) a m of ((evs, fin), m') \<Rightarrow>
        (case sink_failure T evs of Some e \<Rightarrow> (Inl e, m')
         | None \<Rightarrow> (case fin of Inl e \<Rightarrow> (Inl e, m')
           | Inr _ \<Rightarrow> (case gather_reply evs [] [] of (final, reply) \<Rightarrow>
               (Inr (if final = [] \<and> reply \<noteq> [] then [(''reply'', PStr reply)] else final), m')))))"

subsection \<open>Closing, resetting, exporting\<close>

text \<open>\<open>str(session.get("actor_key") or session_id).strip()\<close>.\<close>

definition session_actor :: "string \<Rightarrow> pydict \<Rightarrow> string" where
  "session_actor session_id session = strip (py_str_of (por (dget session ''actor_key'') (PStr session_id)))"

definition drop_handle :: "string \<Rightarrow> manager \<Rightarrow> manager" where
  "drop_handle actor_key m =
     (let m1 = (case cache_peek actor_key (mg_cache m) of None \<Rightarrow> m | Some h \<Rightarrow> close_owned_browser (hd_browser h) m)
      in m1\<lparr>mg_cache := cache_clear actor_key (mg_cache m1)\<rparr>)"

definition close_session :: "(nat \<Rightarrow> local_env) \<Rightarrow> string \<Rightarrow> manager \<Rightarrow> unit res \<times> manager" where
  "close_session L session_id m =
     (case get_runtime_session (L 0) session_id (mg_db m) of
        Inl e \<Rightarrow> (Inl e, m)
      | Inr None \<Rightarrow> (Inr (), m)
      | Inr (Some session) \<Rightarrow>
          on_db (upsert_runtime_session (L 1) (dset ''last_touched_at'' (PStr (local_now_iso (L 1)))
            (dset ''updated_at'' (PStr (local_now_iso (L 1))) (dset ''status'' (PStr ''closed'') session))))
            (drop_handle (session_actor session_id session) m))"

text \<open>Turns written back one by one, each in the environment of its own call.\<close>

fun rewrite_turns :: "(nat \<Rightarrow> local_env) \<Rightarrow> (local_env \<Rightarrow> pydict \<Rightarrow> pydict) \<Rightarrow> nat \<Rightarrow> pydict list \<Rightarrow> session_db \<Rightarrow> unit res \<times> session_db" where
  "rewrite_turns L f k [] s = (Inr (), s)"
| "rewrite_turns L f k (t # ts) s =
     (case upsert_runtime_session_turn (L k) (f (L k) t) s of
        (Inl e, s') \<Rightarrow> (Inl e, s') | (Inr _, s') \<Rightarrow> rewrite_turns L f (k + 1) ts s')"

definition archived_turn :: "local_env \<Rightarrow> pydict \<Rightarrow> pydict" where
  "archived_turn L turn = dset ''completed_at'' (PStr (local_now_iso L)) (dset ''updated_at'' (PStr (local_now_iso L))
     (dset ''status'' (PStr ''archived'') turn))"

definition reset_entries :: "local_env \<Rightarrow> int \<Rightarrow> pydict" where
  "reset_entries L resets =
     [(''status'', PStr ''active''), (''updated_at'', PStr (local_now_iso L)), (''last_touched_at'', PStr (local_now_iso L)),
      (''reset_count'', PInt resets), (''last_reset_at'', PStr (local_now_iso L)), (''turn_count'', PInt 0)]"

definition int_entry_or :: "pydict \<Rightarrow> string \<Rightarrow> int \<Rightarrow> int res" where
  "int_entry_or d k n = (case map_of d k of None \<Rightarrow> Inr n | Some v \<Rightarrow> py_int v)"

definition reset_session :: "(nat \<Rightarrow> local_env) \<Rightarrow> string \<Rightarrow> manager \<Rightarrow> unit res \<times> manager" where
  "reset_session L session_id m =
     (case get_runtime_session (L 0) session_id (mg_db m) of
        Inl e \<Rightarrow> (Inl e, m)
      | Inr None \<Rightarrow> (Inr (), m)
      | Inr (Some session) \<Rightarrow>
        (let m1 = drop_handle (session_actor session_id session) m in
         case list_runtime_session_turns (L 1) (py_str_of (por (dget session ''session_id'') (PStr [])))
             (Some [''running'', ''completed'']) None (mg_db m1) of
           Inl e \<Rightarrow> (Inl e, m1)
         | Inr ts \<Rightarrow>
           (case on_db (rewrite_turns L archived_turn 2 ts) m1 of
              (Inl e, m2) \<Rightarrow> (Inl e, m2)
            | (Inr _, m2) \<Rightarrow>
              (case int_entry_or session ''reset_count'' 0 of Inl e \<Rightarrow> (Inl e, m2)
               | Inr n \<Rightarrow> on_db (upsert_runtime_session (L (2 + length ts))
                   (dmerge session (reset_entries (L (2 + length ts)) (n + 1)))) m2))))"

text \<open>
  \<open>export_trace\<close> reads \<open>self._error_count\<close>, which no code sets, once it has read everything else; its
  entries that are read from the session and its turns cannot fail on what the store returns.
\<close>

definition export_trace :: "(nat \<Rightarrow> local_env) \<Rightarrow> string \<Rightarrow> manager \<Rightarrow> pydict res" where
  "export_trace L session_id m =
     (case get_runtime_session (L 0) session_id (mg_db m) of
        Inl e \<Rightarrow> Inl e
      | Inr None \<Rightarrow> Inr [(''error'', PStr ''session_not_found''), (''session_id'', PStr session_id)]
      | Inr (Some session) \<Rightarrow>
        (case list_runtime_session_turns (L 1) (strip (py_str_of (por (dget session ''session_id'') (PStr session_id))))
            (Some [''running'', ''completed'', ''error'', ''archived'']) None (mg_db m) of
           Inl e \<Rightarrow> Inl e
         | Inr ts \<Rightarrow>
           (case int_entry_or session ''reset_count'' 0 of Inl e \<Rightarrow> Inl e
            | Inr _ \<Rightarrow> (case int_entry_or session ''turn_count'' (int (length ts)) of Inl e \<Rightarrow> Inl e
              | Inr _ \<Rightarrow> Inl (AttributeError ''EmpyralisSessionManager has no attribute _error_count'')))))"

subsection \<open>Stale sessions and idle handles\<close>

definition stale_text :: string where
  "stale_text = ''Session interrupted while the runtime was unavailable.''"

definition touched_ts :: "local_env \<Rightarrow> int \<Rightarrow> pydict \<Rightarrow> int" where
  "touched_ts L reference session =
     (case le_from_iso L (replace_Z (tok (por (dget session ''last_touched_at'') (dget session ''updated_at'')))) of
        None \<Rightarrow> reference | Some t \<Rightarrow> t)"

definition interrupted_session :: "local_env \<Rightarrow> pydict \<Rightarrow> pydict" where
  "interrupted_session L session = session_after session ''interrupted'' (local_now_iso L) stale_text"

definition failed_turn :: "local_env \<Rightarrow> pydict \<Rightarrow> pydict" where
  "failed_turn L turn = dset ''error_text'' (PStr stale_text) (dset ''completed_at'' (PStr (local_now_iso L))
     (dset ''updated_at'' (PStr (local_now_iso L)) (dset ''status'' (PStr ''error'') turn)))"

fun interrupt_sessions :: "(nat \<Rightarrow> local_env) \<Rightarrow> nat \<Rightarrow> int \<Rightarrow> int \<Rightarrow> pydict list \<Rightarrow> int \<Rightarrow> session_db \<Rightarrow> int res \<times> session_db" where
  "interrupt_sessions L k reference stale [] n s = (Inr n, s)"
| "interrupt_sessions L k reference stale (session # rest) n s =
     (if reference - sec stale < touched_ts (L k) reference session then interrupt_sessions L k reference stale rest n s
      else case upsert_runtime_session (L k) (interrupted_session (L k) session) s of
        (Inl e, s1) \<Rightarrow> (Inl e, s1)
      | (Inr _, s1) \<Rightarrow>
        (case list_runtime_session_turns (L (k + 1)) (py_str_of (por (dget session ''session_id'') (PStr []))) (Some [''running'']) None s1 of
           Inl e \<Rightarrow> (Inl e, s1)
         | Inr ts \<Rightarrow>
           (case rewrite_turns L failed_turn (k + 2) ts s1 of
              (Inl e, s2) \<Rightarrow> (Inl e, s2)
            | (Inr _, s2) \<Rightarrow> interrupt_sessions L (k + 2 + length ts) reference stale rest (n + 1) s2)))"

definition interrupt_stale_sessions :: "manager_config \<Rightarrow> (nat \<Rightarrow> local_env) \<Rightarrow> int option \<Rightarrow> manager \<Rightarrow> int res \<times> manager" where
  "interrupt_stale_sessions C L now_ts m =
     (let reference = (case now_ts of None \<Rightarrow> le_clock (L 0) | Some t \<Rightarrow> t) in
      case list_runtime_sessions (L 0) (Some [''active'']) None (mg_db m) of
        Inl e \<Rightarrow> (Inl e, m)
      | Inr found \<Rightarrow>
        (case on_db (interrupt_sessions L 1 reference (mc_stale_session_seconds C) found 0) m of
           (Inl e, m1) \<Rightarrow> (Inl e, m1)
         | (Inr n, m1) \<Rightarrow> (Inr n, m1\<lparr>mg_interrupted := mg_interrupted m1 + n\<rparr>)))"

text \<open>The candidates are a snapshot; a handle is dropped when it is still the one in the cache.\<close>

fun evict_candidates :: "cached_snapshot list \<Rightarrow> int \<Rightarrow> manager \<Rightarrow> int \<times> manager" where
  "evict_candidates [] n m = (n, m)"
| "evict_candidates (p # ps) n m =
     (if cache_peek (cp_actor_key p) (mg_cache m) = Some (cp_state p)
      then evict_candidates ps (n + 1)
        ((close_owned_browser (hd_browser (cp_state p)) m)\<lparr>mg_cache := cache_clear (cp_actor_key p) (mg_cache m)\<rparr>)
      else evict_candidates ps n m)"

definition evict_idle_handles :: "manager_config \<Rightarrow> int \<Rightarrow> manager \<Rightarrow> int \<times> manager" where
  "evict_idle_handles C t m =
     (case evict_candidates (collect_idle_candidates (sec (mc_handle_idle_ttl_seconds C)) t (mg_cache m)) 0 m of
        (n, m') \<Rightarrow> (n, m'\<lparr>mg_evicted := mg_evicted m' + n\<rparr>))"

definition observability_snapshot :: "manager_config \<Rightarrow> bool \<Rightarrow> int \<Rightarrow> manager \<Rightarrow> pydict" where
  "observability_snapshot C enabled queue_depth m =
     [(''enabled'', PBool enabled),
      (''runtime_cache'', PDict [(''active_sessions'', PInt (cache_size (mg_cache m))),
         (''idle_ttl_ms'', PInt (mc_handle_idle_ttl_seconds C * 1000)), (''evicted_total'', PInt (mg_evicted m))]),
      (''turns'', PDict [(''active'', PInt (mg_active_turns m)), (''queue_depth'', PInt queue_depth)]),
      (''interrupted_stale_sessions'', PInt (mg_interrupted m)),
      (''errors_by_code'', PDict (map (\<lambda>(k, n). (k, PInt n)) (sort_key fst (mg_errors m))))]"

subsection \<open>A completed turn is replayed\<close>

definition turn_of :: "string \<Rightarrow> session_db \<Rightarrow> turn_row option" where
  "turn_of i s = row_of rt_turn_id i (turns s)"

lemma get_turn: "store_ok L \<Longrightarrow> strip i = i \<Longrightarrow> i \<noteq> [] \<Longrightarrow> get_runtime_session_turn L i s = Inr (map_option turn_item (turn_of i s))"
  by (simp add: get_runtime_session_turn_def turn_of_def Let_def)

lemma status_words [simp]:
  "strip ''completed'' = ''completed''" "strip ''running'' = ''running''" "strip ''error'' = ''error''" "strip ''active'' = ''active''"
  "strip ''ready'' = ''ready''" "strip ''interrupted'' = ''interrupted''" "strip ''closed'' = ''closed''" "strip ''archived'' = ''archived''"
  by (simp_all add: strip_def py_space_def)

lemma turn_item_fields [simp]:
  "dget (turn_item r) ''status'' = PStr (strip (rt_status r))" "dget (turn_item r) ''final_payload'' = opt_dict (rt_final_payload r)"
  "dget (turn_item r) ''request_id'' = PStr (strip (rt_request_id r))" "dget (turn_item r) ''session_id'' = PStr (strip (rt_session_id r))"
  by (simp_all add: turn_item_def)

definition replayable :: "turn_row \<Rightarrow> bool" where
  "replayable r \<longleftrightarrow> strip (rt_status r) = ''completed'' \<and> rt_final_payload r \<noteq> None \<and> rt_final_payload r \<noteq> Some []"

lemma replay_of_completed:
  assumes "store_ok L" and "strip i = i" and "i \<noteq> []" and "turn_of i s = Some r" and "replayable r"
  shows "\<exists>d. rt_final_payload r = Some d \<and> completed_turn_replay_event L i s = Inr (Some (replay_event i (turn_item r) d))"
  using assms by (cases "rt_final_payload r") (auto simp: completed_turn_replay_event_def get_turn replayable_def)

lemma taking_all_simps [simp]:
  "te_sink (taking_all T) = (\<lambda>_. None)" "te_executor (taking_all T) = te_executor T"
  "te_uuid (taking_all T) = te_uuid T" "te_store (taking_all T) = te_store T"
  by (simp_all add: taking_all_def)

text \<open>A sink that takes every event.\<close>

definition takes_quietly :: "turn_env \<Rightarrow> bool" where
  "takes_quietly T = (te_sink T = (\<lambda>_. None))"

lemma quiet_takes_all [simp]: "takes_quietly T \<Longrightarrow> sink_failure T evs = None" "takes_quietly T \<Longrightarrow> te_stop (taking_all T) = (\<lambda>_. False)"
  by (simp_all add: takes_quietly_def sink_failure_def taking_all_def fun_eq_iff)

lemma replayed_turn:
  assumes "request_meta T a (mg_db m) = Inr meta" and "store_ok (te_store T 1)"
    and "strip (turn_id_of T meta) = turn_id_of T meta" and "turn_id_of T meta \<noteq> []"
    and "turn_of (turn_id_of T meta) (mg_db m) = Some r" and "replayable r" and "takes_quietly T"
  shows "\<exists>d. rt_final_payload r = Some d \<and> run_turn C T a m = (Inr d, m)
    \<and> iter_turn_events C T a m = (([replay_event (turn_id_of T meta) (turn_item r) d], Inr ()), m)"
proof -
  from replay_of_completed [OF assms(2-6)] assms(7) obtain d where d: "rt_final_payload r = Some d"
    and ev: "completed_turn_replay_event (te_store T 1) (turn_id_of T meta) (mg_db m) = Inr (Some (replay_event (turn_id_of T meta) (turn_item r) d))"
    by auto
  have iter: "iter_turn_events C T' a m = (([replay_event (turn_id_of T meta) (turn_item r) d], Inr ()), m)"
    if "te_store T' = te_store T" "te_uuid T' = te_uuid T" for T'
  proof -
    have "turn_id_of T' meta = turn_id_of T meta" "request_meta T' a (mg_db m) = Inr meta"
      using assms(1) unfolding turn_id_of_def request_id_of_def request_meta_def that by simp_all
    with ev show ?thesis by (simp add: iter_turn_events_def that)
  qed
  have "event_type (replay_event i t d) = ''final''" for i t
    by (simp add: event_type_def replay_event_def tok_def por_def lower_def strip_def py_space_def)
  moreover have "dget (replay_event i t d) ''payload'' = PDict d" for i t by (simp add: replay_event_def)
  ultimately have "run_turn C T a m = (Inr d, m)"
    using iter [of "taking_all T"] assms(7) by (simp add: run_turn_def)
  with d iter [of T] show ?thesis by auto
qed

subsection \<open>A turn in a store that answers\<close>

lemma upsert_session_open:
  assumes "store_open L" and "tok (dget item ''session_id'') \<noteq> []"
  shows "upsert_runtime_session L item s = (Inr (), s\<lparr>sessions := put_row rs_session_id (session_values L item) (sessions s)\<rparr>)"
proof -
  obtain d where "enforce_local_store_decision L ((local_defaults ''upsert_runtime_session'' ''runtime_sessions'')
      \<lparr>lq_item := Some item, lq_session_id := Some (tok (dget item ''session_id'')),
       lq_status := Some (py_str_of (por (dget item ''status'') (PStr ''active'')))\<rparr>) = Inr d"
    using store_gate_open [OF assms(1), of "(local_defaults ''upsert_runtime_session'' ''runtime_sessions'')
      \<lparr>lq_item := Some item, lq_session_id := Some (tok (dget item ''session_id'')),
       lq_status := Some (py_str_of (por (dget item ''status'') (PStr ''active'')))\<rparr>"] by auto
  then show ?thesis using assms by (simp add: upsert_runtime_session_def Let_def)
qed

lemma upsert_turn_open:
  assumes "store_open L" and "tok (dget item ''turn_id'') \<noteq> []" and "tok (dget item ''session_id'') \<noteq> []"
    and "tok (dget item ''request_id'') \<noteq> []" and "row_of rs_session_id (tok (dget item ''session_id'')) (sessions s) \<noteq> None"
  shows "upsert_runtime_session_turn L item s = (Inr (), s\<lparr>turns := put_row rt_turn_id (turn_values L item) (turns s)\<rparr>)"
proof -
  define r where "r = (local_defaults ''upsert_runtime_session_turn'' ''runtime_session_turns'')
      \<lparr>lq_item := Some item, lq_session_id := Some (tok (dget item ''session_id'')), lq_turn_id := Some (tok (dget item ''turn_id'')),
       lq_status := Some (py_str_of (por (dget item ''status'') (PStr ''running'')))\<rparr>"
  have "lq_operation r = ''upsert_runtime_session_turn''" by (simp add: r_def)
  then obtain d where "enforce_local_store_decision L r = Inr d" using store_gate_open [OF assms(1), of r] by auto
  then show ?thesis using assms unfolding upsert_runtime_session_turn_def Let_def r_def [symmetric] by simp
qed

definition session_of :: "string \<Rightarrow> session_db \<Rightarrow> session_row option" where
  "session_of i s = row_of rs_session_id i (sessions s)"

lemma session_values_id [simp]: "rs_session_id (session_values L item) = tok (dget item ''session_id'')"
  by (simp add: session_values_def Let_def)

lemma turn_values_id [simp]: "rt_turn_id (turn_values L item) = tok (dget item ''turn_id'')"
  by (simp add: turn_values_def Let_def)

lemma session_values_status [simp]: "rs_status (session_values L item) = text_or (dget item ''status'') ''ready''"
  by (simp add: session_values_def Let_def)

lemma turn_values_fields [simp]:
  "rt_status (turn_values L item) = text_or (dget item ''status'') ''running''"
  "rt_final_payload (turn_values L item) = final_payload_column L item"
  "rt_session_id (turn_values L item) = tok (dget item ''session_id'')"
  "rt_error_text (turn_values L item) = snone (tok (dget item ''error_text''))"
  by (simp_all add: turn_values_def Let_def)

lemma session_payload_id [simp]: "dget (session_payload t a o1 o2 st ex) ''session_id'' = PStr (strip (sa_session_id a))"
  by (simp add: session_payload_def Let_def)

lemma session_item_fields [simp]:
  "dget (session_item r) ''session_id'' = PStr (strip (rs_session_id r))" "dget (session_item r) ''status'' = PStr (strip (rs_status r))"
  by (simp_all add: session_item_def)

lemma ensure_handle_db [simp]: "mg_db (snd (ensure_runtime_handle C t se m)) = mg_db m"
    "mg_active_turns (snd (ensure_runtime_handle C t se m)) = mg_active_turns m"
  by (simp_all add: ensure_runtime_handle_def Let_def split: prod.splits option.splits)

text \<open>A session that is ensured is there, with the status asked for, and nothing else has changed but the cache.\<close>

lemma ensure_session_open:
  assumes "\<And>k. k < 3 \<Longrightarrow> store_open (L k)" and "strip (sa_session_id a) \<noteq> []" and "st \<noteq> []" and "strip st = st"
  shows "\<exists>row m'. ensure_session C L a o1 o2 st m = (Inr (session_item row), m')
    \<and> mg_db m' = (mg_db m)\<lparr>sessions := put_row rs_session_id row (sessions (mg_db m))\<rparr>
    \<and> rs_session_id row = strip (sa_session_id a) \<and> rs_status row = st \<and> mg_active_turns m' = mg_active_turns m"
proof -
  let ?i = "strip (sa_session_id a)"
  have ok: "store_open (L 0)" "store_open (L 1)" "store_open (L 2)" using assms(1) by simp_all
  have get: "get_runtime_session L' ?i s = Inr (map_option session_item (session_of ?i s))" if "store_open L'" for L' s
    using that assms(2) by (simp add: get_runtime_session_def session_of_def Let_def)
  define found where "found = map_option session_item (session_of ?i (mg_db m))"
  define ex where "ex = (case found of None \<Rightarrow> [] | Some d \<Rightarrow> d)"
  define p where "p = session_payload (local_now_iso (L 0)) a o1 o2 st ex"
  define row where "row = session_values (L 1) p"
  have id: "tok (dget p ''session_id'') = ?i" by (simp add: p_def)
  have status: "rs_status row = st"
    using assms(3,4) by (simp add: row_def p_def session_payload_def Let_def text_or_def por_def sor_def)
  define m1 where "m1 = m\<lparr>mg_db := (mg_db m)\<lparr>sessions := put_row rs_session_id row (sessions (mg_db m))\<rparr>\<rparr>"
  have up: "on_db (upsert_runtime_session (L 1) p) m = (Inr (), m1)"
    using upsert_session_open [OF ok(2), of p "mg_db m"] assms(2) by (simp add: on_db_def m1_def row_def id)
  have reread: "get_runtime_session (L 2) ?i (mg_db m1) = Inr (Some (session_item row))"
    using id by (simp add: get [OF ok(3)] m1_def session_of_def row_def)
  define m2 where "m2 = snd (ensure_runtime_handle C (le_clock (L 2)) (session_item row) m1)"
  have "ensure_session C L a o1 o2 st m = (Inr (session_item row), m2)"
    using assms(2) up reread get [OF ok(1), of "mg_db m", folded found_def]
    by (simp add: ensure_session_def Let_def ex_def [symmetric] p_def [symmetric] m2_def)
  moreover have "mg_db m2 = (mg_db m)\<lparr>sessions := put_row rs_session_id row (sessions (mg_db m))\<rparr>" "mg_active_turns m2 = mg_active_turns m"
    by (simp_all add: m2_def m1_def)
  ultimately show ?thesis using status id by (auto simp: row_def)
qed

lemma turn_record_fields:
  "dget (turn_record t q st a meta t0 t1 t2 extra metrics) ''turn_id'' = PStr t"
  "dget (turn_record t q st a meta t0 t1 t2 extra metrics) ''session_id'' = PStr (sa_session_id (ta_session a))"
  "dget (turn_record t q st a meta t0 t1 t2 extra metrics) ''request_id'' = PStr q"
  "dget (turn_record t q st a meta t0 t1 t2 extra metrics) ''status'' = PStr st"
  "dget (turn_record t q st a meta t0 t1 t2 [(''final_payload'', d), (''error_text'', e)] metrics) ''final_payload'' = d"
  "dget (turn_record t q st a meta t0 t1 t2 [(''final_payload'', d), (''error_text'', e)] metrics) ''error_text'' = e"
  by (simp_all add: turn_record_def)

lemma text_or_given [simp]: "s \<noteq> [] \<Longrightarrow> strip s = s \<Longrightarrow> text_or (PStr s) d = s"
  by (simp add: text_or_def sor_def)

text \<open>The rows a turn of request \<open>q\<close> leaves: its own with status \<open>st\<close>, the session's with status \<open>st'\<close>.\<close>

definition turn_left :: "string \<Rightarrow> string \<Rightarrow> pydict option \<Rightarrow> string \<Rightarrow> string \<Rightarrow> manager \<Rightarrow> bool" where
  "turn_left i st final_payload sid st' m \<longleftrightarrow>
     (\<exists>r. turn_of i (mg_db m) = Some r \<and> rt_status r = st \<and> rt_final_payload r = final_payload \<and> rt_session_id r = sid)
     \<and> (\<exists>r. session_of sid (mg_db m) = Some r \<and> rs_status r = st')"

definition named_turn :: "turn_names \<Rightarrow> turn_args \<Rightarrow> manager \<Rightarrow> bool" where
  "named_turn n a m \<longleftrightarrow> strip (tn_turn_id n) = tn_turn_id n \<and> tn_turn_id n \<noteq> [] \<and> strip (tn_request_id n) \<noteq> []
     \<and> strip (sa_session_id (ta_session a)) \<noteq> [] \<and> session_of (strip (sa_session_id (ta_session a))) (mg_db m) \<noteq> None"

lemma write_outcome:
  assumes "named_turn n a m" and "store_open L" and "store_open L'" and "strip (rs_session_id row) = strip (sa_session_id (ta_session a))"
    and "st \<noteq> []" "strip st = st" "st' \<noteq> []" "strip st' = st'"
  shows "\<exists>m1 m2. on_db (upsert_runtime_session_turn L (turn_record (tn_turn_id n) (tn_request_id n) st a meta t0 t1 t2
        [(''final_payload'', PDict d), (''error_text'', PStr e)] metrics)) m = (Inr (), m1)
    \<and> on_db (upsert_runtime_session L' (session_after (session_item row) st' t e')) m1 = (Inr (), m2)
    \<and> turn_left (tn_turn_id n) st (Some d) (strip (sa_session_id (ta_session a))) st' m2
    \<and> mg_active_turns m2 = mg_active_turns m \<and> mg_cache m2 = mg_cache m"
proof -
  let ?rec = "turn_record (tn_turn_id n) (tn_request_id n) st a meta t0 t1 t2 [(''final_payload'', PDict d), (''error_text'', PStr e)] metrics"
  let ?se = "session_after (session_item row) st' t e'"
  let ?sid = "strip (sa_session_id (ta_session a))"
  define db1 where "db1 = (mg_db m)\<lparr>turns := put_row rt_turn_id (turn_values L ?rec) (turns (mg_db m))\<rparr>"
  define db2 where "db2 = db1\<lparr>sessions := put_row rs_session_id (session_values L' ?se) (sessions db1)\<rparr>"
  have up1: "upsert_runtime_session_turn L ?rec (mg_db m) = (Inr (), db1)"
    unfolding db1_def using assms(1)
    by (intro upsert_turn_open [OF assms(2)]) (auto simp: turn_record_fields named_turn_def session_of_def)
  have id: "tok (dget ?se ''session_id'') = ?sid" using assms(4) by (simp add: session_after_def)
  have up2: "upsert_runtime_session L' ?se db1 = (Inr (), db2)"
    unfolding db2_def using assms(1) by (intro upsert_session_open [OF assms(3)]) (simp add: id named_turn_def)
  have fin: "final_payload_column L ?rec = Some d" by (simp add: final_payload_column_def turn_record_fields)
  have left: "turn_left (tn_turn_id n) st (Some d) ?sid st' (m\<lparr>mg_db := db2\<rparr>)"
    using assms(1,5-8) id unfolding turn_left_def turn_of_def session_of_def db2_def db1_def
    by (auto simp: fin turn_record_fields named_turn_def) (simp_all add: session_after_def)
  show ?thesis
    by (rule exI [of _ "m\<lparr>mg_db := db1\<rparr>"], rule exI [of _ "m\<lparr>mg_db := db2\<rparr>"]) (simp add: on_db_def up1 up2 left)
qed

lemma record_error_fields [simp]:
  "mg_db (record_error c m) = mg_db m" "mg_cache (record_error c m) = mg_cache m" "mg_active_turns (record_error c m) = mg_active_turns m"
  by (simp_all add: record_error_def Let_def)

lemma turn_left_record [simp]: "turn_left i st d sid st' (record_error c m) = turn_left i st d sid st' m"
  by (simp add: turn_left_def)

lemma finish_turn_open:
  assumes "named_turn n a m" and "store_open (te_store T 10)" and "store_open (te_store T 11)"
    and "strip (rs_session_id row) = strip (sa_session_id (ta_session a))"
  shows "\<exists>m'. finish_turn T a n (session_item row) p m = (Inr (), m')
    \<and> turn_left (tn_turn_id n) (if tok (dget (pg_final p) ''error'') = [] then ''completed'' else ''error'') (Some (pg_final p))
        (strip (sa_session_id (ta_session a))) (if tok (dget (pg_final p) ''error'') = [] then ''ready'' else ''error'') m'
    \<and> mg_active_turns m' = mg_active_turns m"
proof -
  let ?e = "tok (dget (pg_final p) ''error'')" and ?now = "local_now_iso (te_store T 10)"
  have words: "(if ?e = [] then ''completed'' else ''error'') \<noteq> []" "(if ?e = [] then ''ready'' else ''error'') \<noteq> []"
    "strip (if ?e = [] then ''completed'' else ''error'') = (if ?e = [] then ''completed'' else ''error'')"
    "strip (if ?e = [] then ''ready'' else ''error'') = (if ?e = [] then ''ready'' else ''error'')" by simp_all
  from write_outcome [OF assms words(1,3,2,4), of "tn_meta n" "tn_started_at n" ?now ?now "pg_final p" ?e "turn_metrics p" ?now ?e]
  obtain m1 m2 where w:
    "on_db (upsert_runtime_session_turn (te_store T 10) (turn_record (tn_turn_id n) (tn_request_id n) (if ?e = [] then ''completed'' else ''error'')
       a (tn_meta n) (tn_started_at n) ?now ?now [(''final_payload'', PDict (pg_final p)), (''error_text'', PStr ?e)] (turn_metrics p))) m = (Inr (), m1)"
    "on_db (upsert_runtime_session (te_store T 11) (session_after (session_item row) (if ?e = [] then ''ready'' else ''error'') ?now ?e)) m1 = (Inr (), m2)"
    "turn_left (tn_turn_id n) (if ?e = [] then ''completed'' else ''error'') (Some (pg_final p)) (strip (sa_session_id (ta_session a)))
       (if ?e = [] then ''ready'' else ''error'') m2" "mg_active_turns m2 = mg_active_turns m" by blast
  have "finish_turn T a n (session_item row) p m = (Inr (), if ?e = [] then m2 else record_error (error_code ?e) m2)"
    unfolding finish_turn_def Let_def w(1) prod.case sum.case w(2) by simp
  with w(3,4) show ?thesis by auto
qed

lemma fail_turn_open:
  assumes "named_turn n a m" and "store_open (te_store T 12)" and "store_open (te_store T 13)"
    and "strip (rs_session_id row) = strip (sa_session_id (ta_session a))"
  shows "\<exists>m'. fail_turn T a n (session_item row) p e m = (e, m')
    \<and> turn_left (tn_turn_id n) ''error'' (Some (pg_final p)) (strip (sa_session_id (ta_session a))) ''error'' m'
    \<and> mg_active_turns m' = mg_active_turns m"
proof -
  let ?e = "sor (strip (exc_text e)) ''turn_failed''" and ?now = "local_now_iso (te_store T 12)"
  from write_outcome [OF assms, of "''error''" "''error''" "tn_meta n" "tn_started_at n" ?now ?now "pg_final p" ?e "turn_metrics p" ?now ?e]
  obtain m1 m2 where w:
    "on_db (upsert_runtime_session_turn (te_store T 12) (turn_record (tn_turn_id n) (tn_request_id n) ''error''
       a (tn_meta n) (tn_started_at n) ?now ?now [(''final_payload'', PDict (pg_final p)), (''error_text'', PStr ?e)] (turn_metrics p))) m = (Inr (), m1)"
    "on_db (upsert_runtime_session (te_store T 13) (session_after (session_item row) ''error'' ?now ?e)) m1 = (Inr (), m2)"
    "turn_left (tn_turn_id n) ''error'' (Some (pg_final p)) (strip (sa_session_id (ta_session a))) ''error'' m2"
    "mg_active_turns m2 = mg_active_turns m" by auto
  have "fail_turn T a n (session_item row) p e m = (e, record_error (error_code ?e) m2)"
    unfolding fail_turn_def Let_def w(1) prod.case sum.case w(2) by simp
  with w(3,4) show ?thesis by auto
qed

text \<open>How a turn that was started ends, by the way its loop ends.\<close>

fun left_by :: "loop_end \<Rightarrow> progress \<Rightarrow> string \<times> pydict option \<times> string" where
  "left_by Completed p = (let d = pg_final (closed_progress p) in
     if tok (dget d ''error'') = [] then (''completed'', Some d, ''ready'') else (''error'', Some d, ''error''))"
| "left_by (Broken e) p = (''error'', Some (pg_final p), ''error'')"
| "left_by Abandoned p = (''running'', None, ''active'')"

fun result_of :: "loop_end \<Rightarrow> unit res" where
  "result_of (Broken e) = Inl e"
| "result_of _ = Inr ()"

definition left_as :: "string \<Rightarrow> string \<times> pydict option \<times> string \<Rightarrow> string \<Rightarrow> manager \<Rightarrow> bool" where
  "left_as i how sid m = (case how of (st, d, st') \<Rightarrow> turn_left i st d sid st' m)"

definition calls_open :: "turn_env \<Rightarrow> bool" where
  "calls_open T = (\<forall>k. store_open (te_store T k))"

lemma leave_turn_fields [simp]:
  "mg_db (leave_turn T i h m) = mg_db m" "mg_active_turns (leave_turn T i h m) = max 0 (mg_active_turns m - 1)"
  by (simp_all add: leave_turn_def add_active_turn_delta_def)

lemma run_executor_open:
  assumes "named_turn n a m" and "calls_open T" and "strip (rs_session_id row) = strip (sa_session_id (ta_session a))"
    and "turn_left (tn_turn_id n) ''running'' None (strip (sa_session_id (ta_session a))) ''active'' m"
    and run: "run = te_executor T a actor handle (tn_meta n)"
    and loop: "turn_loop T (xr_failure run) (xr_events run) no_progress = (p, ending)"
  shows "\<exists>m'. run_executor T a n actor (session_item row) handle m = ((pg_yielded p, result_of ending), m')
    \<and> left_as (tn_turn_id n) (left_by ending p) (strip (sa_session_id (ta_session a))) m'
    \<and> mg_active_turns m' = max 0 (mg_active_turns m - 1)"
proof -
  note open_calls = assms(2) [unfolded calls_open_def, rule_format]
  have same: "left_as i how sid (leave_turn T actor h m') = left_as i how sid m'" for i how sid h m'
    by (simp add: left_as_def turn_left_def split: prod.splits)
  show ?thesis
  proof (cases ending)
    case Completed
    obtain m' where "finish_turn T a n (session_item row) (closed_progress p) m = (Inr (), m')"
      "left_as (tn_turn_id n) (left_by Completed p) (strip (sa_session_id (ta_session a))) m'" "mg_active_turns m' = mg_active_turns m"
      using finish_turn_open [OF assms(1) open_calls open_calls assms(3), of "closed_progress p"]
      by (auto simp: left_as_def Let_def split: if_splits)
    with Completed show ?thesis
      unfolding run_executor_def Let_def run [symmetric] loop by (simp add: same)
  next
    case (Broken e)
    obtain m' where "fail_turn T a n (session_item row) p e m = (e, m')"
      "left_as (tn_turn_id n) (left_by (Broken e) p) (strip (sa_session_id (ta_session a))) m'" "mg_active_turns m' = mg_active_turns m"
      using fail_turn_open [OF assms(1) open_calls open_calls assms(3), of p e] by (auto simp: left_as_def)
    with Broken show ?thesis
      unfolding run_executor_def Let_def run [symmetric] loop by (simp add: same)
  next
    case Abandoned
    with assms(4) show ?thesis
      unfolding run_executor_def Let_def run [symmetric] loop by (simp add: left_as_def turn_left_def)
  qed
qed

definition starts_fresh :: "turn_env \<Rightarrow> string \<Rightarrow> session_db \<Rightarrow> bool" where
  "starts_fresh T i s \<longleftrightarrow> (\<forall>r. turn_of i s = Some r \<longrightarrow> \<not> replayable r)"

lemma no_replay: "store_ok L \<Longrightarrow> strip i = i \<Longrightarrow> i \<noteq> [] \<Longrightarrow> starts_fresh T i s \<Longrightarrow> completed_turn_replay_event L i s = Inr None"
  by (cases "turn_of i s") (auto simp: completed_turn_replay_event_def get_turn starts_fresh_def replayable_def split: option.splits
      elim: opt_dict.elims)

text \<open>The turn up to the write that marks it running, which \<open>m3\<close> and the store of call 9 decide.\<close>

lemma claimed_turn_start:
  assumes "\<And>k. k < 9 \<Longrightarrow> store_open (te_store T k)"
    and n: "strip (tn_turn_id n) = tn_turn_id n" "tn_turn_id n \<noteq> []" "strip (sa_session_id (ta_session a)) \<noteq> []"
    and "starts_fresh T (tn_turn_id n) (mg_db m)" and "0 \<le> mg_active_turns m"
  shows "\<exists>row handle m3. claimed_turn C T a n actor m =
      (case on_db (upsert_runtime_session_turn (te_store T 9) (turn_record (tn_turn_id n) (tn_request_id n) ''running''
          a (tn_meta n) (tn_started_at n) (tn_started_at n) [] [] [])) m3 of
         (Inl e, m4) \<Rightarrow> (([], Inl e), m4)
       | (Inr _, m4) \<Rightarrow> run_executor T a n actor (session_item row) handle m4)
    \<and> session_of (strip (sa_session_id (ta_session a))) (mg_db m3) = Some row \<and> rs_status row = ''active''
    \<and> rs_session_id row = strip (sa_session_id (ta_session a)) \<and> turns (mg_db m3) = turns (mg_db m)
    \<and> mg_active_turns m3 = mg_active_turns m + 1"
proof -
  let ?sid = "strip (sa_session_id (ta_session a))" and ?a = "(ta_session a)\<lparr>sa_actor_key := actor\<rparr>"
  let ?o1 = "Some (dict_of (dget (tn_meta n) ''runtime_options''))"
  have open6: "store_open (te_store T (6 + k))" if "k < 3" for k using that by (intro assms(1)) simp
  obtain row m1 where e: "ensure_session C (\<lambda>k. te_store T (6 + k)) ?a ?o1 (Some (tn_meta n)) ''active'' m = (Inr (session_item row), m1)"
    "mg_db m1 = (mg_db m)\<lparr>sessions := put_row rs_session_id row (sessions (mg_db m))\<rparr>" "rs_session_id row = ?sid"
    "rs_status row = ''active''" "mg_active_turns m1 = mg_active_turns m"
    using ensure_session_open [of "\<lambda>k. te_store T (6 + k)" ?a "''active''" C ?o1 "Some (tn_meta n)" m, OF open6] n(3) by auto
  define handle m2 where hm: "handle = fst (ensure_runtime_handle C (le_clock (te_store T 8)) (session_item row) m1)"
    "m2 = snd (ensure_runtime_handle C (le_clock (te_store T 8)) (session_item row) m1)"
  have got: "ensure_runtime_handle C (le_clock (te_store T 8)) (session_item row) m1 = (handle, m2)" by (simp add: hm)
  define m3 where "m3 = add_active_turn_delta 1 m2"
  have db3: "mg_db m3 = mg_db m1" by (simp add: m3_def add_active_turn_delta_def hm)
  have act3: "mg_active_turns m3 = mg_active_turns m + 1" using assms(6) by (simp add: m3_def add_active_turn_delta_def hm e(5))
  have row3: "session_of ?sid (mg_db m3) = Some row" "turns (mg_db m3) = turns (mg_db m)" by (simp_all add: db3 e(2,3) session_of_def)
  have "claimed_turn C T a n actor m =
      (case on_db (upsert_runtime_session_turn (te_store T 9) (turn_record (tn_turn_id n) (tn_request_id n) ''running''
          a (tn_meta n) (tn_started_at n) (tn_started_at n) [] [] [])) m3 of
         (Inl e, m4) \<Rightarrow> (([], Inl e), m4)
       | (Inr _, m4) \<Rightarrow> run_executor T a n actor (session_item row) handle m4)"
    unfolding claimed_turn_def Let_def no_replay [OF store_open_ok [OF assms(1) [of 5, simplified]] n(1,2) assms(5)] sum.case option.case
      e(1) prod.case got m3_def [symmetric] by (rule refl)
  with row3 e(3,4) act3 show ?thesis by auto
qed

lemma claimed_turn_open:
  assumes "calls_open T" and n: "strip (tn_turn_id n) = tn_turn_id n" "tn_turn_id n \<noteq> []" "strip (tn_request_id n) \<noteq> []"
      "strip (sa_session_id (ta_session a)) \<noteq> []"
    and "starts_fresh T (tn_turn_id n) (mg_db m)" and "0 \<le> mg_active_turns m"
  shows "\<exists>handle p ending m'. turn_loop T (xr_failure (te_executor T a actor handle (tn_meta n)))
        (xr_events (te_executor T a actor handle (tn_meta n))) no_progress = (p, ending)
    \<and> claimed_turn C T a n actor m = ((pg_yielded p, result_of ending), m')
    \<and> left_as (tn_turn_id n) (left_by ending p) (strip (sa_session_id (ta_session a))) m' \<and> mg_active_turns m' = mg_active_turns m"
proof -
  note open_calls = assms(1) [unfolded calls_open_def, rule_format]
  let ?sid = "strip (sa_session_id (ta_session a))"
  define rec where "rec = turn_record (tn_turn_id n) (tn_request_id n) ''running'' a (tn_meta n) (tn_started_at n) (tn_started_at n) [] [] []"
  from claimed_turn_start [OF open_calls n(1,2,4) assms(6,7), of C actor, folded rec_def]
  obtain row handle m3 where start: "claimed_turn C T a n actor m = (case on_db (upsert_runtime_session_turn (te_store T 9) rec) m3 of
      (Inl e, m4) \<Rightarrow> (([], Inl e), m4) | (Inr _, m4) \<Rightarrow> run_executor T a n actor (session_item row) handle m4)"
    and row: "session_of ?sid (mg_db m3) = Some row" "rs_status row = ''active''" "rs_session_id row = ?sid"
    and act: "mg_active_turns m3 = mg_active_turns m + 1" by blast
  define m4 where "m4 = m3\<lparr>mg_db := (mg_db m3)\<lparr>turns := put_row rt_turn_id (turn_values (te_store T 9) rec) (turns (mg_db m3))\<rparr>\<rparr>"
  have up: "on_db (upsert_runtime_session_turn (te_store T 9) rec) m3 = (Inr (), m4)"
    using upsert_turn_open [OF open_calls [of 9], of rec "mg_db m3"] n row(1)
    by (simp add: on_db_def m4_def rec_def turn_record_fields session_of_def)
  have fin: "final_payload_column (te_store T 9) rec = None" by (simp add: final_payload_column_def rec_def turn_record_def)
  have ids: "tok (dget rec ''turn_id'') = tn_turn_id n" "dget rec ''status'' = PStr ''running''"
    "tok (dget rec ''session_id'') = ?sid"
    using n(1) by (simp_all add: rec_def turn_record_fields)
  have left4: "turn_left (tn_turn_id n) ''running'' None ?sid ''active'' m4"
    using row(1,2) unfolding turn_left_def m4_def turn_of_def session_of_def by (simp add: fin ids)
  have named: "named_turn n a m4" using n row(1) by (simp add: named_turn_def m4_def session_of_def)
  obtain p ending where loop: "turn_loop T (xr_failure (te_executor T a actor handle (tn_meta n)))
      (xr_events (te_executor T a actor handle (tn_meta n))) no_progress = (p, ending)" by (metis surj_pair)
  from run_executor_open [OF named assms(1) _ left4 refl loop, of row] row(3)
  obtain m' where m': "run_executor T a n actor (session_item row) handle m4 = ((pg_yielded p, result_of ending), m')"
    "left_as (tn_turn_id n) (left_by ending p) ?sid m'" "mg_active_turns m' = max 0 (mg_active_turns m4 - 1)" by auto
  have "claimed_turn C T a n actor m = ((pg_yielded p, result_of ending), m')"
    unfolding start up prod.case sum.case by (rule m'(1))
  moreover have "mg_active_turns m' = mg_active_turns m" using m'(3) act assms(7) by (simp add: m4_def)
  ultimately show ?thesis using loop m'(2) by blast
qed

definition fresh_turn :: "turn_env \<Rightarrow> turn_args \<Rightarrow> pydict \<Rightarrow> manager \<Rightarrow> bool" where
  "fresh_turn T a meta m \<longleftrightarrow> request_meta T a (mg_db m) = Inr meta
     \<and> strip (turn_id_of T meta) = turn_id_of T meta \<and> turn_id_of T meta \<noteq> [] \<and> request_id_of T meta \<noteq> []
     \<and> strip (sa_session_id (ta_session a)) \<noteq> [] \<and> starts_fresh T (turn_id_of T meta) (mg_db m) \<and> 0 \<le> mg_active_turns m"

lemma iter_turn_start:
  assumes "\<And>k. k < 5 \<Longrightarrow> store_open (te_store T k)" and "fresh_turn T a meta m"
  shows "\<exists>actor n m1. iter_turn_events C T a m = claimed_turn C T a n actor m1
    \<and> tn_turn_id n = turn_id_of T meta \<and> tn_request_id n = request_id_of T meta \<and> tn_meta n = meta
    \<and> strip (tn_request_id n) \<noteq> [] \<and> starts_fresh T (turn_id_of T meta) (mg_db m1)
    \<and> turns (mg_db m1) = turns (mg_db m) \<and> mg_active_turns m1 = mg_active_turns m"
proof -
  let ?i = "turn_id_of T meta" and ?sid = "strip (sa_session_id (ta_session a))"
  have f: "request_meta T a (mg_db m) = Inr meta" "strip ?i = ?i" "?i \<noteq> []" "request_id_of T meta \<noteq> []" "?sid \<noteq> []"
    "starts_fresh T ?i (mg_db m)" using assms(2) by (simp_all add: fresh_turn_def)
  let ?o1 = "Some (dict_of (dget meta ''runtime_options''))"
  have open1: "store_open (te_store T 1)" by (intro assms(1)) simp
  have open2: "store_open (te_store T (2 + k))" if "k < 3" for k using that by (intro assms(1)) simp
  obtain row m1 where e: "ensure_session C (\<lambda>k. te_store T (2 + k)) (ta_session a) ?o1 (Some meta) ''ready'' m = (Inr (session_item row), m1)"
    "mg_db m1 = (mg_db m)\<lparr>sessions := put_row rs_session_id row (sessions (mg_db m))\<rparr>" "mg_active_turns m1 = mg_active_turns m"
    using ensure_session_open [of "\<lambda>k. te_store T (2 + k)" "ta_session a" "''ready''" C ?o1 "Some meta" m, OF open2] f(5) by auto
  define n where "n = \<lparr>tn_turn_id = ?i, tn_request_id = request_id_of T meta, tn_meta = meta, tn_started_at = local_now_iso (te_store T 2)\<rparr>"
  define actor where "actor = actor_token_of (ta_session a) (session_item row)"
  have "iter_turn_events C T a m = claimed_turn C T a n actor m1"
    unfolding iter_turn_events_def Let_def f(1) sum.case no_replay [OF store_open_ok [OF open1] f(2,3,6)] option.case
      e(1) prod.case n_def [symmetric] actor_def [symmetric] by (rule refl)
  moreover have "tn_turn_id n = ?i" "tn_request_id n = request_id_of T meta" "tn_meta n = meta" "strip (tn_request_id n) \<noteq> []"
    "starts_fresh T ?i (mg_db m1)" "turns (mg_db m1) = turns (mg_db m)"
    using f e(2) by (simp_all add: n_def request_id_of_def starts_fresh_def turn_of_def)
  ultimately show ?thesis using e(3) by blast
qed

lemma iter_turn_open:
  assumes "calls_open T" and "fresh_turn T a meta m"
  shows "\<exists>actor handle p ending m'. turn_loop T (xr_failure (te_executor T a actor handle meta))
        (xr_events (te_executor T a actor handle meta)) no_progress = (p, ending)
    \<and> iter_turn_events C T a m = ((pg_yielded p, result_of ending), m')
    \<and> left_as (turn_id_of T meta) (left_by ending p) (strip (sa_session_id (ta_session a))) m' \<and> mg_active_turns m' = mg_active_turns m"
proof -
  have f: "strip (turn_id_of T meta) = turn_id_of T meta" "turn_id_of T meta \<noteq> []" "strip (sa_session_id (ta_session a)) \<noteq> []"
    "0 \<le> mg_active_turns m" using assms(2) by (simp_all add: fresh_turn_def)
  from iter_turn_start [OF assms(1) [unfolded calls_open_def, rule_format] assms(2)]
  obtain actor n m1 where n: "iter_turn_events C T a m = claimed_turn C T a n actor m1" "tn_turn_id n = turn_id_of T meta" "tn_meta n = meta"
    "strip (tn_request_id n) \<noteq> []" "starts_fresh T (turn_id_of T meta) (mg_db m1)" "mg_active_turns m1 = mg_active_turns m" by metis
  from claimed_turn_open [OF assms(1), of n a m1 actor C] f n obtain handle p ending m' where
    "turn_loop T (xr_failure (te_executor T a actor handle meta)) (xr_events (te_executor T a actor handle meta)) no_progress = (p, ending)"
    "claimed_turn C T a n actor m1 = ((pg_yielded p, result_of ending), m')"
    "left_as (turn_id_of T meta) (left_by ending p) (strip (sa_session_id (ta_session a))) m'" "mg_active_turns m' = mg_active_turns m"
    by auto
  with n(1) show ?thesis by (metis (no_types))
qed

text \<open>
  C19. A turn of a fresh turn id in a store that answers ends as its executor's events say: what the caller
  is given is what the loop over the events yields, the turn's row and the session's row hold the outcome
  (completed with the final payload, failed with the payload so far, or still running when the consumer
  stopped), and the count of active turns is back where it was.
\<close>

theorem turn_outcome:
  assumes "calls_open T" and "fresh_turn T a meta m"
  shows "\<exists>actor handle p ending m'. turn_loop T (xr_failure (te_executor T a actor handle meta))
        (xr_events (te_executor T a actor handle meta)) no_progress = (p, ending)
    \<and> iter_turn_events C T a m = ((pg_yielded p, result_of ending), m')
    \<and> left_as (turn_id_of T meta) (left_by ending p) (strip (sa_session_id (ta_session a))) m' \<and> mg_active_turns m' = mg_active_turns m"
  by (rule iter_turn_open [OF assms])

subsection \<open>A turn runs once\<close>

text \<open>The payload of the last final event.\<close>

definition final_payload_of :: "pydict \<Rightarrow> pydict option" where
  "final_payload_of ev = (case dget ev ''payload'' of PDict d \<Rightarrow> if event_type ev = ''final'' then Some d else None | _ \<Rightarrow> None)"

fun last_final :: "pydict list \<Rightarrow> pydict \<Rightarrow> pydict" where
  "last_final [] d = d"
| "last_final (ev # evs) d = last_final evs (case final_payload_of ev of None \<Rightarrow> d | Some x \<Rightarrow> x)"

lemma count_event_fields:
  "pg_yielded (count_event ev p) = pg_yielded p"
  "pg_final (count_event ev p) = (case final_payload_of ev of None \<Rightarrow> pg_final p | Some d \<Rightarrow> d)"
  "pg_final_seen (count_event ev p) = (pg_final_seen p \<or> final_payload_of ev \<noteq> None)"
  by (simp_all add: count_event_def final_payload_of_def Let_def split: pyval.split)

lemma turn_loop_facts:
  "turn_loop T f xs p = (q, e) \<Longrightarrow> \<exists>ys. pg_yielded q = pg_yielded p @ ys \<and> pg_final q = last_final ys (pg_final p)
     \<and> (pg_final_seen q \<longleftrightarrow> pg_final_seen p \<or> (\<exists>ev \<in> set ys. final_payload_of ev \<noteq> None))"
proof (induction xs arbitrary: p)
  case (Cons x xs)
  define ev where "ev = dict_of x"
  define r where "r = (count_event ev p)\<lparr>pg_yielded := pg_yielded (count_event ev p) @ [ev]\<rparr>"
  show ?case
  proof (cases "te_sink T ev")
    case (Some e')
    with Cons.prems show ?thesis by (auto simp: ev_def intro: exI [of _ "[]"])
  next
    case None
    have step: "turn_loop T f (x # xs) p = (if te_stop T (pg_yielded r) then (r, Abandoned) else turn_loop T f xs r)"
      unfolding turn_loop.simps Let_def ev_def [symmetric] None option.case r_def [symmetric] by (rule refl)
    show ?thesis
    proof (cases "te_stop T (pg_yielded r)")
      case True
      with Cons.prems have "q = r" unfolding step by simp
      then show ?thesis by (intro exI [of _ "[ev]"]) (auto simp: r_def count_event_fields)
    next
      case False
      from Cons.prems have "turn_loop T f xs r = (q, e)" unfolding step if_not_P [OF False] .
      from Cons.IH [OF this] obtain ys where ys: "pg_yielded q = pg_yielded r @ ys" "pg_final q = last_final ys (pg_final r)"
        "pg_final_seen q \<longleftrightarrow> pg_final_seen r \<or> (\<exists>ev \<in> set ys. final_payload_of ev \<noteq> None)" by blast
      then show ?thesis by (intro exI [of _ "ev # ys"]) (simp add: r_def count_event_fields disj_ac)
    qed
  qed
qed (auto intro: exI [of _ "[]"])

lemma gather_final: "fst (gather_reply evs d reply) = last_final evs d"
  by (induction evs arbitrary: d reply) (auto simp: final_payload_of_def split: pyval.split)

lemma last_final_seen: "(\<forall>ev \<in> set evs. final_payload_of ev = None) \<Longrightarrow> last_final evs d = d"
  by (induction evs arbitrary: d) auto

lemma turn_loop_all:
  assumes "te_stop T = (\<lambda>_. False)" and "te_sink T = (\<lambda>_. None)" and "turn_loop T f xs p = (q, e)"
  shows "pg_yielded q = pg_yielded p @ map dict_of xs \<and> e = (case f of None \<Rightarrow> Completed | Some x \<Rightarrow> Broken x)"
  using assms(3) by (induction xs arbitrary: p) (auto simp: assms(1,2) Let_def count_event_fields)

lemma turn_loop_final:
  assumes "te_stop T = (\<lambda>_. False)" and "te_sink T = (\<lambda>_. None)" and "turn_loop T f xs no_progress = (q, e)"
  shows "pg_final q = last_final (map dict_of xs) []"
    and "pg_final_seen q \<longleftrightarrow> (\<exists>x \<in> set xs. final_payload_of (dict_of x) \<noteq> None)"
proof -
  from turn_loop_facts [OF assms(3)] obtain ys where "pg_yielded q = ys" "pg_final q = last_final ys []"
    "pg_final_seen q \<longleftrightarrow> (\<exists>ev \<in> set ys. final_payload_of ev \<noteq> None)" by (auto simp: no_progress_def)
  with turn_loop_all [OF assms] show "pg_final q = last_final (map dict_of xs) []"
    "pg_final_seen q \<longleftrightarrow> (\<exists>x \<in> set xs. final_payload_of (dict_of x) \<noteq> None)" by (auto simp: no_progress_def)
qed

lemma taking_all_turn [simp]:
  "calls_open (taking_all T) = calls_open T" "request_id_of (taking_all T) meta = request_id_of T meta"
  "turn_id_of (taking_all T) meta = turn_id_of T meta" "request_meta (taking_all T) a db = request_meta T a db"
  by (simp_all only: calls_open_def turn_id_of_def request_id_of_def request_meta_def taking_all_simps)

lemma taking_all_fresh [simp]: "fresh_turn (taking_all T) a meta m = fresh_turn T a meta m"
  by (simp add: fresh_turn_def starts_fresh_def)

text \<open>What the caller of \<open>run_turn\<close> is given for the events of an executor that does not fail, and what is stored.\<close>

definition reply_of :: "pydict list \<Rightarrow> pydict" where
  "reply_of evs = (case gather_reply evs [] [] of (final, reply) \<Rightarrow>
     if final = [] \<and> reply \<noteq> [] then [(''reply'', PStr reply)] else final)"

definition stored_of :: "pydict list \<Rightarrow> pydict" where
  "stored_of evs = (if \<forall>ev \<in> set evs. final_payload_of ev = None then [(''reply'', PStr [])] else last_final evs [])"

definition turn_ran :: "turn_env \<Rightarrow> turn_args \<Rightarrow> pydict \<Rightarrow> executor_run \<Rightarrow> pydict res \<Rightarrow> manager \<Rightarrow> bool" where
  "turn_ran T a meta run r m' =
     (let evs = map dict_of (xr_events run);
          leaves = (\<lambda>st d st'. turn_left (turn_id_of T meta) st (Some d) (strip (sa_session_id (ta_session a))) st' m')
      in case xr_failure run of
           Some e \<Rightarrow> r = Inl e \<and> leaves ''error'' (last_final evs []) ''error''
         | None \<Rightarrow> r = Inr (reply_of evs) \<and> (if tok (dget (stored_of evs) ''error'') = [] then leaves ''completed'' (stored_of evs) ''ready''
             else leaves ''error'' (stored_of evs) ''error''))"

lemma run_turn_open:
  assumes "calls_open T" and "fresh_turn T a meta m" and "takes_quietly T"
  shows "\<exists>actor handle r m'. run_turn C T a m = (r, m') \<and> turn_ran T a meta (te_executor T a actor handle meta) r m'
    \<and> mg_active_turns m' = mg_active_turns m"
proof -
  from iter_turn_open [of "taking_all T" a meta m C] assms obtain actor handle p ending m' where it:
    "turn_loop (taking_all T) (xr_failure (te_executor T a actor handle meta)) (xr_events (te_executor T a actor handle meta)) no_progress
      = (p, ending)"
    "iter_turn_events C (taking_all T) a m = ((pg_yielded p, result_of ending), m')"
    "left_as (turn_id_of T meta) (left_by ending p) (strip (sa_session_id (ta_session a))) m'" "mg_active_turns m' = mg_active_turns m"
    by auto
  define run where "run = te_executor T a actor handle meta"
  have all: "pg_yielded p = map dict_of (xr_events run)" "ending = (case xr_failure run of None \<Rightarrow> Completed | Some x \<Rightarrow> Broken x)"
    using turn_loop_all [OF _ _ it(1)] assms(3) by (auto simp: run_def no_progress_def)
  have final: "pg_final p = last_final (map dict_of (xr_events run)) []"
    "pg_final_seen p \<longleftrightarrow> (\<exists>x \<in> set (xr_events run). final_payload_of (dict_of x) \<noteq> None)"
    using turn_loop_final [OF _ _ it(1)] assms(3) by (simp_all add: run_def)
  have stored: "pg_final (closed_progress p) = stored_of (map dict_of (xr_events run))"
    using final last_final_seen [of "map dict_of (xr_events run)" "[]"]
    by (auto simp: closed_progress_def stored_of_def)
  have "\<exists>r. run_turn C T a m = (r, m') \<and> turn_ran T a meta run r m'"
  proof (cases "xr_failure run")
    case None
    with all have "run_turn C T a m = (Inr (reply_of (map dict_of (xr_events run))), m')"
      unfolding run_turn_def it(2) reply_of_def using assms(3) by (simp split: prod.splits)
    with None it(3) all(2) show ?thesis
      by (auto simp: turn_ran_def left_as_def stored Let_def split: if_splits)
  next
    case (Some e)
    with all have "run_turn C T a m = (Inl e, m')"
      unfolding run_turn_def it(2) using assms(3) by simp
    with Some it(3) all(2) show ?thesis by (auto simp: turn_ran_def left_as_def final Let_def)
  qed
  with it(4) show ?thesis unfolding run_def by blast
qed

lemma ran_answered:
  assumes "turn_ran T a meta run (Inr d) m'" and "last_final (map dict_of (xr_events run)) [] \<noteq> []" and "tok (dget d ''error'') = []"
  shows "\<exists>r. turn_of (turn_id_of T meta) (mg_db m') = Some r \<and> replayable r \<and> rt_final_payload r = Some d
    \<and> rt_session_id r = strip (sa_session_id (ta_session a))"
proof -
  let ?evs = "map dict_of (xr_events run)"
  have none: "xr_failure run = None" and reply: "d = reply_of ?evs" using assms(1) by (auto simp: turn_ran_def Let_def split: option.splits)
  have "reply_of ?evs = last_final ?evs []" using assms(2) gather_final [of ?evs "[]" "[]"] by (auto simp: reply_of_def split: prod.splits)
  moreover have "stored_of ?evs = last_final ?evs []" using assms(2) last_final_seen [of ?evs "[]"] by (auto simp: stored_of_def)
  ultimately have d: "stored_of ?evs = d" "d \<noteq> []" using reply assms(2) by simp_all
  with assms(1,3) none show ?thesis by (auto simp: turn_ran_def Let_def turn_left_def replayable_def)
qed

lemma gather_nonempty: "snd (gather_reply evs d reply) = reply @ snd (gather_reply evs d [])"
proof (induction evs arbitrary: d reply)
  case (Cons ev evs)
  have step: "snd (gather_reply evs x (reply @ y)) = reply @ snd (gather_reply evs x y)" for x y
    using Cons [of x "reply @ y"] Cons [of x y] by simp
  show ?case using step [of _ "[]"] by (auto simp: step split: pyval.split)
qed simp

text \<open>
  A turn whose executor yields no final event answers with the text of its chunks, but is stored with an
  empty reply, so that a repetition of the request is answered with the empty text.
\<close>

theorem chunk_only_turn_replays_empty:
  assumes "calls_open T" and "fresh_turn T a meta m" and "takes_quietly T"
    and "\<And>actor handle. xr_events (te_executor T a actor handle meta) = evs"
    and "\<And>x. x \<in> set evs \<Longrightarrow> final_payload_of (dict_of x) = None"
    and "run_turn C T a m = (Inr d, m')"
    and "store_ok (te_store T' 1)" and "request_meta T' a' (mg_db m') = Inr meta'" and "turn_id_of T' meta' = turn_id_of T meta" and "takes_quietly T'"
  shows "d = reply_of (map dict_of evs) \<and> run_turn C' T' a' m' = (Inr [(''reply'', PStr [])], m')"
proof -
  have i: "strip (turn_id_of T meta) = turn_id_of T meta" "turn_id_of T meta \<noteq> []" using assms(2) by (simp_all add: fresh_turn_def)
  from run_turn_open [OF assms(1,2,3), of C] assms(6) obtain actor handle
    where ran: "turn_ran T a meta (te_executor T a actor handle meta) (Inr d) m'" by auto
  have stored: "stored_of (map dict_of evs) = [(''reply'', PStr [])]" using assms(5) by (simp add: stored_of_def)
  from ran have d: "d = reply_of (map dict_of evs)" and
    left: "turn_left (turn_id_of T meta) ''completed'' (Some [(''reply'', PStr [])]) (strip (sa_session_id (ta_session a))) ''ready'' m'"
    by (auto simp: turn_ran_def Let_def assms(4) stored split: option.splits)
  from left obtain r where r: "turn_of (turn_id_of T meta) (mg_db m') = Some r" "replayable r" "rt_final_payload r = Some [(''reply'', PStr [])]"
    by (auto simp: turn_left_def replayable_def)
  from replayed_turn [OF assms(8,7), unfolded assms(9), OF i r(1,2) assms(10), of C'] r(3) d show ?thesis by simp
qed

subsection \<open>What the manager leaves behind\<close>

lemma refused_turn_write:
  assumes "\<And>r. enforce_local_store_decision L r = Inl e" and "tok (dget item ''turn_id'') \<noteq> []" "tok (dget item ''session_id'') \<noteq> []"
    "tok (dget item ''request_id'') \<noteq> []"
  shows "upsert_runtime_session_turn L item s = (Inl e, s)"
  using assms by (simp add: upsert_runtime_session_turn_def Let_def)

text \<open>
  When the store refuses the row that marks a turn as running, the turn is over but stays counted as
  active: the count was raised before the write, which is outside the \<open>try\<close> that lowers it again.
\<close>

theorem refused_start_leaves_turn_active:
  assumes "\<And>k. k < 9 \<Longrightarrow> store_open (te_store T k)" and "\<And>r. enforce_local_store_decision (te_store T 9) r = Inl e"
    and "fresh_turn T a meta m"
  shows "\<exists>m'. iter_turn_events C T a m = (([], Inl e), m') \<and> mg_active_turns m' = mg_active_turns m + 1
    \<and> turns (mg_db m') = turns (mg_db m)"
proof -
  have f: "strip (turn_id_of T meta) = turn_id_of T meta" "turn_id_of T meta \<noteq> []" "strip (sa_session_id (ta_session a)) \<noteq> []"
    "0 \<le> mg_active_turns m" using assms(3) by (simp_all add: fresh_turn_def)
  have "store_open (te_store T k)" if "k < 5" for k using that by (intro assms(1)) simp
  from iter_turn_start [OF this assms(3)]
  obtain actor n m1 where n: "iter_turn_events C T a m = claimed_turn C T a n actor m1" "tn_turn_id n = turn_id_of T meta" "tn_meta n = meta"
    "strip (tn_request_id n) \<noteq> []" "starts_fresh T (turn_id_of T meta) (mg_db m1)" "turns (mg_db m1) = turns (mg_db m)"
    "mg_active_turns m1 = mg_active_turns m" by metis
  let ?rec = "turn_record (tn_turn_id n) (tn_request_id n) ''running'' a (tn_meta n) (tn_started_at n) (tn_started_at n) [] [] []"
  from claimed_turn_start [OF assms(1), of n a m1 C actor] f n(2,5,7)
  obtain row handle m3 where start: "claimed_turn C T a n actor m1 = (case on_db (upsert_runtime_session_turn (te_store T 9) ?rec) m3 of
      (Inl e, m4) \<Rightarrow> (([], Inl e), m4) | (Inr _, m4) \<Rightarrow> run_executor T a n actor (session_item row) handle m4)"
    and m3: "turns (mg_db m3) = turns (mg_db m1)" "mg_active_turns m3 = mg_active_turns m1 + 1" by auto
  have "upsert_runtime_session_turn (te_store T 9) ?rec (mg_db m3) = (Inl e, mg_db m3)"
    using f(1,2,3) n(2,4) by (intro refused_turn_write assms(2)) (simp_all add: turn_record_fields)
  then have "on_db (upsert_runtime_session_turn (te_store T 9) ?rec) m3 = (Inl e, m3)" by (simp add: on_db_def)
  then have "iter_turn_events C T a m = (([], Inl e), m3)" unfolding n(1) start by simp
  with m3 n(6,7) show ?thesis by simp
qed

text \<open>\<open>export_trace\<close> raises for every session that exists.\<close>

theorem export_trace_raises:
  assumes "store_ok (L 0)" and "store_ok (L 1)" and "strip i = i" and "i \<noteq> []" and "session_of i (mg_db m) = Some row"
  shows "export_trace L i m = Inl (AttributeError ''EmpyralisSessionManager has no attribute _error_count'')"
proof -
  have "get_runtime_session (L 0) i (mg_db m) = Inr (Some (session_item row))"
    using assms by (simp add: get_runtime_session_def session_of_def Let_def)
  moreover have "int_entry_or (session_item row) ''reset_count'' 0 = Inr 0"
    "int_entry_or (session_item row) ''turn_count'' n = Inr n" for n
    by (simp_all add: int_entry_or_def session_item_def)
  ultimately show ?thesis
    using assms(2) by (simp add: export_trace_def list_runtime_session_turns_def Let_def)
qed

subsection \<open>Idle handles\<close>

text \<open>The keys of a cache are distinct tokens; every operation of it keeps that.\<close>

definition cache_wf :: "runtime_cache \<Rightarrow> bool" where
  "cache_wf c \<longleftrightarrow> distinct (map fst c) \<and> (\<forall>k \<in> fst ` set c. cache_token k = k)"

lemma cache_token_idem [simp]: "cache_token (cache_token k) = cache_token k"
  by (simp add: cache_token_def)

lemma cache_put_wf: "cache_wf c \<Longrightarrow> cache_wf (AList.update (cache_token k) v c)"
  by (auto simp: cache_wf_def distinct_update dom_update)

lemma cache_set_wf: "cache_wf c \<Longrightarrow> cache_wf (cache_set k h t c)"
  by (simp add: cache_set_def cache_put_wf)

lemma cache_clear_wf: "cache_wf c \<Longrightarrow> cache_wf (cache_clear k c)"
  by (auto simp: cache_wf_def cache_clear_def AList.delete_eq distinct_map_filter image_iff)

lemma ensure_handle_wf: "cache_wf (mg_cache m) \<Longrightarrow> cache_wf (mg_cache (snd (ensure_runtime_handle C t se m)))"
  by (simp add: ensure_runtime_handle_def Let_def cache_get_def cache_set_wf cache_put_wf split: option.splits)

definition is_idle :: "int \<Rightarrow> int \<Rightarrow> string \<times> runtime_handle \<times> int \<Rightarrow> bool" where
  "is_idle max_idle t x = (max_idle \<le> max 0 (t - snd (snd x)))"

definition owned :: "browser option \<Rightarrow> nat list" where
  "owned b = (case b of None \<Rightarrow> [] | Some x \<Rightarrow> if br_is_engine x \<or> br_is_adapter x \<or> \<not> br_can_close x then [] else [br_id x])"

lemma close_owned: "close_owned_browser b m = m\<lparr>mg_closed := mg_closed m @ owned b\<rparr>"
  by (cases b) (simp_all add: close_owned_browser_def owned_def)

definition handle_of :: "string \<times> runtime_handle \<times> int \<Rightarrow> runtime_handle" where
  "handle_of x = fst (snd x)"

definition snap_of :: "int \<Rightarrow> string \<times> runtime_handle \<times> int \<Rightarrow> cached_snapshot" where
  "snap_of t x = \<lparr>cp_actor_key = fst x, cp_state = handle_of x, cp_last_touched_at = snd (snd x), cp_idle = max 0 (t - snd (snd x))\<rparr>"

lemma candidates: "0 < max_idle \<Longrightarrow> collect_idle_candidates max_idle t c = map (snap_of t) (filter (is_idle max_idle t) c)"
  by (auto simp: collect_idle_candidates_def cache_snapshot_def filter_map o_def is_idle_def [abs_def] snap_of_def [abs_def] handle_of_def split_def)

text \<open>Evicting a part of the cache drops exactly that part.\<close>

lemma evict_part:
  assumes "cache_wf (mg_cache m)" and "set xs \<subseteq> set (mg_cache m)" and "distinct (map fst xs)"
  shows "evict_candidates (map (snap_of t) xs) n m = (n + int (length xs),
    m\<lparr>mg_cache := filter (\<lambda>x. fst x \<notin> fst ` set xs) (mg_cache m), mg_closed := mg_closed m @ concat (map (\<lambda>x. owned (hd_browser (handle_of x))) xs)\<rparr>)"
  using assms
proof (induction xs arbitrary: m n)
  case (Cons x xs)
  define m1 where "m1 = m\<lparr>mg_closed := mg_closed m @ owned (hd_browser (handle_of x)), mg_cache := cache_clear (fst x) (mg_cache m)\<rparr>"
  have x: "x \<in> set (mg_cache m)" "cache_token (fst x) = fst x" using Cons.prems(1,2) by (auto simp: cache_wf_def)
  then have "map_of (mg_cache m) (fst x) = Some (snd x)" using Cons.prems(1) by (simp add: cache_wf_def)
  then have "cache_peek (fst x) (mg_cache m) = Some (handle_of x)"
    by (simp add: cache_peek_def cache_get_def x(2) handle_of_def split_def split: prod.splits)
  then have step: "evict_candidates (map (snap_of t) (x # xs)) n m = evict_candidates (map (snap_of t) xs) (n + 1) m1"
    by (simp add: snap_of_def close_owned m1_def)
  have clear: "mg_cache m1 = filter (\<lambda>y. fst y \<noteq> fst x) (mg_cache m)"
    by (auto simp: m1_def cache_clear_def x(2) AList.delete_eq split_def intro!: filter_cong)
  have "set xs \<subseteq> set (mg_cache m1)" unfolding clear using Cons.prems(2,3) by (fastforce simp: image_iff)
  with Cons.IH [of m1 "n + 1"] Cons.prems show ?case
    unfolding step by (simp add: m1_def cache_clear_wf) (simp add: cache_clear_def x(2) AList.delete_eq split_def eq_commute [of "fst x"])
qed simp

text \<open>What an eviction keeps, and what it drops.\<close>

lemma evicted_exactly:
  assumes "cache_wf (mg_cache m)" and "0 < mc_handle_idle_ttl_seconds C"
    and "idle = filter (is_idle (sec (mc_handle_idle_ttl_seconds C)) t) (mg_cache m)"
  shows "evict_idle_handles C t m = (int (length idle), m\<lparr>
    mg_cache := filter (\<lambda>x. \<not> is_idle (sec (mc_handle_idle_ttl_seconds C)) t x) (mg_cache m),
    mg_closed := mg_closed m @ concat (map (\<lambda>x. owned (hd_browser (handle_of x))) idle), mg_evicted := mg_evicted m + int (length idle)\<rparr>)"
proof -
  have d: "distinct (map fst (mg_cache m))" using assms(1) by (simp add: cache_wf_def)
  then have "filter (\<lambda>x. fst x \<notin> fst ` set idle) (mg_cache m) = filter (\<lambda>x. \<not> is_idle (sec (mc_handle_idle_ttl_seconds C)) t x) (mg_cache m)"
    unfolding assms(3) by (intro filter_cong refl) (auto simp: distinct_map inj_on_def)
  then show ?thesis
    using evict_part [OF assms(1), of idle t 0] assms(2,3) d
    by (simp add: evict_idle_handles_def candidates sec_def distinct_map_filter)
qed

text \<open>
  An eviction drops exactly the handles that were not touched within the idle time, closes the browsers
  that are the manager's own, and counts what it dropped; whether a turn is running on the handle plays
  no part.
\<close>

theorem idle_handles_evicted:
  assumes "cache_wf (mg_cache m)" and "0 < mc_handle_idle_ttl_seconds C"
    and "idle = filter (is_idle (sec (mc_handle_idle_ttl_seconds C)) t) (mg_cache m)"
  shows "evict_idle_handles C t m = (int (length idle), m\<lparr>
    mg_cache := filter (\<lambda>x. \<not> is_idle (sec (mc_handle_idle_ttl_seconds C)) t x) (mg_cache m),
    mg_closed := mg_closed m @ concat (map (\<lambda>x. owned (hd_browser (handle_of x))) idle), mg_evicted := mg_evicted m + int (length idle)\<rparr>)"
  using assms by (rule evicted_exactly)

text \<open>A completed turn is replayed without a change of the manager.\<close>

theorem completed_turn_replayed:
  assumes "request_meta T a (mg_db m) = Inr meta" and "store_ok (te_store T 1)"
    and "strip (turn_id_of T meta) = turn_id_of T meta" and "turn_id_of T meta \<noteq> []"
    and "turn_of (turn_id_of T meta) (mg_db m) = Some r" and "replayable r" and "takes_quietly T"
  shows "\<exists>d. rt_final_payload r = Some d \<and> run_turn C T a m = (Inr d, m)
    \<and> iter_turn_events C T a m = (([replay_event (turn_id_of T meta) (turn_item r) d], Inr ()), m)"
  using assms by (rule replayed_turn)

subsection \<open>Histories of a manager\<close>

datatype manager_op =
    OpEnsure "nat \<Rightarrow> local_env" session_args "pydict option" "pydict option" string
  | OpEvents turn_env turn_args
  | OpRunTurn turn_env turn_args
  | OpCloseSession "nat \<Rightarrow> local_env" string
  | OpResetSession "nat \<Rightarrow> local_env" string
  | OpInterruptStale "nat \<Rightarrow> local_env" "int option"
  | OpEvict int

fun manager_step :: "manager_config \<Rightarrow> manager_op \<Rightarrow> manager \<Rightarrow> manager" where
  "manager_step C (OpEnsure L a options meta status) m = snd (ensure_session C L a options meta status m)"
| "manager_step C (OpEvents T a) m = snd (iter_turn_events C T a m)"
| "manager_step C (OpRunTurn T a) m = snd (run_turn C T a m)"
| "manager_step C (OpCloseSession L i) m = snd (close_session L i m)"
| "manager_step C (OpResetSession L i) m = snd (reset_session L i m)"
| "manager_step C (OpInterruptStale L t) m = snd (interrupt_stale_sessions C L t m)"
| "manager_step C (OpEvict t) m = snd (evict_idle_handles C t m)"

definition manager_wf :: "manager \<Rightarrow> bool" where
  "manager_wf m \<longleftrightarrow> session_wf (mg_db m) \<and> cache_wf (mg_cache m) \<and> 0 \<le> mg_active_turns m"

lemma on_db_wf:
  assumes "on_db f m = (r, m')" and "\<And>s. f s \<in> keeps_wf s" and "manager_wf m" shows "manager_wf m'"
  using assms(1,3) keeps_wf_snd [OF assms(2), of "mg_db m"] by (auto simp: on_db_def manager_wf_def split: prod.splits)

lemmas write_wf = on_db_wf [OF _ upsert_session_wf] on_db_wf [OF _ upsert_turn_wf]

lemma ensure_handle_manager_wf: "manager_wf m \<Longrightarrow> manager_wf (snd (ensure_runtime_handle C t se m))"
  by (simp add: manager_wf_def ensure_handle_wf)

lemma ensure_handle_result: "ensure_runtime_handle C t se m = (h, m') \<Longrightarrow> manager_wf m \<Longrightarrow> manager_wf m'"
  using ensure_handle_manager_wf [of m C t se] by simp

lemma delta_wf: "manager_wf m \<Longrightarrow> manager_wf (add_active_turn_delta d m)"
  by (simp add: manager_wf_def add_active_turn_delta_def)

lemma record_error_wf: "manager_wf m \<Longrightarrow> manager_wf (record_error c m)"
  by (simp add: manager_wf_def)

lemma leave_turn_wf: "manager_wf m \<Longrightarrow> manager_wf (leave_turn T i h m)"
  by (simp add: manager_wf_def leave_turn_def add_active_turn_delta_def cache_set_wf)

lemma drop_handle_wf: "manager_wf m \<Longrightarrow> manager_wf (drop_handle i m)"
  by (auto simp: manager_wf_def drop_handle_def Let_def close_owned cache_clear_wf split: option.splits)

lemma ensure_session_wf: "ensure_session C L a o1 o2 st m = (r, m') \<Longrightarrow> manager_wf m \<Longrightarrow> manager_wf m'"
  by (auto simp: ensure_session_def Let_def ensure_handle_manager_wf split: if_splits sum.splits prod.splits dest: write_wf)

lemma finish_turn_wf: "finish_turn T a n se p m = (r, m') \<Longrightarrow> manager_wf m \<Longrightarrow> manager_wf m'"
  by (auto simp: finish_turn_def Let_def record_error_wf split: if_splits sum.splits prod.splits dest: write_wf)

lemma fail_turn_wf: "fail_turn T a n se p e m = (r, m') \<Longrightarrow> manager_wf m \<Longrightarrow> manager_wf m'"
  by (auto simp: fail_turn_def Let_def record_error_wf split: if_splits sum.splits prod.splits dest: write_wf)

lemma run_executor_wf: "run_executor T a n i se h m = (r, m') \<Longrightarrow> manager_wf m \<Longrightarrow> manager_wf m'"
  by (auto simp: run_executor_def Let_def leave_turn_wf split: sum.splits prod.splits loop_end.splits dest: finish_turn_wf fail_turn_wf)

lemma write_delta_wf: "on_db (upsert_runtime_session_turn L i) (add_active_turn_delta d m) = (r, m') \<Longrightarrow> manager_wf m \<Longrightarrow> manager_wf m'"
  by (rule write_wf(2) [OF _ delta_wf])

lemma claimed_turn_wf: "claimed_turn C T a n i m = (r, m') \<Longrightarrow> manager_wf m \<Longrightarrow> manager_wf m'"
  by (auto simp: claimed_turn_def Let_def split: sum.splits prod.splits option.splits
      dest: ensure_session_wf ensure_handle_result write_delta_wf run_executor_wf)

lemma iter_turn_wf: "iter_turn_events C T a m = (r, m') \<Longrightarrow> manager_wf m \<Longrightarrow> manager_wf m'"
  by (auto simp: iter_turn_events_def Let_def split: sum.splits prod.splits option.splits dest: ensure_session_wf claimed_turn_wf)

lemma run_turn_wf: "run_turn C T a m = (r, m') \<Longrightarrow> manager_wf m \<Longrightarrow> manager_wf m'"
  by (auto simp: run_turn_def split: sum.splits prod.splits option.splits dest: iter_turn_wf)

lemma keeps_wf_pair: "(r, s') \<in> keeps_wf s \<longleftrightarrow> (session_wf s \<longrightarrow> session_wf s')"
  by (simp add: keeps_wf_def)

lemma keeps_wf_trans: "(r, s1) \<in> keeps_wf s \<Longrightarrow> c \<in> keeps_wf s1 \<Longrightarrow> c \<in> keeps_wf s"
  by (auto simp: keeps_wf_def)

lemma rewrite_turns_wf: "rewrite_turns L f k ts s \<in> keeps_wf s"
proof (induction ts arbitrary: k s)
  case (Cons t ts)
  obtain r s1 where up: "upsert_runtime_session_turn (L k) (f (L k) t) s = (r, s1)" by (metis surj_pair)
  have "(r', s1) \<in> keeps_wf s" for r' :: "unit res" using upsert_turn_wf [of "L k" "f (L k) t" s] by (simp add: up keeps_wf_pair)
  moreover from this Cons.IH have "rewrite_turns L f j ts s1 \<in> keeps_wf s" for j by (rule keeps_wf_trans)
  ultimately show ?case by (cases r) (simp_all add: up)
qed (simp add: keeps_wf_def)

lemma close_session_wf: "close_session L i m = (r, m') \<Longrightarrow> manager_wf m \<Longrightarrow> manager_wf m'"
  by (auto simp: close_session_def drop_handle_wf split: sum.splits prod.splits option.splits dest: write_wf)

lemma reset_session_wf: "reset_session L i m = (r, m') \<Longrightarrow> manager_wf m \<Longrightarrow> manager_wf m'"
  by (auto simp: reset_session_def Let_def drop_handle_wf split: sum.splits prod.splits option.splits
      dest: write_wf on_db_wf [OF _ rewrite_turns_wf])

lemma interrupt_sessions_wf: "interrupt_sessions L k t stale ses n s \<in> keeps_wf s"
proof (induction ses arbitrary: k n s)
  case (Cons se ses)
  obtain r s1 where up: "upsert_runtime_session (L k) (interrupted_session (L k) se) s = (r, s1)" by (metis surj_pair)
  have one: "(r', s1) \<in> keeps_wf s" for r' :: "int res"
    using upsert_session_wf [of "L k" "interrupted_session (L k) se" s] by (simp add: up keeps_wf_pair)
  have two: "c \<in> keeps_wf s" if "rewrite_turns L failed_turn j ts s1 = (u, s2)" "c \<in> keeps_wf s2" for j ts u s2 and c :: "int res \<times> session_db"
    using rewrite_turns_wf [of L failed_turn j ts s1] one that by (auto simp: keeps_wf_def)
  have same: "(r', s2) \<in> keeps_wf s" if "rewrite_turns L failed_turn j ts s1 = (u, s2)" for j ts u s2 and r' :: "int res"
    by (rule two [OF that keeps_wf_same])
  show ?case
  proof (cases "t - sec stale < touched_ts (L k) t se")
    case True
    then show ?thesis using Cons.IH by simp
  next
    case False
    then show ?thesis
      using one Cons.IH unfolding interrupt_sessions.simps up
      by (auto split: sum.splits prod.splits intro: two same)
  qed
qed (simp add: keeps_wf_def)

lemma interrupt_stale_wf: "interrupt_stale_sessions C L t m = (r, m') \<Longrightarrow> manager_wf m \<Longrightarrow> manager_wf m'"
  by (auto simp: interrupt_stale_sessions_def Let_def manager_wf_def split: sum.splits prod.splits option.splits
      dest!: on_db_wf [OF _ interrupt_sessions_wf, unfolded manager_wf_def])

lemma evict_candidates_wf: "manager_wf m \<Longrightarrow> manager_wf (snd (evict_candidates ps n m))"
  by (induction ps arbitrary: n m) (auto simp: manager_wf_def close_owned cache_clear_wf)

lemma evict_wf: "manager_wf m \<Longrightarrow> manager_wf (snd (evict_idle_handles C t m))"
  using evict_candidates_wf [of m] by (auto simp: evict_idle_handles_def manager_wf_def split: prod.splits) (metis snd_conv)+

lemma manager_step_wf: "manager_wf m \<Longrightarrow> manager_wf (manager_step C op m)"
  by (cases op) (simp_all add: evict_wf ensure_session_wf [OF prod.collapse [symmetric]] iter_turn_wf [OF prod.collapse [symmetric]]
      run_turn_wf [OF prod.collapse [symmetric]] close_session_wf [OF prod.collapse [symmetric]]
      reset_session_wf [OF prod.collapse [symmetric]] interrupt_stale_wf [OF prod.collapse [symmetric]])

text \<open>
  C20. In every history of sessions, turns, closings, resets, interruptions and evictions, with any refusals,
  driver errors, executors and consumers, the tables keep unique keys and no turn without its session, the
  cache keeps one handle per normalised actor key, and the count of active turns is not negative.
\<close>

theorem manager_stays_wf:
  assumes "session_wf db" shows "manager_wf (fold (manager_step C) ops (new_manager db))"
proof -
  have "manager_wf (fold (manager_step C) ops m)" if "manager_wf m" for m
    using that by (induction ops arbitrary: m) (simp_all add: manager_step_wf)
  moreover have "manager_wf (new_manager db)" using assms by (simp add: new_manager_def manager_wf_def cache_wf_def)
  ultimately show ?thesis .
qed

subsection \<open>A turn that answered stays answered\<close>

text \<open>
  What an operation does to the turns of the ids in \<open>P\<close>: nothing. The store trims the ids it writes;
  \<open>answered\<close> says that the turns of \<open>P\<close> are there and replayed, and that none of them is of the session \<open>sid\<close>.
\<close>

definition turns_trimmed :: "session_db \<Rightarrow> bool" where
  "turns_trimmed s \<longleftrightarrow> (\<forall>r \<in> set (turns s). strip (rt_turn_id r) = rt_turn_id r)"

definition spares :: "string set \<Rightarrow> session_db \<Rightarrow> session_db \<Rightarrow> bool" where
  "spares P s s' \<longleftrightarrow> (turns_trimmed s \<longrightarrow> turns_trimmed s') \<and> (\<forall>i \<in> P. turn_of i s' = turn_of i s)"

definition answered :: "string set \<Rightarrow> session_db \<Rightarrow> bool" where
  "answered P s \<longleftrightarrow> (\<forall>i \<in> P. i \<noteq> [] \<and> (\<exists>r. turn_of i s = Some r \<and> replayable r))"

lemma spares_refl [simp]: "spares P s s"
  by (simp add: spares_def)

lemma spares_trans: "spares P s s1 \<Longrightarrow> spares P s1 s2 \<Longrightarrow> spares P s s2"
  by (simp add: spares_def)

lemma spares_answered: "spares P s s' \<Longrightarrow> answered P s \<Longrightarrow> answered P s'"
  by (simp add: spares_def answered_def)

lemma upsert_session_spares: "spares P s (snd (upsert_runtime_session L item s))"
  by (auto simp: upsert_runtime_session_def spares_def turns_trimmed_def turn_of_def Let_def split: sum.splits)

lemma upsert_turn_spares: "tok (dget item ''turn_id'') \<notin> P \<Longrightarrow> spares P s (snd (upsert_runtime_session_turn L item s))"
  using set_put_row [of rt_turn_id "turn_values L item" "turns s"]
  by (auto simp: upsert_runtime_session_turn_def spares_def turns_trimmed_def turn_of_def tok_def Let_def split: sum.splits)

lemma on_db_db [simp]: "mg_db (snd (on_db f m)) = snd (f (mg_db m))"
  by (simp add: on_db_def split: prod.splits)

lemma on_db_spares: "on_db f m = (r, m') \<Longrightarrow> spares P (mg_db m) (snd (f (mg_db m))) \<Longrightarrow> spares P (mg_db m) (mg_db m')"
  by (metis on_db_db snd_conv)

lemma session_write_spares: "on_db (upsert_runtime_session L item) m = (r, m') \<Longrightarrow> spares P (mg_db m) (mg_db m')"
  by (erule on_db_spares) (rule upsert_session_spares)

lemma other_fields_db [simp]: "mg_db (add_active_turn_delta d m) = mg_db m" "mg_db (drop_handle i m) = mg_db m"
  by (simp_all add: add_active_turn_delta_def drop_handle_def close_owned Let_def split: option.splits)

lemma ensure_session_spares: "ensure_session C L a o1 o2 st m = (r, m') \<Longrightarrow> spares P (mg_db m) (mg_db m')"
  by (auto simp: ensure_session_def Let_def split: if_splits sum.splits prod.splits dest: session_write_spares)

lemma turn_write_spares:
  "on_db (upsert_runtime_session_turn L (turn_record t q st a meta t0 t1 t2 extra metrics)) m = (r, m') \<Longrightarrow> strip t \<notin> P \<Longrightarrow>
   spares P (mg_db m) (mg_db m')"
  by (rule on_db_spares) (auto intro!: upsert_turn_spares simp: turn_record_fields)

lemma finish_turn_spares: "finish_turn T a n se p m = (r, m') \<Longrightarrow> strip (tn_turn_id n) \<notin> P \<Longrightarrow> spares P (mg_db m) (mg_db m')"
  by (auto simp: finish_turn_def Let_def split: if_splits sum.splits prod.splits
      dest: turn_write_spares intro: spares_trans [OF turn_write_spares session_write_spares])

lemma fail_turn_spares: "fail_turn T a n se p e m = (r, m') \<Longrightarrow> strip (tn_turn_id n) \<notin> P \<Longrightarrow> spares P (mg_db m) (mg_db m')"
  by (auto simp: fail_turn_def Let_def split: if_splits sum.splits prod.splits
      dest: turn_write_spares intro: spares_trans [OF turn_write_spares session_write_spares])

lemma run_executor_spares:
  "run_executor T a n i se h m = (r, m') \<Longrightarrow> strip (tn_turn_id n) \<notin> P \<Longrightarrow> spares P (mg_db m) (mg_db m')"
  by (auto simp: run_executor_def Let_def split: sum.splits prod.splits loop_end.splits
      dest: finish_turn_spares fail_turn_spares intro: spares_trans [OF finish_turn_spares fail_turn_spares])

text \<open>A turn is started only when its id names no answered turn.\<close>

lemma no_replay_new:
  assumes "completed_turn_replay_event L j s = Inr None" and "answered P s" shows "strip j \<notin> P"
proof
  assume "strip j \<in> P"
  with assms(2) obtain r where r: "strip j \<noteq> []" "row_of rt_turn_id (strip j) (turns s) = Some r" "replayable r"
    by (auto simp: answered_def turn_of_def)
  with assms(1) show False
    by (cases "rt_final_payload r")
      (auto simp: completed_turn_replay_event_def get_runtime_session_turn_def Let_def replayable_def split: sum.splits)
qed

lemma claimed_turn_spares:
  assumes "claimed_turn C T a n i m = (r, m')" and "answered P (mg_db m)" shows "spares P (mg_db m) (mg_db m')"
proof (cases "completed_turn_replay_event (te_store T 5) (tn_turn_id n) (mg_db m) = Inr None")
  case True
  from no_replay_new [OF this assms(2)] have new: "strip (tn_turn_id n) \<notin> P" .
  obtain r1 m1 where e: "ensure_session C (\<lambda>k. te_store T (6 + k)) ((ta_session a)\<lparr>sa_actor_key := i\<rparr>)
      (Some (dict_of (dget (tn_meta n) ''runtime_options''))) (Some (tn_meta n)) ''active'' m = (r1, m1)" by fastforce
  note first = ensure_session_spares [OF e, of P]
  show ?thesis
  proof (cases r1)
    case (Inl x)
    with assms(1) True e first show ?thesis by (simp add: claimed_turn_def Let_def)
  next
    case (Inr session)
    obtain h m2 where h: "ensure_runtime_handle C (le_clock (te_store T 8)) session m1 = (h, m2)" by fastforce
    have db2: "mg_db (add_active_turn_delta 1 m2) = mg_db m1" using ensure_handle_db [of C _ session m1] h by (metis other_fields_db(1) snd_conv)
    obtain r4 m4 where w: "on_db (upsert_runtime_session_turn (te_store T 9) (turn_record (tn_turn_id n) (tn_request_id n) ''running'' a (tn_meta n)
        (tn_started_at n) (tn_started_at n) [] [] [])) (add_active_turn_delta 1 m2) = (r4, m4)" by fastforce
    have second: "spares P (mg_db m1) (mg_db m4)" using turn_write_spares [OF w new] by (simp only: db2)
    have "m' = m4 \<or> run_executor T a n i session h m4 = (r, m')"
      using assms(1) True e Inr h w unfolding claimed_turn_def Let_def by (cases r4) simp_all
    with spares_trans [OF first second] show ?thesis using run_executor_spares [OF _ new] spares_trans by blast
  qed
next
  case False
  with assms(1) have "m' = m" by (auto simp: claimed_turn_def Let_def split: sum.splits option.splits)
  then show ?thesis by simp
qed

lemma iter_turn_spares:
  assumes "iter_turn_events C T a m = (r, m')" and "answered P (mg_db m)" shows "spares P (mg_db m) (mg_db m')"
  using assms
  by (auto simp: iter_turn_events_def Let_def split: sum.splits prod.splits option.splits
      dest: ensure_session_spares intro: spares_trans [OF ensure_session_spares claimed_turn_spares]
        spares_answered [OF ensure_session_spares])

lemma run_turn_spares: "run_turn C T a m = (r, m') \<Longrightarrow> answered P (mg_db m) \<Longrightarrow> spares P (mg_db m) (mg_db m')"
  by (auto simp: run_turn_def split: sum.splits prod.splits option.splits dest: iter_turn_spares)

text \<open>Turns written back: those of a list, which are not answered ones.\<close>

lemma rewrite_turns_spares:
  assumes "\<And>L t. dget (f L t) ''turn_id'' = dget t ''turn_id''" and "\<And>t. t \<in> set ts \<Longrightarrow> tok (dget t ''turn_id'') \<notin> P"
  shows "spares P s (snd (rewrite_turns L f k ts s))"
  using assms(2)
proof (induction ts arbitrary: k s)
  case (Cons t ts)
  obtain r s1 where up: "upsert_runtime_session_turn (L k) (f (L k) t) s = (r, s1)" by fastforce
  have "spares P s s1" using upsert_turn_spares [of "f (L k) t" P s "L k"] Cons.prems assms(1) by (simp add: up)
  with Cons.IH [of s1 "k + 1"] Cons.prems show ?case by (cases r) (auto simp: up intro: spares_trans)
qed simp

lemma rewritten_ids [simp]: "dget (archived_turn L t) ''turn_id'' = dget t ''turn_id''" "dget (failed_turn L t) ''turn_id'' = dget t ''turn_id''"
  by (simp_all add: archived_turn_def failed_turn_def)

lemma listed_turn:
  assumes "list_runtime_session_turns L sid statuses limit s = Inr ts" and "t \<in> set ts" and "turns_trimmed s"
  obtains r where "r \<in> set (turns s)" and "tok (dget t ''turn_id'') = rt_turn_id r"
    and "strip sid = [] \<or> rt_session_id r = strip sid" and "status_in (wanted_statuses statuses) (rt_status r)"
proof -
  from assms(1,2) obtain r where r: "r \<in> set (turns s)" "t = turn_item r" "strip sid = [] \<or> rt_session_id r = strip sid"
    "status_in (wanted_statuses statuses) (rt_status r)"
    by (auto simp: list_runtime_session_turns_def limited_def text_desc_def split: sum.splits if_splits option.splits dest!: in_set_takeD)
  moreover have "tok (dget t ''turn_id'') = rt_turn_id r" using r(1,2) assms(3) by (simp add: turn_item_def turns_trimmed_def)
  ultimately show ?thesis using that by blast
qed

lemma wf_turn_of: "session_wf s \<Longrightarrow> r \<in> set (turns s) \<Longrightarrow> turn_of (rt_turn_id r) s = Some r"
  by (simp add: session_wf_def turn_of_def row_of_mem)

text \<open>A reset reaches the turns of its own session only, an interruption the running ones.\<close>

definition turns_of_session :: "string \<Rightarrow> session_db \<Rightarrow> string set" where
  "turns_of_session sid s = {i. \<exists>r. turn_of i s = Some r \<and> rt_session_id r = sid}"

lemma reset_session_spares:
  assumes "reset_session L i m = (r, m')" and "session_wf (mg_db m)" and "turns_trimmed (mg_db m)"
    and "P \<inter> turns_of_session (strip i) (mg_db m) = {}"
  shows "spares P (mg_db m) (mg_db m')"
proof (cases "get_runtime_session (L 0) i (mg_db m)")
  case (Inr found)
  show ?thesis
  proof (cases found)
    case (Some session)
    with Inr obtain row where row: "session = session_item row" "rs_session_id row = strip i" "strip i \<noteq> []"
      by (auto simp: get_runtime_session_def Let_def split: if_splits sum.splits dest: row_of_key)
    define m1 where "m1 = drop_handle (session_actor i session) m"
    have db1: "mg_db m1 = mg_db m" by (simp add: m1_def)
    have sid: "strip (py_str_of (por (dget session ''session_id'') (PStr []))) = strip i" using row by (simp add: por_def)
    show ?thesis
    proof (cases "list_runtime_session_turns (L 1) (py_str_of (por (dget session ''session_id'') (PStr [])))
        (Some [''running'', ''completed'']) None (mg_db m1)")
      case (Inl e)
      with assms(1) Inr Some have "m' = m1" by (simp add: reset_session_def m1_def Let_def)
      with db1 show ?thesis by simp
    next
      case ts: (Inr ts)
      have "tok (dget t ''turn_id'') \<notin> P" if "t \<in> set ts" for t
      proof -
        from listed_turn [OF ts that] assms(3) db1 sid row(3) obtain x where x: "x \<in> set (turns (mg_db m))"
          "tok (dget t ''turn_id'') = rt_turn_id x" "rt_session_id x = strip i" by metis
        from wf_turn_of [OF assms(2) x(1)] x(2,3) assms(4) show ?thesis by (auto simp: turns_of_session_def)
      qed
      from rewrite_turns_spares [of archived_turn, OF rewritten_ids(1) this]
      have "spares P (mg_db m) (snd (rewrite_turns L archived_turn 2 ts (mg_db m)))" .
      then have one: "on_db (rewrite_turns L archived_turn 2 ts) m1 = (r2, m2) \<Longrightarrow> spares P (mg_db m) (mg_db m2)" for r2 m2
        using on_db_spares [of "rewrite_turns L archived_turn 2 ts" m1 r2 m2 P] by (simp add: db1)
      obtain r2 m2 where w: "on_db (rewrite_turns L archived_turn 2 ts) m1 = (r2, m2)" by fastforce
      have "m' = m2 \<or> (\<exists>item. on_db (upsert_runtime_session (L (2 + length ts)) item) m2 = (r, m'))"
        using assms(1) Inr Some ts w unfolding reset_session_def by (auto simp: m1_def [symmetric] Let_def split: sum.splits)
      with one [OF w] session_write_spares spares_trans show ?thesis by blast
    qed
  qed (use assms(1) Inr in \<open>simp add: reset_session_def\<close>)
qed (use assms(1) in \<open>simp add: reset_session_def\<close>)

lemma interrupt_sessions_spares:
  assumes "session_wf s" and "turns_trimmed s" and "answered P s"
  shows "spares P s (snd (interrupt_sessions L k t stale ses n s))"
  using assms
proof (induction ses arbitrary: k n s)
  case (Cons se ses)
  obtain r s1 where up: "upsert_runtime_session (L k) (interrupted_session (L k) se) s = (r, s1)" by fastforce
  have one: "spares P s s1" using upsert_session_spares [of P s "L k" "interrupted_session (L k) se"] by (simp add: up)
  have wf1: "session_wf s1" using keeps_wf_snd [OF upsert_session_wf Cons.prems(1)] up by (metis snd_conv)
  have s1: "turns_trimmed s1" "answered P s1" using one Cons.prems(2,3) spares_answered by (auto simp: spares_def)
  let ?list = "list_runtime_session_turns (L (k + 1)) (py_str_of (por (dget se ''session_id'') (PStr []))) (Some [''running'']) None s1"
  have two: "spares P s1 (snd (rewrite_turns L failed_turn j ts s1))" if ts: "?list = Inr ts" for ts j
  proof (rule rewrite_turns_spares [OF rewritten_ids(2)])
    fix tn assume "tn \<in> set ts"
    from listed_turn [OF ts this s1(1)] obtain x where x: "x \<in> set (turns s1)" "tok (dget tn ''turn_id'') = rt_turn_id x"
      "rt_status x = ''running''" by (auto simp: wanted_statuses_def status_in_def)
    from wf_turn_of [OF wf1 x(1)] x(2,3) s1(2) show "tok (dget tn ''turn_id'') \<notin> P" by (force simp: answered_def replayable_def)
  qed
  have rest: "spares P s1 (snd (interrupt_sessions L j t stale ses n' (snd (rewrite_turns L failed_turn (k + 2) ts s1))))"
    if ts: "?list = Inr ts" for ts j n'
  proof (rule spares_trans [OF two [OF ts]], rule Cons.IH)
    show "session_wf (snd (rewrite_turns L failed_turn (k + 2) ts s1))" by (rule keeps_wf_snd [OF rewrite_turns_wf wf1])
    show "turns_trimmed (snd (rewrite_turns L failed_turn (k + 2) ts s1))" using two [OF ts] s1(1) by (simp add: spares_def)
    show "answered P (snd (rewrite_turns L failed_turn (k + 2) ts s1))" by (rule spares_answered [OF two [OF ts] s1(2)])
  qed
  show ?case
  proof (cases "t - sec stale < touched_ts (L k) t se")
    case True
    with Cons.IH [OF Cons.prems] show ?thesis by simp
  next
    case False
    have "spares P s1 (snd (interrupt_sessions L k t stale (se # ses) n s)) \<or> snd (interrupt_sessions L k t stale (se # ses) n s) = s1"
      using False two rest by (auto simp: up split: sum.splits prod.splits) (metis snd_conv)+
    with one show ?thesis using spares_trans by metis
  qed
qed simp

lemma evict_candidates_db [simp]: "mg_db (snd (evict_candidates ps n m)) = mg_db m"
  by (induction ps arbitrary: n m) (simp_all add: close_owned)

text \<open>A history without a reset of the sessions of the turns of \<open>P\<close>.\<close>

fun resets :: "string \<Rightarrow> manager_op \<Rightarrow> bool" where
  "resets sid (OpResetSession L i) = (strip i = sid)"
| "resets sid op = False"

lemma manager_step_spares:
  assumes "manager_wf m" and "turns_trimmed (mg_db m)" and "answered P (mg_db m)"
    and "\<And>sid. resets sid op \<Longrightarrow> P \<inter> turns_of_session sid (mg_db m) = {}"
  shows "spares P (mg_db m) (mg_db (manager_step C op m))"
proof (cases op)
  case (OpInterruptStale L t)
  have "spares P (mg_db m) (mg_db m1)" if "on_db (interrupt_sessions L 1 x stale ses 0) m = (r1, m1)" for x stale ses r1 m1
    using assms(1-3) by (intro on_db_spares [OF that] interrupt_sessions_spares) (simp_all add: manager_wf_def)
  with OpInterruptStale show ?thesis
    by (auto simp: interrupt_stale_sessions_def Let_def split: sum.splits prod.splits)
next
  case (OpResetSession L i)
  with assms reset_session_spares [of L i m _ _ P] show ?thesis by (simp add: manager_wf_def) (metis prod.collapse)
next
  case (OpCloseSession L i)
  then show ?thesis
    by (auto simp: close_session_def split: sum.splits prod.splits option.splits) (metis on_db_db other_fields_db(2) upsert_session_spares)
next
  case (OpEvict t)
  then show ?thesis by (simp add: evict_idle_handles_def split: prod.splits) (metis evict_candidates_db snd_conv spares_refl)
qed (simp_all add: ensure_session_spares [OF prod.collapse [symmetric]] iter_turn_spares [OF prod.collapse [symmetric] assms(3)]
    run_turn_spares [OF prod.collapse [symmetric] assms(3)])

lemma history_spares:
  assumes "manager_wf m" and "turns_trimmed (mg_db m)" and "turn_of i (mg_db m) = Some r" and "replayable r" and "i \<noteq> []"
    and "\<forall>op \<in> set ops. \<not> resets (rt_session_id r) op"
  shows "turn_of i (mg_db (fold (manager_step C) ops m)) = Some r"
  using assms(1-3,6)
proof (induction ops arbitrary: m)
  case (Cons op ops)
  have "answered {i} (mg_db m)" using Cons.prems(3) assms(4,5) by (simp add: answered_def)
  moreover have "{i} \<inter> turns_of_session sid (mg_db m) = {}" if "resets sid op" for sid
    using that Cons.prems(3,4) by (auto simp: turns_of_session_def)
  ultimately have "spares {i} (mg_db m) (mg_db (manager_step C op m))"
    using manager_step_spares [OF Cons.prems(1,2)] by blast
  with Cons.prems(2,3) have "turns_trimmed (mg_db (manager_step C op m))" "turn_of i (mg_db (manager_step C op m)) = Some r"
    by (auto simp: spares_def)
  from Cons.IH [OF manager_step_wf [OF Cons.prems(1)] this] Cons.prems(4) show ?case by simp
qed simp

text \<open>
  C18. A turn that answered is not run again. Once \<open>run_turn\<close> has returned, without an error, the payload
  of a final event of its executor, the manager may go through any history of its operations: other turns
  and requests of the same turn, closings, interruptions, evictions and resets of other sessions, with any
  refusals, driver errors, executors and consumers. A later \<open>run_turn\<close> with the same turn id then returns
  that payload and leaves the manager as it is, whatever session, actor, executor or configuration it comes
  with; that includes another session, as the replay compares no session id. Only a reset of the turn's own
  session ends this, since it archives the session's turns. Turns that only stream chunks are not included.
\<close>

theorem turn_runs_once:
  assumes "calls_open T" and "fresh_turn T a meta m" and "takes_quietly T" and "manager_wf m" and "turns_trimmed (mg_db m)"
    and "\<And>actor handle. last_final (map dict_of (xr_events (te_executor T a actor handle meta))) [] \<noteq> []"
    and "run_turn C T a m = (Inr d, m')" and "tok (dget d ''error'') = []"
    and "\<forall>op \<in> set ops. \<not> resets (strip (sa_session_id (ta_session a))) op" and "m'' = fold (manager_step C') ops m'"
    and "store_ok (te_store T' 1)" and "request_meta T' a' (mg_db m'') = Inr meta'" and "turn_id_of T' meta' = turn_id_of T meta" and "takes_quietly T'"
  shows "run_turn C'' T' a' m'' = (Inr d, m'')"
proof -
  have i: "strip (turn_id_of T meta) = turn_id_of T meta" "turn_id_of T meta \<noteq> []" using assms(2) by (simp_all add: fresh_turn_def)
  from run_turn_open [OF assms(1,2,3), of C] assms(7) obtain actor handle
    where "turn_ran T a meta (te_executor T a actor handle meta) (Inr d) m'" by auto
  from ran_answered [OF this assms(6,8)] obtain r where r: "turn_of (turn_id_of T meta) (mg_db m') = Some r" "replayable r"
    "rt_final_payload r = Some d" "rt_session_id r = strip (sa_session_id (ta_session a))" by blast
  have "spares {} (mg_db m) (mg_db m')" by (rule run_turn_spares [OF assms(7)]) (simp add: answered_def)
  then have trimmed: "turns_trimmed (mg_db m')" using assms(5) by (simp add: spares_def)
  have "\<forall>op \<in> set ops. \<not> resets (rt_session_id r) op" using assms(9) by (simp only: r(4))
  from history_spares [OF run_turn_wf [OF assms(7,4)] trimmed r(1,2) i(2) this, of C']
  have later: "turn_of (turn_id_of T meta) (mg_db m'') = Some r" by (simp only: assms(10))
  from replayed_turn [OF assms(12,11), unfolded assms(13), OF i later r(2) assms(14), of C''] r(3) show ?thesis by simp
qed

subsection \<open>Concrete turns\<close>

text \<open>An executor of fixed events, a request with its prior messages.\<close>

definition demo_session :: "string \<Rightarrow> turn_args" where
  "demo_session i = \<lparr>ta_session = \<lparr>sa_session_id = i, sa_actor_key = [], sa_workspace_id = [], sa_user_id = []\<rparr>, ta_message = ''m'',
     ta_request_meta = Some [(''turn_id'', PStr ''t''), (''request_id'', PStr ''q''), (''prior_messages'', PList [PNone])]\<rparr>"

definition demo_meta :: pydict where
  "demo_meta = [(''turn_id'', PStr ''t''), (''request_id'', PStr ''q''), (''prior_messages'', PList [PNone])]"

definition demo_turn :: "pyval list \<Rightarrow> turn_env" where
  "demo_turn evs = \<lparr>te_executor = (\<lambda>_ _ h _. \<lparr>xr_events = evs, xr_failure = None, xr_handle = h\<rparr>), te_sink = (\<lambda>_. None), te_stop = (\<lambda>_. False),
     te_uuid = (\<lambda>_. ''u''), te_store = (\<lambda>_. demo_local)\<rparr>"

definition demo_config :: manager_config where
  "demo_config = manager_config_of 600 900 (\<lambda>_. None)"

definition demo_db :: session_db where
  "demo_db = \<lparr>sessions = [], turns = [], streams = []\<rparr>"

lemma demo_request: "request_meta (demo_turn evs) (demo_session i) s = Inr demo_meta"
  by (simp add: request_meta_def demo_session_def demo_meta_def has_prior_messages_def turn_meta_def)

lemma demo_ids: "turn_id_of (demo_turn evs) demo_meta = ''t''" "request_id_of (demo_turn evs) demo_meta = ''q''" "strip ''t'' = ''t''"
  by (simp_all add: turn_id_of_def request_id_of_def demo_meta_def por_def sor_def strip_def py_space_def)

lemma demo_calls: "calls_open (demo_turn evs)" "store_ok (te_store (demo_turn evs) k)" "takes_quietly (demo_turn evs)"
  using demo_local_open by (simp_all add: calls_open_def demo_turn_def store_open_def takes_quietly_def)

lemma demo_fresh: "fresh_turn (demo_turn evs) (demo_session ''s'') demo_meta (new_manager demo_db)"
  by (simp add: fresh_turn_def demo_request demo_ids starts_fresh_def new_manager_def demo_db_def turn_of_def)
    (simp add: demo_session_def strip_def py_space_def)

definition demo_final :: "pyval list" where
  "demo_final = [PDict [(''type'', PStr ''final''), (''payload'', PDict [(''reply'', PStr ''x'')])]]"

definition demo_chunk :: "pyval list" where
  "demo_chunk = [PDict [(''type'', PStr ''chunk''), (''delta'', PStr ''x'')]]"

lemma type_words: "lower ''final'' = ''final''" "strip ''final'' = ''final''" "lower ''chunk'' = ''chunk''" "strip ''chunk'' = ''chunk''"
  by (simp_all add: lower_def strip_def py_space_def)

lemma demo_event: "event_type (dict_of (hd demo_final)) = ''final''" "event_type (dict_of (hd demo_chunk)) = ''chunk''"
  by (simp_all add: demo_final_def demo_chunk_def event_type_def type_words)

lemma demo_final_payload: "last_final (map dict_of demo_final) [] = [(''reply'', PStr ''x'')]" "reply_of (map dict_of demo_final) = [(''reply'', PStr ''x'')]"
  using demo_event(1) by (simp_all add: demo_final_def final_payload_of_def reply_of_def)

lemma demo_chunk_reply: "reply_of (map dict_of demo_chunk) = [(''reply'', PStr ''x'')]" "x \<in> set demo_chunk \<Longrightarrow> final_payload_of (dict_of x) = None"
  using demo_event(2) by (simp_all add: demo_chunk_def final_payload_of_def reply_of_def por_def)

lemma demo_run:
  assumes "reply_of (map dict_of evs) = d"
  shows "\<exists>m'. run_turn demo_config (demo_turn evs) (demo_session ''s'') (new_manager demo_db) = (Inr d, m')"
  using run_turn_open [where C = demo_config, OF demo_calls(1) demo_fresh demo_calls(3), of evs] assms by (auto simp: turn_ran_def demo_turn_def Let_def)

lemma demo_events: "xr_events (te_executor (demo_turn evs) a actor handle meta) = evs"
  by (simp add: demo_turn_def)

theorem turn_outcome_witness:
  "\<exists>p ending m'. iter_turn_events demo_config (demo_turn demo_chunk) (demo_session ''s'') (new_manager demo_db) = ((pg_yielded p, result_of ending), m')
    \<and> left_as (turn_id_of (demo_turn demo_chunk) demo_meta) (left_by ending p) (strip ''s'') m' \<and> mg_active_turns m' = 0"
  using turn_outcome [where C = demo_config, OF demo_calls(1) demo_fresh, of demo_chunk] by (auto simp: new_manager_def demo_session_def)

definition demo_history :: "manager_op list" where
  "demo_history = [OpRunTurn (demo_turn demo_chunk) (demo_session ''other''), OpResetSession (\<lambda>_. demo_local) ''other'', OpEvict 0]"

lemma demo_start_wf: "manager_wf (new_manager demo_db)" "turns_trimmed (mg_db (new_manager demo_db))"
  by (simp_all add: manager_wf_def new_manager_def demo_db_def session_wf_def keys_distinct_def cache_wf_def turns_trimmed_def)

theorem turn_runs_once_witness:
  "\<exists>m'. run_turn demo_config (demo_turn demo_final) (demo_session ''s'') (new_manager demo_db) = (Inr [(''reply'', PStr ''x'')], m')
    \<and> (let m'' = fold (manager_step demo_config) demo_history m'
       in run_turn demo_config (demo_turn []) (demo_session ''other'') m'' = (Inr [(''reply'', PStr ''x'')], m''))"
proof -
  obtain m' where m': "run_turn demo_config (demo_turn demo_final) (demo_session ''s'') (new_manager demo_db) = (Inr [(''reply'', PStr ''x'')], m')"
    using demo_run [OF demo_final_payload(2)] by blast
  define m'' where "m'' = fold (manager_step demo_config) demo_history m'"
  have h: "\<forall>op \<in> set demo_history. \<not> resets (strip (sa_session_id (ta_session (demo_session ''s'')))) op"
    by (simp add: demo_history_def demo_session_def strip_def py_space_def)
  have "run_turn demo_config (demo_turn []) (demo_session ''other'') m'' = (Inr [(''reply'', PStr ''x'')], m'')"
    by (rule turn_runs_once [OF demo_calls(1) demo_fresh demo_calls(3) demo_start_wf _ m' _ h m''_def demo_calls(2) demo_request _ demo_calls(3)])
      (simp_all add: demo_events demo_final_payload demo_ids)
  with m' show ?thesis by (simp add: m''_def [symmetric] Let_def) 
qed

theorem chunk_only_turn_replays_empty_witness:
  "\<exists>m'. run_turn demo_config (demo_turn demo_chunk) (demo_session ''s'') (new_manager demo_db) = (Inr [(''reply'', PStr ''x'')], m')
    \<and> run_turn demo_config (demo_turn demo_chunk) (demo_session ''s'') m' = (Inr [(''reply'', PStr [])], m')"
proof -
  obtain m' where m': "run_turn demo_config (demo_turn demo_chunk) (demo_session ''s'') (new_manager demo_db) = (Inr [(''reply'', PStr ''x'')], m')"
    using demo_run [OF demo_chunk_reply(1)] by blast
  from chunk_only_turn_replays_empty [where C' = demo_config, OF demo_calls(1) demo_fresh demo_calls(3) demo_events demo_chunk_reply(2) m' demo_calls(2) demo_request _ demo_calls(3), of demo_chunk]
  have "run_turn demo_config (demo_turn demo_chunk) (demo_session ''s'') m' = (Inr [(''reply'', PStr [])], m')" by (simp add: demo_ids)
  with m' show ?thesis by blast
qed

definition refusing_local :: local_env where
  "refusing_local = \<lparr>le_repo = (allow_env 0)\<lparr>kern := (\<lambda>_ _. [])\<rparr>, le_from_iso = (\<lambda>_. None), le_loads = (\<lambda>_. None)\<rparr>"

lemma refusing_refuses: "\<exists>e. \<forall>r. enforce_local_store_decision refusing_local r = Inl e"
  by (auto simp: enforce_local_store_decision_def refusing_local_def run_runtime_kernel_enforced_def enforce_kernel_decision_def
      Let_def normalize_ok)

definition demo_refused :: turn_env where
  "demo_refused = (demo_turn demo_final)\<lparr>te_store := (\<lambda>k. if k = 9 then refusing_local else demo_local)\<rparr>"

lemma demo_refused_fresh: "fresh_turn demo_refused (demo_session ''s'') demo_meta (new_manager demo_db)"
proof -
  have "turn_id_of demo_refused demo_meta = ''t''" "request_id_of demo_refused demo_meta = ''q''"
    by (simp_all add: turn_id_of_def request_id_of_def demo_meta_def por_def sor_def strip_def py_space_def)
  moreover have "request_meta demo_refused (demo_session ''s'') s = Inr demo_meta" for s
    by (simp add: request_meta_def demo_session_def demo_meta_def has_prior_messages_def turn_meta_def)
  ultimately show ?thesis
    by (simp add: fresh_turn_def demo_ids starts_fresh_def new_manager_def demo_db_def turn_of_def)
      (simp add: demo_session_def strip_def py_space_def)
qed

theorem refused_start_leaves_turn_active_witness:
  "\<exists>e m'. iter_turn_events demo_config demo_refused (demo_session ''s'') (new_manager demo_db) = (([], Inl e), m') \<and> mg_active_turns m' = 1"
proof -
  obtain e where e: "enforce_local_store_decision refusing_local r = Inl e" for r using refusing_refuses by blast
  have "te_store demo_refused 9 = refusing_local" "\<And>k. k < 9 \<Longrightarrow> te_store demo_refused k = demo_local" by (simp_all add: demo_refused_def)
  with refused_start_leaves_turn_active [where C = demo_config, OF _ _ demo_refused_fresh, of e] demo_local_open e
  show ?thesis by (auto simp: new_manager_def)
qed

definition demo_row :: session_row where
  "demo_row = \<lparr>rs_session_id = ''s'', rs_actor_key = ''s'', rs_workspace_id = [], rs_user_id = [], rs_status = ''ready'', rs_runtime_options = [],
     rs_created_at = [], rs_updated_at = [], rs_last_touched_at = [], rs_last_error = None, rs_meta = []\<rparr>"

theorem export_trace_raises_witness:
  "export_trace (\<lambda>_. demo_local) ''s'' (new_manager \<lparr>sessions = [demo_row], turns = [], streams = []\<rparr>)
     = Inl (AttributeError ''EmpyralisSessionManager has no attribute _error_count'')"
  by (rule export_trace_raises [where row = demo_row])
    (simp_all add: demo_calls(2) [unfolded demo_turn_def, simplified] new_manager_def demo_row_def session_of_def row_of_def strip_def py_space_def)

definition demo_handle :: runtime_handle where
  "demo_handle = \<lparr>hd_session_id = ''s'', hd_actor_key = ''s'', hd_workspace_id = [], hd_user_id = [], hd_cwd = [], hd_runtime_options = [],
     hd_meta = [], hd_browser = Some \<lparr>br_id = 7, br_is_engine = False, br_is_adapter = False, br_can_close = True\<rparr>, hd_last_touched_at = 0\<rparr>"

theorem idle_handles_evicted_witness:
  "evict_idle_handles demo_config 1000000000 ((new_manager demo_db)\<lparr>mg_cache := [(''s'', demo_handle, 0), (''t'', demo_handle, 999999999)]\<rparr>)
     = (1, (new_manager demo_db)\<lparr>mg_cache := [(''t'', demo_handle, 999999999)], mg_closed := [7], mg_evicted := 1\<rparr>)"
proof -
  have wf: "cache_wf [(''s'', demo_handle, 0), (''t'', demo_handle, 999999999)]"
    by (simp add: cache_wf_def cache_token_def lower_def strip_def py_space_def)
  have ttl: "mc_handle_idle_ttl_seconds demo_config = 900" by (simp add: demo_config_def manager_config_of_def)
  show ?thesis
    using idle_handles_evicted [of "(new_manager demo_db)\<lparr>mg_cache := [(''s'', demo_handle, 0), (''t'', demo_handle, 999999999)]\<rparr>" demo_config
      "[(''s'', demo_handle, 0)]" 1000000000] wf
    by (simp add: ttl is_idle_def sec_def new_manager_def owned_def handle_of_def demo_handle_def)
qed

definition demo_done :: turn_row where
  "demo_done = \<lparr>rt_turn_id = ''t'', rt_session_id = ''s'', rt_request_id = ''q'', rt_status = ''completed'', rt_started_at = [], rt_updated_at = [],
     rt_completed_at = None, rt_input = [], rt_final_payload = Some [(''reply'', PStr ''x'')], rt_error_text = None, rt_metrics = []\<rparr>"

theorem completed_turn_replayed_witness:
  "run_turn demo_config (demo_turn []) (demo_session ''other'') (new_manager \<lparr>sessions = [demo_row], turns = [demo_done], streams = []\<rparr>)
     = (Inr [(''reply'', PStr ''x'')], new_manager \<lparr>sessions = [demo_row], turns = [demo_done], streams = []\<rparr>)"
  using completed_turn_replayed [where T = "demo_turn []" and a = "demo_session ''other''" and C = demo_config and r = demo_done
    and m = "new_manager \<lparr>sessions = [demo_row], turns = [demo_done], streams = []\<rparr>", OF demo_request demo_calls(2)]
  by (simp add: demo_ids demo_calls(3) turn_of_def new_manager_def demo_done_def replayable_def row_of_def)

theorem manager_stays_wf_witness:
  "manager_wf (fold (manager_step demo_config) [OpRunTurn (demo_turn demo_chunk) (demo_session ''s''), OpEvict 10, OpResetSession (\<lambda>_. demo_local) ''s'']
     (new_manager demo_db))"
  by (rule manager_stays_wf) (simp add: session_wf_def demo_db_def keys_distinct_def)

end
