(* ===== verification/Local_State.thy ===== *)
theory Local_State
  imports Local_Store
begin

text \<open>
  The rest of the local SQLite store (\<open>runtime_state_store.py\<close>) but for the notifications: the live runs, the
  checkpoint of the queue (pending runs, claims and registrations, written and loaded as a whole), the run
  history and the channel events with their pruning, and the application state.

  A statement that fails, or an exception between statements, leaves the file as it was: nothing is
  committed. Statements are counted from the opening of the file, which is call 0.
\<close>

subsection \<open>Tables\<close>

record saved_run =
  sv_run_id :: string
  sv_status :: string
  sv_engine :: string
  sv_workspace_id :: string
  sv_execution_target :: string
  sv_created_at :: string
  sv_updated_at :: string
  sv_sort_ts :: int
  sv_run :: pydict
  sv_persisted_at :: string

record pending_row =
  pq_run_id :: string
  pq_queue_order :: int
  pq_queued_at :: string
  pq_persisted_at :: string

record local_claim_row =
  lc_run_id :: string
  lc_worker_id :: string
  lc_claimed_at :: string
  lc_last_heartbeat_at :: string
  lc_lease_seconds :: int
  lc_claim :: pydict
  lc_persisted_at :: string

record registration_row =
  rg_runtime_id :: string
  rg_runtime_type :: string
  rg_status :: string
  rg_current_run_id :: string
  rg_last_seen_at :: string
  rg_runtime :: pydict
  rg_persisted_at :: string

record history_row =
  hr_run_id :: string
  hr_status :: string
  hr_workspace_id :: string
  hr_pack_id :: string
  hr_created_at :: string
  hr_updated_at :: string
  hr_completed_at :: string
  hr_sort_ts :: int
  hr_snapshot :: pydict
  hr_persisted_at :: string

record channel_event_row =
  ce_id :: string
  ce_ts :: string
  ce_workspace_id :: string
  ce_channel :: string
  ce_direction :: string
  ce_event_type :: string
  ce_session_key :: string
  ce_run_id :: string
  ce_trace_id :: string
  ce_action :: string
  ce_sort_ts :: int
  ce_event :: pydict
  ce_persisted_at :: string

record app_state_row =
  as_state_key :: string
  as_value :: pyval
  as_updated_at :: string
  as_persisted_at :: string

record local_state =
  saved_runs :: "saved_run list"
  pending_queue :: "pending_row list"
  local_claims :: "local_claim_row list"
  registrations :: "registration_row list"
  run_history :: "history_row list"
  channel_events :: "channel_event_row list"
  app_state :: "app_state_row list"

subsection \<open>Live runs\<close>

definition saved_run_values :: "local_env \<Rightarrow> pydict \<Rightarrow> saved_run" where
  "saved_run_values L item =
     (let context = dict_of (dget item ''context''); metadata = dict_of (dget context ''metadata'');
          created_at = tok (dget item ''created_at''); updated_at = tok (dget item ''updated_at'')
      in \<lparr>sv_run_id = tok (dget item ''run_id''), sv_status = tok (dget item ''status''), sv_engine = tok (dget item ''engine''),
          sv_workspace_id = tok (por (dget item ''workspace_id'') (dget context ''workspace_id'')),
          sv_execution_target = tok (por (dget item ''execution_target'') (por (dget metadata ''execution_target_selected'')
             (dget metadata ''execution_target_requested''))),
          sv_created_at = created_at, sv_updated_at = updated_at, sv_sort_ts = parse_ts_text L (sor updated_at created_at),
          sv_run = item, sv_persisted_at = local_now_iso L\<rparr>)"

definition upsert_live_run_state :: "local_env \<Rightarrow> pydict \<Rightarrow> local_state \<Rightarrow> unit res \<times> local_state" where
  "upsert_live_run_state L item s =
     (let run_id = tok (dget item ''run_id'') in
      if run_id = [] then (Inr (), s)
      else case enforce_local_store_decision L ((local_defaults ''upsert_live_run'' ''live_runs'')\<lparr>lq_item := Some item,
          lq_run_id := Some run_id, lq_status := Some (py_str_of (por (dget item ''status'') (por (dget item ''state'') (PStr ''queued''))))\<rparr>) of
        Inl e \<Rightarrow> (Inl e, s)
      | Inr _ \<Rightarrow> (case transaction L 3 of Inl e \<Rightarrow> (Inl e, s)
          | Inr _ \<Rightarrow> (Inr (), s\<lparr>saved_runs := put_row sv_run_id (saved_run_values L item) (saved_runs s)\<rparr>)))"

definition delete_live_run_state :: "local_env \<Rightarrow> string \<Rightarrow> local_state \<Rightarrow> unit res \<times> local_state" where
  "delete_live_run_state L run_id s =
     (let token = strip run_id in
      if token = [] then (Inr (), s)
      else case transaction L 2 of Inl e \<Rightarrow> (Inl e, s)
      | Inr _ \<Rightarrow> (case row_of sv_run_id token (saved_runs s) of None \<Rightarrow> (Inr (), s)
        | Some r \<Rightarrow> (case enforce_local_store_decision L ((local_defaults ''delete_live_run'' ''live_runs'')\<lparr>lq_item := Some (sv_run r),
              lq_run_id := Some token, lq_status := Some (text_or (dget (sv_run r) ''status'') ''archived'')\<rparr>) of
            Inl e \<Rightarrow> (Inl e, s)
          | Inr _ \<Rightarrow> (case transaction L 5 of Inl e \<Rightarrow> (Inl e, s)
              | Inr _ \<Rightarrow> (Inr (), s\<lparr>saved_runs := del_rows (\<lambda>x. sv_run_id x = token) (saved_runs s)\<rparr>)))))"

definition list_live_run_states :: "local_env \<Rightarrow> int option \<Rightarrow> local_state \<Rightarrow> pydict list res" where
  "list_live_run_states L limit s =
     (case transaction L 2 of Inl e \<Rightarrow> Inl e | Inr _ \<Rightarrow> Inr (map sv_run (limited limit (order_desc sv_sort_ts (saved_runs s)))))"

subsection \<open>Replacing a table\<close>

text \<open>One driver call, and the insertions into an emptied table; \<open>Inl\<close> in the list is an exception of the values.\<close>

definition statement :: "local_env \<Rightarrow> nat \<Rightarrow> unit res" where
  "statement L k = (case fault (le_repo L) k of Some m \<Rightarrow> Inl (DriverError m) | None \<Rightarrow> Inr ())"

fun insert_rows :: "local_env \<Rightarrow> nat \<Rightarrow> string \<Rightarrow> ('r \<Rightarrow> string) \<Rightarrow> 'r res list \<Rightarrow> 'r list \<Rightarrow> (nat \<times> 'r list) res" where
  "insert_rows L k column key [] rows = Inr (k, rows)"
| "insert_rows L k column key (x # xs) rows =
     (case x of Inl e \<Rightarrow> Inl e
      | Inr r \<Rightarrow> (case statement L k of Inl e \<Rightarrow> Inl e
          | Inr _ \<Rightarrow> if row_of key (key r) rows \<noteq> None then Inl (DriverError (''UNIQUE constraint failed: '' @ column))
              else insert_rows L (k + 1) column key xs (rows @ [r])))"

text \<open>\<open>DELETE FROM table\<close> at call \<open>k\<close> and the insertions after it.\<close>

definition refill :: "local_env \<Rightarrow> nat \<Rightarrow> string \<Rightarrow> ('r \<Rightarrow> string) \<Rightarrow> 'r res list \<Rightarrow> (nat \<times> 'r list) res" where
  "refill L k column key xs = (case statement L k of Inl e \<Rightarrow> Inl e | Inr _ \<Rightarrow> insert_rows L (k + 1) column key xs [])"

subsection \<open>The checkpoint of the queue\<close>

definition pending_values :: "local_env \<Rightarrow> nat \<times> string \<Rightarrow> pending_row" where
  "pending_values L x = \<lparr>pq_run_id = strip (snd x), pq_queue_order = int (fst x), pq_queued_at = local_now_iso L,
     pq_persisted_at = local_now_iso L\<rparr>"

definition pending_rows :: "local_env \<Rightarrow> string list \<Rightarrow> pending_row list" where
  "pending_rows L ids = map (pending_values L) (filter (\<lambda>x. strip (snd x) \<noteq> []) (enumerate 0 ids))"

definition claim_values :: "local_env \<Rightarrow> string \<times> pyval \<Rightarrow> local_claim_row res" where
  "claim_values L x = (let claim = dict_of (snd x) in
     case py_int (por (dget claim ''lease_seconds'') (PInt 0)) of Inl e \<Rightarrow> Inl e
     | Inr n \<Rightarrow> Inr \<lparr>lc_run_id = strip (fst x), lc_worker_id = tok (dget claim ''worker_id''), lc_claimed_at = tok (dget claim ''claimed_at''),
         lc_last_heartbeat_at = tok (dget claim ''last_heartbeat_at''), lc_lease_seconds = n, lc_claim = claim,
         lc_persisted_at = local_now_iso L\<rparr>)"

definition registration_values :: "local_env \<Rightarrow> string \<times> pyval \<Rightarrow> registration_row" where
  "registration_values L x = (let rec = dict_of (snd x) in
     \<lparr>rg_runtime_id = strip (fst x), rg_runtime_type = tok (dget rec ''runtime_type''), rg_status = tok (dget rec ''status''),
      rg_current_run_id = tok (dget rec ''current_run_id''), rg_last_seen_at = tok (dget rec ''last_seen_at''), rg_runtime = rec,
      rg_persisted_at = local_now_iso L\<rparr>)"

text \<open>The entries of a dictionary that are written: a key that is not blank and a dictionary.\<close>

definition written :: "pydict \<Rightarrow> pydict" where
  "written d = filter (\<lambda>x. strip (fst x) \<noteq> [] \<and> is_dict (snd x)) d"

definition checkpoint_request :: "string list \<Rightarrow> pydict \<Rightarrow> pydict \<Rightarrow> local_request" where
  "checkpoint_request pending claimed registered = (local_defaults ''checkpoint_snapshot'' ''local_app_state'')\<lparr>
     lq_item := Some [(''workspace_id'', PStr ''default''), (''checkpoint_kind'', PStr ''local_runtime_state''),
       (''pending_count'', PInt (int (length pending))), (''claimed_count'', PInt (int (length claimed))),
       (''runtime_registration_count'', PInt (int (length registered)))],
     lq_status := Some ''checkpoint''\<rparr>"

definition replace_local_runtime_state ::
    "local_env \<Rightarrow> string list \<Rightarrow> pydict \<Rightarrow> pydict \<Rightarrow> local_state \<Rightarrow> unit res \<times> local_state" where
  "replace_local_runtime_state L pending claimed registered s =
     (case enforce_local_store_decision L (checkpoint_request pending claimed registered) of Inl e \<Rightarrow> (Inl e, s)
      | Inr _ \<Rightarrow> (case statement L 0 of Inl e \<Rightarrow> (Inl e, s)
      | Inr _ \<Rightarrow> (case refill L 1 ''local_pending_queue.run_id'' pq_run_id (map Inr (pending_rows L pending)) of Inl e \<Rightarrow> (Inl e, s)
      | Inr (k1, ps) \<Rightarrow> (case refill L k1 ''local_claims.run_id'' lc_run_id (map (claim_values L) (written claimed)) of Inl e \<Rightarrow> (Inl e, s)
      | Inr (k2, cs) \<Rightarrow> (case refill L k2 ''runtime_registrations.runtime_id'' rg_runtime_id
            (map (\<lambda>x. Inr (registration_values L x)) (written registered)) of Inl e \<Rightarrow> (Inl e, s)
      | Inr (k3, rs) \<Rightarrow> (case statement L k3 of Inl e \<Rightarrow> (Inl e, s)
      | Inr _ \<Rightarrow> (Inr (), s\<lparr>pending_queue := ps, local_claims := cs, registrations := rs\<rparr>)))))))"

definition loaded :: "('r \<Rightarrow> string) \<Rightarrow> ('r \<Rightarrow> pydict) \<Rightarrow> 'r list \<Rightarrow> pydict" where
  "loaded key value rows = fold (\<lambda>r d. if strip (key r) = [] then d else dset (strip (key r)) (PDict (value r)) d) rows []"

definition load_local_runtime_state :: "local_env \<Rightarrow> local_state \<Rightarrow> pydict res" where
  "load_local_runtime_state L s =
     (case transaction L 4 of Inl e \<Rightarrow> Inl e
      | Inr _ \<Rightarrow> Inr [(''pending_run_ids'', PList (map PStr (filter (\<lambda>i. i \<noteq> [])
            (map (\<lambda>r. strip (pq_run_id r)) (sort_key pq_queue_order (pending_queue s)))))),
          (''claimed_runs'', PDict (loaded lc_run_id lc_claim (local_claims s))),
          (''runtime_registrations'', PDict (loaded rg_runtime_id rg_runtime (registrations s)))])"

subsection \<open>Run history and channel events\<close>

text \<open>The pruning statement: all but the newest rows go.\<close>

definition prune :: "('r \<Rightarrow> string) \<Rightarrow> ('r \<Rightarrow> int) \<Rightarrow> int \<Rightarrow> 'r list \<Rightarrow> 'r list" where
  "prune key sort_ts limit rows =
     del_rows (\<lambda>r. key r \<notin> key ` set (limit_rows (max 1 limit) (order_desc sort_ts rows))) rows"

definition history_values :: "local_env \<Rightarrow> pydict \<Rightarrow> history_row" where
  "history_values L item =
     (let created_at = tok (dget item ''created_at''); updated_at = tok (dget item ''updated_at''); completed_at = tok (dget item ''completed_at'')
      in \<lparr>hr_run_id = tok (dget item ''run_id''), hr_status = tok (dget item ''status''), hr_workspace_id = tok (dget item ''workspace_id''),
          hr_pack_id = tok (dget item ''pack_id''), hr_created_at = created_at, hr_updated_at = updated_at, hr_completed_at = completed_at,
          hr_sort_ts = parse_ts_text L (sor updated_at (sor completed_at created_at)), hr_snapshot = item, hr_persisted_at = local_now_iso L\<rparr>)"

text \<open>The history is written without a decision of the kernel.\<close>

definition upsert_run_history_item :: "local_env \<Rightarrow> pydict \<Rightarrow> int \<Rightarrow> local_state \<Rightarrow> unit res \<times> local_state" where
  "upsert_run_history_item L item limit s =
     (if tok (dget item ''run_id'') = [] then (Inr (), s)
      else case transaction L 4 of Inl e \<Rightarrow> (Inl e, s)
      | Inr _ \<Rightarrow> (Inr (), s\<lparr>run_history := prune hr_run_id hr_sort_ts limit (put_row hr_run_id (history_values L item) (run_history s))\<rparr>))"

definition with_id :: "string \<Rightarrow> int \<Rightarrow> pydict list \<Rightarrow> pydict list" where
  "with_id k limit items = filter (\<lambda>item. tok (dget item k) \<noteq> []) (limit_rows (max 1 limit) items)"

definition replace_run_history :: "local_env \<Rightarrow> pydict list \<Rightarrow> int \<Rightarrow> local_state \<Rightarrow> unit res \<times> local_state" where
  "replace_run_history L items limit s =
     (case statement L 0 of Inl e \<Rightarrow> (Inl e, s)
      | Inr _ \<Rightarrow> (case refill L 1 ''run_history.run_id'' hr_run_id (map (\<lambda>x. Inr (history_values L x)) (with_id ''run_id'' limit items)) of
          Inl e \<Rightarrow> (Inl e, s)
        | Inr (k, rows) \<Rightarrow> (case statement L k of Inl e \<Rightarrow> (Inl e, s)
          | Inr _ \<Rightarrow> (case statement L (k + 1) of Inl e \<Rightarrow> (Inl e, s)
            | Inr _ \<Rightarrow> (Inr (), s\<lparr>run_history := prune hr_run_id hr_sort_ts limit rows\<rparr>)))))"

definition list_run_history :: "local_env \<Rightarrow> int \<Rightarrow> local_state \<Rightarrow> pydict list res" where
  "list_run_history L limit s = (case transaction L 2 of Inl e \<Rightarrow> Inl e
     | Inr _ \<Rightarrow> Inr (map hr_snapshot (limit_rows (max 1 limit) (order_desc hr_sort_ts (run_history s)))))"

definition event_values :: "local_env \<Rightarrow> pydict \<Rightarrow> channel_event_row" where
  "event_values L item =
     (let text = (\<lambda>k. tok (dget item k)); word = (\<lambda>k. lower (tok (dget item k)))
      in \<lparr>ce_id = text ''id'', ce_ts = text ''ts'', ce_workspace_id = text ''workspace_id'', ce_channel = word ''channel'',
          ce_direction = word ''direction'', ce_event_type = word ''event_type'', ce_session_key = text ''session_key'',
          ce_run_id = text ''run_id'', ce_trace_id = text ''trace_id'', ce_action = word ''action'',
          ce_sort_ts = parse_ts_text L (text ''ts''), ce_event = item, ce_persisted_at = local_now_iso L\<rparr>)"

definition append_channel_event :: "local_env \<Rightarrow> pydict \<Rightarrow> int \<Rightarrow> local_state \<Rightarrow> unit res \<times> local_state" where
  "append_channel_event L item limit s =
     (if tok (dget item ''id'') = [] then (Inr (), s)
      else case enforce_local_store_decision L ((local_defaults ''append_channel_event'' ''channel_events'')\<lparr>lq_item := Some item,
          lq_run_id := snone (tok (dget item ''run_id'')),
          lq_status := Some (sor (lower (strip (py_str_of (por (dget item ''event_type'') (por (dget item ''action'') (PStr ''event'')))))) ''event'')\<rparr>) of
        Inl e \<Rightarrow> (Inl e, s)
      | Inr _ \<Rightarrow> (case transaction L 4 of Inl e \<Rightarrow> (Inl e, s)
        | Inr _ \<Rightarrow> (Inr (), s\<lparr>channel_events := prune ce_id ce_sort_ts limit (put_row ce_id (event_values L item) (channel_events s))\<rparr>)))"

definition events_request :: "pydict list \<Rightarrow> int \<Rightarrow> local_request" where
  "events_request items limit = (let first_item = (case items of [] \<Rightarrow> [] | x # _ \<Rightarrow> x) in
     (local_defaults ''checkpoint_snapshot'' ''channel_events'')\<lparr>
     lq_item := Some [(''workspace_id'', PStr (text_or (dget first_item ''workspace_id'') ''default'')),
       (''trace_id'', PStr (tok (dget first_item ''trace_id''))), (''checkpoint_kind'', PStr ''channel_events''),
       (''checkpoint_item_count'', PInt (min (int (length items)) (max 1 limit)))],
     lq_status := Some ''checkpoint''\<rparr>)"

definition replace_channel_events :: "local_env \<Rightarrow> pydict list \<Rightarrow> int \<Rightarrow> local_state \<Rightarrow> unit res \<times> local_state" where
  "replace_channel_events L items limit s =
     (case enforce_local_store_decision L (events_request items limit) of Inl e \<Rightarrow> (Inl e, s)
      | Inr _ \<Rightarrow> (case statement L 0 of Inl e \<Rightarrow> (Inl e, s)
      | Inr _ \<Rightarrow> (case refill L 1 ''channel_events.id'' ce_id (map (\<lambda>x. Inr (event_values L x)) (with_id ''id'' limit items)) of
          Inl e \<Rightarrow> (Inl e, s)
        | Inr (k, rows) \<Rightarrow> (case statement L k of Inl e \<Rightarrow> (Inl e, s)
          | Inr _ \<Rightarrow> (case statement L (k + 1) of Inl e \<Rightarrow> (Inl e, s)
            | Inr _ \<Rightarrow> (Inr (), s\<lparr>channel_events := prune ce_id ce_sort_ts limit rows\<rparr>))))))"

definition list_channel_events :: "local_env \<Rightarrow> int \<Rightarrow> local_state \<Rightarrow> pydict list res" where
  "list_channel_events L limit s = (case transaction L 2 of Inl e \<Rightarrow> Inl e
     | Inr _ \<Rightarrow> Inr (map ce_event (limit_rows (max 1 limit) (order_desc ce_sort_ts (channel_events s)))))"

subsection \<open>Application state\<close>

definition app_state_item :: "string \<Rightarrow> pyval \<Rightarrow> pyval \<Rightarrow> pydict" where
  "app_state_item key v updated_at = [(''state_key'', PStr key), (''value'', v), (''updated_at'', updated_at)]"

definition get_local_app_state :: "local_env \<Rightarrow> string \<Rightarrow> local_state \<Rightarrow> pydict option res" where
  "get_local_app_state L state_key s =
     (let token = strip state_key in
      if token = [] then Inr None
      else case transaction L 2 of Inl e \<Rightarrow> Inl e
      | Inr _ \<Rightarrow> Inr (map_option (\<lambda>r. app_state_item token (as_value r) (opt_val (snone (strip (as_updated_at r)))))
          (row_of as_state_key token (app_state s))))"

definition put_local_app_state :: "local_env \<Rightarrow> string \<Rightarrow> pyval \<Rightarrow> string option \<Rightarrow> local_state \<Rightarrow> pydict res \<times> local_state" where
  "put_local_app_state L state_key v updated_at s =
     (let token = strip state_key; timestamp = sor (opt_tok updated_at) (local_now_iso L) in
      if token = [] then (Inl (ValueError ''state_key is required.''), s)
      else case transaction L 3 of Inl e \<Rightarrow> (Inl e, s)
      | Inr _ \<Rightarrow> (Inr (app_state_item token v (PStr timestamp)), s\<lparr>app_state := put_row as_state_key
          \<lparr>as_state_key = token, as_value = v, as_updated_at = timestamp, as_persisted_at = local_now_iso L\<rparr> (app_state s)\<rparr>))"

subsection \<open>What is replaced reads back\<close>

lemma insert_rows_Inr:
  assumes "insert_rows L k column key xs rows = Inr (k', rows')" and "keys_distinct key rows"
  shows "\<exists>rs. xs = map Inr rs \<and> rows' = rows @ rs \<and> keys_distinct key rows'"
  using assms
proof (induction xs arbitrary: k rows)
  case (Cons x xs)
  obtain r where r: "x = Inr r" "row_of key (key r) rows = None" "insert_rows L (k + 1) column key xs (rows @ [r]) = Inr (k', rows')"
    using Cons.prems(1) by (auto split: sum.splits if_splits)
  then have "keys_distinct key (rows @ [r])" using Cons.prems(2) by (auto simp: keys_distinct_def row_of_None)
  from Cons.IH [OF r(3) this] r(1) show ?case by (auto intro: exI [of _ "r # rs" for rs])
qed simp

lemma refill_Inr:
  "refill L k column key xs = Inr (k', rows) \<Longrightarrow> xs = map Inr rows \<and> keys_distinct key rows"
  by (auto simp: refill_def split: sum.splits dest!: insert_rows_Inr)

lemma map_Inr_eq: "map Inr xs = map Inr ys \<longleftrightarrow> xs = ys"
  by (simp add: inj_map_eq_map)

lemma map_Inr_comp: "map (\<lambda>x. Inr (f x)) xs = map Inr ys \<Longrightarrow> ys = map f xs"
  by (induction xs arbitrary: ys) auto

lemma sort_pending: "sort_key pq_queue_order (pending_rows L ids) = pending_rows L ids"
proof (rule sort_key_id_if_sorted)
  have "sorted (map fst (filter P (enumerate 0 ids)))" for P :: "nat \<times> string \<Rightarrow> bool"
    by (rule sorted_filter) simp
  then have "sorted (map int (map fst (filter P (enumerate 0 ids))))" for P :: "nat \<times> string \<Rightarrow> bool"
    by (simp only: sorted_map sorted_wrt_map of_nat_le_iff)
  then show "sorted (map pq_queue_order (pending_rows L ids))"
    by (simp add: pending_rows_def pending_values_def o_def)
qed

lemma pending_ids: "map (\<lambda>r. strip (pq_run_id r)) (pending_rows L ids) = filter (\<lambda>i. i \<noteq> []) (map strip ids)"
proof -
  have "map (strip \<circ> snd) (filter (\<lambda>x. strip (snd x) \<noteq> []) (enumerate n ids)) = filter (\<lambda>i. i \<noteq> []) (map strip ids)" for n
    by (induction ids arbitrary: n) auto
  then show ?thesis by (simp add: pending_rows_def pending_values_def o_def)
qed

lemma loaded_rows:
  assumes "keys_distinct key rows" and "\<And>r. r \<in> set rows \<Longrightarrow> strip (key r) = key r \<and> key r \<noteq> []"
  shows "loaded key f rows = map (\<lambda>r. (key r, PDict (f r))) rows"
proof -
  have "fold (\<lambda>r d. if strip (key r) = [] then d else dset (strip (key r)) (PDict (f r)) d) rows d = d @ map (\<lambda>r. (key r, PDict (f r))) rows"
    if "fst ` set d \<inter> key ` set rows = {}" for d
    using assms that
  proof (induction rows arbitrary: d)
    case (Cons r rows)
    have new: "dset (key r) (PDict (f r)) d = d @ [(key r, PDict (f r))]" using Cons.prems(3) by (intro dset_new) auto
    have "keys_distinct key rows" "fst ` set (d @ [(key r, PDict (f r))]) \<inter> key ` set rows = {}"
      using Cons.prems(1,3) by (auto simp: keys_distinct_def)
    from Cons.IH [OF this(1) _ this(2)] Cons.prems(2) show ?case by (simp add: new)
  qed simp
  from this [of "[]"] show ?thesis by (simp add: loaded_def)
qed

definition tidy :: "pydict \<Rightarrow> pydict" where
  "tidy d = map (\<lambda>x. (strip (fst x), snd x)) (written d)"

lemma written_facts: "x \<in> set (written d) \<Longrightarrow> strip (fst x) \<noteq> [] \<and> PDict (dict_of (snd x)) = snd x"
  by (cases "snd x") (auto simp: written_def)

lemma loaded_registrations:
  assumes "keys_distinct rg_runtime_id (map (registration_values L) (written d))"
  shows "loaded rg_runtime_id rg_runtime (map (registration_values L) (written d)) = tidy d"
  by (subst loaded_rows [OF assms])
    (auto simp: registration_values_def Let_def tidy_def dest: written_facts)

lemma claim_values_Inr: "claim_values L x = Inr r \<Longrightarrow> lc_run_id r = strip (fst x) \<and> lc_claim r = dict_of (snd x)"
  by (auto simp: claim_values_def Let_def split: sum.splits)

lemma loaded_claims:
  assumes "map (claim_values L) (written d) = map Inr rows" and "keys_distinct lc_run_id rows"
  shows "loaded lc_run_id lc_claim rows = tidy d"
proof -
  have len: "length rows = length (written d)" using assms(1) by (metis length_map)
  have nth: "lc_run_id (rows ! n) = strip (fst (written d ! n)) \<and> lc_claim (rows ! n) = dict_of (snd (written d ! n))"
    if "n < length rows" for n
    using arg_cong [OF assms(1), of "\<lambda>l. l ! n"] that len by (intro claim_values_Inr [of L]) simp
  have "strip (lc_run_id r) = lc_run_id r \<and> lc_run_id r \<noteq> []" if "r \<in> set rows" for r
    using that nth len written_facts by (metis in_set_conv_nth nth_mem strip_strip)
  from loaded_rows [OF assms(2) this] have "loaded lc_run_id lc_claim rows = map (\<lambda>r. (lc_run_id r, PDict (lc_claim r))) rows" .
  also have "\<dots> = tidy d" unfolding tidy_def
    by (rule nth_equalityI) (use len nth written_facts [OF nth_mem] in auto)
  finally show ?thesis .
qed

text \<open>
  C23. The checkpoint of the queue is written as a whole and reads back. A replacement that fails, whatever
  statement it fails at, leaves the file as it was; after one that succeeds a load gives the pending run ids
  in their order, and the claims and registrations under their ids, all without the blank ids and the
  entries that are no dictionaries.
\<close>

theorem checkpoint_round_trip:
  assumes "store_ok L'"
  shows "case replace_local_runtime_state L pending claimed registered s of
      (Inl e, s') \<Rightarrow> s' = s
    | (Inr _, s') \<Rightarrow> load_local_runtime_state L' s' = Inr
        [(''pending_run_ids'', PList (map PStr (filter (\<lambda>i. i \<noteq> []) (map strip pending)))),
         (''claimed_runs'', PDict (tidy claimed)), (''runtime_registrations'', PDict (tidy registered))]"
proof -
  have "load_local_runtime_state L' (s\<lparr>pending_queue := ps, local_claims := cs, registrations := rs\<rparr>) = Inr
      [(''pending_run_ids'', PList (map PStr (filter (\<lambda>i. i \<noteq> []) (map strip pending)))),
       (''claimed_runs'', PDict (tidy claimed)), (''runtime_registrations'', PDict (tidy registered))]"
    if "refill L 1 ''local_pending_queue.run_id'' pq_run_id (map Inr (pending_rows L pending)) = Inr (k1, ps)"
      "refill L k1 ''local_claims.run_id'' lc_run_id (map (claim_values L) (written claimed)) = Inr (k2, cs)"
      "refill L k2 ''runtime_registrations.runtime_id'' rg_runtime_id (map (\<lambda>x. Inr (registration_values L x)) (written registered)) = Inr (k3, rs)"
    for k1 ps k2 cs k3 rs
  proof -
    have ps: "ps = pending_rows L pending" using refill_Inr [OF that(1)] by (simp add: map_Inr_eq)
    have rs: "rs = map (registration_values L) (written registered)" "keys_distinct rg_runtime_id rs"
      using refill_Inr [OF that(3)] by (auto dest: map_Inr_comp)
    have "loaded lc_run_id lc_claim cs = tidy claimed" using refill_Inr [OF that(2)] by (intro loaded_claims [of L]) simp_all
    moreover have "loaded rg_runtime_id rg_runtime rs = tidy registered" using loaded_registrations [of L registered] rs by simp
    moreover have "map (\<lambda>r. strip (pq_run_id r)) (sort_key pq_queue_order ps) = filter (\<lambda>i. i \<noteq> []) (map strip pending)"
      by (simp add: ps sort_pending pending_ids)
    ultimately show ?thesis using assms by (simp add: load_local_runtime_state_def)
  qed
  then show ?thesis unfolding replace_local_runtime_state_def by (simp split: sum.splits)
qed

subsection \<open>What the pruning keeps\<close>

lemma prune_rows:
  assumes "keys_distinct key rows"
  shows "set (prune key f limit rows) = set (limit_rows (max 1 limit) (order_desc f rows))"
    and "length (prune key f limit rows) = min (length rows) (nat (max 1 limit))"
    and "keys_distinct key (prune key f limit rows)"
proof -
  let ?top = "limit_rows (max 1 limit) (order_desc f rows)"
  have sub: "set ?top \<subseteq> set rows" by (auto simp: limit_rows_def order_desc_def dest: in_set_takeD)
  have inj: "inj_on key (set rows)" using assms by (simp add: keys_distinct_def distinct_map)
  show eq: "set (prune key f limit rows) = set ?top"
    using sub inj by (auto simp: prune_def del_rows_def dest: inj_onD)
  have d: "distinct rows" using assms by (simp add: keys_distinct_def distinct_map)
  then have "distinct (prune key f limit rows)" "distinct ?top"
    by (simp_all add: prune_def del_rows_def limit_rows_def order_desc_def)
  with eq have "length (prune key f limit rows) = length ?top" by (metis distinct_card)
  then show "length (prune key f limit rows) = min (length rows) (nat (max 1 limit))"
    by (simp add: limit_rows_def order_desc_def min.commute)
  show "keys_distinct key (prune key f limit rows)" using assms by (simp add: prune_def keys_distinct_del)
qed

lemma prune_newest:
  assumes "keys_distinct key rows" and "r \<in> set (prune key f limit rows)" and "x \<in> set rows" and "x \<notin> set (prune key f limit rows)"
  shows "f x \<le> f r"
proof -
  have "sorted (map (\<lambda>r. - f r) (order_desc f rows))" by (simp add: order_desc_def)
  from take_sorted_le [OF this, of r "nat (max 1 limit)" x] assms prune_rows(1) [OF assms(1), of f limit]
  show ?thesis by (simp add: limit_rows_def order_desc_def)
qed

text \<open>
  C24. The log of channel events is bounded and keeps the newest. After an event was appended the log holds
  as many events as the limit allows, at least one, and none it dropped is newer than one it kept; an older
  event that is appended to a full log may be the one that goes.
\<close>

theorem event_log_keeps_newest:
  assumes "append_channel_event L item limit s = (Inr (), s')" and "tok (dget item ''id'') \<noteq> []" and "keys_distinct ce_id (channel_events s)"
    and "all = put_row ce_id (event_values L item) (channel_events s)"
  shows "length (channel_events s') = min (length all) (nat (max 1 limit)) \<and> set (channel_events s') \<subseteq> set all
    \<and> (\<forall>r \<in> set (channel_events s'). \<forall>x \<in> set all - set (channel_events s'). ce_sort_ts x \<le> ce_sort_ts r)"
proof -
  have d: "keys_distinct ce_id all" using assms(3,4) by simp
  have s': "channel_events s' = prune ce_id ce_sort_ts limit all"
    using assms(1,2) unfolding assms(4) by (auto simp: append_channel_event_def Let_def split: sum.splits)
  have "set (prune ce_id ce_sort_ts limit all) \<subseteq> set all" by (auto simp: prune_def del_rows_def)
  then show ?thesis unfolding s' using prune_rows(2) [OF d] prune_newest [OF d] by auto
qed

subsection \<open>Histories\<close>

datatype local_op =
    OpLiveRun local_env pydict
  | OpDropRun local_env string
  | OpCheckpoint local_env "string list" pydict pydict
  | OpHistory local_env pydict int
  | OpReplaceHistory local_env "pydict list" int
  | OpEvent local_env pydict int
  | OpReplaceEvents local_env "pydict list" int
  | OpAppState local_env string pyval "string option"

fun local_step :: "local_op \<Rightarrow> local_state \<Rightarrow> local_state" where
  "local_step (OpLiveRun L item) s = snd (upsert_live_run_state L item s)"
| "local_step (OpDropRun L i) s = snd (delete_live_run_state L i s)"
| "local_step (OpCheckpoint L p c r) s = snd (replace_local_runtime_state L p c r s)"
| "local_step (OpHistory L item n) s = snd (upsert_run_history_item L item n s)"
| "local_step (OpReplaceHistory L items n) s = snd (replace_run_history L items n s)"
| "local_step (OpEvent L item n) s = snd (append_channel_event L item n s)"
| "local_step (OpReplaceEvents L items n) s = snd (replace_channel_events L items n s)"
| "local_step (OpAppState L k v t) s = snd (put_local_app_state L k v t s)"

text \<open>The limits the writers of the two pruned tables pass.\<close>

fun within_limit :: "int \<Rightarrow> local_op \<Rightarrow> bool" where
  "within_limit n (OpHistory L item k) = (k \<le> n)"
| "within_limit n (OpReplaceHistory L items k) = (k \<le> n)"
| "within_limit n (OpEvent L item k) = (k \<le> n)"
| "within_limit n (OpReplaceEvents L items k) = (k \<le> n)"
| "within_limit n op = True"

definition local_wf :: "int \<Rightarrow> local_state \<Rightarrow> bool" where
  "local_wf n s \<longleftrightarrow> keys_distinct sv_run_id (saved_runs s) \<and> keys_distinct pq_run_id (pending_queue s)
     \<and> keys_distinct lc_run_id (local_claims s) \<and> keys_distinct rg_runtime_id (registrations s)
     \<and> keys_distinct hr_run_id (run_history s) \<and> keys_distinct ce_id (channel_events s) \<and> keys_distinct as_state_key (app_state s)
     \<and> int (length (run_history s)) \<le> max 1 n \<and> int (length (channel_events s)) \<le> max 1 n"

lemma prune_bound: "keys_distinct key rows \<Longrightarrow> k \<le> n \<Longrightarrow> int (length (prune key f k rows)) \<le> max 1 n"
  by (simp add: prune_rows)

lemmas local_wf_simps = local_wf_def prune_bound prune_rows(3) keys_distinct_del

lemma local_step_wf: "local_wf n s \<Longrightarrow> within_limit n op \<Longrightarrow> local_wf n (local_step op s)"
proof (cases op)
  case (OpCheckpoint L p c r)
  then show "local_wf n s \<Longrightarrow> within_limit n op \<Longrightarrow> ?thesis"
    by (auto simp: replace_local_runtime_state_def local_wf_def split: sum.splits dest!: refill_Inr)
next
  case (OpReplaceHistory L items k)
  then show "local_wf n s \<Longrightarrow> within_limit n op \<Longrightarrow> ?thesis"
    by (auto simp: replace_run_history_def local_wf_simps split: sum.splits dest!: refill_Inr)
next
  case (OpReplaceEvents L items k)
  then show "local_wf n s \<Longrightarrow> within_limit n op \<Longrightarrow> ?thesis"
    by (auto simp: replace_channel_events_def local_wf_simps split: sum.splits dest!: refill_Inr)
qed (auto simp: upsert_live_run_state_def delete_live_run_state_def upsert_run_history_item_def append_channel_event_def
  put_local_app_state_def Let_def local_wf_simps split: sum.splits option.splits)

theorem local_state_wf:
  assumes "local_wf n s" and "\<forall>op \<in> set ops. within_limit n op" shows "local_wf n (fold local_step ops s)"
  using assms by (induction ops arbitrary: s) (simp_all add: local_step_wf)

subsection \<open>Concrete states\<close>

definition empty_state :: local_state where
  "empty_state = \<lparr>saved_runs = [], pending_queue = [], local_claims = [], registrations = [], run_history = [], channel_events = [],
     app_state = []\<rparr>"

lemma demo_local_ok: "store_ok demo_local"
  using demo_local_open by simp

theorem checkpoint_round_trip_witness:
  "\<exists>s'. replace_local_runtime_state demo_local [''r1'', []] [(''r2'', PDict [(''worker_id'', PStr ''w'')])] [] empty_state = (Inr (), s')
    \<and> load_local_runtime_state demo_local s' = Inr [(''pending_run_ids'', PList [PStr ''r1'']),
        (''claimed_runs'', PDict [(''r2'', PDict [(''worker_id'', PStr ''w'')])]), (''runtime_registrations'', PDict [])]"
proof -
  let ?c = "[(''r2'', PDict [(''worker_id'', PStr ''w'')])]"
  let ?go = "replace_local_runtime_state demo_local [''r1'', []] ?c [] empty_state"
  have strip: "strip ''r1'' = ''r1''" "strip ''r2'' = ''r2''" by (simp_all add: strip_def py_space_def)
  obtain d where gate: "enforce_local_store_decision demo_local (checkpoint_request [''r1'', []] ?c []) = Inr d"
    using store_gate_open [OF demo_local_open, of "checkpoint_request [''r1'', []] ?c []"] by (auto simp: checkpoint_request_def local_next_actions_def)
  have ok: "statement demo_local k = Inr ()" for k using demo_local_ok by (simp add: statement_def store_ok_def)
  have "por (dget [(''worker_id'', PStr ''w'')] ''lease_seconds'') (PInt 0) = PInt 0" by (simp add: por_def)
  then have "fst ?go = Inr ()"
    by (simp add: replace_local_runtime_state_def gate ok refill_def pending_rows_def pending_values_def written_def claim_values_def Let_def strip)
  then obtain s' where go: "?go = (Inr (), s')" by (metis prod.collapse)
  with checkpoint_round_trip [where L = demo_local and pending = "[''r1'', []]" and claimed = ?c and registered = "[]" and s = empty_state, OF demo_local_ok] show ?thesis
    by (simp add: tidy_def written_def strip)
qed

definition demo_channel_event :: pydict where
  "demo_channel_event = [(''id'', PStr ''e'')]"

theorem event_log_keeps_newest_witness:
  "\<exists>s'. append_channel_event demo_local demo_channel_event 5 empty_state = (Inr (), s') \<and> length (channel_events s') = 1"
proof -
  have id: "tok (dget demo_channel_event ''id'') \<noteq> []" by (simp add: demo_channel_event_def strip_def py_space_def)
  define r where "r = (local_defaults ''append_channel_event'' ''channel_events'')\<lparr>lq_item := Some demo_channel_event,
    lq_run_id := snone (tok (dget demo_channel_event ''run_id'')), lq_status := Some (sor (lower (strip (py_str_of
      (por (dget demo_channel_event ''event_type'') (por (dget demo_channel_event ''action'') (PStr ''event'')))))) ''event'')\<rparr>"
  obtain d where "enforce_local_store_decision demo_local r = Inr d"
    using store_gate_open [OF demo_local_open, of r] by (auto simp: r_def local_next_actions_def)
  then obtain s' where go: "append_channel_event demo_local demo_channel_event 5 empty_state = (Inr (), s')"
    using id demo_local_ok unfolding append_channel_event_def r_def [symmetric] by simp
  from event_log_keeps_newest [OF go id _ refl] go show ?thesis by (auto simp: empty_state_def)
qed

theorem local_state_wf_witness:
  "local_wf 3 (fold local_step [OpEvent demo_local demo_channel_event 3, OpHistory demo_local [] 2] empty_state)"
  by (rule local_state_wf) (simp_all add: local_wf_def empty_state_def)

end
