(* ===== verification/Notifications.thy ===== *)
theory Notifications
  imports Local_State
begin

text \<open>
  The notifications of the local SQLite store (\<open>runtime_state_store.py\<close>): the notifications with the marks of
  their readers, the devices they are pushed to and the deliveries, and the summary by session.
\<close>

subsection \<open>Tables\<close>

record notification_row =
  nt_id :: string
  nt_tenant_id :: string
  nt_workspace_id :: string
  nt_session_key :: string
  nt_session_id :: string
  nt_channel :: string
  nt_direction :: string
  nt_event_type :: string
  nt_run_id :: string
  nt_machine_id :: string
  nt_trace_id :: string
  nt_action :: string
  nt_title :: "string option"
  nt_text :: string
  nt_sort_ts :: int
  nt_notification :: pydict
  nt_created_at :: string
  nt_persisted_at :: string

record read_row =
  rd_notification_id :: string
  rd_reader_key :: string
  rd_tenant_id :: string
  rd_workspace_id :: string
  rd_read_at :: string
  rd_persisted_at :: string

record device_row =
  dv_device_id :: string
  dv_tenant_id :: string
  dv_workspace_id :: string
  dv_reader_key :: string
  dv_provider :: string
  dv_push_token :: string
  dv_platform :: "string option"
  dv_app_id :: "string option"
  dv_device_name :: "string option"
  dv_status :: string
  dv_capabilities :: "pyval list"
  dv_device :: pydict
  dv_last_registered_at :: string
  dv_last_delivered_at :: "string option"
  dv_last_error :: "string option"
  dv_persisted_at :: string

record delivery_row =
  dl_notification_id :: string
  dl_device_id :: string
  dl_status :: string
  dl_delivered_at :: "string option"
  dl_last_error :: "string option"
  dl_persisted_at :: string

record notification_db =
  notices :: "notification_row list"
  reads :: "read_row list"
  devices :: "device_row list"
  deliveries :: "delivery_row list"

definition read_key :: "read_row \<Rightarrow> string \<times> string" where
  "read_key r = (rd_notification_id r, rd_reader_key r)"

definition delivery_key :: "delivery_row \<Rightarrow> string \<times> string" where
  "delivery_key r = (dl_notification_id r, dl_device_id r)"

subsection \<open>Notifications\<close>

text \<open>An entry of a payload, or the column when the payload has none.\<close>

definition fill :: "string \<Rightarrow> string \<Rightarrow> pydict \<Rightarrow> pydict" where
  "fill k column d = dset k (PStr (tok (por (dget d k) (PStr column)))) d"

definition fill_word :: "string \<Rightarrow> string \<Rightarrow> pydict \<Rightarrow> pydict" where
  "fill_word k column d = dset k (PStr (lower (tok (por (dget d k) (PStr column))))) d"

definition fill_opt :: "string \<Rightarrow> string option \<Rightarrow> pydict \<Rightarrow> pydict" where
  "fill_opt k column d = dset k (opt_val (snone (tok (por (dget d k) (opt_val column))))) d"

definition read_at_of :: "string \<Rightarrow> string \<Rightarrow> notification_db \<Rightarrow> string option" where
  "read_at_of reader i s = map_option rd_read_at (row_of read_key (i, reader) (reads s))"

definition notification_item :: "string option \<Rightarrow> notification_row \<Rightarrow> pydict" where
  "notification_item read_at r =
     dset ''read_at'' (opt_val (snone (opt_tok read_at)))
      (fill ''text'' (nt_text r) (fill_opt ''title'' (nt_title r) (fill_word ''action'' (nt_action r) (fill ''trace_id'' (nt_trace_id r)
      (fill ''machine_id'' (nt_machine_id r) (fill ''run_id'' (nt_run_id r) (fill_word ''event_type'' (nt_event_type r)
      (fill_word ''direction'' (nt_direction r) (fill_word ''channel'' (nt_channel r) (fill ''session_id'' (nt_session_id r)
      (fill ''session_key'' (nt_session_key r) (fill ''workspace_id'' (nt_workspace_id r) (fill ''tenant_id'' (nt_tenant_id r)
      (fill ''ts'' (nt_created_at r) (fill ''id'' (nt_id r) (nt_notification r))))))))))))))))"

definition notification_values :: "local_env \<Rightarrow> pydict \<Rightarrow> notification_row" where
  "notification_values L item =
     (let text = (\<lambda>k. tok (dget item k)); word = (\<lambda>k. lower (tok (dget item k)));
          created_at = sor (tok (por (dget item ''ts'') (dget item ''created_at''))) (local_now_iso L)
      in \<lparr>nt_id = text ''id'', nt_tenant_id = text ''tenant_id'', nt_workspace_id = text ''workspace_id'', nt_session_key = text ''session_key'',
          nt_session_id = text ''session_id'', nt_channel = word ''channel'', nt_direction = word ''direction'',
          nt_event_type = word ''event_type'', nt_run_id = text ''run_id'', nt_machine_id = text ''machine_id'', nt_trace_id = text ''trace_id'',
          nt_action = word ''action'', nt_title = snone (text ''title''), nt_text = py_str_of (por (dget item ''text'') (PStr [])),
          nt_sort_ts = parse_ts_text L created_at, nt_notification = item, nt_created_at = created_at, nt_persisted_at = local_now_iso L\<rparr>)"

definition upsert_notification :: "local_env \<Rightarrow> pydict \<Rightarrow> notification_db \<Rightarrow> unit res \<times> notification_db" where
  "upsert_notification L item s =
     (if tok (dget item ''id'') = [] then (Inr (), s)
      else case enforce_local_store_decision L ((local_defaults ''upsert_notification'' ''notifications'')\<lparr>lq_item := Some item,
          lq_notification_id := Some (tok (dget item ''id'')),
          lq_status := Some (sor (lower (strip (py_str_of (por (dget item ''event_type'') (por (dget item ''status'') (PStr ''notification''))))))
             ''notification'')\<rparr>) of
        Inl e \<Rightarrow> (Inl e, s)
      | Inr _ \<Rightarrow> (case transaction L 3 of Inl e \<Rightarrow> (Inl e, s)
        | Inr _ \<Rightarrow> (Inr (), s\<lparr>notices := put_row nt_id (notification_values L item) (notices s)\<rparr>)))"

record notification_query =
  nq_reader_key :: string
  nq_tenant_id :: string
  nq_workspace_id :: string
  nq_channel :: string
  nq_session_key :: string
  nq_direction :: string
  nq_action :: string
  nq_run_id :: string
  nq_trace_id :: string
  nq_limit :: int

definition wants :: "string \<Rightarrow> string \<Rightarrow> bool" where
  "wants given column = (strip given = [] \<or> column = strip given)"

definition wants_word :: "string \<Rightarrow> string \<Rightarrow> bool" where
  "wants_word given column = (strip given = [] \<or> column = lower (strip given))"

definition queried :: "notification_query \<Rightarrow> notification_row \<Rightarrow> bool" where
  "queried q r = (wants (nq_tenant_id q) (nt_tenant_id r) \<and> wants (nq_workspace_id q) (nt_workspace_id r)
     \<and> wants_word (nq_channel q) (nt_channel r) \<and> wants (nq_session_key q) (nt_session_key r)
     \<and> wants_word (nq_direction q) (nt_direction r) \<and> wants_word (nq_action q) (nt_action r)
     \<and> wants (nq_run_id q) (nt_run_id r) \<and> wants (nq_trace_id q) (nt_trace_id r))"

definition newest_queried :: "notification_query \<Rightarrow> notification_db \<Rightarrow> notification_row list" where
  "newest_queried q s = limit_rows (max 1 (nq_limit q)) (order_desc nt_sort_ts (filter (queried q) (notices s)))"

definition with_reader :: "string \<Rightarrow> notification_db \<Rightarrow> notification_row \<Rightarrow> pydict" where
  "with_reader reader s r = notification_item (read_at_of reader (nt_id r) s) r"

definition list_notifications :: "local_env \<Rightarrow> notification_query \<Rightarrow> notification_db \<Rightarrow> pydict list res" where
  "list_notifications L q s = (case transaction L 2 of Inl e \<Rightarrow> Inl e
     | Inr _ \<Rightarrow> Inr (map (with_reader (strip (nq_reader_key q)) s) (newest_queried q s)))"

definition list_notifications_by_ids :: "local_env \<Rightarrow> string \<Rightarrow> string list \<Rightarrow> notification_db \<Rightarrow> pydict list res" where
  "list_notifications_by_ids L reader_key notification_ids s =
     (let normalized = filter (\<lambda>i. i \<noteq> []) (map strip notification_ids) in
      if normalized = [] then Inr []
      else case transaction L 2 of Inl e \<Rightarrow> Inl e
      | Inr _ \<Rightarrow> Inr (map (with_reader (strip reader_key) s) (order_desc nt_sort_ts (filter (\<lambda>r. nt_id r \<in> set normalized) (notices s)))))"

subsection \<open>The summary by session\<close>

definition summary_key :: "pydict \<Rightarrow> string" where
  "summary_key item =
     (let run = tok (dget item ''run_id''); machine = tok (dget item ''machine_id'') in
      sor (tok (dget item ''session_key'')) (if run \<noteq> [] then ''run:'' @ run else if machine \<noteq> [] then ''machine:'' @ machine else []))"

definition fresh_summary :: "pydict \<Rightarrow> pydict" where
  "fresh_summary item =
     [(''session_key'', PStr (summary_key item)), (''workspace_id'', PStr (tok (dget item ''workspace_id''))),
      (''run_id'', opt_val (snone (tok (dget item ''run_id'')))), (''machine_id'', opt_val (snone (tok (dget item ''machine_id'')))),
      (''latest_text'', PStr (tok (dget item ''text''))), (''latest_action'', opt_val (snone (tok (dget item ''action'')))),
      (''latest_ts'', opt_val (snone (tok (dget item ''ts'')))), (''count'', PInt 0), (''unread_count'', PInt 0)]"

definition is_unread :: "pydict \<Rightarrow> bool" where
  "is_unread item = (tok (dget item ''read_at'') = [])"

text \<open>The counters are integers the function itself wrote.\<close>

definition counted_up :: "string \<Rightarrow> pydict \<Rightarrow> pydict" where
  "counted_up k d = dset k (PInt ((case dget d k of PInt n \<Rightarrow> n | _ \<Rightarrow> 0) + 1)) d"

fun summarize :: "pydict list \<Rightarrow> (string \<times> pydict) list \<Rightarrow> (string \<times> pydict) list" where
  "summarize [] seen = seen"
| "summarize (item # items) seen =
     (let key = summary_key item in
      if key = [] then summarize items seen
      else (let entry = counted_up ''count'' (case map_of seen key of None \<Rightarrow> fresh_summary item | Some d \<Rightarrow> d)
            in summarize items (AList.update key (if is_unread item then counted_up ''unread_count'' entry else entry) seen)))"

definition summarize_notification_sessions :: "pydict list \<Rightarrow> int option \<Rightarrow> pydict list" where
  "summarize_notification_sessions items limit = limited limit (map snd (summarize items []))"

subsection \<open>Marking as read\<close>

text \<open>The ids in the order of their first occurrence.\<close>

definition first_seen :: "string list \<Rightarrow> string list" where
  "first_seen xs = rev (remdups (rev xs))"

definition read_request :: "string \<Rightarrow> string \<Rightarrow> string \<Rightarrow> string \<Rightarrow> local_request" where
  "read_request reader tenant_id workspace_id i = (local_defaults ''mark_notification_read'' ''notifications'')\<lparr>
     lq_notification_id := Some i, lq_actor_id := Some reader,
     lq_item := Some [(''tenant_id'', PStr (strip tenant_id)), (''workspace_id'', PStr (strip workspace_id)), (''reader_key'', PStr reader)],
     lq_status := Some ''read''\<rparr>"

fun read_gates :: "local_env \<Rightarrow> string \<Rightarrow> string \<Rightarrow> string \<Rightarrow> string list \<Rightarrow> unit res" where
  "read_gates L reader tenant_id workspace_id [] = Inr ()"
| "read_gates L reader tenant_id workspace_id (i # ids) =
     (case enforce_local_store_decision L (read_request reader tenant_id workspace_id i) of
        Inl e \<Rightarrow> Inl e | Inr _ \<Rightarrow> read_gates L reader tenant_id workspace_id ids)"

definition read_values :: "local_env \<Rightarrow> string \<Rightarrow> string \<Rightarrow> notification_row \<Rightarrow> read_row" where
  "read_values L reader read_at r = \<lparr>rd_notification_id = nt_id r, rd_reader_key = reader, rd_tenant_id = strip (nt_tenant_id r),
     rd_workspace_id = strip (nt_workspace_id r), rd_read_at = read_at, rd_persisted_at = local_now_iso L\<rparr>"

fun mark_rows :: "local_env \<Rightarrow> nat \<Rightarrow> string \<Rightarrow> string list \<Rightarrow> notification_db \<Rightarrow> (nat \<times> notification_db) res" where
  "mark_rows L k reader [] s = Inr (k, s)"
| "mark_rows L k reader (i # ids) s =
     (case statement L k of Inl e \<Rightarrow> Inl e
      | Inr _ \<Rightarrow> (case row_of nt_id i (notices s) of None \<Rightarrow> mark_rows L (k + 1) reader ids s
        | Some r \<Rightarrow> (case statement L (k + 1) of Inl e \<Rightarrow> Inl e
          | Inr _ \<Rightarrow> mark_rows L (k + 2) reader ids (s\<lparr>reads := put_row read_key (read_values L reader (local_now_iso L) r) (reads s)\<rparr>))))"

definition mark_report :: "string list \<Rightarrow> string option \<Rightarrow> pydict" where
  "mark_report ids read_at = [(''marked_count'', PInt (int (length ids))), (''marked_ids'', PList (map PStr ids)), (''read_at'', opt_val read_at)]"

definition all_query :: "string \<Rightarrow> string \<Rightarrow> string \<Rightarrow> notification_query" where
  "all_query reader tenant_id workspace_id = \<lparr>nq_reader_key = reader, nq_tenant_id = tenant_id, nq_workspace_id = workspace_id,
     nq_channel = [], nq_session_key = [], nq_direction = [], nq_action = [], nq_run_id = [], nq_trace_id = [], nq_limit = 500\<rparr>"

definition read_targets :: "local_env \<Rightarrow> string \<Rightarrow> string list \<Rightarrow> string \<Rightarrow> string \<Rightarrow> bool \<Rightarrow> notification_db \<Rightarrow> string list res" where
  "read_targets L reader notification_ids tenant_id workspace_id mark_all s =
     (if mark_all then (case list_notifications L (all_query reader tenant_id workspace_id) s of Inl e \<Rightarrow> Inl e
        | Inr items \<Rightarrow> Inr (filter (\<lambda>i. i \<noteq> []) (map (\<lambda>item. tok (dget item ''id'')) items)))
      else Inr (filter (\<lambda>i. i \<noteq> []) (map strip notification_ids)))"

text \<open>Two connections: the calls of the second are counted on from those of the first.\<close>

definition mark_notifications_read ::
    "local_env \<Rightarrow> string \<Rightarrow> string list \<Rightarrow> string \<Rightarrow> string \<Rightarrow> bool \<Rightarrow> notification_db \<Rightarrow> pydict res \<times> notification_db" where
  "mark_notifications_read L reader_key notification_ids tenant_id workspace_id mark_all s =
     (let reader = strip reader_key; k = (if mark_all then 2 else 0) in
      if reader = [] then (Inr (mark_report [] None), s)
      else case read_targets L reader notification_ids tenant_id workspace_id mark_all s of Inl e \<Rightarrow> (Inl e, s)
      | Inr targets \<Rightarrow> (let ids = first_seen targets in
          if ids = [] then (Inr (mark_report [] None), s)
          else case read_gates L reader tenant_id workspace_id ids of Inl e \<Rightarrow> (Inl e, s)
          | Inr _ \<Rightarrow> (case statement L k of Inl e \<Rightarrow> (Inl e, s)
            | Inr _ \<Rightarrow> (case mark_rows L (k + 1) reader ids s of Inl e \<Rightarrow> (Inl e, s)
              | Inr (k', s') \<Rightarrow> (case statement L k' of Inl e \<Rightarrow> (Inl e, s)
                | Inr _ \<Rightarrow> (Inr (mark_report ids (Some (local_now_iso L))), s'))))))"

subsection \<open>Devices and deliveries\<close>

definition device_item :: "device_row \<Rightarrow> pydict" where
  "device_item r =
     (let d = fill ''push_token'' (dv_push_token r) (fill_word ''provider'' (dv_provider r) (fill ''reader_key'' (dv_reader_key r)
                (fill ''workspace_id'' (dv_workspace_id r) (fill ''tenant_id'' (dv_tenant_id r) (fill ''device_id'' (dv_device_id r) (dv_device r))))));
          d = dset ''platform'' (opt_val (snone (lower (tok (por (dget d ''platform'') (opt_val (dv_platform r))))))) d;
          d = fill_opt ''device_name'' (dv_device_name r) (fill_opt ''app_id'' (dv_app_id r) d);
          d = dset ''status'' (PStr (sor (lower (tok (por (dget d ''status'') (PStr (dv_status r))))) ''active'')) d
      in dset ''capabilities'' (PList (dv_capabilities r)) (fill_opt ''last_error'' (dv_last_error r)
           (fill_opt ''last_delivered_at'' (dv_last_delivered_at r) (fill ''last_registered_at'' (dv_last_registered_at r) d))))"

definition list_entry :: "pyval \<Rightarrow> pyval list" where
  "list_entry v = (case v of PList xs \<Rightarrow> xs | _ \<Rightarrow> [])"

definition device_payload :: "local_env \<Rightarrow> pydict \<Rightarrow> pydict" where
  "device_payload L item =
     dset ''last_registered_at'' (PStr (sor (tok (por (dget item ''last_registered_at'') (dget item ''registered_at''))) (local_now_iso L)))
      (dset ''status'' (PStr (sor (lower (strip (py_str_of (por (dget item ''status'') (PStr ''active''))))) ''active''))
      (dset ''provider'' (PStr (sor (lower (strip (py_str_of (por (dget item ''provider'') (PStr ''expo''))))) ''expo''))
      (dset ''push_token'' (PStr (tok (dget item ''push_token''))) (dset ''device_id'' (PStr (tok (dget item ''device_id''))) item))))"

definition device_values :: "local_env \<Rightarrow> pydict \<Rightarrow> device_row" where
  "device_values L item =
     (let payload = device_payload L item; text = (\<lambda>k. tok (dget item k))
      in \<lparr>dv_device_id = text ''device_id'', dv_tenant_id = text ''tenant_id'', dv_workspace_id = text ''workspace_id'',
          dv_reader_key = text ''reader_key'', dv_provider = tok (dget payload ''provider''), dv_push_token = text ''push_token'',
          dv_platform = snone (lower (text ''platform'')), dv_app_id = snone (text ''app_id''), dv_device_name = snone (text ''device_name''),
          dv_status = sor (lower (tok (dget payload ''status''))) ''active'', dv_capabilities = list_entry (dget item ''capabilities''),
          dv_device = payload, dv_last_registered_at = tok (dget payload ''last_registered_at''),
          dv_last_delivered_at = snone (text ''last_delivered_at''), dv_last_error = snone (text ''last_error''),
          dv_persisted_at = local_now_iso L\<rparr>)"

definition upsert_notification_device :: "local_env \<Rightarrow> pydict \<Rightarrow> notification_db \<Rightarrow> pydict res \<times> notification_db" where
  "upsert_notification_device L item s =
     (let device_id = tok (dget item ''device_id''); payload = device_payload L item in
      if device_id = [] \<or> tok (dget item ''push_token'') = [] then (Inr [], s)
      else case enforce_local_store_decision L ((local_defaults ''register_notification_device'' ''notification_devices'')\<lparr>
          lq_item := Some payload, lq_device_id := Some device_id, lq_status := Some (sor (lower (tok (dget payload ''status''))) ''active'')\<rparr>) of
        Inl e \<Rightarrow> (Inl e, s)
      | Inr _ \<Rightarrow> (case transaction L 3 of Inl e \<Rightarrow> (Inl e, s)
        | Inr _ \<Rightarrow> (Inr payload, s\<lparr>devices := put_row dv_device_id (device_values L item) (devices s)\<rparr>)))"

definition list_notification_devices :: "local_env \<Rightarrow> string \<Rightarrow> string \<Rightarrow> string \<Rightarrow> string \<Rightarrow> notification_db \<Rightarrow> pydict list res" where
  "list_notification_devices L tenant_id workspace_id reader_key status s =
     (case transaction L 2 of Inl e \<Rightarrow> Inl e
      | Inr _ \<Rightarrow> Inr (map device_item (text_desc dv_last_registered_at (filter (\<lambda>r. wants tenant_id (dv_tenant_id r)
          \<and> wants workspace_id (dv_workspace_id r) \<and> wants reader_key (dv_reader_key r) \<and> wants_word status (dv_status r)) (devices s)))))"

definition assign :: "'a option \<Rightarrow> ('a \<Rightarrow> 'r \<Rightarrow> 'r) \<Rightarrow> 'r \<Rightarrow> 'r" where
  "assign v f r = (case v of None \<Rightarrow> r | Some x \<Rightarrow> f x r)"

text \<open>No decision of the kernel is asked for here.\<close>

definition update_notification_device_status ::
    "local_env \<Rightarrow> string \<Rightarrow> string option \<Rightarrow> string option \<Rightarrow> string option \<Rightarrow> notification_db \<Rightarrow> unit res \<times> notification_db" where
  "update_notification_device_status L device_id status last_error last_delivered_at s =
     (let token = strip device_id in
      if token = [] \<or> (status = None \<and> last_error = None \<and> last_delivered_at = None) then (Inr (), s)
      else case transaction L 3 of Inl e \<Rightarrow> (Inl e, s)
      | Inr _ \<Rightarrow> (Inr (), s\<lparr>devices := upd_rows (\<lambda>r. dv_device_id r = token)
          (\<lambda>r. assign status (\<lambda>x r. r\<lparr>dv_status := sor (lower (strip x)) ''active''\<rparr>)
               (assign last_error (\<lambda>x r. r\<lparr>dv_last_error := snone (strip x)\<rparr>)
               (assign last_delivered_at (\<lambda>x r. r\<lparr>dv_last_delivered_at := snone (strip x)\<rparr>) (r\<lparr>dv_persisted_at := local_now_iso L\<rparr>))))
          (devices s)\<rparr>))"

definition delivery_request :: "string \<Rightarrow> string \<Rightarrow> string \<Rightarrow> local_request" where
  "delivery_request notification device status = (local_defaults ''update_notification_delivery'' ''notification_delivery_statuses'')\<lparr>
     lq_item := Some [(''notification_id'', PStr notification), (''device_id'', PStr device), (''status'', PStr status)],
     lq_notification_id := Some notification, lq_device_id := Some device, lq_status := Some status\<rparr>"

definition upsert_notification_delivery ::
    "local_env \<Rightarrow> string \<Rightarrow> string \<Rightarrow> string \<Rightarrow> string option \<Rightarrow> string option \<Rightarrow> notification_db \<Rightarrow> unit res \<times> notification_db" where
  "upsert_notification_delivery L notification_id device_id status delivered_at last_error s =
     (let notification = strip notification_id; device = strip device_id; st = sor (lower (strip status)) ''pending'' in
      if notification = [] \<or> device = [] then (Inr (), s)
      else case enforce_local_store_decision L (delivery_request notification device st) of Inl e \<Rightarrow> (Inl e, s)
      | Inr _ \<Rightarrow> (case transaction L 3 of Inl e \<Rightarrow> (Inl e, s)
        | Inr _ \<Rightarrow> if row_of nt_id notification (notices s) = None then (Inl (DriverError ''FOREIGN KEY constraint failed''), s)
            else (Inr (), s\<lparr>deliveries := put_row delivery_key \<lparr>dl_notification_id = notification, dl_device_id = device, dl_status = st,
              dl_delivered_at = snone (opt_tok delivered_at), dl_last_error = snone (opt_tok last_error),
              dl_persisted_at = local_now_iso L\<rparr> (deliveries s)\<rparr>)))"

definition delivery_item :: "string \<Rightarrow> delivery_row \<Rightarrow> pydict" where
  "delivery_item notification r =
     [(''notification_id'', PStr notification), (''device_id'', PStr (strip (dl_device_id r))),
      (''status'', PStr (sor (lower (strip (dl_status r))) ''pending'')), (''delivered_at'', opt_val (snone (opt_tok (dl_delivered_at r)))),
      (''last_error'', opt_val (snone (opt_tok (dl_last_error r))))]"

definition list_notification_delivery_statuses :: "local_env \<Rightarrow> string \<Rightarrow> notification_db \<Rightarrow> pydict res" where
  "list_notification_delivery_statuses L notification_id s =
     (let notification = strip notification_id in
      if notification = [] then Inr []
      else case transaction L 2 of Inl e \<Rightarrow> Inl e
      | Inr _ \<Rightarrow> Inr (fold (\<lambda>r d. if strip (dl_device_id r) = [] then d else dset (strip (dl_device_id r)) (PDict (delivery_item notification r)) d)
          (filter (\<lambda>r. dl_notification_id r = notification) (deliveries s)) []))"

subsection \<open>The summary groups by session\<close>

lemma first_seen_snoc: "first_seen (xs @ [x]) = (if x \<in> set xs then first_seen xs else first_seen xs @ [x])"
  by (simp add: first_seen_def)

lemma first_seen_set [simp]: "set (first_seen xs) = set xs" "distinct (first_seen xs)" "first_seen [] = []"
  by (simp_all add: first_seen_def)

lemma first_seen_Nil [simp]: "first_seen xs = [] \<longleftrightarrow> xs = []"
  by (simp add: first_seen_def)

lemma update_table:
  "distinct ks \<Longrightarrow> k \<in> set ks \<Longrightarrow> AList.update k v (map (\<lambda>x. (x, f x)) ks) = map (\<lambda>x. (x, if x = k then v else f x)) ks"
  by (induction ks) auto

lemma update_fresh: "k \<notin> fst ` set d \<Longrightarrow> AList.update k v d = d @ [(k, v)]"
  by (induction d) auto

lemma map_of_table: "map_of (map (\<lambda>x. (x, f x)) ks) k = (if k \<in> set ks then Some (f k) else None)"
  by (induction ks) auto

text \<open>A session as the summary gives it: the first of its items with the numbers of all and of the unread ones.\<close>

definition summary_of :: "pydict list \<Rightarrow> pydict" where
  "summary_of items0 = dset ''unread_count'' (PInt (int (length (filter is_unread items0))))
     (dset ''count'' (PInt (int (length items0))) (fresh_summary (hd items0)))"

definition grouped :: "string \<Rightarrow> pydict list \<Rightarrow> pydict list" where
  "grouped k items = filter (\<lambda>i. summary_key i = k) items"

definition session_keys :: "pydict list \<Rightarrow> string list" where
  "session_keys items = first_seen (filter (\<lambda>k. k \<noteq> []) (map summary_key items))"

lemma count_one: "counted_up ''count'' (summary_of items0) = dset ''unread_count'' (PInt (int (length (filter is_unread items0))))
    (dset ''count'' (PInt (int (length items0) + 1)) (fresh_summary (hd items0)))"
  by (simp add: counted_up_def summary_of_def fresh_summary_def dset_def dget_def)

lemma count_more:
  "items0 \<noteq> [] \<Longrightarrow> (let d = counted_up ''count'' (summary_of items0) in if is_unread x then counted_up ''unread_count'' d else d) = summary_of (items0 @ [x])"
  unfolding count_one Let_def by (simp add: counted_up_def summary_of_def fresh_summary_def dset_def dget_def)

lemma count_first:
  "(let d = counted_up ''count'' (fresh_summary x) in if is_unread x then counted_up ''unread_count'' d else d) = summary_of [x]"
  unfolding Let_def by (simp add: counted_up_def summary_of_def fresh_summary_def dset_def dget_def)

lemma summarize_append: "summarize (xs @ ys) seen = summarize ys (summarize xs seen)"
  by (induction xs arbitrary: seen) (simp_all add: Let_def)

lemma summarize_groups: "summarize items [] = map (\<lambda>k. (k, summary_of (grouped k items))) (session_keys items)"
proof (induction items rule: rev_induct)
  case Nil
  then show ?case by (simp add: session_keys_def)
next
  case (snoc x items)
  let ?k = "summary_key x" and ?ks = "session_keys items"
  have other: "grouped k (items @ [x]) = grouped k items" if "k \<noteq> ?k" for k using that by (simp add: grouped_def)
  have own: "grouped ?k (items @ [x]) = grouped ?k items @ [x]" by (simp add: grouped_def)
  show ?case
  proof (cases "?k = []")
    case True
    have "session_keys (items @ [x]) = ?ks" "\<And>k. k \<in> set ?ks \<Longrightarrow> k \<noteq> ?k" using True by (auto simp: session_keys_def)
    with True show ?thesis by (simp add: summarize_append snoc.IH other)
  next
    case k: False
    show ?thesis
    proof (cases "?k \<in> set ?ks")
      case True
      then have "?k \<in> set (filter (\<lambda>k. k \<noteq> []) (map summary_key items))" by (simp add: session_keys_def)
      then have ks: "session_keys (items @ [x]) = ?ks" using k by (simp add: session_keys_def first_seen_snoc)
      have ne: "grouped ?k items \<noteq> []" using True by (auto simp: session_keys_def grouped_def filter_empty_conv)
      have d: "distinct ?ks" by (simp add: session_keys_def)
      have "summarize (items @ [x]) [] = AList.update ?k (summary_of (grouped ?k items @ [x])) (map (\<lambda>k. (k, summary_of (grouped k items))) ?ks)"
        using k True count_more [OF ne, of x] by (simp add: summarize_append snoc.IH map_of_table Let_def)
      also have "\<dots> = map (\<lambda>k. (k, if k = ?k then summary_of (grouped ?k items @ [x]) else summary_of (grouped k items))) ?ks"
        by (rule update_table [OF d True])
      finally show ?thesis unfolding ks by (simp add: other own cong: map_cong if_cong)
    next
      case False
      then have "?k \<notin> set (filter (\<lambda>k. k \<noteq> []) (map summary_key items))" by (simp add: session_keys_def)
      then have ks: "session_keys (items @ [x]) = ?ks @ [?k]" using k by (simp add: session_keys_def first_seen_snoc)
      have "grouped ?k items = []" using False k by (auto simp: session_keys_def grouped_def filter_empty_conv image_iff)
      moreover have "summarize (items @ [x]) [] = map (\<lambda>k. (k, summary_of (grouped k items))) ?ks @ [(?k, summary_of [x])]"
        using k False count_first [of x]
        by (simp add: summarize_append snoc.IH map_of_table Let_def update_fresh image_image)
      moreover have "\<And>k. k \<in> set ?ks \<Longrightarrow> k \<noteq> ?k" using False by auto
      ultimately show ?thesis unfolding ks by (simp add: other own)
    qed
  qed
qed

theorem summary_groups_sessions:
  "summarize_notification_sessions items limit = limited limit (map (\<lambda>k. summary_of (filter (\<lambda>i. summary_key i = k) items))
     (first_seen (filter (\<lambda>k. k \<noteq> []) (map summary_key items))))"
  by (simp add: summarize_notification_sessions_def summarize_groups session_keys_def grouped_def o_def)

subsection \<open>What marking as read changes\<close>

lemma read_at_put: "read_at_of rd i (s\<lparr>reads := put_row read_key (read_values L reader t r) (reads s)\<rparr>) =
    (if rd = reader \<and> i = nt_id r then Some t else read_at_of rd i s)"
  by (auto simp: read_at_of_def read_key_def read_values_def)

lemma mark_rows_Inr:
  "mark_rows L k reader ids s = Inr (k', s') \<Longrightarrow> notices s' = notices s \<and> devices s' = devices s \<and> deliveries s' = deliveries s
    \<and> read_at_of rd i s' = (if rd = reader \<and> i \<in> set ids \<and> row_of nt_id i (notices s) \<noteq> None then Some (local_now_iso L) else read_at_of rd i s)"
proof (induction ids arbitrary: k s)
  case (Cons x ids)
  show ?case
  proof (cases "row_of nt_id x (notices s)")
    case None
    with Cons show ?thesis by (auto split: sum.splits)
  next
    case (Some r)
    have id: "nt_id r = x" using row_of_key [OF Some] by simp
    let ?s = "s\<lparr>reads := put_row read_key (read_values L reader (local_now_iso L) r) (reads s)\<rparr>"
    have "mark_rows L (k + 2) reader ids ?s = Inr (k', s')" using Cons.prems Some by (auto split: sum.splits)
    from Cons.IH [OF this] show ?thesis using Some id by (auto simp: read_at_put)
  qed
qed simp

text \<open>
  What marking as read reports and does. The report counts every id that was asked for, once each,
  while only those of existing notifications are marked, for this reader alone; and marking all reaches 500
  notifications at most.
\<close>

theorem mark_read_outcome:
  assumes "mark_notifications_read L reader_key ids tenant workspace mark_all s = (Inr report, s')" and "strip reader_key \<noteq> []"
    and "read_targets L (strip reader_key) ids tenant workspace mark_all s = Inr targets"
  shows "report = mark_report (first_seen targets) (if targets = [] then None else Some (local_now_iso L))
    \<and> notices s' = notices s \<and> (mark_all \<longrightarrow> length targets \<le> 500)
    \<and> (\<forall>rd i. read_at_of rd i s' = (if rd = strip reader_key \<and> i \<in> set targets \<and> row_of nt_id i (notices s) \<noteq> None
          then Some (local_now_iso L) else read_at_of rd i s))"
proof -
  have "length targets \<le> 500" if mark_all
  proof -
    have "length (newest_queried q s) \<le> nat (max 1 (nq_limit q))" for q by (simp add: newest_queried_def limit_rows_def)
    from this [of "all_query (strip reader_key) tenant workspace"] that assms(3)
    show ?thesis by (auto simp: read_targets_def list_notifications_def all_query_def split: sum.splits intro: le_trans [OF length_filter_le])
  qed
  moreover have "report = mark_report (first_seen targets) (if targets = [] then None else Some (local_now_iso L))
    \<and> notices s' = notices s \<and> (\<forall>rd i. read_at_of rd i s' = (if rd = strip reader_key \<and> i \<in> set targets \<and> row_of nt_id i (notices s) \<noteq> None
          then Some (local_now_iso L) else read_at_of rd i s))"
  proof (cases "targets = []")
    case True
    with assms show ?thesis by (simp add: mark_notifications_read_def mark_report_def)
  next
    case False
    with assms obtain k k' where rows: "mark_rows L k (strip reader_key) (first_seen targets) s = Inr (k', s')"
      and report: "report = mark_report (first_seen targets) (Some (local_now_iso L))"
      unfolding mark_notifications_read_def Let_def by (auto split: sum.splits)
    from mark_rows_Inr [OF rows] False report show ?thesis by simp
  qed
  ultimately show ?thesis by blast
qed

subsection \<open>What the status of a device shows\<close>

lemma dget_fill:
  "k \<noteq> k' \<Longrightarrow> dget (fill k c d) k' = dget d k'" "k \<noteq> k' \<Longrightarrow> dget (fill_word k c d) k' = dget d k'"
  "k \<noteq> k' \<Longrightarrow> dget (fill_opt k o1 d) k' = dget d k'"
  by (simp_all add: fill_def fill_word_def fill_opt_def)

lemma por_given: "tok v \<noteq> [] \<Longrightarrow> por v w = v"
  by (auto simp: por_def tok_def)

lemma device_item_status: "tok (dget (dv_device r) ''status'') \<noteq> [] \<Longrightarrow> dget (device_item r) ''status'' = PStr (lower (tok (dget (dv_device r) ''status'')))"
  by (simp add: device_item_def Let_def dget_fill por_given sor_def)

text \<open>
  C25. A change of a device's status is not seen by its readers. The update reaches the column, by which the
  list selects, but the listed item still carries the status the device was registered with: a device listed
  as revoked says it is active.
\<close>

theorem device_status_hidden:
  assumes "update_notification_device_status L device_id (Some status) last_error delivered s = (Inr (), s')" and "strip device_id \<noteq> []"
    and "row_of dv_device_id (strip device_id) (devices s) = Some r" and "tok (dget (dv_device r) ''status'') \<noteq> []" and "store_ok L'"
  shows "\<exists>items item r'. list_notification_devices L' [] [] [] status s' = Inr items \<and> item \<in> set items
    \<and> row_of dv_device_id (strip device_id) (devices s') = Some r' \<and> item = device_item r' \<and> dv_status r' = sor (lower (strip status)) ''active''
    \<and> dget item ''status'' = PStr (lower (tok (dget (dv_device r) ''status'')))"
proof -
  define f :: "device_row \<Rightarrow> device_row" where "f r = assign (Some status) (\<lambda>x r. r\<lparr>dv_status := sor (lower (strip x)) ''active''\<rparr>)
    (assign last_error (\<lambda>x r. r\<lparr>dv_last_error := snone (strip x)\<rparr>)
    (assign delivered (\<lambda>x r. r\<lparr>dv_last_delivered_at := snone (strip x)\<rparr>) (r\<lparr>dv_persisted_at := local_now_iso L\<rparr>)))" for r
  have f: "dv_device_id (f x) = dv_device_id x" "dv_device (f x) = dv_device x" "dv_status (f x) = sor (lower (strip status)) ''active''" for x
    by (simp_all add: f_def assign_def split: option.splits)
  have s': "devices s' = upd_rows (\<lambda>r. dv_device_id r = strip device_id) f (devices s)"
    using assms(1,2) by (auto simp: update_notification_device_status_def Let_def f_def [abs_def] split: sum.splits)
  have row: "row_of dv_device_id (strip device_id) (devices s') = Some (f r)"
    unfolding s' using row_of_key [OF assms(3)] by (intro row_of_upd_hit [OF assms(3)]) (simp_all add: f(1))
  have "wants_word status (dv_status (f r))" by (auto simp: wants_word_def f(3) sor_def)
  with row_of_key [OF row] have "device_item (f r) \<in> set (map device_item (text_desc dv_last_registered_at (filter (\<lambda>r. wants [] (dv_tenant_id r)
      \<and> wants [] (dv_workspace_id r) \<and> wants [] (dv_reader_key r) \<and> wants_word status (dv_status r)) (devices s'))))"
    by (auto simp: wants_def text_desc_def)
  moreover have "dget (device_item (f r)) ''status'' = PStr (lower (tok (dget (dv_device r) ''status'')))"
    using device_item_status [of "f r"] assms(4) by (simp add: f(2))
  ultimately show ?thesis using row assms(5) by (auto simp: list_notification_devices_def f(3))
qed

subsection \<open>Histories\<close>

datatype notification_op =
    OpNotify local_env pydict
  | OpMarkRead local_env string "string list" string string bool
  | OpDevice local_env pydict
  | OpDeviceStatus local_env string "string option" "string option" "string option"
  | OpDelivery local_env string string string "string option" "string option"

fun notification_step :: "notification_op \<Rightarrow> notification_db \<Rightarrow> notification_db" where
  "notification_step (OpNotify L item) s = snd (upsert_notification L item s)"
| "notification_step (OpMarkRead L reader ids t w mark_all) s = snd (mark_notifications_read L reader ids t w mark_all s)"
| "notification_step (OpDevice L item) s = snd (upsert_notification_device L item s)"
| "notification_step (OpDeviceStatus L d st e t) s = snd (update_notification_device_status L d st e t s)"
| "notification_step (OpDelivery L n d st t e) s = snd (upsert_notification_delivery L n d st t e s)"

definition notifications_wf :: "notification_db \<Rightarrow> bool" where
  "notifications_wf s \<longleftrightarrow> keys_distinct nt_id (notices s) \<and> keys_distinct read_key (reads s) \<and> keys_distinct dv_device_id (devices s)
     \<and> keys_distinct delivery_key (deliveries s) \<and> rd_notification_id ` set (reads s) \<subseteq> nt_id ` set (notices s)
     \<and> dl_notification_id ` set (deliveries s) \<subseteq> nt_id ` set (notices s)
     \<and> (\<forall>r \<in> set (deliveries s). strip (dl_device_id r) = dl_device_id r)"

lemma mark_rows_wf: "mark_rows L k reader ids s = Inr (k', s') \<Longrightarrow> notifications_wf s \<Longrightarrow> notifications_wf s'"
proof (induction ids arbitrary: k s)
  case (Cons x ids)
  show ?case
  proof (cases "row_of nt_id x (notices s)")
    case None
    with Cons show ?thesis by (auto split: sum.splits)
  next
    case (Some r)
    let ?row = "read_values L reader (local_now_iso L) r"
    have "set (put_row read_key ?row (reads s)) \<subseteq> insert ?row (set (reads s))" by (rule set_put_row)
    moreover have "rd_notification_id ?row \<in> nt_id ` set (notices s)" using row_of_key [OF Some] by (auto simp: read_values_def)
    ultimately have wf: "notifications_wf (s\<lparr>reads := put_row read_key ?row (reads s)\<rparr>)"
      using Cons.prems(2) by (auto simp: notifications_wf_def)
    have "mark_rows L (k + 2) reader ids (s\<lparr>reads := put_row read_key ?row (reads s)\<rparr>) = Inr (k', s')"
      using Cons.prems(1) Some by (auto split: sum.splits)
    from Cons.IH [OF this wf] show ?thesis .
  qed
qed simp

lemma upsert_notification_wf: "notifications_wf s \<Longrightarrow> notifications_wf (snd (upsert_notification L item s))"
  by (auto simp: upsert_notification_def notifications_wf_def keys_put_row split: sum.splits)

lemma delivery_wf:
  assumes "notifications_wf s" and "dl_notification_id d \<in> nt_id ` set (notices s)" and "strip (dl_device_id d) = dl_device_id d"
  shows "notifications_wf (s\<lparr>deliveries := put_row delivery_key d (deliveries s)\<rparr>)"
proof -
  have "dl_notification_id ` set (put_row delivery_key d (deliveries s)) \<subseteq> insert (dl_notification_id d) (dl_notification_id ` set (deliveries s))"
    using set_put_row [of delivery_key d "deliveries s"] by auto
  also have "\<dots> \<subseteq> nt_id ` set (notices s)" using assms by (simp add: notifications_wf_def)
  finally have "dl_notification_id ` set (put_row delivery_key d (deliveries s)) \<subseteq> nt_id ` set (notices s)" .
  moreover have "\<forall>r \<in> set (put_row delivery_key d (deliveries s)). strip (dl_device_id r) = dl_device_id r"
    using assms(1,3) set_put_row [of delivery_key d "deliveries s"] by (auto simp: notifications_wf_def)
  ultimately show ?thesis using assms(1) by (simp add: notifications_wf_def)
qed

lemma upsert_delivery_wf: "notifications_wf s \<Longrightarrow> notifications_wf (snd (upsert_notification_delivery L n d st t e s))"
  by (auto simp: upsert_notification_delivery_def Let_def row_of_None intro!: delivery_wf split: sum.splits)

lemma upsert_device_wf: "notifications_wf s \<Longrightarrow> notifications_wf (snd (upsert_notification_device L item s))"
  by (auto simp: upsert_notification_device_def Let_def notifications_wf_def split: sum.splits)

lemma notification_step_wf: "notifications_wf s \<Longrightarrow> notifications_wf (notification_step op s)"
proof (cases op)
  case (OpMarkRead L reader ids t w mark_all)
  then show "notifications_wf s \<Longrightarrow> ?thesis"
    by (auto simp: mark_notifications_read_def Let_def split: sum.splits dest: mark_rows_wf)
next
  case (OpDeviceStatus L d st e t)
  have "keys_distinct dv_device_id (upd_rows P (\<lambda>r. assign st (\<lambda>x r. r\<lparr>dv_status := sor (lower (strip x)) ''active''\<rparr>)
      (assign e (\<lambda>x r. r\<lparr>dv_last_error := snone (strip x)\<rparr>) (assign t (\<lambda>x r. r\<lparr>dv_last_delivered_at := snone (strip x)\<rparr>)
      (r\<lparr>dv_persisted_at := local_now_iso L\<rparr>)))) rows) = keys_distinct dv_device_id rows" for P and rows :: "device_row list"
    by (rule keys_distinct_upd) (simp add: assign_def split: option.splits)
  with OpDeviceStatus show "notifications_wf s \<Longrightarrow> ?thesis"
    by (simp add: update_notification_device_status_def Let_def notifications_wf_def split: sum.splits)
qed (simp_all add: upsert_notification_wf upsert_delivery_wf upsert_device_wf)

theorem notifications_stay_wf:
  assumes "notifications_wf s" shows "notifications_wf (fold notification_step ops s)"
  using assms by (induction ops arbitrary: s) (simp_all add: notification_step_wf)

subsection \<open>Concrete notifications\<close>

definition demo_notice :: notification_row where
  "demo_notice = \<lparr>nt_id = ''n'', nt_tenant_id = [], nt_workspace_id = [], nt_session_key = [], nt_session_id = [], nt_channel = [],
     nt_direction = [], nt_event_type = [], nt_run_id = [], nt_machine_id = [], nt_trace_id = [], nt_action = [], nt_title = None,
     nt_text = [], nt_sort_ts = 0, nt_notification = [], nt_created_at = [], nt_persisted_at = []\<rparr>"

definition demo_device :: device_row where
  "demo_device = \<lparr>dv_device_id = ''d'', dv_tenant_id = [], dv_workspace_id = [], dv_reader_key = [], dv_provider = ''expo'', dv_push_token = ''p'',
     dv_platform = None, dv_app_id = None, dv_device_name = None, dv_status = ''active'', dv_capabilities = [],
     dv_device = [(''device_id'', PStr ''d''), (''status'', PStr ''active'')], dv_last_registered_at = [], dv_last_delivered_at = None,
     dv_last_error = None, dv_persisted_at = []\<rparr>"

definition demo_notices :: notification_db where
  "demo_notices = \<lparr>notices = [demo_notice], reads = [], devices = [demo_device], deliveries = []\<rparr>"

lemma notice_words: "strip ''n'' = ''n''" "strip ''ghost'' = ''ghost''" "strip ''u'' = ''u''" "strip ''d'' = ''d''"
    "strip ''revoked'' = ''revoked''" "lower ''active'' = ''active''"
    "strip ''active'' = ''active''"
  by (simp_all add: strip_def py_space_def lower_def)

lemma demo_gates: "read_gates demo_local reader t w ids = Inr ()"
proof (induction ids)
  case (Cons i ids)
  obtain d where "enforce_local_store_decision demo_local (read_request reader t w i) = Inr d"
    using store_gate_open [OF demo_local_open, of "read_request reader t w i"] by (auto simp: read_request_def local_next_actions_def)
  with Cons show ?case by simp
qed simp

theorem mark_read_outcome_witness:
  "\<exists>report s'. mark_notifications_read demo_local ''u'' [''n'', ''ghost''] [] [] False demo_notices = (Inr report, s')
    \<and> dget report ''marked_count'' = PInt 2 \<and> read_at_of ''u'' ''n'' s' = Some (local_now_iso demo_local) \<and> read_at_of ''u'' ''ghost'' s' = None"
proof -
  have ok: "statement demo_local k = Inr ()" for k using demo_local_ok by (simp add: statement_def store_ok_def)
  have targets: "read_targets demo_local (strip ''u'') [''n'', ''ghost''] [] [] False demo_notices = Inr [''n'', ''ghost'']"
    by (simp add: read_targets_def notice_words)
  have seen: "first_seen [''n'', ''ghost''] = [''n'', ''ghost'']" by (simp add: first_seen_def)
  have "\<exists>r. mark_rows demo_local k reader ids demo_notices = Inr r" for k reader ids
  proof -
    have "\<exists>r. mark_rows demo_local k reader ids s = Inr r" for s
      by (induction ids arbitrary: k s) (simp_all add: ok split: option.split)
    then show ?thesis .
  qed
  then obtain r where "mark_rows demo_local (0 + 1) (strip ''u'') [''n'', ''ghost''] demo_notices = Inr r" by blast
  then have "fst (mark_notifications_read demo_local ''u'' [''n'', ''ghost''] [] [] False demo_notices) \<noteq> Inl e" for e
    unfolding mark_notifications_read_def Let_def targets sum.case seen demo_gates if_False ok
    by (simp add: notice_words ok split: prod.splits)
  then obtain report s' where go: "mark_notifications_read demo_local ''u'' [''n'', ''ghost''] [] [] False demo_notices = (Inr report, s')"
    by (metis prod.collapse sum.exhaust)
  have rows: "row_of nt_id ''n'' (notices demo_notices) \<noteq> None" "row_of nt_id ''ghost'' (notices demo_notices) = None"
    "read_at_of ''u'' ''ghost'' demo_notices = None"
    by (simp_all add: demo_notices_def demo_notice_def read_at_of_def)
  have "strip ''u'' \<noteq> []" by (simp add: notice_words)
  from mark_read_outcome [OF go this targets] have out: "report = mark_report [''n'', ''ghost''] (Some (local_now_iso demo_local))"
    and at: "\<And>rd i. read_at_of rd i s' = (if rd = ''u'' \<and> i \<in> set [''n'', ''ghost''] \<and> row_of nt_id i (notices demo_notices) \<noteq> None
      then Some (local_now_iso demo_local) else read_at_of rd i demo_notices)"
    by (simp_all add: seen notice_words)
  have "read_at_of ''u'' ''n'' s' = Some (local_now_iso demo_local)" "read_at_of ''u'' ''ghost'' s' = None"
    by (simp_all only: at rows list.set insert_iff if_True if_False simp_thms)
  moreover have "dget report ''marked_count'' = PInt 2" by (simp add: out mark_report_def)
  ultimately show ?thesis using go by blast
qed

theorem device_status_hidden_witness:
  "\<exists>s' items item. update_notification_device_status demo_local ''d'' (Some ''revoked'') None None demo_notices = (Inr (), s')
    \<and> list_notification_devices demo_local [] [] [] ''revoked'' s' = Inr items \<and> item \<in> set items \<and> dget item ''status'' = PStr ''active''"
proof -
  have "fst (update_notification_device_status demo_local ''d'' (Some ''revoked'') None None demo_notices) = Inr ()"
    using demo_local_ok by (simp add: update_notification_device_status_def Let_def notice_words)
  then obtain s' where go: "update_notification_device_status demo_local ''d'' (Some ''revoked'') None None demo_notices = (Inr (), s')"
    by (metis prod.collapse)
  have st: "tok (dget (dv_device demo_device) ''status'') = ''active''" by (simp add: demo_device_def notice_words)
  have row: "row_of dv_device_id (strip ''d'') (devices demo_notices) = Some demo_device" by (simp add: demo_notices_def demo_device_def notice_words)
  have "strip ''d'' \<noteq> []" "tok (dget (dv_device demo_device) ''status'') \<noteq> []" by (simp_all add: notice_words st)
  from device_status_hidden [OF go this(1) row this(2) demo_local_ok] go show ?thesis unfolding st notice_words by blast
qed

theorem notifications_stay_wf_witness:
  "notifications_wf (fold notification_step [OpMarkRead demo_local ''u'' [''n''] [] [] True, OpDelivery demo_local ''n'' ''d'' ''sent'' None None] demo_notices)"
  by (rule notifications_stay_wf) (simp add: notifications_wf_def demo_notices_def keys_distinct_def)

end
