(* ===== verification/Notification_Feed.thy ===== *)
theory Notification_Feed
  imports Notifications "HOL-Library.Product_Lexorder"
begin

text \<open>
  Reading and following notifications (\<open>notification_service.py\<close>): the queries by cursor, the merge with the
  items of the activity ledger, and \<open>iter_notifications_stream\<close>, which polls the store and yields what is newer
  than its cursor.

  The ledger is a parameter: what it answers to each poll, or that it raises. The k-th use of the store in a
  poll runs in the environment \<open>fe_store k\<close>. Moments are microseconds, \<open>sa_from_iso\<close> is
  \<open>datetime.fromisoformat(v).astimezone(timezone.utc).timestamp()\<close>, \<open>None\<close> when it raises.
\<close>

subsection \<open>Readers and queries\<close>

definition reader_key_for_current_user :: "pydict option \<Rightarrow> string" where
  "reader_key_for_current_user user =
     (case user of None \<Rightarrow> ''anonymous''
      | Some u \<Rightarrow>
        (let auth = lower (tok (dget u ''auth_type'')); user_id = tok (dget u ''user_id''); email = lower (tok (dget u ''email'')) in
         if auth = ''bearer'' \<and> user_id \<noteq> [] then ''user:'' @ user_id
         else if auth = ''api_key'' then auth @ '':owner''
         else if auth = ''local_dev'' then ''local_dev:'' @ sor user_id ''scoped''
         else if email \<noteq> [] then ''email:'' @ email
         else ''role:'' @ sor (lower (strip (py_str_of (por (dget u ''role'') (PStr ''viewer''))))) ''viewer''))"

definition feed_ts :: "(string \<Rightarrow> int option) \<Rightarrow> pyval \<Rightarrow> int option" where
  "feed_ts from_iso v =
     (case v of PInt i \<Rightarrow> Some (sec i) | PBool b \<Rightarrow> Some (sec (if b then 1 else 0))
      | PStr raw \<Rightarrow>
        (let text = strip raw in
         if text = [] then None else from_iso (if last text = CHR ''Z'' then butlast text @ ''+00:00'' else text))
      | _ \<Rightarrow> None)"

text \<open>\<open>parsed or other\<close>, where 0.0 is not true.\<close>

definition ts_or :: "int option \<Rightarrow> int option \<Rightarrow> int option" where
  "ts_or a b = (case a of Some t \<Rightarrow> if t = 0 then b else Some t | None \<Rightarrow> b)"

definition allowed_tokens :: "string list \<Rightarrow> string list" where
  "allowed_tokens workspaces = filter (\<lambda>w. w \<noteq> []) (map strip workspaces)"

definition row_allowed :: "string list option \<Rightarrow> notification_row \<Rightarrow> bool" where
  "row_allowed scope r = (case scope of None \<Rightarrow> True | Some ws \<Rightarrow> nt_workspace_id r \<in> set (allowed_tokens ws))"

definition after_cursor :: "int option \<Rightarrow> string \<Rightarrow> notification_row \<Rightarrow> bool" where
  "after_cursor since_ts since_id r =
     (case since_ts of None \<Rightarrow> True
      | Some t \<Rightarrow> t < nt_sort_ts r \<or> (strip since_id \<noteq> [] \<and> nt_sort_ts r = t \<and> strip since_id < nt_id r))"

definition feed_key :: "notification_row \<Rightarrow> int \<times> string" where
  "feed_key r = (nt_sort_ts r, nt_id r)"

definition feed_order :: "notification_row list \<Rightarrow> notification_row list" where
  "feed_order rows = rev (sort_key feed_key rows)"

text \<open>The rows of one page of the feed, and the query for their ids; an error of the driver is logged and answers nothing.\<close>

definition feed_rows ::
    "notification_query \<Rightarrow> string list option \<Rightarrow> int option \<Rightarrow> string \<Rightarrow> notification_db \<Rightarrow> notification_row list" where
  "feed_rows q scope since_ts since_id s =
     filter (\<lambda>r. queried q r \<and> row_allowed scope r \<and> after_cursor since_ts since_id r) (notices s)"

definition no_workspace :: "string list option \<Rightarrow> bool" where
  "no_workspace scope = (case scope of None \<Rightarrow> False | Some ws \<Rightarrow> allowed_tokens ws = [])"

definition runtime_notification_query_ids ::
    "local_env \<Rightarrow> notification_query \<Rightarrow> string list option \<Rightarrow> int option \<Rightarrow> string \<Rightarrow> notification_db \<Rightarrow> string list" where
  "runtime_notification_query_ids L q scope since_ts since_id s =
     (if no_workspace scope then []
      else case transaction L 2 of Inl e \<Rightarrow> []
      | Inr _ \<Rightarrow> filter (\<lambda>i. i \<noteq> []) (map (\<lambda>r. strip (nt_id r))
          (limit_rows (max 1 (if nq_limit q = 0 then 100 else nq_limit q)) (feed_order (feed_rows q scope since_ts since_id s)))))"

definition item_with :: "string \<Rightarrow> pydict list \<Rightarrow> pydict option" where
  "item_with i items = find (\<lambda>item. tok (dget item ''id'') = i) (rev items)"

definition list_runtime_notifications_since ::
    "local_env \<Rightarrow> local_env \<Rightarrow> notification_query \<Rightarrow> string list option \<Rightarrow> int option \<Rightarrow> string \<Rightarrow> notification_db \<Rightarrow> pydict list res" where
  "list_runtime_notifications_since L L' q scope since_ts since_id s =
     (let ids = runtime_notification_query_ids L q scope since_ts since_id s in
      if ids = [] then Inr []
      else case list_notifications_by_ids L' (nq_reader_key q) ids s of Inl e \<Rightarrow> Inl e
      | Inr items \<Rightarrow> Inr (List.map_filter (\<lambda>i. item_with i items) ids))"

definition resolve_runtime_notification_cursor ::
    "local_env \<Rightarrow> notification_query \<Rightarrow> string list option \<Rightarrow> string \<Rightarrow> notification_db \<Rightarrow> pydict option" where
  "resolve_runtime_notification_cursor L q scope notification_id s =
     (if no_workspace scope then None
      else case transaction L 2 of Inl e \<Rightarrow> None
      | Inr _ \<Rightarrow> map_option (\<lambda>r. [(''id'', PStr (strip notification_id)), (''ts'', PStr (strip (nt_created_at r)))])
          (find (\<lambda>r. nt_id r = strip notification_id \<and> queried q r \<and> row_allowed scope r) (notices s)))"

subsection \<open>Items of two sources\<close>

definition workspace_filtered_items :: "string list option \<Rightarrow> string \<Rightarrow> pydict list \<Rightarrow> pydict list" where
  "workspace_filtered_items scope requested items = filter (\<lambda>item. let w = tok (dget item ''workspace_id'') in
     (requested = [] \<or> w = requested) \<and> (case scope of None \<Rightarrow> True | Some ws \<Rightarrow> w \<in> set ws)) items"

definition merge_read_state :: "local_env \<Rightarrow> string \<Rightarrow> pydict list \<Rightarrow> notification_db \<Rightarrow> pydict list res" where
  "merge_read_state L reader_key items s =
     (if items = [] then Inr []
      else case list_notifications_by_ids L reader_key (filter (\<lambda>i. i \<noteq> []) (map (\<lambda>item. tok (dget item ''id'')) items)) s of Inl e \<Rightarrow> Inl e
      | Inr found \<Rightarrow> Inr (map (\<lambda>item. case item_with (tok (dget item ''id'')) found of
            Some r \<Rightarrow> if tok (dget r ''read_at'') \<noteq> [] then dset ''read_at'' (PStr (tok (dget r ''read_at''))) item else item
          | None \<Rightarrow> item) items))"

definition merge_item :: "pydict \<Rightarrow> pydict \<Rightarrow> pydict" where
  "merge_item current item =
     (let merged = dset ''metadata'' (PDict (dmerge (dict_of (dget item ''metadata'')) (dict_of (dget current ''metadata'')))) (dmerge item current)
      in if tok (dget current ''read_at'') \<noteq> [] then dset ''read_at'' (dget current ''read_at'') merged else merged)"

fun merge_all :: "pydict list \<Rightarrow> (string \<times> pydict) list \<Rightarrow> (string \<times> pydict) list" where
  "merge_all [] merged = merged"
| "merge_all (item # items) merged =
     (let i = tok (dget item ''id'') in
      if i = [] then merge_all items merged
      else merge_all items (AList.update i (case map_of merged i of None \<Rightarrow> item | Some current \<Rightarrow> merge_item current item) merged))"

definition newest_item_key :: "(string \<Rightarrow> int option) \<Rightarrow> pydict \<Rightarrow> int \<times> string" where
  "newest_item_key from_iso item = (- (case feed_ts from_iso (dget item ''ts'') of Some t \<Rightarrow> t | None \<Rightarrow> 0), py_str_of (por (dget item ''id'') (PStr [])))"

definition merge_notification_sources :: "(string \<Rightarrow> int option) \<Rightarrow> pydict list \<Rightarrow> pydict list \<Rightarrow> pydict list" where
  "merge_notification_sources from_iso primary secondary = sort_key (newest_item_key from_iso) (map snd (merge_all (primary @ secondary) []))"

definition newest_notification_item :: "(string \<Rightarrow> int option) \<Rightarrow> pydict list \<Rightarrow> pydict option" where
  "newest_notification_item from_iso items =
     (case sort_key (newest_item_key from_iso) (filter (\<lambda>item. tok (dget item ''id'') \<noteq> []) items) of [] \<Rightarrow> None | x # _ \<Rightarrow> Some x)"

definition given_matches :: "string \<Rightarrow> string \<Rightarrow> bool" where
  "given_matches given column = (given = [] \<or> column = strip given)"

definition notification_item_matches :: "notification_query \<Rightarrow> pydict \<Rightarrow> bool" where
  "notification_item_matches q item =
     (let text = (\<lambda>k. tok (dget item k)); word = (\<lambda>k given. given = [] \<or> lower (tok (dget item k)) = lower (strip given)) in
      given_matches (nq_tenant_id q) (text ''tenant_id'') \<and> given_matches (nq_workspace_id q) (text ''workspace_id'')
      \<and> word ''channel'' (nq_channel q) \<and> given_matches (nq_session_key q) (text ''session_key'')
      \<and> word ''direction'' (nq_direction q) \<and> word ''action'' (nq_action q)
      \<and> given_matches (nq_run_id q) (text ''run_id'') \<and> given_matches (nq_trace_id q) (text ''trace_id''))"

subsection \<open>Listing and marking for a user\<close>

text \<open>What the service asks of others: access to a workspace, the workspaces of the user, the entitlements and the ledger.\<close>

record feed_access =
  fa_user :: "pydict option"
  fa_enforce :: "string \<Rightarrow> string \<Rightarrow> string res"
  fa_scope :: "string list option"
  fa_tenant :: "string \<Rightarrow> string"
  fa_entitlement :: "string \<Rightarrow> pydict res"
  fa_ledger :: "notification_query \<Rightarrow> pydict list res"
  fa_now :: int
  fa_from_iso :: "string \<Rightarrow> int option"

definition requested_workspace :: "feed_access \<Rightarrow> notification_query \<Rightarrow> string res" where
  "requested_workspace F q = (if nq_workspace_id q = [] then Inr [] else fa_enforce F (nq_workspace_id q) (nq_tenant_id q))"

definition event_ts :: "(string \<Rightarrow> int option) \<Rightarrow> pydict \<Rightarrow> int option" where
  "event_ts from_iso item = (let ts = (\<lambda>k. feed_ts from_iso (dget item k))
     in ts_or (ts ''updated_at'') (ts_or (ts ''created_at'') (ts_or (ts ''ts'') (ts ''timestamp''))))"

text \<open>The cache asks for each workspace once; the entitlements are the same for the length of a call.\<close>

fun filter_notification_history_window :: "feed_access \<Rightarrow> pydict list \<Rightarrow> pydict list res" where
  "filter_notification_history_window F [] = Inr []"
| "filter_notification_history_window F (item # items) =
     (case fa_entitlement F (text_or (dget item ''workspace_id'') ''default'') of Inl e \<Rightarrow> Inl e
      | Inr payload \<Rightarrow>
        (case py_int (por (dget (dict_of (dget payload ''capabilities'')) ''history_window_days'') (PInt 30)) of Inl e \<Rightarrow> Inl e
         | Inr days \<Rightarrow>
           (case filter_notification_history_window F items of Inl e \<Rightarrow> Inl e
            | Inr rest \<Rightarrow> Inr (if (case event_ts (fa_from_iso F) item of Some t \<Rightarrow> t < fa_now F - sec (max 1 days * 86400) | None \<Rightarrow> False)
                then rest else item # rest))))"

definition user_query :: "feed_access \<Rightarrow> notification_query \<Rightarrow> string \<Rightarrow> int \<Rightarrow> notification_query" where
  "user_query F q requested n = q\<lparr>nq_reader_key := reader_key_for_current_user (fa_user F), nq_workspace_id := strip requested, nq_limit := n\<rparr>"

definition in_window :: "feed_access \<Rightarrow> string \<Rightarrow> pydict list \<Rightarrow> pydict list res" where
  "in_window F requested items = filter_notification_history_window F (workspace_filtered_items (fa_scope F) requested items)"

definition merged_items ::
    "(nat \<Rightarrow> local_env) \<Rightarrow> feed_access \<Rightarrow> notification_query \<Rightarrow> string \<Rightarrow> int \<Rightarrow> pydict list \<Rightarrow> notification_db \<Rightarrow> pydict list res" where
  "merged_items L F q requested n runtime s =
     (if requested = [] then Inr []
      else case fa_ledger F ((user_query F q requested (max n 500))\<lparr>nq_tenant_id := sor (strip (nq_tenant_id q)) (fa_tenant F requested)\<rparr>) of
        Inl e \<Rightarrow> Inl e
      | Inr [] \<Rightarrow> Inr []
      | Inr (x # xs) \<Rightarrow> (case in_window F requested (x # xs) of Inl e \<Rightarrow> Inl e
        | Inr scoped \<Rightarrow> (case merge_read_state (L 1) (reader_key_for_current_user (fa_user F)) scoped s of Inl e \<Rightarrow> Inl e
          | Inr primary \<Rightarrow> Inr (merge_notification_sources (fa_from_iso F) primary runtime))))"

definition list_notification_payload ::
    "(nat \<Rightarrow> local_env) \<Rightarrow> feed_access \<Rightarrow> notification_query \<Rightarrow> bool \<Rightarrow> int option \<Rightarrow> notification_db \<Rightarrow> pydict res" where
  "list_notification_payload L F q include_sessions session_limit s =
     (let n = max 1 (min (nq_limit q) 500) in
      case requested_workspace F q of Inl e \<Rightarrow> Inl e
      | Inr requested \<Rightarrow>
        (case list_notifications (L 0) (user_query F q requested (max n (if requested \<noteq> [] then 500 else n * 4))) s of Inl e \<Rightarrow> Inl e
         | Inr items \<Rightarrow> (case in_window F requested items of Inl e \<Rightarrow> Inl e
         | Inr runtime \<Rightarrow> (case merged_items L F q requested n runtime s of Inl e \<Rightarrow> Inl e
         | Inr merged \<Rightarrow>
            (let all_items = (if merged = [] then runtime else merged); page = limit_rows n all_items;
                 sessions = (if include_sessions then summarize_notification_sessions all_items session_limit else [])
             in Inr [(''items'', PList (map PDict page)), (''count'', PInt (int (length page))), (''total'', PInt (int (length all_items))),
                     (''sessions'', PList (map PDict sessions)), (''session_count'', PInt (int (length sessions))), (''stream'', PBool False)])))))"

text \<open>Of the query only tenant and workspace are used here.\<close>

definition mark_allowed_notifications ::
    "(nat \<Rightarrow> local_env) \<Rightarrow> feed_access \<Rightarrow> notification_query \<Rightarrow> string list \<Rightarrow> bool \<Rightarrow> notification_db \<Rightarrow> pydict res \<times> notification_db" where
  "mark_allowed_notifications L F q notification_ids mark_all s =
     (let reader = reader_key_for_current_user (fa_user F) in
      case requested_workspace F q of Inl e \<Rightarrow> (Inl e, s)
      | Inr requested \<Rightarrow>
        (case (if mark_all then list_notifications (L 0) ((all_query reader (strip (nq_tenant_id q)) (strip requested))\<lparr>nq_limit := 5000\<rparr>) s
               else list_notifications_by_ids (L 0) reader (filter (\<lambda>i. i \<noteq> []) (map strip notification_ids)) s) of
           Inl e \<Rightarrow> (Inl e, s)
         | Inr items \<Rightarrow>
           (case mark_notifications_read (L 1) reader (map (\<lambda>item. tok (dget item ''id'')) (workspace_filtered_items (fa_scope F) requested items))
                [] [] False s of
              (Inl e, s') \<Rightarrow> (Inl e, s')
            | (Inr report, s') \<Rightarrow> (Inr (dmerge [(''status'', PStr ''ok'')] report), s'))))"

subsection \<open>The stream\<close>

record stream_args =
  sa_query :: notification_query
  sa_allowed :: "string list option"
  sa_since_id :: string
  sa_since_ts :: pyval
  sa_include_backlog :: bool
  sa_heartbeat :: int
  sa_timeout :: int
  sa_from_iso :: "string \<Rightarrow> int option"

record feed_env =
  fe_store :: "nat \<Rightarrow> local_env"
  fe_ledger :: "int option \<Rightarrow> string \<Rightarrow> int \<Rightarrow> pydict list res"
  fe_ledger_item :: "string \<Rightarrow> pydict option res"
  fe_monotonic :: int
  fe_emitted_at :: int

record stream_state =
  cursor_id :: string
  cursor_ts :: "int option"
  backlog_once :: bool
  started_mono :: int
  next_heartbeat :: int

datatype stream_event = Done string | Notified pydict | Heartbeat string

definition safe_limit :: "stream_args \<Rightarrow> int" where
  "safe_limit A = max 1 (min (nq_limit (sa_query A)) 500)"

definition safe_heartbeat :: "stream_args \<Rightarrow> int" where
  "safe_heartbeat A = max (sec 1) (min (sa_heartbeat A) (sec 60))"

definition safe_timeout :: "stream_args \<Rightarrow> int" where
  "safe_timeout A = max (sec 1) (min (sa_timeout A) (sec 300))"

definition ledger_enabled :: "stream_args \<Rightarrow> bool" where
  "ledger_enabled A = (strip (nq_workspace_id (sa_query A)) \<noteq> [])"

text \<open>The query of the stream with its limit; workspace and tenant are trimmed once.\<close>

definition stream_query :: "stream_args \<Rightarrow> int \<Rightarrow> notification_query" where
  "stream_query A n = (sa_query A)\<lparr>nq_tenant_id := strip (nq_tenant_id (sa_query A)), nq_workspace_id := strip (nq_workspace_id (sa_query A)),
     nq_limit := n\<rparr>"

definition stream_start :: "stream_args \<Rightarrow> int \<Rightarrow> stream_state" where
  "stream_start A t0 =
     (let i = strip (sa_since_id A); ts = feed_ts (sa_from_iso A) (sa_since_ts A)
      in \<lparr>cursor_id = i, cursor_ts = ts, backlog_once = (sa_include_backlog A \<and> i = [] \<and> ts = None),
          started_mono = t0, next_heartbeat = t0 + safe_heartbeat A\<rparr>)"

definition resolved_cursor :: "stream_args \<Rightarrow> feed_env \<Rightarrow> notification_db \<Rightarrow> stream_state \<Rightarrow> int option" where
  "resolved_cursor A E s st =
     (if cursor_id st = [] \<or> cursor_ts st \<noteq> None then cursor_ts st
      else case resolve_runtime_notification_cursor (fe_store E 0) (stream_query A 1) (sa_allowed A) (cursor_id st) s of
        Some c \<Rightarrow> feed_ts (sa_from_iso A) (dget c ''ts'')
      | None \<Rightarrow>
          if \<not> ledger_enabled A then None
          else case fe_ledger_item E (cursor_id st) of
            Inr (Some item) \<Rightarrow>
              if item \<noteq> [] \<and> workspace_filtered_items (sa_allowed A) (nq_workspace_id (stream_query A 1)) [item] \<noteq> []
                \<and> notification_item_matches (stream_query A 1) item
              then feed_ts (sa_from_iso A) (dget item ''ts'') else None
          | _ \<Rightarrow> None)"

text \<open>The ledger's page; whatever raises on the way to it, there is none.\<close>

definition ledger_page :: "stream_args \<Rightarrow> feed_env \<Rightarrow> int option \<Rightarrow> string \<Rightarrow> notification_db \<Rightarrow> pydict list" where
  "ledger_page A E since_ts since_id s =
     (if \<not> ledger_enabled A then []
      else case fe_ledger E since_ts since_id (safe_limit A) of Inl e \<Rightarrow> []
      | Inr items \<Rightarrow> (case merge_read_state (fe_store E 3) (nq_reader_key (sa_query A))
            (workspace_filtered_items (sa_allowed A) (nq_workspace_id (stream_query A 1)) items) s of Inl e \<Rightarrow> [] | Inr xs \<Rightarrow> xs))"

definition stream_page :: "stream_args \<Rightarrow> feed_env \<Rightarrow> int option \<Rightarrow> string \<Rightarrow> notification_db \<Rightarrow> pydict list res" where
  "stream_page A E since_ts since_id s =
     (case list_runtime_notifications_since (fe_store E 1) (fe_store E 2) (stream_query A (safe_limit A)) (sa_allowed A) since_ts since_id s of
        Inl e \<Rightarrow> Inl e
      | Inr items \<Rightarrow> (let ledger = ledger_page A E since_ts since_id s in
          Inr (if ledger = [] then items else merge_notification_sources (sa_from_iso A) ledger items)))"

definition stream_head :: "stream_args \<Rightarrow> feed_env \<Rightarrow> notification_db \<Rightarrow> pydict option res" where
  "stream_head A E s =
     (case list_runtime_notifications_since (fe_store E 1) (fe_store E 2) (stream_query A 1) (sa_allowed A) None [] s of Inl e \<Rightarrow> Inl e
      | Inr items \<Rightarrow> Inr (newest_notification_item (sa_from_iso A) (items @
          (if \<not> ledger_enabled A then []
           else case fe_ledger E None [] 1 of Inl e \<Rightarrow> []
           | Inr found \<Rightarrow> workspace_filtered_items (sa_allowed A) (nq_workspace_id (stream_query A 1)) found))))"

definition beat :: "stream_args \<Rightarrow> feed_env \<Rightarrow> stream_state \<Rightarrow> stream_state \<times> stream_event list" where
  "beat A E st = (if next_heartbeat st \<le> fe_monotonic E
     then (st\<lparr>next_heartbeat := fe_monotonic E + safe_heartbeat A\<rparr>, [Heartbeat (local_now_iso (fe_store E 0))]) else (st, []))"

definition emit_page :: "stream_args \<Rightarrow> feed_env \<Rightarrow> pydict list \<Rightarrow> stream_state \<Rightarrow> stream_state \<times> stream_event list" where
  "emit_page A E candidates st =
     (case candidates of [] \<Rightarrow> beat A E st
      | newest # _ \<Rightarrow>
         (st\<lparr>cursor_id := strip (py_str_of (por (dget newest ''id'') (PStr (cursor_id st)))),
             cursor_ts := ts_or (feed_ts (sa_from_iso A) (dget newest ''ts'')) (cursor_ts st),
             next_heartbeat := fe_emitted_at E + safe_heartbeat A\<rparr>,
          map Notified (rev (limit_rows (safe_limit A) candidates))))"

text \<open>One turn of the loop: the state it goes on with, \<open>None\<close> when it ends, and what it yields.\<close>

definition poll_stream ::
    "stream_args \<Rightarrow> feed_env \<Rightarrow> notification_db \<Rightarrow> stream_state \<Rightarrow> stream_state option res \<times> stream_event list" where
  "poll_stream A E s st =
     (if safe_timeout A \<le> fe_monotonic E - started_mono st then (Inr None, [Done (local_now_iso (fe_store E 0))])
      else (let st = st\<lparr>cursor_ts := resolved_cursor A E s st\<rparr> in
        if backlog_once st \<or> cursor_ts st \<noteq> None then
          (case stream_page A E (if backlog_once st then None else cursor_ts st) (if backlog_once st then [] else cursor_id st) s of
             Inl e \<Rightarrow> (Inl e, [])
           | Inr candidates \<Rightarrow> (let (st', evs) = emit_page A E candidates (st\<lparr>backlog_once := False\<rparr>) in (Inr (Some st'), evs)))
        else
          (case stream_head A E s of
             Inl e \<Rightarrow> (Inl e, [])
           | Inr newest \<Rightarrow> (let (st', evs) = beat A E (case newest of None \<Rightarrow> st
               | Some x \<Rightarrow> st\<lparr>cursor_id := tok (dget x ''id''), cursor_ts := ts_or (feed_ts (sa_from_iso A) (dget x ''ts'')) (cursor_ts st)\<rparr>)
             in (Inr (Some st'), evs)))))"

text \<open>A stream over a history: the environment and the tables each poll meets.\<close>

fun follow :: "stream_args \<Rightarrow> (feed_env \<times> notification_db) list \<Rightarrow> stream_state \<Rightarrow> stream_event list" where
  "follow A [] st = []"
| "follow A ((E, s) # h) st = (case poll_stream A E s st of (Inr (Some st'), evs) \<Rightarrow> evs @ follow A h st' | (_, evs) \<Rightarrow> evs)"

fun notified :: "stream_event list \<Rightarrow> pydict list" where
  "notified [] = []"
| "notified (Notified item # evs) = item # notified evs"
| "notified (_ # evs) = notified evs"

subsection \<open>What the stream yields is newer than what it yielded\<close>

text \<open>A table whose rows have ids and moments that read back; \<open>upsert_notification\<close> writes such rows when the moment is valid.\<close>

definition idful :: "notification_db \<Rightarrow> bool" where
  "idful s \<longleftrightarrow> (\<forall>r \<in> set (notices s). nt_id r \<noteq> [] \<and> tok (dget (nt_notification r) ''id'') = nt_id r)"

definition timed :: "(string \<Rightarrow> int option) \<Rightarrow> notification_db \<Rightarrow> bool" where
  "timed from_iso s \<longleftrightarrow> idful s \<and> (\<forall>r \<in> set (notices s). feed_ts from_iso (dget (notification_item None r) ''ts'') = Some (nt_sort_ts r) \<and> nt_sort_ts r \<noteq> 0)"

definition item_key :: "(string \<Rightarrow> int option) \<Rightarrow> pydict \<Rightarrow> int \<times> string" where
  "item_key from_iso item = (case feed_ts from_iso (dget item ''ts'') of Some t \<Rightarrow> t | None \<Rightarrow> 0, tok (dget item ''id''))"

lemma item_id_fields:
  assumes "idful s" and "r \<in> set (notices s)"
  shows "tok (dget (with_reader reader t r) ''id'') = nt_id r" "dget (with_reader reader t r) ''id'' = PStr (nt_id r)" "strip (nt_id r) = nt_id r"
proof -
  from assms have r: "nt_id r \<noteq> []" "tok (dget (nt_notification r) ''id'') = nt_id r" by (auto simp: idful_def)
  show "strip (nt_id r) = nt_id r" unfolding r(2) [symmetric] by simp
  then show id: "dget (with_reader reader t r) ''id'' = PStr (nt_id r)"
    using r por_given [of "dget (nt_notification r) ''id''"] by (simp add: with_reader_def notification_item_def dget_fill) (simp add: fill_def)
  then show "tok (dget (with_reader reader t r) ''id'') = nt_id r" using \<open>strip (nt_id r) = nt_id r\<close> by simp
qed

lemma item_ts: "dget (with_reader reader t r) ''ts'' = dget (notification_item None r) ''ts''"
  by (simp add: with_reader_def notification_item_def)

lemma item_fields:
  assumes "timed from_iso s" and "r \<in> set (notices s)"
  shows "tok (dget (with_reader reader t r) ''id'') = nt_id r" "feed_ts from_iso (dget (with_reader reader t r) ''ts'') = Some (nt_sort_ts r)"
    "dget (with_reader reader t r) ''id'' = PStr (nt_id r)" "strip (nt_id r) = nt_id r"
  using assms item_id_fields [of s r] by (simp_all add: timed_def item_ts)

lemma timed_ids: "timed from_iso s \<Longrightarrow> idful s"
  by (simp add: timed_def)

lemma set_feed_order [simp]: "set (feed_order rows) = set rows" "length (feed_order rows) = length rows"
  by (simp_all add: feed_order_def)

lemma feed_order_sorted:
  "keys_distinct nt_id rows \<Longrightarrow> sorted_wrt (\<lambda>a b. feed_key b < feed_key a) (feed_order rows)"
proof -
  assume d: "keys_distinct nt_id rows"
  have "distinct (map nt_id (sort_key feed_key rows))" using d by (simp add: keys_distinct_def distinct_map)
  then have "distinct (map feed_key (sort_key feed_key rows))"
    by (auto simp: distinct_map inj_on_def feed_key_def)
  moreover have "sorted (map feed_key (sort_key feed_key rows))" by simp
  ultimately have "sorted_wrt (<) (map feed_key (sort_key feed_key rows))" by (simp only: strict_sorted_iff)
  then show ?thesis by (simp add: feed_order_def sorted_wrt_rev sorted_wrt_map)
qed

lemma item_with_row:
  assumes "idful s" and "set rows \<subseteq> set (notices s)" and "keys_distinct nt_id (notices s)" and "r \<in> set rows"
  shows "item_with (nt_id r) (map (with_reader reader t) rows) = Some (with_reader reader t r)"
proof -
  have "find (\<lambda>item. tok (dget item ''id'') = nt_id r) (map (with_reader reader t) rows') = Some (with_reader reader t r)"
    if "r \<in> set rows'" "set rows' \<subseteq> set (notices s)" for rows'
    using that
  proof (induction rows')
    case (Cons x rows')
    then have x: "x \<in> set (notices s)" "r \<in> set (notices s)" by auto
    have "x = r" if "nt_id x = nt_id r"
      using that x assms(3) by (auto simp: keys_distinct_def distinct_map inj_on_def)
    with Cons item_id_fields(1) [OF assms(1) x(1)] show ?case by auto
  qed simp
  from this [of "rev rows"] assms(2,4) show ?thesis by (simp add: item_with_def rev_map)
qed

lemma feed_rows_sub: "set (feed_rows q scope ts i s) \<subseteq> set (notices s)"
  by (auto simp: feed_rows_def)

definition page_rows :: "notification_query \<Rightarrow> string list option \<Rightarrow> int option \<Rightarrow> string \<Rightarrow> notification_db \<Rightarrow> notification_row list" where
  "page_rows q scope ts i s = limit_rows (max 1 (if nq_limit q = 0 then 100 else nq_limit q)) (feed_order (feed_rows q scope ts i s))"

lemma page_rows_sub: "set (page_rows q scope ts i s) \<subseteq> set (feed_rows q scope ts i s)"
  by (auto simp: page_rows_def limit_rows_def dest: in_set_takeD)

text \<open>A page of the store is the newest rows of its query.\<close>

lemma since_page:
  assumes "idful s" and "keys_distinct nt_id (notices s)"
    and "list_runtime_notifications_since L L' q scope ts i s = Inr items"
  shows "items = [] \<or> items = map (with_reader (strip (nq_reader_key q)) s) (page_rows q scope ts i s)"
    and "transaction L 2 = Inr () \<Longrightarrow> \<not> no_workspace scope \<Longrightarrow> items = map (with_reader (strip (nq_reader_key q)) s) (page_rows q scope ts i s)"
proof -
  let ?rows = "page_rows q scope ts i s" and ?ids = "runtime_notification_query_ids L q scope ts i s"
  have sub: "set ?rows \<subseteq> set (notices s)" using page_rows_sub feed_rows_sub by blast
  have strip: "strip (nt_id r) = nt_id r" "nt_id r \<noteq> []" if "r \<in> set ?rows" for r
    using that sub item_id_fields(3) [OF assms(1)] assms(1) by (auto simp: idful_def)
  have go: "filter (\<lambda>i. i \<noteq> []) (map (\<lambda>r. strip (nt_id r)) ?rows) = map nt_id ?rows"
    using strip by (induction ?rows) (simp_all add: filter_id_conv)
  have ids: "?ids = [] \<or> ?ids = map nt_id ?rows" "transaction L 2 = Inr () \<Longrightarrow> \<not> no_workspace scope \<Longrightarrow> ?ids = map nt_id ?rows"
    using go by (auto simp: runtime_notification_query_ids_def page_rows_def split: sum.splits)
  have main: "items = map (with_reader (strip (nq_reader_key q)) s) ?rows" if "?ids = map nt_id ?rows" "?rows \<noteq> []"
  proof -
    let ?found = "order_desc nt_sort_ts (filter (\<lambda>r. nt_id r \<in> set ?ids) (notices s))"
    have norm: "filter (\<lambda>i. i \<noteq> []) (map strip ?ids) = ?ids" unfolding that(1) using strip by (simp add: go o_def)
    have items: "items = List.map_filter (\<lambda>i. item_with i (map (with_reader (strip (nq_reader_key q)) s) ?found)) ?ids"
      using assms(3) that norm by (auto simp: list_runtime_notifications_since_def list_notifications_by_ids_def Let_def split: sum.splits)
    have "item_with (nt_id r) (map (with_reader (strip (nq_reader_key q)) s) ?found) = Some (with_reader (strip (nq_reader_key q)) s r)" if "r \<in> set ?rows" for r
      using that sub by (intro item_with_row [OF assms(1) _ assms(2)]) (auto simp: order_desc_def \<open>?ids = map nt_id ?rows\<close>)
    then show ?thesis unfolding items that(1) by (induction ?rows) (auto simp: List.map_filter_def)
  qed
  have none: "items = []" if "?ids = []" using assms(3) that by (simp add: list_runtime_notifications_since_def)
  show "items = [] \<or> items = map (with_reader (strip (nq_reader_key q)) s) ?rows" using ids(1) main none by (cases "?rows = []") auto
  show "transaction L 2 = Inr () \<Longrightarrow> \<not> no_workspace scope \<Longrightarrow> items = map (with_reader (strip (nq_reader_key q)) s) ?rows"
    using ids(2) main none by (cases "?rows = []") auto
qed

text \<open>What a page yields, for a stream that follows the store alone.\<close>

lemma notified_append [simp]: "notified (xs @ ys) = notified xs @ notified ys"
  by (induction xs rule: notified.induct) simp_all

lemma notified_map [simp]: "notified (map Notified xs) = xs"
  by (induction xs) simp_all

lemma beat_facts [simp]: "cursor_id (fst (beat A E st)) = cursor_id st" "cursor_ts (fst (beat A E st)) = cursor_ts st"
    "backlog_once (fst (beat A E st)) = backlog_once st" "notified (snd (beat A E st)) = []"
  by (simp_all add: beat_def)

lemma page_rows_keys:
  assumes "timed from_iso s" and "set rows \<subseteq> set (notices s)"
  shows "map (item_key from_iso) (map (with_reader reader s) rows) = map feed_key rows"
  using assms(2) by (induction rows) (simp_all add: item_key_def feed_key_def item_fields [OF assms(1)])

lemma emit_rows:
  assumes "timed (sa_from_iso A) s" and "set rows \<subseteq> set (notices s)" and "sorted_wrt (\<lambda>a b. feed_key b < feed_key a) rows"
    and "emit_page A E (map (with_reader reader s) rows) st = (st', evs)" and "strip (cursor_id st) = cursor_id st"
  shows "map (item_key (sa_from_iso A)) (notified evs) = map feed_key (rev (limit_rows (safe_limit A) rows))"
    and "sorted_wrt (<) (map feed_key (rev (limit_rows (safe_limit A) rows)))"
    and "backlog_once st' = backlog_once st" and "strip (cursor_id st') = cursor_id st'"
    and "rows = [] \<Longrightarrow> cursor_ts st' = cursor_ts st \<and> cursor_id st' = cursor_id st"
    and "rows \<noteq> [] \<Longrightarrow> cursor_ts st' = Some (nt_sort_ts (hd rows)) \<and> cursor_id st' = nt_id (hd rows)"
proof -
  have take: "set (limit_rows n rows) \<subseteq> set (notices s)" for n using assms(2) by (auto simp: limit_rows_def dest: in_set_takeD)
  have "sorted_wrt (\<lambda>a b. feed_key b < feed_key a) (limit_rows (safe_limit A) rows)"
    using assms(3) by (simp add: limit_rows_def sorted_wrt_take)
  then show "sorted_wrt (<) (map feed_key (rev (limit_rows (safe_limit A) rows)))" by (simp add: sorted_wrt_map sorted_wrt_rev)
  show "map (item_key (sa_from_iso A)) (notified evs) = map feed_key (rev (limit_rows (safe_limit A) rows))"
  proof -
    have "notified evs = rev (limit_rows (safe_limit A) (map (with_reader reader s) rows))"
      using assms(4) beat_facts(4) [of A E st] by (cases rows) (auto simp: emit_page_def limit_rows_def)
    then have "notified evs = map (with_reader reader s) (rev (limit_rows (safe_limit A) rows))" by (simp add: limit_rows_def rev_map take_map)
    moreover have "set (rev (limit_rows (safe_limit A) rows)) \<subseteq> set (notices s)" using take by simp
    ultimately show ?thesis using page_rows_keys [OF assms(1)] by metis
  qed
  show "backlog_once st' = backlog_once st" "rows = [] \<Longrightarrow> cursor_ts st' = cursor_ts st \<and> cursor_id st' = cursor_id st"
    using assms(4) beat_facts [of A E st] by (cases rows; auto simp: emit_page_def)+
  have hd: "cursor_ts st' = Some (nt_sort_ts r) \<and> cursor_id st' = nt_id r" if "rows = r # rest" for r rest
  proof -
    have r: "r \<in> set (notices s)" using assms(2) that by simp
    then have "nt_sort_ts r \<noteq> 0" "nt_id r \<noteq> []" using assms(1) by (auto simp: timed_def idful_def)
    with that assms(4) item_fields [OF assms(1) r] show ?thesis by (auto simp: emit_page_def ts_or_def por_def)
  qed
  then show "rows \<noteq> [] \<Longrightarrow> cursor_ts st' = Some (nt_sort_ts (hd rows)) \<and> cursor_id st' = nt_id (hd rows)" by (cases rows) auto
  show "strip (cursor_id st') = cursor_id st'"
  proof (cases rows)
    case Nil
    with assms(4,5) beat_facts(1) [of A E st] show ?thesis by (simp add: emit_page_def) 
  next
    case (Cons r rest)
    then have "strip (nt_id r) = nt_id r" using item_fields(4) [OF assms(1)] assms(2) by simp
    with hd [OF Cons] show ?thesis by simp
  qed
qed

lemma page_rows_sorted: "keys_distinct nt_id (notices s) \<Longrightarrow> sorted_wrt (\<lambda>a b. feed_key b < feed_key a) (page_rows q scope ts i s)"
proof -
  assume "keys_distinct nt_id (notices s)"
  then have "keys_distinct nt_id (feed_rows q scope ts i s)" by (simp add: feed_rows_def keys_distinct_def distinct_map_filter)
  then show ?thesis by (simp add: page_rows_def limit_rows_def sorted_wrt_take feed_order_sorted)
qed

definition follower_wf :: "stream_state \<Rightarrow> bool" where
  "follower_wf st \<longleftrightarrow> strip (cursor_id st) = cursor_id st"

text \<open>The keys a poll yields: in order, beyond the cursor, and the cursor is then the last of them.\<close>

definition yields :: "stream_state \<Rightarrow> (int \<times> string) list \<Rightarrow> stream_state \<Rightarrow> bool" where
  "yields st ks st' \<longleftrightarrow> follower_wf st' \<and> \<not> backlog_once st' \<and> (ks \<noteq> [] \<longrightarrow> cursor_ts st' = Some (fst (last ks)) \<and> cursor_id st' = snd (last ks))
     \<and> (ks = [] \<and> \<not> backlog_once st \<and> cursor_ts st \<noteq> None \<longrightarrow> cursor_ts st' = cursor_ts st \<and> cursor_id st' = cursor_id st)"

definition beyond :: "stream_state \<Rightarrow> (int \<times> string) list \<Rightarrow> bool" where
  "beyond st ks \<longleftrightarrow> sorted_wrt (<) ks \<and> (\<forall>t. cursor_ts st = Some t \<and> \<not> backlog_once st \<longrightarrow> (\<forall>k \<in> set ks. (t, cursor_id st) < k))"

lemma resolved_same: "cursor_ts st = Some t \<Longrightarrow> resolved_cursor A E s st = Some t"
  by (simp add: resolved_cursor_def)

lemma after_cursor_key: "after_cursor (Some t) i r \<Longrightarrow> strip i = i \<Longrightarrow> (t, i) < feed_key r"
  by (auto simp: after_cursor_def feed_key_def less_prod_def)

lemma page_outcome:
  assumes "timed (sa_from_iso A) s" and "keys_distinct nt_id (notices s)" and "\<not> ledger_enabled A" and "follower_wf st"
    and "stream_page A E since i s = Inr items" and "emit_page A E items (st\<lparr>backlog_once := False\<rparr>) = (st', evs)"
    and "(since, i) = (if backlog_once st then (None, []) else (cursor_ts st, cursor_id st))" and "backlog_once st \<or> cursor_ts st \<noteq> None"
  shows "yields st (map (item_key (sa_from_iso A)) (notified evs)) st' \<and> beyond st (map (item_key (sa_from_iso A)) (notified evs))"
proof -
  let ?q = "stream_query A (safe_limit A)"
  define rows where "rows = (if items = [] then [] else page_rows ?q (sa_allowed A) since i s)"
  have "list_runtime_notifications_since (fe_store E 1) (fe_store E 2) ?q (sa_allowed A) since i s = Inr items"
    using assms(3,5) by (auto simp: stream_page_def ledger_page_def split: sum.splits)
  from since_page(1) [OF timed_ids [OF assms(1)] assms(2) this] have items: "items = map (with_reader (strip (nq_reader_key ?q)) s) rows"
    by (auto simp: rows_def)
  have sub: "set rows \<subseteq> set (feed_rows ?q (sa_allowed A) since i s)" using page_rows_sub by (auto simp: rows_def)
  then have sub': "set rows \<subseteq> set (notices s)" using feed_rows_sub by blast
  have sorted: "sorted_wrt (\<lambda>a b. feed_key b < feed_key a) rows" using page_rows_sorted [OF assms(2)] by (simp add: rows_def)
  have wf: "strip (cursor_id (st\<lparr>backlog_once := False\<rparr>)) = cursor_id (st\<lparr>backlog_once := False\<rparr>)" using assms(4) by (simp add: follower_wf_def)
  note out = emit_rows [OF assms(1) sub' sorted assms(6) [unfolded items] wf]
  define page where "page = limit_rows (safe_limit A) rows"
  have last: "last (map feed_key (rev page)) = feed_key (hd rows)" "page \<noteq> []" if "rows \<noteq> []"
    using that by (auto simp: page_def limit_rows_def safe_limit_def last_map last_rev hd_take)
  have empty: "page = []" if "rows = []" using that by (simp add: page_def limit_rows_def)
  have psub: "set page \<subseteq> set rows" by (auto simp: page_def limit_rows_def dest: in_set_takeD)
  have keys: "map (item_key (sa_from_iso A)) (notified evs) = map feed_key (rev page)" using out(1) by (simp add: page_def)
  have "yields st (map feed_key (rev page)) st'"
    using out(3-6) last empty by (cases "rows = []") (auto simp: yields_def follower_wf_def feed_key_def)
  moreover have "beyond st (map feed_key (rev page))"
    using out(2) psub sub assms(4,7) by (auto simp: beyond_def page_def follower_wf_def feed_rows_def intro!: after_cursor_key)
  ultimately show ?thesis by (simp only: keys)
qed

lemma poll_outcome:
  assumes "timed (sa_from_iso A) s" and "keys_distinct nt_id (notices s)" and "\<not> ledger_enabled A" and "follower_wf st"
    and "poll_stream A E s st = (r, evs)" and "ks = map (item_key (sa_from_iso A)) (notified evs)"
  shows "beyond st ks \<and> (case r of Inr (Some st') \<Rightarrow> yields st ks st' | _ \<Rightarrow> ks = [])"
proof (cases "safe_timeout A \<le> fe_monotonic E - started_mono st")
  case True
  with assms(5,6) show ?thesis by (auto simp: poll_stream_def beyond_def)
next
  case False
  define st0 where "st0 = st\<lparr>cursor_ts := resolved_cursor A E s st\<rparr>"
  have st0: "follower_wf st0" "backlog_once st0 = backlog_once st" "cursor_id st0 = cursor_id st" "cursor_ts st \<noteq> None \<Longrightarrow> cursor_ts st0 = cursor_ts st"
    using assms(4) resolved_same [of st] by (auto simp: st0_def follower_wf_def)
  have from_st0: "beyond st0 ks \<Longrightarrow> beyond st ks" "yields st0 ks st' \<Longrightarrow> yields st ks st'" for st'
    using st0 by (auto simp: beyond_def yields_def)
  show ?thesis
  proof (cases "backlog_once st0 \<or> cursor_ts st0 \<noteq> None")
    case True
    define since where "since = (if backlog_once st0 then None else cursor_ts st0)"
    define i where "i = (if backlog_once st0 then [] else cursor_id st0)"
    have go: "poll_stream A E s st = (case stream_page A E since i s of Inl e \<Rightarrow> (Inl e, [])
        | Inr candidates \<Rightarrow> (let (st', evs) = emit_page A E candidates (st0\<lparr>backlog_once := False\<rparr>) in (Inr (Some st'), evs)))"
      using False True unfolding poll_stream_def st0_def [symmetric] since_def i_def by (simp add: Let_def)
    show ?thesis
    proof (cases "stream_page A E since i s")
      case (Inl e)
      with go assms(5,6) show ?thesis by (auto simp: beyond_def)
    next
      case (Inr items)
      obtain st' evs' where e: "emit_page A E items (st0\<lparr>backlog_once := False\<rparr>) = (st', evs')" by (metis surj_pair)
      with go Inr assms(5) have r: "r = Inr (Some st')" "evs = evs'" by simp_all
      from page_outcome [OF assms(1-3) st0(1) Inr e] True have "yields st0 ks st' \<and> beyond st0 ks"
        by (simp add: since_def i_def assms(6) r(2))
      with from_st0 r(1) show ?thesis by auto
    qed
  next
    case head: False
    have go: "poll_stream A E s st = (case stream_head A E s of Inl e \<Rightarrow> (Inl e, [])
        | Inr newest \<Rightarrow> (let (st', evs) = beat A E (case newest of None \<Rightarrow> st0
            | Some x \<Rightarrow> st0\<lparr>cursor_id := tok (dget x ''id''), cursor_ts := ts_or (feed_ts (sa_from_iso A) (dget x ''ts'')) (cursor_ts st0)\<rparr>)
          in (Inr (Some st'), evs)))"
      using False head unfolding poll_stream_def st0_def [symmetric] by (simp add: Let_def)
    show ?thesis
    proof (cases "stream_head A E s")
      case (Inl e)
      with go assms(5,6) show ?thesis by (auto simp: beyond_def)
    next
      case (Inr newest)
      define st1 where "st1 = (case newest of None \<Rightarrow> st0
            | Some x \<Rightarrow> st0\<lparr>cursor_id := tok (dget x ''id''), cursor_ts := ts_or (feed_ts (sa_from_iso A) (dget x ''ts'')) (cursor_ts st0)\<rparr>)"
      have st1: "strip (cursor_id st1) = cursor_id st1" "\<not> backlog_once st1"
        using head st0(1) by (auto simp: st1_def follower_wf_def split: option.split)
      have out: "(r, evs) = (Inr (Some (fst (beat A E st1))), snd (beat A E st1))"
        using go assms(5) unfolding Inr sum.case st1_def [symmetric] by (simp add: case_prod_unfold Let_def)
      then have "ks = []" using assms(6) by simp
      with out st1 head st0(2,4) show ?thesis by (auto simp: beyond_def yields_def follower_wf_def)
    qed
  qed
qed

lemma follow_beyond:
  assumes "\<not> ledger_enabled A" and "\<forall>(E, s) \<in> set h. timed (sa_from_iso A) s \<and> keys_distinct nt_id (notices s)"
  shows "follower_wf st \<Longrightarrow> beyond st (map (item_key (sa_from_iso A)) (notified (follow A h st)))"
  using assms(2)
proof (induction h arbitrary: st)
  case (Cons x h)
  obtain E s where x: "x = (E, s)" by (cases x)
  obtain r evs where p: "poll_stream A E s st = (r, evs)" by (metis surj_pair)
  define ks where "ks = map (item_key (sa_from_iso A)) (notified evs)"
  have "timed (sa_from_iso A) s" "keys_distinct nt_id (notices s)" using Cons.prems(2) x by auto
  note out = poll_outcome [OF this assms(1) Cons.prems(1) p ks_def]
  show ?case
  proof (cases "\<exists>st'. r = Inr (Some st')")
    case False
    then have "follow A (x # h) st = evs" using p x by (auto split: sum.splits option.splits)
    with out show ?thesis by (simp add: ks_def)
  next
    case True
    then obtain st' where r: "r = Inr (Some st')" by blast
    define rest where "rest = map (item_key (sa_from_iso A)) (notified (follow A h st'))"
    have y: "yields st ks st'" and b: "beyond st ks" using out r by simp_all
    have "follower_wf st'" using y by (simp add: yields_def)
    from Cons.IH [OF this] Cons.prems(2) have rest: "beyond st' rest" by (simp add: rest_def)
    have "map (item_key (sa_from_iso A)) (notified (follow A (x # h) st)) = ks @ rest" using p x r by (simp add: ks_def rest_def)
    moreover have "beyond st (ks @ rest)"
    proof (cases "ks = []")
      case True
      with y have "\<forall>t. cursor_ts st = Some t \<and> \<not> backlog_once st \<longrightarrow> cursor_ts st' = Some t \<and> cursor_id st' = cursor_id st \<and> \<not> backlog_once st'"
        by (simp add: yields_def)
      with rest True show ?thesis unfolding beyond_def by (metis append_Nil)
    next
      case False
      then have c: "cursor_ts st' = Some (fst (last ks))" "cursor_id st' = snd (last ks)" "\<not> backlog_once st'" using y by (simp_all add: yields_def)
      then have after: "last ks < k" if "k \<in> set rest" for k using rest that by (simp add: beyond_def)
      have "k \<le> last ks" if "k \<in> set ks" for k
        using b that False by (metis append_butlast_last_id beyond_def less_imp_le order_refl sorted_wrt_append
            UnE list.set_intros(1) set_append set_ConsD empty_iff list.set(1))
      with after have "k < k'" if "k \<in> set ks" "k' \<in> set rest" for k k' using that by (meson le_less_trans)
      moreover have "(t, cursor_id st) < k" if "cursor_ts st = Some t" "\<not> backlog_once st" "k \<in> set rest" for t k
        using b that False after [OF that(3)] by (meson beyond_def last_in_set less_trans)
      ultimately show ?thesis using b rest by (auto simp: beyond_def sorted_wrt_append)
    qed
    ultimately show ?thesis by simp
  qed
qed (simp add: beyond_def)

text \<open>
  C26. The stream of notifications is in order and repeats nothing, as long as it can read their moments.
  For a stream that follows the store alone (no workspace is asked for, so the ledger is not read), and
  tables in which every notification has an id and a moment that reads as the moment it is sorted by and is
  not 0, the moments and ids of all notifications it ever yields increase strictly, from the first poll on,
  with or without a cursor or backlog, however the tables change between polls and whichever queries fail;
  a notification comes again only if it was written again with a later moment.
\<close>

theorem stream_yields_newer:
  assumes "\<not> ledger_enabled A" and "\<forall>(E, s) \<in> set h. timed (sa_from_iso A) s \<and> keys_distinct nt_id (notices s)"
  shows "sorted_wrt (<) (map (item_key (sa_from_iso A)) (notified (follow A h (stream_start A t0))))"
proof -
  have "follower_wf (stream_start A t0)" by (simp add: follower_wf_def stream_start_def Let_def)
  from follow_beyond [OF assms this] show ?thesis by (simp add: beyond_def)
qed

lemma since_answers: "store_ok L' \<Longrightarrow> \<exists>items. list_runtime_notifications_since L L' q scope ts i s = Inr items"
  by (simp add: list_runtime_notifications_since_def list_notifications_by_ids_def Let_def)

text \<open>One poll with a cursor, when the store answers.\<close>

lemma poll_page:
  assumes "idful s" and "keys_distinct nt_id (notices s)" and "\<not> ledger_enabled A" and "\<not> backlog_once st"
    and "cursor_ts st = Some t" and "fe_monotonic E - started_mono st < safe_timeout A" and "\<not> no_workspace (sa_allowed A)"
    and "store_ok (fe_store E 1)" and "store_ok (fe_store E 2)"
  shows "notified (snd (poll_stream A E s st)) = map (with_reader (strip (nq_reader_key (sa_query A))) s)
      (rev (limit_rows (safe_limit A) (feed_order (feed_rows (stream_query A (safe_limit A)) (sa_allowed A) (Some t) (cursor_id st) s))))"
    and "\<exists>st'. fst (poll_stream A E s st) = Inr (Some st') \<and> \<not> backlog_once st' \<and> started_mono st' = started_mono st
      \<and> cursor_ts st' = (case limit_rows (safe_limit A) (feed_order (feed_rows (stream_query A (safe_limit A)) (sa_allowed A) (Some t) (cursor_id st) s)) of [] \<Rightarrow> Some t
          | r # _ \<Rightarrow> ts_or (feed_ts (sa_from_iso A) (dget (notification_item None r) ''ts'')) (Some t))"
proof -
  let ?q = "stream_query A (safe_limit A)"
  have n: "nq_limit ?q = safe_limit A" "1 \<le> safe_limit A" "strip (nq_reader_key ?q) = strip (nq_reader_key (sa_query A))"
    by (simp_all add: stream_query_def safe_limit_def)
  let ?rows = "limit_rows (safe_limit A) (feed_order (feed_rows ?q (sa_allowed A) (Some t) (cursor_id st) s))"
  have page: "page_rows ?q (sa_allowed A) (Some t) (cursor_id st) s = ?rows" using n by (simp add: page_rows_def)
  obtain items where i: "list_runtime_notifications_since (fe_store E 1) (fe_store E 2) ?q (sa_allowed A) (Some t) (cursor_id st) s = Inr items"
    using since_answers [OF assms(9)] by blast
  have "transaction (fe_store E 1) 2 = Inr ()" using assms(8) by simp
  from since_page(2) [OF assms(1,2) i this assms(7)] have items: "items = map (with_reader (strip (nq_reader_key (sa_query A))) s) ?rows"
    by (simp only: page n(3))
  have sp: "stream_page A E (Some t) (cursor_id st) s = Inr items" using i assms(3) by (simp add: stream_page_def ledger_page_def)
  have rc: "resolved_cursor A E s st = Some t" by (rule resolved_same [OF assms(5)])
  define st0 where "st0 = st\<lparr>cursor_ts := Some t\<rparr>"
  have st0: "\<not> backlog_once st0" "cursor_ts st0 = Some t" "cursor_id st0 = cursor_id st" using assms(4) by (simp_all add: st0_def)
  have "poll_stream A E s st = (let (st', evs) = emit_page A E items (st0\<lparr>backlog_once := False\<rparr>) in (Inr (Some st'), evs))"
    using assms(6) unfolding poll_stream_def rc st0_def [symmetric] Let_def by (simp add: st0 sp)
  then have go: "poll_stream A E s st = (Inr (Some (fst (emit_page A E items (st0\<lparr>backlog_once := False\<rparr>)))), snd (emit_page A E items (st0\<lparr>backlog_once := False\<rparr>)))"
    by (simp add: case_prod_unfold Let_def)
  then show "\<exists>st'. fst (poll_stream A E s st) = Inr (Some st') \<and> \<not> backlog_once st' \<and> started_mono st' = started_mono st
      \<and> cursor_ts st' = (case ?rows of [] \<Rightarrow> Some t
          | r # _ \<Rightarrow> ts_or (feed_ts (sa_from_iso A) (dget (notification_item None r) ''ts'')) (Some t))"
    unfolding items by (cases ?rows) (simp_all add: emit_page_def beat_def st0_def item_ts)
  have "notified (snd (emit_page A E items (st0\<lparr>backlog_once := False\<rparr>))) = rev (limit_rows (safe_limit A) items)"
    by (cases items) (auto simp: emit_page_def limit_rows_def)
  then show "notified (snd (poll_stream A E s st)) = map (with_reader (strip (nq_reader_key (sa_query A))) s) (rev ?rows)"
    unfolding go snd_conv items by (simp add: limit_rows_def rev_map take_map)
qed

text \<open>
  C30. A poll that finds more than its limit yields the newest and gives up the rest. A stream that follows
  the store alone, has a cursor and is past its backlog yields, when the store answers, as many of the
  matching notifications beyond the cursor as the limit allows, each of them newer than each one it leaves,
  the oldest of them first; and those it leaves are never yielded by any later poll of the stream. With no more
  than the limit nothing is left. As for C26, the notifications have ids and readable moments other than 0.
\<close>

theorem burst_loses_oldest:
  assumes "timed (sa_from_iso A) s" and "keys_distinct nt_id (notices s)" and "\<not> ledger_enabled A" and "\<not> backlog_once st"
    and "cursor_ts st = Some t" and "follower_wf st" and "fe_monotonic E - started_mono st < safe_timeout A" and "\<not> no_workspace (sa_allowed A)"
    and "store_ok (fe_store E 1)" and "store_ok (fe_store E 2)"
    and "rows = feed_rows (stream_query A (safe_limit A)) (sa_allowed A) (Some t) (cursor_id st) s"
    and "\<forall>(E, s) \<in> set h. timed (sa_from_iso A) s \<and> keys_distinct nt_id (notices s)"
  shows "\<exists>page. set page \<subseteq> set rows \<and> length page = min (length rows) (nat (safe_limit A)) \<and> sorted_wrt (<) (map feed_key page)
    \<and> (\<forall>r \<in> set rows - set page. \<forall>p \<in> set page. feed_key r < feed_key p)
    \<and> notified (snd (poll_stream A E s st)) = map (with_reader (strip (nq_reader_key (sa_query A))) s) page
    \<and> (\<forall>r \<in> set rows - set page. \<forall>item \<in> set (notified (follow A ((E, s) # h) st)). item_key (sa_from_iso A) item \<noteq> feed_key r)"
proof -
  define page where "page = rev (limit_rows (safe_limit A) (feed_order rows))"
  have out: "notified (snd (poll_stream A E s st)) = map (with_reader (strip (nq_reader_key (sa_query A))) s) page"
    using poll_page(1) [OF timed_ids [OF assms(1)] assms(2-5,7-10)] by (simp add: page_def assms(11))
  have sub: "set page \<subseteq> set rows" by (auto simp: page_def limit_rows_def dest: in_set_takeD)
  have "set rows \<subseteq> set (notices s)" by (simp add: assms(11) feed_rows_sub)
  with sub have keys: "map (item_key (sa_from_iso A)) (notified (snd (poll_stream A E s st))) = map feed_key page"
    unfolding out by (intro page_rows_keys [OF assms(1)]) blast
  have len: "length page = min (length rows) (nat (safe_limit A))" by (simp add: page_def limit_rows_def min.commute)
  have "keys_distinct nt_id rows" using assms(2) by (simp add: assms(11) feed_rows_def keys_distinct_def distinct_map_filter)
  from feed_order_sorted [OF this] have desc: "sorted_wrt (\<lambda>a b. feed_key b < feed_key a) (feed_order rows)" .
  then have asc: "sorted_wrt (<) (map feed_key page)"
    by (simp add: page_def limit_rows_def sorted_wrt_map sorted_wrt_rev sorted_wrt_take)
  have lower: "feed_key r < feed_key p" if "r \<in> set rows" "r \<notin> set page" "p \<in> set page" for r p
  proof -
    let ?n = "nat (safe_limit A)"
    have "r \<in> set (drop ?n (feed_order rows))" using that(1,2) set_append [of "take ?n (feed_order rows)" "drop ?n (feed_order rows)"]
      by (auto simp: page_def limit_rows_def)
    moreover have "p \<in> set (take ?n (feed_order rows))" using that(3) by (simp add: page_def limit_rows_def)
    moreover have "\<forall>a \<in> set (take ?n (feed_order rows)). \<forall>b \<in> set (drop ?n (feed_order rows)). feed_key b < feed_key a"
      using desc by (metis append_take_drop_id sorted_wrt_append)
    ultimately show ?thesis by blast
  qed
  have "item_key (sa_from_iso A) item \<noteq> feed_key r" if r: "r \<in> set rows" "r \<notin> set page" and i: "item \<in> set (notified (follow A ((E, s) # h) st))" for r item
  proof -
    obtain st' where f: "fst (poll_stream A E s st) = Inr (Some st')" using poll_page(2) [OF timed_ids [OF assms(1)] assms(2-5,7-10)] by blast
    then have p: "poll_stream A E s st = (Inr (Some st'), snd (poll_stream A E s st))" by (simp add: prod_eq_iff)
    have y: "yields st (map feed_key page) st'" using poll_outcome [OF assms(1-3,6) p keys [symmetric]] by simp
    have "0 < nat (safe_limit A)" "0 < length rows" using r(1) by (auto simp: safe_limit_def)
    then have "page \<noteq> []" using len by (auto simp: min_def split: if_splits)
    then have c: "cursor_ts st' = Some (fst (last (map feed_key page)))" "cursor_id st' = snd (last (map feed_key page))" "\<not> backlog_once st'" "follower_wf st'"
      using y by (simp_all add: yields_def)
    have less: "feed_key r < last (map feed_key page)" using lower [OF r] \<open>page \<noteq> []\<close> by (simp add: last_map)
    have rest: "beyond st' (map (item_key (sa_from_iso A)) (notified (follow A h st')))" by (rule follow_beyond [OF assms(3,12) c(4)])
    have "notified (follow A ((E, s) # h) st) = notified (snd (poll_stream A E s st)) @ notified (follow A h st')"
      using p by (metis (no_types, lifting) case_prod_conv follow.simps(2) notified_append option.simps(5) sum.case(2))
    with i consider "item \<in> set (notified (snd (poll_stream A E s st)))" | "item \<in> set (notified (follow A h st'))" by auto
    then show ?thesis
    proof cases
      case 1
      then have "item_key (sa_from_iso A) item \<in> set (map feed_key page)" using keys by (metis image_eqI list.set_map)
      then show ?thesis using lower [OF r] by (metis imageE less_irrefl list.set_map)
    next
      case 2
      then have "last (map feed_key page) < item_key (sa_from_iso A) item" using rest c(1-3) by (simp add: beyond_def)
      with less show ?thesis by (metis less_asym)
    qed
  qed
  with lower show ?thesis by (intro exI [of _ page] conjI ballI sub len asc out) auto
qed

text \<open>A moment that does not parse: the store sorts the row by the time it was written, the stream finds no time for it.\<close>

text \<open>
  C31. A notification whose moment does not parse stops the cursor. The store sorts it by the time it was
  written, the stream finds no time in it and keeps the old cursor. So for as long as it is the newest
  notification that matches the query, whatever else the tables hold at each poll, every poll yields it
  again: among all the stream yields it occurs exactly once per poll. A newer notification whose moment
  can be read ends this.
\<close>

theorem unreadable_moment_repeats:
  assumes "\<not> ledger_enabled A" and "\<not> no_workspace (sa_allowed A)"
    and "feed_ts (sa_from_iso A) (dget (notification_item None r) ''ts'') = None"
    and "\<forall>(E, s) \<in> set h. idful s \<and> keys_distinct nt_id (notices s)
      \<and> (\<forall>i. \<exists>older. feed_order (feed_rows (stream_query A (safe_limit A)) (sa_allowed A) (Some t) i s) = r # older)
      \<and> fe_monotonic E - started_mono st < safe_timeout A \<and> store_ok (fe_store E 1) \<and> store_ok (fe_store E 2)"
    and "\<not> backlog_once st" and "cursor_ts st = Some t"
  shows "count_list (map (\<lambda>item. tok (dget item ''id'')) (notified (follow A h st))) (nt_id r) = length h"
  using assms(4-6)
proof (induction h arbitrary: st)
  case (Cons x h)
  obtain E s where x: "x = (E, s)" by (cases x)
  let ?rows = "feed_rows (stream_query A (safe_limit A)) (sa_allowed A) (Some t) (cursor_id st) s"
  have s: "idful s" "keys_distinct nt_id (notices s)" and e: "fe_monotonic E - started_mono st < safe_timeout A"
    "store_ok (fe_store E 1)" "store_ok (fe_store E 2)"
    and ex: "\<exists>older. feed_order ?rows = r # older"
    using Cons.prems(1) x by auto
  from ex obtain older where top: "feed_order ?rows = r # older" by blast
  note page = poll_page [OF s assms(1) Cons.prems(2,3) e(1) assms(2) e(2,3)]
  define rows where "rows = limit_rows (safe_limit A) (feed_order ?rows)"
  have n: "nat (safe_limit A) = Suc (nat (safe_limit A) - 1)" by (simp add: safe_limit_def)
  have first: "rows = r # take (nat (safe_limit A) - 1) older" unfolding rows_def limit_rows_def top by (subst n) simp
  have once: "count_list (map nt_id rows) (nt_id r) = 1"
  proof -
    have "distinct (map nt_id (feed_order ?rows))"
      using s(2) by (simp add: feed_order_def feed_rows_def keys_distinct_def rev_map [symmetric] distinct_map inj_on_def)
    then have "nt_id r \<notin> set (map nt_id (take (nat (safe_limit A) - 1) older))" unfolding top by (auto dest: in_set_takeD)
    then show ?thesis unfolding first by simp
  qed
  have sub: "set rows \<subseteq> set (notices s)"
    by (auto simp: rows_def limit_rows_def dest!: in_set_takeD subsetD [OF feed_rows_sub])
  have ids: "map (\<lambda>item. tok (dget item ''id'')) (map (with_reader k s) rs) = map nt_id rs" if "set rs \<subseteq> set rows" for k rs
    using that sub item_id_fields(1) [OF s(1)] by (induction rs) auto
  obtain st' where p: "fst (poll_stream A E s st) = Inr (Some st')" "\<not> backlog_once st'" "started_mono st' = started_mono st" "cursor_ts st' = Some t"
    using page(2) assms(3) unfolding rows_def [symmetric] by (auto simp: first ts_or_def)
  have "follow A (x # h) st = snd (poll_stream A E s st) @ follow A h st'" using p(1) x by (cases "poll_stream A E s st") simp
  moreover have "map (\<lambda>item. tok (dget item ''id'')) (notified (snd (poll_stream A E s st))) = rev (map nt_id rows)"
    unfolding page(1) rows_def [symmetric] by (simp add: ids rev_map del: map_map)
  moreover have "count_list (map (\<lambda>item. tok (dget item ''id'')) (notified (follow A h st'))) (nt_id r) = length h"
    using Cons.IH [OF _ p(2,4)] Cons.prems(1) p(3) by auto
  ultimately show ?case using once by simp
qed simp

subsection \<open>Users stay within their workspaces\<close>

definition item_in_scope :: "feed_access \<Rightarrow> string \<Rightarrow> pydict \<Rightarrow> bool" where
  "item_in_scope F requested item \<longleftrightarrow> (requested \<noteq> [] \<longrightarrow> tok (dget item ''workspace_id'') = requested)
     \<and> (case fa_scope F of None \<Rightarrow> True | Some ws \<Rightarrow> tok (dget item ''workspace_id'') \<in> set ws)"

lemma workspace_filtered_scope: "set (workspace_filtered_items (fa_scope F) requested items) = {item \<in> set items. item_in_scope F requested item}"
  by (auto simp: workspace_filtered_items_def item_in_scope_def Let_def split: option.splits)

lemma history_window_sub: "filter_notification_history_window F items = Inr out \<Longrightarrow> set out \<subseteq> set items"
  by (induction items arbitrary: out) (auto split: sum.splits if_splits)

lemma in_window_sub: "in_window F requested items = Inr out \<Longrightarrow> item \<in> set out \<Longrightarrow> item \<in> set items \<and> item_in_scope F requested item"
  unfolding in_window_def by (drule history_window_sub) (auto simp: workspace_filtered_scope)

lemma mark_touches:
  assumes "mark_notifications_read L reader ids [] [] False s = (r, s')" and "read_at_of rd i s' \<noteq> read_at_of rd i s"
  shows "rd = strip reader \<and> i \<in> set (map strip ids)"
proof -
  define targets where "targets = filter (\<lambda>i. i \<noteq> []) (map strip ids)"
  have "read_targets L (strip reader) ids [] [] False s = Inr targets" by (simp add: read_targets_def targets_def)
  with assms obtain k k' where rows: "mark_rows L k (strip reader) (first_seen targets) s = Inr (k', s')"
    unfolding mark_notifications_read_def Let_def by (auto split: sum.splits if_splits)
  from mark_rows_Inr [OF rows] assms(2) have "rd = strip reader \<and> i \<in> set targets" by (auto split: if_splits)
  then show ?thesis by (auto simp: targets_def)
qed

lemma listed_rows:
  assumes "item \<in> set items"
  shows "list_notifications L q s = Inr items \<Longrightarrow> \<exists>r \<in> set (notices s). item = with_reader (strip (nq_reader_key q)) s r"
    and "list_notifications_by_ids L reader ids s = Inr items \<Longrightarrow> \<exists>r \<in> set (notices s). item = with_reader (strip reader) s r"
proof -
  assume "list_notifications L q s = Inr items"
  then obtain r where "r \<in> set (newest_queried q s)" "item = with_reader (strip (nq_reader_key q)) s r"
    using assms by (auto simp: list_notifications_def split: sum.splits)
  moreover have "set (newest_queried q s) \<subseteq> set (notices s)" by (auto simp: newest_queried_def limit_rows_def order_desc_def dest: in_set_takeD)
  ultimately show "\<exists>r \<in> set (notices s). item = with_reader (strip (nq_reader_key q)) s r" by blast
qed (use assms in \<open>auto simp: list_notifications_by_ids_def order_desc_def Let_def split: sum.splits if_splits\<close>)

text \<open>
  C28. A user marks as read only what the user may see. If a call, with ids or for all, changes what any
  reader has read of any notification, the reader is the calling user and the notification exists, lies in a
  workspace the user has access to and in the workspace asked for, if one was.
\<close>

theorem marks_stay_in_scope:
  assumes "mark_allowed_notifications L F q ids mark_all s = (r, s')" and "idful s" and "read_at_of rd i s' \<noteq> read_at_of rd i s"
  shows "rd = strip (reader_key_for_current_user (fa_user F)) \<and> (\<exists>requested row. requested_workspace F q = Inr requested \<and> row \<in> set (notices s)
    \<and> nt_id row = i \<and> item_in_scope F requested (with_reader rd s row))"
proof -
  define reader where "reader = reader_key_for_current_user (fa_user F)"
  define found where "found requested = (if mark_all then list_notifications (L 0) ((all_query reader (strip (nq_tenant_id q)) (strip requested))\<lparr>nq_limit := 5000\<rparr>) s
     else list_notifications_by_ids (L 0) reader (filter (\<lambda>i. i \<noteq> []) (map strip ids)) s)" for requested
  define chosen where "chosen requested items = map (\<lambda>item. tok (dget item ''id'')) (workspace_filtered_items (fa_scope F) requested items)"
    for requested and items :: "pydict list"
  have go: "(case requested_workspace F q of Inl e \<Rightarrow> (Inl e, s)
      | Inr requested \<Rightarrow> (case found requested of Inl e \<Rightarrow> (Inl e, s)
        | Inr items \<Rightarrow> (case mark_notifications_read (L 1) reader (chosen requested items) [] [] False s of
            (Inl e, s') \<Rightarrow> (Inl e, s') | (Inr report, s') \<Rightarrow> (Inr (dmerge [(''status'', PStr ''ok'')] report), s')))) = (r, s')"
    using assms(1) unfolding mark_allowed_notifications_def Let_def reader_def found_def chosen_def .
  have moved: "s' \<noteq> s" using assms(3) by auto
  then obtain requested items where a: "requested_workspace F q = Inr requested" "found requested = Inr items"
    using go by (auto split: sum.splits)
  obtain u s1 where m: "mark_notifications_read (L 1) reader (chosen requested items) [] [] False s = (u, s1)" by (metis surj_pair)
  with go a have "s1 = s'" by (cases u) simp_all
  from mark_touches [OF m [unfolded this] assms(3)] have rd: "rd = strip reader" and "i \<in> set (map strip (chosen requested items))" by simp_all
  then obtain item where item: "item \<in> set items" "item_in_scope F requested item" "i = tok (dget item ''id'')"
    by (auto simp: chosen_def workspace_filtered_scope)
  have "\<exists>row \<in> set (notices s). item = with_reader (strip reader) s row"
    using a(2) listed_rows [OF item(1)] by (fastforce simp: found_def all_query_def split: if_splits)
  then obtain row where row: "row \<in> set (notices s)" "item = with_reader (strip reader) s row" by blast
  with item(3) item_id_fields(1) [OF assms(2) row(1)] have "nt_id row = i" by simp
  with rd row a(1) item(2) show ?thesis by (auto simp: reader_def)
qed

text \<open>Merging two sources keeps the workspace.\<close>

definition dict_ok :: "pydict \<Rightarrow> bool" where
  "dict_ok d \<longleftrightarrow> distinct (map fst d)"

lemma dict_ok_dset [simp]: "dict_ok d \<Longrightarrow> dict_ok (dset k v d)"
  by (simp add: dict_ok_def dset_def distinct_update)

lemma dict_ok_dmerge: "dict_ok a \<Longrightarrow> dict_ok (dmerge a b)"
  by (induction a b rule: dmerge.induct) simp_all

lemma dget_dmerge: "distinct (map fst b) \<Longrightarrow> dget (dmerge a b) k = (if k \<in> fst ` set b then dget b k else dget a k)"
  by (induction a b rule: dmerge.induct) auto

lemma dict_ok_item: "dict_ok (nt_notification r) \<Longrightarrow> dict_ok (with_reader reader s r)"
  by (simp add: with_reader_def notification_item_def fill_def fill_word_def fill_opt_def)

lemma dget_missing: "k \<notin> fst ` set d \<Longrightarrow> dget d k = PNone"
  by (metis dget_def map_of_eq_None_iff option.simps(4))

lemma update_sub: "set (AList.update k v d) \<subseteq> insert (k, v) (set d)"
  by (induction d) auto

lemma merge_item_scope:
  assumes "dict_ok current" and "dict_ok item" and "item_in_scope F requested current" and "requested \<noteq> []"
  shows "dict_ok (merge_item current item)" and "item_in_scope F requested (merge_item current item)"
proof -
  show "dict_ok (merge_item current item)" using assms(1,2) by (simp add: merge_item_def Let_def dict_ok_dmerge)
  have "tok (dget current ''workspace_id'') = requested" using assms(3,4) by (simp add: item_in_scope_def)
  moreover have "tok PNone = []" by (simp add: tok_def por_def)
  ultimately have "''workspace_id'' \<in> fst ` set current" using assms(4) dget_missing [of "''workspace_id''" current] by (cases "''workspace_id'' \<in> fst ` set current") auto
  then have "dget (merge_item current item) ''workspace_id'' = dget current ''workspace_id''"
    using assms(1) by (simp add: merge_item_def Let_def dget_dmerge dict_ok_def)
  with assms(3) show "item_in_scope F requested (merge_item current item)" by (cases "fa_scope F") (simp_all add: item_in_scope_def)
qed

lemma merge_all_scope:
  "\<forall>item \<in> set items. dict_ok item \<and> item_in_scope F requested item \<Longrightarrow> \<forall>x \<in> set merged. dict_ok (snd x) \<and> item_in_scope F requested (snd x) \<Longrightarrow> requested \<noteq> []
    \<Longrightarrow> \<forall>x \<in> set (merge_all items merged). dict_ok (snd x) \<and> item_in_scope F requested (snd x)"
proof (induction items arbitrary: merged)
  case (Cons item items)
  let ?i = "tok (dget item ''id'')"
  define v where "v = (case map_of merged ?i of None \<Rightarrow> item | Some current \<Rightarrow> merge_item current item)"
  have "dict_ok v \<and> item_in_scope F requested v"
  proof (cases "map_of merged ?i")
    case (Some current)
    then have "dict_ok current \<and> item_in_scope F requested current" using Cons.prems(2) map_of_SomeD [OF Some] by auto
    with Some Cons.prems(1,3) merge_item_scope [of current item F requested] show ?thesis by (simp add: v_def)
  qed (use Cons.prems(1) in \<open>simp add: v_def\<close>)
  then have upd: "\<forall>x \<in> set (AList.update ?i v merged). dict_ok (snd x) \<and> item_in_scope F requested (snd x)"
    using Cons.prems(2) update_sub [of ?i v merged] by auto
  have step: "merge_all (item # items) merged = merge_all items (if ?i = [] then merged else AList.update ?i v merged)" by (simp add: v_def Let_def)
  have rest: "\<forall>item \<in> set items. dict_ok item \<and> item_in_scope F requested item" using Cons.prems(1) by (meson list.set_intros(2))
  have "\<forall>x \<in> set (if ?i = [] then merged else AList.update ?i v merged). dict_ok (snd x) \<and> item_in_scope F requested (snd x)"
  proof (cases "?i = []")
    case True
    show ?thesis unfolding if_P [OF True] by (rule Cons.prems(2))
  next
    case False
    show ?thesis unfolding if_not_P [OF False] by (rule upd)
  qed
  from Cons.IH [OF rest this Cons.prems(3)] show ?case unfolding step .
qed simp

text \<open>
  C29. The list a user gets stays in scope. Every item of it, also one merged from the ledger and the
  store, is of a workspace the user has access to, and of the workspace asked for, if one was; and the list has
  at most as many items as asked for, between 1 and 500.
\<close>

theorem payload_in_scope:
  assumes "list_notification_payload L F q include_sessions session_limit s = Inr report" and "requested_workspace F q = Inr requested"
    and "\<forall>r \<in> set (notices s). dict_ok (nt_notification r)" and "\<forall>q items. fa_ledger F q = Inr items \<longrightarrow> (\<forall>item \<in> set items. dict_ok item)"
  shows "\<exists>page. dget report ''items'' = PList (map PDict page) \<and> (\<forall>item \<in> set page. item_in_scope F requested item)
    \<and> int (length page) \<le> max 1 (min (nq_limit q) 500)"
proof -
  define n where "n = max 1 (min (nq_limit q) 500)"
  define q0 where "q0 = user_query F q requested (max n (if requested \<noteq> [] then 500 else n * 4))"
  define whole where "whole merged runtime = (if merged = [] then runtime else merged)" for merged runtime :: "pydict list"
  define rep where "rep all_items = (let page = limit_rows n all_items; sessions = (if include_sessions then summarize_notification_sessions all_items session_limit else [])
     in [(''items'', PList (map PDict page)), (''count'', PInt (int (length page))), (''total'', PInt (int (length all_items))),
         (''sessions'', PList (map PDict sessions)), (''session_count'', PInt (int (length sessions))), (''stream'', PBool False)])" for all_items
  have go: "(case list_notifications (L 0) q0 s of Inl e \<Rightarrow> Inl e
     | Inr items \<Rightarrow> (case in_window F requested items of Inl e \<Rightarrow> Inl e
     | Inr runtime \<Rightarrow> (case merged_items L F q requested n runtime s of Inl e \<Rightarrow> Inl e
     | Inr merged \<Rightarrow> Inr (rep (whole merged runtime))))) = Inr report"
    using assms(1) unfolding list_notification_payload_def Let_def n_def [symmetric] assms(2) sum.case q0_def rep_def whole_def .
  obtain items where a1: "list_notifications (L 0) q0 s = Inr items" using go by (cases "list_notifications (L 0) q0 s") simp_all
  obtain runtime where a2: "in_window F requested items = Inr runtime" using go a1 by (cases "in_window F requested items") simp_all
  obtain merged where a3: "merged_items L F q requested n runtime s = Inr merged" using go a1 a2 by (cases "merged_items L F q requested n runtime s") simp_all
  note a = a1 a2 a3
  define all_items where "all_items = whole merged runtime"
  have page: "dget report ''items'' = PList (map PDict (limit_rows n all_items))"
    using go a by (auto simp: rep_def all_items_def Let_def)
  have run: "dict_ok item \<and> item_in_scope F requested item" if "item \<in> set runtime" for item
  proof -
    have "item \<in> set items" "item_in_scope F requested item"
      using in_window_sub [OF a(2) that] by simp_all
    moreover from this(1) obtain r where "r \<in> set (notices s)" "item = with_reader (strip (nq_reader_key q0)) s r" using listed_rows(1) [OF _ a(1)] by blast
    ultimately show ?thesis using assms(3) dict_ok_item by simp
  qed
  have mrg: "item_in_scope F requested item" if "item \<in> set merged" for item
  proof -
    from that a(3) have req: "requested \<noteq> []" by (auto simp: merged_items_def)
    define q1 where "q1 = (user_query F q requested (max n 500))\<lparr>nq_tenant_id := sor (strip (nq_tenant_id q)) (fa_tenant F requested)\<rparr>"
    from that a(3) req obtain xs scoped primary where l: "fa_ledger F q1 = Inr xs" "in_window F requested xs = Inr scoped"
        "merge_read_state (L 1) (reader_key_for_current_user (fa_user F)) scoped s = Inr primary"
        "merged = merge_notification_sources (fa_from_iso F) primary runtime"
      unfolding merged_items_def q1_def [symmetric] by (auto split: sum.splits list.splits)
    have "dict_ok x \<and> item_in_scope F requested x" if "x \<in> set scoped" for x
      using in_window_sub [OF l(2) that] l(1) assms(4) by blast
    then have "\<forall>x \<in> set primary. dict_ok x \<and> item_in_scope F requested x"
      using l(3) by (auto simp: merge_read_state_def item_in_scope_def split: sum.splits if_splits option.splits)
    with run have "\<forall>x \<in> set (merge_all (primary @ runtime) []). dict_ok (snd x) \<and> item_in_scope F requested (snd x)"
      by (intro merge_all_scope req) auto
    with that l(4) show ?thesis by (auto simp: merge_notification_sources_def)
  qed
  have "\<forall>item \<in> set (limit_rows n all_items). item_in_scope F requested item"
    using run mrg by (auto simp: all_items_def whole_def limit_rows_def dest: in_set_takeD)
  moreover have "int (length (limit_rows n all_items)) \<le> n" by (simp add: limit_rows_def n_def)
  ultimately show ?thesis using page by (auto simp: n_def)
qed

subsection \<open>Concrete streams\<close>

definition demo_iso :: "string \<Rightarrow> int option" where
  "demo_iso v = (if v = ''t5'' then Some 5 else if v = ''t7'' then Some 7 else None)"

definition demo_row_at :: "string \<Rightarrow> string \<Rightarrow> int \<Rightarrow> notification_row" where
  "demo_row_at i t k = demo_notice\<lparr>nt_id := i, nt_sort_ts := k, nt_created_at := t, nt_notification := [(''id'', PStr i), (''ts'', PStr t)]\<rparr>"

definition demo_feed :: "notification_row list \<Rightarrow> notification_db" where
  "demo_feed rows = \<lparr>notices = rows, reads = [], devices = [], deliveries = []\<rparr>"

definition demo_args :: stream_args where
  "demo_args = \<lparr>sa_query = (all_query ''u'' [] [])\<lparr>nq_limit := 1\<rparr>, sa_allowed = None, sa_since_id = [], sa_since_ts = PInt 0,
     sa_include_backlog = False, sa_heartbeat = 0, sa_timeout = 0, sa_from_iso = demo_iso\<rparr>"

definition demo_poll :: "int \<Rightarrow> feed_env" where
  "demo_poll t = \<lparr>fe_store = (\<lambda>k. demo_local), fe_ledger = (\<lambda>t i n. Inr []), fe_ledger_item = (\<lambda>i. Inr None), fe_monotonic = t, fe_emitted_at = t\<rparr>"

lemma feed_words: "strip ''m'' = ''m''" "strip ''n'' = ''n''" "strip ''t5'' = ''t5''" "strip ''t7'' = ''t7''" "strip ''soon'' = ''soon''"
  by (simp_all add: strip_def py_space_def)

lemma demo_ts: "strip t = t \<Longrightarrow> t \<noteq> [] \<Longrightarrow> dget (notification_item None (demo_row_at i t k)) ''ts'' = PStr t"
  by (simp add: notification_item_def dget_fill) (simp add: fill_def demo_row_at_def)

lemma demo_timed: "timed demo_iso (demo_feed [demo_row_at ''m'' ''t5'' 5, demo_row_at ''n'' ''t7'' 7])"
    "keys_distinct nt_id (notices (demo_feed [demo_row_at ''m'' ''t5'' 5, demo_row_at ''n'' ''t7'' 7]))"
  by (simp_all add: timed_def idful_def demo_feed_def demo_ts feed_words feed_ts_def demo_iso_def)
    (simp_all add: demo_row_at_def feed_words keys_distinct_def)

lemma demo_args_simps: "\<not> ledger_enabled demo_args" "sa_from_iso demo_args = demo_iso" "safe_limit demo_args = 1" "safe_timeout demo_args = 1000000"
    "sa_allowed demo_args = None" "\<not> no_workspace (sa_allowed demo_args)" "strip (nq_reader_key (sa_query demo_args)) = ''u''"
  by (simp_all add: demo_args_def ledger_enabled_def all_query_def safe_limit_def safe_timeout_def sec_def no_workspace_def notice_words)

lemma demo_queried: "queried (stream_query demo_args n) (demo_row_at i t k)"
  by (simp add: queried_def wants_def wants_word_def stream_query_def demo_args_def all_query_def)

theorem stream_yields_newer_witness:
  "sorted_wrt (<) (map (item_key (sa_from_iso demo_args)) (notified (follow demo_args
     [(demo_poll 0, demo_feed [demo_row_at ''m'' ''t5'' 5, demo_row_at ''n'' ''t7'' 7]), (demo_poll 1, demo_feed [demo_row_at ''m'' ''t5'' 5, demo_row_at ''n'' ''t7'' 7])]
     (stream_start demo_args 0))))"
  using demo_timed by (intro stream_yields_newer) (simp_all add: demo_args_simps)

definition demo_following :: stream_state where
  "demo_following = \<lparr>cursor_id = [], cursor_ts = Some 1, backlog_once = False, started_mono = 0, next_heartbeat = 5000000\<rparr>"

lemma demo_following_simps: "\<not> backlog_once demo_following" "cursor_ts demo_following = Some 1" "follower_wf demo_following"
    "fe_monotonic (demo_poll t) - started_mono demo_following = t" "store_ok (fe_store (demo_poll t) k)" "cursor_id demo_following = []"
  using demo_local_ok by (simp_all add: demo_following_def follower_wf_def demo_poll_def)

theorem burst_loses_oldest_witness:
  "notified (snd (poll_stream demo_args (demo_poll 0) (demo_feed [demo_row_at ''m'' ''t5'' 5, demo_row_at ''n'' ''t7'' 7]) demo_following))
     = [with_reader ''u'' (demo_feed [demo_row_at ''m'' ''t5'' 5, demo_row_at ''n'' ''t7'' 7]) (demo_row_at ''n'' ''t7'' 7)] \<and>
   (5, ''m'') \<notin> item_key demo_iso ` set (notified (follow demo_args
      [(demo_poll 0, demo_feed [demo_row_at ''m'' ''t5'' 5, demo_row_at ''n'' ''t7'' 7]),
       (demo_poll 1, demo_feed [demo_row_at ''m'' ''t5'' 5, demo_row_at ''n'' ''t7'' 7])] demo_following))"
proof -
  let ?m = "demo_row_at ''m'' ''t5'' 5" and ?n = "demo_row_at ''n'' ''t7'' 7"
  let ?s = "demo_feed [?m, ?n]"
  define rows where "rows = feed_rows (stream_query demo_args (safe_limit demo_args)) (sa_allowed demo_args) (Some 1) (cursor_id demo_following) ?s"
  have two: "rows = [?m, ?n]"
    by (simp add: rows_def feed_rows_def demo_feed_def demo_queried row_allowed_def demo_args_simps after_cursor_def)
      (simp add: demo_row_at_def)
  have h: "\<forall>(E, s) \<in> set [(demo_poll 1, ?s)]. timed (sa_from_iso demo_args) s \<and> keys_distinct nt_id (notices s)"
    using demo_timed by (simp add: demo_args_simps)
  have e: "fe_monotonic (demo_poll 0) - started_mono demo_following < safe_timeout demo_args" by (simp add: demo_following_simps demo_args_simps)
  have t: "timed (sa_from_iso demo_args) ?s" using demo_timed by (simp add: demo_args_simps)
  from burst_loses_oldest [OF t demo_timed(2) demo_args_simps(1) demo_following_simps(1,2,3) e demo_args_simps(6) demo_following_simps(5,5) rows_def h]
  obtain page where page: "set page \<subseteq> set rows" "length page = min (length rows) (nat (safe_limit demo_args))"
    "\<forall>r \<in> set rows - set page. \<forall>p \<in> set page. feed_key r < feed_key p"
    "notified (snd (poll_stream demo_args (demo_poll 0) ?s demo_following)) = map (with_reader (strip (nq_reader_key (sa_query demo_args))) ?s) page"
    "\<forall>r \<in> set rows - set page. \<forall>item \<in> set (notified (follow demo_args [(demo_poll 0, ?s), (demo_poll 1, ?s)] demo_following)).
        item_key (sa_from_iso demo_args) item \<noteq> feed_key r" by blast
  have keys: "feed_key ?m = (5, ''m'')" "feed_key ?n = (7, ''n'')" by (simp_all add: feed_key_def demo_row_at_def)
  then have ne: "?m \<noteq> ?n" by (metis prod.inject num.distinct(5) numeral_eq_iff num.inject(2))
  have "length page = 1" using page(2) by (simp add: two demo_args_simps)
  then obtain p where p: "page = [p]" by (cases page) auto
  have "p \<noteq> ?m"
  proof
    assume "p = ?m"
    with page(3) p ne have "feed_key ?n < feed_key ?m" by (simp add: two)
    then show False by (simp add: keys)
  qed
  with page(1) p have n: "page = [?n]" by (simp add: two)
  with page(5) ne have "\<forall>item \<in> set (notified (follow demo_args [(demo_poll 0, ?s), (demo_poll 1, ?s)] demo_following)).
      item_key (sa_from_iso demo_args) item \<noteq> feed_key ?m" by (simp add: two)
  then have "feed_key ?m \<notin> item_key (sa_from_iso demo_args) ` set (notified (follow demo_args [(demo_poll 0, ?s), (demo_poll 1, ?s)] demo_following))"
    by auto
  with page(4) n show ?thesis by (simp only: keys demo_args_simps list.map) simp
qed

theorem unreadable_moment_repeats_witness:
  "count_list (map (\<lambda>item. tok (dget item ''id'')) (notified (follow demo_args
     [(demo_poll 0, demo_feed [demo_row_at ''n'' ''soon'' 9]), (demo_poll 1, demo_feed [demo_row_at ''n'' ''soon'' 9, demo_row_at ''m'' ''t5'' 5]),
      (demo_poll 2, demo_feed [demo_row_at ''n'' ''soon'' 9])] demo_following))) ''n'' = 3"
proof -
  let ?r = "demo_row_at ''n'' ''soon'' 9" and ?m = "demo_row_at ''m'' ''t5'' 5"
  have ids: "idful (demo_feed rows)" "keys_distinct nt_id (notices (demo_feed rows))" if "rows = [?r] \<or> rows = [?r, ?m]" for rows
    using that by (auto simp: idful_def demo_feed_def demo_row_at_def feed_words keys_distinct_def)
  have rows: "\<exists>older. feed_order (feed_rows (stream_query demo_args (safe_limit demo_args)) (sa_allowed demo_args) (Some 1) i (demo_feed rows)) = ?r # older"
    if "rows = [?r] \<or> rows = [?r, ?m]" for i rows
  proof -
    have "feed_rows (stream_query demo_args (safe_limit demo_args)) (sa_allowed demo_args) (Some 1) i (demo_feed rows) = rows"
      using that by (auto simp: feed_rows_def demo_feed_def demo_queried row_allowed_def demo_args_simps after_cursor_def)
        (simp_all add: demo_row_at_def)
    with that show ?thesis by (auto simp: feed_order_def feed_key_def) (simp_all add: demo_row_at_def)
  qed
  have none: "feed_ts (sa_from_iso demo_args) (dget (notification_item None ?r) ''ts'') = None"
    by (simp add: demo_ts feed_words feed_ts_def demo_args_simps demo_iso_def)
  have h: "\<forall>(E, s) \<in> set [(demo_poll 0, demo_feed [?r]), (demo_poll 1, demo_feed [?r, ?m]), (demo_poll 2, demo_feed [?r])].
      idful s \<and> keys_distinct nt_id (notices s)
      \<and> (\<forall>i. \<exists>older. feed_order (feed_rows (stream_query demo_args (safe_limit demo_args)) (sa_allowed demo_args) (Some 1) i s) = ?r # older)
      \<and> fe_monotonic E - started_mono demo_following < safe_timeout demo_args \<and> store_ok (fe_store E 1) \<and> store_ok (fe_store E 2)"
    using ids rows by (simp add: demo_following_simps demo_args_simps)
  have "nt_id ?r = ''n''" by (simp add: demo_row_at_def)
  with unreadable_moment_repeats [OF demo_args_simps(1,6) none h demo_following_simps(1,2)] show ?thesis by simp
qed

definition demo_access :: feed_access where
  "demo_access = \<lparr>fa_user = None, fa_enforce = (\<lambda>w t. Inr w), fa_scope = Some [''w''], fa_tenant = (\<lambda>w. []), fa_entitlement = (\<lambda>w. Inr []),
     fa_ledger = (\<lambda>q. Inr []), fa_now = 0, fa_from_iso = demo_iso\<rparr>"

definition demo_shared :: notification_db where
  "demo_shared = demo_feed [(demo_row_at ''m'' ''t5'' 5)\<lparr>nt_workspace_id := ''w''\<rparr>, (demo_row_at ''n'' ''t7'' 7)\<lparr>nt_workspace_id := ''x''\<rparr>]"

lemma demo_window: "\<exists>out. filter_notification_history_window demo_access items = Inr out"
proof (induction items)
  case (Cons item items)
  have "py_int (por PNone (PInt 30)) = Inr 30" by (simp add: por_def)
  with Cons show ?case by (auto simp: demo_access_def)
qed simp

theorem payload_in_scope_witness:
  "\<exists>report page. list_notification_payload (\<lambda>k. demo_local) demo_access (all_query [] [] []) True None demo_shared = Inr report
    \<and> dget report ''items'' = PList (map PDict page) \<and> (\<forall>item \<in> set page. tok (dget item ''workspace_id'') = ''w'')"
proof -
  have r: "requested_workspace demo_access (all_query [] [] []) = Inr []" by (simp add: requested_workspace_def all_query_def)
  obtain items where a: "list_notifications demo_local (user_query demo_access (all_query [] [] []) [] 2000) demo_shared = Inr items"
    using demo_local_ok by (simp add: list_notifications_def)
  obtain runtime where b: "in_window demo_access [] items = Inr runtime" using demo_window by (auto simp: in_window_def)
  have n: "max 1 (min (nq_limit (all_query [] [] [])) 500) = 500" by (simp add: all_query_def)
  have c: "merged_items (\<lambda>k. demo_local) demo_access (all_query [] [] []) [] 500 runtime demo_shared = Inr []" by (simp add: merged_items_def)
  have "\<exists>report. list_notification_payload (\<lambda>k. demo_local) demo_access (all_query [] [] []) True None demo_shared = Inr report"
    unfolding list_notification_payload_def Let_def n r sum.case using a b c by simp
  then obtain report where go: "list_notification_payload (\<lambda>k. demo_local) demo_access (all_query [] [] []) True None demo_shared = Inr report" by blast
  have ok: "\<forall>r \<in> set (notices demo_shared). dict_ok (nt_notification r)"
    by (simp add: demo_shared_def demo_feed_def demo_row_at_def dict_ok_def)
  have l: "\<forall>q items. fa_ledger demo_access q = Inr items \<longrightarrow> (\<forall>item \<in> set items. dict_ok item)" by (simp add: demo_access_def)
  from payload_in_scope [OF go r ok l] obtain page where "dget report ''items'' = PList (map PDict page)" "\<forall>item \<in> set page. item_in_scope demo_access [] item"
    by blast
  with go show ?thesis by (auto simp: item_in_scope_def demo_access_def)
qed

lemma demo_marks:
  assumes "strip reader \<noteq> []"
  shows "\<exists>report s'. mark_notifications_read demo_local reader ids [] [] False s = (Inr report, s')
    \<and> (\<forall>i \<in> set (map strip ids). i \<noteq> [] \<and> row_of nt_id i (notices s) \<noteq> None \<longrightarrow> read_at_of (strip reader) i s' = Some (local_now_iso demo_local))"
proof -
  define targets where "targets = filter (\<lambda>i. i \<noteq> []) (map strip ids)"
  have ok: "statement demo_local k = Inr ()" for k using demo_local_ok by (simp add: statement_def store_ok_def)
  have t: "read_targets demo_local (strip reader) ids [] [] False s = Inr targets" by (simp add: read_targets_def targets_def)
  have "\<exists>k' s'. mark_rows demo_local k rd ids' s = Inr (k', s')" for k rd ids' s
    by (induction ids' arbitrary: k s) (simp_all add: ok split: option.split)
  then obtain k' s' where m: "mark_rows demo_local 1 (strip reader) (first_seen targets) s = Inr (k', s')" by blast
  show ?thesis
  proof (cases "targets = []")
    case True
    then have "mark_notifications_read demo_local reader ids [] [] False s = (Inr (mark_report [] None), s)"
      using assms t by (simp add: mark_notifications_read_def)
    with True show ?thesis by (auto simp: targets_def filter_empty_conv)
  next
    case False
    have "mark_notifications_read demo_local reader ids [] [] False s = (Inr (mark_report (first_seen targets) (Some (local_now_iso demo_local))), s')"
      unfolding mark_notifications_read_def Let_def t sum.case demo_gates using assms False m ok by simp
    moreover have "read_at_of (strip reader) i s' = Some (local_now_iso demo_local)" if "i \<in> set targets" "row_of nt_id i (notices s) \<noteq> None" for i
      using mark_rows_Inr [OF m] that by simp
    ultimately show ?thesis by (auto simp: targets_def)
  qed
qed

theorem marks_stay_in_scope_witness:
  "\<exists>r s'. mark_allowed_notifications (\<lambda>k. demo_local) demo_access (all_query [] [] []) [''m'', ''n''] False demo_shared = (r, s')
    \<and> read_at_of ''anonymous'' ''m'' s' \<noteq> read_at_of ''anonymous'' ''m'' demo_shared
    \<and> (\<exists>row \<in> set (notices demo_shared). nt_id row = ''m'' \<and> item_in_scope demo_access [] (with_reader ''anonymous'' demo_shared row))"
proof -
  let ?m = "(demo_row_at ''m'' ''t5'' 5)\<lparr>nt_workspace_id := ''w''\<rparr>"
  have w: "strip ''w'' = ''w''" "strip ''anonymous'' = ''anonymous''" by (simp_all add: strip_def py_space_def)
  have user: "reader_key_for_current_user (fa_user demo_access) = ''anonymous''" by (simp add: demo_access_def reader_key_for_current_user_def)
  have r: "requested_workspace demo_access (all_query [] [] []) = Inr []" by (simp add: requested_workspace_def all_query_def)
  have ids: "idful demo_shared" by (simp add: idful_def demo_shared_def demo_feed_def demo_row_at_def feed_words)
  have m: "?m \<in> set (notices demo_shared)" "nt_id ?m = ''m''" by (simp_all add: demo_shared_def demo_feed_def demo_row_at_def)
  define items where "items = map (with_reader (strip ''anonymous'') demo_shared)
    (order_desc nt_sort_ts (filter (\<lambda>r. nt_id r \<in> set [''m'', ''n'']) (notices demo_shared)))"
  have norm: "filter (\<lambda>i. i \<noteq> []) (map strip [''m'', ''n'']) = [''m'', ''n'']" by (simp add: feed_words)
  have l: "list_notifications_by_ids demo_local ''anonymous'' [''m'', ''n''] demo_shared = Inr items"
    unfolding list_notifications_by_ids_def Let_def norm items_def using demo_local_ok by simp
  have in_m: "with_reader (strip ''anonymous'') demo_shared ?m \<in> set items"
    unfolding items_def using m by (auto simp: order_desc_def)
  have "dget (with_reader (strip ''anonymous'') demo_shared ?m) ''workspace_id'' = PStr ''w''"
    by (simp add: with_reader_def notification_item_def dget_fill) (simp add: fill_def demo_row_at_def dget_fill por_def w)
  then have scope: "item_in_scope demo_access [] (with_reader (strip ''anonymous'') demo_shared ?m)" by (simp add: item_in_scope_def demo_access_def w)
  define chosen where "chosen = map (\<lambda>item. tok (dget item ''id'')) (workspace_filtered_items (fa_scope demo_access) [] items)"
  have id_m: "tok (dget (with_reader (strip ''anonymous'') demo_shared ?m) ''id'') = ''m''" using item_id_fields(1) [OF ids m(1)] m(2) by simp
  have "''m'' \<in> set chosen" unfolding chosen_def set_map workspace_filtered_scope using in_m scope id_m by (intro image_eqI) auto
  then have "''m'' \<in> set (map strip chosen)" using feed_words(1) by (metis image_eqI list.set_map)
  moreover have "row_of nt_id ''m'' (notices demo_shared) \<noteq> None" unfolding row_of_None not_not using m by (metis image_eqI)
  moreover have "strip ''anonymous'' \<noteq> []" by (simp add: w)
  ultimately obtain report s' where go: "mark_notifications_read demo_local ''anonymous'' chosen [] [] False demo_shared = (Inr report, s')"
    "read_at_of ''anonymous'' ''m'' s' = Some (local_now_iso demo_local)"
    using demo_marks [of "''anonymous''" chosen demo_shared] w(2) by fastforce
  have mark: "mark_allowed_notifications (\<lambda>k. demo_local) demo_access (all_query [] [] []) [''m'', ''n''] False demo_shared
     = (Inr (dmerge [(''status'', PStr ''ok'')] report), s')"
    unfolding mark_allowed_notifications_def Let_def user r sum.case norm l if_False chosen_def [symmetric] go(1) by simp
  have new: "read_at_of ''anonymous'' ''m'' s' \<noteq> read_at_of ''anonymous'' ''m'' demo_shared"
    unfolding go(2) by (simp add: read_at_of_def demo_shared_def demo_feed_def)
  from marks_stay_in_scope [OF mark ids new] r obtain row where "row \<in> set (notices demo_shared)" "nt_id row = ''m''"
    "item_in_scope demo_access [] (with_reader ''anonymous'' demo_shared row)" by auto
  with mark new show ?thesis by blast
qed

end
