(* ===== verification/Push_Fanout.thy ===== *)
theory Push_Fanout
  imports Notifications
begin

text \<open>
  The push of a notification to the devices of its workspace (\<open>fanout_notification_push\<close> of
  \<open>notification_service.py\<close>) over the notification tables. The outbox repeats a fan-out that raised; what
  keeps a device from being pushed to twice is the table of deliveries.

  The sender is a parameter. The messages it is given are determined by the notification and the push
  tokens, so their texts are left out. \<open>pe_store k\<close> is the environment of the k-th call to the store.
\<close>

subsection \<open>The fan-out\<close>

record push_env =
  pe_store :: "nat \<Rightarrow> local_env"
  pe_send :: "pydict \<Rightarrow> string list \<Rightarrow> pydict list res"

definition device_token :: "pydict \<Rightarrow> string" where
  "device_token device = tok (dget device ''device_id'')"

definition push_pending :: "pydict \<Rightarrow> pydict \<Rightarrow> bool" where
  "push_pending statuses device \<longleftrightarrow> lower (tok (dget device ''provider'')) = ''expo'' \<and> tok (dget device ''push_token'') \<noteq> []
     \<and> lower (tok (dget (dict_of (dget statuses (device_token device))) ''status'')) \<noteq> ''delivered''"

definition push_error :: "pydict \<Rightarrow> string" where
  "push_error result =
     (let details = dget result ''details'';
          given = (case details of PDict d \<Rightarrow> tok (por (dget d ''error'') (dget d ''message'')) | _ \<Rightarrow> [])
      in sor given (strip (py_str_of (por (dget result ''message'') (por (dget result ''error'') (PStr ''push delivery failed''))))))"

definition push_ok :: "pydict \<Rightarrow> bool" where
  "push_ok result \<longleftrightarrow> lower (tok (dget result ''status'')) = ''ok''"

definition failed_status :: "string \<Rightarrow> string" where
  "failed_status error_text =
     (if contains ''notregistered'' (lower error_text) \<or> contains ''device not registered'' (lower error_text) then ''invalid'' else ''failed'')"

text \<open>The answer for one device is recorded in two calls, the first under a decision of the kernel.\<close>

definition record_result ::
    "(nat \<Rightarrow> local_env) \<Rightarrow> nat \<Rightarrow> string \<Rightarrow> string \<Rightarrow> string \<Rightarrow> pydict \<Rightarrow> notification_db \<Rightarrow> unit res \<times> notification_db" where
  "record_result L k i now_iso d result s =
     (let error_text = push_error result; st = failed_status error_text in
      case (if push_ok result then upsert_notification_delivery (L k) i d ''delivered'' (Some now_iso) None s
            else upsert_notification_delivery (L k) i d st None (Some error_text) s) of
        (Inl e, s1) \<Rightarrow> (Inl e, s1)
      | (Inr _, s1) \<Rightarrow>
          if push_ok result then update_notification_device_status (L (k + 1)) d (Some ''active'') (Some []) (Some now_iso) s1
          else update_notification_device_status (L (k + 1)) d (Some (if st = ''invalid'' then ''invalid'' else ''active'')) (Some error_text) None s1)"

fun record_results ::
    "(nat \<Rightarrow> local_env) \<Rightarrow> nat \<Rightarrow> string \<Rightarrow> string \<Rightarrow> (pydict \<times> pydict) list \<Rightarrow> int \<Rightarrow> string list \<Rightarrow> notification_db
      \<Rightarrow> (int \<times> string list) res \<times> notification_db" where
  "record_results L k i now_iso [] n failures s = (Inr (n, failures), s)"
| "record_results L k i now_iso ((device, result) # rest) n failures s =
     (let d = device_token device in
      case record_result L k i now_iso d result s of
        (Inl e, s1) \<Rightarrow> (Inl e, s1)
      | (Inr _, s1) \<Rightarrow>
          if push_ok result then record_results L (k + 2) i now_iso rest (n + 1) failures s1
          else record_results L (k + 2) i now_iso rest n (failures @ [d @ '':'' @ push_error result]) s1)"

definition fanout_report :: "nat \<Rightarrow> int \<Rightarrow> pydict" where
  "fanout_report targets delivered = [(''device_count'', PInt (int targets)), (''delivered_count'', PInt delivered)]"

text \<open>The devices a fan-out pushes to; the function's first half.\<close>

definition push_targets :: "push_env \<Rightarrow> pydict \<Rightarrow> notification_db \<Rightarrow> pydict list res" where
  "push_targets P notification s =
     (let i = tok (dget notification ''id'') in
      if i = [] then Inr []
      else case list_notification_delivery_statuses (pe_store P 0) i s of Inl e \<Rightarrow> Inl e
      | Inr statuses \<Rightarrow>
        (case list_notification_devices (pe_store P 1) (tok (dget notification ''tenant_id'')) (tok (dget notification ''workspace_id''))
            [] ''active'' s of
           Inl e \<Rightarrow> Inl e | Inr found \<Rightarrow> Inr (filter (push_pending statuses) found)))"

definition fanout_notification_push :: "push_env \<Rightarrow> pydict \<Rightarrow> notification_db \<Rightarrow> pydict res \<times> notification_db" where
  "fanout_notification_push P notification s =
     (case push_targets P notification s of Inl e \<Rightarrow> (Inl e, s)
      | Inr pending \<Rightarrow>
          if pending = [] then (Inr (fanout_report 0 0), s)
          else case pe_send P notification (map (\<lambda>d. tok (dget d ''push_token'')) pending) of Inl e \<Rightarrow> (Inl e, s)
          | Inr results \<Rightarrow>
              if length results \<noteq> length pending then (Inl (RuntimeError ''Push delivery response count did not match device count.''), s)
              else case record_results (pe_store P) 2 (tok (dget notification ''id'')) (local_now_iso (pe_store P 2)) (zip pending results) 0 [] s of
                (Inl e, s') \<Rightarrow> (Inl e, s')
              | (Inr (n, failures), s') \<Rightarrow>
                  if failures \<noteq> [] then (Inl (RuntimeError (join ''; '' failures)), s')
                  else (Inr (fanout_report (length pending) n), s'))"

subsection \<open>A delivered device is not pushed again\<close>

definition delivered_to :: "string \<Rightarrow> string \<Rightarrow> notification_db \<Rightarrow> bool" where
  "delivered_to i d s \<longleftrightarrow> (\<exists>r. row_of delivery_key (i, d) (deliveries s) = Some r \<and> dl_status r = ''delivered'')"

definition status_table :: "string \<Rightarrow> delivery_row list \<Rightarrow> pydict" where
  "status_table i rows =
     fold (\<lambda>r d. if strip (dl_device_id r) = [] then d else dset (strip (dl_device_id r)) (PDict (delivery_item i r)) d) rows []"

lemma status_table_dget:
  assumes "keys_distinct delivery_key rows" and "\<forall>r \<in> set rows. strip (dl_device_id r) = dl_device_id r \<and> dl_notification_id r = i" and "d \<noteq> []"
  shows "dget (status_table i rows) d = (case row_of delivery_key (i, d) rows of None \<Rightarrow> PNone | Some r \<Rightarrow> PDict (delivery_item i r))"
proof -
  have "dget (fold (\<lambda>r d. if strip (dl_device_id r) = [] then d else dset (strip (dl_device_id r)) (PDict (delivery_item i r)) d) rows d0) d =
    (case row_of delivery_key (i, d) rows of None \<Rightarrow> dget d0 d | Some r \<Rightarrow> PDict (delivery_item i r))" for d0
    using assms(1,2)
  proof (induction rows arbitrary: d0)
    case (Cons r rows)
    have IH: "keys_distinct delivery_key rows" "\<forall>r \<in> set rows. strip (dl_device_id r) = dl_device_id r \<and> dl_notification_id r = i"
      using Cons.prems by (auto simp: keys_distinct_def)
    have "row_of delivery_key (i, d) rows = None" if "dl_device_id r = d"
      using Cons.prems that by (auto simp: keys_distinct_def row_of_None delivery_key_def)
    moreover have "delivery_key r = (i, d) \<longleftrightarrow> dl_device_id r = d" using Cons.prems(2) by (simp add: delivery_key_def)
    ultimately show ?case using Cons.IH [OF IH] Cons.prems(2) assms(3) by (auto split: option.split)
  qed simp
  from this [of "[]"] show ?thesis by (simp add: status_table_def dget_def split: option.split)
qed

lemma delivered_word: "lower ''delivered'' = ''delivered''" "strip ''delivered'' = ''delivered''"
  by (simp_all add: lower_def strip_def py_space_def)

lemma delivered_not_pending:
  assumes "notifications_wf s" and "list_notification_delivery_statuses L i s = Inr statuses" and "strip i = i" and "i \<noteq> []"
    and "delivered_to i d s" and "d \<noteq> []" and "push_pending statuses device"
  shows "device_token device \<noteq> d"
proof
  assume d: "device_token device = d"
  let ?rows = "filter (\<lambda>r. dl_notification_id r = i) (deliveries s)"
  have st: "statuses = status_table i ?rows"
    using assms(2-4) by (auto simp: list_notification_delivery_statuses_def status_table_def Let_def split: sum.splits)
  from assms(5) obtain r where r: "row_of delivery_key (i, d) (deliveries s) = Some r" "dl_status r = ''delivered''"
    by (auto simp: delivered_to_def)
  have keys: "keys_distinct delivery_key (deliveries s)" using assms(1) by (simp add: notifications_wf_def)
  then have "keys_distinct delivery_key ?rows" by (simp add: keys_distinct_def distinct_map_filter)
  moreover have "r \<in> set ?rows" "delivery_key r = (i, d)" using row_of_key [OF r(1)] by (auto simp: delivery_key_def)
  ultimately have "row_of delivery_key (i, d) ?rows = Some r" using row_of_mem by metis
  then have "dget statuses d = PDict (delivery_item i r)"
    unfolding st using assms(1,6) \<open>keys_distinct delivery_key ?rows\<close> by (subst status_table_dget) (auto simp: notifications_wf_def)
  then have "lower (tok (dget (dict_of (dget statuses d)) ''status'')) = ''delivered''"
    by (simp add: delivery_item_def r(2) sor_def delivered_word)
  with assms(7) d show False by (simp add: push_pending_def)
qed

lemma update_status_deliveries: "update_notification_device_status L d st e t s = (r, s') \<Longrightarrow> deliveries s' = deliveries s \<and> notices s' = notices s"
  by (auto simp: update_notification_device_status_def Let_def split: if_splits sum.splits)

lemma upsert_delivery_row:
  assumes "upsert_notification_delivery L i d st t e s = (r, s')" and "strip i = i" and "strip d = d"
  shows "delivered_to i' d' s' = (if r = Inr () \<and> i \<noteq> [] \<and> d \<noteq> [] \<and> (i', d') = (i, d) then lower (strip st) = ''delivered'' else delivered_to i' d' s)"
  using assms
  by (auto simp: upsert_notification_delivery_def Let_def delivered_to_def delivery_key_def sor_def split: if_splits sum.splits)

lemma failed_not_delivered: "lower (strip (failed_status e)) \<noteq> ''delivered''"
  by (simp add: failed_status_def lower_def strip_def py_space_def)

lemma record_result_upsert:
  "record_result L k i t d result s = (r, s') \<Longrightarrow> \<exists>st at e u s1. upsert_notification_delivery (L k) i d st at e s = (u, s1)
     \<and> deliveries s' = deliveries s1 \<and> (r = Inr () \<longrightarrow> u = Inr ()) \<and> (lower (strip st) = ''delivered'' \<longleftrightarrow> push_ok result)"
proof (cases "push_ok result")
  case True
  assume "record_result L k i t d result s = (r, s')"
  with True obtain u s1 where u: "upsert_notification_delivery (L k) i d ''delivered'' (Some t) None s = (u, s1)"
    "deliveries s' = deliveries s1" "r = Inr () \<longrightarrow> u = Inr ()"
    by (auto simp: record_result_def Let_def split: prod.splits sum.splits dest!: update_status_deliveries)
  with True show ?thesis using delivered_word by (intro exI conjI) auto
next
  case False
  assume "record_result L k i t d result s = (r, s')"
  with False obtain u s1 where u: "upsert_notification_delivery (L k) i d (failed_status (push_error result)) None (Some (push_error result)) s = (u, s1)"
    "deliveries s' = deliveries s1" "r = Inr () \<longrightarrow> u = Inr ()"
    by (auto simp: record_result_def Let_def split: prod.splits sum.splits dest!: update_status_deliveries)
  with False show ?thesis using failed_not_delivered by (intro exI conjI) auto
qed

lemma record_result_row:
  assumes "record_result L k i t d result s = (r, s')" and "strip i = i" and "i \<noteq> []" and "strip d = d"
  shows "(i', d') \<noteq> (i, d) \<Longrightarrow> delivered_to i' d' s' = delivered_to i' d' s"
    and "r = Inr () \<Longrightarrow> d \<noteq> [] \<Longrightarrow> delivered_to i d s' = push_ok result"
proof -
  from record_result_upsert [OF assms(1)] obtain st at e u s1 where u: "upsert_notification_delivery (L k) i d st at e s = (u, s1)"
    "deliveries s' = deliveries s1" "r = Inr () \<longrightarrow> u = Inr ()" "lower (strip st) = ''delivered'' \<longleftrightarrow> push_ok result" by blast
  have same: "delivered_to i' d' s' = delivered_to i' d' s1" for i' d' by (simp add: delivered_to_def u(2))
  note row = upsert_delivery_row [OF u(1) assms(2,4)]
  show "(i', d') \<noteq> (i, d) \<Longrightarrow> delivered_to i' d' s' = delivered_to i' d' s" unfolding same row by auto
  show "r = Inr () \<Longrightarrow> d \<noteq> [] \<Longrightarrow> delivered_to i d s' = push_ok result" unfolding same row using u(3,4) assms(3) by auto
qed

lemma update_status_wf: "update_notification_device_status L d st e t s = (r, s') \<Longrightarrow> notifications_wf s \<Longrightarrow> notifications_wf s'"
  using notification_step_wf [of s "OpDeviceStatus L d st e t"] by simp

lemma upsert_delivery_pair_wf: "upsert_notification_delivery L n d st t e s = (r, s') \<Longrightarrow> notifications_wf s \<Longrightarrow> notifications_wf s'"
  using upsert_delivery_wf [of s L n d st t e] by simp

lemma record_result_wf: "record_result L k i t d result s = (r, s') \<Longrightarrow> notifications_wf s \<Longrightarrow> notifications_wf s'"
  by (auto simp: record_result_def Let_def split: prod.splits sum.splits if_splits dest: upsert_delivery_pair_wf update_status_wf)

lemma device_token_strip [simp]: "strip (device_token d) = device_token d"
  by (simp add: device_token_def)

text \<open>Recording answers leaves the deliveries to other devices alone, and marks the ones that were ok.\<close>

lemma record_results_row:
  assumes "strip i = i" and "i \<noteq> []"
  shows "record_results L k i t pairs n failures s = (r, s') \<Longrightarrow> notifications_wf s \<Longrightarrow>
    notifications_wf s' \<and> (\<forall>i' d'. (i' \<noteq> i \<or> d' \<notin> device_token ` fst ` set pairs) \<longrightarrow> delivered_to i' d' s' = delivered_to i' d' s)"
proof (induction pairs arbitrary: k n failures s)
  case (Cons x pairs)
  obtain device result where x: "x = (device, result)" by (cases x)
  obtain u s1 where u: "record_result L k i t (device_token device) result s = (u, s1)" by (metis surj_pair)
  have wf: "notifications_wf s1" using record_result_wf [OF u Cons.prems(2)] .
  have row: "delivered_to i' d' s1 = delivered_to i' d' s" if "i' \<noteq> i \<or> d' \<noteq> device_token device" for i' d'
    using record_result_row(1) [OF u assms] that by auto
  show ?case
  proof (cases u)
    case (Inl e)
    with Cons.prems(1) u x have "s' = s1" by (simp add: Let_def)
    with wf row x show ?thesis by auto
  next
    case (Inr v)
    with Cons.prems(1) u x obtain n' f' where "record_results L (k + 2) i t pairs n' f' s1 = (r, s')" by (auto simp: Let_def split: if_splits)
    from Cons.IH [OF this wf] row x show ?thesis by auto
  qed
qed simp

lemma record_results_ok:
  assumes "strip i = i" and "i \<noteq> []"
  shows "record_results L k i t pairs n failures s = (Inr (n', []), s') \<Longrightarrow> notifications_wf s \<Longrightarrow>
    failures = [] \<and> (\<forall>x \<in> set pairs. push_ok (snd x)) \<and> (\<forall>d \<in> device_token ` fst ` set pairs. d \<noteq> [] \<longrightarrow> delivered_to i d s')"
proof (induction pairs arbitrary: k n failures s)
  case (Cons x pairs)
  obtain device result where x: "x = (device, result)" by (cases x)
  obtain u s1 where u: "record_result L k i t (device_token device) result s = (u, s1)" by (metis surj_pair)
  have wf: "notifications_wf s1" using record_result_wf [OF u Cons.prems(2)] .
  from Cons.prems(1) u x have inr: "u = Inr ()" by (cases u) (auto simp: Let_def)
  have ok: "push_ok result"
  proof (rule ccontr)
    assume "\<not> push_ok result"
    with Cons.prems(1) u x inr have "record_results L (k + 2) i t pairs n (failures @ [device_token device @ '':'' @ push_error result]) s1
      = (Inr (n', []), s')" by (simp add: Let_def)
    from Cons.IH [OF this wf] show False by simp
  qed
  with Cons.prems(1) u x inr have rest: "record_results L (k + 2) i t pairs (n + 1) failures s1 = (Inr (n', []), s')" by (simp add: Let_def)
  from Cons.IH [OF rest wf] have IH: "failures = []" "\<forall>x \<in> set pairs. push_ok (snd x)"
    "\<forall>d \<in> device_token ` fst ` set pairs. d \<noteq> [] \<longrightarrow> delivered_to i d s'" by blast+
  have "delivered_to i (device_token device) s'" if "device_token device \<noteq> []"
  proof (cases "device_token device \<in> device_token ` fst ` set pairs")
    case True
    with IH(3) that show ?thesis by blast
  next
    case False
    with record_results_row [OF assms rest wf] record_result_row(2) [OF u assms _ inr that] ok show ?thesis by simp
  qed
  with IH ok x show ?case by auto
qed simp

lemma targets_pending:
  assumes "push_targets P notification s = Inr pending" and "tok (dget notification ''id'') \<noteq> []" and "device \<in> set pending"
  shows "\<exists>statuses. list_notification_delivery_statuses (pe_store P 0) (tok (dget notification ''id'')) s = Inr statuses \<and> push_pending statuses device"
  using assms by (auto simp: push_targets_def Let_def split: sum.splits)

lemma delivered_not_target:
  assumes "notifications_wf s" and "push_targets P notification s = Inr pending" and "tok (dget notification ''id'') = i" and "i \<noteq> []"
    and "delivered_to i d s" and "d \<noteq> []" and "device \<in> set pending"
  shows "device_token device \<noteq> d"
proof -
  have "strip i = i" using assms(3) by auto
  moreover obtain statuses where "list_notification_delivery_statuses (pe_store P 0) i s = Inr statuses" "push_pending statuses device"
    using targets_pending [OF assms(2) _ assms(7)] assms(3,4) by auto
  ultimately show ?thesis using delivered_not_pending [OF assms(1) _ _ assms(4,5,6)] by blast
qed

lemma fanout_state:
  assumes "fanout_notification_push P notification s = (r, s')"
  shows "s' = s \<or> (\<exists>pending results u. push_targets P notification s = Inr pending \<and> pending \<noteq> []
    \<and> record_results (pe_store P) 2 (tok (dget notification ''id'')) (local_now_iso (pe_store P 2)) (zip pending results) 0 [] s = (u, s'))"
  using assms by (auto simp: fanout_notification_push_def split: sum.splits if_splits prod.splits)

lemma targets_id: "push_targets P notification s = Inr pending \<Longrightarrow> pending \<noteq> [] \<Longrightarrow> tok (dget notification ''id'') \<noteq> []"
  by (auto simp: push_targets_def Let_def)

lemma fanout_keeps:
  assumes "notifications_wf s" and "delivered_to i d s" and "d \<noteq> []"
  shows "notifications_wf (snd (fanout_notification_push P notification s)) \<and> delivered_to i d (snd (fanout_notification_push P notification s))"
proof -
  obtain r s' where f: "fanout_notification_push P notification s = (r, s')" by (metis surj_pair)
  show ?thesis
  proof (cases "s' = s")
    case True
    with f assms show ?thesis by simp
  next
    case False
    with fanout_state [OF f] obtain pending results u where p: "push_targets P notification s = Inr pending" "pending \<noteq> []"
      "record_results (pe_store P) 2 (tok (dget notification ''id'')) (local_now_iso (pe_store P 2)) (zip pending results) 0 [] s = (u, s')" by blast
    let ?i = "tok (dget notification ''id'')"
    have id: "?i \<noteq> []" "strip ?i = ?i" using targets_id [OF p(1,2)] by simp_all
    note rows = record_results_row [OF id(2,1) p(3) assms(1)]
    have sub: "device_token ` fst ` set (zip pending results) \<subseteq> device_token ` set pending" by (auto dest: set_zip_leftD)
    have "d \<notin> device_token ` set pending" if "i = ?i"
      using delivered_not_target [OF assms(1) p(1) that [symmetric] _ assms(2,3)] id(1) that by blast
    with sub have "i \<noteq> ?i \<or> d \<notin> device_token ` fst ` set (zip pending results)" by blast
    with rows assms(2) f show ?thesis by simp
  qed
qed

definition fanouts :: "(push_env \<times> pydict) list \<Rightarrow> notification_db \<Rightarrow> notification_db" where
  "fanouts hs s = fold (\<lambda>x s. snd (fanout_notification_push (fst x) (snd x) s)) hs s"

text \<open>
  C22. A device that got a notification does not get it again. Once a delivery is recorded, no fan-out of
  the notification, after any history of fan-outs of this and other notifications with whatever answers of the
  push service and failures of the store, has the device among its targets.
\<close>

theorem delivered_pushed_once:
  assumes "notifications_wf s" and "delivered_to i d s" and "d \<noteq> []" and "tok (dget notification ''id'') = i" and "i \<noteq> []"
    and "push_targets P notification (fanouts hs s) = Inr pending" and "device \<in> set pending"
  shows "device_token device \<noteq> d"
proof -
  have "notifications_wf (fanouts hs s) \<and> delivered_to i d (fanouts hs s)"
    using assms(1,2) unfolding fanouts_def
  proof (induction hs arbitrary: s)
    case (Cons h hs)
    from fanout_keeps [OF Cons.prems assms(3), of "fst h" "snd h"] Cons.IH show ?case by simp
  qed simp
  with delivered_not_target [OF _ assms(6,4,5) _ assms(3,7)] show ?thesis by blast
qed

lemma record_results_count:
  "record_results L k i t pairs n failures s = (Inr (n', failures'), s')
    \<Longrightarrow> n' + int (length failures') = n + int (length failures) + int (length pairs)"
proof (induction pairs arbitrary: k n failures s)
  case (Cons x pairs)
  obtain device result where x: "x = (device, result)" by (cases x)
  obtain u s1 where u: "record_result L k i t (device_token device) result s = (u, s1)" by (metis surj_pair)
  from Cons.prems u x have "u = Inr ()" by (cases u) (auto simp: Let_def)
  with Cons.prems u x have "record_results L (k + 2) i t pairs (if push_ok result then n + 1 else n)
      (if push_ok result then failures else failures @ [device_token device @ '':'' @ push_error result]) s1 = (Inr (n', failures'), s')"
    by (simp add: Let_def split: if_splits)
  from Cons.IH [OF this] show ?case by (simp split: if_splits)
qed simp

lemma fanout_ok:
  assumes "fanout_notification_push P notification s = (Inr report, s')" and "push_targets P notification s = Inr pending" and "pending \<noteq> []"
  shows "\<exists>results n. length results = length pending \<and> report = fanout_report (length pending) n
    \<and> record_results (pe_store P) 2 (tok (dget notification ''id'')) (local_now_iso (pe_store P 2)) (zip pending results) 0 [] s = (Inr (n, []), s')"
proof -
  define ask where "ask = pe_send P notification (map (\<lambda>d. tok (dget d ''push_token'')) pending)"
  define rec where "rec results = record_results (pe_store P) 2 (tok (dget notification ''id'')) (local_now_iso (pe_store P 2)) (zip pending results) 0 [] s"
    for results
  have f: "(case ask of Inl e \<Rightarrow> (Inl e, s) | Inr results \<Rightarrow>
      if length results \<noteq> length pending then (Inl (RuntimeError ''Push delivery response count did not match device count.''), s)
      else case rec results of (Inl e, s') \<Rightarrow> (Inl e, s')
      | (Inr (n, failures), s') \<Rightarrow> if failures \<noteq> [] then (Inl (RuntimeError (join ''; '' failures)), s')
          else (Inr (fanout_report (length pending) n), s')) = (Inr report, s')"
    using assms unfolding fanout_notification_push_def ask_def rec_def by simp
  from f obtain results where r: "ask = Inr results" by (cases ask) simp_all
  from f r have len: "length results = length pending" by (simp split: if_splits)
  obtain u t where u: "rec results = (u, t)" by (metis surj_pair)
  from f r len u obtain n failures where v: "u = Inr (n, failures)" by (cases u) auto
  from f r len u v have "failures = []" "t = s'" "report = fanout_report (length pending) n" by (simp_all split: if_splits)
  with u v len show ?thesis unfolding rec_def by blast
qed

lemma fanout_success_delivers:
  assumes "notifications_wf s" and "fanout_notification_push P notification s = (Inr report, s')" and "push_targets P notification s = Inr pending"
  shows "report = fanout_report (length pending) (int (length pending))
    \<and> (\<forall>device \<in> set pending. device_token device \<noteq> [] \<longrightarrow> delivered_to (tok (dget notification ''id'')) (device_token device) s')"
proof (cases "pending = []")
  case True
  with assms show ?thesis by (simp add: fanout_notification_push_def)
next
  case False
  let ?i = "tok (dget notification ''id'')"
  have id: "strip ?i = ?i" "?i \<noteq> []" using targets_id [OF assms(3) False] by simp_all
  from fanout_ok [OF assms(2,3) False] obtain results n where r: "length results = length pending" "report = fanout_report (length pending) n"
    "record_results (pe_store P) 2 ?i (local_now_iso (pe_store P 2)) (zip pending results) 0 [] s = (Inr (n, []), s')" by blast
  note ok = record_results_ok [OF id r(3) assms(1)]
  have "device_token ` set pending = device_token ` fst ` set (zip pending results)" by (simp only: set_map [symmetric] map_fst_zip [OF r(1) [symmetric]])
  with ok have all: "\<forall>device \<in> set pending. device_token device \<noteq> [] \<longrightarrow> delivered_to ?i (device_token device) s'" by (metis imageI)
  from record_results_count [OF r(3)] r(1) have "n = int (length pending)" by simp
  with r(2) all show ?thesis by blast
qed

subsection \<open>A concrete fan-out\<close>

definition demo_phone :: "string \<Rightarrow> device_row" where
  "demo_phone d = demo_device\<lparr>dv_device_id := d, dv_device := []\<rparr>"

definition demo_pushed :: notification_db where
  "demo_pushed = demo_notices\<lparr>devices := [demo_phone ''d'', demo_phone ''e''],
     deliveries := [\<lparr>dl_notification_id = ''n'', dl_device_id = ''d'', dl_status = ''delivered'', dl_delivered_at = None,
       dl_last_error = None, dl_persisted_at = []\<rparr>]\<rparr>"

definition demo_push :: "pydict list res \<Rightarrow> push_env" where
  "demo_push answer = \<lparr>pe_store = (\<lambda>k. demo_local), pe_send = (\<lambda>notification tokens. answer)\<rparr>"

lemma push_words: "strip ''e'' = ''e''" "strip ''p'' = ''p''" "strip ''expo'' = ''expo''" "lower ''expo'' = ''expo''"
    "strip ''ok'' = ''ok''" "lower ''ok'' = ''ok''"
  by (simp_all add: strip_def py_space_def lower_def)

lemma bare_device_item:
  assumes "dv_device r = []"
  shows "device_token (device_item r) = strip (dv_device_id r)" "tok (dget (device_item r) ''provider'') = lower (strip (dv_provider r))"
    "tok (dget (device_item r) ''push_token'') = strip (dv_push_token r)"
  using assms by (simp_all add: device_token_def device_item_def Let_def fill_def fill_word_def fill_opt_def por_def)

lemma demo_statuses: "list_notification_delivery_statuses demo_local ''n'' demo_pushed =
    Inr [(''d'', PDict (delivery_item ''n'' (hd (deliveries demo_pushed))))]"
  using demo_local_ok by (simp add: list_notification_delivery_statuses_def demo_pushed_def store_ok_def notice_words dset_def Let_def)

lemma demo_devices: "list_notification_devices demo_local [] [] [] ''active'' demo_pushed = Inr [device_item (demo_phone ''d''), device_item (demo_phone ''e'')]"
  using demo_local_ok
  by (simp add: list_notification_devices_def demo_pushed_def store_ok_def wants_def wants_word_def text_desc_def demo_phone_def demo_device_def notice_words)

lemma demo_pending: "push_targets (demo_push answer) [(''id'', PStr ''n'')] demo_pushed = Inr [device_item (demo_phone ''e'')]"
proof -
  have phones: "dv_device (demo_phone d) = []" "dv_device_id (demo_phone d) = d" "dv_provider (demo_phone d) = ''expo''"
    "dv_push_token (demo_phone d) = ''p''" for d by (simp_all add: demo_phone_def demo_device_def)
  have none: "tok PNone = []" by (simp add: tok_def por_def strip_def)
  have "\<not> push_pending [(''d'', PDict (delivery_item ''n'' (hd (deliveries demo_pushed))))] (device_item (demo_phone ''d''))"
    by (simp add: push_pending_def bare_device_item phones notice_words delivery_item_def demo_pushed_def sor_def delivered_word)
  moreover have "push_pending [(''d'', PDict (delivery_item ''n'' (hd (deliveries demo_pushed))))] (device_item (demo_phone ''e''))"
    by (simp add: push_pending_def bare_device_item phones push_words none)
  ultimately show ?thesis
    by (simp add: push_targets_def demo_push_def demo_statuses demo_devices notice_words)
qed

lemma demo_pushed_wf: "notifications_wf demo_pushed" "delivered_to ''n'' ''d'' demo_pushed"
  by (simp_all add: notifications_wf_def demo_pushed_def demo_notices_def demo_notice_def demo_phone_def demo_device_def keys_distinct_def
      delivered_to_def delivery_key_def notice_words)

theorem delivered_pushed_once_witness:
  "\<exists>device. push_targets (demo_push (Inr [])) [(''id'', PStr ''n'')]
      (fanouts [(demo_push (Inl (RuntimeError ''down'')), [(''id'', PStr ''n'')])] demo_pushed) = Inr [device] \<and> device_token device \<noteq> ''d''"
proof -
  have same: "fanouts [(demo_push (Inl (RuntimeError ''down'')), [(''id'', PStr ''n'')])] demo_pushed = demo_pushed"
    unfolding fanouts_def fold.simps by (simp add: fanout_notification_push_def demo_pending) (simp add: demo_push_def)
  have tok: "tok (dget [(''id'', PStr ''n'')] ''id'') = ''n''" by (simp add: notice_words)
  have "push_targets (demo_push (Inr [])) [(''id'', PStr ''n'')]
      (fanouts [(demo_push (Inl (RuntimeError ''down'')), [(''id'', PStr ''n'')])] demo_pushed) = Inr [device_item (demo_phone ''e'')]"
    unfolding same by (rule demo_pending)
  with delivered_pushed_once [OF demo_pushed_wf _ tok _ this] show ?thesis by simp
qed

end
