(* ===== verification/Notification_Delivery.thy ===== *)
theory Notification_Delivery
  imports Push_Fanout Outbox_Delivery
begin

text \<open>
  From an event of the outbox to a notification and its push (\<open>notification_service.py\<close>:
  \<open>build_notification_from_outbox_event\<close>, \<open>deliver_notification_from_outbox_event\<close>). The entry in the activity
  ledger, whose failure is logged and dropped, is left out.
\<close>

subsection \<open>The notification of an event\<close>

text \<open>\<open>str(value or default).strip().lower() or default\<close>.\<close>

definition word_or :: "pyval \<Rightarrow> string \<Rightarrow> string" where
  "word_or v d = sor (lower (strip (py_str_of (por v (PStr d))))) d"

text \<open>\<open>s[:1].upper() + s[1:]\<close>; the two letters whose capital is beyond code point 255 stay.\<close>

definition upper_first :: "string \<Rightarrow> string" where
  "upper_first s = (case s of [] \<Rightarrow> [] | c # cs \<Rightarrow>
     (let n = of_char c :: nat in
      if n = 223 then ''SS'' @ cs
      else if (97 \<le> n \<and> n \<le> 122) \<or> (224 \<le> n \<and> n \<le> 254 \<and> n \<noteq> 247) then char_of (n - 32) # cs else s))"

definition title_from_action :: "string \<Rightarrow> string" where
  "title_from_action action =
     (let token = map (\<lambda>c. if c = CHR ''_'' then CHR '' '' else c) (strip action) in
      if token = [] then ''Notification'' else upper_first token)"

definition default_path_for_action :: "string \<Rightarrow> string option \<Rightarrow> string" where
  "default_path_for_action action run_id =
     (let normalized = lower (strip action); run = opt_tok run_id in
      if normalized = ''approval_requested'' then ''/approvals''
      else if normalized \<in> {''artifact_created'', ''run_completed'', ''run_failed''} \<and> run \<noteq> [] then ''/runs/'' @ run
      else if py_startswith normalized ''machine_'' then ''/machines''
      else ''/notifications'')"

record event_scope =
  ec_type :: string
  ec_payload :: pydict
  ec_tenant :: string
  ec_workspace :: string
  ec_run :: "string option"
  ec_machine :: "string option"
  ec_trace :: string
  ec_id :: string
  ec_created_at :: string
  ec_metadata :: pydict

definition event_scope_of :: "string \<Rightarrow> outbox_event \<Rightarrow> event_scope" where
  "event_scope_of now_iso ev =
     (let payload = oe_payload ev
      in \<lparr>ec_type = lower (strip (oe_event_type ev)), ec_payload = payload, ec_tenant = text_or (PStr (oe_tenant_id ev)) ''default'',
          ec_workspace = text_or (PStr (oe_workspace_id ev)) ''default'', ec_run = snone (opt_tok (oe_run_id ev)),
          ec_machine = snone (opt_tok (oe_machine_id ev)), ec_trace = strip (oe_trace_id ev), ec_id = strip (oe_event_id ev),
          ec_created_at = strip (py_str_of (por (opt_val (oe_created_at ev)) (por (dget payload ''emitted_at'') (PStr now_iso)))),
          ec_metadata = dict_of (dget payload ''metadata'')\<rparr>)"

record notice_parts =
  np_action :: string
  np_title :: string
  np_text :: string
  np_priority :: string
  np_metadata :: pydict

definition run_name :: "event_scope \<Rightarrow> string" where
  "run_name c = (case ec_run c of None \<Rightarrow> ''unknown'' | Some r \<Rightarrow> r)"

definition browser_entry :: "event_scope \<Rightarrow> pydict" where
  "browser_entry c = (case dget (ec_payload c) ''browser'' of PDict d \<Rightarrow> [(''browser'', PDict d)] | _ \<Rightarrow> [])"

definition own_path :: "event_scope \<Rightarrow> string \<Rightarrow> string" where
  "own_path c action = sor (tok (dget (ec_metadata c) ''path'')) (default_path_for_action action (ec_run c))"

definition approval_requested_parts :: "event_scope \<Rightarrow> notice_parts" where
  "approval_requested_parts c =
     \<lparr>np_action = ''approval_requested'', np_title = ''Approval required'',
      np_text = sor (tok (dget (ec_payload c) ''prompt'')) (''Approval requested for run '' @ run_name c @ ''.''), np_priority = ''high'',
      np_metadata = dmerge (ec_metadata c) ([(''status'', PStr (word_or (dget (ec_metadata c) ''status'') ''pending'')),
        (''approval_id'', opt_val (snone (tok (dget (ec_payload c) ''approval_id''))))] @ browser_entry c)\<rparr>"

definition approval_resolved_parts :: "event_scope \<Rightarrow> notice_parts" where
  "approval_resolved_parts c =
     (let resolution = word_or (dget (ec_payload c) ''resolution'') ''approved''
      in \<lparr>np_action = ''approval_'' @ resolution, np_title = (if resolution = ''approved'' then ''Approval approved'' else ''Approval rejected''),
          np_text = sor (tok (dget (ec_payload c) ''reason'')) (''Approval '' @ resolution @ '' for run '' @ run_name c @ ''.''), np_priority = ''normal'',
          np_metadata = dmerge (ec_metadata c) ([(''activity_event_class'', PStr ''approval''), (''activity_actor_type'', PStr ''system''),
            (''activity_actor_id'', PStr ''runtime''), (''status'', PStr resolution),
            (''approval_id'', opt_val (snone (tok (dget (ec_payload c) ''approval_id''))))] @ browser_entry c @
            [(''path'', PStr (own_path c ''run_completed''))])\<rparr>)"

definition run_transition_parts :: "event_scope \<Rightarrow> notice_parts option" where
  "run_transition_parts c =
     (let to_state = lower (tok (dget (ec_payload c) ''to_state'')) in
      if to_state \<notin> {''completed'', ''failed''} then None
      else Some \<lparr>np_action = ''run_'' @ to_state, np_title = (if to_state = ''completed'' then ''Run completed'' else ''Run failed''),
          np_text = ''Run '' @ run_name c @ '' '' @ to_state @ ''.'', np_priority = (if to_state = ''completed'' then ''normal'' else ''high''),
          np_metadata = dmerge (ec_metadata c) [(''status'', PStr to_state)]\<rparr>)"

definition machine_event_parts :: "event_scope \<Rightarrow> notice_parts option" where
  "machine_event_parts c =
     (let payload = ec_payload c; raw_action = lower (tok (dget payload ''action''));
          enrollment_state = lower (tok (por (dget payload ''enrollment_state'') (dget payload ''status'')));
          error_text = tok (por (dget payload ''error'') (dget payload ''bootstrap_error''));
          label = text_or (por (dget payload ''display_name'') (opt_val (ec_machine c))) ''machine'' in
      if raw_action = ''revoked'' then
        Some \<lparr>np_action = ''machine_revoked'', np_title = ''Machine revoked'', np_text = label @ '' was revoked.'', np_priority = ''high'',
          np_metadata = ec_metadata c\<rparr>
      else if raw_action \<in> {''enrollment_failed'', ''bootstrap_failed''} \<or> (raw_action = ''enrollment_state_updated'' \<and> enrollment_state = ''failed'') then
        Some \<lparr>np_action = ''machine_enrollment_failed'', np_title = ''Machine enrollment failed'',
          np_text = sor error_text (label @ '' failed to enroll.''), np_priority = ''high'', np_metadata = ec_metadata c\<rparr>
      else None)"

definition artifact_created_parts :: "event_scope \<Rightarrow> notice_parts" where
  "artifact_created_parts c =
     (let payload = ec_payload c; artifact = dict_of (dget payload ''artifact'');
          path = tok (por (dget payload ''artifact_path'') (por (dget artifact ''path'') (por (dget artifact ''file_path'')
            (por (dget artifact ''uri'') (dget artifact ''url'')))))
      in \<lparr>np_action = ''artifact_created'', np_title = ''Artifact created'',
          np_text = sor path (''Artifact created for run '' @ run_name c @ ''.''), np_priority = ''normal'',
          np_metadata = dmerge (ec_metadata c) [(''activity_event_class'', PStr ''artifact_created''), (''activity_actor_type'', PStr ''system''),
            (''activity_actor_id'', PStr ''runtime''), (''status'', PStr (word_or (dget (ec_metadata c) ''status'') ''created'')),
            (''artifacts'', PList (if artifact = [] then [] else [PDict artifact])), (''path'', PStr (own_path c ''artifact_created''))]\<rparr>)"

definition plain_notification_parts :: "event_scope \<Rightarrow> notice_parts" where
  "plain_notification_parts c =
     (let action = word_or (dget (ec_payload c) ''action'') ''notification''
      in \<lparr>np_action = action, np_title = sor (tok (dget (ec_metadata c) ''title'')) (title_from_action action),
          np_text = sor (tok (dget (ec_payload c) ''text'')) ''Notification'', np_priority = word_or (dget (ec_metadata c) ''priority'') ''normal'',
          np_metadata = ec_metadata c\<rparr>)"

definition notice_parts_of :: "event_scope \<Rightarrow> notice_parts option" where
  "notice_parts_of c =
     (if ec_type c = ''approval_requested'' then Some (approval_requested_parts c)
      else if ec_type c = ''approval_resolved'' then Some (approval_resolved_parts c)
      else if ec_type c = ''run_transition'' then run_transition_parts c
      else if ec_type c = ''machine_event'' then machine_event_parts c
      else if ec_type c = ''artifact_created'' then Some (artifact_created_parts c)
      else if ec_type c = ''notification'' then Some (plain_notification_parts c)
      else None)"

definition event_session :: "event_scope \<Rightarrow> string" where
  "event_session c = (case ec_run c of Some r \<Rightarrow> ''run:'' @ r
     | None \<Rightarrow> (case ec_machine c of Some i \<Rightarrow> ''machine:'' @ i | None \<Rightarrow> ''workspace:'' @ ec_workspace c))"

definition notification_record :: "event_scope \<Rightarrow> notice_parts \<Rightarrow> pydict" where
  "notification_record c n =
     [(''id'', PStr (ec_id c)), (''ts'', PStr (ec_created_at c)), (''tenant_id'', PStr (ec_tenant c)), (''workspace_id'', PStr (ec_workspace c)),
      (''session_key'', PStr (event_session c)), (''session_id'', PStr (event_session c)), (''channel'', PStr ''runtime''),
      (''direction'', PStr ''system''), (''event_type'', PStr (ec_type c)), (''run_id'', opt_val (ec_run c)), (''machine_id'', opt_val (ec_machine c)),
      (''trace_id'', PStr (ec_trace c)), (''action'', PStr (np_action n)), (''title'', PStr (np_title n)), (''text'', PStr (np_text n)),
      (''metadata'', PDict (dmerge (np_metadata n)
        [(''path'', PStr (sor (tok (dget (np_metadata n) ''path'')) (default_path_for_action (np_action n) (ec_run c)))), (''priority'', PStr (np_priority n)),
         (''source_event_type'', PStr (ec_type c)), (''outbox_event_id'', PStr (ec_id c)),
         (''delivery_channels'', PList [PStr ''feed'', PStr ''push'']), (''run_id'', opt_val (ec_run c)), (''machine_id'', opt_val (ec_machine c))]))]"

definition build_notification_from_outbox_event :: "string \<Rightarrow> outbox_event \<Rightarrow> pydict option" where
  "build_notification_from_outbox_event now_iso ev =
     (let c = event_scope_of now_iso ev in map_option (notification_record c) (notice_parts_of c))"

subsection \<open>Its delivery\<close>

definition deliver_notification_from_outbox_event ::
    "local_env \<Rightarrow> push_env \<Rightarrow> outbox_event \<Rightarrow> notification_db \<Rightarrow> pydict option res \<times> notification_db" where
  "deliver_notification_from_outbox_event L P ev s =
     (case build_notification_from_outbox_event (local_now_iso L) ev of None \<Rightarrow> (Inr None, s)
      | Some n \<Rightarrow>
        (case upsert_notification L n s of (Inl e, s1) \<Rightarrow> (Inl e, s1)
         | (Inr _, s1) \<Rightarrow> (case fanout_notification_push P n s1 of (Inl e, s2) \<Rightarrow> (Inl e, s2) | (Inr _, s2) \<Rightarrow> (Inr (Some n), s2))))"

lemma built_id:
  assumes "build_notification_from_outbox_event now_iso ev = Some n"
  shows "tok (dget n ''id'') = strip (oe_event_id ev)"
  using assms by (auto simp: build_notification_from_outbox_event_def Let_def notification_record_def event_scope_of_def)

lemma record_result_notices: "record_result L k i t d result s = (r, s') \<Longrightarrow> notices s' = notices s"
  by (auto simp: record_result_def upsert_notification_delivery_def Let_def split: prod.splits sum.splits if_splits dest!: update_status_deliveries)

lemma record_results_notices: "record_results L k i t pairs n failures s = (r, s') \<Longrightarrow> notices s' = notices s"
proof (induction pairs arbitrary: k n failures s)
  case (Cons x pairs)
  obtain device result where x: "x = (device, result)" by (cases x)
  obtain u s1 where u: "record_result L k i t (device_token device) result s = (u, s1)" by (metis surj_pair)
  have s1: "notices s1 = notices s" by (rule record_result_notices [OF u])
  show ?case
  proof (cases u)
    case (Inl e)
    with Cons.prems u x s1 show ?thesis by (simp add: Let_def)
  next
    case (Inr v)
    with Cons.prems u x obtain n' f' where "record_results L (k + 2) i t pairs n' f' s1 = (r, s')" by (auto simp: Let_def split: if_splits)
    from Cons.IH [OF this] s1 show ?thesis by simp
  qed
qed simp

lemma fanout_notices: "fanout_notification_push P n s = (r, s') \<Longrightarrow> notices s' = notices s"
  by (auto dest!: fanout_state record_results_notices)

text \<open>An event that was delivered: the notification is stored and every device that was due has a recorded delivery.\<close>

text \<open>
  C27. A delivered event has reached its feed and its devices. When the delivery of an outbox event as a
  notification returns, so that the outbox may settle it, the notification stands in the store under the id of
  the event, and every device that was due has a recorded delivery.
\<close>

theorem delivery_complete:
  assumes "deliver_notification_from_outbox_event L P ev s = (Inr (Some n), s')" and "notifications_wf s" and "strip (oe_event_id ev) \<noteq> []"
  shows "\<exists>s1 pending. upsert_notification L n s = (Inr (), s1) \<and> push_targets P n s1 = Inr pending
    \<and> row_of nt_id (strip (oe_event_id ev)) (notices s') = Some (notification_values L n)
    \<and> (\<forall>device \<in> set pending. device_token device \<noteq> [] \<longrightarrow> delivered_to (strip (oe_event_id ev)) (device_token device) s')"
proof -
  from assms(1) obtain s1 report where b: "build_notification_from_outbox_event (local_now_iso L) ev = Some n" "upsert_notification L n s = (Inr (), s1)"
      "fanout_notification_push P n s1 = (Inr report, s')"
    unfolding deliver_notification_from_outbox_event_def by (auto split: option.splits prod.splits sum.splits)
  have id: "tok (dget n ''id'') = strip (oe_event_id ev)" by (rule built_id [OF b(1)])
  have "notices s1 = put_row nt_id (notification_values L n) (notices s)"
    using b(2) assms(3) id by (auto simp: upsert_notification_def split: sum.splits if_splits)
  moreover have "nt_id (notification_values L n) = strip (oe_event_id ev)" using id by (simp add: notification_values_def Let_def)
  ultimately have row: "row_of nt_id (strip (oe_event_id ev)) (notices s') = Some (notification_values L n)"
    using fanout_notices [OF b(3)] by simp
  have wf: "notifications_wf s1" using upsert_notification_wf [OF assms(2), of L n] b(2) by simp
  from b(3) obtain pending where p: "push_targets P n s1 = Inr pending" by (auto simp: fanout_notification_push_def split: sum.splits)
  from fanout_success_delivers [OF wf b(3) p] have "\<forall>device \<in> set pending. device_token device \<noteq> [] \<longrightarrow> delivered_to (strip (oe_event_id ev)) (device_token device) s'"
    by (simp add: id)
  with b(2) p row show ?thesis by blast
qed

subsection \<open>A delivery that goes through\<close>

lemma record_results_go:
  assumes "\<forall>k. store_open (L k)" and "strip i = i" and "i \<noteq> []"
  shows "row_of nt_id i (notices s) \<noteq> None \<Longrightarrow> \<forall>x \<in> set pairs. push_ok (snd x) \<Longrightarrow> \<exists>m s'. record_results L k i t pairs n [] s = (Inr (m, []), s')"
proof (induction pairs arbitrary: k n s)
  case (Cons x pairs)
  obtain device result where x: "x = (device, result)" by (cases x)
  have ok: "push_ok result" using Cons.prems(2) x by simp
  have so: "store_open (L k)" for k using assms(1) by blast
  obtain d where gate: "enforce_local_store_decision (L k) (delivery_request i (device_token device) ''delivered'') = Inr d"
    using store_gate_open [OF so, of "delivery_request i (device_token device) ''delivered''"] by (auto simp: delivery_request_def local_next_actions_def)
  have word: "sor (lower (strip ''delivered'')) ''pending'' = ''delivered''" by (simp add: delivered_word sor_def)
  have "\<exists>s1. upsert_notification_delivery (L k) i (device_token device) ''delivered'' (Some t) None s = (Inr (), s1)"
    using gate Cons.prems(1) store_open_ok [OF so, THEN store_ok_transaction]
    unfolding upsert_notification_delivery_def Let_def word assms(2) device_token_strip by (cases "device_token device = []") auto
  then obtain s1 where s1: "upsert_notification_delivery (L k) i (device_token device) ''delivered'' (Some t) None s = (Inr (), s1)" by blast
  have "\<exists>s2. update_notification_device_status (L (k + 1)) (device_token device) (Some ''active'') (Some []) (Some t) s1 = (Inr (), s2)"
    using store_open_ok [OF so, THEN store_ok_transaction] by (cases "device_token device = []") (simp_all add: update_notification_device_status_def)
  then obtain s2 where s2: "update_notification_device_status (L (k + 1)) (device_token device) (Some ''active'') (Some []) (Some t) s1 = (Inr (), s2)" by blast
  have go: "record_result L k i t (device_token device) result s = (Inr (), s2)" using ok s1 s2 by (simp add: record_result_def)
  have "row_of nt_id i (notices s2) \<noteq> None" using record_result_notices [OF go] Cons.prems(1) by simp
  from Cons.IH [OF this] Cons.prems(2) obtain m s' where "record_results L (k + 2) i t pairs (n + 1) [] s2 = (Inr (m, []), s')" by (meson list.set_intros(2))
  then show ?case unfolding x by (simp add: go ok)
qed simp

lemma upsert_goes:
  assumes "store_open L" shows "\<exists>s1. upsert_notification L n s = (Inr (), s1)"
proof (cases "tok (dget n ''id'') = []")
  case True
  then show ?thesis by (simp add: upsert_notification_def)
next
  case False
  define r where "r = (local_defaults ''upsert_notification'' ''notifications'')\<lparr>lq_item := Some n, lq_notification_id := Some (tok (dget n ''id'')),
    lq_status := Some (sor (lower (strip (py_str_of (por (dget n ''event_type'') (por (dget n ''status'') (PStr ''notification'')))))) ''notification'')\<rparr>"
  obtain d where "enforce_local_store_decision L r = Inr d"
    using store_gate_open [OF assms, of r] by (auto simp: r_def local_next_actions_def)
  then show ?thesis using False assms unfolding upsert_notification_def r_def [symmetric] by simp
qed

lemma deliver_goes:
  assumes "store_open L" and "\<forall>k. store_open (pe_store P k)" and "\<And>n tokens. pe_send P n tokens = Inr (map (\<lambda>t. [(''status'', PStr ''ok'')]) tokens)"
    and "build_notification_from_outbox_event (local_now_iso L) ev = Some n" and "strip (oe_event_id ev) \<noteq> []"
  shows "\<exists>s'. deliver_notification_from_outbox_event L P ev s = (Inr (Some n), s')"
proof -
  have id: "tok (dget n ''id'') = strip (oe_event_id ev)" by (rule built_id [OF assms(4)])
  obtain s1 where u: "upsert_notification L n s = (Inr (), s1)" using upsert_goes [OF assms(1)] by blast
  have row: "row_of nt_id (strip (oe_event_id ev)) (notices s1) \<noteq> None"
    using u assms(5) id by (auto simp: upsert_notification_def notification_values_def Let_def split: sum.splits if_splits)
  have ok: "transaction (pe_store P k) m = Inr ()" for k m using assms(2) by simp
  obtain statuses where st: "list_notification_delivery_statuses (pe_store P 0) (tok (dget n ''id'')) s1 = Inr statuses"
    using assms(5) by (simp add: list_notification_delivery_statuses_def Let_def ok id)
  obtain found where "list_notification_devices (pe_store P 1) (tok (dget n ''tenant_id'')) (tok (dget n ''workspace_id'')) [] ''active'' s1 = Inr found"
    by (simp add: list_notification_devices_def ok)
  with st obtain pending where p: "push_targets P n s1 = Inr pending" using assms(5) id by (simp add: push_targets_def)
  have "\<exists>report s'. fanout_notification_push P n s1 = (Inr report, s')"
  proof (cases "pending = []")
    case True
    with p show ?thesis by (simp add: fanout_notification_push_def)
  next
    case False
    define results where "results = map (\<lambda>t. [(''status'', PStr ''ok'')]) (map (\<lambda>d. tok (dget d ''push_token'')) pending)"
    have all: "\<forall>x \<in> set (zip pending results). push_ok (snd x)"
      by (auto simp: results_def push_ok_def push_words dest!: set_zip_rightD)
    from record_results_go [OF assms(2) _ assms(5) row this, where t = "local_now_iso (pe_store P 2)" and k = 2 and n = 0]
    obtain m s' where "record_results (pe_store P) 2 (strip (oe_event_id ev)) (local_now_iso (pe_store P 2)) (zip pending results) 0 [] s1 = (Inr (m, []), s')" by auto
    then show ?thesis using False by (simp add: fanout_notification_push_def p assms(3) id flip: results_def map_map) (simp add: results_def)
  qed
  with u assms(4) show ?thesis unfolding deliver_notification_from_outbox_event_def by auto
qed

subsection \<open>A concrete delivery\<close>

definition demo_outbox_event :: outbox_event where
  "demo_outbox_event = \<lparr>oe_event_id = ''n'', oe_event_type = ''notification'', oe_tenant_id = ''w'', oe_workspace_id = ''w'', oe_run_id = None,
     oe_machine_id = None, oe_trace_id = [], oe_idempotency_key = [], oe_payload = [], oe_created_at = None, oe_retry_count = 0,
     oe_last_delivery_error = None, oe_last_attempted_at = None, oe_next_attempt_at = None, oe_poisoned_at = None, oe_claim_token = None,
     oe_claimed_by = None, oe_claimed_at = None, oe_claim_expires_at = None\<rparr>"

definition demo_reachable :: notification_db where
  "demo_reachable = \<lparr>notices = [], reads = [], devices = [(demo_phone ''e'')\<lparr>dv_tenant_id := ''w'', dv_workspace_id := ''w''\<rparr>], deliveries = []\<rparr>"

definition demo_pusher :: push_env where
  "demo_pusher = \<lparr>pe_store = (\<lambda>k. demo_local), pe_send = (\<lambda>n tokens. Inr (map (\<lambda>t. [(''status'', PStr ''ok'')]) tokens))\<rparr>"

lemma demo_built:
  "\<exists>n. build_notification_from_outbox_event now_iso demo_outbox_event = Some n \<and> tok (dget n ''tenant_id'') = ''w'' \<and> tok (dget n ''workspace_id'') = ''w''"
proof -
  have w: "strip ''w'' = ''w''" "text_or (PStr ''w'') ''default'' = ''w''" by (simp_all add: strip_def py_space_def text_or_def por_def sor_def)
  have "lower (strip ''notification'') = ''notification''" by (simp add: strip_def py_space_def lower_def)
  then have "ec_type (event_scope_of now_iso demo_outbox_event) = ''notification''" by (simp add: event_scope_of_def demo_outbox_event_def)
  then have "notice_parts_of (event_scope_of now_iso demo_outbox_event) = Some (plain_notification_parts (event_scope_of now_iso demo_outbox_event))"
    by (simp add: notice_parts_of_def)
  then show ?thesis by (simp add: build_notification_from_outbox_event_def Let_def notification_record_def event_scope_of_def demo_outbox_event_def w)
qed

theorem delivery_complete_witness:
  "\<exists>n s'. deliver_notification_from_outbox_event demo_local demo_pusher demo_outbox_event demo_reachable = (Inr (Some n), s')
    \<and> row_of nt_id ''n'' (notices s') = Some (notification_values demo_local n) \<and> delivered_to ''n'' ''e'' s'"
proof -
  obtain n where n: "build_notification_from_outbox_event (local_now_iso demo_local) demo_outbox_event = Some n" "tok (dget n ''tenant_id'') = ''w''"
    "tok (dget n ''workspace_id'') = ''w''" using demo_built by blast
  have id: "strip (oe_event_id demo_outbox_event) = ''n''" "strip (oe_event_id demo_outbox_event) \<noteq> []" by (simp_all add: demo_outbox_event_def notice_words)
  obtain s' where go: "deliver_notification_from_outbox_event demo_local demo_pusher demo_outbox_event demo_reachable = (Inr (Some n), s')"
    using deliver_goes [OF demo_local_open _ _ n(1) id(2), of demo_pusher demo_reachable] demo_local_open by (auto simp: demo_pusher_def)
  have wf: "notifications_wf demo_reachable" by (simp add: notifications_wf_def demo_reachable_def keys_distinct_def)
  from delivery_complete [OF go wf id(2)] obtain s1 pending where s1: "upsert_notification demo_local n demo_reachable = (Inr (), s1)"
    "push_targets demo_pusher n s1 = Inr pending" "row_of nt_id ''n'' (notices s') = Some (notification_values demo_local n)"
    "\<forall>device \<in> set pending. device_token device \<noteq> [] \<longrightarrow> delivered_to ''n'' (device_token device) s'" unfolding id by blast
  have same: "devices s1 = devices demo_reachable" "deliveries s1 = []"
    using s1(1) by (auto simp: upsert_notification_def demo_reachable_def split: sum.splits if_splits)
  let ?phone = "(demo_phone ''e'')\<lparr>dv_tenant_id := ''w'', dv_workspace_id := ''w''\<rparr>"
  have phone: "dv_device ?phone = []" "dv_device_id ?phone = ''e''" "dv_provider ?phone = ''expo''" "dv_push_token ?phone = ''p''" "dv_status ?phone = ''active''"
    by (simp_all add: demo_phone_def demo_device_def)
  have w: "strip ''w'' = ''w''" "tok PNone = []" by (simp_all add: strip_def py_space_def tok_def por_def)
  have built: "tok (dget n ''id'') = ''n''" using built_id [OF n(1)] id by simp
  have st: "list_notification_delivery_statuses demo_local ''n'' s1 = Inr []"
    using demo_local_ok by (simp add: list_notification_delivery_statuses_def notice_words same)
  have dev: "list_notification_devices demo_local ''w'' ''w'' [] ''active'' s1 = Inr [device_item ?phone]"
    using demo_local_ok by (simp add: list_notification_devices_def same demo_reachable_def wants_def wants_word_def w notice_words text_desc_def phone)
  have "push_pending [] (device_item ?phone)" unfolding push_pending_def bare_device_item [OF phone(1)] phone by (simp add: push_words w)
  then have "push_targets demo_pusher n s1 = Inr [device_item ?phone]"
    unfolding push_targets_def Let_def built n(2,3) by (simp add: demo_pusher_def st dev)
  with s1(2) have "pending = [device_item ?phone]" by simp
  moreover have "device_token (device_item ?phone) = ''e''" unfolding bare_device_item [OF phone(1)] phone by (simp add: push_words)
  ultimately have "delivered_to ''n'' ''e'' s'" using s1(4) by simp
  with go s1(3) show ?thesis by blast
qed

end
