(* ===== verification/Spec2Isabelle.thy ===== *)
theory Spec2Isabelle
  imports Sync_Facade Outbox_Delivery Lane_Queue Channel_Leases Resilience Actor_Queue Kill_Switch Scheduler Machine_Recovery Session_Manager Notification_Feed Notification_Delivery
begin

text \<open>
  A model of the durable runtime of the orchestrator: the stores its runs, queues, approvals and events
  live in, the services that claim, lease, schedule and deliver over them, and the gates in front of
  them. The theories are translated from the Python under \<open>src/server_modules\<close> and, for the decisions
  on leases and queue items, from the Rust of \<open>src/empyralis-runtime-kernel\<close>.

  \<^bold>\<open>The program.\<close> A run is created in the repository (\<open>run_state_repository.py\<close>), queued on a lane
  (\<open>runtime_lane_queue.py\<close>) or claimed by a machine (\<open>machine_lease_service.py\<close>), may wait for a human
  decision (the approvals of the repository), and tells the world about itself through an outbox table
  that a delivery pass empties (\<open>outbox_service.py\<close>). A background scheduler wakes agents
  (\<open>bounded_scheduler_service.py\<close> over the table of \<open>control_plane_repository.py\<close>); a conversation turn
  first takes an execution lease (\<open>channel_concurrency_service.py\<close>), passes the quotas
  (\<open>durable_quota_store.py\<close>, \<open>request_window_quota_adapter.py\<close>, \<open>quota_policy_service.py\<close>) and the
  emergency stop (\<open>kill_switch_gate.py\<close>), and calls other services under retries and a circuit breaker
  (\<open>downstream_resilience_service.py\<close>). Every durable write asks the runtime kernel, a separate process,
  for a decision first (\<open>rust_runtime_kernel_client.py\<close>).

  \<^bold>\<open>How the code becomes definitions.\<close> An operation \<open>f(args)\<close> on a store is a definition
  \<open>f env args state\<close> that returns a result and the new state; an exception is \<open>Inl\<close> of an error datatype
  with one constructor per exception class, and state changes made before it stay. A database table is
  a list of rows (records with the columns of the \<open>CREATE TABLE\<close>), a statement a filter, an update or an
  upsert over it (\<open>Tables\<close>); rows an unordered statement returns come in the order of the table, and no
  property depends on that order. Python values of no fixed type are \<open>pyval\<close>, their dictionaries
  association lists in insertion order (\<open>Py_Base\<close>); parameters with a type annotation have that type.
  Python integers are \<open>int\<close>, moments and durations integers in microseconds. What the code reads from
  outside is the environment, a record: the clock (\<open>now\<close>), the kernel's answers (\<open>kern\<close>), the digest of a
  record, the state of the connection pool, and the fault of each statement (\<open>fault n\<close> is the error
  the driver raises at the n-th statement of the call, if it does). A property therefore holds for every
  kernel, every clock and every pattern of database failures unless a hypothesis says otherwise.

  \<^bold>\<open>The theories.\<close>

  \<^item> \<open>Py_Base\<close>: strings, dictionaries, truth values, conversions, ISO timestamps and JSON texts as Python
    has them. \<open>Tables\<close>: rows and statements. \<open>Lease_Contract\<close>, \<open>Store_Contracts\<close>: the interfaces stores
    share, as locales: a lease that nobody else can take before it expires, a key that is written once, a
    rank that never falls. They are interpreted on the queue claims, the outbox claims, the channel
    leases, the approvals, the deliveries, the registrations, the run versions and the transition log.

  \<^item> \<open>Kernel_Gate\<close> (\<open>rust_runtime_kernel_client.py\<close> and the \<open>_enforce_*\<close> functions of the repository): the
    request an operation sends, the normalised decision, and the refusals and mismatches the caller
    raises. Its lemmas say that a gate lets a call through only when the kernel allowed that very action.

  \<^item> \<open>Queue_Claims\<close>, \<open>Live_Runs\<close>, \<open>Approvals\<close>, \<open>Outbox\<close> (\<open>run_state_repository.py\<close>): the tables
    \<open>local_queue_claims\<close> and \<open>local_queue_dead_letters\<close>; \<open>live_runs\<close>, \<open>run_transitions\<close> and
    \<open>run_archive\<close>; \<open>run_approvals\<close>; \<open>runtime_outbox\<close>. \<open>Fleet\<close>: \<open>fleet_worker_registrations\<close>,
    \<open>fleet_queue_partitions\<close> and the report on the dead letters. Each has an operation datatype (\<open>claim_op\<close>,
    \<open>run_op\<close>, \<open>approval_op\<close>, \<open>outbox_op\<close>) and a step function, so that a history is a list of operations
    and an invariant is proved over \<open>fold\<close>. \<open>Sync_Facade\<close>: the \<open>sync_*\<close> wrappers.

  \<^item> \<open>Outbox_Delivery\<close> (\<open>deliver_due_outbox_events_once\<close>): a pass over the claimed events, with the sink a
    parameter that delivers, asks to retry later or fails; what the report says is what the table shows.

  \<^item> \<open>Lane_Queue\<close>: the class \<open>RuntimeLaneQueue\<close>, its round-robin choice, dispatcher and workers as steps, and
    its checkpoints. The abstract specification is four first-in first-out lists; \<open>lanes_fifo_exactly_once\<close>
    is the refinement. \<open>Actor_Queue\<close>: the lock per actor of \<open>session_manager/actor_queue.py\<close>, as a step
    relation between the atomic sections of the threads.

  \<^item> \<open>Channel_Leases\<close>: the limits of a workspace, an agent and a thread, acquisition in one transaction, release
    and the execution slot. \<open>Quota_Windows\<close>, \<open>Quota_Policy\<close>: fixed windows in SQLite, sliding windows in
    memory, and the decisions made from their verdicts. \<open>Kill_Switch\<close>: the switches of a process and their
    file, through failed writes and the changes of other processes (\<open>kill_switch_holds\<close>, with the restarts a
    stop survives). \<open>Resilience\<close>: retries and the circuit breaker, with the fuel of the loop its attempt
    count; \<open>circuit_opens\<close> says after which answers the circuit is open.

  \<^item> \<open>Local_Store\<close> (\<open>runtime_state_store.py\<close>): the SQLite file of a server, with its gate and the tables of
    sessions, turns and chat streams. \<open>Session_Manager\<close> (\<open>session_manager/manager.py\<close>, \<open>runtime_cache.py\<close>): the
    cache of runtime handles and the turns of a session over that store. A turn calls the store up to
    fifteen times; call \<open>k\<close> runs in the environment \<open>te_store k\<close>, so any of them may be refused or fail.
    The executor is a parameter that says which events it yields and whether it then raises, the consumer
    a predicate on the events it has taken that says when it stops. \<open>turn_outcome\<close> says how every such turn ends,
    \<open>manager_stays_wf\<close> what every history keeps, \<open>turn_runs_once\<close> that a turn which answered stays
    answered in every history that does not reset its session.

  \<^item> \<open>Local_State\<close> (\<open>runtime_state_store.py\<close>): the other tables of that file, live runs, the checkpoint of the
    queue, run history, channel events and application state; a multi-statement transaction counts its
    statements, any of which may fail, and commits nothing then (\<open>checkpoint_round_trip\<close>,
    \<open>event_log_keeps_newest\<close>). \<open>Notifications\<close>: notifications with their reads, devices and deliveries.
    \<open>Push_Fanout\<close> (\<open>notification_service.py\<close>): the push of a notification to the devices of its workspace over
    those tables, with the push service a parameter (\<open>delivered_pushed_once\<close>). \<open>Notification_Delivery\<close>: from
    an event of the outbox to a notification and its push, the sink behind \<open>Outbox_Delivery\<close>
    (\<open>delivery_complete\<close>). \<open>Notification_Feed\<close>: listing and marking for a user, and the stream that polls the
    store; a poll is a function of its environment and the tables it meets, a stream a fold over a history of
    them (\<open>stream_yields_newer\<close>, \<open>marks_stay_in_scope\<close>, \<open>payload_in_scope\<close>). What is said of the stream holds
    for tables whose moments can be read, and \<open>unreadable_moment_repeats\<close> shows what happens otherwise.
    Access rights, entitlements and the activity ledger are parameters.

  \<^item> \<open>Scheduler\<close>: policy, quiet hours and device limits, and the wake requests from proposal to retry. A
    request is a dictionary; \<open>wake_item\<close> is a row as the database returns it, with its JSON columns as text.

  \<^item> \<open>Kernel_Leases\<close> (\<open>lease.rs\<close>, \<open>queue.rs\<close>): the kernel's own decisions, so that the gates of the machine
    leases can be run against the kernel as it is (\<open>lease_kernel\<close>). \<open>Machine_Leases\<close>: sessions, claiming,
    releasing and the cleanup of stale claims. The callbacks of the cleanup are recorded in \<open>ms_calls\<close>; the
    status a run is given there is applied to it by \<open>lose_worker\<close> in \<open>Machine_Recovery\<close>, which follows a run
    through any number of losses. \<open>Machine_Lease_Laws\<close>, \<open>Machine_Recovery\<close>: what they guarantee.

  \<^item> This theory: the durable tables together. Each operation names the kernel action it needs, and
    \<open>ungranted_leave_no_trace\<close> shows that an operation whose action the kernel does not grant changes
    no table, whatever the history around it.

  \<^bold>\<open>Loops and bounds.\<close> Every definition is total and terminates: loops over finite collections are
    structural recursions, the waiting loops of threads are steps of a relation, the retry loop recurses on the
    attempts left, and text scanning on the text. Nothing is cut off by fuel. Integers are unbounded, as in
    Python; in \<open>Kernel_Leases\<close> the fields of type \<open>u64\<close> are integers that are checked to be below \<open>2 ^ 64\<close>
    where they are read, and the saturating operations are written out.

  \<^bold>\<open>Not modelled.\<close> The driver, the pool and the SQL planner (their documented outcomes are fields of the
    environment); log lines; floating-point delays (microseconds instead, see \<open>Resilience\<close>); characters
    beyond code point 255; the other commands of the kernel, which stay the parameter \<open>kern\<close>; the HTTP
    handlers; the channels, connectors, browser and provider adapters, which are network I/O; the run
    engine that executes a plan; of \<open>runtime_state_store.py\<close> the creation of the tables and the rehearsal of a
    restore; of \<open>notification_service.py\<close> the registration of devices and the HTTP call to the push service; the process-wide instances of the lane queue and
    the session manager.
\<close>

section \<open>Every durable write has a permission\<close>

subsection \<open>The durable state and its operations\<close>

record durable_state =
  ds_runs :: run_store
  ds_queue :: local_queue
  ds_outbox :: outbox
  ds_approvals :: approvals
  ds_leases :: channel_store
  ds_wakes :: wake_table
  ds_fleet :: fleet

datatype wake_op =
    OpAppendWake sched_env nat string string new_wake
  | OpClaimWakes sched_env nat string string int int
  | OpUpdateWake sched_env nat string string string string "string option" "pydict option"

fun wake_step :: "wake_op \<Rightarrow> wake_table \<Rightarrow> wake_table" where
  "wake_step (OpAppendWake S k t w new) tab = snd (append_agent_scheduler_wake_request S k t w new tab)"
| "wake_step (OpClaimWakes S k t w due limit) tab = snd (claim_due_agent_scheduler_wake_requests S k t w due limit tab)"
| "wake_step (OpUpdateWake S k t w i status denial patch) tab =
     snd (update_agent_scheduler_wake_request_status S k t w i status denial patch tab)"

datatype durable_op =
    RunOp run_op
  | QueueOp claim_op
  | OutboxOp outbox_op
  | ApprovalOp approval_op
  | LeaseOp channel_op
  | WakeOp wake_op
  | FleetOp fleet_op

fun durable_step :: "durable_op \<Rightarrow> durable_state \<Rightarrow> durable_state" where
  "durable_step (RunOp op) d = d\<lparr>ds_runs := run_step op (ds_runs d)\<rparr>"
| "durable_step (QueueOp op) d = d\<lparr>ds_queue := claim_step op (ds_queue d)\<rparr>"
| "durable_step (OutboxOp op) d = d\<lparr>ds_outbox := outbox_step op (ds_outbox d)\<rparr>"
| "durable_step (ApprovalOp op) d = d\<lparr>ds_approvals := approval_step op (ds_approvals d)\<rparr>"
| "durable_step (LeaseOp op) d = d\<lparr>ds_leases := channel_step op (ds_leases d)\<rparr>"
| "durable_step (WakeOp op) d = d\<lparr>ds_wakes := wake_step op (ds_wakes d)\<rparr>"
| "durable_step (FleetOp op) d = d\<lparr>ds_fleet := fleet_step op (ds_fleet d)\<rparr>"

text \<open>The environment an operation runs in, and the kernel actions it may write under.\<close>

fun durable_permission :: "durable_op \<Rightarrow> repo_env \<times> string list" where
  "durable_permission (RunOp op) = (fst (run_op_action op), [snd (run_op_action op)])"
| "durable_permission (QueueOp (OpClaim E run w ttl tr l)) = (E, [''claim_queue_item''])"
| "durable_permission (QueueOp (OpRelease E run l)) = (E, [''release_queue_item''])"
| "durable_permission (QueueOp (OpTouch E run w l n p)) = (E, [''claim_queue_item''])"
| "durable_permission (QueueOp (OpDeadLetter E run ten ws sp rs tr n p)) = (E, [''dead_letter_queue_item''])"
| "durable_permission (OutboxOp (OpPersist E ev ty ten w run m tr ik p)) = (E, [''persist_outbox_event''])"
| "durable_permission (OutboxOp (OpClaimDue nonce E old lim who ttl ten w run ty)) = (E, [''claim_due_outbox_events''])"
| "durable_permission (OutboxOp (OpPatch E ev p)) = (E, [''patch_outbox_event_payload''])"
| "durable_permission (OutboxOp (OpDelivered E ev cl)) = (E, [''mark_outbox_event_delivered''])"
| "durable_permission (OutboxOp (OpFailure E ev cl err d p i)) = (E, [''record_outbox_delivery_failure''])"
| "durable_permission (ApprovalOp (OpRequest ts E run ap p actor tr meta ex)) = (E, [''write_run_approval_request''])"
| "durable_permission (ApprovalOp (OpResolve E run ap res actor tr note d)) = (E, [''resolve_run_approval''])"
| "durable_permission (ApprovalOp (OpRecord E run ap res actor tr note)) = (E, [''record_run_approval_resolution''])"
| "durable_permission (ApprovalOp (OpListPending E limit)) = (E, [])"
| "durable_permission (ApprovalOp (OpListPage E limit offset w)) = (E, [])"
| "durable_permission (ApprovalOp (OpGetApproval E ap)) = (E, [])"
| "durable_permission (LeaseOp (OpAcquire C r)) = (repo C, [''acquire_channel_execution_lease''])"
| "durable_permission (LeaseOp (OpReleaseLease C t w i)) = (repo C, [''release_channel_execution_lease''])"
| "durable_permission (WakeOp (OpAppendWake S k t w new)) =
     (sched_repo S, [''schedule_event_trigger'', ''schedule_self_proposed_trigger'', ''trigger_wakeup''])"
| "durable_permission (WakeOp (OpClaimWakes S k t w due limit)) = (sched_repo S, [''claim_due_wake_requests''])"
| "durable_permission (WakeOp (OpUpdateWake S k t w i status denial patch)) =
     (sched_repo S, [''schedule_retry'', ''record_scheduler_failure'', ''finalize_wake_requests''])"
| "durable_permission (FleetOp (OpWorker E r seen)) = (E, [''write_runtime_registration''])"
| "durable_permission (FleetOp (OpPartition E a)) = (E, [''write_fleet_queue_partition''])"

definition permitted :: "durable_op \<Rightarrow> bool" where
  "permitted op = (case durable_permission op of (E, actions) \<Rightarrow> \<exists>a \<in> set actions. allowed E a)"

text \<open>Two states that hold the same but for the normalisation every approval call applies to the rows it finds.\<close>

definition same_durable :: "durable_state \<Rightarrow> durable_state \<Rightarrow> bool" where
  "same_durable d d' \<longleftrightarrow> ds_runs d' = ds_runs d \<and> ds_queue d' = ds_queue d \<and> ds_outbox d' = ds_outbox d
     \<and> ds_leases d' = ds_leases d \<and> ds_wakes d' = ds_wakes d \<and> ds_fleet d' = ds_fleet d
     \<and> ensure_run_approval_table (ds_approvals d') = ensure_run_approval_table (ds_approvals d)"

subsection \<open>One operation at a time\<close>

definition unless :: "bool \<Rightarrow> 's \<Rightarrow> ('r \<times> 's) set" where
  "unless permit s = {(r, s'). s' = s \<or> permit}"

lemma unless_permit: "permit \<Longrightarrow> (r, s') \<in> unless permit s"
  by (simp add: unless_def)

lemma unless_same: "(r, s) \<in> unless permit s"
  by (simp add: unless_def)

lemma unless_snd: "c \<in> unless permit s \<Longrightarrow> \<not> permit \<Longrightarrow> snd c = s"
  by (auto simp: unless_def)

lemma claim_permitted: "claim_run E run w ttl tr l q \<in> unless (allowed E ''claim_queue_item'') q"
  unfolding claim_run_def Let_def
  by (intro branch unless_same unless_permit) (auto simp: next_action_tables dest: queue_allowed)

lemma release_permitted: "release_claim E run l q \<in> unless (allowed E ''release_queue_item'') q"
  unfolding release_claim_def Let_def
  by (intro branch unless_same unless_permit) (auto simp: next_action_tables dest: queue_allowed)

lemma dead_letter_permitted:
  "append_local_queue_dead_letter E run ten ws sp rs tr n p q \<in> unless (allowed E ''dead_letter_queue_item'') q"
  unfolding append_local_queue_dead_letter_def Let_def
  by (intro branch unless_same unless_permit) (auto simp: next_action_tables dest: queue_allowed)

lemma touch_permitted: "touch_claim_heartbeat E run w l n p q \<in> unless (allowed E ''claim_queue_item'') q"
  unfolding touch_claim_heartbeat_def Let_def
  by (intro branch unless_same unless_permit) (auto simp: next_action_tables dest: queue_allowed)

lemma persist_permitted:
  "persist_outbox_event E ev ty ten w run m tr ik p s \<in> unless (allowed E ''persist_outbox_event'') s"
  unfolding persist_outbox_event_def Let_def
  by (intro branch unless_same unless_permit) (auto simp: next_action_tables dest: outbox_allowed)

lemma claim_due_permitted:
  "claim_due_outbox_events nonce E old lim who ttl ten w run ty s \<in> unless (allowed E ''claim_due_outbox_events'') s"
  unfolding claim_due_outbox_events_def Let_def
  by (intro branch unless_same unless_permit) (auto simp: next_action_tables dest: outbox_allowed)

lemma patch_permitted: "patch_outbox_event_payload E ev p s \<in> unless (allowed E ''patch_outbox_event_payload'') s"
  unfolding patch_outbox_event_payload_def Let_def
  by (intro branch unless_same unless_permit) (auto simp: next_action_tables dest: outbox_allowed)

lemma delivered_permitted: "mark_outbox_event_delivered E ev cl s \<in> unless (allowed E ''mark_outbox_event_delivered'') s"
  unfolding mark_outbox_event_delivered_def Let_def
  by (intro branch unless_same unless_permit) (auto simp: next_action_tables dest: outbox_allowed)

lemma failure_permitted:
  "record_outbox_delivery_failure E ev cl err d p i s \<in> unless (allowed E ''record_outbox_delivery_failure'') s"
  unfolding record_outbox_delivery_failure_def Let_def
  by (intro branch unless_same unless_permit) (auto simp: next_action_tables dest: outbox_allowed)

lemma lease_allowed: "enforce_lease_transition E operation r i snap = Inr u \<Longrightarrow> allowed E (strip operation)"
  by (auto simp: enforce_lease_transition_def Let_def allowed_def kernel_permits_def dest: enforced_permits(1,2)
      split: sum.splits if_splits)

lemma strip_lease_operations:
  "strip ''acquire_channel_execution_lease'' = ''acquire_channel_execution_lease''"
  "strip ''release_channel_execution_lease'' = ''release_channel_execution_lease''"
  by (simp_all add: strip_def py_space_def)

lemma acquire_permitted: "acquire_channel_execution_lease C r s \<in> unless (allowed (repo C) ''acquire_channel_execution_lease'') s"
  unfolding acquire_channel_execution_lease_def Let_def
  by (intro branch unless_same unless_permit) (auto simp: strip_lease_operations dest: lease_allowed)

lemma release_lease_permitted:
  "release_channel_execution_lease C t w i s \<in> unless (allowed (repo C) ''release_channel_execution_lease'') s"
  unfolding release_channel_execution_lease_def Let_def
  by (intro branch unless_same unless_permit) (auto simp: strip_lease_operations dest: lease_allowed)

lemma wake_allowed:
  assumes "enforce_scheduler_wake_repository_decision S k r = Inr d" and "scheduler_wake_next_actions (wq_operation r) = Some [a]"
  shows "allowed (sched_repo S) a"
proof -
  obtain request d' where "run_runtime_kernel_enforced (sched_repo S) ''session-scheduler-decision'' request = Inr d'"
    and "check_next_action ''scheduler_wake_repository'' ''session-scheduler-decision'' scheduler_wake_next_actions (wq_operation r) d' = Inr d"
    using assms(1) by (auto simp: enforce_scheduler_wake_repository_decision_def split: sum.splits)
  from gate_permits [OF this] assms(2) show ?thesis by (auto simp: allowed_def)
qed

lemma wake_operation_cases:
  "scheduler_wake_next_actions (scheduler_wake_operation kind) \<in>
     {Some [''schedule_event_trigger''], Some [''schedule_self_proposed_trigger''], Some [''trigger_wakeup'']}"
  "scheduler_wake_next_actions (wake_update_operation status meta) \<in>
     {Some [''schedule_retry''], Some [''record_scheduler_failure''], Some [''finalize_wake_requests'']}"
  "scheduler_wake_next_actions ''claim_wake_requests'' = Some [''claim_due_wake_requests'']"
  by (simp_all add: scheduler_wake_next_actions_def scheduler_wake_operation_def wake_update_operation_def Let_def)

lemma wake_defaults_operation [simp]: "wq_operation (wake_defaults operation t w i) = operation"
  by (simp add: wake_defaults_def)

lemma wake_gate_permits:
  assumes "enforce_scheduler_wake_repository_decision S k r = Inr d"
  shows "wq_operation r = scheduler_wake_operation kind \<Longrightarrow>
      \<exists>a \<in> {''schedule_event_trigger'', ''schedule_self_proposed_trigger'', ''trigger_wakeup''}. allowed (sched_repo S) a"
    and "wq_operation r = wake_update_operation status meta \<Longrightarrow>
      \<exists>a \<in> {''schedule_retry'', ''record_scheduler_failure'', ''finalize_wake_requests''}. allowed (sched_repo S) a"
    and "wq_operation r = ''claim_wake_requests'' \<Longrightarrow> allowed (sched_repo S) ''claim_due_wake_requests''"
proof -
  have some: "\<exists>a \<in> {x, y, z}. allowed (sched_repo S) a" if "scheduler_wake_next_actions (wq_operation r) \<in> {Some [x], Some [y], Some [z]}" for x y z
    using wake_allowed [OF assms, of x] wake_allowed [OF assms, of y] wake_allowed [OF assms, of z] that by blast
  show "wq_operation r = scheduler_wake_operation kind \<Longrightarrow>
      \<exists>a \<in> {''schedule_event_trigger'', ''schedule_self_proposed_trigger'', ''trigger_wakeup''}. allowed (sched_repo S) a"
    using wake_operation_cases(1) [of kind] by (intro some) simp
  show "wq_operation r = wake_update_operation status meta \<Longrightarrow>
      \<exists>a \<in> {''schedule_retry'', ''record_scheduler_failure'', ''finalize_wake_requests''}. allowed (sched_repo S) a"
    using wake_operation_cases(2) [of status meta] by (intro some) simp
  show "wq_operation r = ''claim_wake_requests'' \<Longrightarrow> allowed (sched_repo S) ''claim_due_wake_requests''"
    by (rule wake_allowed [OF assms]) (simp add: wake_operation_cases(3))
qed

lemma append_wake_permitted:
  "append_agent_scheduler_wake_request S k t w new tab \<in> unless (permitted (WakeOp (OpAppendWake S k t w new))) tab"
proof -
  have gate: "permitted (WakeOp (OpAppendWake S k t w new))"
    if "enforce_scheduler_wake_repository_decision S k' r = Inr d" "wq_operation r = scheduler_wake_operation kind" for k' r d kind
    using wake_gate_permits(1) [OF that] by (simp add: permitted_def)
  show ?thesis unfolding append_agent_scheduler_wake_request_def Let_def
    by (intro branch unless_same unless_permit) (rule gate, assumption, simp)+
qed

lemma claim_wakes_permitted:
  "claim_due_agent_scheduler_wake_requests S k t w due limit tab \<in> unless (permitted (WakeOp (OpClaimWakes S k t w due limit))) tab"
proof -
  have gate: "permitted (WakeOp (OpClaimWakes S k t w due limit))"
    if "enforce_scheduler_wake_repository_decision S k' r = Inr d" "wq_operation r = ''claim_wake_requests''" for k' r d
    using wake_gate_permits(3) [OF that] by (simp add: permitted_def)
  show ?thesis unfolding claim_due_agent_scheduler_wake_requests_def Let_def
    by (intro branch unless_same unless_permit) (rule gate, assumption, simp)+
qed

lemma update_wake_permitted:
  "update_agent_scheduler_wake_request_status S k t w i status denial patch tab
     \<in> unless (permitted (WakeOp (OpUpdateWake S k t w i status denial patch))) tab"
proof -
  have gate: "permitted (WakeOp (OpUpdateWake S k t w i status denial patch))"
    if "enforce_scheduler_wake_repository_decision S k' r = Inr d" "wq_operation r = wake_update_operation st meta" for k' r d st meta
    using wake_gate_permits(2) [OF that] by (simp add: permitted_def)
  show ?thesis unfolding update_agent_scheduler_wake_request_status_def Let_def
    by (intro branch unless_same unless_permit) (rule gate, assumption, simp)+
qed

subsubsection \<open>Approvals\<close>

lemma ensured_twice [simp]: "ensure_run_approval_table (ensure_run_approval_table s) = ensure_run_approval_table s"
  by (auto simp: ensure_run_approval_table_def ensured_row_def final_resolutions_def lower_def)

definition settled_unless :: "bool \<Rightarrow> approvals \<Rightarrow> ('r \<times> approvals) set" where
  "settled_unless permit s = {(r, s'). ensure_run_approval_table s' = ensure_run_approval_table s \<or> permit}"

lemma settled_rules:
  "(r, s) \<in> settled_unless permit s" "(r, ensure_run_approval_table s) \<in> settled_unless permit s" "permit \<Longrightarrow> (r, s') \<in> settled_unless permit s"
  by (simp_all add: settled_unless_def)

lemma request_permitted:
  "create_or_update_approval_request ts E run ap p actor tr meta ex s \<in> settled_unless (allowed E ''write_run_approval_request'') s"
  unfolding create_or_update_approval_request_def Let_def
  by (intro branch settled_rules) (auto simp: next_action_tables dest: store_allowed)

lemma resolve_permitted:
  "resolve_approval_if_pending E run ap res actor tr note d s \<in> settled_unless (allowed E ''resolve_run_approval'') s"
  unfolding resolve_approval_if_pending_def Let_def
  by (intro branch settled_rules) (auto simp: next_action_tables dest: store_allowed)

lemma record_permitted:
  "record_approval_resolution E run ap res actor tr note s \<in> settled_unless (allowed E ''record_run_approval_resolution'') s"
  unfolding record_approval_resolution_def Let_def
  by (intro branch settled_rules) (auto simp: next_action_tables dest: store_allowed)

lemma read_settled [simp]: "ensure_run_approval_table (snd (read_approvals E operation dflt query s)) = ensure_run_approval_table s"
proof -
  have "read_approvals E operation dflt query s \<in> settled_unless False s"
    unfolding read_approvals_def Let_def by (intro branch settled_rules)
  then show ?thesis by (auto simp: settled_unless_def)
qed

text \<open>Runs of one approval call from two tables that are the same once normalised.\<close>

definition settle_alike :: "'r \<times> approvals \<Rightarrow> 'q \<times> approvals \<Rightarrow> bool" where
  "settle_alike c c' \<longleftrightarrow> ensure_run_approval_table (snd c) = ensure_run_approval_table (snd c')"

lemma alike_leaf: "ensure_run_approval_table s = ensure_run_approval_table s' \<Longrightarrow> settle_alike (r, s) (r', s')"
  by (simp add: settle_alike_def)

lemma alike_if: "(c \<Longrightarrow> settle_alike a a') \<Longrightarrow> (\<not> c \<Longrightarrow> settle_alike b b') \<Longrightarrow> settle_alike (if c then a else b) (if c then a' else b')"
  by simp

lemma alike_sum:
  "(\<And>e. settle_alike (f e) (f' e)) \<Longrightarrow> (\<And>a. settle_alike (g a) (g' a)) \<Longrightarrow> settle_alike (case_sum f g x) (case_sum f' g' x)"
  by (cases x) simp_all

lemma alike_option:
  "settle_alike a a' \<Longrightarrow> (\<And>v. settle_alike (f v) (f' v)) \<Longrightarrow> settle_alike (case_option a f x) (case_option a' f' x)"
  by (cases x) simp_all

lemma alike_bool: "settle_alike a a' \<Longrightarrow> settle_alike b b' \<Longrightarrow> settle_alike (case_bool a b x) (case_bool a' b' x)"
  by (cases x) simp_all

lemmas alike_rules = alike_if alike_sum alike_option alike_bool alike_leaf

lemma approval_step_alike:
  assumes "ensure_run_approval_table s = ensure_run_approval_table s'"
  shows "ensure_run_approval_table (approval_step op s) = ensure_run_approval_table (approval_step op s')"
proof -
  show ?thesis
  proof (cases op)
    case (OpRequest ts E run ap p actor tr meta ex)
    have "settle_alike (create_or_update_approval_request ts E run ap p actor tr meta ex s) (create_or_update_approval_request ts E run ap p actor tr meta ex s')"
      unfolding create_or_update_approval_request_def Let_def assms by (intro alike_rules) (simp_all add: assms settle_alike_def)
    with OpRequest show ?thesis by (simp add: settle_alike_def)
  next
    case (OpResolve E run ap res actor tr nt d)
    have "settle_alike (resolve_approval_if_pending E run ap res actor tr nt d s) (resolve_approval_if_pending E run ap res actor tr nt d s')"
      unfolding resolve_approval_if_pending_def Let_def assms by (intro alike_rules) (simp_all add: assms settle_alike_def)
    with OpResolve show ?thesis by (simp add: settle_alike_def)
  next
    case (OpRecord E run ap res actor tr nt)
    have "settle_alike (record_approval_resolution E run ap res actor tr nt s) (record_approval_resolution E run ap res actor tr nt s')"
      unfolding record_approval_resolution_def Let_def assms by (intro alike_rules) (simp_all add: assms settle_alike_def)
    with OpRecord show ?thesis by (simp add: settle_alike_def)
  qed (use assms in \<open>simp_all add: list_pending_approvals_def list_pending_approvals_page_def get_approval_record_def Let_def\<close>)
qed

lemma approval_step_settled:
  "\<not> permitted (ApprovalOp op) \<Longrightarrow> ensure_run_approval_table (approval_step op s) = ensure_run_approval_table s"
proof (cases op)
  case (OpRequest ts E run ap p actor tr meta ex)
  assume "\<not> permitted (ApprovalOp op)"
  with OpRequest request_permitted [of ts E run ap p actor tr meta ex s] show ?thesis by (auto simp: permitted_def settled_unless_def)
next
  case (OpResolve E run ap res actor tr nt d)
  assume "\<not> permitted (ApprovalOp op)"
  with OpResolve resolve_permitted [of E run ap res actor tr nt d s] show ?thesis by (auto simp: permitted_def settled_unless_def)
next
  case (OpRecord E run ap res actor tr nt)
  assume "\<not> permitted (ApprovalOp op)"
  with OpRecord record_permitted [of E run ap res actor tr nt s] show ?thesis by (auto simp: permitted_def settled_unless_def)
qed (simp_all add: list_pending_approvals_def list_pending_approvals_page_def get_approval_record_def Let_def)

subsection \<open>Histories\<close>

lemma step_same:
  assumes "\<not> permitted op" shows "same_durable d (durable_step op d)"
proof (cases op)
  case (RunOp r)
  with assms run_step_cases [of r "ds_runs d"] show ?thesis by (auto simp: same_durable_def permitted_def split: prod.splits)
next
  case (QueueOp q)
  with assms show ?thesis
    by (cases q) (auto simp: same_durable_def permitted_def unless_snd [OF claim_permitted] unless_snd [OF release_permitted]
        unless_snd [OF touch_permitted] unless_snd [OF dead_letter_permitted])
next
  case (OutboxOp q)
  with assms show ?thesis
    by (cases q) (auto simp: same_durable_def permitted_def unless_snd [OF persist_permitted] unless_snd [OF claim_due_permitted]
        unless_snd [OF patch_permitted] unless_snd [OF delivered_permitted] unless_snd [OF failure_permitted])
next
  case (ApprovalOp q)
  with assms approval_step_settled [of q] show ?thesis by (simp add: same_durable_def)
next
  case (LeaseOp q)
  with assms show ?thesis
    by (cases q) (auto simp: same_durable_def permitted_def unless_snd [OF acquire_permitted] unless_snd [OF release_lease_permitted])
next
  case (WakeOp q)
  with assms show ?thesis
    by (cases q) (simp_all add: same_durable_def unless_snd [OF append_wake_permitted] unless_snd [OF claim_wakes_permitted] unless_snd [OF update_wake_permitted])
next
  case (FleetOp q)
  with assms fleet_step_cases [of q "ds_fleet d"] show ?thesis
    by (auto simp: same_durable_def permitted_def registers_def keeps_partitions_def)
qed

lemma step_congruent: "same_durable d d' \<Longrightarrow> same_durable (durable_step op d) (durable_step op d')"
  by (cases op) (auto simp: same_durable_def intro: approval_step_alike)

lemma same_durable_trans: "same_durable a b \<Longrightarrow> same_durable b c \<Longrightarrow> same_durable a c"
  by (simp add: same_durable_def)

text \<open>
  C21. Operations the kernel never grants leave no durable trace: in any history over the run store, the
  local queue, the outbox, the approvals, the channel leases, the wake requests and the fleet, leaving them
  out gives the same durable state.
\<close>

theorem ungranted_leave_no_trace: "same_durable (fold durable_step (filter permitted ops) d) (fold durable_step ops d)"
proof -
  have "same_durable (fold durable_step (filter permitted ops) a) (fold durable_step ops b)" if "same_durable a b" for a b
    using that
  proof (induction ops arbitrary: a b)
    case (Cons op ops)
    show ?case
    proof (cases "permitted op")
      case True
      with Cons.IH [OF step_congruent [OF Cons.prems]] show ?thesis by simp
    next
      case False
      with Cons.IH [OF same_durable_trans [OF Cons.prems step_same]] show ?thesis by simp
    qed
  qed simp
  then show ?thesis by (simp add: same_durable_def)
qed

end
